(* ===== verification/Prelude.thy ===== *)
theory Prelude
  imports Complex_Main
    "HOL-Library.List_Lexorder" "HOL-Library.Char_ord" "HOL-Library.Product_Lexorder"
    "HOL-Library.Multiset" "HOL-Library.Sublist" "HOL-Library.AList"
begin

text \<open>
  Shared vocabulary of the development: the result type of fallible operations, Go's sorting by
  a comparison function, the loops that remove duplicates, association lists standing for Go
  maps, and the interface of a \<open>uniqueSorted\<close> helper, which nearly every package of the
  repository declares once more for itself.
\<close>

section \<open>Fact collections\<close>

named_theorems norm_facts \<open>what the list normalisers of the packages return\<close>
named_theorems record_facts \<open>frame facts: which fields an operation leaves alone\<close>
named_theorems branch_facts \<open>what an operation does on one of its branches\<close>

section \<open>Results\<close>

type_synonym ('e, 'a) result = "'e + 'a"

definition bind_result :: "('e, 'a) result \<Rightarrow> ('a \<Rightarrow> ('e, 'b) result) \<Rightarrow> ('e, 'b) result" where
  "bind_result r f = (case r of Inl e \<Rightarrow> Inl e | Inr x \<Rightarrow> f x)"

lemma bind_result_simps [simp]:
  "bind_result (Inl e) f = Inl e"
  "bind_result (Inr x) f = f x"
  by (simp_all add: bind_result_def)

lemma bind_result_Inr_iff:
  "bind_result r f = Inr y \<longleftrightarrow> (\<exists>x. r = Inr x \<and> f x = Inr y)"
  by (cases r) auto

section \<open>Searching\<close>

lemma find_SomeD: "find P xs = Some x \<Longrightarrow> x \<in> set xs \<and> P x"
  by (auto simp: find_Some_iff)

section \<open>Sorting by a comparison function\<close>

text \<open>
  \<open>sort.Slice\<close> and \<open>sort.SliceStable\<close> take a strict comparison. Up to twelve elements
  (twenty for the stable variant) both run the insertion sort below: each new element walks left
  past the elements it is smaller than. The list being built is kept reversed.
\<close>

fun insert_back :: "('a \<Rightarrow> 'a \<Rightarrow> bool) \<Rightarrow> 'a \<Rightarrow> 'a list \<Rightarrow> 'a list" where
  "insert_back lt x [] = [x]"
| "insert_back lt x (y # ys) =
     (if lt x y then y # insert_back lt x ys else x # y # ys)"

definition flag :: "bool \<Rightarrow> string \<Rightarrow> string list" where
  "flag b s = (if b then [s] else [])"

definition go_sort :: "('a \<Rightarrow> 'a \<Rightarrow> bool) \<Rightarrow> 'a list \<Rightarrow> 'a list" where
  "go_sort lt xs = rev (fold (insert_back lt) xs [])"

lemma mset_insert_back [simp]: "mset (insert_back lt x ys) = add_mset x (mset ys)"
  by (induction ys) auto

lemma set_insert_back [simp]: "set (insert_back lt x ys) = insert x (set ys)"
  by (metis mset_insert_back set_mset_add_mset_insert set_mset_mset)

lemma mset_fold_insert_back:
  "mset (fold (insert_back lt) xs acc) = mset xs + mset acc"
  by (induction xs arbitrary: acc) auto

lemma mset_go_sort [simp]: "mset (go_sort lt xs) = mset xs"
  by (simp add: go_sort_def mset_fold_insert_back)

lemma set_go_sort [simp]: "set (go_sort lt xs) = set xs"
  by (metis mset_go_sort set_mset_mset)

lemma length_go_sort [simp]: "length (go_sort lt xs) = length xs"
  by (metis mset_go_sort size_mset)

lemma go_sort_Nil [simp]: "go_sort lt [] = []"
  by (simp add: go_sort_def)

lemma go_sort_eq_Nil [simp]: "go_sort lt xs = [] \<longleftrightarrow> xs = []"
  by (metis length_0_conv length_go_sort)

lemma distinct_go_sort [simp]: "distinct (go_sort lt xs) = distinct xs"
  by (metis mset_eq_imp_distinct_iff mset_go_sort)

lemma insert_back_desc:
  assumes "\<And>a b. lt a b \<longleftrightarrow> k a < (k b :: 'k :: linorder)"
    and "sorted (rev (map k ys))"
  shows "sorted (rev (map k (insert_back lt x ys)))"
  using assms(2)
  by (induction ys) (auto simp: assms(1) sorted_append)

lemma insert_back_same_key:
  assumes "\<And>a b. lt a b \<longleftrightarrow> k a < (k b :: 'k :: linorder)"
    and "sorted (rev (map k ys))"
  shows "filter (\<lambda>y. k y = c) (rev (insert_back lt x ys)) =
    filter (\<lambda>y. k y = c) (rev ys @ [x])"
  using assms(2)
proof (induction ys)
  case (Cons y ys)
  show ?case
  proof (cases "lt x y")
    case True
    then have "k x < k y" by (simp add: assms(1))
    moreover have "sorted (rev (map k ys))" using Cons.prems by (simp add: sorted_append)
    ultimately show ?thesis using Cons.IH by auto
  qed auto
qed simp

lemma go_sort_step:
  assumes "\<And>a b. lt a b \<longleftrightarrow> k a < (k b :: 'k :: linorder)"
    and "sorted (rev (map k acc))"
  shows "sorted (map k (rev (fold (insert_back lt) xs acc))) \<and>
    filter (\<lambda>y. k y = c) (rev (fold (insert_back lt) xs acc)) =
      filter (\<lambda>y. k y = c) (rev acc @ xs)"
  using assms(2)
proof (induction xs arbitrary: acc)
  case Nil
  then show ?case by (simp add: rev_map)
next
  case (Cons x xs)
  have "sorted (rev (map k (insert_back lt x acc)))"
    using assms(1) Cons.prems by (rule insert_back_desc)
  from Cons.IH [OF this] show ?case
    using insert_back_same_key [of lt k acc c x, OF assms(1) Cons.prems] by simp
qed

text \<open>
  When the comparison is that of a linearly ordered key, the result is the stable sort by that
  key, so the theorems of \<open>sort_key\<close> apply.
\<close>

lemma go_sort_key:
  assumes "\<And>a b. lt a b \<longleftrightarrow> k a < (k b :: 'k :: linorder)"
  shows "go_sort lt xs = sort_key k xs"
proof (rule sym, rule properties_for_sort_key)
  show "sorted (map k (go_sort lt xs))"
    using go_sort_step [of lt k "[]" xs, OF assms] by (simp add: go_sort_def)
  fix c
  have "filter (\<lambda>y. k y = k c) (go_sort lt xs) = filter (\<lambda>y. k y = k c) xs"
    using go_sort_step [of lt k "[]" xs "k c", OF assms] by (simp add: go_sort_def)
  then show "filter (\<lambda>y. k c = k y) (go_sort lt xs) = filter (\<lambda>y. k c = k y) xs"
    by (simp add: eq_commute [of "k c"])
qed simp

lemma go_sort_sorted:
  assumes "\<And>a b. lt a b \<longleftrightarrow> k a < (k b :: 'k :: linorder)"
  shows "sorted (map k (go_sort lt xs))"
  by (simp add: go_sort_key [OF assms])

text \<open>Only the comparisons between elements of the list matter.\<close>

lemma insert_back_cong:
  "(\<And>y. y \<in> set ys \<Longrightarrow> lt x y = lt' x y) \<Longrightarrow> insert_back lt x ys = insert_back lt' x ys"
  by (induction ys) auto

lemma go_sort_cong:
  assumes "\<And>a b. a \<in> set xs \<Longrightarrow> b \<in> set xs \<Longrightarrow> lt a b = lt' a b"
  shows "go_sort lt xs = go_sort lt' xs"
proof -
  have "fold (insert_back lt) ys acc = fold (insert_back lt') ys acc"
    if "set ys \<subseteq> set xs" "set acc \<subseteq> set xs" for ys acc
    using that
  proof (induction ys arbitrary: acc)
    case (Cons y ys)
    then have "insert_back lt y acc = insert_back lt' y acc"
      using assms by (intro insert_back_cong) auto
    with Cons show ?case by auto
  qed simp
  from this [of xs "[]"] show ?thesis by (simp add: go_sort_def)
qed

lemma go_sort_key_on:
  assumes "\<And>a b. a \<in> set xs \<Longrightarrow> b \<in> set xs \<Longrightarrow> lt a b \<longleftrightarrow> k a < (k b :: 'k :: linorder)"
  shows "go_sort lt xs = sort_key k xs"
  using go_sort_cong [of xs lt "\<lambda>a b. k a < k b"] assms go_sort_key [of "\<lambda>a b. k a < k b" k xs]
  by simp

text \<open>An injective key makes the sorted list independent of the order of the input.\<close>

lemma sort_key_perm:
  assumes "mset xs = mset ys" and "inj_on k (set xs)"
  shows "sort_key k xs = sort_key k ys"
proof (rule properties_for_sort_key)
  show "mset (sort_key k ys) = mset xs" using assms(1) by simp
  show "sorted (map k (sort_key k ys))" by simp
  fix c
  assume "c \<in> set (sort_key k ys)"
  then have c: "c \<in> set xs" by (metis assms(1) set_mset_mset set_sort)
  have eq: "filter (\<lambda>y. k c = k y) zs = replicate (count (mset zs) c) c"
    if "mset zs = mset xs" for zs
  proof -
    have "set zs = set xs" by (metis that set_mset_mset)
    then have "filter (\<lambda>y. k c = k y) zs = filter (\<lambda>y. c = y) zs"
      using assms(2) c by (intro filter_cong) (auto simp: inj_on_def)
    also have "\<dots> = replicate (length (filter (\<lambda>y. c = y) zs)) c"
      by (intro replicate_eqI) auto
    also have "length (filter (\<lambda>y. c = y) zs) = count (mset zs) c"
      by (induction zs) auto
    finally show ?thesis .
  qed
  show "filter (\<lambda>y. k c = k y) (sort_key k ys) = filter (\<lambda>y. k c = k y) xs"
    using eq [of "sort_key k ys"] eq [of xs] assms(1) by simp
qed

section \<open>Removing duplicates\<close>

text \<open>The loop over a \<open>seen\<close> set that keeps the first occurrence of every element.\<close>

fun dedup_seen :: "'a list \<Rightarrow> 'a list \<Rightarrow> 'a list" where
  "dedup_seen seen [] = []"
| "dedup_seen seen (x # xs) =
     (if x \<in> set seen then dedup_seen seen xs else x # dedup_seen (x # seen) xs)"

definition dedup :: "'a list \<Rightarrow> 'a list" where
  "dedup xs = dedup_seen [] xs"

lemma set_dedup_seen: "set (dedup_seen seen xs) = set xs - set seen"
  by (induction seen xs rule: dedup_seen.induct) auto

lemma distinct_dedup_seen: "distinct (dedup_seen seen xs)"
  by (induction seen xs rule: dedup_seen.induct) (auto simp: set_dedup_seen)

lemma set_dedup [simp]: "set (dedup xs) = set xs"
  by (simp add: dedup_def set_dedup_seen)

lemma distinct_dedup [simp]: "distinct (dedup xs)"
  by (simp add: dedup_def distinct_dedup_seen)

lemma distinct_remdups_adj_sorted: "sorted xs \<Longrightarrow> distinct (remdups_adj xs)"
  by (induction xs rule: remdups_adj.induct) auto

section \<open>Go maps as association lists\<close>

lemma map_of_update [simp]: "map_of (AList.update k v m) = (map_of m)(k \<mapsto> v)"
  by (rule update_conv')

lemma map_of_delete [simp]: "map_of (AList.delete k m) = (map_of m)(k := None)"
  by (rule delete_conv')

section \<open>The interface of a duplicate-free, sorted normaliser\<close>

text \<open>
  Every \<open>uniqueSorted\<close> of the repository promises the same thing: the cleaned elements of
  the input, each once, in ascending order. \<open>clean\<close> says what the helper does to one element
  (trim it, drop it when empty). The clients only use what follows from the contract.
\<close>

locale set_normaliser =
  fixes norm :: "'a :: linorder list \<Rightarrow> 'a list"
    and clean :: "'a \<Rightarrow> 'a option"
  assumes norm_sorted: "sorted (norm xs)"
    and norm_distinct: "distinct (norm xs)"
    and norm_set: "set (norm xs) = {y. \<exists>x \<in> set xs. clean x = Some y}"
    and clean_idem: "clean x = Some y \<Longrightarrow> clean y = Some y"
begin

lemma norm_eq_iff:
  "norm xs = norm ys \<longleftrightarrow> set (norm xs) = set (norm ys)"
  by (metis norm_sorted norm_distinct sorted_distinct_set_unique)

lemma norm_cong: "set xs = set ys \<Longrightarrow> norm xs = norm ys"
  by (simp add: norm_eq_iff norm_set)

lemma norm_idem: "norm (norm xs) = norm xs"
  unfolding norm_eq_iff by (auto simp: norm_set clean_idem)

lemma norm_append_comm: "norm (xs @ ys) = norm (ys @ xs)"
  by (rule norm_cong) auto

lemma norm_append_norm: "norm (norm xs @ ys) = norm (xs @ ys)"
proof -
  have "(\<exists>x \<in> set (norm xs). clean x = Some y) \<longleftrightarrow> (\<exists>x \<in> set xs. clean x = Some y)" for y
    unfolding norm_set using clean_idem by fastforce
  then show ?thesis unfolding norm_eq_iff by (auto simp: norm_set [of "_ @ _"])
qed

lemma norm_append_self: "norm (xs @ xs) = norm xs"
  by (rule norm_cong) auto

lemma norm_fixpoint:
  assumes "sorted xs" "distinct xs" "\<And>x. x \<in> set xs \<Longrightarrow> clean x = Some x"
  shows "norm xs = xs"
proof (rule sorted_distinct_set_unique)
  show "set (norm xs) = set xs" using assms(3) by (auto simp: norm_set intro: bexI)
qed (use assms norm_sorted norm_distinct in auto)

lemma norm_length_le: "length (norm xs) \<le> length xs"
proof -
  have "set (norm xs) \<subseteq> (\<lambda>x. the (clean x)) ` set xs"
    by (force simp: norm_set)
  then have "card (set (norm xs)) \<le> card ((\<lambda>x. the (clean x)) ` set xs)"
    by (intro card_mono) auto
  also have "\<dots> \<le> card (set xs)" by (rule card_image_le) simp
  also have "\<dots> \<le> length xs" by (rule card_length)
  finally show ?thesis by (simp add: distinct_card norm_distinct)
qed

lemma norm_empty_iff: "norm xs = [] \<longleftrightarrow> (\<forall>x \<in> set xs. clean x = None)"
proof -
  have "norm xs = [] \<longleftrightarrow> set (norm xs) = {}" by simp
  also have "\<dots> \<longleftrightarrow> (\<forall>x \<in> set xs. clean x = None)"
    unfolding norm_set by (auto simp: not_Some_eq [symmetric] simp del: not_Some_eq)
  finally show ?thesis .
qed

end

text \<open>Two normalisers with the same cleaning function agree on every input.\<close>

lemma set_normaliser_unique:
  assumes "set_normaliser f c" and "set_normaliser g c"
  shows "f xs = g xs"
  by (rule sorted_distinct_set_unique)
    (simp_all add: set_normaliser.norm_sorted [OF assms(1)] set_normaliser.norm_distinct [OF assms(1)]
      set_normaliser.norm_sorted [OF assms(2)] set_normaliser.norm_distinct [OF assms(2)]
      set_normaliser.norm_set [OF assms(1)] set_normaliser.norm_set [OF assms(2)])

end
