(* ===== verification/GoString.thy ===== *)
theory GoString
  imports Prelude
begin

text \<open>
  Go strings as byte lists, with the functions of the \<open>strings\<close>, \<open>strconv\<close> and \<open>sort\<close>
  packages the program calls. The order on \<open>string\<close> is the bytewise lexicographic order Go
  compares strings with. \<open>TrimSpace\<close> strips every white-space code point of Unicode in its
  UTF-8 encoding; \<open>ToLower\<close> and \<open>ToUpper\<close> map the ASCII letters and leave other bytes
  alone.
\<close>

section \<open>Trimming\<close>

definition go_spaces :: "string list" where
  "go_spaces =
     [[CHR 0x09], [CHR 0x0A], [CHR 0x0B], [CHR 0x0C], [CHR 0x0D], [CHR 0x20],
      [CHR 0xC2, CHR 0x85], [CHR 0xC2, CHR 0xA0], [CHR 0xE1, CHR 0x9A, CHR 0x80],
      [CHR 0xE2, CHR 0x80, CHR 0x80], [CHR 0xE2, CHR 0x80, CHR 0x81],
      [CHR 0xE2, CHR 0x80, CHR 0x82], [CHR 0xE2, CHR 0x80, CHR 0x83],
      [CHR 0xE2, CHR 0x80, CHR 0x84], [CHR 0xE2, CHR 0x80, CHR 0x85],
      [CHR 0xE2, CHR 0x80, CHR 0x86], [CHR 0xE2, CHR 0x80, CHR 0x87],
      [CHR 0xE2, CHR 0x80, CHR 0x88], [CHR 0xE2, CHR 0x80, CHR 0x89],
      [CHR 0xE2, CHR 0x80, CHR 0x8A], [CHR 0xE2, CHR 0x80, CHR 0xA8],
      [CHR 0xE2, CHR 0x80, CHR 0xA9], [CHR 0xE2, CHR 0x80, CHR 0xAF],
      [CHR 0xE2, CHR 0x81, CHR 0x9F], [CHR 0xE3, CHR 0x80, CHR 0x80]]"

fun leading_rune :: "string list \<Rightarrow> string \<Rightarrow> nat" where
  \<comment> \<open>the length of the first pattern that starts the text, \<open>0\<close> when none does\<close>
  "leading_rune [] s = 0"
| "leading_rune (p # ps) s = (if p \<noteq> [] \<and> prefix p s then length p else leading_rune ps s)"

function strip_front :: "string list \<Rightarrow> string \<Rightarrow> string" where
  "strip_front ps s =
     (if leading_rune ps s = 0 then s else strip_front ps (drop (leading_rune ps s) s))"
  by pat_completeness auto

lemma leading_rune_eq_0_iff:
  "leading_rune ps s = 0 \<longleftrightarrow> (\<forall>p \<in> set ps. p \<noteq> [] \<longrightarrow> \<not> prefix p s)"
  by (induction ps) auto

lemma leading_rune_Nil [simp]: "leading_rune ps [] = 0"
  by (auto simp: leading_rune_eq_0_iff)

termination strip_front
proof (relation "measure (\<lambda>(ps, s). length s)", goal_cases)
  case (2 ps s)
  then show ?case by (cases s) auto
qed simp

declare strip_front.simps [simp del]

definition trim_left :: "string \<Rightarrow> string" where
  "trim_left s = strip_front go_spaces s"

definition trim_right :: "string \<Rightarrow> string" where
  "trim_right s = rev (strip_front (map rev go_spaces) (rev s))"

definition trim_space :: "string \<Rightarrow> string" where
  "trim_space s = trim_right (trim_left s)"

lemma strip_front_done: "leading_rune ps s = 0 \<Longrightarrow> strip_front ps s = s"
  by (subst strip_front.simps) simp

lemma strip_front_suffix: "suffix (strip_front ps s) s"
proof (induction ps s rule: strip_front.induct)
  case (1 ps s)
  then show ?case
    by (subst strip_front.simps) (auto intro: suffix_order.trans suffix_drop)
qed

lemma strip_front_none_left: "leading_rune ps (strip_front ps s) = 0"
proof (induction ps s rule: strip_front.induct)
  case (1 ps s)
  then show ?case by (subst strip_front.simps) auto
qed

lemma strip_front_idem: "strip_front ps (strip_front ps s) = strip_front ps s"
  by (rule strip_front_done) (rule strip_front_none_left)

lemma trim_left_idem: "trim_left (trim_left s) = trim_left s"
  by (simp add: trim_left_def strip_front_idem)

lemma trim_right_idem: "trim_right (trim_right s) = trim_right s"
  by (simp add: trim_right_def strip_front_idem)

lemma prefix_trim_right: "prefix (trim_right s) s"
  using strip_front_suffix [of "map rev go_spaces" "rev s"]
  by (simp add: trim_right_def suffix_to_prefix)

lemma trim_left_trim_right: "trim_left (trim_right (trim_left s)) = trim_right (trim_left s)"
  unfolding trim_left_def
proof (rule strip_front_done)
  let ?t = "strip_front go_spaces s"
  have "\<forall>p \<in> set go_spaces. p \<noteq> [] \<longrightarrow> \<not> prefix p ?t"
    using strip_front_none_left [of go_spaces s] by (simp add: leading_rune_eq_0_iff)
  then show "leading_rune go_spaces (trim_right ?t) = 0"
    unfolding leading_rune_eq_0_iff
    using prefix_trim_right [of ?t] by (meson prefix_order.trans)
qed

lemma trim_space_idem [simp]: "trim_space (trim_space s) = trim_space s"
  by (simp add: trim_space_def trim_left_trim_right trim_right_idem)

lemma trim_space_Nil [simp]: "trim_space [] = []"
  by (simp add: trim_space_def trim_left_def trim_right_def strip_front_done)

lemma length_trim_space_le: "length (trim_space s) \<le> length s"
proof -
  have "length (trim_left s) \<le> length s"
    using strip_front_suffix [of go_spaces s] by (simp add: trim_left_def suffix_length_le)
  moreover have "length (trim_right t) \<le> length t" for t
    using prefix_trim_right [of t] by (rule prefix_length_le)
  ultimately show ?thesis by (auto simp: trim_space_def intro: le_trans)
qed

definition blank :: "string \<Rightarrow> bool" where
  \<comment> \<open>\<open>strings.TrimSpace(s) == ""\<close>\<close>
  "blank s \<longleftrightarrow> trim_space s = []"

section \<open>Case mapping, splitting, searching\<close>

definition lower_char :: "char \<Rightarrow> char" where
  "lower_char c = (let n = of_char c :: nat in if 65 \<le> n \<and> n \<le> 90 then char_of (n + 32) else c)"

definition upper_char :: "char \<Rightarrow> char" where
  "upper_char c = (let n = of_char c :: nat in if 97 \<le> n \<and> n \<le> 122 then char_of (n - 32) else c)"

definition to_lower :: "string \<Rightarrow> string" where
  "to_lower s = map lower_char s"

definition to_upper :: "string \<Rightarrow> string" where
  "to_upper s = map upper_char s"

lemma lower_char_idem [simp]: "lower_char (lower_char c) = lower_char c"
proof (cases "65 \<le> (of_char c :: nat) \<and> (of_char c :: nat) \<le> 90")
  case True
  then have "of_char (lower_char c) = (of_char c + 32 :: nat)"
    by (simp add: lower_char_def Let_def)
  with True show ?thesis by (simp add: lower_char_def [of "lower_char c"] Let_def)
qed (auto simp: lower_char_def)

lemma to_lower_idem [simp]: "to_lower (to_lower s) = to_lower s"
  by (simp add: to_lower_def)

lemma to_lower_Nil [simp]: "to_lower [] = []"
  and to_lower_eq_Nil [simp]: "to_lower s = [] \<longleftrightarrow> s = []"
  and length_to_lower [simp]: "length (to_lower s) = length s"
  by (simp_all add: to_lower_def)

fun split_char :: "char \<Rightarrow> string \<Rightarrow> string list" where
  "split_char c [] = [[]]"
| "split_char c (x # xs) =
     (if x = c then [] # split_char c xs
      else (case split_char c xs of [] \<Rightarrow> [[x]] | y # ys \<Rightarrow> (x # y) # ys))"

fun join :: "string \<Rightarrow> string list \<Rightarrow> string" where
  "join sep [] = []"
| "join sep [x] = x"
| "join sep (x # y # ys) = x @ sep @ join sep (y # ys)"

lemma split_char_nonempty [simp]: "split_char c s \<noteq> []"
  by (induction s) (auto split: list.splits)

lemma join_Cons_Cons:
  "join sep ((x # y) # ys) = x # join sep (y # ys)"
  by (cases ys) simp_all

lemma join_split_char: "join [c] (split_char c s) = s"
proof (induction s)
  case (Cons x xs)
  obtain y ys where yy: "split_char c xs = y # ys"
    by (cases "split_char c xs") auto
  with Cons.IH show ?case by (auto simp: join_Cons_Cons)
qed simp

definition has_prefix :: "string \<Rightarrow> string \<Rightarrow> bool" where
  "has_prefix s p \<longleftrightarrow> prefix p s"

definition contains :: "string \<Rightarrow> string \<Rightarrow> bool" where
  "contains s sub \<longleftrightarrow> sublist sub s"

definition trim_prefix :: "string \<Rightarrow> string \<Rightarrow> string" where
  "trim_prefix s p = (if prefix p s then drop (length p) s else s)"

section \<open>Decimal numerals\<close>

definition digit_char :: "nat \<Rightarrow> char" where
  "digit_char d = char_of (48 + d)"

fun nat_digits :: "nat \<Rightarrow> string" where
  "nat_digits n = (if n < 10 then [digit_char n] else nat_digits (n div 10) @ [digit_char (n mod 10)])"

declare nat_digits.simps [simp del]

definition itoa :: "int \<Rightarrow> string" where
  "itoa i = (if i < 0 then CHR ''-'' # nat_digits (nat (- i)) else nat_digits (nat i))"

section \<open>The \<open>uniqueSorted\<close> helpers\<close>

definition first_non_empty :: "string list \<Rightarrow> string" where
  \<comment> \<open>\<open>firstNonEmpty\<close> and \<open>firstString\<close>: the first value that is not blank, trimmed\<close>
  "first_non_empty vs = (case find (\<lambda>v. trim_space v \<noteq> []) vs of None \<Rightarrow> [] | Some v \<Rightarrow> trim_space v)"

definition clean_trim :: "string \<Rightarrow> string option" where
  "clean_trim s = (if trim_space s = [] then None else Some (trim_space s))"

definition clean_raw :: "string \<Rightarrow> string option" where
  "clean_raw s = (if s = [] then None else Some s)"

definition unique_sorted_adj :: "string list \<Rightarrow> string list" where
  \<comment> \<open>trim, drop blanks, sort, then keep what differs from its left neighbour\<close>
  "unique_sorted_adj xs =
     remdups_adj (sort (filter (\<lambda>s. s \<noteq> []) (map trim_space xs)))"

definition unique_sorted_seen :: "string list \<Rightarrow> string list" where
  \<comment> \<open>trim, drop blanks, keep first occurrences with a \<open>seen\<close> set, then sort\<close>
  "unique_sorted_seen xs =
     sort (dedup (filter (\<lambda>s. s \<noteq> []) (map trim_space xs)))"

definition unique_sorted_raw :: "string list \<Rightarrow> string list" where
  \<comment> \<open>the same without trimming\<close>
  "unique_sorted_raw xs = sort (dedup (filter (\<lambda>s. s \<noteq> []) xs))"

interpretation us_adj: set_normaliser unique_sorted_adj clean_trim
  by unfold_locales
    (auto simp: unique_sorted_adj_def distinct_remdups_adj_sorted clean_trim_def split: if_splits)

interpretation us_seen: set_normaliser unique_sorted_seen clean_trim
  by unfold_locales (auto simp: unique_sorted_seen_def clean_trim_def split: if_splits)

interpretation us_raw: set_normaliser unique_sorted_raw clean_raw
  by unfold_locales (auto simp: unique_sorted_raw_def clean_raw_def split: if_splits)

lemma unique_sorted_adj_seen: "unique_sorted_adj xs = unique_sorted_seen xs"
  by (rule set_normaliser_unique [OF us_adj.set_normaliser_axioms us_seen.set_normaliser_axioms])

lemma set_unique_sorted_adj [norm_facts]:
  "set (unique_sorted_adj xs) = {t. t \<noteq> [] \<and> (\<exists>x \<in> set xs. trim_space x = t)}"
  by (auto simp: us_adj.norm_set clean_trim_def split: if_splits)

lemma unique_sorted_adj_Nil [simp]: "unique_sorted_adj [] = []"
  by (simp add: unique_sorted_adj_def)

lemma unique_sorted_adj_trimmed:
  "x \<in> set (unique_sorted_adj xs) \<Longrightarrow> trim_space x = x"
  by (auto simp: norm_facts)

section \<open>Trimming printable text\<close>

definition printable :: "char \<Rightarrow> bool" where
  "printable c \<longleftrightarrow> 33 \<le> (of_char c :: nat) \<and> (of_char c :: nat) \<le> 126"

lemma leading_rune_printable:
  "printable (hd s) \<Longrightarrow> leading_rune go_spaces s = 0" "printable (hd s) \<Longrightarrow> leading_rune (map rev go_spaces) s = 0"
proof -
  have "list_all (\<lambda>p. p \<noteq> [] \<and> \<not> printable (hd p) \<and> \<not> printable (last p)) go_spaces" by code_simp
  then have no: "\<not> prefix q s" if "printable (hd s)" "q \<in> set go_spaces \<or> rev q \<in> set go_spaces" for q
    using that by (cases q; cases s) (auto simp: list_all_iff hd_rev last_rev dest: bspec)
  show "printable (hd s) \<Longrightarrow> leading_rune go_spaces s = 0" "printable (hd s) \<Longrightarrow> leading_rune (map rev go_spaces) s = 0"
    using no by (auto simp: leading_rune_eq_0_iff)
qed

lemma trim_space_printable:
  assumes "printable (hd s)" and "printable (last s)"
  shows "trim_space s = s"
proof -
  have "trim_left s = s"
    unfolding trim_left_def by (rule strip_front_done) (rule leading_rune_printable(1) [OF assms(1)])
  moreover have "strip_front (map rev go_spaces) (rev s) = rev s"
    by (rule strip_front_done, rule leading_rune_printable(2)) (use assms(2) in \<open>simp add: hd_rev\<close>)
  ultimately show ?thesis by (simp add: trim_space_def trim_right_def)
qed

end
