(* ===== verification/GoTime.thy ===== *)
theory GoTime
  imports GoString "HOL-Library.Monad_Syntax"
begin

text \<open>
  Go's \<open>time.Time\<close> and \<open>time.Duration\<close>. An instant is the number of nanoseconds since
  January 1 of year 1, 00:00 UTC, which is Go's zero time; a duration is a number of nanoseconds.
  Every use in the program is in UTC, so the location is not kept. The calendar functions, the
  RFC 3339 formatter and the RFC 3339 parser are those of the \<open>time\<close> package for the layouts
  \<open>RFC3339\<close> and \<open>RFC3339Nano\<close>, which accept the same inputs.
\<close>

section \<open>Instants and durations\<close>

type_synonym instant = int
type_synonym duration = int

definition second_ns :: duration where "second_ns = 1000000000"
definition minute_ns :: duration where "minute_ns = 60 * second_ns"
definition hour_ns :: duration where "hour_ns = 60 * minute_ns"
definition day_ns :: duration where "day_ns = 24 * hour_ns"

lemma day_ns_value: "day_ns = 86400000000000"
  by (simp add: day_ns_def hour_ns_def minute_ns_def second_ns_def)

definition is_zero_time :: "instant \<Rightarrow> bool" where
  "is_zero_time t \<longleftrightarrow> t = 0"

definition truncate_second :: "instant \<Rightarrow> instant" where
  "truncate_second t = t - t mod second_ns"

definition time_sub :: "instant \<Rightarrow> instant \<Rightarrow> duration" where
  \<comment> \<open>\<open>Time.Sub\<close> saturates at the bounds of a 64-bit duration\<close>
  "time_sub a b = max (- (2 ^ 63)) (min (2 ^ 63 - 1) (a - b))"

lemma truncate_second_le: "truncate_second t \<le> t"
  by (simp add: truncate_second_def second_ns_def)

lemma truncate_second_idem [simp]: "truncate_second (truncate_second t) = truncate_second t"
proof -
  have "second_ns dvd truncate_second t"
    by (simp add: truncate_second_def minus_mod_eq_mult_div)
  then have "truncate_second t mod second_ns = 0" by simp
  then show ?thesis by (simp add: truncate_second_def [of "truncate_second t"])
qed

section \<open>The calendar\<close>

definition is_leap :: "int \<Rightarrow> bool" where
  "is_leap y \<longleftrightarrow> y mod 4 = 0 \<and> (y mod 100 \<noteq> 0 \<or> y mod 400 = 0)"

definition month_lengths :: "int \<Rightarrow> int list" where
  "month_lengths y =
     [31, if is_leap y then 29 else 28, 31, 30, 31, 30, 31, 31, 30, 31, 30, 31]"

definition days_before_year :: "int \<Rightarrow> int" where
  "days_before_year y = (let p = y - 1 in 365 * p + p div 4 - p div 100 + p div 400)"

definition days_of_date :: "int \<Rightarrow> int \<Rightarrow> int \<Rightarrow> int" where
  \<comment> \<open>\<open>time.Date\<close>: a month outside 1..12 carries into the year, a day outside the month into it\<close>
  "days_of_date y m d =
     (let y' = y + (m - 1) div 12; m' = (m - 1) mod 12
      in days_before_year y' + sum_list (take (nat m') (month_lengths y')) + (d - 1))"

definition year_of_day :: "int \<Rightarrow> int" where
  "year_of_day n =
     (let y = (400 * n) div 146097 + 1 in if days_before_year (y + 1) \<le> n then y + 1 else y)"

fun month_day :: "int list \<Rightarrow> int \<Rightarrow> int \<Rightarrow> int \<times> int" where
  "month_day [] m d = (m, d)"
| "month_day (l # ls) m d = (if d < l then (m, d) else month_day ls (m + 1) (d - l))"

definition date_of_day :: "int \<Rightarrow> int \<times> int \<times> int" where
  "date_of_day n =
     (let y = year_of_day n; (m, d) = month_day (month_lengths y) 1 (n - days_before_year y)
      in (y, m, d + 1))"

definition add_date :: "instant \<Rightarrow> int \<Rightarrow> int \<Rightarrow> int \<Rightarrow> instant" where
  "add_date t years months days =
     (let (y, m, d) = date_of_day (t div day_ns)
      in days_of_date (y + years) (m + months) (d + days) * day_ns + t mod day_ns)"

definition start_of_day :: "instant \<Rightarrow> instant" where
  "start_of_day t = t - t mod day_ns"

lemma div_witness:
  assumes "0 < (n :: int)"
  obtains q r where "p div n = q" "p = n * q + r" "0 \<le> r" "r < n"
  using assms by (metis mult_div_mod_eq pos_mod_bound pos_mod_sign)

lemma days_before_year_scaled:
  "146097 * (y - 1) - 699 \<le> 400 * days_before_year y \<and>
   400 * days_before_year y \<le> 146097 * (y - 1) + 396"
proof -
  define p where "p = y - 1"
  obtain q r where 4: "p div 4 = q" "p = 4 * q + r" "0 \<le> r" "r < 4"
    using div_witness [of 4 p] by auto
  obtain q' r' where 100: "p div 100 = q'" "p = 100 * q' + r'" "0 \<le> r'" "r' < 100"
    using div_witness [of 100 p] by auto
  obtain q'' r'' where 400: "p div 400 = q''" "p = 400 * q'' + r''" "0 \<le> r''" "r'' < 400"
    using div_witness [of 400 p] by auto
  have "146097 * p - 699 \<le> 400 * (365 * p + q - q' + q'')"
    "400 * (365 * p + q - q' + q'') \<le> 146097 * p + 396"
  proof -
    have "100 * p = 400 * q + 100 * r" "4 * p = 400 * q' + 4 * r'"
      using 4(2) 100(2) by simp_all
    then have e: "400 * (365 * p + q - q' + q'') = 146097 * p - 100 * r + 4 * r' - r''"
      using 400(2) by (simp only: distrib_left right_diff_distrib)
    show "146097 * p - 699 \<le> 400 * (365 * p + q - q' + q'')"
      unfolding e using 4(3,4) 100(3,4) 400(3,4) by simp
    show "400 * (365 * p + q - q' + q'') \<le> 146097 * p + 396"
      unfolding e using 4(3,4) 100(3,4) 400(3,4) by simp
  qed
  then show ?thesis
    unfolding days_before_year_def Let_def p_def [symmetric] 4(1) 100(1) 400(1) by blast
qed

lemma div_pred_int:
  assumes "0 < (n :: int)"
  shows "y div n = (y - 1) div n + (if y mod n = 0 then 1 else 0)"
proof -
  have r: "0 \<le> y mod n" "y mod n < n" and y: "y = n * (y div n) + y mod n"
    using assms by simp_all
  show ?thesis
  proof (cases "y mod n = 0")
    case True
    then have "y - 1 = n * (y div n - 1) + (n - 1)" using y by (simp add: algebra_simps)
    then have "(y - 1) div n = y div n - 1" using assms by (intro int_div_pos_eq [where r = "n - 1"]) auto
    with True show ?thesis by simp
  next
    case False
    then have "(y - 1) div n = y div n" using r y by (intro int_div_pos_eq [where r = "y mod n - 1"]) auto
    with False show ?thesis by simp
  qed
qed

lemma mod_pred_int:
  assumes "0 < (n :: int)"
  shows "(y - 1) mod n = (if y mod n = 0 then n - 1 else y mod n - 1)"
proof -
  define Q R Q' R' where "Q = (y - 1) div n" and "R = (y - 1) mod n" and "Q' = y div n"
    and "R' = y mod n"
  note defs = this
  have "n * Q + R = y - 1" "n * Q' + R' = y"
    unfolding defs by (rule mult_div_mod_eq)+
  moreover have "Q' = Q + (if R' = 0 then 1 else 0)"
    unfolding defs using assms by (rule div_pred_int)
  ultimately show ?thesis unfolding R_def [symmetric] R'_def [symmetric]
    by (cases "R' = 0") (auto simp: distrib_left)
qed

lemma days_before_year_Suc:
  "days_before_year (y + 1) = days_before_year y + (if is_leap y then 366 else 365)"
proof -
  define q4 q100 q400 b4 b100 b400 where "q4 = (y - 1) div 4" and "q100 = (y - 1) div 100"
    and "q400 = (y - 1) div 400" and "b4 \<longleftrightarrow> y mod 4 = 0" and "b100 \<longleftrightarrow> y mod 100 = 0"
    and "b400 \<longleftrightarrow> y mod 400 = 0"
  note defs = this
  have b: "b400 \<longrightarrow> b100" "b100 \<longrightarrow> b4"
    unfolding defs by presburger+
  have d: "y div 4 = q4 + (if b4 then 1 else 0)" "y div 100 = q100 + (if b100 then 1 else 0)"
    "y div 400 = q400 + (if b400 then 1 else 0)"
    unfolding defs by (rule div_pred_int; simp)+
  have "days_before_year (y + 1) = 365 * y + y div 4 - y div 100 + y div 400"
    by (simp add: days_before_year_def)
  moreover have "days_before_year y = 365 * (y - 1) + q4 - q100 + q400"
    by (simp add: days_before_year_def defs Let_def)
  moreover have "is_leap y \<longleftrightarrow> b4 \<and> (\<not> b100 \<or> b400)"
    unfolding is_leap_def defs by simp
  ultimately show ?thesis
    unfolding d using b by (cases b4; cases b100; cases b400) simp_all
qed

lemma year_of_day_bounds:
  "days_before_year (year_of_day n) \<le> n \<and> n < days_before_year (year_of_day n + 1)"
proof -
  obtain q r where q: "(400 * n) div 146097 = q" "400 * n = 146097 * q + r" "0 \<le> r" "r < 146097"
    using div_witness [of 146097 "400 * n"] by auto
  define y where "y = q + 1"
  have "146097 * (y - 1) \<le> 400 * n" "400 * n < 146097 * (y + 1 - 1)"
    using q(2-) unfolding y_def by auto
  then have "days_before_year y \<le> n" "n \<le> days_before_year (y + 1) + 1"
    using days_before_year_scaled [of y] days_before_year_scaled [of "y + 1"] by auto
  moreover have "days_before_year (y + 1) + 1 < days_before_year (y + 1 + 1)"
    unfolding days_before_year_Suc [of "y + 1"] by simp
  ultimately show ?thesis
    unfolding year_of_day_def Let_def q(1) y_def [symmetric] by auto
qed

lemma sum_list_month_lengths:
  "sum_list (month_lengths y) = (if is_leap y then 366 else 365)"
  by (simp add: month_lengths_def)

lemma month_day_sum:
  assumes "month_day ls m d = (m', d')" and "0 \<le> d" and "d < sum_list ls"
  shows "0 \<le> d' \<and> m \<le> m' \<and> m' - m < int (length ls) \<and> d' < ls ! nat (m' - m) \<and>
    sum_list (take (nat (m' - m)) ls) + d' = d"
  using assms
proof (induction ls m d rule: month_day.induct)
  case (2 l ls m d)
  show ?case
  proof (cases "d < l")
    case True
    with "2.prems" show ?thesis by auto
  next
    case False
    with "2.prems" "2.IH" have IH: "0 \<le> d' \<and> m + 1 \<le> m' \<and> m' - (m + 1) < int (length ls) \<and>
      d' < ls ! nat (m' - (m + 1)) \<and> sum_list (take (nat (m' - (m + 1))) ls) + d' = d - l"
      by auto
    then have "nat (m' - m) = Suc (nat (m' - (m + 1)))" by linarith
    with IH show ?thesis by auto
  qed
qed auto

lemma date_of_day_cases:
  assumes "date_of_day n = (y, m, d)"
  shows "1 \<le> m \<and> m \<le> 12 \<and> 1 \<le> d \<and> d \<le> month_lengths y ! nat (m - 1) \<and>
    days_before_year y + sum_list (take (nat (m - 1)) (month_lengths y)) + (d - 1) = n"
proof -
  have y: "y = year_of_day n" and md: "month_day (month_lengths y) 1 (n - days_before_year y) = (m, d - 1)"
    using assms by (auto simp: date_of_day_def Let_def split: prod.splits)
  have "0 \<le> n - days_before_year y" "n - days_before_year y < sum_list (month_lengths y)"
    using year_of_day_bounds [of n] by (simp_all add: y sum_list_month_lengths days_before_year_Suc)
  from month_day_sum [OF md this] show ?thesis
    by (auto simp: month_lengths_def)
qed

lemma days_of_date_date_of_day:
  assumes "date_of_day n = (y, m, d)"
  shows "days_of_date y m d = n"
  using date_of_day_cases [OF assms]
  by (simp add: days_of_date_def Let_def div_pos_pos_trivial mod_pos_pos_trivial)

lemma days_of_date_day: "days_of_date y m (d + k) = days_of_date y m d + k"
  by (simp add: days_of_date_def Let_def)

lemma month_length_bounds: "l \<in> set (month_lengths y) \<Longrightarrow> 28 \<le> l \<and> l \<le> 31"
  by (auto simp: month_lengths_def)

lemma month_offset_step:
  assumes "0 \<le> r" and "r < 11"
  shows "28 \<le> sum_list (take (nat (r + 1)) (month_lengths y)) - sum_list (take (nat r) (month_lengths y)) \<and>
    sum_list (take (nat (r + 1)) (month_lengths y)) - sum_list (take (nat r) (month_lengths y)) \<le> 31"
proof -
  have len: "nat r < length (month_lengths y)" using assms by (simp add: month_lengths_def)
  have "nat (r + 1) = Suc (nat r)" using assms by simp
  then have "sum_list (take (nat (r + 1)) (month_lengths y)) - sum_list (take (nat r) (month_lengths y)) =
      month_lengths y ! nat r"
    using len by (simp add: take_Suc_conv_app_nth)
  with month_length_bounds [OF nth_mem [OF len]] show ?thesis by simp
qed

text \<open>Going back one month drops between 28 and 31 days.\<close>

lemma days_of_date_month_step:
  "28 \<le> days_of_date y m d - days_of_date y (m - 1) d \<and>
   days_of_date y m d - days_of_date y (m - 1) d \<le> 31"
proof (cases "(m - 1) mod 12 = 0")
  case True
  then have r: "(m - 1 - 1) mod 12 = 11" and y: "y + (m - 1) div 12 = y + (m - 1 - 1) div 12 + 1"
    using mod_pred_int [of 12 "m - 1"] div_pred_int [of 12 "m - 1"] by simp_all
  have "sum_list (take (nat 11) (month_lengths z)) = (if is_leap z then 335 else 334)" for z
    by (simp add: month_lengths_def)
  then show ?thesis
    unfolding days_of_date_def Let_def True r y days_before_year_Suc by simp
next
  case False
  then have r: "(m - 1) mod 12 = (m - 1 - 1) mod 12 + 1" and q: "(m - 1 - 1) div 12 = (m - 1) div 12"
    using mod_pred_int [of 12 "m - 1"] div_pred_int [of 12 "m - 1"] by simp_all
  have "0 \<le> (m - 1 - 1) mod 12" "(m - 1 - 1) mod 12 < 11" using r pos_mod_bound [of 12 "m - 1"] by simp_all
  note step = month_offset_step [OF this, of "y + (m - 1) div 12"]
  have diff: "a + b + c - (a + b' + c) = b - b'" for a b b' c :: int by simp
  show ?thesis
    unfolding days_of_date_def Let_def q r diff by (rule step)
qed

lemma add_date_months_before:
  assumes "add_date t 0 (- int k) 0 = s"
  shows "s \<le> t - 28 * int k * day_ns \<and> t - 31 * int k * day_ns \<le> s"
proof -
  obtain y m d where date: "date_of_day (t div day_ns) = (y, m, d)"
    by (cases "date_of_day (t div day_ns)")
  have "28 * int k \<le> days_of_date y m d - days_of_date y (m - int k) d \<and>
    days_of_date y m d - days_of_date y (m - int k) d \<le> 31 * int k"
  proof (induction k)
    case (Suc k)
    then show ?case
      using days_of_date_month_step [of y "m - int k" d] by (simp add: algebra_simps)
  qed simp
  then have "28 * int k \<le> t div day_ns - days_of_date y (m - int k) d \<and>
    t div day_ns - days_of_date y (m - int k) d \<le> 31 * int k"
    by (simp add: days_of_date_date_of_day [OF date])
  then have "28 * int k * day_ns \<le> (t div day_ns - days_of_date y (m - int k) d) * day_ns \<and>
    (t div day_ns - days_of_date y (m - int k) d) * day_ns \<le> 31 * int k * day_ns"
    by (simp add: day_ns_value)
  moreover have "s = days_of_date y (m - int k) d * day_ns + t mod day_ns"
    using assms by (simp add: add_date_def date)
  moreover have "t div day_ns * day_ns + t mod day_ns = t" by simp
  ultimately show ?thesis by (simp only: left_diff_distrib) linarith
qed

lemma add_date_days: "add_date t 0 0 k = t + k * day_ns"
proof -
  obtain y m d where date: "date_of_day (t div day_ns) = (y, m, d)"
    by (cases "date_of_day (t div day_ns)")
  then show ?thesis
    by (simp add: add_date_def days_of_date_day days_of_date_date_of_day [OF date] algebra_simps)
qed

section \<open>RFC 3339\<close>

definition pad_digits :: "nat \<Rightarrow> nat \<Rightarrow> string" where
  "pad_digits w n = (let ds = nat_digits n in replicate (w - length ds) CHR ''0'' @ ds)"

definition format_date :: "instant \<Rightarrow> string" where
  \<comment> \<open>layout \<open>2006-01-02\<close>\<close>
  "format_date t =
     (let (y, m, d) = date_of_day (t div day_ns)
      in (if y < 0 then ''-'' else []) @ pad_digits 4 (nat \<bar>y\<bar>) @ ''-'' @ pad_digits 2 (nat m) @ ''-'' @
         pad_digits 2 (nat d))"

definition format_rfc3339 :: "instant \<Rightarrow> string" where
  \<comment> \<open>layout \<open>RFC3339\<close>: the fraction of a second is not printed\<close>
  "format_rfc3339 t =
     (let r = t mod day_ns
      in format_date t @ ''T'' @ pad_digits 2 (nat (r div hour_ns)) @ '':'' @
         pad_digits 2 (nat (r mod hour_ns div minute_ns)) @ '':'' @
         pad_digits 2 (nat (r mod minute_ns div second_ns)) @ ''Z'')"

definition is_digit :: "char \<Rightarrow> bool" where
  "is_digit c \<longleftrightarrow> 48 \<le> (of_char c :: nat) \<and> (of_char c :: nat) \<le> 57"

definition digit_value :: "char \<Rightarrow> int" where
  "digit_value c = of_char c - 48"

definition digits_value :: "string \<Rightarrow> int" where
  "digits_value ds = foldl (\<lambda>n c. 10 * n + digit_value c) 0 ds"

definition take_digits :: "nat \<Rightarrow> string \<Rightarrow> (int \<times> string) option" where
  \<comment> \<open>exactly \<open>n\<close> digits\<close>
  "take_digits n s =
     (if n \<le> length s \<and> list_all is_digit (take n s) then Some (digits_value (take n s), drop n s)
      else None)"

definition take_hour :: "string \<Rightarrow> (int \<times> string) option" where
  \<comment> \<open>the hour may have one digit\<close>
  "take_hour s =
     (case take_digits 2 s of Some r \<Rightarrow> Some r | None \<Rightarrow> take_digits 1 s)"

definition expect_char :: "char \<Rightarrow> string \<Rightarrow> string option" where
  "expect_char c s = (case s of [] \<Rightarrow> None | x # xs \<Rightarrow> if x = c then Some xs else None)"

definition take_fraction :: "string \<Rightarrow> int \<times> string" where
  \<comment> \<open>an optional fraction after a period or a comma; digits beyond the ninth are dropped\<close>
  "take_fraction s =
     (case s of
        c # d # rest \<Rightarrow>
          if (c = CHR ''.'' \<or> c = CHR '','') \<and> is_digit d then
            let ds = takeWhile is_digit (d # rest); kept = take 9 ds
            in (digits_value kept * 10 ^ (9 - length kept), drop (length ds) (d # rest))
          else (0, s)
      | _ \<Rightarrow> (0, s))"

definition take_zone :: "string \<Rightarrow> (int \<times> string) option" where
  \<comment> \<open>\<open>Z\<close> or a signed \<open>hh:mm\<close> offset, in seconds east of UTC\<close>
  "take_zone s =
     (case s of
        [] \<Rightarrow> None
      | c # rest \<Rightarrow>
          if c = CHR ''Z'' then Some (0, rest)
          else do {
            (h, rest) \<leftarrow> take_digits 2 rest;
            rest \<leftarrow> expect_char CHR '':'' rest;
            (m, rest) \<leftarrow> take_digits 2 rest;
            if h \<le> 24 \<and> m \<le> 60 then
              (if c = CHR ''+'' then Some ((h * 60 + m) * 60, rest)
               else if c = CHR ''-'' then Some (- ((h * 60 + m) * 60), rest)
               else None)
            else None
          })"

definition parse_rfc3339 :: "string \<Rightarrow> instant option" where
  "parse_rfc3339 s = do {
     (y, s) \<leftarrow> take_digits 4 s;
     s \<leftarrow> expect_char CHR ''-'' s;
     (mo, s) \<leftarrow> take_digits 2 s;
     s \<leftarrow> expect_char CHR ''-'' s;
     (d, s) \<leftarrow> take_digits 2 s;
     s \<leftarrow> expect_char CHR ''T'' s;
     (h, s) \<leftarrow> take_hour s;
     s \<leftarrow> expect_char CHR '':'' s;
     (mi, s) \<leftarrow> take_digits 2 s;
     s \<leftarrow> expect_char CHR '':'' s;
     (sec, s) \<leftarrow> take_digits 2 s;
     let (ns, s) = take_fraction s;
     (zone, s) \<leftarrow> take_zone s;
     if s = [] \<and> 1 \<le> mo \<and> mo \<le> 12 \<and> 1 \<le> d \<and> d \<le> month_lengths y ! nat (mo - 1) \<and>
        h < 24 \<and> mi < 60 \<and> sec < 60 then
       Some (days_of_date y mo d * day_ns + h * hour_ns + mi * minute_ns + sec * second_ns + ns
             - zone * second_ns)
     else None
   }"

section \<open>Printing and reading back\<close>

definition fraction_digits :: "int \<Rightarrow> string" where
  \<comment> \<open>the nine digits of a nanosecond count without trailing zeros\<close>
  "fraction_digits ns = rev (dropWhile (\<lambda>c. c = CHR ''0'') (rev (pad_digits 9 (nat ns))))"

definition format_rfc3339_nano :: "instant \<Rightarrow> string" where
  \<comment> \<open>layout \<open>RFC3339Nano\<close>: the fraction is printed without trailing zeros\<close>
  "format_rfc3339_nano t =
     (let r = t mod day_ns; ns = r mod second_ns
      in format_date t @ ''T'' @ pad_digits 2 (nat (r div hour_ns)) @ '':'' @
         pad_digits 2 (nat (r mod hour_ns div minute_ns)) @ '':'' @
         pad_digits 2 (nat (r mod minute_ns div second_ns)) @
         (if ns = 0 then [] else ''.'' @ fraction_digits ns) @ ''Z'')"

lemma digit_char_value:
  assumes "d < 10"
  shows "is_digit (digit_char d)" and "digit_value (digit_char d) = int d"
proof -
  have "list_all (\<lambda>d. is_digit (digit_char d) \<and> digit_value (digit_char d) = int d) [0..<10]" by code_simp
  then show "is_digit (digit_char d)" "digit_value (digit_char d) = int d"
    using assms by (simp_all add: list_all_iff)
qed

lemma digits_value_append_one: "digits_value (ds @ [c]) = 10 * digits_value ds + digit_value c"
  by (simp add: digits_value_def)

lemma nat_digits_facts:
  "list_all is_digit (nat_digits n) \<and> digits_value (nat_digits n) = int n \<and> nat_digits n \<noteq> []"
proof (induction n rule: nat_digits.induct)
  case (1 n)
  show ?case
  proof (cases "n < 10")
    case True
    then show ?thesis
      by (subst (1 2 3) nat_digits.simps) (simp add: digit_char_value digits_value_def)
  next
    case False
    have "int n = 10 * (int n div 10) + int n mod 10" by simp
    with 1 False show ?thesis
      by (subst (1 2 3) nat_digits.simps)
        (simp add: digit_char_value digits_value_append_one zdiv_int zmod_int)
  qed
qed

lemma length_nat_digits: "n < 10 ^ k \<Longrightarrow> 0 < k \<Longrightarrow> length (nat_digits n) \<le> k"
proof (induction n arbitrary: k rule: nat_digits.induct)
  case (1 n)
  show ?case
  proof (cases "n < 10")
    case True
    with 1 show ?thesis by (subst nat_digits.simps) simp
  next
    case False
    then obtain j where k: "k = Suc j" "0 < j" using 1 by (cases k; cases "k - 1") auto
    then have "n div 10 < 10 ^ j" using 1 by (simp add: less_mult_imp_div_less mult.commute)
    with 1 False k show ?thesis by (subst nat_digits.simps) simp
  qed
qed

lemma digits_value_zeros: "digits_value (replicate k CHR ''0'' @ ds) = digits_value ds"
proof (induction k)
  case (Suc k)
  have "digit_value CHR ''0'' = 0" by (simp add: digit_value_def)
  with Suc show ?case by (simp add: digits_value_def)
qed simp

lemma pad_digits_facts:
  assumes "n < 10 ^ w" and "0 < w"
  shows "length (pad_digits w n) = w" "list_all is_digit (pad_digits w n)" "digits_value (pad_digits w n) = int n"
proof -
  have "is_digit CHR ''0''" by (simp add: is_digit_def)
  then show "length (pad_digits w n) = w" "list_all is_digit (pad_digits w n)" "digits_value (pad_digits w n) = int n"
    using length_nat_digits [OF assms] nat_digits_facts [of n]
    by (auto simp: pad_digits_def Let_def digits_value_zeros list_all_iff)
qed

lemma take_digits_pad:
  "n < 10 ^ w \<Longrightarrow> 0 < w \<Longrightarrow> take_digits w (pad_digits w n @ rest) = Some (int n, rest)"
  by (simp add: take_digits_def pad_digits_facts)

lemma take_digits_pad2: "n < 100 \<Longrightarrow> take_digits 2 (pad_digits 2 n @ rest) = Some (int n, rest)"
  and take_digits_pad4: "n < 10000 \<Longrightarrow> take_digits 4 (pad_digits 4 n @ rest) = Some (int n, rest)"
  by (simp_all add: take_digits_pad)

lemma digits_value_snoc_zeros: "digits_value (ds @ replicate k CHR ''0'') = digits_value ds * 10 ^ k"
proof (induction k)
  case (Suc k)
  have "digits_value (ds @ replicate (Suc k) CHR ''0'') = digits_value ((ds @ replicate k CHR ''0'') @ [CHR ''0''])"
    by (simp add: replicate_append_same)
  also have "\<dots> = digits_value ds * 10 ^ Suc k"
    by (simp only: digits_value_append_one Suc) (simp add: digit_value_def)
  finally show ?case .
qed simp

lemma strip_zeros:
  obtains k where "ds = rev (dropWhile (\<lambda>c. c = CHR ''0'') (rev ds)) @ replicate k CHR ''0''"
proof -
  have "takeWhile (\<lambda>c. c = CHR ''0'') (rev ds) = replicate (length (takeWhile (\<lambda>c. c = CHR ''0'') (rev ds))) CHR ''0''"
    by (intro replicate_eqI) (auto dest: set_takeWhileD)
  then have "rev ds = replicate (length (takeWhile (\<lambda>c. c = CHR ''0'') (rev ds))) CHR ''0'' @
      dropWhile (\<lambda>c. c = CHR ''0'') (rev ds)"
    by (metis takeWhile_dropWhile_id)
  then have "ds = rev (dropWhile (\<lambda>c. c = CHR ''0'') (rev ds)) @
      replicate (length (takeWhile (\<lambda>c. c = CHR ''0'') (rev ds))) CHR ''0''"
    by (metis rev_append rev_replicate rev_rev_ident)
  then show thesis by (rule that)
qed

lemma take_fraction_digits:
  assumes "0 < ns" and "ns < second_ns"
  shows "take_fraction (''.'' @ fraction_digits ns @ ''Z'') = (ns, ''Z'')"
proof -
  define ds where "ds = fraction_digits ns"
  have n: "nat ns < 10 ^ 9" using assms by (simp add: second_ns_def)
  obtain k where k: "pad_digits 9 (nat ns) = ds @ replicate k CHR ''0''"
    unfolding ds_def fraction_digits_def by (rule strip_zeros)
  note facts = pad_digits_facts [OF n, simplified, unfolded k]
  have val: "digits_value ds * 10 ^ k = ns"
    using facts(3) assms by (simp add: digits_value_snoc_zeros)
  have len: "length ds + k = 9" and digits: "list_all is_digit ds" using facts(1,2) by simp_all
  have "ds \<noteq> []" using val assms by (auto simp: digits_value_def)
  then obtain d rest where dr: "ds = d # rest" by (cases ds) auto
  have "\<not> is_digit CHR ''Z''" by (simp add: is_digit_def)
  then have "takeWhile is_digit (ds @ ''Z'') = ds" and "is_digit d"
    using digits by (auto simp: dr takeWhile_append list_all_iff)
  moreover have "take 9 ds = ds" "9 - length ds = k" using len by simp_all
  moreover have "ns = digits_value ds * 10 ^ k" using val by simp
  ultimately show ?thesis
    unfolding take_fraction_def ds_def [symmetric] by (simp add: dr Let_def)
qed

lemma days_in_day:
  assumes "0 \<le> r" "r < day_ns"
  shows "r = r div hour_ns * hour_ns + r mod hour_ns div minute_ns * minute_ns +
      r mod minute_ns div second_ns * second_ns + r mod second_ns"
    and "r div hour_ns < 24" "r mod hour_ns div minute_ns < 60" "r mod minute_ns div second_ns < 60"
    and "0 \<le> r div hour_ns" "0 \<le> r mod hour_ns div minute_ns" "0 \<le> r mod minute_ns div second_ns"
proof -
  have split: "a mod (b * c) div c * c + a mod c = a mod (b * c)" if "0 < b" "0 < c" for a b c :: int
  proof -
    have "a mod (b * c) mod c = a mod c" by (simp add: mod_mod_cancel)
    then show ?thesis by (metis div_mult_mod_eq)
  qed
  have h: "hour_ns = 60 * minute_ns" "minute_ns = 60 * second_ns" "0 < second_ns" "0 < minute_ns"
    by (simp_all add: hour_ns_def minute_ns_def second_ns_def)
  have "r mod hour_ns div minute_ns * minute_ns + r mod minute_ns = r mod hour_ns"
    "r mod minute_ns div second_ns * second_ns + r mod second_ns = r mod minute_ns"
    unfolding h(1) using h split [of 60 minute_ns r] split [of 60 second_ns r] by (simp_all add: h(2) [symmetric])
  moreover have "r div hour_ns * hour_ns + r mod hour_ns = r" by simp
  ultimately show "r = r div hour_ns * hour_ns + r mod hour_ns div minute_ns * minute_ns +
      r mod minute_ns div second_ns * second_ns + r mod second_ns"
    by linarith
  have lt: "a div c < b" if "a < b * c" "0 < c" for a b c :: int
  proof (rule ccontr)
    assume "\<not> a div c < b"
    then have "b * c \<le> a div c * c" using that(2) by (intro mult_right_mono) simp_all
    moreover have "a div c * c + a mod c = a" by simp
    ultimately show False using that pos_mod_sign [of c a] by linarith
  qed
  show "r div hour_ns < 24" using assms by (intro lt) (simp_all add: day_ns_def hour_ns_def minute_ns_def second_ns_def)
  show "r mod hour_ns div minute_ns < 60" "r mod minute_ns div second_ns < 60"
    using h by (intro lt; simp)+
  show "0 \<le> r div hour_ns" "0 \<le> r mod hour_ns div minute_ns" "0 \<le> r mod minute_ns div second_ns"
    using assms h by (simp_all add: pos_imp_zdiv_nonneg_iff)
qed

text \<open>Reading back what the nanosecond layout prints gives the same instant, in years with four digits.\<close>

lemma parse_format_rfc3339_nano:
  assumes year: "0 \<le> year_of_day (t div day_ns)" "year_of_day (t div day_ns) < 10000"
  shows "parse_rfc3339 (format_rfc3339_nano t) = Some t"
proof -
  obtain y m d where date: "date_of_day (t div day_ns) = (y, m, d)"
    by (cases "date_of_day (t div day_ns)")
  have y: "y = year_of_day (t div day_ns)" using date by (auto simp: date_of_day_def Let_def split: prod.splits)
  note c = date_of_day_cases [OF date]
  define r where "r = t mod day_ns"
  have r: "0 \<le> r" "r < day_ns" by (simp_all add: r_def day_ns_value)
  note hms = days_in_day [OF r]
  have months: "1 \<le> m" "m \<le> 12" "1 \<le> d" "d \<le> month_lengths y ! nat (m - 1)" using c by simp_all
  have "length (month_lengths y) = 12" by (simp add: month_lengths_def)
  then have "month_lengths y ! nat (m - 1) \<in> set (month_lengths y)"
    using months by (intro nth_mem) (simp add: nat_less_iff)
  then have "d \<le> 31" using months(4) month_length_bounds by fastforce
  then have small: "nat m < 100" "nat d < 100" "nat \<bar>y\<bar> < 10000" "nat (r div hour_ns) < 100"
    "nat (r mod hour_ns div minute_ns) < 100" "nat (r mod minute_ns div second_ns) < 100"
    using months year hms by (simp_all add: y nat_less_iff)
  have frac: "take_fraction ((if r mod second_ns = 0 then [] else ''.'' @ fraction_digits (r mod second_ns)) @ ''Z'') =
      (r mod second_ns, ''Z'')"
    using take_fraction_digits [of "r mod second_ns"]
    by (cases "r mod second_ns = 0") (simp_all add: take_fraction_def second_ns_def)
  have "days_of_date y m d = t div day_ns" using date by (rule days_of_date_date_of_day)
  moreover have "t div day_ns * day_ns + r = t" by (simp add: r_def)
  ultimately have total: "days_of_date y m d * day_ns + r div hour_ns * hour_ns +
      r mod hour_ns div minute_ns * minute_ns + r mod minute_ns div second_ns * second_ns + r mod second_ns = t"
    using hms(1) by (simp only: add.assoc)
  have zone: "take_zone ''Z'' = Some (0, [])" by (simp add: take_zone_def)
  have hour: "take_hour (pad_digits 2 (nat (r div hour_ns)) @ rest) = Some (r div hour_ns, rest)" for rest
    using take_digits_pad2 [OF small(4)] hms(5) by (simp add: take_hour_def)
  have expect: "expect_char ch (ch # rest) = Some rest" for ch rest by (simp add: expect_char_def)
  have format: "format_rfc3339_nano t = pad_digits 4 (nat \<bar>y\<bar>) @ CHR ''-'' # pad_digits 2 (nat m) @ CHR ''-'' #
      pad_digits 2 (nat d) @ CHR ''T'' # pad_digits 2 (nat (r div hour_ns)) @ CHR '':'' #
      pad_digits 2 (nat (r mod hour_ns div minute_ns)) @ CHR '':'' #
      pad_digits 2 (nat (r mod minute_ns div second_ns)) @
      (if r mod second_ns = 0 then [] else ''.'' @ fraction_digits (r mod second_ns)) @ ''Z''"
    using year by (simp add: format_rfc3339_nano_def format_date_def date Let_def r_def y)
  show ?thesis
    unfolding format parse_rfc3339_def
    by (simp only: take_digits_pad4 [OF small(3)] take_digits_pad2 [OF small(1)] take_digits_pad2 [OF small(2)]
        take_digits_pad2 [OF small(5)] take_digits_pad2 [OF small(6)] hour expect frac zone bind.bind_lunit
        prod.case Let_def)
      (use months hms year total in \<open>simp add: y [symmetric]\<close>)
qed

end
