(* ===== verification/GoValue.thy ===== *)
theory GoValue
  imports GoTime
begin

text \<open>
  Go's \<open>any\<close> values as the program meets them in event and metadata maps, the maps themselves,
  and the fields of the Proof library's record types that the program reads. A map is an
  association list read with \<open>map_of\<close>; \<open>None\<close> is the nil map, which Go lets a program read.
  A JSON number is a rational, so arithmetic on it is exact.
\<close>

section \<open>Dynamic values\<close>

datatype gvalue =
    VNil
  | VBool bool
  | VNum rat
  | VInt int
  | VStr string
  | VStrs "string list"                    \<comment> \<open>\<open>[]string\<close>\<close>
  | VArr "gvalue list"                     \<comment> \<open>\<open>[]any\<close>\<close>
  | VObj "(string \<times> gvalue) list"         \<comment> \<open>\<open>map[string]any\<close>\<close>
  | VObjs "(string \<times> gvalue) list list"   \<comment> \<open>\<open>[]map[string]any\<close>\<close>
  | VStruct "(string \<times> gvalue) list"      \<comment> \<open>a Go struct, as the JSON object it marshals to\<close>
  | VStructs "(string \<times> gvalue) list list" \<comment> \<open>a slice of Go structs\<close>

type_synonym gobj = "(string \<times> gvalue) list"
type_synonym gmap = "gobj option"

definition mget :: "gmap \<Rightarrow> string \<Rightarrow> gvalue option" where
  "mget m k = (case m of None \<Rightarrow> None | Some kvs \<Rightarrow> map_of kvs k)"

definition as_string :: "gvalue option \<Rightarrow> string option" where
  \<comment> \<open>the type assertion \<open>v.(string)\<close> on the result of a map lookup\<close>
  "as_string v = (case v of Some (VStr s) \<Rightarrow> Some s | _ \<Rightarrow> None)"

definition as_bool :: "gvalue option \<Rightarrow> bool option" where
  "as_bool v = (case v of Some (VBool b) \<Rightarrow> Some b | _ \<Rightarrow> None)"

definition as_num :: "gvalue option \<Rightarrow> rat option" where
  "as_num v = (case v of Some (VNum r) \<Rightarrow> Some r | _ \<Rightarrow> None)"

definition as_obj :: "gvalue option \<Rightarrow> gobj option" where
  "as_obj v = (case v of Some (VObj kvs) \<Rightarrow> Some kvs | _ \<Rightarrow> None)"

definition as_arr :: "gvalue option \<Rightarrow> gvalue list option" where
  "as_arr v = (case v of Some (VArr xs) \<Rightarrow> Some xs | _ \<Rightarrow> None)"

definition str_or_empty :: "string option \<Rightarrow> string" where
  \<comment> \<open>\<open>s, _ := v.(string)\<close>: the zero value when the assertion fails\<close>
  "str_or_empty s = (case s of None \<Rightarrow> [] | Some x \<Rightarrow> x)"

definition map_string :: "gmap \<Rightarrow> string \<Rightarrow> string" where
  \<comment> \<open>\<open>stringFromMap\<close>, \<open>normalizeFieldString\<close>: the trimmed string under a key, or empty\<close>
  "map_string m k = trim_space (str_or_empty (as_string (mget m k)))"

definition map_bool :: "gmap \<Rightarrow> string \<Rightarrow> bool option" where
  \<comment> \<open>\<open>boolFromMap\<close>, \<open>normalizeFieldBool\<close>: \<open>None\<close> for an absent or non-boolean entry\<close>
  "map_bool m k = as_bool (mget m k)"

lemma mget_None [simp]: "mget None k = None"
  and mget_Some [simp]: "mget (Some kvs) k = map_of kvs k"
  by (simp_all add: mget_def)

lemma str_or_empty_simps [simp]:
  "str_or_empty None = []" "str_or_empty (Some s) = s"
  by (simp_all add: str_or_empty_def)

lemma as_string_simps [simp]:
  "as_string None = None" "as_string (Some (VStr s)) = Some s"
  by (simp_all add: as_string_def)

lemma as_string_Some_iff [simp]: "as_string v = Some s \<longleftrightarrow> v = Some (VStr s)"
  by (auto simp: as_string_def split: option.splits gvalue.splits)

lemma as_bool_Some_iff [simp]: "as_bool v = Some b \<longleftrightarrow> v = Some (VBool b)"
  by (auto simp: as_bool_def split: option.splits gvalue.splits)

lemma as_num_Some_iff [simp]: "as_num v = Some b \<longleftrightarrow> v = Some (VNum b)"
  by (auto simp: as_num_def split: option.splits gvalue.splits)

lemma as_obj_Some_iff [simp]: "as_obj v = Some kvs \<longleftrightarrow> v = Some (VObj kvs)"
  by (auto simp: as_obj_def split: option.splits gvalue.splits)

lemma as_arr_Some_iff [simp]: "as_arr v = Some xs \<longleftrightarrow> v = Some (VArr xs)"
  by (auto simp: as_arr_def split: option.splits gvalue.splits)

lemma map_string_trimmed [simp]: "trim_space (map_string m k) = map_string m k"
  by (simp add: map_string_def)

section \<open>The JSON round trip\<close>

text \<open>
  \<open>json.Marshal\<close> followed by \<open>json.Unmarshal\<close> into \<open>any\<close>: typed slices become \<open>[]any\<close>, structs
  become maps, integers become numbers. Every value of the type can be marshalled, so the error branches of the callers
  (channels, functions, non-finite floats) cannot be taken on it.
\<close>

fun json_value :: "gvalue \<Rightarrow> gvalue" where
  "json_value (VInt i) = VNum (of_int i)"
| "json_value (VStrs ss) = VArr (map VStr ss)"
| "json_value (VArr xs) = VArr (map json_value xs)"
| "json_value (VObj kvs) = VObj (map (\<lambda>(k, v). (k, json_value v)) kvs)"
| "json_value (VObjs os) = VArr (map (\<lambda>kvs. VObj (map (\<lambda>(k, v). (k, json_value v)) kvs)) os)"
| "json_value (VStruct kvs) = VObj (map (\<lambda>(k, v). (k, json_value v)) kvs)"
| "json_value (VStructs os) = VArr (map (\<lambda>kvs. VObj (map (\<lambda>(k, v). (k, json_value v)) kvs)) os)"
| "json_value v = v"

definition json_object :: "gmap \<Rightarrow> gobj" where
  \<comment> \<open>\<open>normalizeObject\<close> and \<open>cloneObject\<close>: a nil map becomes the empty one\<close>
  "json_object m = (case m of None \<Rightarrow> [] | Some kvs \<Rightarrow> map (\<lambda>(k, v). (k, json_value v)) kvs)"

lemma json_value_idem [simp]: "json_value (json_value v) = json_value v"
  by (induction v rule: json_value.induct) auto

lemma map_of_json_object: "map_of (json_object m) k = map_option json_value (mget m k)"
  by (auto simp: json_object_def mget_def map_of_map split: option.splits)

lemma json_object_idem [simp]: "json_object (Some (json_object m)) = json_object m"
  by (auto simp: json_object_def split: option.splits)

section \<open>Digests\<close>

definition is_hex :: "char \<Rightarrow> bool" where
  "is_hex c \<longleftrightarrow> is_digit c \<or> 97 \<le> (of_char c :: nat) \<and> (of_char c :: nat) \<le> 102"

definition digest_ok :: "string \<Rightarrow> bool" where
  \<comment> \<open>the pattern \<open>^sha256:[0-9a-f]{64}$\<close>\<close>
  "digest_ok s \<longleftrightarrow> prefix ''sha256:'' s \<and> length s = 71 \<and> list_all is_hex (drop 7 s)"

definition bare_digest_ok :: "string \<Rightarrow> bool" where
  \<comment> \<open>the pattern \<open>^[a-f0-9]{64}$\<close>\<close>
  "bare_digest_ok s \<longleftrightarrow> length s = 64 \<and> list_all is_hex s"

lemma digest_ok_nonempty: "digest_ok s \<Longrightarrow> s \<noteq> []"
  by (auto simp: digest_ok_def)

lemma digest_ok_empty [simp]: "\<not> digest_ok []"
  by (simp add: digest_ok_def)

section \<open>Base64\<close>

definition base64_value :: "char \<Rightarrow> nat option" where
  "base64_value c =
    (let n = of_char c :: nat in
     if 65 \<le> n \<and> n \<le> 90 then Some (n - 65)
     else if 97 \<le> n \<and> n \<le> 122 then Some (n - 71)
     else if 48 \<le> n \<and> n \<le> 57 then Some (n + 4)
     else if c = CHR ''+'' then Some 62
     else if c = CHR ''/'' then Some 63 else None)"

definition base64_bytes :: "nat \<Rightarrow> nat \<Rightarrow> nat \<Rightarrow> nat \<Rightarrow> string" where
  "base64_bytes x y z w =
     [char_of (x * 4 + y div 16), char_of (y mod 16 * 16 + z div 4), char_of (z mod 4 * 64 + w)]"

fun base64_groups :: "string \<Rightarrow> string option" where
  "base64_groups [] = Some []"
| "base64_groups (a # b # c # d # rest) =
    (case (base64_value a, base64_value b) of
       (Some x, Some y) \<Rightarrow>
         if c = CHR ''='' then (if d = CHR ''='' \<and> rest = [] then Some (take 1 (base64_bytes x y 0 0)) else None)
         else (case base64_value c of
             None \<Rightarrow> None
           | Some z \<Rightarrow>
               if d = CHR ''='' then (if rest = [] then Some (take 2 (base64_bytes x y z 0)) else None)
               else (case base64_value d of
                   None \<Rightarrow> None
                 | Some w \<Rightarrow> map_option (\<lambda>out. base64_bytes x y z w @ out) (base64_groups rest)))
     | _ \<Rightarrow> None)"
| "base64_groups _ = None"

definition base64_decode :: "string \<Rightarrow> string option" where
  \<comment> \<open>\<open>base64.StdEncoding.DecodeString\<close>, which skips line breaks\<close>
  "base64_decode s = base64_groups (filter (\<lambda>c. c \<noteq> CHR 0x0A \<and> c \<noteq> CHR 0x0D) s)"

section \<open>Proof records\<close>

text \<open>
  The record type belongs to the Proof library. These are the fields the program reads; nothing
  is assumed of how the library fills them.
\<close>

record signature =
  \<comment> \<open>the fields of the Proof library's signature\<close>
  sg_alg :: string
  sg_key_id :: string
  sg_signed_digest :: string
  sg_value :: string

record agent_hop =
  \<comment> \<open>\<open>AgentChainHop\<close>; the raw JSON extras are kept as key and text\<close>
  hop_identity :: string
  hop_role :: string
  hop_extra :: "(string \<times> string) list"

record rel_ref =
  \<comment> \<open>\<open>RelationshipRef\<close>\<close>
  rr_kind :: string
  rr_id :: string
  rr_digest :: string
  rr_schema_id :: string
  rr_schema_version :: string
  rr_source_product :: string
  rr_extra :: "(string \<times> string) list"

record policy_ref =
  po_id :: string
  po_version :: string
  po_digest :: string
  po_rules :: "string list"
  po_extra :: "(string \<times> string) list"

record rel_edge =
  re_kind :: string
  re_from :: rel_ref
  re_to :: rel_ref
  re_extra :: "(string \<times> string) list"

record lineage_hop =
  lh_agent :: string
  lh_by :: string
  lh_record :: string
  lh_extra :: "(string \<times> string) list"

record relationship =
  \<comment> \<open>a \<open>None\<close> field is a nil pointer\<close>
  rel_parent_ref :: "rel_ref option"
  rel_entity_refs :: "rel_ref list"
  rel_policy :: "policy_ref option"
  rel_agent_chain :: "agent_hop list"
  rel_edges :: "rel_edge list"
  rel_parent_id :: string
  rel_records :: "string list"
  rel_entities :: "string list"
  rel_lineage :: "lineage_hop list"
  rel_extra :: "(string \<times> string) list"

record human_oversight =
  ho_reviewer :: string
  ho_approval_required :: bool

record proof_record =
  pr_record_id :: string
  pr_record_type :: string
  pr_source :: string
  pr_source_product :: string
  pr_agent_id :: string
  pr_timestamp :: instant
  pr_event :: gmap
  pr_metadata :: gmap
  pr_relationship :: "relationship option"
  pr_human_oversight :: "human_oversight option"
  pr_record_hash :: string
  pr_previous_hash :: string
  pr_signing_key_id :: string
  pr_signature :: string

definition record_type_of :: "proof_record \<Rightarrow> string" where
  "record_type_of r = to_lower (trim_space (pr_record_type r))"

definition record_before :: "proof_record \<Rightarrow> proof_record \<Rightarrow> bool" where
  \<comment> \<open>by timestamp, then record id, then record hash\<close>
  "record_before a b \<longleftrightarrow>
     (if pr_timestamp a \<noteq> pr_timestamp b then pr_timestamp a < pr_timestamp b
      else if pr_record_id a \<noteq> pr_record_id b then pr_record_id a < pr_record_id b
      else pr_record_hash a < pr_record_hash b)"

definition record_key :: "proof_record \<Rightarrow> instant \<times> string \<times> string" where
  "record_key r = (pr_timestamp r, pr_record_id r, pr_record_hash r)"

lemma record_before_key: "record_before a b \<longleftrightarrow> record_key a < record_key b"
  by (auto simp: record_before_def record_key_def)

end
