(* ===== verification/Lifecycle.thy ===== *)
theory Lifecycle
  imports GoValue
begin

text \<open>
  The governed-action lifecycle of \<open>core/governance/reducer.go\<close>: references, events, the table
  of legal transitions and the reducer that replays an event history into a contract state.
\<close>

section \<open>Data\<close>

record gov_ref =
  ref_id :: string
  ref_kind :: string
  ref_digest :: string
  ref_source :: string
  ref_source_product :: string
  ref_schema_id :: string
  ref_schema_version :: string

record event =
  ev_id :: string
  ev_contract_ref :: gov_ref
  ev_kind :: string
  ev_occurred_at :: string
  ev_status :: string
  ev_source_digest :: string

record lstate =
  st_contract_id :: string
  st_status :: string
  st_events :: "string list"
  st_source_digests :: "string list"
  st_complete :: bool
  st_reason_codes :: "string list"

definition valid_ref :: "gov_ref \<Rightarrow> bool" where
  "valid_ref r \<longleftrightarrow> ref_id r \<noteq> [] \<and> ref_kind r \<noteq> [] \<and> digest_ok (ref_digest r) \<and>
     ref_source r \<noteq> [] \<and> ref_source_product r \<noteq> [] \<and> ref_schema_id r \<noteq> [] \<and>
     ref_schema_version r \<noteq> []"

definition reason_malformed :: string where "reason_malformed = ''GOVERNANCE_MALFORMED''"
definition reason_tampered :: string where "reason_tampered = ''GOVERNANCE_DIGEST_MISMATCH''"
definition reason_out_of_scope :: string where "reason_out_of_scope = ''GOVERNANCE_OUT_OF_SCOPE''"

section \<open>The transition table\<close>

definition effect_kinds :: "string list" where
  "effect_kinds = [''effect_recorded'', ''effect_validated'', ''effect_rejected'', ''effect_unresolved'']"

definition allowed_base :: "(string \<times> string list) list" where
  "allowed_base =
   [(''unknown'', [''proposed'', ''registered'']),
    (''proposed'', [''approved'', ''activated'']),
    (''active'', [''execution_started'', ''execution_blocked'', ''stop_requested'',
       ''revocation_requested'']),
    (''executing'', [''execution_succeeded'', ''execution_failed'', ''execution_blocked'',
       ''effect_recorded'', ''effect_validated'', ''effect_rejected'', ''effect_unresolved'',
       ''stop_requested'', ''revocation_requested'']),
    (''failed'', [''compensation_required'', ''compensation_not_required'', ''compensation_started'',
       ''compensation_failed'', ''compensation_unresolved'', ''compensated'', ''contained'',
       ''containment_partial'', ''containment_unresolved'']),
    (''succeeded'', [''effect_recorded'', ''effect_validated'', ''effect_rejected'',
       ''effect_unresolved'', ''compensation_required'', ''compensation_not_required'',
       ''compensation_started'', ''compensation_failed'', ''compensation_unresolved'',
       ''compensated'', ''contained'', ''containment_requested'', ''containment_partial'',
       ''containment_unresolved'']),
    (''effect_recorded'', [''effect_validated'', ''effect_rejected'', ''effect_unresolved'',
       ''compensation_required'', ''compensation_not_required'', ''compensation_started'',
       ''compensation_failed'', ''compensation_unresolved'', ''compensated'']),
    (''compensation_required'', [''effect_recorded'', ''effect_validated'', ''effect_rejected'',
       ''effect_unresolved'', ''compensation_started'', ''compensation_failed'',
       ''compensation_unresolved'', ''compensated'', ''containment_requested'',
       ''containment_partial'', ''containment_unresolved'', ''contained'']),
    (''compensating'', [''effect_recorded'', ''effect_validated'', ''effect_rejected'',
       ''effect_unresolved'', ''compensated'', ''compensation_failed'', ''compensation_unresolved'',
       ''contained'', ''containment_requested'', ''containment_partial'', ''containment_unresolved'']),
    (''containing'', [''containment_partial'', ''containment_unresolved'', ''contained'',
       ''compensation_required'', ''compensation_not_required'', ''compensation_started'',
       ''compensation_failed'', ''compensation_unresolved'', ''compensated'']),
    (''blocked'', [''compensation_required'', ''compensation_not_required'', ''compensation_started'',
       ''compensation_failed'', ''compensation_unresolved'', ''compensated'', ''contained'']),
    (''partial'', [''compensation_required'', ''compensation_not_required'', ''compensation_started'',
       ''compensation_failed'', ''compensation_unresolved'', ''compensated'']),
    (''gap'', [''compensation_required'', ''compensation_not_required'', ''compensation_started'',
       ''compensation_failed'', ''compensation_unresolved'', ''compensated'']),
    (''compensated'', [''containment_requested'', ''containment_partial'', ''containment_unresolved'',
       ''contained'']),
    (''stopping'', [''stop_acknowledged'', ''contained'']),
    (''revoking'', [''revocation_acknowledged'', ''contained'']),
    (''contained'', [''compensation_required'', ''compensation_not_required'',
       ''compensation_started'', ''compensated''])]"

definition extend_row :: "string \<Rightarrow> string \<Rightarrow> (string \<times> string list) list \<Rightarrow> (string \<times> string list) list" where
  \<comment> \<open>\<open>allowed[status][kind] = true\<close>\<close>
  "extend_row status kind table =
     map (\<lambda>(s, ks). if s = status then (s, ks @ [kind]) else (s, ks)) table"

definition allowed_table :: "(string \<times> string list) list" where
  "allowed_table =
     fold (\<lambda>status. extend_row status ''activated'')
       [''succeeded'', ''failed'', ''blocked'', ''compensated'', ''contained'']
       (fold (extend_row ''compensated'') effect_kinds allowed_base)"

definition allowed :: "string \<Rightarrow> string \<Rightarrow> bool" where
  "allowed status kind \<longleftrightarrow> (case map_of allowed_table status of None \<Rightarrow> False | Some ks \<Rightarrow> kind \<in> set ks)"

definition lifecycle_kinds :: "string list" where
  "lifecycle_kinds =
     [''proposed'', ''registered'', ''approved'', ''activated'', ''execution_started'',
      ''execution_succeeded'', ''execution_failed'', ''execution_blocked'', ''effect_recorded'',
      ''effect_validated'', ''effect_rejected'', ''effect_unresolved'', ''containment_requested'',
      ''containment_partial'', ''containment_unresolved'', ''compensation_required'',
      ''compensation_not_required'', ''compensation_started'', ''compensation_failed'',
      ''compensation_unresolved'', ''compensated'', ''stop_requested'', ''stop_acknowledged'',
      ''revocation_requested'', ''revocation_acknowledged'', ''contained'']"

section \<open>The reducer\<close>

definition event_before :: "event \<Rightarrow> event \<Rightarrow> bool" where
  "event_before l r =
     (case (parse_rfc3339 (ev_occurred_at l), parse_rfc3339 (ev_occurred_at r)) of
        (Some lt', Some rt') \<Rightarrow> if lt' = rt' then ev_id l < ev_id r else lt' < rt'
      | _ \<Rightarrow> if ev_occurred_at l = ev_occurred_at r then ev_id l < ev_id r
             else ev_occurred_at l < ev_occurred_at r)"

definition remove_reason :: "string list \<Rightarrow> string \<Rightarrow> string list" where
  "remove_reason reasons target = filter (\<lambda>r. r \<noteq> target) reasons"

definition blocking_gaps :: "string list" where
  "blocking_gaps = [''GAP_CONTAINMENT'', ''GAP_CONTAINMENT_PARTIAL'', ''GAP_EFFECT'',
     ''GAP_EXECUTION_BLOCKED'', ''GAP_COMPENSATION'']"

definition has_blocking_gap :: "string list \<Rightarrow> bool" where
  "has_blocking_gap reasons = list_ex (\<lambda>r. r \<in> set blocking_gaps) reasons"

definition set_status :: "string \<Rightarrow> lstate \<Rightarrow> lstate" where
  "set_status x s = s\<lparr>st_status := x\<rparr>"

definition set_status_reason :: "string \<Rightarrow> string \<Rightarrow> lstate \<Rightarrow> lstate" where
  "set_status_reason x r s = s\<lparr>st_status := x, st_reason_codes := st_reason_codes s @ [r]\<rparr>"

definition apply_kind :: "event \<Rightarrow> lstate \<Rightarrow> lstate" where
  \<comment> \<open>the last switch of the loop body: what an accepted event does to status and reasons\<close>
  "apply_kind e s =
    (let k = ev_kind e in
     if k \<in> {''proposed'', ''registered''} then set_status ''proposed'' s
     else if k \<in> {''approved'', ''activated''} then set_status ''active'' s
     else if k = ''execution_started'' then set_status ''executing'' s
     else if k \<in> {''execution_succeeded'', ''effect_validated''} then set_status ''succeeded'' s
     else if k \<in> {''execution_failed'', ''effect_rejected''} then set_status ''failed'' s
     else if k = ''execution_blocked'' then set_status_reason ''blocked'' ''GAP_EXECUTION_BLOCKED'' s
     else if k = ''effect_unresolved'' then set_status_reason ''gap'' ''GAP_EFFECT'' s
     else if k = ''effect_recorded'' then set_status ''effect_recorded'' s
     else if k = ''compensation_required'' then
       set_status_reason ''compensation_required'' ''REQUIRED_COMPENSATION_MISSING'' s
     else if k = ''compensation_not_required'' then s
     else if k = ''compensation_started'' then set_status ''compensating'' s
     else if k \<in> {''compensation_failed'', ''compensation_unresolved''} then
       set_status_reason ''gap'' ''GAP_COMPENSATION'' s
     else if k = ''contained'' then
       (if ev_status e \<in> {''unresolved'', ''unknown'', ''gap''}
        then set_status_reason ''gap'' ''GAP_CONTAINMENT'' s
        else set_status ''contained'' s)
     else if k = ''containment_requested'' then set_status ''containing'' s
     else if k = ''containment_partial'' then set_status_reason ''partial'' ''GAP_CONTAINMENT_PARTIAL'' s
     else if k = ''containment_unresolved'' then set_status_reason ''gap'' ''GAP_CONTAINMENT'' s
     else if k = ''compensated'' then
       s\<lparr>st_status := ''compensated'',
         st_reason_codes := remove_reason (st_reason_codes s) ''REQUIRED_COMPENSATION_MISSING''\<rparr>
     else if k \<in> {''stop_requested'', ''revocation_requested''} then set_status ''stopping'' s
     else if k \<in> {''stop_acknowledged'', ''revocation_acknowledged''} then set_status ''contained'' s
     else s)"

record reducer =
  rd_state :: lstate
  rd_seen :: "string list"
  rd_seen_digests :: "string list"

definition reduce_step :: "string \<Rightarrow> reducer \<Rightarrow> event \<Rightarrow> (string, reducer) result" where
  \<comment> \<open>one iteration of the loop of \<open>ReduceChecked\<close>\<close>
  "reduce_step cid rd e =
    (let c = ev_contract_ref e; s = rd_state rd; d = ev_source_digest e in
     if (ref_digest c \<noteq> [] \<or> ref_schema_id c \<noteq> [] \<or> d \<noteq> []) \<and>
        (\<not> valid_ref c \<or> ref_id c \<noteq> cid \<or> \<not> digest_ok d)
     then Inl (reason_tampered @ '': digest-bound evidence required'')
     else if ref_id c \<noteq> cid then Inl (reason_out_of_scope @ '': foreign event '' @ ev_id e)
     else if ev_id e = [] then Inl (reason_malformed @ '': event id required'')
     else if ev_id e \<in> set (rd_seen rd) then Inl (reason_tampered @ '': duplicate event '' @ ev_id e)
     else if parse_rfc3339 (ev_occurred_at e) = None
     then Inl (reason_malformed @ '': event timestamp '' @ ev_id e)
     else if d \<noteq> [] \<and> \<not> digest_ok d then Inl (reason_tampered @ '': event digest '' @ ev_id e)
     else if d \<noteq> [] \<and> d \<in> set (rd_seen_digests rd) then Inl (reason_tampered @ '': duplicate digest'')
     else if ev_kind e = [] then Inl (reason_malformed @ '': event kind '' @ ev_id e)
     else if ev_kind e \<notin> set lifecycle_kinds
     then Inl (reason_malformed @ '': unknown lifecycle kind '' @ ev_kind e)
     else if \<not> allowed (st_status s) (ev_kind e) \<and>
             (st_status s \<noteq> ''unknown'' \<or> ev_kind e \<noteq> ''registered'')
     then Inl (reason_malformed @ '': illegal transition '' @ st_status s @ '' -> '' @ ev_kind e)
     else Inr
       (let s1 = s\<lparr>st_events := st_events s @ [ev_id e]\<rparr>;
            s2 = (if d \<noteq> [] then s1\<lparr>st_source_digests := st_source_digests s1 @ [d]\<rparr> else s1)
        in \<lparr>rd_state = apply_kind e s2,
            rd_seen = ev_id e # rd_seen rd,
            rd_seen_digests = (if d \<noteq> [] then d # rd_seen_digests rd else rd_seen_digests rd)\<rparr>))"

fun reduce_loop :: "string \<Rightarrow> reducer \<Rightarrow> event list \<Rightarrow> reducer \<times> string option" where
  "reduce_loop cid rd [] = (rd, None)"
| "reduce_loop cid rd (e # es) =
     (case reduce_step cid rd e of
        Inl err \<Rightarrow> (rd, Some err)
      | Inr rd' \<Rightarrow> reduce_loop cid rd' es)"

definition initial_state :: "string \<Rightarrow> lstate" where
  "initial_state cid = \<lparr>st_contract_id = cid, st_status = ''unknown'', st_events = [],
     st_source_digests = [], st_complete = False, st_reason_codes = []\<rparr>"

definition initial_reducer :: "string \<Rightarrow> reducer" where
  "initial_reducer cid = \<lparr>rd_state = initial_state cid, rd_seen = [], rd_seen_digests = []\<rparr>"

definition terminal_status :: "string \<Rightarrow> bool" where
  "terminal_status x \<longleftrightarrow> x \<in> {''succeeded'', ''failed'', ''contained'', ''compensated''}"

definition reduce_checked :: "string \<Rightarrow> event list \<Rightarrow> lstate \<times> string option" where
  "reduce_checked cid events =
     (case reduce_loop cid (initial_reducer cid) (go_sort event_before events) of
        (rd, Some err) \<Rightarrow> (rd_state rd, Some err)
      | (rd, None) \<Rightarrow>
          (let s = rd_state rd
           in (s\<lparr>st_complete := terminal_status (st_status s) \<and> \<not> has_blocking_gap (st_reason_codes s)\<rparr>,
               None)))"

definition reduce_events :: "string \<Rightarrow> event list \<Rightarrow> lstate \<times> string option" where
  \<comment> \<open>\<open>Reduce\<close>\<close>
  "reduce_events cid events = reduce_checked cid events"

definition digest_bound :: "string \<Rightarrow> event \<Rightarrow> bool" where
  "digest_bound cid e \<longleftrightarrow> valid_ref (ev_contract_ref e) \<and> ref_id (ev_contract_ref e) = cid \<and>
     digest_ok (ev_source_digest e)"

definition reduce_verified :: "string \<Rightarrow> event list \<Rightarrow> lstate \<times> string option" where
  "reduce_verified cid events =
     (if list_ex (\<lambda>e. \<not> digest_bound cid e) events
      then ((initial_state cid)\<lparr>st_status := ''unverifiable'',
              st_reason_codes := [''EVIDENCE_DIGEST_OR_REFERENCE_MISSING'']\<rparr>,
            Some (reason_tampered @ '': digest-bound evidence required''))
      else reduce_checked cid events)"

section \<open>What one accepted event does\<close>

definition status_after :: "event \<Rightarrow> string \<Rightarrow> string" where
  "status_after e x = st_status (apply_kind e ((initial_state [])\<lparr>st_status := x\<rparr>))"

lemmas status_setters = set_status_def set_status_reason_def

lemma apply_kind_status: "st_status (apply_kind e s) = status_after e (st_status s)"
  by (simp add: apply_kind_def status_after_def status_setters Let_def initial_state_def)

lemma apply_kind_frame [record_facts]:
  "st_events (apply_kind e s) = st_events s"
  "st_source_digests (apply_kind e s) = st_source_digests s"
  "st_contract_id (apply_kind e s) = st_contract_id s"
  "st_complete (apply_kind e s) = st_complete s"
  by (simp_all add: apply_kind_def status_setters Let_def)

definition well_formed_event :: "string \<Rightarrow> event \<Rightarrow> bool" where
  \<comment> \<open>the checks of the loop that look at one event only\<close>
  "well_formed_event cid e \<longleftrightarrow>
     ((ref_digest (ev_contract_ref e) = [] \<and> ref_schema_id (ev_contract_ref e) = [] \<and>
       ev_source_digest e = []) \<or> digest_bound cid e) \<and>
     ref_id (ev_contract_ref e) = cid \<and> ev_id e \<noteq> [] \<and> parse_rfc3339 (ev_occurred_at e) \<noteq> None"

lemma allowed_rows:
  assumes "allowed x k"
  obtains ks where "(x, ks) \<in> set allowed_table" "k \<in> set ks"
  using assms by (auto simp: allowed_def split: option.splits dest: map_of_SomeD)

lemma allowed_table_known: "list_all (\<lambda>(x, ks). list_all (\<lambda>k. k \<in> set lifecycle_kinds) ks) allowed_table"
  by code_simp

lemma allowed_known: "allowed x k \<Longrightarrow> k \<in> set lifecycle_kinds"
  using allowed_table_known by (force simp: list_all_iff elim!: allowed_rows)

lemma known_nonempty: "k \<in> set lifecycle_kinds \<Longrightarrow> k \<noteq> []"
  by (auto simp: lifecycle_kinds_def)

lemma allowed_unknown_registered: "allowed ''unknown'' ''registered''"
  by code_simp

definition accept :: "reducer \<Rightarrow> event \<Rightarrow> reducer" where
  "accept rd e =
     (let d = ev_source_digest e; s = rd_state rd in
      \<lparr>rd_state = apply_kind e (s\<lparr>st_events := st_events s @ [ev_id e],
          st_source_digests := st_source_digests s @ (if d \<noteq> [] then [d] else [])\<rparr>),
       rd_seen = ev_id e # rd_seen rd,
       rd_seen_digests = (if d \<noteq> [] then [d] else []) @ rd_seen_digests rd\<rparr>)"

lemma reduce_step_Inr_iff:
  "reduce_step cid rd e = Inr rd' \<longleftrightarrow>
     well_formed_event cid e \<and> ev_id e \<notin> set (rd_seen rd) \<and>
     (ev_source_digest e \<noteq> [] \<longrightarrow> ev_source_digest e \<notin> set (rd_seen_digests rd)) \<and>
     allowed (st_status (rd_state rd)) (ev_kind e) \<and> rd' = accept rd e"
proof -
  have legal: "(\<not> allowed x k \<and> (x \<noteq> ''unknown'' \<or> k \<noteq> ''registered'')) \<longleftrightarrow> \<not> allowed x k" for x k
    using allowed_unknown_registered by auto
  show ?thesis
    unfolding reduce_step_def accept_def Let_def legal well_formed_event_def digest_bound_def
    using allowed_known known_nonempty by auto
qed

lemma accept_status: "st_status (rd_state (accept rd e)) = status_after e (st_status (rd_state rd))"
  by (simp add: accept_def Let_def apply_kind_status)

lemma accept_frame [record_facts]:
  "rd_seen (accept rd e) = ev_id e # rd_seen rd"
  "st_events (rd_state (accept rd e)) = st_events (rd_state rd) @ [ev_id e]"
  "st_contract_id (rd_state (accept rd e)) = st_contract_id (rd_state rd)"
  by (simp_all add: accept_def Let_def record_facts)

section \<open>The transition system and its runs\<close>

text \<open>
  \<open>history x es y\<close>: replaying the events \<open>es\<close> in this order takes status \<open>x\<close> to status
  \<open>y\<close>, every event being legal in the status it meets.
\<close>

inductive history :: "string \<Rightarrow> event list \<Rightarrow> string \<Rightarrow> bool" where
  history_nil: "history x [] x"
| history_cons: "allowed x (ev_kind e) \<Longrightarrow> history (status_after e x) es y \<Longrightarrow> history x (e # es) y"

inductive_simps history_Nil_iff [simp]: "history x [] y"
inductive_simps history_Cons_iff [simp]: "history x (e # es) y"

lemma history_deterministic: "history x es y \<Longrightarrow> history x es z \<Longrightarrow> y = z"
  by (induction rule: history.induct) auto

lemma history_append:
  "history x (es @ fs) y \<longleftrightarrow> (\<exists>z. history x es z \<and> history z fs y)"
  by (induction es arbitrary: x) auto

definition sourced_digests :: "event list \<Rightarrow> string list" where
  "sourced_digests es = filter (\<lambda>d. d \<noteq> []) (map ev_source_digest es)"

lemma sourced_digests_Cons:
  "sourced_digests (e # es) =
     (if ev_source_digest e \<noteq> [] then ev_source_digest e # sourced_digests es else sourced_digests es)"
  by (simp add: sourced_digests_def)

text \<open>The loop accepts exactly the duplicate-free, well-formed runs of the transition system.\<close>

lemma reduce_loop_accepts_iff:
  "snd (reduce_loop cid rd es) = None \<longleftrightarrow>
     (\<forall>e \<in> set es. well_formed_event cid e) \<and>
     distinct (map ev_id es) \<and> set (map ev_id es) \<inter> set (rd_seen rd) = {} \<and>
     distinct (sourced_digests es) \<and> set (sourced_digests es) \<inter> set (rd_seen_digests rd) = {} \<and>
     (\<exists>y. history (st_status (rd_state rd)) es y)"
proof (induction es arbitrary: rd)
  case Nil
  then show ?case by (simp add: sourced_digests_def)
next
  case (Cons e es)
  have seen: "set (rd_seen_digests (accept rd e)) =
      (if ev_source_digest e \<noteq> [] then {ev_source_digest e} else {}) \<union> set (rd_seen_digests rd)"
    by (simp add: accept_def Let_def)
  show ?case
  proof (cases "reduce_step cid rd e")
    case (Inl err)
    then have "\<not> (well_formed_event cid e \<and> ev_id e \<notin> set (rd_seen rd) \<and>
       (ev_source_digest e \<noteq> [] \<longrightarrow> ev_source_digest e \<notin> set (rd_seen_digests rd)) \<and>
       allowed (st_status (rd_state rd)) (ev_kind e))"
      using reduce_step_Inr_iff [of cid rd e "accept rd e"] by auto
    with Inl show ?thesis by (auto simp: sourced_digests_Cons)
  next
    case (Inr rd')
    then have ok: "well_formed_event cid e \<and> ev_id e \<notin> set (rd_seen rd) \<and>
       (ev_source_digest e \<noteq> [] \<longrightarrow> ev_source_digest e \<notin> set (rd_seen_digests rd)) \<and>
       allowed (st_status (rd_state rd)) (ev_kind e)" and rd': "rd' = accept rd e"
      by (simp_all add: reduce_step_Inr_iff)
    show ?thesis
      using ok by (auto simp: Inr rd' Cons.IH accept_status record_facts seen sourced_digests_Cons)
  qed
qed

lemma reduce_loop_state:
  assumes "reduce_loop cid rd es = (rd', None)"
  shows "st_events (rd_state rd') = st_events (rd_state rd) @ map ev_id es \<and>
    st_source_digests (rd_state rd') = st_source_digests (rd_state rd) @ sourced_digests es \<and>
    st_contract_id (rd_state rd') = st_contract_id (rd_state rd) \<and>
    history (st_status (rd_state rd)) es (st_status (rd_state rd'))"
  using assms
proof (induction es arbitrary: rd)
  case Nil
  then show ?case by (simp add: sourced_digests_def)
next
  case (Cons e es)
  then have step: "reduce_step cid rd e = Inr (accept rd e)"
    and rest: "reduce_loop cid (accept rd e) es = (rd', None)"
    by (auto simp: reduce_step_Inr_iff split: sum.splits)
  have "st_source_digests (rd_state (accept rd e)) =
      st_source_digests (rd_state rd) @ (if ev_source_digest e \<noteq> [] then [ev_source_digest e] else [])"
    by (simp add: accept_def Let_def record_facts)
  with Cons.IH [OF rest] step show ?case
    by (auto simp: record_facts accept_status reduce_step_Inr_iff sourced_digests_Cons)
qed


section \<open>Replay order\<close>

definition event_key :: "event \<Rightarrow> instant \<times> string" where
  "event_key e = (the (parse_rfc3339 (ev_occurred_at e)), ev_id e)"

lemma event_before_key:
  assumes "parse_rfc3339 (ev_occurred_at a) \<noteq> None" "parse_rfc3339 (ev_occurred_at b) \<noteq> None"
  shows "event_before a b \<longleftrightarrow> event_key a < event_key b"
  using assms by (auto simp: event_before_def event_key_def less_prod_def')

lemma replay_order_key:
  assumes "list_all (well_formed_event cid) es"
  shows "go_sort event_before es = sort_key event_key es"
  using assms
  by (intro go_sort_key_on event_before_key) (auto simp: well_formed_event_def list_all_iff)

lemma reduce_checked_loop:
  "snd (reduce_checked cid es) = snd (reduce_loop cid (initial_reducer cid) (go_sort event_before es))"
  by (simp add: reduce_checked_def Let_def split: prod.split option.split)

lemma reduce_checked_ok_iff:
  "snd (reduce_checked cid es) = None \<longleftrightarrow>
     list_all (well_formed_event cid) es \<and> distinct (map ev_id es) \<and> distinct (sourced_digests es) \<and>
     (\<exists>y. history ''unknown'' (go_sort event_before es) y)"
proof -
  let ?in = "go_sort event_before es"
  have ids: "distinct (map ev_id ?in) = distinct (map ev_id es)"
    by (metis mset_go_sort mset_map mset_eq_imp_distinct_iff)
  have "mset (sourced_digests ?in) = mset (sourced_digests es)"
    by (simp add: sourced_digests_def flip: mset_filter)
      (simp add: mset_filter mset_map)
  then have ds: "distinct (sourced_digests ?in) = distinct (sourced_digests es)"
    by (rule mset_eq_imp_distinct_iff)
  show ?thesis
    unfolding reduce_checked_loop reduce_loop_accepts_iff ids ds
    by (simp add: initial_reducer_def initial_state_def list_all_iff)
qed

lemma reduce_checked_run:
  assumes "reduce_checked cid es = (s, None)"
  obtains rd where "reduce_loop cid (initial_reducer cid) (go_sort event_before es) = (rd, None)"
    and "s = (rd_state rd)\<lparr>st_complete := terminal_status (st_status (rd_state rd)) \<and>
           \<not> has_blocking_gap (st_reason_codes (rd_state rd))\<rparr>"
    and "history ''unknown'' (go_sort event_before es) (st_status s)"
proof -
  obtain rd where rd: "reduce_loop cid (initial_reducer cid) (go_sort event_before es) = (rd, None)"
    and s: "s = (rd_state rd)\<lparr>st_complete := terminal_status (st_status (rd_state rd)) \<and>
           \<not> has_blocking_gap (st_reason_codes (rd_state rd))\<rparr>"
    using assms by (auto simp: reduce_checked_def Let_def split: prod.splits option.splits)
  show ?thesis
    using reduce_loop_state [OF rd] by (intro that [OF rd s]) (simp add: s initial_reducer_def initial_state_def)
qed

section \<open>Reason codes\<close>

definition gap_event :: "event \<Rightarrow> bool" where
  "gap_event e \<longleftrightarrow> ev_kind e \<in> {''execution_blocked'', ''effect_unresolved'', ''compensation_failed'',
       ''compensation_unresolved'', ''containment_partial'', ''containment_unresolved''} \<or>
     (ev_kind e = ''contained'' \<and> ev_status e \<in> {''unresolved'', ''unknown'', ''gap''})"

lemma has_blocking_gap_set: "has_blocking_gap rs \<longleftrightarrow> set rs \<inter> set blocking_gaps \<noteq> {}"
  by (auto simp: has_blocking_gap_def list_ex_iff)

lemma apply_kind_gap:
  assumes "ev_kind e \<in> set lifecycle_kinds"
  shows "has_blocking_gap (st_reason_codes (apply_kind e s)) \<longleftrightarrow>
     gap_event e \<or> has_blocking_gap (st_reason_codes s)"
proof -
  have drop: "has_blocking_gap (remove_reason rs ''REQUIRED_COMPENSATION_MISSING'') = has_blocking_gap rs" for rs
    by (induction rs) (auto simp: has_blocking_gap_def remove_reason_def blocking_gaps_def)
  have add: "has_blocking_gap (rs @ [r]) \<longleftrightarrow> r \<in> set blocking_gaps \<or> has_blocking_gap rs" for rs r
    by (auto simp: has_blocking_gap_def)
  have "list_all (\<lambda>k. ev_kind e = k \<longrightarrow> has_blocking_gap (st_reason_codes (apply_kind e s)) \<longleftrightarrow>
     gap_event e \<or> has_blocking_gap (st_reason_codes s)) lifecycle_kinds"
    by (simp add: lifecycle_kinds_def apply_kind_def gap_event_def status_setters Let_def drop add
        blocking_gaps_def)
  then show ?thesis using assms by (auto simp: list_all_iff)
qed

lemma reduce_loop_gap:
  "reduce_loop cid rd es = (rd', None) \<Longrightarrow>
     has_blocking_gap (st_reason_codes (rd_state rd')) \<longleftrightarrow>
       list_ex gap_event es \<or> has_blocking_gap (st_reason_codes (rd_state rd))"
proof (induction es arbitrary: rd)
  case (Cons e es)
  then have rest: "reduce_loop cid (accept rd e) es = (rd', None)"
    and known: "ev_kind e \<in> set lifecycle_kinds"
    by (auto simp: reduce_step_Inr_iff allowed_known split: sum.splits)
  show ?case
    by (simp add: Cons.IH [OF rest]) (simp add: accept_def Let_def apply_kind_gap [OF known] disj_ac)
qed simp

definition compensation_missing :: string where
  "compensation_missing = ''REQUIRED_COMPENSATION_MISSING''"

fun compensation_owed :: "bool \<Rightarrow> event list \<Rightarrow> bool" where
  \<comment> \<open>the last of the compensation demands and completions decides\<close>
  "compensation_owed owed [] = owed"
| "compensation_owed owed (e # es) =
     compensation_owed
       (if ev_kind e = ''compensation_required'' then True
        else if ev_kind e = ''compensated'' then False else owed) es"

lemma apply_kind_owed:
  assumes "ev_kind e \<in> set lifecycle_kinds"
  shows "compensation_missing \<in> set (st_reason_codes (apply_kind e s)) \<longleftrightarrow>
     compensation_owed (compensation_missing \<in> set (st_reason_codes s)) [e]"
proof -
  have "list_all (\<lambda>k. ev_kind e = k \<longrightarrow>
     compensation_missing \<in> set (st_reason_codes (apply_kind e s)) \<longleftrightarrow>
     compensation_owed (compensation_missing \<in> set (st_reason_codes s)) [e]) lifecycle_kinds"
    by (simp add: lifecycle_kinds_def apply_kind_def status_setters Let_def compensation_missing_def
        remove_reason_def)
  then show ?thesis using assms by (auto simp: list_all_iff)
qed

lemma reduce_loop_owed:
  "reduce_loop cid rd es = (rd', None) \<Longrightarrow>
     compensation_missing \<in> set (st_reason_codes (rd_state rd')) \<longleftrightarrow>
       compensation_owed (compensation_missing \<in> set (st_reason_codes (rd_state rd))) es"
proof (induction es arbitrary: rd)
  case (Cons e es)
  then have rest: "reduce_loop cid (accept rd e) es = (rd', None)"
    and known: "ev_kind e \<in> set lifecycle_kinds"
    by (auto simp: reduce_step_Inr_iff allowed_known split: sum.splits)
  show ?case
    by (simp add: Cons.IH [OF rest]) (simp add: accept_def Let_def apply_kind_owed [OF known])
qed simp

section \<open>Facts of the table\<close>

lemma table_active:
  "list_all (\<lambda>(x, ks). list_all (\<lambda>k. k = ''execution_started'' \<longrightarrow> x = ''active'') ks) allowed_table"
  by code_simp

lemma allowed_execution: "allowed x ''execution_started'' \<Longrightarrow> x = ''active''"
  using table_active by (force simp: list_all_iff elim!: allowed_rows)

lemma allowed_active:
  "allowed ''active'' k \<Longrightarrow> k \<in> {''execution_started'', ''execution_blocked'', ''stop_requested'',
     ''revocation_requested''}"
  by (simp add: allowed_def allowed_table_def allowed_base_def extend_row_def effect_kinds_def)

lemma allowed_unknown: "allowed ''unknown'' k \<Longrightarrow> k \<in> {''proposed'', ''registered''}"
  by (simp add: allowed_def allowed_table_def allowed_base_def extend_row_def effect_kinds_def)

lemma table_revoking:
  "list_all (\<lambda>(x, ks). list_all (\<lambda>k. k = ''revocation_acknowledged'' \<longrightarrow> x = ''revoking'') ks) allowed_table"
  by code_simp

lemma allowed_revocation: "allowed x ''revocation_acknowledged'' \<Longrightarrow> x = ''revoking''"
  using table_revoking by (force simp: list_all_iff elim!: allowed_rows)

lemma status_after_unchanged_or:
  "status_after e x = x \<or> status_after e x \<in> {''proposed'', ''active'', ''executing'', ''succeeded'',
     ''failed'', ''blocked'', ''gap'', ''effect_recorded'', ''compensation_required'', ''compensating'',
     ''contained'', ''containing'', ''partial'', ''compensated'', ''stopping''}"
  by (simp add: status_after_def apply_kind_def status_setters Let_def)

lemma status_after_active:
  "status_after e x = ''active'' \<Longrightarrow> allowed x (ev_kind e) \<Longrightarrow> ev_kind e \<in> {''approved'', ''activated''}"
  using allowed_active [of "ev_kind e"]
  by (auto simp: status_after_def apply_kind_def status_setters Let_def initial_state_def split: if_splits)

lemma never_revoking: "history x es y \<Longrightarrow> x \<noteq> ''revoking'' \<Longrightarrow> y \<noteq> ''revoking''"
proof (induction rule: history.induct)
  case (history_cons x e es y)
  then show ?case using status_after_unchanged_or [of e x] by auto
qed simp

section \<open>The properties of the reducer\<close>

definition demo_ref :: gov_ref where
  "demo_ref = \<lparr>ref_id = ''c1'', ref_kind = [], ref_digest = [], ref_source = [],
     ref_source_product = [], ref_schema_id = [], ref_schema_version = []\<rparr>"

definition demo_event :: "string \<Rightarrow> string \<Rightarrow> string \<Rightarrow> event" where
  "demo_event i k t = \<lparr>ev_id = i, ev_contract_ref = demo_ref, ev_kind = k, ev_occurred_at = t,
     ev_status = [], ev_source_digest = []\<rparr>"

definition demo_run :: "event list" where
  "demo_run =
     [demo_event ''e3'' ''execution_started'' ''2026-01-01T02:00:00+01:00'',
      demo_event ''e1'' ''proposed'' ''2026-01-01T00:00:00Z'',
      demo_event ''e2'' ''activated'' ''2026-01-01T00:30:00Z'',
      demo_event ''e4'' ''execution_succeeded'' ''2026-01-01T01:00:00.5Z'']"

lemma demo_run_value:
  "reduce_checked ''c1'' demo_run =
     (\<lparr>st_contract_id = ''c1'', st_status = ''succeeded'', st_events = [''e1'', ''e2'', ''e3'', ''e4''],
       st_source_digests = [], st_complete = True, st_reason_codes = []\<rparr>, None)"
  by code_simp

text \<open>
  C1: \<open>ReduceChecked\<close> accepts a set of events exactly when every event is well formed and in the
  scope of the contract, event ids and source digests are used once, and the events, replayed in
  the order of their instants, are a run of the transition system from status \<open>unknown\<close>.
\<close>
theorem reduce_accepts_exactly_the_runs:
  "snd (reduce_checked cid es) = None \<longleftrightarrow>
     list_all (well_formed_event cid) es \<and> distinct (map ev_id es) \<and> distinct (sourced_digests es) \<and>
     (\<exists>y. history ''unknown'' (go_sort event_before es) y)"
  by (rule reduce_checked_ok_iff)

text \<open>
  When the replay succeeds, the state lists every event once, ordered by instant (not by the text
  of the timestamp) and then by id, keeps the non-empty source digests in that order, and its status
  is the one the transition system reaches.
\<close>
theorem reduce_replays_in_time_order:
  assumes "reduce_checked cid es = (s, None)"
  shows "st_contract_id s = cid \<and> st_events s = map ev_id (sort_key event_key es) \<and>
    st_source_digests s = sourced_digests (sort_key event_key es) \<and>
    history ''unknown'' (sort_key event_key es) (st_status s)"
proof -
  have ok: "list_all (well_formed_event cid) es"
    using assms reduce_checked_ok_iff [of cid es] by simp
  from assms obtain rd where
    loop: "reduce_loop cid (initial_reducer cid) (go_sort event_before es) = (rd, None)"
    and s: "s = (rd_state rd)\<lparr>st_complete := terminal_status (st_status (rd_state rd)) \<and>
           \<not> has_blocking_gap (st_reason_codes (rd_state rd))\<rparr>"
    by (rule reduce_checked_run)
  from reduce_loop_state [OF loop] show ?thesis
    by (simp add: s replay_order_key [OF ok] initial_reducer_def initial_state_def)
qed

lemma reduce_replays_in_time_order_witness:
  "map ev_id (sort_key event_key demo_run) = [''e1'', ''e2'', ''e3'', ''e4'']"
  using reduce_replays_in_time_order [OF demo_run_value] by simp

lemma replay_order_perm:
  assumes "list_all (well_formed_event cid) es" and "distinct (map ev_id es)" and "mset es = mset es'"
  shows "go_sort event_before es' = go_sort event_before es"
proof -
  have "set es' = set es" by (metis assms(3) set_mset_mset)
  then have ok': "list_all (well_formed_event cid) es'" using assms(1) by (simp add: list_all_iff)
  have "inj_on event_key (set es)"
    using assms(2) by (auto simp: inj_on_def event_key_def distinct_map)
  then show ?thesis
    unfolding replay_order_key [OF assms(1)] replay_order_key [OF ok']
    by (rule sort_key_perm [OF assms(3), symmetric])
qed

text \<open>
  C5: replay is deterministic: two collections with the same events give the same state, in
  whatever order the events were ingested.
\<close>
theorem reduce_order_independent:
  assumes "snd (reduce_checked cid es) = None" and "mset es = mset es'"
  shows "reduce_checked cid es' = reduce_checked cid es"
proof -
  have "go_sort event_before es' = go_sort event_before es"
    using assms replay_order_perm [of cid es es'] by (simp add: reduce_checked_ok_iff)
  then show ?thesis by (simp add: reduce_checked_def)
qed

lemma reduce_order_independent_witness:
  "reduce_checked ''c1'' (rev demo_run) = reduce_checked ''c1'' demo_run"
  by (rule reduce_order_independent) (simp_all add: demo_run_value)

text \<open>
  C2: no execution without authority: in every accepted history the event right before an
  \<open>execution_started\<close> is an approval or an activation, so each grant of authority starts at most
  one run, and the history begins with a proposal or a registration.
\<close>
theorem execution_needs_fresh_authority:
  assumes "reduce_checked cid es = (s, None)"
    and "go_sort event_before es = before @ e # after" and "ev_kind e = ''execution_started''"
  shows "\<exists>first mid grant. before = first # mid @ [grant] \<and>
    ev_kind first \<in> {''proposed'', ''registered''} \<and> ev_kind grant \<in> {''approved'', ''activated''}"
proof -
  from assms(1) have "history ''unknown'' (before @ e # after) (st_status s)"
    using reduce_checked_run [of cid es s] assms(2) by metis
  then obtain z where run: "history ''unknown'' before z" and "allowed z ''execution_started''"
    using assms(3) by (auto simp: history_append)
  then have z: "z = ''active''" by (simp add: allowed_execution)
  have "before \<noteq> []" using run z by auto
  then obtain pre grant where b: "before = pre @ [grant]" by (metis rev_exhaust)
  obtain x where x: "history ''unknown'' pre x" "allowed x (ev_kind grant)"
    "status_after grant x = ''active''"
    using run z by (auto simp: b history_append)
  then have grant: "ev_kind grant \<in> {''approved'', ''activated''}" by (blast dest: status_after_active)
  have "pre \<noteq> []" using x grant allowed_unknown [of "ev_kind grant"] by auto
  then obtain first mid where pre: "pre = first # mid" by (cases pre) auto
  then have "ev_kind first \<in> {''proposed'', ''registered''}"
    using x(1) allowed_unknown [of "ev_kind first"] by auto
  with b pre grant show ?thesis by auto
qed

lemma execution_needs_fresh_authority_witness:
  "\<exists>first mid grant. [demo_run ! 1, demo_run ! 2] = first # mid @ [grant] \<and>
    ev_kind first \<in> {''proposed'', ''registered''} \<and> ev_kind grant \<in> {''approved'', ''activated''}"
proof (rule execution_needs_fresh_authority [OF demo_run_value])
  show "go_sort event_before demo_run = [demo_run ! 1, demo_run ! 2] @ demo_run ! 0 # [demo_run ! 3]"
    by code_simp
  show "ev_kind (demo_run ! 0) = ''execution_started''" by code_simp
qed

lemma complete_iff:
  assumes "reduce_checked cid es = (s, None)"
  shows "st_complete s \<longleftrightarrow> terminal_status (st_status s) \<and> \<not> list_ex gap_event es"
proof -
  from assms obtain rd where
    loop: "reduce_loop cid (initial_reducer cid) (go_sort event_before es) = (rd, None)"
    and s: "s = (rd_state rd)\<lparr>st_complete := terminal_status (st_status (rd_state rd)) \<and>
           \<not> has_blocking_gap (st_reason_codes (rd_state rd))\<rparr>"
    by (rule reduce_checked_run)
  from reduce_loop_gap [OF loop] show ?thesis
    by (simp add: s initial_reducer_def initial_state_def has_blocking_gap_def list_ex_iff)
qed

text \<open>
  C3: completeness is not negotiable: an accepted history is reported complete exactly when its
  status is terminal and none of its events left a gap. A gap is never discharged by later events.
\<close>
theorem complete_iff_terminal_without_gap:
  assumes "reduce_checked cid es = (s, None)"
  shows "st_complete s \<longleftrightarrow>
    st_status s \<in> {''succeeded'', ''failed'', ''contained'', ''compensated''} \<and> \<not> list_ex gap_event es"
  using complete_iff [OF assms] by (simp add: terminal_status_def)

lemma complete_iff_terminal_without_gap_witness: "\<not> list_ex gap_event demo_run"
  using complete_iff_terminal_without_gap [OF demo_run_value] by simp

text \<open>
  The compensation debt: \<open>REQUIRED_COMPENSATION_MISSING\<close> is reported exactly when the last of
  the compensation demands and completions of the history is a demand. The debt alone does not
  keep the contract from being reported complete.
\<close>
theorem compensation_debt_exact:
  assumes "reduce_checked cid es = (s, None)"
  shows "''REQUIRED_COMPENSATION_MISSING'' \<in> set (st_reason_codes s) \<longleftrightarrow>
    compensation_owed False (go_sort event_before es)"
proof -
  from assms obtain rd where
    loop: "reduce_loop cid (initial_reducer cid) (go_sort event_before es) = (rd, None)"
    and s: "s = (rd_state rd)\<lparr>st_complete := terminal_status (st_status (rd_state rd)) \<and>
           \<not> has_blocking_gap (st_reason_codes (rd_state rd))\<rparr>"
    by (rule reduce_checked_run)
  from reduce_loop_owed [OF loop] show ?thesis
    by (simp add: s compensation_missing_def initial_reducer_def initial_state_def)
qed

definition demo_debt :: "event list" where
  "demo_debt = demo_run @
     [demo_event ''e5'' ''compensation_required'' ''2026-01-01T03:00:00Z'',
      demo_event ''e6'' ''contained'' ''2026-01-01T04:00:00Z'']"

lemma demo_debt_value:
  "reduce_checked ''c1'' demo_debt =
     (\<lparr>st_contract_id = ''c1'', st_status = ''contained'',
       st_events = [''e1'', ''e2'', ''e3'', ''e4'', ''e5'', ''e6''], st_source_digests = [],
       st_complete = True, st_reason_codes = [''REQUIRED_COMPENSATION_MISSING'']\<rparr>, None)"
  by code_simp

lemma compensation_debt_exact_witness: "compensation_owed False (go_sort event_before demo_debt)"
  using compensation_debt_exact [OF demo_debt_value] by simp

lemma reduce_loop_error:
  assumes "reduce_loop cid rd es = (rd', Some err)"
  shows "\<exists>before e after. es = before @ e # after \<and> reduce_loop cid rd before = (rd', None) \<and>
    reduce_step cid rd' e = Inl err"
  using assms
proof (induction es arbitrary: rd)
  case (Cons e es)
  show ?case
  proof (cases "reduce_step cid rd e")
    case (Inl x)
    then show ?thesis using Cons.prems by (intro exI [of _ "[]"]) auto
  next
    case (Inr rd1)
    with Cons.prems have "reduce_loop cid rd1 es = (rd', Some err)" by simp
    from Cons.IH [OF this] obtain before e' after where
      "es = before @ e' # after" "reduce_loop cid rd1 before = (rd', None)" "reduce_step cid rd' e' = Inl err"
      by blast
    with Inr show ?thesis by (intro exI [of _ "e # before"]) auto
  qed
qed simp

lemma reduce_loop_complete:
  "reduce_loop cid rd es = (rd', r) \<Longrightarrow> st_complete (rd_state rd') = st_complete (rd_state rd)"
proof (induction es arbitrary: rd)
  case (Cons e es)
  then show ?case
    by (auto simp: reduce_step_Inr_iff accept_def Let_def apply_kind_frame split: sum.splits)
qed simp

text \<open>
  A rejected history fails closed: the state returned beside the error holds exactly the events
  before the offending one, is not complete, and the offending event is the first one that breaks
  a rule.
\<close>
theorem reduce_error_prefix:
  assumes "reduce_checked cid es = (s, Some err)"
  shows "\<not> st_complete s \<and>
    (\<exists>before e after. go_sort event_before es = before @ e # after \<and> st_events s = map ev_id before \<and>
       history ''unknown'' before (st_status s))"
proof -
  obtain rd where loop: "reduce_loop cid (initial_reducer cid) (go_sort event_before es) = (rd, Some err)"
    and s: "s = rd_state rd"
    using assms by (auto simp: reduce_checked_def Let_def split: prod.splits option.splits)
  obtain before e after where split: "go_sort event_before es = before @ e # after"
    and pre: "reduce_loop cid (initial_reducer cid) before = (rd, None)"
    using reduce_loop_error [OF loop] by blast
  from reduce_loop_state [OF pre] reduce_loop_complete [OF loop] split show ?thesis
    by (auto simp: s initial_reducer_def initial_state_def)
qed

definition demo_bad :: "event list" where
  "demo_bad = [demo_event ''e1'' ''proposed'' ''2026-01-01T00:00:00Z'',
     demo_event ''e2'' ''execution_started'' ''2026-01-01T00:30:00Z'']"

lemma demo_bad_value:
  "reduce_checked ''c1'' demo_bad =
     ((initial_state ''c1'')\<lparr>st_status := ''proposed'', st_events := [''e1'']\<rparr>,
      Some ''GOVERNANCE_MALFORMED: illegal transition proposed -> execution_started'')"
  by code_simp

lemma reduce_error_prefix_witness:
  "\<exists>before e after. go_sort event_before demo_bad = before @ e # after \<and> [''e1''] = map ev_id before"
  using reduce_error_prefix [OF demo_bad_value]
  by (elim conjE exE) (intro exI conjI; simp)

text \<open>
  C13: status \<open>revoking\<close> of the transition table is never reached, because \<open>revocation_requested\<close>
  leads to \<open>stopping\<close>; so no accepted history contains a \<open>revocation_acknowledged\<close> event.
\<close>
theorem revocation_is_never_acknowledged:
  assumes "reduce_checked cid es = (s, None)"
  shows "list_all (\<lambda>e. ev_kind e \<noteq> ''revocation_acknowledged'') es \<and> st_status s \<noteq> ''revoking''"
proof -
  have run: "history ''unknown'' (go_sort event_before es) (st_status s)"
    using assms by (rule reduce_checked_run)
  have "ev_kind e \<noteq> ''revocation_acknowledged''" if "e \<in> set es" for e
  proof
    assume k: "ev_kind e = ''revocation_acknowledged''"
    have "e \<in> set (go_sort event_before es)" using that by simp
    then obtain before after where "go_sort event_before es = before @ e # after" by (meson split_list)
    then obtain z where "history ''unknown'' before z" "allowed z ''revocation_acknowledged''"
      using run k by (auto simp: history_append)
    then show False using never_revoking allowed_revocation by fastforce
  qed
  with never_revoking [OF run] show ?thesis by (simp add: list_all_iff)
qed

lemma revocation_is_never_acknowledged_witness:
  "list_all (\<lambda>e. ev_kind e \<noteq> ''revocation_acknowledged'') demo_run"
  using revocation_is_never_acknowledged [OF demo_run_value] by simp

text \<open>
  C6: the production boundary is strict: \<open>ReduceVerified\<close> accepts exactly the histories that
  \<open>ReduceChecked\<close> accepts and whose every event names this contract through a complete reference
  and carries a source digest; the accepted state then holds one digest per event.
\<close>
theorem reduce_verified_strict:
  assumes "reduce_verified cid es = (s, None)"
  shows "list_all (digest_bound cid) es \<and> reduce_checked cid es = (s, None) \<and>
    st_source_digests s = map ev_source_digest (go_sort event_before es) \<and>
    distinct (map ev_source_digest es)"
proof -
  have bound: "list_all (digest_bound cid) es" and ok: "reduce_checked cid es = (s, None)"
    using assms by (auto simp: reduce_verified_def list_all_iff list_ex_iff split: if_splits)
  have full: "sourced_digests fs = map ev_source_digest fs" if "set fs \<subseteq> set es" for fs
  proof -
    have "ev_source_digest e \<noteq> []" if "e \<in> set fs" for e
      using bound \<open>set fs \<subseteq> set es\<close> that
      by (auto simp: list_all_iff digest_bound_def dest!: digest_ok_nonempty)
    then show ?thesis by (auto simp: sourced_digests_def intro!: filter_True)
  qed
  from ok obtain rd where
    loop: "reduce_loop cid (initial_reducer cid) (go_sort event_before es) = (rd, None)"
    and s: "s = (rd_state rd)\<lparr>st_complete := terminal_status (st_status (rd_state rd)) \<and>
           \<not> has_blocking_gap (st_reason_codes (rd_state rd))\<rparr>"
    by (rule reduce_checked_run)
  from reduce_loop_state [OF loop] have "st_source_digests s = sourced_digests (go_sort event_before es)"
    by (simp add: s initial_reducer_def initial_state_def)
  with bound ok full [of es] full [of "go_sort event_before es"] show ?thesis
    using reduce_checked_ok_iff [of cid es] by simp
qed

definition demo_digest :: "char \<Rightarrow> string" where
  "demo_digest c = ''sha256:'' @ replicate 64 c"

definition demo_bound :: "event list" where
  "demo_bound =
    map (\<lambda>(i, k, t, d). (demo_event i k t)\<lparr>ev_source_digest := demo_digest d,
        ev_contract_ref := \<lparr>ref_id = ''c1'', ref_kind = ''action_contract'', ref_digest = demo_digest CHR ''0'',
          ref_source = ''wrkr'', ref_source_product = ''wrkr'', ref_schema_id = ''s'',
          ref_schema_version = ''1''\<rparr>\<rparr>)
      [(''e2'', ''approved'', ''2026-01-02T00:00:00Z'', CHR ''b''),
       (''e1'', ''registered'', ''2026-01-01T00:00:00Z'', CHR ''a'')]"

lemma demo_bound_value:
  "reduce_verified ''c1'' demo_bound =
     (\<lparr>st_contract_id = ''c1'', st_status = ''active'', st_events = [''e1'', ''e2''],
       st_source_digests = [demo_digest CHR ''a'', demo_digest CHR ''b''], st_complete = False,
       st_reason_codes = []\<rparr>, None)"
  by code_simp

lemma reduce_verified_strict_witness: "distinct (map ev_source_digest demo_bound)"
  using reduce_verified_strict [OF demo_bound_value] by simp

section \<open>Finishing a lifecycle\<close>

definition finishing :: "(string \<times> string list) list" where
  \<comment> \<open>from every status that is not terminal, kinds of events that lead to a terminal one\<close>
  "finishing =
    [(''unknown'', [''registered'', ''activated'', ''execution_started'', ''execution_succeeded'']),
     (''proposed'', [''activated'', ''execution_started'', ''execution_succeeded'']),
     (''active'', [''execution_started'', ''execution_succeeded'']),
     (''executing'', [''execution_succeeded'']),
     (''blocked'', [''compensated'']), (''gap'', [''compensated'']), (''effect_recorded'', [''effect_validated'']),
     (''compensation_required'', [''compensated'']), (''compensating'', [''compensated'']),
     (''containing'', [''contained'']), (''partial'', [''compensated'']), (''stopping'', [''contained'']),
     (''succeeded'', []), (''failed'', []), (''contained'', []), (''compensated'', [])]"

definition finishing_event :: "string \<Rightarrow> string \<Rightarrow> string \<Rightarrow> nat \<Rightarrow> string \<Rightarrow> event" where
  "finishing_event cid after at_time i k =
     \<lparr>ev_id = after @ replicate (Suc i) CHR ''x'',
      ev_contract_ref = \<lparr>ref_id = cid, ref_kind = [], ref_digest = [], ref_source = [], ref_source_product = [],
        ref_schema_id = [], ref_schema_version = []\<rparr>,
      ev_kind = k, ev_occurred_at = at_time, ev_status = [], ev_source_digest = []\<rparr>"

fun runs_to :: "string \<Rightarrow> string list \<Rightarrow> string \<Rightarrow> bool" where
  "runs_to x [] y \<longleftrightarrow> x = y"
| "runs_to x (k # ks) y \<longleftrightarrow> allowed x k \<and> runs_to (status_after (finishing_event [] [] [] 0 k) x) ks y"

lemma finishing_runs:
  "list_all (\<lambda>(x, ks). list_ex (runs_to x ks) [''succeeded'', ''contained'', ''compensated'', ''failed'']) finishing"
  by code_simp

lemma finishing_no_gap:
  "list_all (\<lambda>(x, ks). list_all (\<lambda>k. \<not> gap_event (finishing_event [] [] [] 0 k)) ks) finishing"
  by code_simp

lemma finishing_short: "list_all (\<lambda>(x, ks). length ks \<le> 4) finishing"
  by code_simp

lemma finishing_event_kind:
  "status_after (finishing_event cid a t i k) x = status_after (finishing_event [] [] [] 0 k) x"
  "gap_event (finishing_event cid a t i k) = gap_event (finishing_event [] [] [] 0 k)"
  by (simp_all only: status_after_def apply_kind_def gap_event_def finishing_event_def event.simps)

definition finishing_events :: "string \<Rightarrow> string \<Rightarrow> string \<Rightarrow> nat \<Rightarrow> string list \<Rightarrow> event list" where
  "finishing_events cid a t n ks = map (\<lambda>(i, k). finishing_event cid a t i k) (enumerate n ks)"

lemma finishing_events_simps [simp]:
  "finishing_events cid a t n [] = []"
  "finishing_events cid a t n (k # ks) = finishing_event cid a t n k # finishing_events cid a t (Suc n) ks"
  by (simp_all add: finishing_events_def)

lemma finishing_events_gap:
  "list_ex gap_event (finishing_events cid a t n ks) \<longleftrightarrow>
     list_ex (\<lambda>k. gap_event (finishing_event [] [] [] 0 k)) ks"
proof (induction ks arbitrary: n)
  case (Cons k ks)
  then show ?case using finishing_event_kind(2) [of cid a t n k] by simp
qed simp

lemma runs_to_history: "runs_to x ks y \<Longrightarrow> history x (finishing_events cid a t n ks) y"
proof (induction ks arbitrary: x n)
  case (Cons k ks)
  have "ev_kind (finishing_event cid a t n k) = k" by (simp add: finishing_event_def)
  with Cons show ?case using finishing_event_kind(1) [of cid a t n k x] by simp
qed simp

lemma finishing_statuses:
  "set (map fst finishing) = {''unknown'', ''proposed'', ''active'', ''executing'', ''succeeded'',
     ''failed'', ''blocked'', ''gap'', ''effect_recorded'', ''compensation_required'', ''compensating'',
     ''contained'', ''containing'', ''partial'', ''compensated'', ''stopping''}"
  by (auto simp: finishing_def)

lemma reached_finishes: "history x es y \<Longrightarrow> x \<in> set (map fst finishing) \<Longrightarrow> y \<in> set (map fst finishing)"
proof (induction rule: history.induct)
  case (history_cons x e es y)
  moreover have "status_after e x \<in> set (map fst finishing)"
    using status_after_unchanged_or [of e x] history_cons.prems unfolding finishing_statuses by blast
  ultimately show ?case by blast
qed

lemma less_append_Cons: "(xs :: 'a :: order list) < xs @ y # ys"
  by (induction xs) auto

lemma finishing_facts:
  assumes "e \<in> set (finishing_events cid a t n ks)" and "parse_rfc3339 t \<noteq> None"
  shows "well_formed_event cid e" and "a < ev_id e" and "ev_occurred_at e = t" and "ev_source_digest e = []"
proof -
  obtain i k where e: "e = finishing_event cid a t i k" using assms(1) by (auto simp: finishing_events_def)
  show "a < ev_id e" by (simp add: e finishing_event_def less_append_Cons)
  show "well_formed_event cid e" using assms(2) by (simp add: e well_formed_event_def finishing_event_def)
  show "ev_occurred_at e = t" "ev_source_digest e = []" by (simp_all add: e finishing_event_def)
qed

lemma finishing_keys_sorted:
  "sorted_wrt (<) (map ev_id (finishing_events cid a t n ks))"
proof (induction ks arbitrary: n)
  case (Cons k ks)
  have "ev_id (finishing_event cid a t n k) < ev_id e" if mem: "e \<in> set (finishing_events cid a t (Suc n) ks)" for e
  proof -
    obtain i k' where e: "e = finishing_event cid a t i k'" and "Suc n \<le> i"
      using mem by (auto simp: finishing_events_def in_set_enumerate_eq)
    then obtain d where "i = Suc n + d" using le_Suc_ex by blast
    then have "replicate (Suc i) CHR ''x'' = replicate (Suc n) CHR ''x'' @ CHR ''x'' # replicate d CHR ''x''"
      by (metis add_Suc_right replicate_Suc replicate_add)
    then show ?thesis
      using less_append_Cons [of "a @ replicate (Suc n) CHR ''x''" "CHR ''x''" "replicate d CHR ''x''"]
      unfolding e finishing_event_def by simp
  qed
  with Cons.IH show ?case by simp
qed simp


lemma replay_extends:
  assumes ok: "list_all (well_formed_event cid) (es @ new)" and new: "sorted_wrt (<) (map event_key new)"
    and later: "\<forall>e \<in> set es. \<forall>f \<in> set new. event_key e < event_key f"
  shows "go_sort event_before (es @ new) = go_sort event_before es @ new"
proof -
  have "list_all (well_formed_event cid) es" using ok by simp
  note keys = replay_order_key [OF ok] replay_order_key [OF this]
  have "sorted (map event_key new)" using new by (simp add: strict_sorted_iff)
  have sorted: "sorted (map event_key (sort_key event_key es @ new))"
    using \<open>sorted (map event_key new)\<close> later by (auto simp: sorted_append less_imp_le)
  show ?thesis
    unfolding keys
  proof (rule properties_for_sort_key)
    show "sorted (map event_key (sort_key event_key es @ new))" by (rule sorted)
    fix c
    show "filter (\<lambda>y. event_key c = event_key y) (sort_key event_key es @ new) =
      filter (\<lambda>y. event_key c = event_key y) (es @ new)"
      using sort_key_stable [of event_key "event_key c" es] by (simp add: eq_commute)
  qed simp
qed

lemma sorted_le_last: "sorted xs \<Longrightarrow> x \<in> set xs \<Longrightarrow> x \<le> last xs"
  by (induction xs rule: rev_induct) (auto simp: sorted_append)

lemma latest_time:
  assumes "e \<in> set es"
  shows "fst (event_key e) \<le> fst (event_key (last (sort_key event_key es)))"
    and "last (sort_key event_key es) \<in> set es"
proof -
  let ?s = "sort_key event_key es"
  have "set ?s = set es" by simp
  with assms have s: "?s \<noteq> []" by (metis empty_iff empty_set)
  then show "last ?s \<in> set es" by (metis last_in_set \<open>set ?s = set es\<close>)
  have "event_key e \<le> last (map event_key ?s)"
    by (rule sorted_le_last) (use assms in auto)
  then show "fst (event_key e) \<le> fst (event_key (last ?s))"
    using s by (auto simp: last_map less_eq_prod_def)
qed

lemma continuation_exists:
  assumes run: "reduce_checked cid es = (s, None)"
  shows "\<exists>more. snd (reduce_checked cid (es @ more)) = None \<and>
    terminal_status (st_status (fst (reduce_checked cid (es @ more)))) \<and> length more \<le> 4 \<and>
    (list_ex gap_event (es @ more) \<longleftrightarrow> list_ex gap_event es)"
proof -
  have ok: "list_all (well_formed_event cid) es" "distinct (map ev_id es)" "distinct (sourced_digests es)"
    using run reduce_checked_ok_iff [of cid es] by simp_all
  have hist: "history ''unknown'' (go_sort event_before es) (st_status s)"
    using run by (rule reduce_checked_run)
  have "st_status s \<in> set (map fst finishing)"
    by (rule reached_finishes [OF hist]) (unfold finishing_statuses, simp)
  then obtain ks where ks: "(st_status s, ks) \<in> set finishing" by auto
  then obtain y where y: "runs_to (st_status s) ks y" "terminal_status y"
    using finishing_runs unfolding list_all_iff by (fastforce simp: terminal_status_def)
  define t where "t = (if es = [] then ''2026-01-01T00:00:00Z'' else ev_occurred_at (last (sort_key event_key es)))"
  define a where "a = Max (insert [] (set (map ev_id es)))"
  define new where "new = finishing_events cid a t 0 ks"
  have a: "ev_id e \<le> a" if "e \<in> set es" for e using that by (auto simp: a_def intro: Max.coboundedI)
  have t: "parse_rfc3339 t \<noteq> None"
  proof (cases "es = []")
    case True
    moreover have "parse_rfc3339 ''2026-01-01T00:00:00Z'' \<noteq> None" by code_simp
    ultimately show ?thesis by (simp add: t_def)
  next
    case False
    then have "last (sort_key event_key es) \<in> set es" using latest_time(2) [of "hd es" es] by simp
    with ok(1) False show ?thesis by (simp add: t_def list_all_iff well_formed_event_def)
  qed
  note new_facts = finishing_facts [OF _ t, where cid = cid and a = a and n = 0 and ks = ks, folded new_def]
  have later: "event_key e < event_key f" if e: "e \<in> set es" and f: "f \<in> set new" for e f
  proof -
    have "fst (event_key e) \<le> the (parse_rfc3339 t)"
      using latest_time(1) [OF e] e by (auto simp: t_def event_key_def)
    moreover have "ev_id e < ev_id f" using a [OF e] new_facts(2) [OF that(2)] by simp
    ultimately show ?thesis by (auto simp: event_key_def new_facts(3) [OF that(2)] less_prod_def')
  qed
  have wf: "list_all (well_formed_event cid) (es @ new)"
    using ok(1) new_facts(1) by (auto simp: list_all_iff)
  have keys: "event_key f = (the (parse_rfc3339 t), ev_id f)" if "f \<in> set new" for f
    using new_facts(3) [OF that] by (simp add: event_key_def)
  have ids: "sorted_wrt (<) (map ev_id new)" unfolding new_def by (rule finishing_keys_sorted)
  then have "sorted_wrt (<) (map event_key new)"
    unfolding sorted_wrt_map by (rule sorted_wrt_mono_rel [rotated]) (simp add: keys)
  then have replay: "go_sort event_before (es @ new) = go_sort event_before es @ new"
    by (rule replay_extends [OF wf]) (use later in blast)
  have run': "history ''unknown'' (go_sort event_before (es @ new)) y"
    unfolding replay history_append using hist runs_to_history [OF y(1)] by (auto simp: new_def)
  have "distinct (map ev_id (es @ new))"
    using ok(2) ids a new_facts(2) by (fastforce simp: strict_sorted_iff)
  moreover have "sourced_digests (es @ new) = sourced_digests es"
    using new_facts(4) by (simp add: sourced_digests_def)
  ultimately have acc: "snd (reduce_checked cid (es @ new)) = None"
    using wf ok(3) run' reduce_checked_ok_iff [of cid "es @ new"] by auto
  then obtain s' where s': "reduce_checked cid (es @ new) = (s', None)" by (metis prod.collapse)
  have "history ''unknown'' (go_sort event_before (es @ new)) (st_status s')"
    using s' by (rule reduce_checked_run)
  then have "st_status s' = y" using run' by (rule history_deterministic)
  moreover have "length new \<le> 4"
    using ks finishing_short by (auto simp: new_def finishing_events_def list_all_iff)
  moreover have "\<not> list_ex gap_event new"
    unfolding new_def finishing_events_gap using ks finishing_no_gap by (force simp: list_all_iff list_ex_iff)
  ultimately show ?thesis using acc s' y(2) by (intro exI [of _ new]) simp
qed

text \<open>
  C16: an accepted history never gets stuck: at most four further events bring it to a terminal
  status. They make it complete exactly when no gap was left so far: a gap can never be repaired.
\<close>

theorem accepted_history_can_finish:
  assumes "reduce_checked cid es = (s, None)"
  shows "(\<exists>more. length more \<le> 4 \<and> snd (reduce_checked cid (es @ more)) = None \<and>
      terminal_status (st_status (fst (reduce_checked cid (es @ more))))) \<and>
    ((\<exists>more. snd (reduce_checked cid (es @ more)) = None \<and> st_complete (fst (reduce_checked cid (es @ more))))
      \<longleftrightarrow> \<not> list_ex gap_event es)"
proof -
  obtain more where more: "snd (reduce_checked cid (es @ more)) = None" "length more \<le> 4"
    "terminal_status (st_status (fst (reduce_checked cid (es @ more))))"
    "list_ex gap_event (es @ more) \<longleftrightarrow> list_ex gap_event es"
    using continuation_exists [OF assms] by blast
  have complete: "st_complete (fst (reduce_checked cid fs)) \<longleftrightarrow>
      terminal_status (st_status (fst (reduce_checked cid fs))) \<and> \<not> list_ex gap_event fs"
    if "snd (reduce_checked cid fs) = None" for fs
  proof -
    have "reduce_checked cid fs = (fst (reduce_checked cid fs), None)" using that by (metis prod.collapse)
    then show ?thesis by (rule complete_iff)
  qed
  have "\<not> list_ex gap_event es"
    if "snd (reduce_checked cid (es @ ms)) = None" "st_complete (fst (reduce_checked cid (es @ ms)))" for ms
    using complete [OF that(1)] that(2) by simp
  moreover have "st_complete (fst (reduce_checked cid (es @ more)))" if "\<not> list_ex gap_event es"
    using complete [OF more(1)] more(3,4) that by simp
  ultimately show ?thesis using more(1-3) by blast
qed

lemma accepted_history_can_finish_witness: "\<exists>more. snd (reduce_checked ''c1'' (demo_bound @ more)) = None"
proof -
  have "reduce_checked ''c1'' demo_bound = (fst (reduce_checked ''c1'' demo_bound), None)" by code_simp
  from accepted_history_can_finish [OF this] show ?thesis by blast
qed

end
