(* ===== verification/Completeness.thy ===== *)
theory Completeness
  imports Lifecycle
begin

text \<open>
  \<open>core/governance/completeness.go\<close>: the completeness verdict of a governed contract, derived
  from its events or evaluated from an input record, and the roll-up of a register. The verdict is
  built the way the code builds it, by a sequence of updates in which later checks override
  earlier ones.
\<close>

section \<open>Data\<close>

datatype completeness_status = Complete | Partial | Gap | Unverifiable | OutOfScope

datatype confidence = High | Medium | Low | NoConfidence

record completeness_input =
  ci_readiness :: bool
  ci_preconditions :: bool
  ci_proposal_seen :: bool
  ci_activation_seen :: bool
  ci_execution_outcome :: string
  ci_effect_validated :: bool
  ci_containment :: string
  ci_compensation_required :: bool
  ci_compensation :: string
  ci_authority_lineage :: bool
  ci_fresh :: bool
  ci_correlation_refs :: int
  ci_correlation_authoritative :: bool
  ci_judge_only :: bool
  ci_out_of_scope :: bool

record completeness =
  cp_status :: completeness_status
  cp_reasons :: "string list"
  cp_evidence_quality :: confidence
  cp_enforcement_coverage :: confidence
  cp_correlation_confidence :: confidence

definition zero_input :: completeness_input where
  "zero_input = \<lparr>ci_readiness = False, ci_preconditions = False, ci_proposal_seen = False,
     ci_activation_seen = False, ci_execution_outcome = [], ci_effect_validated = False,
     ci_containment = [], ci_compensation_required = False, ci_compensation = [],
     ci_authority_lineage = False, ci_fresh = False, ci_correlation_refs = 0,
     ci_correlation_authoritative = False, ci_judge_only = False, ci_out_of_scope = False\<rparr>"

section \<open>Evaluation\<close>

definition add_reason :: "string \<Rightarrow> completeness \<Rightarrow> completeness" where
  "add_reason r out = out\<lparr>cp_reasons := cp_reasons out @ [r]\<rparr>"

definition demote :: "completeness_status \<Rightarrow> string \<Rightarrow> completeness \<Rightarrow> completeness" where
  \<comment> \<open>\<open>out.Status = st; add(r)\<close>\<close>
  "demote st r out = add_reason r (out\<lparr>cp_status := st\<rparr>)"

definition eval_judge :: "completeness_input \<Rightarrow> completeness \<Rightarrow> completeness" where
  "eval_judge i out =
     (if ci_judge_only i
      then demote Unverifiable ''JUDGE_ONLY_ADVISORY''
             (out\<lparr>cp_evidence_quality := Low, cp_enforcement_coverage := NoConfidence\<rparr>)
      else out)"

definition eval_readiness :: "completeness_input \<Rightarrow> completeness \<Rightarrow> completeness" where
  "eval_readiness i out = (if \<not> ci_readiness i then demote Partial ''READINESS_MISSING'' out else out)"

definition eval_preconditions :: "completeness_input \<Rightarrow> completeness \<Rightarrow> completeness" where
  "eval_preconditions i out =
     (if \<not> ci_preconditions i then demote Partial ''PRECONDITIONS_MISSING'' out else out)"

definition eval_sequence :: "completeness_input \<Rightarrow> completeness \<Rightarrow> completeness" where
  "eval_sequence i out =
     (if \<not> ci_proposal_seen i \<or> \<not> ci_activation_seen i
      then demote Partial ''PROPOSAL_ACTIVATION_SEQUENCE_INCOMPLETE'' out else out)"

definition eval_execution :: "completeness_input \<Rightarrow> completeness \<Rightarrow> completeness" where
  "eval_execution i out =
     (if ci_execution_outcome i = [] then demote Partial ''EXECUTION_OUTCOME_MISSING'' out
      else if ci_execution_outcome i = ''failed'' then
        (if ci_compensation_required i \<and> ci_compensation i \<noteq> ''completed''
         then demote Partial ''COMPENSATION_REQUIRED'' out else out)
      else out)"

definition eval_effect :: "completeness_input \<Rightarrow> completeness \<Rightarrow> completeness" where
  "eval_effect i out =
     (if \<not> ci_effect_validated i then demote Partial ''EFFECT_VALIDATION_MISSING'' out else out)"

definition eval_containment :: "completeness_input \<Rightarrow> completeness \<Rightarrow> completeness" where
  "eval_containment i out =
     (if ci_containment i \<noteq> ''completed'' \<and> ci_containment i \<noteq> ''not_required''
      then (let out' = demote Partial ''CONTAINMENT_ACK_MISSING'' out
            in if ci_containment i = ''unresolved'' then out'\<lparr>cp_status := Gap\<rparr> else out')
      else out)"

definition eval_compensation :: "completeness_input \<Rightarrow> completeness \<Rightarrow> completeness" where
  "eval_compensation i out =
     (if \<not> ci_compensation_required i \<and> ci_compensation i \<noteq> [] \<and> ci_compensation i \<noteq> ''not_required''
      then out\<lparr>cp_status := Partial\<rparr> else out)"

definition eval_authority :: "completeness_input \<Rightarrow> completeness \<Rightarrow> completeness" where
  "eval_authority i out =
     (if \<not> ci_authority_lineage i
      then demote Unverifiable ''AUTHORITY_LINEAGE_UNVERIFIABLE'' (out\<lparr>cp_evidence_quality := Low\<rparr>)
      else out)"

definition eval_fresh :: "completeness_input \<Rightarrow> completeness \<Rightarrow> completeness" where
  "eval_fresh i out =
     (if \<not> ci_fresh i then demote Partial ''EVIDENCE_STALE'' (out\<lparr>cp_evidence_quality := Low\<rparr>) else out)"

definition eval_correlation :: "completeness_input \<Rightarrow> completeness \<Rightarrow> completeness" where
  "eval_correlation i out =
     (if ci_correlation_refs i = 0 \<or> \<not> ci_correlation_authoritative i
      then (let out' = add_reason ''CORRELATION_NON_AUTHORITATIVE'' (out\<lparr>cp_correlation_confidence := Low\<rparr>)
            in if cp_status out' = Complete then out'\<lparr>cp_status := Partial\<rparr> else out')
      else out)"

definition eval_final :: "completeness_input \<Rightarrow> completeness \<Rightarrow> completeness" where
  \<comment> \<open>the last two overrides and the sort of the reasons\<close>
  "eval_final i out =
     (let out1 = (if ci_judge_only i then out\<lparr>cp_status := Unverifiable\<rparr> else out);
          out2 = (if ci_containment i = ''unresolved'' \<and> cp_status out1 \<noteq> OutOfScope \<and>
                    cp_status out1 \<noteq> Unverifiable
                  then out1\<lparr>cp_status := Gap\<rparr> else out1)
      in out2\<lparr>cp_reasons := sort (cp_reasons out2)\<rparr>)"

definition initial_completeness :: completeness where
  "initial_completeness = \<lparr>cp_status = Complete, cp_reasons = [], cp_evidence_quality = High,
     cp_enforcement_coverage = High, cp_correlation_confidence = High\<rparr>"

definition evaluate_completeness :: "completeness_input \<Rightarrow> completeness" where
  "evaluate_completeness i =
     (if ci_out_of_scope i then demote OutOfScope ''EVIDENCE_OUT_OF_SCOPE'' initial_completeness
      else eval_final i (eval_correlation i (eval_fresh i (eval_authority i (eval_compensation i
             (eval_containment i (eval_effect i (eval_execution i (eval_sequence i
               (eval_preconditions i (eval_readiness i (eval_judge i initial_completeness))))))))))))"

lemmas eval_defs = eval_judge_def eval_readiness_def eval_preconditions_def eval_sequence_def
  eval_execution_def eval_effect_def eval_containment_def eval_compensation_def eval_authority_def
  eval_fresh_def eval_correlation_def eval_final_def demote_def add_reason_def

section \<open>Derivation from events\<close>

definition derive_event :: "string \<Rightarrow> event \<Rightarrow> completeness_input \<Rightarrow> completeness_input" where
  \<comment> \<open>the body of the loop after the reference and digest check\<close>
  "derive_event cid e i =
    (let k = ev_kind e; c = ref_id (ev_contract_ref e); d = ev_source_digest e;
         i1 = (if cid \<noteq> [] \<and> c \<noteq> [] \<and> c \<noteq> cid then i\<lparr>ci_out_of_scope := True\<rparr> else i);
         i2 = (if d = [] \<or> \<not> digest_ok d then i1\<lparr>ci_fresh := False\<rparr> else i1);
         i3 = (if k \<in> {''proposed'', ''registered''} then i2\<lparr>ci_proposal_seen := True, ci_readiness := True\<rparr>
               else if k = ''approved'' then i2\<lparr>ci_preconditions := True, ci_authority_lineage := True\<rparr>
               else if k = ''activated'' then i2\<lparr>ci_activation_seen := True\<rparr>
               else if k = ''execution_started'' then i2\<lparr>ci_execution_outcome := ''started''\<rparr>
               else if k = ''execution_succeeded'' then i2\<lparr>ci_execution_outcome := ''succeeded''\<rparr>
               else if k = ''execution_failed'' then i2\<lparr>ci_execution_outcome := ''failed''\<rparr>
               else if k = ''effect_validated'' then i2\<lparr>ci_effect_validated := True\<rparr>
               else if k = ''effect_rejected'' then i2\<lparr>ci_effect_validated := False\<rparr>
               else if k \<in> {''contained'', ''stop_acknowledged'', ''revocation_acknowledged''} then
                 i2\<lparr>ci_containment := (if ev_status e = ''unresolved'' then ''unresolved'' else ''completed'')\<rparr>
               else if k = ''compensated'' then i2\<lparr>ci_compensation := ''completed''\<rparr>
               else i2)
     in if c \<noteq> [] then i3\<lparr>ci_correlation_refs := ci_correlation_refs i3 + 1\<rparr> else i3)"

fun derive_loop :: "string \<Rightarrow> event list \<Rightarrow> completeness_input \<Rightarrow> completeness_input option" where
  \<comment> \<open>\<open>None\<close>: the loop returned early on an unbound event\<close>
  "derive_loop cid [] i = Some i"
| "derive_loop cid (e # es) i =
     (if \<not> valid_ref (ev_contract_ref e) \<or> \<not> digest_ok (ev_source_digest e) then None
      else derive_loop cid es (derive_event cid e i))"

definition unbound_completeness :: completeness where
  "unbound_completeness = \<lparr>cp_status = Unverifiable,
     cp_reasons = [''EVIDENCE_DIGEST_OR_REFERENCE_MISSING''], cp_evidence_quality = Low,
     cp_enforcement_coverage = NoConfidence, cp_correlation_confidence = NoConfidence\<rparr>"

definition derived_input :: "event list \<Rightarrow> completeness_input \<Rightarrow> completeness_input" where
  \<comment> \<open>what follows the loop: required compensation, correlation, freshness of no evidence\<close>
  "derived_input es i =
     (let i1 = i\<lparr>ci_compensation_required := ''execution_failed'' \<in> set (map ev_kind es),
               ci_correlation_authoritative := 0 < ci_correlation_refs i\<rparr>
      in if es = [] then i1\<lparr>ci_fresh := False\<rparr> else i1)"

definition derive_completeness :: "string \<Rightarrow> event list \<Rightarrow> completeness" where
  "derive_completeness cid es =
     (case derive_loop cid es (zero_input\<lparr>ci_fresh := True\<rparr>) of
        None \<Rightarrow> unbound_completeness
      | Some i \<Rightarrow> evaluate_completeness (derived_input es i))"

definition first_contract_id :: "event list \<Rightarrow> string" where
  "first_contract_id es =
     (case find (\<lambda>e. ref_id (ev_contract_ref e) \<noteq> []) es of
        None \<Rightarrow> [] | Some e \<Rightarrow> ref_id (ev_contract_ref e))"

definition derive_completeness_from_events :: "event list \<Rightarrow> completeness" where
  "derive_completeness_from_events es = derive_completeness (first_contract_id es) es"

section \<open>Roll-up\<close>

record rollup =
  ru_contract_id :: string
  ru_status :: completeness_status
  ru_evidence_quality :: confidence
  ru_enforcement_coverage :: confidence
  ru_correlation_confidence :: confidence
  ru_reasons :: "string list"

definition rollup_of :: "string \<Rightarrow> completeness \<Rightarrow> rollup" where
  "rollup_of k v = \<lparr>ru_contract_id = k, ru_status = cp_status v,
     ru_evidence_quality = cp_evidence_quality v, ru_enforcement_coverage = cp_enforcement_coverage v,
     ru_correlation_confidence = cp_correlation_confidence v, ru_reasons = cp_reasons v\<rparr>"

definition rollup_register :: "(string \<times> completeness) list \<Rightarrow> rollup list" where
  \<comment> \<open>the map is an association list with distinct keys, in any iteration order\<close>
  "rollup_register items = map (\<lambda>k. rollup_of k (the (map_of items k))) (sort (map fst items))"

section \<open>What each stage does\<close>

text \<open>No stage ever restores \<open>complete\<close>: a stage keeps it exactly when its axis is satisfied.\<close>

lemma stage_complete [branch_facts]:
  "cp_status (eval_judge i out) = Complete \<longleftrightarrow> \<not> ci_judge_only i \<and> cp_status out = Complete"
  "cp_status (eval_readiness i out) = Complete \<longleftrightarrow> ci_readiness i \<and> cp_status out = Complete"
  "cp_status (eval_preconditions i out) = Complete \<longleftrightarrow> ci_preconditions i \<and> cp_status out = Complete"
  "cp_status (eval_sequence i out) = Complete \<longleftrightarrow>
     ci_proposal_seen i \<and> ci_activation_seen i \<and> cp_status out = Complete"
  "cp_status (eval_execution i out) = Complete \<longleftrightarrow> ci_execution_outcome i \<noteq> [] \<and>
     \<not> (ci_execution_outcome i = ''failed'' \<and> ci_compensation_required i \<and> ci_compensation i \<noteq> ''completed'') \<and>
     cp_status out = Complete"
  "cp_status (eval_effect i out) = Complete \<longleftrightarrow> ci_effect_validated i \<and> cp_status out = Complete"
  "cp_status (eval_containment i out) = Complete \<longleftrightarrow>
     ci_containment i \<in> {''completed'', ''not_required''} \<and> cp_status out = Complete"
  "cp_status (eval_compensation i out) = Complete \<longleftrightarrow>
     (ci_compensation_required i \<or> ci_compensation i \<in> {[], ''not_required''}) \<and> cp_status out = Complete"
  "cp_status (eval_authority i out) = Complete \<longleftrightarrow> ci_authority_lineage i \<and> cp_status out = Complete"
  "cp_status (eval_fresh i out) = Complete \<longleftrightarrow> ci_fresh i \<and> cp_status out = Complete"
  "cp_status (eval_correlation i out) = Complete \<longleftrightarrow>
     ci_correlation_refs i \<noteq> 0 \<and> ci_correlation_authoritative i \<and> cp_status out = Complete"
  "cp_status (eval_final i out) = Complete \<longleftrightarrow>
     \<not> ci_judge_only i \<and> ci_containment i \<noteq> ''unresolved'' \<and> cp_status out = Complete"
  by (auto simp: eval_defs Let_def)

text \<open>Every stage adds at most its own reason.\<close>

lemma stage_reasons [branch_facts]:
  "cp_reasons (eval_judge i out) = cp_reasons out @ (if ci_judge_only i then [''JUDGE_ONLY_ADVISORY''] else [])"
  "cp_reasons (eval_readiness i out) = cp_reasons out @ (if ci_readiness i then [] else [''READINESS_MISSING''])"
  "cp_reasons (eval_preconditions i out) =
     cp_reasons out @ (if ci_preconditions i then [] else [''PRECONDITIONS_MISSING''])"
  "cp_reasons (eval_sequence i out) = cp_reasons out @
     (if ci_proposal_seen i \<and> ci_activation_seen i then [] else [''PROPOSAL_ACTIVATION_SEQUENCE_INCOMPLETE''])"
  "cp_reasons (eval_execution i out) = cp_reasons out @
     (if ci_execution_outcome i = [] then [''EXECUTION_OUTCOME_MISSING'']
      else if ci_execution_outcome i = ''failed'' \<and> ci_compensation_required i \<and> ci_compensation i \<noteq> ''completed''
      then [''COMPENSATION_REQUIRED''] else [])"
  "cp_reasons (eval_effect i out) =
     cp_reasons out @ (if ci_effect_validated i then [] else [''EFFECT_VALIDATION_MISSING''])"
  "cp_reasons (eval_containment i out) = cp_reasons out @
     (if ci_containment i \<in> {''completed'', ''not_required''} then [] else [''CONTAINMENT_ACK_MISSING''])"
  "cp_reasons (eval_compensation i out) = cp_reasons out"
  "cp_reasons (eval_authority i out) =
     cp_reasons out @ (if ci_authority_lineage i then [] else [''AUTHORITY_LINEAGE_UNVERIFIABLE''])"
  "cp_reasons (eval_fresh i out) = cp_reasons out @ (if ci_fresh i then [] else [''EVIDENCE_STALE''])"
  "cp_reasons (eval_correlation i out) = cp_reasons out @
     (if ci_correlation_refs i \<noteq> 0 \<and> ci_correlation_authoritative i then []
      else [''CORRELATION_NON_AUTHORITATIVE''])"
  "cp_reasons (eval_final i out) = sort (cp_reasons out)"
  by (simp_all add: eval_defs Let_def)

definition undeclared_compensation :: "completeness_input \<Rightarrow> bool" where
  "undeclared_compensation i \<longleftrightarrow>
     \<not> ci_compensation_required i \<and> ci_compensation i \<noteq> [] \<and> ci_compensation i \<noteq> ''not_required''"

lemma status_complete_iff:
  "cp_status (evaluate_completeness i) = Complete \<longleftrightarrow>
     \<not> ci_out_of_scope i \<and> \<not> ci_judge_only i \<and> ci_readiness i \<and> ci_preconditions i \<and>
     ci_proposal_seen i \<and> ci_activation_seen i \<and> ci_execution_outcome i \<noteq> [] \<and>
     \<not> (ci_execution_outcome i = ''failed'' \<and> ci_compensation_required i \<and> ci_compensation i \<noteq> ''completed'') \<and>
     ci_effect_validated i \<and> ci_containment i \<in> {''completed'', ''not_required''} \<and>
     \<not> undeclared_compensation i \<and>
     ci_authority_lineage i \<and> ci_fresh i \<and> ci_correlation_refs i \<noteq> 0 \<and> ci_correlation_authoritative i"
proof (cases "ci_out_of_scope i")
  case True
  then show ?thesis by (simp add: evaluate_completeness_def eval_defs)
next
  case False
  then show ?thesis
    by (simp add: evaluate_completeness_def branch_facts undeclared_compensation_def) (auto simp: initial_completeness_def)
qed

text \<open>
  The verdict is \<open>complete\<close> exactly when every axis is satisfied: in scope, not judge-only, ready,
  preconditions met, proposed and activated, an execution outcome whose failure was compensated,
  a validated effect, acknowledged containment, no undeclared compensation, a verified authority
  lineage, fresh evidence and an authoritative correlation.
\<close>
theorem complete_iff_every_axis:
  "cp_status (evaluate_completeness i) = Complete \<longleftrightarrow>
     \<not> ci_out_of_scope i \<and> \<not> ci_judge_only i \<and> ci_readiness i \<and> ci_preconditions i \<and>
     ci_proposal_seen i \<and> ci_activation_seen i \<and> ci_execution_outcome i \<noteq> [] \<and>
     \<not> (ci_execution_outcome i = ''failed'' \<and> ci_compensation_required i \<and> ci_compensation i \<noteq> ''completed'') \<and>
     ci_effect_validated i \<and> ci_containment i \<in> {''completed'', ''not_required''} \<and>
     \<not> undeclared_compensation i \<and>
     ci_authority_lineage i \<and> ci_fresh i \<and> ci_correlation_refs i \<noteq> 0 \<and> ci_correlation_authoritative i"
  by (rule status_complete_iff)

lemma no_reasons_iff:
  "cp_reasons (evaluate_completeness i) = [] \<longleftrightarrow>
     \<not> ci_out_of_scope i \<and> \<not> ci_judge_only i \<and> ci_readiness i \<and> ci_preconditions i \<and>
     ci_proposal_seen i \<and> ci_activation_seen i \<and> ci_execution_outcome i \<noteq> [] \<and>
     \<not> (ci_execution_outcome i = ''failed'' \<and> ci_compensation_required i \<and> ci_compensation i \<noteq> ''completed'') \<and>
     ci_effect_validated i \<and> ci_containment i \<in> {''completed'', ''not_required''} \<and>
     ci_authority_lineage i \<and> ci_fresh i \<and> ci_correlation_refs i \<noteq> 0 \<and> ci_correlation_authoritative i"
proof -
  have one: "(if c then [] else [x]) = [] \<longleftrightarrow> c" "(if c then [x] else []) = [] \<longleftrightarrow> \<not> c"
    "(if c then [x] else if d then [y] else []) = [] \<longleftrightarrow> \<not> c \<and> \<not> d"
    for c d and x y :: string by simp_all
  have srt: "sort xs = [] \<longleftrightarrow> xs = []" for xs :: "string list" by (metis set_empty set_sort)
  show ?thesis
  proof (cases "ci_out_of_scope i")
    case True
    then show ?thesis by (simp add: evaluate_completeness_def eval_defs)
  next
    case False
    then show ?thesis
      unfolding evaluate_completeness_def if_not_P [OF False] stage_reasons append_is_Nil_conv one srt
      by (simp add: initial_completeness_def conj_ac)
  qed
qed

text \<open>
  The reasons explain the verdict: they are sorted, and there is none exactly when the verdict is
  complete once compensation that nothing required is left out. Such undeclared compensation is the
  only thing that costs the status without leaving a reason.
\<close>
theorem reasons_explain_verdict:
  "sorted (cp_reasons (evaluate_completeness i)) \<and>
   (cp_reasons (evaluate_completeness i) = [] \<longleftrightarrow>
      cp_status (evaluate_completeness
        (if undeclared_compensation i then i\<lparr>ci_compensation := []\<rparr> else i)) = Complete)"
proof
  show "sorted (cp_reasons (evaluate_completeness i))"
    by (simp add: evaluate_completeness_def stage_reasons demote_def add_reason_def initial_completeness_def)
  show "cp_reasons (evaluate_completeness i) = [] \<longleftrightarrow>
      cp_status (evaluate_completeness
        (if undeclared_compensation i then i\<lparr>ci_compensation := []\<rparr> else i)) = Complete"
  proof (cases "undeclared_compensation i")
    case True
    then have "\<not> ci_compensation_required i" by (simp add: undeclared_compensation_def)
    then show ?thesis
      unfolding no_reasons_iff status_complete_iff if_P [OF True]
      by (simp add: undeclared_compensation_def)
  next
    case False
    then show ?thesis unfolding no_reasons_iff status_complete_iff by simp
  qed
qed

text \<open>
  Advice is never evidence: a judge-only input is never more than unverifiable (or out of scope),
  and it carries no enforcement coverage unless it is out of scope.
\<close>
theorem judge_only_never_verifies:
  "cp_status (evaluate_completeness (i\<lparr>ci_judge_only := True\<rparr>)) =
     (if ci_out_of_scope i then OutOfScope else Unverifiable)"
  by (simp add: evaluate_completeness_def eval_final_def demote_def add_reason_def Let_def)

section \<open>The verdict on a list of events\<close>

definition latest :: "(event \<Rightarrow> 'a option) \<Rightarrow> 'a \<Rightarrow> event list \<Rightarrow> 'a" where
  "latest f d es = fold (\<lambda>e acc. case f e of None \<Rightarrow> acc | Some x \<Rightarrow> x) es d"

lemma latest_simps [simp]:
  "latest f d [] = d"
  "latest f d (e # es) = latest f (case f e of None \<Rightarrow> d | Some x \<Rightarrow> x) es"
  by (simp_all add: latest_def)

definition outcome_of :: "event \<Rightarrow> string option" where
  "outcome_of e = map_of [(''execution_started'', ''started''), (''execution_succeeded'', ''succeeded''),
     (''execution_failed'', ''failed'')] (ev_kind e)"

definition effect_of :: "event \<Rightarrow> bool option" where
  "effect_of e = map_of [(''effect_validated'', True), (''effect_rejected'', False)] (ev_kind e)"

definition containment_of :: "event \<Rightarrow> string option" where
  "containment_of e =
     (if ev_kind e \<in> {''contained'', ''stop_acknowledged'', ''revocation_acknowledged''}
      then Some (if ev_status e = ''unresolved'' then ''unresolved'' else ''completed'') else None)"

definition evidence_bound :: "event \<Rightarrow> bool" where
  "evidence_bound e \<longleftrightarrow> valid_ref (ev_contract_ref e) \<and> digest_ok (ev_source_digest e)"

definition foreign :: "string \<Rightarrow> event \<Rightarrow> bool" where
  "foreign cid e \<longleftrightarrow> cid \<noteq> [] \<and> ref_id (ev_contract_ref e) \<noteq> [] \<and> ref_id (ev_contract_ref e) \<noteq> cid"

lemma derive_event_fields:
  "ci_readiness (derive_event cid e i) \<longleftrightarrow> ci_readiness i \<or> ev_kind e \<in> {''proposed'', ''registered''}"
  "ci_proposal_seen (derive_event cid e i) \<longleftrightarrow> ci_proposal_seen i \<or> ev_kind e \<in> {''proposed'', ''registered''}"
  "ci_preconditions (derive_event cid e i) \<longleftrightarrow> ci_preconditions i \<or> ev_kind e = ''approved''"
  "ci_authority_lineage (derive_event cid e i) \<longleftrightarrow> ci_authority_lineage i \<or> ev_kind e = ''approved''"
  "ci_activation_seen (derive_event cid e i) \<longleftrightarrow> ci_activation_seen i \<or> ev_kind e = ''activated''"
  "ci_execution_outcome (derive_event cid e i) =
     (case outcome_of e of None \<Rightarrow> ci_execution_outcome i | Some x \<Rightarrow> x)"
  "ci_effect_validated (derive_event cid e i) =
     (case effect_of e of None \<Rightarrow> ci_effect_validated i | Some x \<Rightarrow> x)"
  "ci_containment (derive_event cid e i) =
     (case containment_of e of None \<Rightarrow> ci_containment i | Some x \<Rightarrow> x)"
  "ci_compensation (derive_event cid e i) =
     (if ev_kind e = ''compensated'' then ''completed'' else ci_compensation i)"
  "ci_out_of_scope (derive_event cid e i) \<longleftrightarrow> ci_out_of_scope i \<or> foreign cid e"
  "ci_correlation_refs (derive_event cid e i) =
     ci_correlation_refs i + (if ref_id (ev_contract_ref e) \<noteq> [] then 1 else 0)"
  "ci_fresh (derive_event cid e i) \<longleftrightarrow> ci_fresh i \<and> digest_ok (ev_source_digest e)"
  "ci_judge_only (derive_event cid e i) = ci_judge_only i"
  by (simp_all add: derive_event_def Let_def outcome_of_def effect_of_def containment_of_def foreign_def)

lemma derive_loop_fold:
  "derive_loop cid es i = (if list_all evidence_bound es then Some (fold (derive_event cid) es i) else None)"
  by (induction es arbitrary: i) (auto simp: evidence_bound_def)

lemma fold_derive_fields:
  "ci_readiness (fold (derive_event cid) es i) \<longleftrightarrow>
     ci_readiness i \<or> list_ex (\<lambda>e. ev_kind e \<in> {''proposed'', ''registered''}) es"
  "ci_proposal_seen (fold (derive_event cid) es i) \<longleftrightarrow>
     ci_proposal_seen i \<or> list_ex (\<lambda>e. ev_kind e \<in> {''proposed'', ''registered''}) es"
  "ci_preconditions (fold (derive_event cid) es i) \<longleftrightarrow>
     ci_preconditions i \<or> list_ex (\<lambda>e. ev_kind e = ''approved'') es"
  "ci_authority_lineage (fold (derive_event cid) es i) \<longleftrightarrow>
     ci_authority_lineage i \<or> list_ex (\<lambda>e. ev_kind e = ''approved'') es"
  "ci_activation_seen (fold (derive_event cid) es i) \<longleftrightarrow>
     ci_activation_seen i \<or> list_ex (\<lambda>e. ev_kind e = ''activated'') es"
  "ci_execution_outcome (fold (derive_event cid) es i) = latest outcome_of (ci_execution_outcome i) es"
  "ci_effect_validated (fold (derive_event cid) es i) = latest effect_of (ci_effect_validated i) es"
  "ci_containment (fold (derive_event cid) es i) = latest containment_of (ci_containment i) es"
  "ci_compensation (fold (derive_event cid) es i) =
     (if list_ex (\<lambda>e. ev_kind e = ''compensated'') es then ''completed'' else ci_compensation i)"
  "ci_out_of_scope (fold (derive_event cid) es i) \<longleftrightarrow> ci_out_of_scope i \<or> list_ex (foreign cid) es"
  "ci_correlation_refs (fold (derive_event cid) es i) =
     ci_correlation_refs i + int (length (filter (\<lambda>e. ref_id (ev_contract_ref e) \<noteq> []) es))"
  "ci_fresh (fold (derive_event cid) es i) \<longleftrightarrow> ci_fresh i \<and> list_all (\<lambda>e. digest_ok (ev_source_digest e)) es"
  "ci_judge_only (fold (derive_event cid) es i) = ci_judge_only i"
  by (induction es arbitrary: i) (auto simp: derive_event_fields)

lemma latest_Some:
  "latest f d es = v \<Longrightarrow> v \<noteq> d \<Longrightarrow> \<exists>e \<in> set es. f e = Some v"
proof (induction es arbitrary: d)
  case (Cons e es)
  show ?case
  proof (cases "f e")
    case None
    with Cons.prems Cons.IH [of d] show ?thesis by auto
  next
    case (Some a)
    with Cons.prems Cons.IH [of a] show ?thesis by (cases "v = a") auto
  qed
qed simp

lemma latest_failed: "latest outcome_of [] es = ''failed'' \<Longrightarrow> list_ex (\<lambda>e. ev_kind e = ''execution_failed'') es"
  using latest_Some [of outcome_of "[]" es "''failed''"]
  by (auto simp: outcome_of_def list_ex_iff split: if_splits)

lemma latest_containment: "latest containment_of [] es \<noteq> ''not_required''"
  using latest_Some [of containment_of "[]" es "''not_required''"]
  by (auto simp: containment_of_def split: if_splits)

lemma derived_input_fields:
  fixes cid :: string
  assumes "list_all evidence_bound es"
  defines "j \<equiv> derived_input es (fold (derive_event cid) es (zero_input\<lparr>ci_fresh := True\<rparr>))"
  shows "ci_readiness j = list_ex (\<lambda>e. ev_kind e \<in> {''proposed'', ''registered''}) es"
    "ci_proposal_seen j = list_ex (\<lambda>e. ev_kind e \<in> {''proposed'', ''registered''}) es"
    "ci_preconditions j = list_ex (\<lambda>e. ev_kind e = ''approved'') es"
    "ci_authority_lineage j = list_ex (\<lambda>e. ev_kind e = ''approved'') es"
    "ci_activation_seen j = list_ex (\<lambda>e. ev_kind e = ''activated'') es"
    "ci_execution_outcome j = latest outcome_of [] es"
    "ci_effect_validated j = latest effect_of False es"
    "ci_containment j = latest containment_of [] es"
    "ci_out_of_scope j = list_ex (foreign cid) es" "ci_judge_only j = False"
    "ci_compensation j = (if list_ex (\<lambda>e. ev_kind e = ''compensated'') es then ''completed'' else [])"
    "ci_compensation_required j = list_ex (\<lambda>e. ev_kind e = ''execution_failed'') es"
    "ci_fresh j = (es \<noteq> [])" "ci_correlation_refs j = int (length es)"
    "ci_correlation_authoritative j = (es \<noteq> [])"
proof -
  have refs: "filter (\<lambda>e. ref_id (ev_contract_ref e) \<noteq> []) es = es"
    using assms by (auto simp: list_all_iff evidence_bound_def valid_ref_def intro!: filter_True)
  have fresh: "list_all (\<lambda>e. digest_ok (ev_source_digest e)) es"
    using assms by (auto simp: list_all_iff evidence_bound_def)
  have kinds: "k \<in> set (map ev_kind es) \<longleftrightarrow> list_ex (\<lambda>e. ev_kind e = k) es" for k
    by (auto simp: list_ex_iff)
  show "ci_readiness j = list_ex (\<lambda>e. ev_kind e \<in> {''proposed'', ''registered''}) es"
    "ci_proposal_seen j = list_ex (\<lambda>e. ev_kind e \<in> {''proposed'', ''registered''}) es"
    "ci_preconditions j = list_ex (\<lambda>e. ev_kind e = ''approved'') es"
    "ci_authority_lineage j = list_ex (\<lambda>e. ev_kind e = ''approved'') es"
    "ci_activation_seen j = list_ex (\<lambda>e. ev_kind e = ''activated'') es"
    "ci_execution_outcome j = latest outcome_of [] es"
    "ci_effect_validated j = latest effect_of False es"
    "ci_containment j = latest containment_of [] es"
    "ci_out_of_scope j = list_ex (foreign cid) es" "ci_judge_only j = False"
    "ci_compensation j = (if list_ex (\<lambda>e. ev_kind e = ''compensated'') es then ''completed'' else [])"
    "ci_compensation_required j = list_ex (\<lambda>e. ev_kind e = ''execution_failed'') es"
    "ci_fresh j = (es \<noteq> [])" "ci_correlation_refs j = int (length es)"
    "ci_correlation_authoritative j = (es \<noteq> [])"
    unfolding j_def derived_input_def Let_def kinds
    by (simp_all add: zero_input_def fold_derive_fields refs fresh)
qed

text \<open>
  On events, the verdict is \<open>complete\<close> exactly when every event is digest-bound and in the scope of
  the contract, a proposal, an approval and an activation occur, the latest execution event exists
  and, when it is a failure, compensation was completed, the latest effect event is a validation,
  the latest containment event is an acknowledgement that is not unresolved, and nothing was
  compensated that had not failed. An \<open>execution_started\<close> event alone counts as an outcome.
\<close>
theorem derived_complete_iff:
  "cp_status (derive_completeness cid es) = Complete \<longleftrightarrow>
     list_all evidence_bound es \<and> \<not> list_ex (foreign cid) es \<and>
     list_ex (\<lambda>e. ev_kind e \<in> {''proposed'', ''registered''}) es \<and>
     list_ex (\<lambda>e. ev_kind e = ''approved'') es \<and> list_ex (\<lambda>e. ev_kind e = ''activated'') es \<and>
     latest outcome_of [] es \<noteq> [] \<and>
     (if latest outcome_of [] es = ''failed'' then list_ex (\<lambda>e. ev_kind e = ''compensated'') es else True) \<and>
     latest effect_of False es \<and> latest containment_of [] es = ''completed'' \<and>
     (if list_ex (\<lambda>e. ev_kind e = ''compensated'') es
      then list_ex (\<lambda>e. ev_kind e = ''execution_failed'') es else True)"
proof (cases "list_all evidence_bound es")
  case False
  then show ?thesis by (simp add: derive_completeness_def derive_loop_fold unbound_completeness_def)
next
  case True
  have some: "list_ex P es \<Longrightarrow> es \<noteq> []" for P by auto
  show ?thesis
    using latest_failed [of es] latest_containment [of es] some
    unfolding derive_completeness_def derive_loop_fold if_P [OF True] option.case status_complete_iff
      undeclared_compensation_def derived_input_fields [OF True]
    using True by (cases "list_ex (\<lambda>e. ev_kind e = ''compensated'') es";
      cases "list_ex (\<lambda>e. ev_kind e = ''execution_failed'') es") auto
qed

section \<open>The reducer and the verdict can disagree\<close>

text \<open>
  The reducer treats a containment acknowledgement whose status is \<open>unresolved\<close>, \<open>unknown\<close> or \<open>gap\<close>
  as a gap; the verdict does so for \<open>unresolved\<close> only. The history below is complete for one and
  has a gap for the other.
\<close>

definition demo_contained_gap :: "event list" where
  "demo_contained_gap =
    map (\<lambda>(i, k, t, d, st). (demo_event i k t)\<lparr>ev_source_digest := demo_digest d, ev_status := st,
        ev_contract_ref := \<lparr>ref_id = ''c1'', ref_kind = ''action_contract'', ref_digest = demo_digest CHR ''0'',
          ref_source = ''wrkr'', ref_source_product = ''wrkr'', ref_schema_id = ''s'',
          ref_schema_version = ''1''\<rparr>\<rparr>)
      [(''e0'', ''proposed'', ''2026-01-01T00:00:00Z'', CHR ''0'', []),
       (''e1'', ''approved'', ''2026-01-02T00:00:00Z'', CHR ''1'', []),
       (''e2'', ''execution_started'', ''2026-01-03T00:00:00Z'', CHR ''2'', []),
       (''e3'', ''execution_succeeded'', ''2026-01-04T00:00:00Z'', CHR ''3'', []),
       (''e4'', ''activated'', ''2026-01-05T00:00:00Z'', CHR ''4'', []),
       (''e5'', ''execution_started'', ''2026-01-06T00:00:00Z'', CHR ''5'', []),
       (''e6'', ''effect_validated'', ''2026-01-07T00:00:00Z'', CHR ''6'', []),
       (''e7'', ''contained'', ''2026-01-08T00:00:00Z'', CHR ''7'', ''gap'')]"

lemma contained_gap_is_a_gap:
  "reduce_checked ''c1'' demo_contained_gap =
     (\<lparr>st_contract_id = ''c1'', st_status = ''gap'',
       st_events = [''e0'', ''e1'', ''e2'', ''e3'', ''e4'', ''e5'', ''e6'', ''e7''],
       st_source_digests = map demo_digest ''01234567'', st_complete = False,
       st_reason_codes = [''GAP_CONTAINMENT'']\<rparr>, None)"
  by code_simp

lemma contained_gap_is_complete:
  "cp_status (derive_completeness ''c1'' demo_contained_gap) = Complete"
  by code_simp

section \<open>The roll-up\<close>

text \<open>
  The roll-up of a register lists every contract exactly once in ascending order of its id, with
  the contract's own verdict, whatever order the map is iterated in.
\<close>
theorem rollup_lists_every_contract_once:
  assumes "distinct (map fst items)" and "mset items = mset items'"
  shows "map ru_contract_id (rollup_register items) = sort (map fst items) \<and>
    set (rollup_register items) = (\<lambda>(k, v). rollup_of k v) ` set items \<and>
    rollup_register items' = rollup_register items"
proof -
  have d': "distinct (map fst items')" and s: "set items' = set items"
    using assms by (metis mset_eq_imp_distinct_iff mset_map) (metis assms(2) set_mset_mset)
  have "map_of items' = map_of items"
    using assms(1) d' s by (metis map_of_inject_set)
  moreover have "sort (map fst items') = sort (map fst items)"
    using assms(2) by (metis mset_map properties_for_sort sorted_sort mset_sort)
  ultimately have "rollup_register items' = rollup_register items" by (simp add: rollup_register_def)
  moreover have "map ru_contract_id (rollup_register items) = sort (map fst items)"
    by (simp add: rollup_register_def comp_def rollup_of_def)
  moreover have "set (rollup_register items) = (\<lambda>(k, v). rollup_of k v) ` set items"
    using assms(1) by (force simp: rollup_register_def image_iff)
  ultimately show ?thesis by simp
qed

lemma rollup_lists_every_contract_once_witness:
  "rollup_register [(''a'', unbound_completeness), (''b'', initial_completeness)] =
   rollup_register [(''b'', initial_completeness), (''a'', unbound_completeness)]"
  using rollup_lists_every_contract_once
    [of "[(''b'', initial_completeness), (''a'', unbound_completeness)]"
        "[(''a'', unbound_completeness), (''b'', initial_completeness)]"]
  by simp

end
