(* ===== verification/Packet.thy ===== *)
theory Packet
  imports Lifecycle
begin

text \<open>
  \<open>core/governance/types.go\<close>: governed contracts, the contract register, evidence packets, the
  completeness of a packet by axis, its digest and signature, and the lineage check. Digests and
  signatures come from the Proof library: \<open>jcs\<close> (\<open>json.Marshal\<close> followed by
  \<open>proofcanon.DigestJCS\<close>), \<open>key_id\<close>, \<open>sign\<close> and \<open>verify\<close> are arguments of the definitions that
  use them.
\<close>

section \<open>Data\<close>

record contract =
  gc_id :: string
  gc_family_id :: string
  gc_revision :: int
  gc_action :: string
  gc_target :: string
  gc_environment :: string
  gc_policy_digest :: string
  gc_owner :: string
  gc_authority_refs :: "gov_ref list"
  gc_authorization :: "gobj list"
  gc_preconditions :: "gobj list"
  gc_confirmation :: "gobj list"
  gc_approval :: "gobj list"
  gc_credential :: "gobj list"
  gc_effect :: "gobj list"
  gc_compensation :: "gobj list"
  gc_outcome :: "gobj list"
  gc_provenance :: gov_ref
  gc_causal_ref :: gov_ref

record evidence =
  evd_kind :: string
  evd_ref :: gov_ref
  evd_occurred_at :: string
  evd_contract_ref :: gov_ref
  evd_attributes :: "(string \<times> string) list option"
  evd_provenance :: gov_ref

record register =
  rg_schema_id :: string
  rg_schema_version :: string
  rg_contracts :: "contract list"
  rg_source_digest :: string
  rg_digest :: string
  rg_signature :: "signature option"

record packet =
  pk_schema_id :: string
  pk_schema_version :: string
  pk_packet_id :: string
  pk_contract :: contract
  pk_evidence :: "evidence list"
  pk_completeness :: string
  pk_reason_codes :: "string list"
  pk_source_digests :: "string list"
  pk_digest :: string
  pk_signature :: "signature option"
  pk_axis_states :: "(string \<times> string) list"

datatype gov_error =
    UnsupportedSchemaId string
  | UnsupportedSchema string
  | InvalidContract string
  | DuplicateContract string
  | ProvenanceRequired string
  | PacketIdRequired
  | InvalidSourceDigest
  | EvidenceRequired
  | EvidenceUnbound
  | EvidenceProvenanceRequired
  | EvidenceTimestampInvalid
  | Tampered
  | DigestError
  | SignError
  | IncompleteLineageReference
  | TargetExpansion
  | EnvironmentExpansion
  | PolicyExpansion
  | AuthorityExpansion

definition register_schema_id :: string where
  "register_schema_id = ''https://axym.dev/schemas/v1/governance/action-contract-register.schema.json''"

definition packet_schema_id :: string where
  "packet_schema_id = ''https://axym.dev/schemas/v1/governance/action-contract-evidence-packet.schema.json''"

definition schema_version :: string where "schema_version = ''v1''"

definition attr :: "evidence \<Rightarrow> string \<Rightarrow> string" where
  \<comment> \<open>a read of \<open>Attributes\<close>: the empty string for an absent key and for the nil map\<close>
  "attr e k = (case evd_attributes e of None \<Rightarrow> [] | Some m \<Rightarrow> str_or_empty (map_of m k))"

section \<open>Validation\<close>

definition gov_digest :: "('v \<Rightarrow> string option) \<Rightarrow> 'v \<Rightarrow> string option" where
  \<comment> \<open>\<open>Digest\<close>\<close>
  "gov_digest jcs v = map_option (\<lambda>d. ''sha256:'' @ d) (jcs v)"

definition contract_malformed :: "contract \<Rightarrow> bool" where
  "contract_malformed c \<longleftrightarrow> blank (gc_id c) \<or> blank (gc_family_id c) \<or> gc_revision c < 1 \<or>
     blank (gc_action c) \<or> blank (gc_target c)"

definition validate_contract :: "contract \<Rightarrow> gov_error option" where
  "validate_contract c =
     (if contract_malformed c then Some (InvalidContract (gc_id c))
      else if \<not> valid_ref (gc_provenance c) then Some (ProvenanceRequired (gc_id c)) else None)"

fun validate_contracts :: "string list \<Rightarrow> contract list \<Rightarrow> gov_error option" where
  "validate_contracts seen [] = None"
| "validate_contracts seen (c # cs) =
     (if contract_malformed c then Some (InvalidContract (gc_id c))
      else if gc_id c \<in> set seen then Some (DuplicateContract (gc_id c))
      else if \<not> valid_ref (gc_provenance c) then Some (ProvenanceRequired (gc_id c))
      else validate_contracts (gc_id c # seen) cs)"

definition validate_register :: "register \<Rightarrow> gov_error option" where
  "validate_register r =
     (let v = (if rg_schema_version r = [] then schema_version else rg_schema_version r) in
      if rg_schema_id r \<noteq> register_schema_id then Some (UnsupportedSchemaId (rg_schema_id r))
      else if v \<noteq> schema_version then Some (UnsupportedSchema v)
      else validate_contracts [] (rg_contracts r))"

fun validate_evidence :: "string \<Rightarrow> evidence list \<Rightarrow> gov_error option" where
  "validate_evidence cid [] = None"
| "validate_evidence cid (e # es) =
     (if evd_kind e = [] \<or> \<not> valid_ref (evd_ref e) \<or> ref_id (evd_contract_ref e) \<noteq> cid \<or>
         \<not> valid_ref (evd_contract_ref e) then Some EvidenceUnbound
      else if \<not> valid_ref (evd_provenance e) then Some EvidenceProvenanceRequired
      else if parse_rfc3339 (evd_occurred_at e) = None then Some EvidenceTimestampInvalid
      else validate_evidence cid es)"

definition validate_packet :: "packet \<Rightarrow> gov_error option" where
  "validate_packet p =
     (if pk_schema_id p \<noteq> packet_schema_id then Some (UnsupportedSchemaId (pk_schema_id p))
      else if pk_schema_version p \<noteq> [] \<and> pk_schema_version p \<noteq> schema_version
      then Some (UnsupportedSchema (pk_schema_version p))
      else if blank (pk_packet_id p) then Some PacketIdRequired
      else if list_ex (\<lambda>d. \<not> digest_ok d) (pk_source_digests p) then Some InvalidSourceDigest
      else case validate_contract (pk_contract p) of
        Some e \<Rightarrow> Some e
      | None \<Rightarrow>
          if pk_evidence p = [] then Some EvidenceRequired
          else validate_evidence (gc_id (pk_contract p)) (pk_evidence p))"

definition normalize_register :: "register \<Rightarrow> (gov_error, register) result" where
  "normalize_register r =
     (case validate_register r of
        Some e \<Rightarrow> Inl e
      | None \<Rightarrow> Inr (r\<lparr>rg_schema_id := register_schema_id, rg_schema_version := schema_version,
          rg_contracts := go_sort (\<lambda>a b. gc_id a < gc_id b) (rg_contracts r)\<rparr>))"

section \<open>The axes of a packet\<close>

definition axis_aliases :: "(string \<times> string) list" where
  "axis_aliases =
    [(''authority'', ''authority''), (''authorization'', ''authority''), (''readiness'', ''readiness''),
     (''precondition'', ''preconditions''), (''preconditions'', ''preconditions''),
     (''confirmation'', ''confirmation''), (''credential'', ''credential''),
     (''delegation'', ''delegation''), (''approval'', ''approval''), (''enforcement'', ''enforcement''),
     (''containment'', ''containment''), (''resource'', ''resource_lifecycle''),
     (''resource_lifecycle'', ''resource_lifecycle''), (''compensation'', ''compensation''),
     (''proof'', ''proof''), (''freshness'', ''freshness''), (''correlation'', ''correlation''),
     (''execution'', ''execution''), (''effect'', ''effect''), (''outcome'', ''outcome'')]"

definition packet_axes :: "string list" where
  "packet_axes = [''authority'', ''readiness'', ''preconditions'', ''confirmation'', ''credential'',
     ''delegation'', ''approval'', ''enforcement'', ''containment'', ''resource_lifecycle'',
     ''compensation'', ''proof'', ''freshness'', ''correlation'', ''execution'', ''effect'', ''outcome'']"

definition item_axis :: "evidence \<Rightarrow> string" where
  "item_axis e = str_or_empty (map_of axis_aliases (to_lower (trim_space (evd_kind e))))"

definition item_state :: "evidence \<Rightarrow> string" where
  "item_state e =
    (let st = to_lower (trim_space (attr e ''state'')) in
     if evd_attributes e = None then ''present''
     else if st \<in> {''unknown'', ''unverifiable''} then ''unknown''
     else if st \<in> {''gap'', ''failed''} then ''gap''
     else if st = ''required'' then ''gap''
     else if st \<in> {''not_required'', ''completed'', ''succeeded''} then ''present''
     else if st \<in> {''started'', ''requested''} then ''unknown''
     else if st = ''partial'' then ''unknown''
     else if st = ''blocked'' then ''gap''
     else if st = ''recorded'' then ''unknown''
     else ''present'')"

definition item_terminal :: "evidence \<Rightarrow> bool" where
  "item_terminal e \<longleftrightarrow> attr e ''terminal'' = ''true''"

type_synonym axis_map = "(string \<times> string) list"

definition axis_get :: "axis_map \<Rightarrow> string \<Rightarrow> string" where
  "axis_get m axis = str_or_empty (map_of m axis)"

definition merge_state :: "string \<Rightarrow> string \<Rightarrow> bool" where
  \<comment> \<open>does a new non-terminal state replace the current one?\<close>
  "merge_state current new \<longleftrightarrow>
     current = ''missing'' \<or> new = ''gap'' \<or> (new = ''unknown'' \<and> current = ''present'')"

definition axis_step :: "evidence \<Rightarrow> axis_map \<times> axis_map \<Rightarrow> axis_map \<times> axis_map" where
  "axis_step e st =
    (case st of (states, terminals) \<Rightarrow>
      let axis = item_axis e; state = item_state e in
      if axis = [] then (states, terminals)
      else if item_terminal e then (states, AList.update axis state terminals)
      else if merge_state (axis_get states axis) state then (AList.update axis state states, terminals)
      else (states, terminals))"

definition axis_states :: "evidence list \<Rightarrow> axis_map" where
  "axis_states es =
    (case fold axis_step es (map (\<lambda>a. (a, ''missing'')) packet_axes, []) of
       (states, terminals) \<Rightarrow> fold (\<lambda>(a, s). AList.update a s) terminals states)"

definition axis_reason :: "axis_map \<Rightarrow> string \<Rightarrow> string list" where
  "axis_reason states axis =
    (let s = axis_get states axis in
     if s = ''missing'' then [''MISSING_'' @ to_upper axis]
     else if s = ''unknown'' then [''UNKNOWN_'' @ to_upper axis]
     else if s = ''gap'' then [''GAP_'' @ to_upper axis] else [])"

definition derive_packet_completeness :: "evidence list \<Rightarrow> string \<times> axis_map \<times> string list" where
  "derive_packet_completeness es =
    (let states = axis_states es;
         reasons = sort (concat (map (axis_reason states) packet_axes));
         gap = list_ex (\<lambda>a. axis_get states a \<in> {''unknown'', ''gap''}) packet_axes;
         complete = list_all (\<lambda>a. axis_get states a \<notin> {''missing'', ''unknown'', ''gap''}) packet_axes
     in (if gap then ''gap'' else if complete then ''complete'' else ''partial'', states, reasons))"

section \<open>Building, verifying and signing\<close>

definition unsealed_packet :: "packet \<Rightarrow> packet" where
  "unsealed_packet p = p\<lparr>pk_digest := [], pk_signature := None\<rparr>"

definition unsealed_register :: "register \<Rightarrow> register" where
  "unsealed_register r = r\<lparr>rg_digest := [], rg_signature := None\<rparr>"

definition packet_source_digests :: "contract \<Rightarrow> evidence list \<Rightarrow> string list" where
  \<comment> \<open>the provenance digest, then every new non-empty evidence digest, sorted at the end\<close>
  "packet_source_digests c es =
     (let d0 = ref_digest (gc_provenance c)
      in sort (d0 # dedup_seen [d0] (filter (\<lambda>d. d \<noteq> []) (map (\<lambda>e. ref_digest (evd_ref e)) es))))"

definition draft_packet :: "contract \<Rightarrow> evidence list \<Rightarrow> packet" where
  "draft_packet c es =
     (let es' = go_sort (\<lambda>a b. ref_id (evd_ref a) < ref_id (evd_ref b)) es;
          (status, states, reasons) = derive_packet_completeness es'
      in \<lparr>pk_schema_id = packet_schema_id, pk_schema_version = schema_version,
          pk_packet_id = gc_id c @ '':'' @ itoa (gc_revision c), pk_contract = c, pk_evidence = es',
          pk_completeness = status, pk_reason_codes = reasons,
          pk_source_digests = packet_source_digests c es', pk_digest = [], pk_signature = None,
          pk_axis_states = states\<rparr>)"

definition build_packet ::
  "(packet \<Rightarrow> string option) \<Rightarrow> contract \<Rightarrow> evidence list \<Rightarrow> (gov_error, packet) result" where
  "build_packet jcs c es =
     (let p = draft_packet c es in
      case validate_packet p of
        Some e \<Rightarrow> Inl e
      | None \<Rightarrow> (case gov_digest jcs p of None \<Rightarrow> Inl DigestError | Some d \<Rightarrow> Inr (p\<lparr>pk_digest := d\<rparr>)))"

definition verify_packet :: "(packet \<Rightarrow> string option) \<Rightarrow> packet \<Rightarrow> gov_error option" where
  "verify_packet jcs p =
     (case validate_packet p of
        Some e \<Rightarrow> Some e
      | None \<Rightarrow>
          if \<not> digest_ok (pk_digest p) then Some Tampered
          else case gov_digest jcs (unsealed_packet p) of
            None \<Rightarrow> Some DigestError
          | Some got \<Rightarrow>
              if pk_digest p = [] \<or> pk_digest p \<noteq> got then Some Tampered
              else (case pk_signature p of
                  None \<Rightarrow> None
                | Some sg \<Rightarrow>
                    if length (sg_signed_digest sg) \<noteq> 64 \<or>
                       sg_signed_digest sg \<noteq> trim_prefix (pk_digest p) ''sha256:''
                    then Some Tampered else None))"

definition sign_register ::
  "(register \<Rightarrow> string option) \<Rightarrow> ('priv \<Rightarrow> string \<Rightarrow> signature option) \<Rightarrow> 'priv \<Rightarrow> register \<Rightarrow>
   (gov_error, register) result" where
  "sign_register jcs sign priv r =
     (let r0 = unsealed_register r in
      case validate_register r0 of
        Some e \<Rightarrow> Inl e
      | None \<Rightarrow> (case gov_digest jcs r0 of
            None \<Rightarrow> Inl DigestError
          | Some d \<Rightarrow> (case sign priv (trim_prefix d ''sha256:'') of
                None \<Rightarrow> Inl SignError
              | Some sg \<Rightarrow> Inr (r0\<lparr>rg_digest := d, rg_signature := Some sg\<rparr>))))"

definition sign_packet ::
  "(packet \<Rightarrow> string option) \<Rightarrow> ('priv \<Rightarrow> string \<Rightarrow> signature option) \<Rightarrow> 'priv \<Rightarrow> packet \<Rightarrow>
   (gov_error, packet) result" where
  "sign_packet jcs sign priv p =
     (let p0 = unsealed_packet p in
      case gov_digest jcs p0 of
        None \<Rightarrow> Inl DigestError
      | Some d \<Rightarrow> (case sign priv (trim_prefix d ''sha256:'') of
            None \<Rightarrow> Inl SignError
          | Some sg \<Rightarrow> Inr (p0\<lparr>pk_digest := d, pk_signature := Some sg\<rparr>)))"

definition verify_signed_register ::
  "(register \<Rightarrow> string option) \<Rightarrow> ('pub \<Rightarrow> string) \<Rightarrow> ('pub \<Rightarrow> signature \<Rightarrow> bool option) \<Rightarrow> 'pub \<Rightarrow>
   register \<Rightarrow> gov_error option" where
  "verify_signed_register jcs key_id verify pub r =
     (case validate_register r of
        Some e \<Rightarrow> Some e
      | None \<Rightarrow> (case rg_signature r of
            None \<Rightarrow> Some Tampered
          | Some sg \<Rightarrow>
              if sg_key_id sg \<noteq> key_id pub then Some Tampered
              else (case gov_digest jcs (unsealed_register r) of
                  None \<Rightarrow> Some Tampered
                | Some got \<Rightarrow>
                    if rg_digest r = [] \<or> rg_digest r \<noteq> got \<or>
                       sg_signed_digest sg \<noteq> trim_prefix (rg_digest r) ''sha256:'' then Some Tampered
                    else if verify pub sg = Some True then None else Some Tampered)))"

definition verify_signed_packet ::
  "(packet \<Rightarrow> string option) \<Rightarrow> ('pub \<Rightarrow> string) \<Rightarrow> ('pub \<Rightarrow> signature \<Rightarrow> bool option) \<Rightarrow> 'pub \<Rightarrow>
   packet \<Rightarrow> gov_error option" where
  "verify_signed_packet jcs key_id verify pub p =
     (case validate_packet p of
        Some e \<Rightarrow> Some e
      | None \<Rightarrow> (case pk_signature p of
            None \<Rightarrow> Some Tampered
          | Some sg \<Rightarrow>
              if sg_key_id sg \<noteq> key_id pub then Some Tampered
              else (case gov_digest jcs (unsealed_packet p) of
                  None \<Rightarrow> Some Tampered
                | Some got \<Rightarrow>
                    if pk_digest p = [] \<or> pk_digest p \<noteq> got \<or>
                       sg_signed_digest sg \<noteq> trim_prefix (pk_digest p) ''sha256:'' then Some Tampered
                    else if verify pub sg = Some True then None else Some Tampered)))"

section \<open>Lineage\<close>

definition lineage_error :: "contract \<Rightarrow> gov_ref \<Rightarrow> gov_error option" where
  "lineage_error c r =
     (if \<not> valid_ref r then Some IncompleteLineageReference
      else if ref_kind r = ''target'' \<and> ref_id r \<noteq> gc_target c then Some TargetExpansion
      else if ref_kind r = ''environment'' \<and> ref_id r \<noteq> gc_environment c then Some EnvironmentExpansion
      else if ref_kind r = ''policy'' \<and> ref_digest r \<noteq> gc_policy_digest c then Some PolicyExpansion
      else if ref_kind r = ''authority'' \<and>
        \<not> list_ex (\<lambda>a. ref_id r = ref_id a \<and> ref_digest r = ref_digest a) (gc_authority_refs c)
      then Some AuthorityExpansion
      else None)"

fun verify_lineage :: "contract \<Rightarrow> gov_ref list \<Rightarrow> gov_error option" where
  "verify_lineage c [] = None"
| "verify_lineage c (r # rs) =
     (case lineage_error c r of Some e \<Rightarrow> Some e | None \<Rightarrow> verify_lineage c rs)"

section \<open>Axes\<close>

definition worst :: "string list \<Rightarrow> string" where
  "worst xs = (if ''gap'' \<in> set xs then ''gap'' else if ''unknown'' \<in> set xs then ''unknown''
     else if xs \<noteq> [] then ''present'' else ''missing'')"

definition axis_items :: "(evidence \<Rightarrow> bool) \<Rightarrow> evidence list \<Rightarrow> string \<Rightarrow> string list" where
  "axis_items P es a = map item_state (filter (\<lambda>e. item_axis e = a \<and> P e) es)"

definition axis_verdict :: "evidence list \<Rightarrow> string \<Rightarrow> string" where
  \<comment> \<open>the last terminal item decides; without one the worst state seen\<close>
  "axis_verdict es a =
     (let ts = axis_items item_terminal es a
      in if ts \<noteq> [] then last ts else worst (axis_items (\<lambda>e. \<not> item_terminal e) es a))"

lemma item_state_cases: "item_state e \<in> {''present'', ''unknown'', ''gap''}"
  by (simp add: item_state_def Let_def)

lemma axis_get_update: "axis_get (AList.update k v m) a = (if a = k then v else axis_get m a)"
  by (simp add: axis_get_def)

definition merge_one :: "string \<Rightarrow> string \<Rightarrow> string" where
  "merge_one current new = (if merge_state current new then new else current)"

lemma fold_axis_states:
  assumes "a \<noteq> []"
  shows "axis_get (fst (fold axis_step es (states, terminals))) a =
    fold (\<lambda>new current. merge_one current new) (axis_items (\<lambda>e. \<not> item_terminal e) es a) (axis_get states a)"
proof (induction es arbitrary: states terminals)
  case (Cons e es)
  obtain states' terminals' where st: "axis_step e (states, terminals) = (states', terminals')"
    by (cases "axis_step e (states, terminals)") auto
  have "axis_get states' a =
      (if item_axis e = a \<and> \<not> item_terminal e then merge_one (axis_get states a) (item_state e)
       else axis_get states a)"
    using st assms by (auto simp: axis_step_def Let_def merge_one_def axis_get_update split: if_splits)
  then show ?case by (simp add: st Cons.IH axis_items_def)
qed (simp add: axis_items_def)

lemma fold_axis_terminals:
  assumes "a \<noteq> []"
  shows "map_of (snd (fold axis_step es (states, terminals))) a =
    (let ts = axis_items item_terminal es a in if ts \<noteq> [] then Some (last ts) else map_of terminals a)"
proof (induction es arbitrary: states terminals)
  case (Cons e es)
  obtain states' terminals' where st: "axis_step e (states, terminals) = (states', terminals')"
    by (cases "axis_step e (states, terminals)") auto
  have "map_of terminals' a =
      (if item_axis e = a \<and> item_terminal e then Some (item_state e) else map_of terminals a)"
    using st assms by (auto simp: axis_step_def Let_def split: if_splits)
  then show ?case by (auto simp: st Cons.IH axis_items_def Let_def)
qed (simp add: axis_items_def)

lemma fold_axis_distinct:
  "distinct (map fst terminals) \<Longrightarrow> distinct (map fst (snd (fold axis_step es (states, terminals))))"
proof (induction es arbitrary: states terminals)
  case (Cons e es)
  then show ?case
    by (auto simp: axis_step_def Let_def distinct_update)
qed simp

lemma fold_update_lookup:
  "distinct (map fst ts) \<Longrightarrow> map_of (fold (\<lambda>(a, s). AList.update a s) ts m) k =
     (case map_of ts k of None \<Rightarrow> map_of m k | Some s \<Rightarrow> Some s)"
proof (induction ts arbitrary: m)
  case (Cons t ts)
  obtain a s where t: "t = (a, s)" by (cases t)
  with Cons have "a \<notin> set (map fst ts)" by simp
  then have "map_of ts a = None" by (simp add: map_of_eq_None_iff)
  with Cons t show ?case by (auto split: option.splits)
qed simp

lemma fold_merge_one:
  assumes "set xs \<subseteq> {''present'', ''unknown'', ''gap''}"
  shows "fold (\<lambda>new current. merge_one current new) xs ''missing'' = worst xs"
proof -
  have merge: "merge_one (worst xs) x = worst (xs @ [x])"
    if "x \<in> {''present'', ''unknown'', ''gap''}" for x xs
    using that by (auto simp: merge_one_def merge_state_def worst_def)
  show ?thesis
    using assms
  proof (induction xs rule: rev_induct)
    case Nil
    then show ?case by (simp add: worst_def)
  next
    case (snoc x xs)
    then show ?case using merge [of x xs] by simp
  qed
qed

lemma axis_get_initial: "a \<in> set packet_axes \<Longrightarrow> axis_get (map (\<lambda>a. (a, ''missing'')) packet_axes) a = ''missing''"
  by (simp add: axis_get_def map_of_map_restrict)

lemma axis_nonempty: "a \<in> set packet_axes \<Longrightarrow> a \<noteq> []"
  by (auto simp: packet_axes_def)

lemma axis_states_verdict:
  assumes "a \<in> set packet_axes"
  shows "axis_get (axis_states es) a = axis_verdict es a"
proof -
  let ?init = "map (\<lambda>a. (a, ''missing'')) packet_axes"
  obtain states terminals where st: "fold axis_step es (?init, []) = (states, terminals)"
    by (cases "fold axis_step es (?init, [])") auto
  have "distinct (map fst terminals)"
    using fold_axis_distinct [of "[]" es ?init] st by simp
  moreover have "map_of terminals a =
      (let ts = axis_items item_terminal es a in if ts \<noteq> [] then Some (last ts) else None)"
    using fold_axis_terminals [OF axis_nonempty [OF assms], of es ?init "[]"] st by (simp add: Let_def)
  moreover have "axis_get states a = worst (axis_items (\<lambda>e. \<not> item_terminal e) es a)"
  proof -
    have "set (axis_items (\<lambda>e. \<not> item_terminal e) es a) \<subseteq> {''present'', ''unknown'', ''gap''}"
      using item_state_cases by (fastforce simp: axis_items_def)
    then show ?thesis
      using fold_axis_states [OF axis_nonempty [OF assms], of es ?init "[]"] st
      by (simp add: axis_get_initial [OF assms] fold_merge_one)
  qed
  ultimately show ?thesis
    by (auto simp: axis_states_def st axis_get_def fold_update_lookup axis_verdict_def Let_def)
qed

lemma axis_verdict_cases: "axis_verdict es a \<in> {''missing'', ''present'', ''unknown'', ''gap''}"
proof -
  have "last ts \<in> {''present'', ''unknown'', ''gap''}" if "ts = axis_items item_terminal es a" "ts \<noteq> []" for ts
  proof -
    have "last ts \<in> set ts" using that(2) by simp
    then have "last ts \<in> item_state ` set es" using that(1) by (auto simp: axis_items_def)
    then obtain e where "last ts = item_state e" by blast
    then show ?thesis using item_state_cases [of e] by metis
  qed
  then show ?thesis by (auto simp: axis_verdict_def worst_def Let_def)
qed

text \<open>
  The completeness of a packet follows from its evidence axis by axis: the last terminal item of an
  axis decides its state, without one the worst state seen does. The packet has a gap when an axis
  is unknown or a gap, is complete when all seventeen axes are present, partial otherwise, and
  carries no reason code exactly when it is complete.
\<close>
theorem packet_completeness_by_axis:
  "fst (derive_packet_completeness es) =
     (if list_ex (\<lambda>a. axis_verdict es a \<in> {''unknown'', ''gap''}) packet_axes then ''gap''
      else if list_all (\<lambda>a. axis_verdict es a = ''present'') packet_axes then ''complete''
      else ''partial'') \<and>
   (snd (snd (derive_packet_completeness es)) = [] \<longleftrightarrow>
      fst (derive_packet_completeness es) = ''complete'')"
proof -
  have ex: "list_ex (\<lambda>a. axis_get (axis_states es) a \<in> S) packet_axes \<longleftrightarrow>
      list_ex (\<lambda>a. axis_verdict es a \<in> S) packet_axes" for S
    by (auto simp: list_ex_iff axis_states_verdict)
  have all: "list_all (\<lambda>a. axis_get (axis_states es) a \<notin> {''missing'', ''unknown'', ''gap''}) packet_axes \<longleftrightarrow>
      list_all (\<lambda>a. axis_verdict es a = ''present'') packet_axes"
    using axis_verdict_cases [of es] by (fastforce simp: list_all_iff axis_states_verdict)
  have reason: "axis_reason (axis_states es) a = [] \<longleftrightarrow> axis_verdict es a = ''present''"
    if "a \<in> set packet_axes" for a
    using axis_verdict_cases [of es a] that by (auto simp: axis_reason_def axis_states_verdict Let_def)
  have srt: "sort xs = [] \<longleftrightarrow> xs = []" for xs :: "string list" by (metis set_empty set_sort)
  have none: "concat (map (axis_reason (axis_states es)) packet_axes) = [] \<longleftrightarrow>
      list_all (\<lambda>a. axis_verdict es a = ''present'') packet_axes"
    using reason by (auto simp: list_all_iff)
  show ?thesis
    unfolding derive_packet_completeness_def Let_def ex all fst_conv snd_conv srt none
    by (auto simp: list_ex_iff list_all_iff)
qed

section \<open>Sealed documents\<close>

text \<open>
  A register and a packet are sealed alike: the digest of the document without its digest and
  signature, and a signature of that digest.
\<close>

definition hex_digests :: "('v \<Rightarrow> string option) \<Rightarrow> bool" where
  \<comment> \<open>documented behaviour of \<open>DigestJCS\<close>: 64 lower-case hexadecimal digits\<close>
  "hex_digests jcs \<longleftrightarrow> (\<forall>v h. jcs v = Some h \<longrightarrow> bare_digest_ok h)"

definition signing_laws ::
  "('priv \<Rightarrow> 'pub) \<Rightarrow> ('pub \<Rightarrow> string) \<Rightarrow> ('priv \<Rightarrow> string \<Rightarrow> signature option) \<Rightarrow>
   ('pub \<Rightarrow> signature \<Rightarrow> bool option) \<Rightarrow> bool" where
  \<comment> \<open>documented behaviour of \<open>SignDigestHex\<close>, \<open>KeyID\<close> and \<open>VerifyDigestHex\<close> on a key pair\<close>
  "signing_laws public key_id sign verify \<longleftrightarrow>
     (\<forall>priv h sg. sign priv h = Some sg \<longrightarrow>
        sg_key_id sg = key_id (public priv) \<and> sg_signed_digest sg = h \<and> verify (public priv) sg = Some True)"

definition seal_ok ::
  "('v \<Rightarrow> string option) \<Rightarrow> ('pub \<Rightarrow> string) \<Rightarrow> ('pub \<Rightarrow> signature \<Rightarrow> bool option) \<Rightarrow> 'pub \<Rightarrow>
   'v \<Rightarrow> string \<Rightarrow> signature option \<Rightarrow> bool" where
  "seal_ok jcs key_id verify pub content d s \<longleftrightarrow>
     (case s of None \<Rightarrow> False
      | Some sg \<Rightarrow> sg_key_id sg = key_id pub \<and> gov_digest jcs content = Some d \<and>
          sg_signed_digest sg = trim_prefix d ''sha256:'' \<and> verify pub sg = Some True)"

lemma gov_digest_Some:
  "gov_digest jcs v = Some d \<longleftrightarrow> (\<exists>h. jcs v = Some h \<and> d = ''sha256:'' @ h)"
  by (auto simp: gov_digest_def)

lemma gov_digest_ok: "hex_digests jcs \<Longrightarrow> gov_digest jcs v = Some d \<Longrightarrow> digest_ok d"
  by (auto simp: gov_digest_Some hex_digests_def bare_digest_ok_def digest_ok_def)

lemma trim_sha256 [simp]: "trim_prefix (''sha256:'' @ h) ''sha256:'' = h"
  by (simp add: trim_prefix_def)

locale sealed_document =
  fixes unseal :: "'d \<Rightarrow> 'd"
    and seal :: "string \<Rightarrow> signature option \<Rightarrow> 'd \<Rightarrow> 'd"
    and digest_of :: "'d \<Rightarrow> string"
    and signature_of :: "'d \<Rightarrow> signature option"
  assumes unseal_seal: "unseal (seal d s x) = unseal x"
    and unseal_unseal: "unseal (unseal x) = unseal x"
    and digest_seal: "digest_of (seal d s x) = d"
    and signature_seal: "signature_of (seal d s x) = s"
begin

definition sealed_by ::
  "('d \<Rightarrow> string option) \<Rightarrow> ('pub \<Rightarrow> string) \<Rightarrow> ('pub \<Rightarrow> signature \<Rightarrow> bool option) \<Rightarrow> 'pub \<Rightarrow> 'd \<Rightarrow> bool" where
  "sealed_by jcs key_id verify pub x \<longleftrightarrow>
     seal_ok jcs key_id verify pub (unseal x) (digest_of x) (signature_of x)"

lemma seal_verifies:
  assumes "signing_laws public key_id sign verify"
    and "gov_digest jcs (unseal x) = Some d" and "sign priv (trim_prefix d ''sha256:'') = Some sg"
  shows "sealed_by jcs key_id verify (public priv) (seal d (Some sg) (unseal x))"
  using assms
  by (auto simp: sealed_by_def seal_ok_def unseal_seal unseal_unseal digest_seal signature_seal signing_laws_def)

lemma seal_binds_content:
  assumes "sealed_by jcs key_id verify pub x" and "sealed_by jcs key_id verify pub' y"
    and "digest_of x = digest_of y"
  shows "jcs (unseal x) = jcs (unseal y)"
  using assms by (auto simp: sealed_by_def seal_ok_def gov_digest_Some split: option.splits)

end

definition seal_packet :: "string \<Rightarrow> signature option \<Rightarrow> packet \<Rightarrow> packet" where
  "seal_packet d s p = p\<lparr>pk_digest := d, pk_signature := s\<rparr>"

definition seal_register :: "string \<Rightarrow> signature option \<Rightarrow> register \<Rightarrow> register" where
  "seal_register d s r = r\<lparr>rg_digest := d, rg_signature := s\<rparr>"

interpretation packet_seal: sealed_document unsealed_packet seal_packet pk_digest pk_signature
  by unfold_locales (simp_all add: unsealed_packet_def seal_packet_def)

interpretation register_seal: sealed_document unsealed_register seal_register rg_digest rg_signature
  by unfold_locales (simp_all add: unsealed_register_def seal_register_def)

lemma digest_of_nonempty: "gov_digest jcs v = Some d \<Longrightarrow> d \<noteq> []"
  by (auto simp: gov_digest_Some)

lemma verify_signed_packet_iff:
  "verify_signed_packet jcs key_id verify pub p = None \<longleftrightarrow>
     validate_packet p = None \<and> packet_seal.sealed_by jcs key_id verify pub p"
  by (auto simp: verify_signed_packet_def packet_seal.sealed_by_def seal_ok_def
      dest: digest_of_nonempty split: option.splits if_splits)

lemma verify_signed_register_iff:
  "verify_signed_register jcs key_id verify pub r = None \<longleftrightarrow>
     validate_register r = None \<and> register_seal.sealed_by jcs key_id verify pub r"
  by (auto simp: verify_signed_register_def register_seal.sealed_by_def seal_ok_def
      dest: digest_of_nonempty split: option.splits if_splits)

lemma validate_packet_seal [simp]:
  "validate_packet (seal_packet d s p) = validate_packet p"
  "validate_packet (unsealed_packet p) = validate_packet p"
  by (simp_all add: validate_packet_def seal_packet_def unsealed_packet_def cong: option.case_cong if_cong)

lemma validate_register_seal [simp]:
  "validate_register (seal_register d s r) = validate_register r"
  "validate_register (unsealed_register r) = validate_register r"
  by (simp_all add: validate_register_def seal_register_def unsealed_register_def Let_def)

definition demo_full_ref :: "string \<Rightarrow> string \<Rightarrow> char \<Rightarrow> gov_ref" where
  "demo_full_ref i k d = \<lparr>ref_id = i, ref_kind = k, ref_digest = demo_digest d, ref_source = ''wrkr'',
     ref_source_product = ''wrkr'', ref_schema_id = ''s'', ref_schema_version = ''1''\<rparr>"

definition demo_contract :: contract where
  "demo_contract = \<lparr>gc_id = ''c1'', gc_family_id = ''f'', gc_revision = 1, gc_action = ''deploy'',
     gc_target = ''svc'', gc_environment = ''prod'', gc_policy_digest = demo_digest CHR ''9'', gc_owner = ''o'',
     gc_authority_refs = [demo_full_ref ''a1'' ''authority'' CHR ''a''], gc_authorization = [],
     gc_preconditions = [], gc_confirmation = [], gc_approval = [], gc_credential = [], gc_effect = [],
     gc_compensation = [], gc_outcome = [], gc_provenance = demo_full_ref ''p'' ''provenance'' CHR ''1'',
     gc_causal_ref = demo_full_ref ''p'' ''provenance'' CHR ''1''\<rparr>"

definition demo_evidence :: "string \<Rightarrow> string \<Rightarrow> char \<Rightarrow> evidence" where
  "demo_evidence i k d = \<lparr>evd_kind = k, evd_ref = demo_full_ref i k d, evd_occurred_at = ''2026-01-01T00:00:00Z'',
     evd_contract_ref = demo_full_ref ''c1'' ''action_contract'' CHR ''0'', evd_attributes = None,
     evd_provenance = demo_full_ref ''p'' ''provenance'' CHR ''1''\<rparr>"

definition demo_packet :: packet where
  "demo_packet = draft_packet demo_contract [demo_evidence ''e2'' ''effect'' CHR ''3'', demo_evidence ''e1'' ''approval'' CHR ''2'']"

definition demo_jcs :: "'v \<Rightarrow> string option" where
  "demo_jcs v = Some (replicate 64 CHR ''0'')"

definition demo_sign :: "unit \<Rightarrow> string \<Rightarrow> signature option" where
  "demo_sign k h = Some \<lparr>sg_alg = [], sg_key_id = ''k'', sg_signed_digest = h, sg_value = []\<rparr>"

definition demo_key_id :: "unit \<Rightarrow> string" where "demo_key_id k = ''k''"

definition demo_verify :: "unit \<Rightarrow> signature \<Rightarrow> bool option" where "demo_verify k sg = Some True"

lemma demo_hex: "hex_digests demo_jcs"
  unfolding hex_digests_def demo_jcs_def by (simp; code_simp)

lemma demo_signing: "signing_laws (\<lambda>k. k) demo_key_id demo_sign demo_verify"
  by (auto simp: signing_laws_def demo_sign_def demo_key_id_def demo_verify_def)

lemma demo_packet_valid: "validate_packet demo_packet = None"
  by code_simp

definition demo_signature :: signature where
  "demo_signature = \<lparr>sg_alg = [], sg_key_id = ''k'', sg_signed_digest = replicate 64 CHR ''0'', sg_value = []\<rparr>"

definition demo_signed :: packet where
  "demo_signed = demo_packet\<lparr>pk_digest := demo_digest CHR ''0'', pk_signature := Some demo_signature\<rparr>"

lemma demo_sign_packet: "sign_packet demo_jcs demo_sign () demo_packet = Inr demo_signed"
  by (simp add: sign_packet_def gov_digest_def demo_jcs_def demo_sign_def demo_signed_def Let_def
      demo_digest_def demo_signature_def trim_prefix_def unsealed_packet_def)

lemma demo_signed_verifies: "verify_signed_packet demo_jcs demo_key_id demo_verify () demo_signed = None"
  by code_simp

text \<open>
  C8: signing round trip: what \<open>SignPacket\<close> returns for a valid packet is accepted by
  \<open>VerifySignedPacket\<close> under the signer's public key and by \<open>VerifyPacket\<close>, and nothing but digest
  and signature has changed.
\<close>
theorem signed_packet_verifies:
  assumes "hex_digests jcs" and "signing_laws public key_id sign verify"
    and "validate_packet p = None" and "sign_packet jcs sign priv p = Inr q"
  shows "verify_signed_packet jcs key_id verify (public priv) q = None \<and> verify_packet jcs q = None \<and>
    unsealed_packet q = unsealed_packet p"
proof -
  obtain d sg where d: "gov_digest jcs (unsealed_packet p) = Some d"
    and sg: "sign priv (trim_prefix d ''sha256:'') = Some sg"
    and q: "q = seal_packet d (Some sg) (unsealed_packet p)"
    using assms(4) by (auto simp: sign_packet_def seal_packet_def Let_def split: option.splits)
  have u: "unsealed_packet q = unsealed_packet p"
    unfolding q packet_seal.unseal_seal packet_seal.unseal_unseal ..
  have "packet_seal.sealed_by jcs key_id verify (public priv) q"
    using packet_seal.seal_verifies [OF assms(2), OF d sg] by (simp only: q)
  moreover have "validate_packet q = None" by (simp add: q assms(3))
  moreover have "digest_ok d" using assms(1) d by (rule gov_digest_ok)
  moreover have "sg_signed_digest sg = trim_prefix d ''sha256:''"
    using assms(2) sg by (auto simp: signing_laws_def)
  moreover have "length (trim_prefix d ''sha256:'') = 64"
    using \<open>digest_ok d\<close> by (auto simp: digest_ok_def trim_prefix_def)
  moreover have "pk_digest q = d" "pk_signature q = Some sg" by (simp_all add: q seal_packet_def)
  ultimately show ?thesis
    using u d digest_of_nonempty [OF d] by (simp add: verify_signed_packet_iff verify_packet_def)
qed

lemma signed_packet_verifies_witness: "verify_packet demo_jcs demo_signed = None"
  using signed_packet_verifies [OF demo_hex demo_signing demo_packet_valid demo_sign_packet] by simp

text \<open>
  The signature binds the whole document: two packets that verify with the same signature have the
  same canonical form, and so do two registers. Passing different content off under one signature
  needs a collision of the digest.
\<close>
theorem signature_binds_content:
  assumes "verify_signed_packet jcs key_id verify pub p = None"
    and "verify_signed_packet jcs key_id verify pub' q = None"
    and "pk_signature p = pk_signature q"
  shows "jcs (unsealed_packet p) = jcs (unsealed_packet q)"
proof -
  have trim: "trim_prefix d ''sha256:'' = trim_prefix d' ''sha256:'' \<longleftrightarrow> d = d'"
    if "gov_digest jcs x = Some d" "gov_digest jcs y = Some d'" for x y d d'
    using that unfolding gov_digest_Some by (auto simp del: append_Cons)
  have p: "packet_seal.sealed_by jcs key_id verify pub p" and q: "packet_seal.sealed_by jcs key_id verify pub' q"
    using assms by (simp_all add: verify_signed_packet_iff)
  have "pk_digest p = pk_digest q"
    using p q assms(3) trim
    unfolding packet_seal.sealed_by_def seal_ok_def by (auto split: option.splits)
  with p q show ?thesis by (rule packet_seal.seal_binds_content)
qed

lemma signature_binds_content_witness:
  "demo_jcs (unsealed_packet demo_signed) = demo_jcs (unsealed_packet demo_signed)"
  by (rule signature_binds_content [OF demo_signed_verifies demo_signed_verifies refl])

text \<open>
  What \<open>SignRegister\<close> returns is accepted by \<open>VerifySignedRegister\<close> under the signer's public
  key, so signing never produces a register that is invalid or that does not verify.
\<close>
theorem signed_register_verifies:
  assumes "signing_laws public key_id sign verify" and "sign_register jcs sign priv r = Inr q"
  shows "verify_signed_register jcs key_id verify (public priv) q = None \<and>
    unsealed_register q = unsealed_register r"
proof -
  obtain d sg where d: "gov_digest jcs (unsealed_register r) = Some d"
    and sg: "sign priv (trim_prefix d ''sha256:'') = Some sg"
    and q: "q = seal_register d (Some sg) (unsealed_register r)"
    and ok: "validate_register r = None"
    using assms(2) by (auto simp: sign_register_def seal_register_def Let_def split: option.splits)
  have "register_seal.sealed_by jcs key_id verify (public priv) q"
    using register_seal.seal_verifies [OF assms(1), OF d sg] by (simp only: q)
  then show ?thesis
    by (simp add: verify_signed_register_iff ok q register_seal.unseal_seal register_seal.unseal_unseal)
qed

definition demo_register :: register where
  "demo_register = \<lparr>rg_schema_id = register_schema_id, rg_schema_version = [],
     rg_contracts = [demo_contract\<lparr>gc_id := ''c2''\<rparr>, demo_contract], rg_source_digest = [], rg_digest = [],
     rg_signature = None\<rparr>"

definition demo_signed_register :: register where
  "demo_signed_register = demo_register\<lparr>rg_digest := demo_digest CHR ''0'', rg_signature := Some demo_signature\<rparr>"

lemma demo_register_valid: "validate_register demo_register = None"
  by code_simp

lemma signed_register_verifies_witness:
  "verify_signed_register demo_jcs demo_key_id demo_verify () demo_signed_register = None"
proof -
  have "sign_register demo_jcs demo_sign () demo_register = Inr demo_signed_register"
    by (simp add: sign_register_def gov_digest_def demo_jcs_def demo_sign_def demo_signed_register_def Let_def
        demo_digest_def demo_signature_def trim_prefix_def demo_register_valid)
      (simp add: unsealed_register_def)
  from signed_register_verifies [OF demo_signing this] show ?thesis by simp
qed

lemma sort_fresh_digests:
  "sorted (sort (d # dedup_seen [d] xs)) \<and> distinct (sort (d # dedup_seen [d] xs)) \<and>
    set (sort (d # dedup_seen [d] xs)) = insert d (set xs)"
proof -
  have "distinct (d # dedup_seen [d] xs)" by (simp add: set_dedup_seen distinct_dedup_seen)
  moreover have "set (d # dedup_seen [d] xs) = insert d (set xs)" by (auto simp: set_dedup_seen)
  ultimately show ?thesis by (simp only: sorted_sort distinct_sort set_sort simp_thms)
qed

text \<open>
  \<open>BuildPacket\<close> only returns packets that verify: its result is valid, \<open>VerifyPacket\<close> accepts it,
  its completeness is the one derived from its own evidence, and every evidence reference and the
  provenance of the contract is among its source digests.
\<close>
theorem built_packet_verifies:
  assumes "hex_digests jcs" and "build_packet jcs c es = Inr p"
  shows "verify_packet jcs p = None \<and> mset (pk_evidence p) = mset es \<and>
    (pk_completeness p, pk_axis_states p, pk_reason_codes p) = derive_packet_completeness (pk_evidence p) \<and>
    sorted (pk_source_digests p) \<and> distinct (pk_source_digests p) \<and>
    set (pk_source_digests p) = insert (ref_digest (gc_provenance c)) ((\<lambda>e. ref_digest (evd_ref e)) ` set es)"
proof -
  let ?d = "draft_packet c es"
  obtain d where d: "gov_digest jcs ?d = Some d" and p: "p = ?d\<lparr>pk_digest := d\<rparr>" and ok: "validate_packet ?d = None"
    using assms(2) by (auto simp: build_packet_def Let_def split: option.splits)
  have u: "unsealed_packet ?d = ?d"
    by (simp add: draft_packet_def unsealed_packet_def Let_def split: prod.splits)
  have ps: "p = seal_packet d None ?d"
    by (simp add: p seal_packet_def draft_packet_def Let_def split: prod.splits)
  have v: "verify_packet jcs p = None"
  proof -
    have "validate_packet p = None" "unsealed_packet p = ?d" "pk_digest p = d" "pk_signature p = None"
      unfolding ps by (simp_all add: ok packet_seal.unseal_seal u) (simp_all add: seal_packet_def)
    then show ?thesis
      using d gov_digest_ok [OF assms(1) d] digest_of_nonempty [OF d] by (simp add: verify_packet_def)
  qed
  have ev: "pk_evidence p = go_sort (\<lambda>a b. ref_id (evd_ref a) < ref_id (evd_ref b)) es"
    by (simp add: p draft_packet_def Let_def split: prod.splits)
  have refs: "ref_digest (evd_ref e) \<noteq> []" if "e \<in> set (pk_evidence p)" for e
  proof -
    have "validate_evidence cid xs = None \<Longrightarrow> \<forall>x \<in> set xs. valid_ref (evd_ref x)" for cid xs
      by (induction xs) (auto split: if_splits)
    moreover have "validate_evidence (gc_id (pk_contract ?d)) (pk_evidence ?d) = None"
      using ok by (auto simp: validate_packet_def split: if_splits option.splits)
    ultimately have "valid_ref (evd_ref e)" using that by (auto simp: p)
    then show ?thesis by (auto simp: valid_ref_def)
  qed
  then have "filter (\<lambda>d. d \<noteq> []) (map (\<lambda>e. ref_digest (evd_ref e)) (pk_evidence p)) =
      map (\<lambda>e. ref_digest (evd_ref e)) (pk_evidence p)" by (auto intro: filter_True)
  then have sd: "pk_source_digests p = sort (ref_digest (gc_provenance c) #
      dedup_seen [ref_digest (gc_provenance c)] (map (\<lambda>e. ref_digest (evd_ref e)) (pk_evidence p)))"
    by (simp add: p draft_packet_def packet_source_digests_def Let_def split: prod.splits)
  have "(pk_completeness p, pk_axis_states p, pk_reason_codes p) = derive_packet_completeness (pk_evidence p)"
    by (simp add: p draft_packet_def Let_def split: prod.splits)
  moreover have "set (map (\<lambda>e. ref_digest (evd_ref e)) (pk_evidence p)) = (\<lambda>e. ref_digest (evd_ref e)) ` set es"
    by (simp add: ev)
  ultimately show ?thesis
    using v sort_fresh_digests [of "ref_digest (gc_provenance c)" "map (\<lambda>e. ref_digest (evd_ref e)) (pk_evidence p)"]
    by (simp only: sd simp_thms) (simp add: ev)
qed

lemma built_packet_verifies_witness:
  "verify_packet demo_jcs (demo_packet\<lparr>pk_digest := demo_digest CHR ''0''\<rparr>) = None"
proof -
  have "build_packet demo_jcs demo_contract
      [demo_evidence ''e2'' ''effect'' CHR ''3'', demo_evidence ''e1'' ''approval'' CHR ''2''] =
    Inr (demo_packet\<lparr>pk_digest := demo_digest CHR ''0''\<rparr>)"
    using demo_packet_valid
    by (simp add: build_packet_def demo_packet_def gov_digest_def demo_jcs_def demo_digest_def Let_def)
  from built_packet_verifies [OF demo_hex this] show ?thesis by simp
qed

text \<open>
  C9: evidence never widens authority: \<open>VerifyLineage\<close> accepts a list of references exactly when each
  is complete and a target, environment, policy or authority reference names what the contract
  itself declares; so accepted references can be split and recombined freely.
\<close>
theorem lineage_never_expands_authority:
  "verify_lineage c rs = None \<longleftrightarrow>
     list_all (\<lambda>r. valid_ref r \<and>
       (if ref_kind r = ''target'' then ref_id r = gc_target c
        else if ref_kind r = ''environment'' then ref_id r = gc_environment c
        else if ref_kind r = ''policy'' then ref_digest r = gc_policy_digest c
        else if ref_kind r = ''authority''
        then (ref_id r, ref_digest r) \<in> (\<lambda>a. (ref_id a, ref_digest a)) ` set (gc_authority_refs c)
        else True)) rs"
proof (induction rs)
  case (Cons r rs)
  have "lineage_error c r = None \<longleftrightarrow> valid_ref r \<and>
       (if ref_kind r = ''target'' then ref_id r = gc_target c
        else if ref_kind r = ''environment'' then ref_id r = gc_environment c
        else if ref_kind r = ''policy'' then ref_digest r = gc_policy_digest c
        else if ref_kind r = ''authority''
        then (ref_id r, ref_digest r) \<in> (\<lambda>a. (ref_id a, ref_digest a)) ` set (gc_authority_refs c)
        else True)"
    by (auto simp: lineage_error_def list_ex_iff)
  with Cons show ?case by (auto split: option.splits)
qed simp

lemma validate_contracts_None:
  "validate_contracts seen cs = None \<longleftrightarrow>
     list_all (\<lambda>c. \<not> contract_malformed c \<and> valid_ref (gc_provenance c)) cs \<and>
     distinct (map gc_id cs) \<and> set (map gc_id cs) \<inter> set seen = {}"
  by (induction seen cs rule: validate_contracts.induct) auto

text \<open>
  normalising a register succeeds exactly on the valid ones, keeps its contracts, puts them in
  strictly ascending order of their ids, yields a valid register, and is idempotent; the order the
  contracts came in does not matter.
\<close>
theorem register_normal_form:
  assumes "normalize_register r = Inr r'" and "mset cs = mset (rg_contracts r)"
  shows "validate_register r' = None \<and> mset (rg_contracts r') = mset (rg_contracts r) \<and>
    sorted_wrt (<) (map gc_id (rg_contracts r')) \<and> normalize_register r' = Inr r' \<and>
    normalize_register (r\<lparr>rg_contracts := cs\<rparr>) = Inr r'"
proof -
  have srt: "go_sort (\<lambda>a b. gc_id a < gc_id b) xs = sort_key gc_id xs" for xs
    by (rule go_sort_key) simp
  have ok: "validate_register r = None"
    and r': "r' = r\<lparr>rg_schema_id := register_schema_id, rg_schema_version := schema_version,
      rg_contracts := sort_key gc_id (rg_contracts r)\<rparr>"
    using assms(1) by (auto simp: normalize_register_def srt split: option.splits)
  have valid: "validate_register r = None \<longleftrightarrow> rg_schema_id r = register_schema_id \<and>
      rg_schema_version r \<in> {[], schema_version} \<and>
      list_all (\<lambda>c. \<not> contract_malformed c \<and> valid_ref (gc_provenance c)) (rg_contracts r) \<and>
      distinct (map gc_id (rg_contracts r))" for r
    by (simp add: validate_register_def Let_def validate_contracts_None)
  have same: "set cs = set (rg_contracts r)" "distinct (map gc_id cs) = distinct (map gc_id (rg_contracts r))"
    using assms(2) by (metis set_mset_mset, metis mset_map mset_eq_imp_distinct_iff)
  have d: "distinct (map gc_id (rg_contracts r))" using ok by (simp add: valid)
  then have sorted: "sorted_wrt (<) (map gc_id (rg_contracts r'))"
    by (simp add: r' strict_sorted_iff distinct_map)
  moreover have v': "validate_register r' = None" using ok d by (simp add: valid r' distinct_map list_all_iff)
  moreover have "normalize_register r' = Inr r'"
    using v' by (simp add: normalize_register_def srt) (simp add: r' sort_key_id_if_sorted)
  moreover have "sort_key gc_id cs = sort_key gc_id (rg_contracts r)"
    using d same(1) by (intro sort_key_perm assms(2)) (simp add: distinct_map)
  moreover have "validate_register (r\<lparr>rg_contracts := cs\<rparr>) = None"
    using ok same by (simp add: valid list_all_iff)
  ultimately show ?thesis by (simp add: normalize_register_def srt r')
qed

lemma register_normal_form_witness:
  "normalize_register (demo_register\<lparr>rg_contracts := [demo_contract, demo_contract\<lparr>gc_id := ''c2''\<rparr>]\<rparr>) =
     normalize_register demo_register"
proof -
  have "normalize_register demo_register =
      Inr (demo_register\<lparr>rg_schema_version := schema_version,
        rg_contracts := [demo_contract, demo_contract\<lparr>gc_id := ''c2''\<rparr>]\<rparr>)"
    by code_simp
  from register_normal_form [OF this, of "[demo_contract, demo_contract\<lparr>gc_id := ''c2''\<rparr>]"] this
  show ?thesis by (simp add: demo_register_def)
qed

end
