(* ===== verification/Timeline.thy ===== *)
theory Timeline
  imports Packet
begin

text \<open>
  \<open>core/governance/graph.go\<close>: the mapping from packet evidence to lifecycle events, the timeline
  projection that replays them, and the graph projection of a timeline.
\<close>

section \<open>Definitions\<close>

record timeline =
  tl_contract_id :: string
  tl_events :: "event list"
  tl_state :: lstate
  tl_source_digests :: "string list"

record graph_node =
  gn_id :: string
  gn_kind :: string
  gn_digest :: string

record graph_edge =
  ge_from :: string
  ge_to :: string
  ge_kind :: string

record graph =
  gr_nodes :: "graph_node list"
  gr_edges :: "graph_edge list"
  gr_replay_state :: lstate

definition execution_kind :: "string \<Rightarrow> string" where
  "execution_kind st =
     (if st \<in> {''failed'', ''gap'', ''rejected''} then ''execution_failed''
      else if st = ''blocked'' then ''execution_blocked''
      else if st \<in> {''succeeded'', ''completed''} then ''execution_succeeded''
      else ''execution_started'')"

definition effect_kind :: "string \<Rightarrow> string" where
  "effect_kind st =
     (if st = ''recorded'' then ''effect_recorded''
      else if st \<in> {''rejected'', ''failed'', ''gap''} then ''effect_rejected''
      else if st \<in> {''unknown'', ''unresolved'', ''started'', ''requested'', []} then ''effect_unresolved''
      else ''effect_validated'')"

definition containment_kind :: "string \<Rightarrow> string" where
  "containment_kind st =
     (if st = ''partial'' then ''containment_partial''
      else if st \<in> {''requested'', ''started''} then ''containment_requested''
      else if st \<in> {''unresolved'', ''unknown'', ''gap''} then ''containment_unresolved''
      else ''contained'')"

definition compensation_kind :: "string \<Rightarrow> string" where
  "compensation_kind st =
     (if st = ''required'' then ''compensation_required''
      else if st = ''not_required'' then ''compensation_not_required''
      else if st \<in> {''failed'', ''rejected'', ''gap''} then ''compensation_failed''
      else if st \<in> {''unknown'', ''unresolved''} then ''compensation_unresolved''
      else if st \<in> {''started'', ''requested''} then ''compensation_started''
      else if st \<in> {''completed'', ''succeeded'', ''present''} then ''compensated''
      else ''compensation_unresolved'')"

definition evidence_event_kind :: "string \<Rightarrow> string \<Rightarrow> string" where
  "evidence_event_kind evidence_kind state0 =
    (let kind = to_lower (trim_space evidence_kind); st = to_lower (trim_space state0) in
     if kind = ''proposal'' then ''proposed''
     else if kind = ''approval'' then ''approved''
     else if kind \<in> {''activation'', ''policy_enforcement'', ''enforcement''} then ''activated''
     else if kind \<in> {''tool_invocation'', ''execution_started''} then ''execution_started''
     else if kind \<in> {''execution'', ''execution_failed''} then execution_kind st
     else if kind \<in> {''test_result'', ''effect_validated'', ''effect''} then effect_kind st
     else if kind \<in> {''contained'', ''containment''} then containment_kind st
     else if kind = ''compensation'' then compensation_kind st
     else [])"

definition event_of_evidence :: "evidence \<Rightarrow> event option" where
  \<comment> \<open>the loop body of \<open>EventsFromPacket\<close>; \<open>None\<close> is its \<open>continue\<close>\<close>
  "event_of_evidence e =
    (let state = attr e ''state'';
         i = (if attr e ''event_id'' \<noteq> [] then attr e ''event_id'' else ref_id (evd_ref e));
         d = (if attr e ''source_digest'' \<noteq> [] then attr e ''source_digest'' else ref_digest (evd_ref e));
         kind = evidence_event_kind (evd_kind e) state
     in if kind = [] then None
        else Some \<lparr>ev_id = i, ev_contract_ref = evd_contract_ref e, ev_kind = kind,
               ev_occurred_at = evd_occurred_at e, ev_status = state, ev_source_digest = d\<rparr>)"

definition events_from_packet :: "packet \<Rightarrow> event list" where
  "events_from_packet p = List.map_filter event_of_evidence (pk_evidence p)"

definition project_timeline :: "string \<Rightarrow> event list \<Rightarrow> (string, timeline) result" where
  "project_timeline cid events =
    (let sorted_events = go_sort event_before events;
         (state, err) = (if sorted_events \<noteq> [] \<and> valid_ref (ev_contract_ref (hd sorted_events))
                         then reduce_verified cid sorted_events else reduce_events cid sorted_events)
     in case err of
          Some e \<Rightarrow> Inl e
        | None \<Rightarrow> Inr \<lparr>tl_contract_id = cid, tl_events = sorted_events, tl_state = state,
                     tl_source_digests = st_source_digests state\<rparr>)"

definition node_before :: "graph_node \<Rightarrow> graph_node \<Rightarrow> bool" where
  "node_before a b = (if gn_kind a = gn_kind b then gn_id a < gn_id b else gn_kind a < gn_kind b)"

definition edge_before :: "graph_edge \<Rightarrow> graph_edge \<Rightarrow> bool" where
  "edge_before a b = (if ge_from a = ge_from b then ge_to a < ge_to b else ge_from a < ge_from b)"

definition project_graph :: "timeline \<Rightarrow> graph" where
  "project_graph t =
    \<lparr>gr_nodes = go_sort node_before
       (\<lparr>gn_id = tl_contract_id t, gn_kind = ''action_contract'', gn_digest = []\<rparr> #
        map (\<lambda>e. \<lparr>gn_id = ev_id e, gn_kind = ev_kind e, gn_digest = ev_source_digest e\<rparr>) (tl_events t)),
     gr_edges = go_sort edge_before
       (map (\<lambda>e. \<lparr>ge_from = tl_contract_id t, ge_to = ev_id e, ge_kind = ''has_event''\<rparr>) (tl_events t)),
     gr_replay_state = tl_state t\<rparr>"

section \<open>Properties\<close>

lemma sub_kinds_known:
  "execution_kind st \<in> set lifecycle_kinds" "effect_kind st \<in> set lifecycle_kinds"
  "containment_kind st \<in> set lifecycle_kinds" "compensation_kind st \<in> set lifecycle_kinds"
  by (simp_all add: execution_kind_def effect_kind_def containment_kind_def compensation_kind_def
      lifecycle_kinds_def)

lemma evidence_event_kind_known:
  "evidence_event_kind k st = [] \<or> evidence_event_kind k st \<in> set lifecycle_kinds"
proof -
  have "{''proposed'', ''approved'', ''activated'', ''execution_started''} \<subseteq> set lifecycle_kinds"
    by (simp add: lifecycle_kinds_def)
  then show ?thesis by (simp add: evidence_event_kind_def Let_def sub_kinds_known)
qed


definition normal_state :: "event \<Rightarrow> string" where
  "normal_state e = to_lower (trim_space (ev_status e))"

lemma sub_kind_positive:
  "execution_kind st = ''execution_succeeded'' \<longleftrightarrow> st \<in> {''succeeded'', ''completed''}"
  "effect_kind st = ''effect_validated'' \<longleftrightarrow>
     st \<notin> {''recorded'', ''rejected'', ''failed'', ''gap'', ''unknown'', ''unresolved'', ''started'', ''requested'', []}"
  "containment_kind st = ''contained'' \<longleftrightarrow>
     st \<notin> {''partial'', ''requested'', ''started'', ''unresolved'', ''unknown'', ''gap''}"
  "compensation_kind st = ''compensated'' \<longleftrightarrow> st \<in> {''completed'', ''succeeded'', ''present''}"
  by (simp_all add: execution_kind_def effect_kind_def containment_kind_def compensation_kind_def)

lemma sub_kind_ranges:
  "execution_kind st \<in> {''execution_failed'', ''execution_blocked'', ''execution_succeeded'', ''execution_started''}"
  "effect_kind st \<in> {''effect_recorded'', ''effect_rejected'', ''effect_unresolved'', ''effect_validated''}"
  "containment_kind st \<in> {''containment_partial'', ''containment_requested'', ''containment_unresolved'', ''contained''}"
  "compensation_kind st \<in> {''compensation_required'', ''compensation_not_required'', ''compensation_failed'',
     ''compensation_unresolved'', ''compensation_started'', ''compensated''}"
  by (simp_all add: execution_kind_def effect_kind_def containment_kind_def compensation_kind_def)

lemma positive_kinds:
  fixes k s :: string
  defines "st \<equiv> to_lower (trim_space s)"
  shows "evidence_event_kind k s = ''execution_succeeded'' \<Longrightarrow> st \<in> {''succeeded'', ''completed''}"
    "evidence_event_kind k s = ''compensated'' \<Longrightarrow> st \<in> {''completed'', ''succeeded'', ''present''}"
    "evidence_event_kind k s = ''effect_validated'' \<Longrightarrow>
       st \<notin> {''recorded'', ''rejected'', ''failed'', ''gap'', ''unknown'', ''unresolved'', ''started'', ''requested'', []}"
    "evidence_event_kind k s = ''contained'' \<Longrightarrow>
       st \<notin> {''partial'', ''requested'', ''started'', ''unresolved'', ''unknown'', ''gap''}"
  using sub_kind_positive [of st] sub_kind_ranges [of st]
  unfolding evidence_event_kind_def Let_def st_def [symmetric]
  by (auto split: if_splits)

text \<open>
  Packet evidence never turns into a success by default: every event derived from a packet has a
  kind the reducer knows, an \<open>execution_succeeded\<close> or \<open>compensated\<close> event comes from a state that
  says so, and a validated effect or completed containment never comes from a state that says
  failed, rejected, a gap, unknown, unresolved, started or requested.
\<close>
theorem evidence_never_upgraded:
  "list_all (\<lambda>e. ev_kind e \<in> set lifecycle_kinds \<and>
      (if ev_kind e = ''execution_succeeded'' then normal_state e \<in> {''succeeded'', ''completed''}
       else if ev_kind e = ''compensated'' then normal_state e \<in> {''completed'', ''succeeded'', ''present''}
       else if ev_kind e = ''effect_validated'' then normal_state e \<notin> {''recorded'', ''rejected'',
          ''failed'', ''gap'', ''unknown'', ''unresolved'', ''started'', ''requested'', []}
       else if ev_kind e = ''contained'' then normal_state e \<notin> {''partial'', ''requested'', ''started'',
          ''unresolved'', ''unknown'', ''gap''}
       else True)) (events_from_packet p)"
proof -
  have one: "ev_kind e \<in> set lifecycle_kinds \<and> (\<exists>k. ev_kind e = evidence_event_kind k (ev_status e))"
    if "event_of_evidence x = Some e" for x e
    using that evidence_event_kind_known [of "evd_kind x" "attr x ''state''"]
    by (auto simp: event_of_evidence_def Let_def split: if_splits)
  have "list_all (\<lambda>e. ev_kind e \<in> set lifecycle_kinds \<and> (\<exists>k. ev_kind e = evidence_event_kind k (ev_status e)))
      (events_from_packet p)"
    by (auto simp: list_all_iff events_from_packet_def map_filter_def dest: one)
  then show ?thesis
  proof (rule list.pred_mono_strong, elim conjE exE, intro conjI)
    fix e :: event and k
    assume "ev_kind e = evidence_event_kind k (ev_status e)"
    with positive_kinds [of k "ev_status e"]
    show "if ev_kind e = ''execution_succeeded'' then normal_state e \<in> {''succeeded'', ''completed''}
       else if ev_kind e = ''compensated'' then normal_state e \<in> {''completed'', ''succeeded'', ''present''}
       else if ev_kind e = ''effect_validated'' then normal_state e \<notin> {''recorded'', ''rejected'',
          ''failed'', ''gap'', ''unknown'', ''unresolved'', ''started'', ''requested'', []}
       else if ev_kind e = ''contained'' then normal_state e \<notin> {''partial'', ''requested'', ''started'',
          ''unresolved'', ''unknown'', ''gap''}
       else True" unfolding normal_state_def by presburger
  qed
qed

lemma go_sort_replay_idem:
  assumes "list_all (well_formed_event cid) es"
  shows "go_sort event_before (go_sort event_before es) = go_sort event_before es"
proof -
  have "list_all (well_formed_event cid) (go_sort event_before es)" using assms by (simp add: list_all_iff)
  then show ?thesis
    using assms by (simp add: replay_order_key sort_key_id_if_sorted)
qed

lemma reduce_checked_sorted:
  assumes "snd (reduce_checked cid (go_sort event_before es)) = None"
  shows "reduce_checked cid (go_sort event_before es) = reduce_checked cid es"
proof -
  have "list_all (well_formed_event cid) es"
    using assms by (simp add: reduce_checked_ok_iff list_all_iff)
  then show ?thesis by (simp add: reduce_checked_def go_sort_replay_idem)
qed

text \<open>
  C7: the timeline agrees with the reducer: when the projection succeeds, its state is the one
  \<open>ReduceChecked\<close> computes from the same events, its events are the given ones in replay order, and
  if the earliest event carries a complete reference then every event is bound to this contract by
  reference and digest; so one unbound event cannot ride along with bound ones.
\<close>
theorem timeline_replays_the_reducer:
  assumes "project_timeline cid es = Inr t"
  shows "reduce_checked cid es = (tl_state t, None) \<and> tl_contract_id t = cid \<and>
    tl_events t = sort_key event_key es \<and> tl_source_digests t = st_source_digests (tl_state t) \<and>
    (if tl_events t \<noteq> [] \<and> valid_ref (ev_contract_ref (hd (tl_events t)))
     then list_all (digest_bound cid) es else True)"
proof -
  let ?s = "go_sort event_before es"
  have t: "tl_events t = ?s" "tl_contract_id t = cid" "tl_source_digests t = st_source_digests (tl_state t)"
    and run: "(if ?s \<noteq> [] \<and> valid_ref (ev_contract_ref (hd ?s)) then reduce_verified cid ?s
               else reduce_events cid ?s) = (tl_state t, None)"
    using assms by (auto simp: project_timeline_def Let_def split: prod.splits option.splits if_splits)
  have ok: "reduce_checked cid ?s = (tl_state t, None)"
    and bound: "if ?s \<noteq> [] \<and> valid_ref (ev_contract_ref (hd ?s)) then list_all (digest_bound cid) ?s else True"
    using run by (auto simp: reduce_verified_def reduce_events_def list_ex_iff list_all_iff split: if_splits)
  have "list_all (well_formed_event cid) es"
    using ok reduce_checked_ok_iff [of cid ?s] by (simp add: list_all_iff)
  then have "?s = sort_key event_key es" by (rule replay_order_key)
  moreover have "list_all P ?s = list_all P es" for P by (simp add: list_all_iff)
  ultimately show ?thesis using t bound ok reduce_checked_sorted [of cid es] by (auto split: if_splits)
qed

lemma timeline_replays_the_reducer_witness:
  "\<exists>t. project_timeline ''c1'' demo_bound = Inr t \<and> tl_events t = sort_key event_key demo_bound"
proof -
  have "project_timeline ''c1'' demo_bound = Inr \<lparr>tl_contract_id = ''c1'', tl_events = rev demo_bound,
     tl_state = \<lparr>st_contract_id = ''c1'', st_status = ''active'', st_events = [''e1'', ''e2''],
       st_source_digests = [demo_digest CHR ''a'', demo_digest CHR ''b''], st_complete = False,
       st_reason_codes = []\<rparr>, tl_source_digests = [demo_digest CHR ''a'', demo_digest CHR ''b'']\<rparr>"
    by code_simp
  from timeline_replays_the_reducer [OF this] this show ?thesis by blast
qed

lemma node_before_key: "node_before a b \<longleftrightarrow> (gn_kind a, gn_id a) < (gn_kind b, gn_id b)"
  by (auto simp: node_before_def less_prod_def')

lemma edge_before_key: "edge_before a b \<longleftrightarrow> (ge_from a, ge_to a) < (ge_from b, ge_to b)"
  by (auto simp: edge_before_def less_prod_def')

text \<open>
  The graph of a timeline is a star around the contract: one node for the contract and one per
  event, one edge per event from the contract to a node of the graph, nodes ordered by kind and id,
  edges by their ends, and the replayed state unchanged.
\<close>
theorem graph_is_a_star:
  "length (gr_nodes (project_graph t)) = Suc (length (gr_edges (project_graph t))) \<and>
   mset (map ge_to (gr_edges (project_graph t))) = mset (map ev_id (tl_events t)) \<and>
   list_all (\<lambda>e. ge_from e = tl_contract_id t \<and> ge_to e \<in> gn_id ` set (gr_nodes (project_graph t)))
     (gr_edges (project_graph t)) \<and>
   sorted (map (\<lambda>n. (gn_kind n, gn_id n)) (gr_nodes (project_graph t))) \<and>
   sorted (map (\<lambda>e. (ge_from e, ge_to e)) (gr_edges (project_graph t))) \<and>
   gr_replay_state (project_graph t) = tl_state t"
proof -
  have "sorted (map (\<lambda>n. (gn_kind n, gn_id n)) (gr_nodes (project_graph t)))"
    unfolding project_graph_def graph.select_convs by (rule go_sort_sorted) (rule node_before_key)
  moreover have "sorted (map (\<lambda>e. (ge_from e, ge_to e)) (gr_edges (project_graph t)))"
    unfolding project_graph_def graph.select_convs by (rule go_sort_sorted) (rule edge_before_key)
  moreover have "mset (map ge_to (gr_edges (project_graph t))) = mset (map ev_id (tl_events t))"
    unfolding project_graph_def graph.select_convs mset_map mset_go_sort
    by (simp add: image_mset.compositionality comp_def flip: mset_map)
  ultimately show ?thesis
    by (auto simp: project_graph_def list_all_iff image_iff)
qed

end
