(* ===== verification/Gate.thy ===== *)
theory Gate
  imports Lifecycle
begin

text \<open>
  \<open>core/governance/gate.go\<close>: signed authority tokens ("gates"), their shape, signature and validity
  window, the attenuation check between a token and its parent, the chain verification and the
  binding of a token to a contract. A raw token is the result of parsing its bytes; the digest of
  a token body, key ids and signature checks are the Proof library's and therefore parameters.
\<close>

section \<open>Data\<close>

datatype json_raw = BadJson | Json gvalue

definition unmarshal_map :: "json_raw \<Rightarrow> gmap option" where
  \<comment> \<open>\<open>json.Unmarshal\<close> into a \<open>map[string]any\<close>: \<open>null\<close> is the nil map, not an error\<close>
  "unmarshal_map r =
     (case r of Json (VObj kvs) \<Rightarrow> Some (Some kvs) | Json VNil \<Rightarrow> Some None | _ \<Rightarrow> None)"

definition gate_signature :: string where "gate_signature = ''GATE_SIGNATURE_INVALID''"
definition gate_expired :: string where "gate_expired = ''GATE_TOKEN_EXPIRED''"
definition gate_authority :: string where "gate_authority = ''GATE_AUTHORITY_EXPANDED''"
definition gate_parent :: string where "gate_parent = ''GATE_PARENT_MISMATCH''"
definition gate_duplicate :: string where "gate_duplicate = ''GATE_TOKEN_DUPLICATE''"

record gate_result =
  gt_lineage :: bool
  gt_reason_codes :: "string list"
  gt_token_id :: string

record gate_gap =
  gg_token_id :: string
  gg_code :: string
  gg_severity :: string

record gate_chain_result =
  gch_lineage :: bool
  gch_tokens :: "string list"
  gch_gaps :: "gate_gap list"

definition gate_string :: "gvalue option \<Rightarrow> string" where
  \<comment> \<open>\<open>stringValueGate\<close>\<close>
  "gate_string v = str_or_empty (as_string v)"

definition parse_or_zero :: "string \<Rightarrow> instant" where
  \<comment> \<open>\<open>t, _ := time.Parse(...)\<close>: the zero time on an error\<close>
  "parse_or_zero s = (case parse_rfc3339 s of None \<Rightarrow> 0 | Some t \<Rightarrow> t)"

definition non_blank :: "gmap \<Rightarrow> string \<Rightarrow> bool" where
  "non_blank v k \<longleftrightarrow> (case as_string (mget v k) of None \<Rightarrow> False | Some s \<Rightarrow> trim_space s \<noteq> [])"

fun first_error :: "'e option list \<Rightarrow> 'e option" where
  \<comment> \<open>checks in sequence: the first that fails decides\<close>
  "first_error [] = None"
| "first_error (x # xs) = (case x of Some e \<Rightarrow> Some e | None \<Rightarrow> first_error xs)"

definition reject_unless :: "'e \<Rightarrow> bool \<Rightarrow> 'e option" where
  "reject_unless e ok = (if ok then None else Some e)"

lemma first_error_None_iff [simp]: "first_error xs = None \<longleftrightarrow> list_all (\<lambda>x. x = None) xs"
  by (induction xs) (auto split: option.splits)

lemma reject_unless_None_iff [simp]: "reject_unless e ok = None \<longleftrightarrow> ok"
  by (simp add: reject_unless_def)

section \<open>Shape\<close>

definition gate_required :: "string list" where
  "gate_required = [''schema_id'', ''schema_version'', ''producer_version'', ''token_id'', ''created_at'', ''expires_at'']"

definition scope_items_ok :: "gvalue list \<Rightarrow> bool" where
  "scope_items_ok xs \<longleftrightarrow> xs \<noteq> [] \<and>
     list_all (\<lambda>x. case x of VStr s \<Rightarrow> trim_space s \<noteq> [] | _ \<Rightarrow> False) xs"

definition gate_kind_ok :: "gmap \<Rightarrow> bool" where
  \<comment> \<open>the switch on \<open>schema_id\<close>\<close>
  "gate_kind_ok v \<longleftrightarrow>
     (if mget v ''schema_id'' = Some (VStr ''gait.gate.delegation_token'') then
        mget v ''schema_version'' = Some (VStr ''1.0.0'') \<and>
        list_all (non_blank v) [''delegator_identity'', ''delegate_identity''] \<and>
        mget v ''delegator_identity'' \<noteq> mget v ''delegate_identity''
      else if mget v ''schema_id'' = Some (VStr ''gait.gate.approval_token'') then
        mget v ''schema_version'' = Some (VStr ''1.0.0'') \<and> non_blank v ''approver_identity'' \<and>
        list_all (non_blank v) [''reason_code'', ''intent_digest'', ''policy_digest'']
      else False)"

definition validate_gate_shape :: "gmap \<Rightarrow> string option" where
  "validate_gate_shape v =
     reject_unless reason_malformed
       (list_all (non_blank v) gate_required \<and> gate_kind_ok v \<and>
        parse_rfc3339 (gate_string (mget v ''created_at'')) \<noteq> None \<and>
        parse_rfc3339 (gate_string (mget v ''expires_at'')) \<noteq> None \<and>
        (case as_arr (mget v ''scope'') of None \<Rightarrow> False | Some xs \<Rightarrow> scope_items_ok xs))"

section \<open>Attenuation\<close>

definition strings_gate :: "gvalue option \<Rightarrow> string list" where
  "strings_gate v =
     sort (List.map_filter (\<lambda>x. as_string (Some x)) (case as_arr v of None \<Rightarrow> [] | Some xs \<Rightarrow> xs))"

definition subset_gate :: "string list \<Rightarrow> string list \<Rightarrow> bool" where
  "subset_gate par child \<longleftrightarrow> list_all (\<lambda>x. x \<in> set par) child"

definition signed_digest_of :: "gobj \<Rightarrow> string" where
  "signed_digest_of sig = gate_string (map_of sig ''signed_digest'')"

definition check_parent_link :: "gmap \<Rightarrow> gmap \<Rightarrow> string option" where
  "check_parent_link par child =
    (if mget child ''parent_token_id'' = None \<and> mget child ''parent_token_digest'' \<noteq> None
     then Some gate_parent
     else case as_string (mget child ''parent_token_id'') of
       None \<Rightarrow> None
     | Some pid \<Rightarrow>
         if pid \<noteq> gate_string (mget par ''token_id'') then Some gate_parent
         else (case as_string (mget child ''parent_token_digest'') of
             None \<Rightarrow> Some gate_parent
           | Some pd \<Rightarrow>
               if pd = [] then Some gate_parent
               else (case as_obj (mget par ''signature'') of
                   None \<Rightarrow> Some gate_parent
                 | Some sig \<Rightarrow> reject_unless gate_parent (pd = ''sha256:'' @ signed_digest_of sig))))"

definition check_delegation :: "gmap \<Rightarrow> gmap \<Rightarrow> string option" where
  "check_delegation par child =
    (case as_string (mget child ''parent_token_digest'') of
       None \<Rightarrow> None
     | Some pd \<Rightarrow> first_error
         [case as_obj (mget par ''signature'') of
            None \<Rightarrow> None
          | Some sig \<Rightarrow> reject_unless gate_parent (pd = ''sha256:'' @ signed_digest_of sig),
          reject_unless gate_authority
            (non_blank child ''delegator_identity'' \<and> non_blank par ''delegate_identity'' \<and>
             mget child ''delegator_identity'' = mget par ''delegate_identity'')])"

definition check_expiry :: "gmap \<Rightarrow> gmap \<Rightarrow> string option" where
  "check_expiry par child =
    (case (as_string (mget par ''expires_at''), as_string (mget child ''expires_at'')) of
       (Some r, Some c) \<Rightarrow> reject_unless gate_authority (\<not> parse_or_zero r < parse_or_zero c)
     | _ \<Rightarrow> None)"

definition binding_keys :: "string list" where
  "binding_keys = [''contract_digest'', ''policy_digest'', ''origin_authority_digest'']"

definition check_binding :: "gmap \<Rightarrow> gmap \<Rightarrow> string \<Rightarrow> string option" where
  "check_binding par child key =
    (if mget par key = None then None
     else reject_unless gate_parent
       (non_blank par key \<and> as_string (mget child key) \<noteq> None \<and> mget child key = mget par key))"

definition scope_keys :: "string list" where
  "scope_keys = [''action_classes'', ''scope'', ''target_scope'', ''environment_scope'', ''data_classes'',
     ''network_destinations'']"

definition check_scope :: "gmap \<Rightarrow> gmap \<Rightarrow> string \<Rightarrow> string option" where
  "check_scope par child key =
     reject_unless gate_authority (subset_gate (strings_gate (mget par key)) (strings_gate (mget child key)))"

definition limit_keys :: "string list" where
  "limit_keys = [''max_operations'', ''max_targets'', ''max_descendant_depth'']"

definition check_limit :: "gmap \<Rightarrow> gmap \<Rightarrow> string \<Rightarrow> string option" where
  "check_limit par child key =
    (case mget par key of
       None \<Rightarrow> None
     | Some p \<Rightarrow> reject_unless gate_authority
         (case (as_num (Some p), as_num (mget child key)) of
            (Some r, Some c) \<Rightarrow> 0 \<le> c \<and> c \<le> r
          | _ \<Rightarrow> False))"

definition check_depth :: "gmap \<Rightarrow> gmap \<Rightarrow> string option" where
  "check_depth par child =
    (case as_num (mget par ''max_descendant_depth'') of
       None \<Rightarrow> None
     | Some root_max \<Rightarrow>
         (let root_depth = (case as_num (mget par ''depth'') of None \<Rightarrow> 0 | Some d \<Rightarrow> d)
          in reject_unless gate_authority
            (case (as_num (mget child ''max_descendant_depth''), as_num (mget child ''depth'')) of
               (Some child_max, Some child_depth) \<Rightarrow>
                 child_depth = root_depth + 1 \<and> \<not> child_depth > root_depth + root_max \<and> \<not> child_max \<ge> root_max
             | _ \<Rightarrow> False)))"

definition gate_subset :: "gmap \<Rightarrow> gmap \<Rightarrow> string option" where
  "gate_subset par child =
     first_error
       ([check_parent_link par child, check_delegation par child, check_expiry par child] @
        map (check_binding par child) binding_keys @ map (check_scope par child) scope_keys @
        map (check_limit par child) limit_keys @ [check_depth par child])"

section \<open>One token\<close>

definition drop_signature :: "gmap \<Rightarrow> gobj" where
  \<comment> \<open>the map after \<open>delete(v, "signature")\<close>\<close>
  "drop_signature v = filter (\<lambda>(k, _). k \<noteq> ''signature'') (case v of None \<Rightarrow> [] | Some kvs \<Rightarrow> kvs)"

definition gate_err :: "string \<Rightarrow> string \<Rightarrow> gate_result \<times> string option" where
  "gate_err i code = (\<lparr>gt_lineage = False, gt_reason_codes = [], gt_token_id = i\<rparr>, Some code)"

definition parent_fields_bad :: "gmap \<Rightarrow> bool" where
  "parent_fields_bad v \<longleftrightarrow>
     (mget v ''parent_token_id'' \<noteq> None \<or> mget v ''parent_token_digest'' \<noteq> None) \<and>
     \<not> (non_blank v ''parent_token_id'' \<and> non_blank v ''parent_token_digest'')"

definition signature_valid ::
  "(gobj \<Rightarrow> string option) \<Rightarrow> (string \<Rightarrow> gobj \<Rightarrow> bool option) \<Rightarrow> string \<Rightarrow> gmap \<Rightarrow> gobj \<Rightarrow> bool" where
  "signature_valid jcs verify pub v sig \<longleftrightarrow>
     jcs (drop_signature v) = Some (signed_digest_of sig) \<and> verify pub sig = Some True"

definition verify_gate_artifact ::
  "(gobj \<Rightarrow> string option) \<Rightarrow> (string \<Rightarrow> string) \<Rightarrow> (string \<Rightarrow> gobj \<Rightarrow> bool option) \<Rightarrow>
   json_raw \<Rightarrow> string \<Rightarrow> instant \<Rightarrow> gmap \<Rightarrow> gate_result \<times> string option" where
  "verify_gate_artifact jcs key_id verify raw pub now par =
    (case unmarshal_map raw of
       None \<Rightarrow> gate_err [] reason_malformed
     | Some v \<Rightarrow>
        (let i = gate_string (mget v ''token_id'');
             created = parse_or_zero (gate_string (mget v ''created_at''));
             expires = parse_or_zero (gate_string (mget v ''expires_at''));
             has_parent = mget v ''parent_token_id'' \<noteq> None \<or> mget v ''parent_token_digest'' \<noteq> None
         in case validate_gate_shape v of
              Some e \<Rightarrow> gate_err i e
            | None \<Rightarrow>
              if parent_fields_bad v then gate_err i gate_parent
              else if as_bool (mget v ''revoked'') = Some True then gate_err i gate_parent
              else case as_obj (mget v ''signature'') of
                None \<Rightarrow> gate_err [] gate_signature
              | Some sig \<Rightarrow>
                if \<not> bare_digest_ok (signed_digest_of sig) \<or> length pub \<noteq> 32 then gate_err [] gate_signature
                else if gate_string (map_of sig ''key_id'') \<noteq> key_id pub then gate_err i gate_signature
                else if \<not> signature_valid jcs verify pub v sig then gate_err [] gate_signature
                else if is_zero_time expires \<or> (\<not> is_zero_time now \<and> \<not> now < expires) then gate_err i gate_expired
                else if \<not> created < expires then gate_err i reason_malformed
                else if \<not> is_zero_time now \<and> now < created then gate_err i gate_expired
                else if par \<noteq> None then
                  (case gate_subset par (Some (drop_signature v)) of
                     Some e \<Rightarrow> gate_err i e
                   | None \<Rightarrow> (\<lparr>gt_lineage = True, gt_reason_codes = [], gt_token_id = i\<rparr>, None))
                else if has_parent then gate_err i gate_parent
                else (\<lparr>gt_lineage = True, gt_reason_codes = [], gt_token_id = i\<rparr>, None)))"

section \<open>The chain\<close>

definition parsed_of :: "json_raw \<Rightarrow> gmap" where
  "parsed_of raw = (case unmarshal_map raw of None \<Rightarrow> None | Some v \<Rightarrow> v)"

definition same_id_count :: "gmap list \<Rightarrow> string \<Rightarrow> nat" where
  "same_id_count parsed i = length (filter (\<lambda>v. v \<noteq> None \<and> gate_string (mget v ''token_id'') = i) parsed)"

definition find_parent :: "gmap list \<Rightarrow> string \<Rightarrow> gmap" where
  "find_parent parsed pid =
     (case find (\<lambda>v. v \<noteq> None \<and> mget v ''token_id'' = Some (VStr pid)) parsed of
        None \<Rightarrow> None | Some v \<Rightarrow> v)"

definition gap :: "string \<Rightarrow> string \<Rightarrow> gate_gap" where
  "gap i code = \<lparr>gg_token_id = i, gg_code = code, gg_severity = ''high''\<rparr>"

definition check_token ::
  "(gobj \<Rightarrow> string option) \<Rightarrow> (string \<Rightarrow> string) \<Rightarrow> (string \<Rightarrow> gobj \<Rightarrow> bool option) \<Rightarrow>
   gmap list \<Rightarrow> string \<Rightarrow> instant \<Rightarrow> json_raw \<Rightarrow> gate_gap + string" where
  \<comment> \<open>the body of the second loop for a token that parsed\<close>
  "check_token jcs key_id verify parsed pub now raw =
    (let v = parsed_of raw; i = gate_string (mget v ''token_id'');
         verified = (\<lambda>parent.
           case verify_gate_artifact jcs key_id verify raw pub now parent of
             (r, Some e) \<Rightarrow> Inl (gap (gt_token_id r) e)
           | (r, None) \<Rightarrow> Inr (gt_token_id r))
     in if same_id_count parsed i > 1 then Inl (gap i gate_duplicate)
        else case as_string (mget v ''parent_token_id'') of
          None \<Rightarrow> verified None
        | Some pid \<Rightarrow>
            (case find_parent parsed pid of
               None \<Rightarrow> Inl (gap i gate_parent)
             | Some p \<Rightarrow> verified (Some p)))"

definition gap_before :: "gate_gap \<Rightarrow> gate_gap \<Rightarrow> bool" where
  "gap_before a b =
     (if gg_token_id a \<noteq> gg_token_id b then gg_token_id a < gg_token_id b else gg_code a < gg_code b)"

definition malformed_gaps :: "json_raw list \<Rightarrow> gate_gap list" where
  "malformed_gaps raws = map (\<lambda>_. gap [] reason_malformed) (filter (\<lambda>r. unmarshal_map r = None) raws)"

definition verify_gate_chain ::
  "(gobj \<Rightarrow> string option) \<Rightarrow> (string \<Rightarrow> string) \<Rightarrow> (string \<Rightarrow> gobj \<Rightarrow> bool option) \<Rightarrow>
   json_raw list \<Rightarrow> string \<Rightarrow> instant \<Rightarrow> gate_chain_result" where
  "verify_gate_chain jcs key_id verify raws pub now =
    (let parsed = map parsed_of raws;
         checks = map (check_token jcs key_id verify parsed pub now) (filter (\<lambda>r. parsed_of r \<noteq> None) raws);
         gaps = malformed_gaps raws @ List.map_filter (case_sum Some (\<lambda>_. None)) checks
     in \<lparr>gch_lineage = (raws \<noteq> [] \<and> gaps = []),
         gch_tokens = sort (List.map_filter (case_sum (\<lambda>_. None) Some) checks),
         gch_gaps = go_sort gap_before gaps\<rparr>)"

section \<open>Binding to a contract\<close>

definition normalize_gate_digest :: "string \<Rightarrow> string" where
  "normalize_gate_digest s = trim_prefix (trim_space s) ''sha256:''"

definition optional_field :: "gmap \<Rightarrow> string \<Rightarrow> (gvalue \<Rightarrow> bool) \<Rightarrow> bool" where
  \<comment> \<open>an absent or null field passes\<close>
  "optional_field v k ok \<longleftrightarrow> (case mget v k of None \<Rightarrow> True | Some VNil \<Rightarrow> True | Some x \<Rightarrow> ok x)"

definition validate_gate_contract_binding ::
  "gmap \<Rightarrow> string \<Rightarrow> string \<Rightarrow> int \<Rightarrow> string \<Rightarrow> instant \<Rightarrow> string option" where
  "validate_gate_contract_binding v cid family revision cdigest lifecycle_at =
    (let created = parse_rfc3339 (gate_string (mget v ''created_at''));
         expires = parse_rfc3339 (gate_string (mget v ''expires_at''))
     in first_error
      [reject_unless ''gate contract lineage mismatch''
         (optional_field v ''contract_id''
            (\<lambda>x. case x of VStr s \<Rightarrow> trim_space s = [] \<or> s = cid | _ \<Rightarrow> False)),
       reject_unless ''gate contract family lineage mismatch''
         (optional_field v ''contract_family_id''
            (\<lambda>x. case x of VStr s \<Rightarrow> trim_space s = [] \<or> s = family | _ \<Rightarrow> False)),
       reject_unless ''gate contract revision lineage mismatch''
         (optional_field v ''contract_revision'' (\<lambda>x. case x of VNum n \<Rightarrow> n = of_int revision | _ \<Rightarrow> False)),
       reject_unless ''gate contract digest lineage mismatch''
         (optional_field v ''contract_digest''
            (\<lambda>x. case x of VStr s \<Rightarrow> trim_space s \<noteq> [] \<and> normalize_gate_digest s = normalize_gate_digest cdigest
                 | _ \<Rightarrow> False)),
       reject_unless reason_malformed (created \<noteq> None),
       reject_unless reason_malformed (expires \<noteq> None \<and> the created < the expires),
       reject_unless gate_expired
         (is_zero_time lifecycle_at \<or> (the created \<le> lifecycle_at \<and> lifecycle_at < the expires))])"

declare first_error.simps [simp del]

section \<open>What the chain verdict accounts for\<close>

lemma length_map_filter_sum:
  "length (List.map_filter (case_sum Some (\<lambda>_. None)) xs) +
   length (List.map_filter (case_sum (\<lambda>_. None) Some) xs) = length xs"
  by (induction xs) (auto simp: map_filter_simps split: sum.splits)

lemma map_filter_Nil_iff: "List.map_filter f xs = [] \<longleftrightarrow> list_all (\<lambda>x. f x = None) xs"
  by (induction xs) (auto simp: map_filter_simps split: option.splits)

lemma unmarshal_null [simp]: "unmarshal_map (Json VNil) = Some None" "parsed_of (Json VNil) = None"
  by (simp_all add: unmarshal_map_def parsed_of_def)

lemma parsed_split:
  "length (filter (\<lambda>r. unmarshal_map r = None) raws) + length (filter (\<lambda>r. parsed_of r \<noteq> None) raws) =
     length (filter (\<lambda>r. r \<noteq> Json VNil) raws)"
proof -
  have "unmarshal_map r = None \<and> parsed_of r = None \<and> r \<noteq> Json VNil \<or>
        unmarshal_map r \<noteq> None \<and> parsed_of r \<noteq> None \<and> r \<noteq> Json VNil \<or>
        unmarshal_map r \<noteq> None \<and> parsed_of r = None \<and> r = Json VNil" for r
    by (auto simp: parsed_of_def unmarshal_map_def split: json_raw.splits gvalue.splits)
  note cases = this
  show ?thesis
  proof (induction raws)
    case (Cons r rs)
    then show ?case using cases [of r] by (elim disjE) simp_all
  qed simp
qed

lemma gate_gaps_Nil_iff:
  "gch_gaps (verify_gate_chain jcs key_id verify raws pub now) = [] \<longleftrightarrow>
     list_all (\<lambda>r. unmarshal_map r \<noteq> None) raws \<and>
     list_all (\<lambda>r. parsed_of r = None \<or>
       (\<exists>t. check_token jcs key_id verify (map parsed_of raws) pub now r = Inr t)) raws"
  by (auto simp: verify_gate_chain_def Let_def malformed_gaps_def map_filter_Nil_iff list_all_iff filter_empty_conv
      split: sum.splits) (metis sum.exhaust)

text \<open>
  The chain verdict accounts for every token: each raw token other than \<open>null\<close> becomes exactly
  one verified token or one gap, and the lineage holds exactly when there was a token and no gap.
\<close>
theorem chain_accounts_for_every_token:
  "let r = verify_gate_chain jcs key_id verify raws pub now
   in length (gch_tokens r) + length (gch_gaps r) = length (filter (\<lambda>x. x \<noteq> Json VNil) raws) \<and>
      (gch_lineage r \<longleftrightarrow> raws \<noteq> [] \<and> gch_gaps r = []) \<and> sorted (gch_tokens r)"
  using parsed_split [of raws]
    length_map_filter_sum [of "map (check_token jcs key_id verify (map parsed_of raws) pub now)
      (filter (\<lambda>r. parsed_of r \<noteq> None) raws)"]
  by (auto simp: verify_gate_chain_def Let_def malformed_gaps_def)

text \<open>
  A chain made of nothing but JSON \<open>null\<close> is reported as a valid authority lineage, with no token
  verified and no gap recorded, whatever the key and the time.
\<close>
theorem null_chain_grants_lineage:
  "verify_gate_chain jcs key_id verify (replicate (Suc n) (Json VNil)) pub now =
     \<lparr>gch_lineage = True, gch_tokens = [], gch_gaps = []\<rparr>"
proof -
  have "filter (\<lambda>r. unmarshal_map r = None) (replicate m (Json VNil)) = []"
    "filter (\<lambda>r. parsed_of r \<noteq> None) (replicate m (Json VNil)) = []" for m
    by simp_all
  then show ?thesis
    unfolding verify_gate_chain_def Let_def malformed_gaps_def by (simp only: list.map map_filter_simps) simp
qed

section \<open>What one accepted token satisfies\<close>

lemma mget_drop_signature: "k \<noteq> ''signature'' \<Longrightarrow> mget (Some (drop_signature v)) k = mget v k"
proof -
  assume k: "k \<noteq> ''signature''"
  have "map_of (filter (\<lambda>(k, _). k \<noteq> ''signature'') kvs) k = map_of kvs k" for kvs :: gobj
    using k by (induction kvs) auto
  then show ?thesis by (cases v) (simp_all add: drop_signature_def)
qed

lemma map_of_drop_signature: "k \<noteq> ''signature'' \<Longrightarrow> map_of (drop_signature v) k = mget v k"
  using mget_drop_signature [of k v] by simp

lemma as_num_VNum [simp]: "as_num (Some (VNum r)) = Some r" "as_num None = None"
  by (simp_all add: as_num_def)

definition token_fresh :: "gmap \<Rightarrow> instant \<Rightarrow> bool" where
  "token_fresh v now \<longleftrightarrow>
     (let created = parse_or_zero (gate_string (mget v ''created_at''));
          expires = parse_or_zero (gate_string (mget v ''expires_at''))
      in \<not> is_zero_time expires \<and> created < expires \<and> (is_zero_time now \<or> created \<le> now \<and> now < expires))"

definition token_authentic ::
  "(gobj \<Rightarrow> string option) \<Rightarrow> (string \<Rightarrow> string) \<Rightarrow> (string \<Rightarrow> gobj \<Rightarrow> bool option) \<Rightarrow> string \<Rightarrow> gmap \<Rightarrow> bool" where
  "token_authentic jcs key_id verify pub v \<longleftrightarrow>
     (case as_obj (mget v ''signature'') of None \<Rightarrow> False
      | Some sig \<Rightarrow> bare_digest_ok (signed_digest_of sig) \<and> length pub = 32 \<and>
          gate_string (map_of sig ''key_id'') = key_id pub \<and> signature_valid jcs verify pub v sig)"

lemma token_authentic_iff:
  "token_authentic jcs key_id verify pub v \<longleftrightarrow>
     (\<exists>sig. as_obj (mget v ''signature'') = Some sig \<and> bare_digest_ok (signed_digest_of sig) \<and>
        length pub = 32 \<and> gate_string (map_of sig ''key_id'') = key_id pub \<and>
        signature_valid jcs verify pub v sig)"
  by (cases "as_obj (mget v ''signature'')") (simp_all add: token_authentic_def del: as_obj_Some_iff)

lemma gate_err_None [simp]: "snd (gate_err i e) \<noteq> None"
  by (simp add: gate_err_def)

lemma gate_guard:
  "snd (if c then gate_err i e else r) = None \<longleftrightarrow> \<not> c \<and> snd r = None"
  "snd (case x of Some e \<Rightarrow> gate_err i e | None \<Rightarrow> r) = None \<longleftrightarrow> x = None \<and> snd r = None"
  "snd (case y of None \<Rightarrow> gate_err i e | Some z \<Rightarrow> f z) = None \<longleftrightarrow> (\<exists>z. y = Some z \<and> snd (f z) = None)"
  by (auto split: option.split)

lemma verify_gate_artifact_None_iff:
  "snd (verify_gate_artifact jcs key_id verify raw pub now par) = None \<longleftrightarrow>
     (\<exists>v. unmarshal_map raw = Some v \<and> validate_gate_shape v = None \<and> \<not> parent_fields_bad v \<and>
        as_bool (mget v ''revoked'') \<noteq> Some True \<and> token_authentic jcs key_id verify pub v \<and>
        token_fresh v now \<and>
        (if par = None then mget v ''parent_token_id'' = None \<and> mget v ''parent_token_digest'' = None
         else gate_subset par (Some (drop_signature v)) = None))"
proof -
  have final: "snd (if par \<noteq> None
      then (case gate_subset par c of Some e \<Rightarrow> gate_err i e | None \<Rightarrow> (r, None))
      else if hp then gate_err i e' else (r, None)) = None \<longleftrightarrow>
      (if par = None then \<not> hp else gate_subset par c = None)" for c i r hp e'
    by (auto split: option.split)
  show ?thesis
  proof (cases "unmarshal_map raw")
    case None
    then show ?thesis by (simp add: verify_gate_artifact_def)
  next
    case (Some v)
    show ?thesis
    proof (cases "as_obj (mget v ''signature'')")
      case None
      then show ?thesis
        by (simp add: verify_gate_artifact_def Let_def gate_guard Some token_authentic_def)
    next
      case sig: (Some sig)
      show ?thesis
        unfolding verify_gate_artifact_def Let_def gate_guard final token_authentic_iff token_fresh_def
          not_less [symmetric] Some sig option.case option.inject ex_simps simp_thms de_Morgan_disj
          de_Morgan_conj not_not
        by iprover
    qed
  qed
qed

section \<open>Delegation along a chain\<close>

definition delegated :: "gmap list \<Rightarrow> gmap \<Rightarrow> gmap \<Rightarrow> bool" where
  "delegated parsed p c \<longleftrightarrow>
     (\<exists>pid. mget c ''parent_token_id'' = Some (VStr pid) \<and> find_parent parsed pid = p)"

inductive delegation :: "gmap list \<Rightarrow> gmap \<Rightarrow> nat \<Rightarrow> gmap \<Rightarrow> bool" for parsed p where
  delegation_self: "p \<in> set parsed \<Longrightarrow> p \<noteq> None \<Longrightarrow> delegation parsed p 0 p"
| delegation_step: "delegation parsed p n q \<Longrightarrow> c \<in> set parsed \<Longrightarrow> c \<noteq> None \<Longrightarrow> delegated parsed q c \<Longrightarrow>
    delegation parsed p (Suc n) c"

definition attenuated :: "gmap \<Rightarrow> gmap \<Rightarrow> bool" where
  "attenuated p c \<longleftrightarrow>
     list_all (\<lambda>k. set (strings_gate (mget c k)) \<subseteq> set (strings_gate (mget p k))) scope_keys \<and>
     list_all (\<lambda>k. mget p k = None \<or> mget c k = mget p k) binding_keys \<and>
     list_all (\<lambda>k. case as_num (mget p k) of None \<Rightarrow> True
       | Some r \<Rightarrow> (case as_num (mget c k) of None \<Rightarrow> False | Some x \<Rightarrow> x \<le> r)) limit_keys \<and>
     parse_or_zero (gate_string (mget c ''expires_at'')) \<le> parse_or_zero (gate_string (mget p ''expires_at''))"

lemma attenuated_refl: "attenuated p p"
  by (auto simp: attenuated_def list_all_iff split: option.split)

lemma attenuated_trans:
  assumes "attenuated p q" and "attenuated q c"
  shows "attenuated p c"
proof -
  have "set (strings_gate (mget c k)) \<subseteq> set (strings_gate (mget p k))" if "k \<in> set scope_keys" for k
    using assms that by (fastforce simp: attenuated_def list_all_iff)
  moreover have "mget p k = None \<or> mget c k = mget p k" if "k \<in> set binding_keys" for k
    using assms that by (fastforce simp: attenuated_def list_all_iff)
  moreover have "case as_num (mget p k) of None \<Rightarrow> True
       | Some r \<Rightarrow> (case as_num (mget c k) of None \<Rightarrow> False | Some x \<Rightarrow> x \<le> r)" if "k \<in> set limit_keys" for k
  proof -
    from assms that have "case as_num (mget p k) of None \<Rightarrow> True
       | Some r \<Rightarrow> (case as_num (mget q k) of None \<Rightarrow> False | Some x \<Rightarrow> x \<le> r)"
      and "case as_num (mget q k) of None \<Rightarrow> True
       | Some r \<Rightarrow> (case as_num (mget c k) of None \<Rightarrow> False | Some x \<Rightarrow> x \<le> r)"
      by (simp_all add: attenuated_def list_all_iff)
    then show ?thesis by (auto split: option.splits)
  qed
  ultimately show ?thesis
    using assms by (simp add: attenuated_def list_all_iff)
qed

lemma shape_expires:
  "validate_gate_shape v = None \<Longrightarrow> \<exists>s. mget v ''expires_at'' = Some (VStr s)"
  by (auto simp: validate_gate_shape_def gate_required_def non_blank_def split: option.splits)

lemma subset_attenuated:
  assumes "gate_subset p (Some (drop_signature c)) = None"
    and "validate_gate_shape p = None" and "validate_gate_shape c = None"
  shows "attenuated p c \<and> check_depth p c = None \<and>
    list_all (\<lambda>k. check_limit p c k = None) limit_keys"
proof -
  let ?c = "Some (drop_signature c)"
  have keys: "k \<in> set scope_keys \<union> set binding_keys \<union> set limit_keys \<Longrightarrow> mget ?c k = mget c k" for k
    by (rule mget_drop_signature) (auto simp: scope_keys_def binding_keys_def limit_keys_def)
  have all: "check_expiry p ?c = None" "list_all (\<lambda>k. check_binding p ?c k = None) binding_keys"
    "list_all (\<lambda>k. check_scope p ?c k = None) scope_keys"
    "list_all (\<lambda>k. check_limit p ?c k = None) limit_keys" "check_depth p ?c = None"
    using assms(1) by (simp_all add: gate_subset_def list_all_iff)
  have "check_limit p ?c k = check_limit p c k" if "k \<in> set limit_keys" for k
    unfolding check_limit_def using that by (subst keys) simp_all
  then have limits: "list_all (\<lambda>k. check_limit p c k = None) limit_keys"
    using all(4) by (simp add: list_all_iff)
  have "list_all (\<lambda>k. set (strings_gate (mget c k)) \<subseteq> set (strings_gate (mget p k))) scope_keys"
    using all(3) keys by (auto simp: list_all_iff check_scope_def subset_gate_def)
  moreover have "list_all (\<lambda>k. mget p k = None \<or> mget c k = mget p k) binding_keys"
    using all(2) keys by (auto simp: list_all_iff check_binding_def split: if_splits)
  moreover have "list_all (\<lambda>k. case as_num (mget p k) of None \<Rightarrow> True
       | Some r \<Rightarrow> (case as_num (mget c k) of None \<Rightarrow> False | Some x \<Rightarrow> x \<le> r)) limit_keys"
    using limits by (fastforce simp: list_all_iff check_limit_def split: option.splits)
  moreover have "parse_or_zero (gate_string (mget c ''expires_at'')) \<le>
      parse_or_zero (gate_string (mget p ''expires_at''))"
    using all(1) shape_expires [OF assms(2)] shape_expires [OF assms(3)]
    by (auto simp: check_expiry_def map_of_drop_signature gate_string_def)
  moreover have "check_depth p c = None"
  proof -
    have "mget ?c ''max_descendant_depth'' = mget c ''max_descendant_depth''" "mget ?c ''depth'' = mget c ''depth''"
      by (rule mget_drop_signature; simp)+
    then show ?thesis using all(5) by (simp only: check_depth_def)
  qed
  ultimately show ?thesis using limits by (simp add: attenuated_def)
qed

lemma check_token_Inr:
  assumes "check_token jcs key_id verify parsed pub now raw = Inr t"
  shows "validate_gate_shape (parsed_of raw) = None \<and> token_fresh (parsed_of raw) now \<and>
    token_authentic jcs key_id verify pub (parsed_of raw) \<and>
    as_bool (mget (parsed_of raw) ''revoked'') \<noteq> Some True \<and>
    same_id_count parsed (gate_string (mget (parsed_of raw) ''token_id'')) \<le> 1 \<and>
    (\<forall>p. delegated parsed p (parsed_of raw) \<longrightarrow>
       p \<noteq> None \<and> gate_subset p (Some (drop_signature (parsed_of raw))) = None)"
proof -
  let ?v = "parsed_of raw"
  obtain par where ok: "snd (verify_gate_artifact jcs key_id verify raw pub now par) = None"
    and par: "par = (case as_string (mget ?v ''parent_token_id'') of None \<Rightarrow> None | Some pid \<Rightarrow> find_parent parsed pid)"
    and found: "as_string (mget ?v ''parent_token_id'') = None \<or> par \<noteq> None"
    and count: "same_id_count parsed (gate_string (mget ?v ''token_id'')) \<le> 1"
    using assms
    by (auto simp: check_token_def Let_def split: if_splits option.splits prod.splits
        simp del: as_string_Some_iff)
  from ok obtain v where v: "unmarshal_map raw = Some v" "validate_gate_shape v = None"
    "as_bool (mget v ''revoked'') \<noteq> Some True" "token_authentic jcs key_id verify pub v" "token_fresh v now"
    "if par = None then mget v ''parent_token_id'' = None \<and> mget v ''parent_token_digest'' = None
     else gate_subset par (Some (drop_signature v)) = None"
    unfolding verify_gate_artifact_None_iff by auto
  then have pv: "?v = v" by (simp add: parsed_of_def)
  have "p \<noteq> None \<and> gate_subset p (Some (drop_signature ?v)) = None" if "delegated parsed p ?v" for p
    using that v(6) found par by (auto simp: delegated_def pv)
  with v count show ?thesis by (simp add: pv)
qed

lemma lineage_token:
  assumes "gch_lineage (verify_gate_chain jcs key_id verify raws pub now)"
    and "v \<in> set (map parsed_of raws)" and "v \<noteq> None"
  shows "validate_gate_shape v = None \<and> token_fresh v now \<and>
    token_authentic jcs key_id verify pub v \<and> as_bool (mget v ''revoked'') \<noteq> Some True \<and>
    same_id_count (map parsed_of raws) (gate_string (mget v ''token_id'')) \<le> 1 \<and>
    (\<forall>p. delegated (map parsed_of raws) p v \<longrightarrow>
       p \<noteq> None \<and> gate_subset p (Some (drop_signature v)) = None)"
proof -
  have gaps: "gch_gaps (verify_gate_chain jcs key_id verify raws pub now) = []"
    using assms(1) by (auto simp: verify_gate_chain_def Let_def)
  obtain raw where raw: "raw \<in> set raws" "v = parsed_of raw" using assms(2) by auto
  then obtain t where "check_token jcs key_id verify (map parsed_of raws) pub now raw = Inr t"
    using gaps assms(3) unfolding gate_gaps_Nil_iff by (auto simp: list_all_iff)
  from check_token_Inr [OF this] raw show ?thesis by simp
qed

lemma chain_step:
  assumes "gch_lineage (verify_gate_chain jcs key_id verify raws pub now)"
    and "delegation (map parsed_of raws) p n q" and "c \<in> set (map parsed_of raws)" and "c \<noteq> None"
    and "delegated (map parsed_of raws) q c"
  shows "attenuated q c \<and> check_depth q c = None \<and> list_all (\<lambda>k. check_limit q c k = None) limit_keys"
proof -
  have "q \<in> set (map parsed_of raws)" "q \<noteq> None"
    using assms(2) by (cases rule: delegation.cases; simp)+
  note q = lineage_token [OF assms(1) this]
  note c = lineage_token [OF assms(1,3,4)]
  show ?thesis
  proof (rule subset_attenuated)
    show "gate_subset q (Some (drop_signature c)) = None" using c assms(5) by blast
    show "validate_gate_shape q = None" using q by blast
    show "validate_gate_shape c = None" using c by blast
  qed
qed

definition whole_budgets :: "gmap list \<Rightarrow> bool" where
  "whole_budgets vs \<longleftrightarrow> list_all (\<lambda>v. case as_num (mget v ''max_descendant_depth'') of None \<Rightarrow> True
     | Some r \<Rightarrow> r = of_int \<lfloor>r\<rfloor>) vs"

lemma whole_budget:
  assumes "whole_budgets vs" and "v \<in> set vs" and "mget v ''max_descendant_depth'' = Some (VNum r)"
  shows "of_int \<lfloor>r\<rfloor> = r"
proof -
  have "case as_num (mget v ''max_descendant_depth'') of None \<Rightarrow> True | Some r \<Rightarrow> r = of_int \<lfloor>r\<rfloor>"
    using assms(1,2) unfolding whole_budgets_def list_all_iff by (rule bspec)
  then show ?thesis unfolding assms(3) as_num_VNum option.case by (rule sym)
qed

lemma budget_spent:
  assumes "gch_lineage (verify_gate_chain jcs key_id verify raws pub now)"
    and "whole_budgets (map parsed_of raws)"
    and "mget p ''max_descendant_depth'' = Some (VNum r)"
    and "delegation (map parsed_of raws) p n c"
  shows "\<exists>x. mget c ''max_descendant_depth'' = Some (VNum x) \<and> x + of_nat n \<le> r \<and> (n = 0 \<or> 0 \<le> x)"
  using assms(4)
proof induction
  case delegation_self
  then show ?case using assms(3) by simp
next
  case (delegation_step n q c)
  then obtain x where x: "mget q ''max_descendant_depth'' = Some (VNum x)" "x + of_nat n \<le> r" by blast
  have step: "check_depth q c = None" "check_limit q c ''max_descendant_depth'' = None"
    using chain_step [OF assms(1) delegation_step(1-4)] by (simp_all add: limit_keys_def)
  then obtain y where y: "mget c ''max_descendant_depth'' = Some (VNum y)" "y < x" "0 \<le> y"
    using x(1) by (auto simp: check_depth_def check_limit_def Let_def split: option.splits)
  have q: "q \<in> set (map parsed_of raws)"
    using delegation_step(1) by (cases rule: delegation.cases) auto
  have "\<lfloor>y\<rfloor> < \<lfloor>x\<rfloor>"
    using y(2) whole_budget [OF assms(2) q x(1)] whole_budget [OF assms(2) delegation_step(2) y(1)]
    by (metis of_int_less_iff)
  then have "of_int (\<lfloor>y\<rfloor> + 1) \<le> (of_int \<lfloor>x\<rfloor> :: rat)" by (subst of_int_le_iff) simp
  then have "y + 1 \<le> x"
    using whole_budget [OF assms(2) q x(1)] whole_budget [OF assms(2) delegation_step(2) y(1)] by simp
  with x(2) y show ?case by auto
qed

definition demo_gate :: "string \<Rightarrow> string \<Rightarrow> string \<Rightarrow> rat \<Rightarrow> rat \<Rightarrow> gobj" where
  "demo_gate i delegator delegate depth budget =
     [(''schema_id'', VStr ''gait.gate.delegation_token''), (''schema_version'', VStr ''1.0.0''),
      (''producer_version'', VStr ''1''), (''token_id'', VStr i),
      (''created_at'', VStr ''2026-01-01T00:00:00Z''), (''expires_at'', VStr ''2026-02-01T00:00:00Z''),
      (''delegator_identity'', VStr delegator), (''delegate_identity'', VStr delegate),
      (''scope'', VArr [VStr ''deploy'']), (''depth'', VNum depth), (''max_descendant_depth'', VNum budget),
      (''signature'', VObj [(''key_id'', VStr ''k''), (''signed_digest'', VStr (replicate 64 CHR ''0''))])]"

definition demo_root_gate :: gobj where "demo_root_gate = demo_gate ''t1'' ''a'' ''b'' 0 1"

definition demo_child_gate :: gobj where
  "demo_child_gate = [(''parent_token_id'', VStr ''t1''),
     (''parent_token_digest'', VStr (''sha256:'' @ replicate 64 CHR ''0''))] @ demo_gate ''t2'' ''b'' ''c'' 1 0"

definition demo_chain :: "json_raw list" where
  "demo_chain = [Json (VObj demo_child_gate), Json (VObj demo_root_gate)]"

definition demo_gate_jcs :: "gobj \<Rightarrow> string option" where "demo_gate_jcs v = Some (replicate 64 CHR ''0'')"

definition demo_gate_verify :: "string \<Rightarrow> gobj \<Rightarrow> bool option" where "demo_gate_verify pub sig = Some True"

lemma demo_chain_lineage:
  "gch_lineage (verify_gate_chain demo_gate_jcs (\<lambda>_. ''k'') demo_gate_verify demo_chain (replicate 32 CHR ''p'') 0)"
  by code_simp

lemma demo_chain_delegation:
  "delegation (map parsed_of demo_chain) (Some demo_root_gate) (Suc 0) (Some demo_child_gate)"
proof (rule delegation_step [OF delegation_self])
  have "find_parent (map parsed_of demo_chain) ''t1'' = Some demo_root_gate"
    by code_simp
  moreover have "mget (Some demo_child_gate) ''parent_token_id'' = Some (VStr ''t1'')"
    by (simp add: demo_child_gate_def)
  ultimately show "delegated (map parsed_of demo_chain) (Some demo_root_gate) (Some demo_child_gate)"
    unfolding delegated_def by blast
qed (simp_all add: demo_chain_def parsed_of_def unmarshal_map_def)

text \<open>
  C4: authority only shrinks: in a chain with a valid lineage every token is authentic, unexpired at the
  time of the check and not revoked, and along every delegation path the descendant stays within
  the scopes and numeric limits of its ancestor, carries its policy, contract and origin digests
  unchanged, and does not outlive it.
\<close>
theorem chain_attenuates_authority:
  assumes "gch_lineage (verify_gate_chain jcs key_id verify raws pub now)"
    and "delegation (map parsed_of raws) p n c"
  shows "attenuated p c \<and> token_fresh c now \<and> token_authentic jcs key_id verify pub c \<and>
    as_bool (mget c ''revoked'') \<noteq> Some True"
proof -
  have "attenuated p c"
    using assms(2)
  proof induction
    case delegation_self
    then show ?case by (simp add: attenuated_refl)
  next
    case (delegation_step n q c)
    with chain_step [OF assms(1) delegation_step(1-4)] show ?case by (blast intro: attenuated_trans)
  qed
  moreover have "c \<in> set (map parsed_of raws)" "c \<noteq> None"
    using assms(2) by (cases rule: delegation.cases; simp)+
  ultimately show ?thesis using lineage_token [OF assms(1)] by blast
qed

lemma chain_attenuates_authority_witness: "attenuated (Some demo_root_gate) (Some demo_child_gate)"
  using chain_attenuates_authority [OF demo_chain_lineage demo_chain_delegation] by simp

text \<open>
  The delegation budget: when the budgets of the chain are whole numbers, a token whose
  \<open>max_descendant_depth\<close> is \<open>r\<close> has no descendant more than \<open>r\<close> delegations away.
\<close>
theorem delegation_within_budget:
  assumes "gch_lineage (verify_gate_chain jcs key_id verify raws pub now)"
    and "whole_budgets (map parsed_of raws)"
    and "mget p ''max_descendant_depth'' = Some (VNum r)"
    and "delegation (map parsed_of raws) p (Suc n) c"
  shows "of_nat (Suc n) \<le> r"
  using budget_spent [OF assms] by auto

lemma delegation_within_budget_witness: "of_nat (Suc 0) \<le> (1 :: rat)"
proof (rule delegation_within_budget [OF demo_chain_lineage _ _ demo_chain_delegation])
  show "whole_budgets (map parsed_of demo_chain)"
    by (simp add: whole_budgets_def demo_chain_def parsed_of_def unmarshal_map_def demo_child_gate_def
        demo_root_gate_def demo_gate_def)
  show "mget (Some demo_root_gate) ''max_descendant_depth'' = Some (VNum 1)"
    by (simp add: demo_root_gate_def demo_gate_def)
qed

text \<open>With fractional budgets the depth checks admit paths of any length from a budget of 3/2.\<close>

definition fractional_token :: "nat \<Rightarrow> gmap" where
  "fractional_token i = Some [(''max_descendant_depth'', VNum (1 + 1 / of_nat (i + 2))), (''depth'', VNum (of_nat i))]"

lemma fractional_budget_never_spent:
  "check_depth (fractional_token i) (fractional_token (Suc i)) = None \<and>
   list_all (\<lambda>k. check_limit (fractional_token i) (fractional_token (Suc i)) k = None) limit_keys"
proof -
  have "1 / (of_nat i + 3 :: rat) < 1 / (of_nat i + 2)" by (intro divide_strict_left_mono) auto
  then show ?thesis
    by (simp add: check_depth_def check_limit_def limit_keys_def fractional_token_def Let_def add.commute)
qed

section \<open>Binding to a contract\<close>

lemma optional_field_string:
  "optional_field v k ok \<Longrightarrow> mget v k = Some (VStr s) \<Longrightarrow> ok (VStr s)"
  by (simp add: optional_field_def)

text \<open>
  A token accepted for a contract names no other contract, family, revision or content digest, and
  the lifecycle event lies in its validity window.
\<close>

lemma bound_gate_names_contract:
  assumes "validate_gate_contract_binding v cid family revision cdigest t = None" and "t \<noteq> 0"
  shows "(mget v ''contract_id'' = Some (VStr s) \<longrightarrow> trim_space s = [] \<or> s = cid) \<and>
    (mget v ''contract_family_id'' = Some (VStr f) \<longrightarrow> trim_space f = [] \<or> f = family) \<and>
    (mget v ''contract_revision'' = Some (VNum n) \<longrightarrow> n = of_int revision) \<and>
    (mget v ''contract_digest'' = Some (VStr d) \<longrightarrow> normalize_gate_digest d = normalize_gate_digest cdigest) \<and>
    the (parse_rfc3339 (gate_string (mget v ''created_at''))) \<le> t \<and>
    t < the (parse_rfc3339 (gate_string (mget v ''expires_at'')))"
  using assms
  by (auto simp: validate_gate_contract_binding_def Let_def optional_field_def is_zero_time_def)

end
