(* ===== verification/Store.thy ===== *)
theory Store
  imports GoValue
begin

text \<open>
  \<open>core/store\<close>: the append-only evidence store. Its state is three files (chain, dedupe index,
  signing key) that are read in full and replaced atomically; every system call of a replacement
  can fail, and the faults a run meets are an explicit list. The Proof library (chain building,
  signing, schema validation, canonical digests) is the record \<open>proof_lib\<close>.
  \<open>core/record/canonicalize.go\<close> and the sink decision of \<open>core/policy/sink\<close> are here too.
\<close>

section \<open>Files and atomic replacement\<close>

datatype 'a go_file = Missing | Unreadable | Corrupt | Content 'a

datatype fs_fault = MkdirFails | TempFails | WriteFails | SyncFails | CloseFails | RenameFails | DirSyncFails

definition write_json_atomic ::
  "bool \<Rightarrow> bool \<Rightarrow> fs_fault option \<Rightarrow> 'a \<Rightarrow> 'a go_file \<Rightarrow> 'a go_file \<times> string option" where
  \<comment> \<open>\<open>WriteJSONAtomic\<close>; \<open>ignorable\<close> is \<open>shouldIgnoreWindowsDirSyncError\<close>\<close>
  "write_json_atomic ignorable fsync fault x f =
    (case fault of
       None \<Rightarrow> (Content x, None)
     | Some MkdirFails \<Rightarrow> (f, Some ''create parent directory'')
     | Some TempFails \<Rightarrow> (f, Some ''create temp file'')
     | Some WriteFails \<Rightarrow> (f, Some ''write temp file'')
     | Some SyncFails \<Rightarrow> if fsync then (f, Some ''sync temp file'') else (Content x, None)
     | Some CloseFails \<Rightarrow> (f, Some ''close temp file'')
     | Some RenameFails \<Rightarrow> (f, Some ''rename temp file'')
     | Some DirSyncFails \<Rightarrow>
         if fsync \<and> \<not> ignorable then (Content x, Some ''sync directory'') else (Content x, None))"

lemma write_json_atomic_old_or_new:
  "fst (write_json_atomic ign fs fault x f) \<in> {f, Content x}"
  by (simp add: write_json_atomic_def split: option.split fs_fault.split)

lemma write_json_atomic_ok:
  "snd (write_json_atomic ign fs fault x f) = None \<Longrightarrow> fst (write_json_atomic ign fs fault x f) = Content x"
  by (auto simp: write_json_atomic_def split: option.splits fs_fault.splits if_splits)

lemma write_json_atomic_no_fault [simp]: "write_json_atomic ign fs None x f = (Content x, None)"
  by (simp add: write_json_atomic_def)

section \<open>The dedupe index\<close>

record dedupe_entry =
  de_expires_at :: instant
  de_last_seen :: instant

type_synonym dedupe_entries = "(string \<times> dedupe_entry) list"

record dedupe_index =
  ix_entries :: dedupe_entries
  ix_ttl :: duration
  ix_max_size :: int

definition new_index :: "duration \<Rightarrow> int \<Rightarrow> dedupe_index" where
  "new_index ttl max_size = \<lparr>ix_entries = [],
     ix_ttl = (if ttl \<le> 0 then 24 * hour_ns else ttl),
     ix_max_size = (if max_size \<le> 0 then 10000 else max_size)\<rparr>"

definition live :: "instant \<Rightarrow> dedupe_entry \<Rightarrow> bool" where
  \<comment> \<open>\<open>entry.ExpiresAt.After(now)\<close>\<close>
  "live now e \<longleftrightarrow> de_expires_at e > now"

definition index_purge :: "instant \<Rightarrow> dedupe_index \<Rightarrow> dedupe_index" where
  "index_purge now ix = ix\<lparr>ix_entries := filter (\<lambda>(k, e). live now e) (ix_entries ix)\<rparr>"

definition index_seen :: "string \<Rightarrow> instant \<Rightarrow> dedupe_index \<Rightarrow> bool \<times> dedupe_index" where
  "index_seen key now ix =
    (let ix1 = index_purge now ix in
     case map_of (ix_entries ix1) key of
       None \<Rightarrow> (False, ix1)
     | Some e \<Rightarrow>
         if \<not> live now e then (False, ix1\<lparr>ix_entries := AList.delete key (ix_entries ix1)\<rparr>)
         else (True, ix1\<lparr>ix_entries := AList.update key (e\<lparr>de_last_seen := now\<rparr>) (ix_entries ix1)\<rparr>))"

fun evict :: "int \<Rightarrow> string list \<Rightarrow> dedupe_entries \<Rightarrow> dedupe_entries" where
  "evict max_size [] es = es"
| "evict max_size (k # ks) es =
     (if int (length es) > max_size then evict max_size ks (AList.delete k es) else es)"

definition index_mark :: "string \<Rightarrow> instant \<Rightarrow> dedupe_index \<Rightarrow> dedupe_index" where
  "index_mark key now ix =
    (let entry = \<lparr>de_expires_at = now + ix_ttl ix, de_last_seen = now\<rparr>;
         ix1 = index_purge now (ix\<lparr>ix_entries := AList.update key entry (ix_entries ix)\<rparr>);
         oldest = map fst (go_sort (\<lambda>a b. de_last_seen (snd a) < de_last_seen (snd b)) (ix_entries ix1))
     in if int (length (ix_entries ix1)) \<le> ix_max_size ix1 then ix1
        else ix1\<lparr>ix_entries := evict (ix_max_size ix1) oldest (ix_entries ix1)\<rparr>)"

section \<open>Chains, keys and the library\<close>

record chain =
  ch_id :: string
  ch_records :: "proof_record list"
  ch_head_hash :: string

record signing_key =
  sk_id :: string
  sk_public :: string
  sk_private :: string

record proof_lib =
  pl_sign :: "signing_key \<Rightarrow> proof_record \<Rightarrow> proof_record option"
  pl_validate :: "proof_record \<Rightarrow> bool"
  pl_append :: "chain \<Rightarrow> proof_record \<Rightarrow> chain option"
  pl_event_digest :: "gmap \<Rightarrow> string option"      \<comment> \<open>hex SHA-256 of the canonical event\<close>

definition build_key :: "proof_lib \<Rightarrow> string \<Rightarrow> string \<Rightarrow> gmap \<Rightarrow> string option" where
  "build_key lib source_product rtype event =
     map_option (\<lambda>h. join ''|'' [trim_space source_product, trim_space rtype, ''sha256:'' @ h])
       (pl_event_digest lib event)"

definition record_dedupe_key :: "proof_lib \<Rightarrow> proof_record \<Rightarrow> string option" where
  "record_dedupe_key lib r = build_key lib (pr_source_product r) (pr_record_type r) (pr_event r)"

definition chain_has_key :: "proof_lib \<Rightarrow> chain \<Rightarrow> string \<Rightarrow> bool" where
  "chain_has_key lib c key \<longleftrightarrow> list_ex (\<lambda>r. record_dedupe_key lib r = Some key) (ch_records c)"

definition new_chain :: "string \<Rightarrow> chain" where
  \<comment> \<open>\<open>proof.NewChain\<close>: no records and no head\<close>
  "new_chain i = \<lparr>ch_id = i, ch_records = [], ch_head_hash = []\<rparr>"

definition canonicalize_optional_map :: "gmap \<Rightarrow> gmap" where
  "canonicalize_optional_map m = (if m = Some [] then None else m)"

definition canonicalize_event_and_metadata :: "gmap \<Rightarrow> gmap \<Rightarrow> gmap \<times> gmap" where
  "canonicalize_event_and_metadata event metadata =
     ((if event = None then Some [] else event), canonicalize_optional_map metadata)"

definition canonicalize_proof_record :: "proof_record \<Rightarrow> proof_record" where
  \<comment> \<open>the copies of the maps are the maps themselves here\<close>
  "canonicalize_proof_record r = r\<lparr>pr_metadata := canonicalize_optional_map (pr_metadata r)\<rparr>"

section \<open>The store\<close>

record config =
  cfg_root_dir :: string
  cfg_chain_id :: string
  cfg_compliance_mode :: bool
  cfg_dedupe_ttl :: duration
  cfg_dedupe_max :: int

record store =
  so_cfg :: config
  so_read_only :: bool
  so_ignore_dir_sync :: bool

record disk =
  dk_chain :: "chain go_file"
  dk_dedupe :: "dedupe_entries option go_file"    \<comment> \<open>\<open>Content None\<close>: a file whose entries are null\<close>
  dk_key :: "signing_key go_file"
  dk_faults :: "fs_fault option list"

record append_result =
  ar_appended :: bool
  ar_deduped :: bool
  ar_head_hash :: string
  ar_record_count :: nat
  ar_record_id :: string

datatype store_error =
    RecordNil
  | StoreReadOnly
  | RecordIdRequired
  | ValidationFailed string
  | ReadFailed string
  | DecodeFailed string
  | SignFailed
  | ChainAppendFailed
  | PersistFailed string string
  | CallbackFailed string
  | DedupedMissing

definition normalize_config :: "config \<Rightarrow> config" where
  "normalize_config cfg =
     cfg\<lparr>cfg_root_dir := (if cfg_root_dir cfg = [] then ''.axym'' else cfg_root_dir cfg),
         cfg_chain_id := (if cfg_chain_id cfg = [] then ''axym-local'' else cfg_chain_id cfg),
         cfg_dedupe_ttl := (if cfg_dedupe_ttl cfg \<le> 0 then 24 * hour_ns else cfg_dedupe_ttl cfg),
         cfg_dedupe_max := (if cfg_dedupe_max cfg \<le> 0 then 10000 else cfg_dedupe_max cfg)\<rparr>"

definition next_fault :: "disk \<Rightarrow> fs_fault option \<times> disk" where
  "next_fault d = (case dk_faults d of [] \<Rightarrow> (None, d) | f # fs \<Rightarrow> (f, d\<lparr>dk_faults := fs\<rparr>))"

definition load_file :: "string \<Rightarrow> 'a \<Rightarrow> 'a go_file \<Rightarrow> (store_error, 'a) result" where
  "load_file what absent f =
     (case f of Missing \<Rightarrow> Inr absent | Unreadable \<Rightarrow> Inl (ReadFailed what)
      | Corrupt \<Rightarrow> Inl (DecodeFailed what) | Content x \<Rightarrow> Inr x)"

definition load_chain :: "store \<Rightarrow> disk \<Rightarrow> (store_error, chain) result" where
  "load_chain st d = load_file ''chain'' (new_chain (cfg_chain_id (so_cfg st))) (dk_chain d)"

definition load_dedupe_index :: "store \<Rightarrow> disk \<Rightarrow> (store_error, dedupe_index) result" where
  "load_dedupe_index st d =
     bind_result (load_file ''dedupe index'' None (dk_dedupe d))
       (\<lambda>entries. let ix = new_index (cfg_dedupe_ttl (so_cfg st)) (cfg_dedupe_max (so_cfg st))
          in Inr (case entries of None \<Rightarrow> ix | Some es \<Rightarrow> ix\<lparr>ix_entries := es\<rparr>))"

definition load_signing_key :: "disk \<Rightarrow> (store_error, signing_key) result" where
  "load_signing_key d =
     (case dk_key d of Content k \<Rightarrow> Inr k | Corrupt \<Rightarrow> Inl (DecodeFailed ''signing key'')
      | _ \<Rightarrow> Inl (ReadFailed ''signing key''))"

definition persist_chain :: "store \<Rightarrow> chain \<Rightarrow> disk \<Rightarrow> disk \<times> store_error option" where
  "persist_chain st c d =
    (let (fault, d1) = next_fault d;
         (f, err) = write_json_atomic (so_ignore_dir_sync st) (cfg_compliance_mode (so_cfg st)) fault c (dk_chain d1)
     in (d1\<lparr>dk_chain := f\<rparr>, map_option (PersistFailed ''chain'') err))"

definition persist_dedupe_index :: "store \<Rightarrow> dedupe_entries \<Rightarrow> disk \<Rightarrow> disk \<times> store_error option" where
  "persist_dedupe_index st es d =
    (let (fault, d1) = next_fault d;
         (f, err) = write_json_atomic (so_ignore_dir_sync st) (cfg_compliance_mode (so_cfg st)) fault (Some es) (dk_dedupe d1)
     in (d1\<lparr>dk_dedupe := f\<rparr>, map_option (PersistFailed ''dedupe index'') err))"

definition ensure_signing_key :: "signing_key option \<Rightarrow> store \<Rightarrow> disk \<Rightarrow> disk \<times> store_error option" where
  \<comment> \<open>\<open>generated\<close> is what \<open>proof.GenerateSigningKey\<close> returns, \<open>None\<close> on an error\<close>
  "ensure_signing_key generated st d =
    (case load_signing_key d of
       Inr _ \<Rightarrow> (d, None)
     | Inl _ \<Rightarrow> (case generated of
           None \<Rightarrow> (d, Some SignFailed)
         | Some k \<Rightarrow>
            (let (fault, d1) = next_fault d;
                 (f, err) = write_json_atomic (so_ignore_dir_sync st) (cfg_compliance_mode (so_cfg st)) fault k (dk_key d1)
             in (d1\<lparr>dk_key := f\<rparr>, map_option (PersistFailed ''signing key'') err))))"

definition open_store ::
  "signing_key option \<Rightarrow> bool \<Rightarrow> config \<Rightarrow> bool \<Rightarrow> disk \<Rightarrow> disk \<times> (store_error, store) result" where
  "open_store generated ignore_dir_sync cfg read_only d =
    (let st = \<lparr>so_cfg = normalize_config cfg, so_read_only = read_only, so_ignore_dir_sync = ignore_dir_sync\<rparr>
     in if read_only then (d, Inr st)
        else (case ensure_signing_key generated st d of
                (d1, Some e) \<Rightarrow> (d1, Inl e)
              | (d1, None) \<Rightarrow> (d1, Inr st)))"

definition meta_value :: "gmap \<Rightarrow> string \<Rightarrow> string" where
  \<comment> \<open>\<open>stringValue\<close>\<close>
  "meta_value m k = map_string m k"

definition is_gait_lifecycle :: "proof_record \<Rightarrow> bool" where
  "is_gait_lifecycle r \<longleftrightarrow> pr_source_product r = ''gait'' \<and> pr_metadata r \<noteq> None \<and>
     meta_value (pr_metadata r) ''evidence_kind'' = ''gait_lifecycle''"

type_synonym callback = "(proof_record \<Rightarrow> string option) option"

definition link_record :: "chain \<Rightarrow> proof_record \<Rightarrow> proof_record" where
  "link_record c r = (canonicalize_proof_record r)\<lparr>pr_previous_hash := ch_head_hash c, pr_record_hash := [],
     pr_signature := [], pr_signing_key_id := []\<rparr>"

definition deduped_result :: "chain \<Rightarrow> proof_record \<Rightarrow> append_result" where
  "deduped_result c r = \<lparr>ar_appended = False, ar_deduped = True, ar_head_hash = ch_head_hash c,
     ar_record_count = length (ch_records c), ar_record_id = pr_record_id r\<rparr>"

definition dedupe_hit :: "chain \<Rightarrow> proof_record \<Rightarrow> callback \<Rightarrow> (store_error, append_result) result" where
  \<comment> \<open>the branch for a key already seen\<close>
  "dedupe_hit c r cb =
    (case cb of
       None \<Rightarrow> Inr (deduped_result c r)
     | Some f \<Rightarrow>
        (case find (\<lambda>x. pr_record_id x = pr_record_id r) (ch_records c) of
           None \<Rightarrow> Inl DedupedMissing
         | Some x \<Rightarrow> (case f x of Some e \<Rightarrow> Inl (CallbackFailed e) | None \<Rightarrow> Inr (deduped_result c r))))"

definition rollback :: "store \<Rightarrow> chain \<Rightarrow> dedupe_entries \<Rightarrow> disk \<Rightarrow> disk" where
  "rollback st c es d = fst (persist_dedupe_index st es (fst (persist_chain st c d)))"

definition commit ::
  "store \<Rightarrow> chain \<Rightarrow> dedupe_index \<Rightarrow> chain \<Rightarrow> proof_record \<Rightarrow> string \<Rightarrow> instant \<Rightarrow> callback \<Rightarrow> disk \<Rightarrow>
   disk \<times> (store_error, append_result) result" where
  \<comment> \<open>from \<open>idx.Mark\<close> to the end: \<open>c\<close>, \<open>ix\<close> the loaded state, \<open>c'\<close> the chain with \<open>linked\<close> appended\<close>
  "commit st c ix c' linked key now cb d =
    (let ix' = (if key \<noteq> [] then index_mark key now ix else ix);
         (d1, e1) = persist_chain st c' d
     in case e1 of
          Some e \<Rightarrow> (d1, Inl e)
        | None \<Rightarrow>
          (let (d2, e2) = persist_dedupe_index st (ix_entries ix') d1
           in case e2 of
                Some e \<Rightarrow> (rollback st c (ix_entries ix) d2, Inl e)
              | None \<Rightarrow>
                (case (case cb of None \<Rightarrow> None | Some f \<Rightarrow> f linked) of
                   Some e \<Rightarrow> (rollback st c (ix_entries ix) d2, Inl (CallbackFailed e))
                 | None \<Rightarrow> (d2, Inr \<lparr>ar_appended = True, ar_deduped = False, ar_head_hash = ch_head_hash c',
                     ar_record_count = length (ch_records c'), ar_record_id = pr_record_id linked\<rparr>))))"

definition append_locked ::
  "proof_lib \<Rightarrow> store \<Rightarrow> instant \<Rightarrow> proof_record \<Rightarrow> string \<Rightarrow> callback \<Rightarrow> disk \<Rightarrow>
   disk \<times> (store_error, append_result) result" where
  \<comment> \<open>\<open>append\<close> under the mutex\<close>
  "append_locked lib st clock r key cb d =
    (let now = truncate_second clock in
     case load_chain st d of
       Inl e \<Rightarrow> (d, Inl e)
     | Inr c \<Rightarrow>
      (case load_dedupe_index st d of
         Inl e \<Rightarrow> (d, Inl e)
       | Inr ix0 \<Rightarrow>
        (let (seen, ix) = (if key \<noteq> [] then index_seen key now ix0 else (False, ix0)) in
         if key \<noteq> [] \<and> (seen \<or> chain_has_key lib c key) then (d, dedupe_hit c r cb)
         else
          (case load_signing_key d of
             Inl e \<Rightarrow> (d, Inl e)
           | Inr sk \<Rightarrow>
            (case pl_sign lib sk (link_record c r) of
               None \<Rightarrow> (d, Inl SignFailed)
             | Some linked \<Rightarrow>
                if \<not> pl_validate lib linked then (d, Inl (ValidationFailed ''record schema validation failed''))
                else (case pl_append lib c linked of
                    None \<Rightarrow> (d, Inl ChainAppendFailed)
                  | Some c' \<Rightarrow> commit st c ix c' linked key now cb d))))))"

definition append_record ::
  "proof_lib \<Rightarrow> store \<Rightarrow> instant \<Rightarrow> proof_record option \<Rightarrow> string \<Rightarrow> bool \<Rightarrow> callback \<Rightarrow> disk \<Rightarrow>
   disk \<times> (store_error, append_result) result" where
  "append_record lib st clock rec key allow_gait cb d =
    (case rec of
       None \<Rightarrow> (d, Inl RecordNil)
     | Some r \<Rightarrow>
        if so_read_only st then (d, Inl StoreReadOnly)
        else if trim_space (pr_record_id r) = [] then (d, Inl RecordIdRequired)
        else if is_gait_lifecycle r \<and> \<not> allow_gait
        then (d, Inl (ValidationFailed ''verified Gait lifecycle records must use the Gait ingest append boundary''))
        else append_locked lib st clock r key cb d)"

definition append_public ::
  "proof_lib \<Rightarrow> store \<Rightarrow> instant \<Rightarrow> proof_record option \<Rightarrow> string \<Rightarrow> disk \<Rightarrow>
   disk \<times> (store_error, append_result) result" where
  \<comment> \<open>\<open>Append\<close>\<close>
  "append_public lib st clock rec key d =
     (if (case rec of None \<Rightarrow> False | Some r \<Rightarrow> is_gait_lifecycle r)
      then (d, Inl (ValidationFailed ''verified Gait lifecycle records must use the Gait ingest append boundary''))
      else append_record lib st clock rec key False None d)"

section \<open>The dedupe index stays within its bound\<close>

lemma length_delete_distinct:
  assumes "distinct (map fst es)" and "k \<in> set (map fst es)"
  shows "length (AList.delete k es) < length es"
  using assms by (induction es) (auto simp: AList.delete_eq le_imp_less_Suc)

lemma evict_bound:
  assumes "set (map fst es) \<subseteq> set ks" and "distinct ks" and "0 \<le> max_size"
  shows "int (length (evict max_size ks es)) \<le> max_size"
  using assms
proof (induction ks arbitrary: es)
  case Nil
  then show ?case by simp
next
  case (Cons k ks)
  have "set (map fst (AList.delete k es)) \<subseteq> set ks"
    using Cons.prems(1) by (auto simp: AList.delete_eq)
  with Cons show ?case by auto
qed

lemma evict_subset: "set (evict m ks es) \<subseteq> set es"
proof (induction m ks es rule: evict.induct)
  case (2 m k ks es)
  then show ?case by (auto simp: AList.delete_eq)
qed simp

text \<open>
  C13: the dedupe index never outgrows its configured size: after \<open>Mark\<close> it holds at most
  \<open>MaxSize\<close> entries, all of them unexpired, and nothing is in it that was not there before, the
  marked key apart.
\<close>
theorem index_mark_bounded:
  assumes "distinct (map fst (ix_entries ix))" and "0 \<le> ix_max_size ix"
  shows "int (length (ix_entries (index_mark key now ix))) \<le> ix_max_size ix \<and>
    list_all (\<lambda>(k, e). live now e) (ix_entries (index_mark key now ix)) \<and>
    fst ` set (ix_entries (index_mark key now ix)) \<subseteq> insert key (fst ` set (ix_entries ix))"
proof -
  define marked where "marked = AList.update key \<lparr>de_expires_at = now + ix_ttl ix, de_last_seen = now\<rparr> (ix_entries ix)"
  define kept where "kept = filter (\<lambda>(k, e). live now e) marked"
  define oldest where "oldest = map fst (go_sort (\<lambda>a b. de_last_seen (snd a) < de_last_seen (snd b)) kept)"
  have entries: "ix_entries (index_mark key now ix) =
      (if int (length kept) \<le> ix_max_size ix then kept else evict (ix_max_size ix) oldest kept)"
    by (simp add: index_mark_def index_purge_def Let_def kept_def marked_def oldest_def)
  have "distinct (map fst marked)" using assms(1) by (simp add: marked_def distinct_update)
  then have "distinct (map fst kept)" by (auto simp: kept_def distinct_map intro: inj_on_subset)
  moreover have "mset oldest = mset (map fst kept)" by (simp add: oldest_def)
  ultimately have "distinct oldest" by (metis mset_eq_imp_distinct_iff)
  moreover have "set (map fst kept) \<subseteq> set oldest" by (auto simp: oldest_def)
  ultimately have size: "int (length (ix_entries (index_mark key now ix))) \<le> ix_max_size ix"
    using evict_bound assms(2) by (simp add: entries)
  have sub: "set (ix_entries (index_mark key now ix)) \<subseteq> set kept"
    using evict_subset by (auto simp: entries)
  have "fst ` set marked = insert key (fst ` set (ix_entries ix))"
    by (simp add: marked_def AList.dom_update [unfolded dom_map_of_conv_image_fst])
  moreover have "set kept \<subseteq> set marked" by (auto simp: kept_def)
  ultimately have "fst ` set (ix_entries (index_mark key now ix)) \<subseteq> insert key (fst ` set (ix_entries ix))"
    using sub by (metis image_mono order_trans)
  moreover have "list_all (\<lambda>(k, e). live now e) (ix_entries (index_mark key now ix))"
    using sub by (auto simp: kept_def list_all_iff)
  ultimately show ?thesis using size by simp
qed

definition demo_index :: dedupe_index where
  "demo_index = \<lparr>ix_entries = [(''a'', \<lparr>de_expires_at = 50, de_last_seen = 1\<rparr>),
     (''b'', \<lparr>de_expires_at = 60, de_last_seen = 2\<rparr>)], ix_ttl = 100, ix_max_size = 2\<rparr>"

lemma index_mark_bounded_witness: "int (length (ix_entries (index_mark ''c'' 10 demo_index))) \<le> 2"
  using index_mark_bounded [of demo_index "''c''" 10] by (simp add: demo_index_def)

section \<open>Chain invariant\<close>

definition lib_laws :: "proof_lib \<Rightarrow> bool" where
  \<comment> \<open>documented behaviour of the Proof library: signing fills in the integrity fields only, and
    appending checks the link and puts the record at the end\<close>
  "lib_laws lib \<longleftrightarrow>
     (\<forall>k r s. pl_sign lib k r = Some s \<longrightarrow>
        (\<exists>h g i. s = r\<lparr>pr_record_hash := h, pr_signature := g, pr_signing_key_id := i\<rparr>)) \<and>
     (\<forall>c r c'. pl_append lib c r = Some c' \<longrightarrow> pr_previous_hash r = ch_head_hash c \<and>
        c' = c\<lparr>ch_records := ch_records c @ [r], ch_head_hash := pr_record_hash r\<rparr>)"

fun hash_linked :: "string \<Rightarrow> proof_record list \<Rightarrow> bool" where
  "hash_linked h [] = True"
| "hash_linked h (r # rs) \<longleftrightarrow> pr_previous_hash r = h \<and> hash_linked (pr_record_hash r) rs"

fun head_of :: "string \<Rightarrow> proof_record list \<Rightarrow> string" where
  "head_of h [] = h"
| "head_of h (r # rs) = head_of (pr_record_hash r) rs"

lemma hash_linked_append:
  "hash_linked h (rs @ [r]) \<longleftrightarrow> hash_linked h rs \<and> pr_previous_hash r = head_of h rs"
  by (induction rs arbitrary: h) auto

lemma head_of_append [simp]: "head_of h (rs @ [r]) = pr_record_hash r"
  by (induction rs arbitrary: h) auto

definition chain_keys :: "proof_lib \<Rightarrow> chain \<Rightarrow> string list" where
  "chain_keys lib c = List.map_filter (record_dedupe_key lib) (ch_records c)"

definition chain_ok :: "proof_lib \<Rightarrow> chain \<Rightarrow> bool" where
  "chain_ok lib c \<longleftrightarrow> distinct (chain_keys lib c) \<and> hash_linked [] (ch_records c) \<and>
     ch_head_hash c = head_of [] (ch_records c)"

lemma chain_ok_new [simp]: "chain_ok lib (new_chain i)"
  by (simp add: chain_ok_def chain_keys_def new_chain_def map_filter_simps)

lemma chain_has_key_iff: "chain_has_key lib c key \<longleftrightarrow> key \<in> set (chain_keys lib c)"
  unfolding chain_has_key_def chain_keys_def list_ex_iff map_filter_def by force

lemma map_filter_append: "List.map_filter f (xs @ ys) = List.map_filter f xs @ List.map_filter f ys"
  by (simp add: map_filter_def)

definition extends :: "proof_lib \<Rightarrow> chain \<Rightarrow> string \<Rightarrow> chain \<Rightarrow> bool" where
  \<comment> \<open>one more record, under the given key, linked to the old head\<close>
  "extends lib c key c' \<longleftrightarrow>
     (\<exists>r. c' = c\<lparr>ch_records := ch_records c @ [r], ch_head_hash := pr_record_hash r\<rparr> \<and>
        pr_previous_hash r = ch_head_hash c \<and> record_dedupe_key lib r = Some key)"

lemma extends_ok:
  "chain_ok lib c \<Longrightarrow> extends lib c key c' \<Longrightarrow> \<not> chain_has_key lib c key \<Longrightarrow> chain_ok lib c'"
  by (auto simp: chain_ok_def extends_def chain_keys_def hash_linked_append map_filter_append
      map_filter_simps chain_has_key_iff)

lemma link_extends:
  assumes "lib_laws lib" and "record_dedupe_key lib r = Some key"
    and "pl_sign lib sk (link_record c r) = Some linked" and "pl_append lib c linked = Some c'"
  shows "extends lib c key c'"
proof -
  obtain h g i where l: "linked = (link_record c r)\<lparr>pr_record_hash := h, pr_signature := g, pr_signing_key_id := i\<rparr>"
    using assms(1,3) unfolding lib_laws_def by blast
  moreover have "pr_previous_hash linked = ch_head_hash c \<and>
      c' = c\<lparr>ch_records := ch_records c @ [linked], ch_head_hash := pr_record_hash linked\<rparr>"
    using assms(1,4) unfolding lib_laws_def by blast
  moreover have "record_dedupe_key lib linked = Some key"
    using assms(2) by (simp add: l record_dedupe_key_def link_record_def canonicalize_proof_record_def)
  ultimately show ?thesis unfolding extends_def by blast
qed

section \<open>What an append does to the disk\<close>

lemma next_fault_frame [record_facts]:
  "dk_chain (snd (next_fault d)) = dk_chain d" "dk_dedupe (snd (next_fault d)) = dk_dedupe d"
  "dk_key (snd (next_fault d)) = dk_key d"
  by (simp_all add: next_fault_def split: list.split)

lemma persist_chain_frame:
  "dk_chain (fst (persist_chain st c d)) \<in> {dk_chain d, Content c}"
  "dk_dedupe (fst (persist_chain st c d)) = dk_dedupe d" "dk_key (fst (persist_chain st c d)) = dk_key d"
  "snd (persist_chain st c d) = None \<Longrightarrow> dk_chain (fst (persist_chain st c d)) = Content c"
  unfolding persist_chain_def Let_def case_prod_beta
  using write_json_atomic_old_or_new [where x = c and f = "dk_chain d"] write_json_atomic_ok [where x = c]
  by (simp_all add: record_facts)

lemma persist_dedupe_frame:
  "dk_chain (fst (persist_dedupe_index st es d)) = dk_chain d"
  "dk_key (fst (persist_dedupe_index st es d)) = dk_key d"
  by (simp_all add: persist_dedupe_index_def Let_def case_prod_beta record_facts)

lemma rollback_frame:
  "dk_chain (rollback st c es d) \<in> {dk_chain d, Content c}" "dk_key (rollback st c es d) = dk_key d"
  using persist_chain_frame(1,3) [of st c d] by (simp_all add: rollback_def persist_dedupe_frame)

lemma commit_frame:
  assumes "commit st c ix c' linked key now cb d = (d', res)"
  shows "dk_key d' = dk_key d \<and> dk_chain d' \<in> {dk_chain d, Content c, Content c'} \<and>
    (\<forall>a. res = Inr a \<longrightarrow> dk_chain d' = Content c' \<and> ar_appended a \<and> \<not> ar_deduped a)"
proof -
  obtain d1 e1 where 1: "persist_chain st c' d = (d1, e1)" by fastforce
  obtain d2 e2 where 2: "persist_dedupe_index st (ix_entries (if key \<noteq> [] then index_mark key now ix else ix)) d1 = (d2, e2)"
    by fastforce
  have f1: "dk_chain d1 \<in> {dk_chain d, Content c'}" "dk_key d1 = dk_key d" "e1 = None \<Longrightarrow> dk_chain d1 = Content c'"
    using persist_chain_frame [of st c' d] 1 by auto
  have f2: "dk_chain d2 = dk_chain d1" "dk_key d2 = dk_key d1"
    using persist_dedupe_frame [of st _ d1] 2 by (metis fst_conv)+
  have rb: "dk_chain (rollback st c (ix_entries ix) d2) \<in> {dk_chain d2, Content c}"
    "dk_key (rollback st c (ix_entries ix) d2) = dk_key d2"
    by (rule rollback_frame)+
  show ?thesis
  proof (cases e1)
    case (Some e)
    with assms 1 f1 show ?thesis by (auto simp: commit_def Let_def)
  next
    case None
    then have c1: "dk_chain d1 = Content c'" using f1 by simp
    show ?thesis
    proof (cases e2)
      case (Some e)
      with assms 1 2 None c1 f1 f2 rb show ?thesis by (auto simp: commit_def Let_def)
    next
      case e2: None
      with assms 1 2 None c1 f1 f2 rb show ?thesis
        by (auto simp: commit_def Let_def split: option.splits)
    qed
  qed
qed

lemma build_key_nonempty: "build_key lib p t e = Some key \<Longrightarrow> key \<noteq> []"
  by (auto simp: build_key_def)

text \<open>The three ways an append can leave the chain file: as it was, restored, or extended by one record.\<close>

lemma append_locked_frame:
  assumes "lib_laws lib" and "record_dedupe_key lib r = Some key"
    and "append_locked lib st clock r key cb d = (d', res)"
  shows "dk_key d' = dk_key d \<and>
    (d' = d \<and> (\<forall>a. res = Inr a \<longrightarrow> ar_deduped a \<and> \<not> ar_appended a) \<or>
     (\<exists>c c'. load_chain st d = Inr c \<and> \<not> chain_has_key lib c key \<and> extends lib c key c' \<and>
        dk_chain d' \<in> {dk_chain d, Content c, Content c'} \<and>
        (\<forall>a. res = Inr a \<longrightarrow> dk_chain d' = Content c' \<and> ar_appended a \<and> \<not> ar_deduped a)))"
proof -
  have key: "key \<noteq> []"
    using assms(2) unfolding record_dedupe_key_def by (rule build_key_nonempty)
  show ?thesis
  proof (cases "load_chain st d")
    case (Inl e)
    with assms(3) show ?thesis by (auto simp: append_locked_def Let_def)
  next
    case c: (Inr c)
    show ?thesis
    proof (cases "load_dedupe_index st d")
      case (Inl e)
      with assms(3) c show ?thesis by (auto simp: append_locked_def Let_def)
    next
      case i: (Inr ix0)
      obtain seen ix where s: "index_seen key (truncate_second clock) ix0 = (seen, ix)" by fastforce
      show ?thesis
      proof (cases "seen \<or> chain_has_key lib c key")
        case True
        with assms(3) c i s key have "d' = d" "res = dedupe_hit c r cb"
          by (auto simp: append_locked_def Let_def)
        then show ?thesis by (auto simp: dedupe_hit_def deduped_result_def split: option.splits)
      next
        case False
        show ?thesis
        proof (cases "\<exists>sk linked c'. load_signing_key d = Inr sk \<and> pl_sign lib sk (link_record c r) = Some linked \<and>
            pl_validate lib linked \<and> pl_append lib c linked = Some c'")
          case True
          then obtain sk linked c' where *: "load_signing_key d = Inr sk" "pl_sign lib sk (link_record c r) = Some linked"
            "pl_validate lib linked" "pl_append lib c linked = Some c'" by blast
          with assms(3) c i s key False have "commit st c ix c' linked key (truncate_second clock) cb d = (d', res)"
            by (auto simp: append_locked_def Let_def)
          from commit_frame [OF this] show ?thesis
            using c False link_extends [OF assms(1,2) *(2,4)] by blast
        next
          case none: False
          with assms(3) c i s key False show ?thesis
            by (auto simp: append_locked_def Let_def split: sum.splits option.splits if_splits)
        qed
      qed
    qed
  qed
qed

end
