(* ===== verification/Receipt.thy ===== *)
theory Receipt
  imports Store
begin

text \<open>
  \<open>core/store/lifecycle_receipt.go\<close> and the verified append boundary of \<open>store.go\<close>: the signed
  receipt that lets a translated Gait lifecycle aggregate into the chain, and the runs of the store
  under both append boundaries. Canonical digests, key ids and signatures are the record
  \<open>receipt_lib\<close>.
\<close>

section \<open>Receipts\<close>

record receipt =
  rc_schema_id :: string
  rc_schema_version :: string
  rc_receipt_id :: string
  rc_record_id :: string
  rc_content_digest :: string
  rc_source_artifact_digest :: string
  rc_evidence_set_id :: string
  rc_producer_version :: string
  rc_source_commit :: string
  rc_issued_at :: string
  rc_signer_key_id :: string
  rc_signature :: signature

record receipt_lib =
  rl_record_digest :: "proof_record \<Rightarrow> string option"    \<comment> \<open>\<open>json.Marshal\<close>, then \<open>DigestJCS\<close>\<close>
  rl_receipt_digest :: "receipt \<Rightarrow> string option"
  rl_key_id :: "string \<Rightarrow> string"
  rl_sign :: "string \<Rightarrow> string \<Rightarrow> signature option"
  rl_verify :: "string \<Rightarrow> signature \<Rightarrow> bool option"
  rl_encode_signature :: "signature \<Rightarrow> gvalue"
  rl_decode_signature :: "gvalue option \<Rightarrow> signature option"

definition receipt_key :: string where "receipt_key = ''gait_verification_receipt''"

definition receipt_schema_id :: string where
  "receipt_schema_id = ''https://axym.dev/schemas/v1/governance/gait-verification-receipt.schema.json''"

definition receipt_schema_version :: string where "receipt_schema_version = ''1''"

definition zero_signature :: signature where
  "zero_signature = \<lparr>sg_alg = [], sg_key_id = [], sg_signed_digest = [], sg_value = []\<rparr>"

definition content_view :: "proof_record \<Rightarrow> proof_record" where
  \<comment> \<open>the copy without integrity fields and without the receipt\<close>
  "content_view r = r\<lparr>pr_record_hash := [], pr_previous_hash := [], pr_signing_key_id := [], pr_signature := [],
     pr_metadata := Some (case pr_metadata r of None \<Rightarrow> []
        | Some m \<Rightarrow> filter (\<lambda>(k, _). k \<noteq> receipt_key) m)\<rparr>"

definition lifecycle_content_digest :: "receipt_lib \<Rightarrow> proof_record \<Rightarrow> string option" where
  "lifecycle_content_digest lib r =
     map_option (\<lambda>d. ''sha256:'' @ trim_prefix d ''sha256:'') (rl_record_digest lib (content_view r))"

definition receipt_digest :: "receipt_lib \<Rightarrow> receipt \<Rightarrow> string option" where
  "receipt_digest lib rc =
     map_option (\<lambda>d. ''sha256:'' @ trim_prefix d ''sha256:'') (rl_receipt_digest lib (rc\<lparr>rc_signature := zero_signature\<rparr>))"

definition receipt_value :: "receipt \<Rightarrow> string \<Rightarrow> string" where
  "receipt_value rc key =
     (if key = ''gait_source_artifact_digest'' then rc_source_artifact_digest rc
      else if key = ''gait_evidence_set_id'' then rc_evidence_set_id rc
      else if key = ''gait_producer_version'' then rc_producer_version rc
      else if key = ''gait_source_commit'' then rc_source_commit rc else [])"

definition provenance_keys :: "string list" where
  "provenance_keys = [''gait_source_artifact_digest'', ''gait_evidence_set_id'', ''gait_producer_version'',
     ''gait_source_commit'']"

definition receipt_fields :: "(string \<times> (receipt \<Rightarrow> string)) list" where
  \<comment> \<open>the JSON names of the string fields\<close>
  "receipt_fields = [(''schema_id'', rc_schema_id), (''schema_version'', rc_schema_version),
     (''receipt_id'', rc_receipt_id), (''record_id'', rc_record_id),
     (''record_content_digest'', rc_content_digest), (''source_artifact_digest'', rc_source_artifact_digest),
     (''evidence_set_id'', rc_evidence_set_id), (''producer_version'', rc_producer_version),
     (''source_commit'', rc_source_commit), (''issued_at'', rc_issued_at),
     (''signer_key_id'', rc_signer_key_id)]"

definition encode_receipt :: "receipt_lib \<Rightarrow> receipt \<Rightarrow> gvalue" where
  "encode_receipt lib rc =
     VObj (map (\<lambda>(k, f). (k, VStr (f rc))) receipt_fields @ [(''signature'', rl_encode_signature lib (rc_signature rc))])"

definition json_string :: "gmap \<Rightarrow> string \<Rightarrow> string option" where
  \<comment> \<open>decoding into a string field: absent and null leave it empty, another type is an error\<close>
  "json_string m k = (case mget m k of None \<Rightarrow> Some [] | Some VNil \<Rightarrow> Some [] | Some (VStr s) \<Rightarrow> Some s | _ \<Rightarrow> None)"

definition decode_receipt :: "receipt_lib \<Rightarrow> gvalue option \<Rightarrow> receipt option" where
  "decode_receipt lib v =
    (let m = (case v of None \<Rightarrow> Some None | Some VNil \<Rightarrow> Some None | Some (VObj kvs) \<Rightarrow> Some (Some kvs) | _ \<Rightarrow> None)
     in case m of
       None \<Rightarrow> None
     | Some obj \<Rightarrow>
        if list_ex (\<lambda>(k, _). json_string obj k = None) receipt_fields then None
        else (let f = (\<lambda>k. the (json_string obj k)) in
          case rl_decode_signature lib (mget obj ''signature'') of
            None \<Rightarrow> None
          | Some sg \<Rightarrow> Some \<lparr>rc_schema_id = f ''schema_id'', rc_schema_version = f ''schema_version'',
              rc_receipt_id = f ''receipt_id'', rc_record_id = f ''record_id'',
              rc_content_digest = f ''record_content_digest'',
              rc_source_artifact_digest = f ''source_artifact_digest'',
              rc_evidence_set_id = f ''evidence_set_id'', rc_producer_version = f ''producer_version'',
              rc_source_commit = f ''source_commit'', rc_issued_at = f ''issued_at'',
              rc_signer_key_id = f ''signer_key_id'', rc_signature = sg\<rparr>))"

datatype receipt_error =
    NotLifecycle
  | ReceiptPresent
  | ContentDigestError
  | ProvenanceIncomplete
  | ReceiptDigestError
  | ReceiptSignError
  | ReceiptUndecodable
  | ReceiptMalformed
  | ContentMismatch
  | ReceiptDigestMismatch
  | ReceiptSignatureInvalid
  | ProvenanceMismatch string

definition draft_receipt :: "proof_record \<Rightarrow> signing_key \<Rightarrow> string \<Rightarrow> string \<Rightarrow> receipt" where
  "draft_receipt r key issued_at content =
     \<lparr>rc_schema_id = receipt_schema_id, rc_schema_version = receipt_schema_version,
      rc_receipt_id = ''gait-ingest-receipt-v1:'' @ take 16 (trim_prefix content ''sha256:''),
      rc_record_id = pr_record_id r, rc_content_digest = content,
      rc_source_artifact_digest = meta_value (pr_metadata r) ''gait_source_artifact_digest'',
      rc_evidence_set_id = meta_value (pr_metadata r) ''gait_evidence_set_id'',
      rc_producer_version = meta_value (pr_metadata r) ''gait_producer_version'',
      rc_source_commit = meta_value (pr_metadata r) ''gait_source_commit'',
      rc_issued_at = issued_at, rc_signer_key_id = sk_id key, rc_signature = zero_signature\<rparr>"

definition receipt_incomplete :: "receipt \<Rightarrow> bool" where
  "receipt_incomplete rc \<longleftrightarrow> rc_source_artifact_digest rc = [] \<or> rc_evidence_set_id rc = [] \<or>
     rc_producer_version rc = [] \<or> rc_source_commit rc = [] \<or> rc_issued_at rc = []"

definition attach_receipt :: "receipt_lib \<Rightarrow> receipt \<Rightarrow> proof_record \<Rightarrow> proof_record" where
  "attach_receipt lib rc r =
     r\<lparr>pr_metadata := map_option (AList.update receipt_key (encode_receipt lib rc)) (pr_metadata r)\<rparr>"

definition sign_lifecycle_receipt ::
  "receipt_lib \<Rightarrow> proof_record \<Rightarrow> signing_key \<Rightarrow> string \<Rightarrow> (receipt_error, proof_record) result" where
  "sign_lifecycle_receipt lib r key issued_at =
    (if \<not> is_gait_lifecycle r then Inl NotLifecycle
     else if mget (pr_metadata r) receipt_key \<noteq> None then Inl ReceiptPresent
     else case lifecycle_content_digest lib r of
       None \<Rightarrow> Inl ContentDigestError
     | Some content \<Rightarrow>
        (let rc = draft_receipt r key issued_at content in
         if receipt_incomplete rc then Inl ProvenanceIncomplete
         else case receipt_digest lib rc of
           None \<Rightarrow> Inl ReceiptDigestError
         | Some d \<Rightarrow>
            (case rl_sign lib (sk_private key) (trim_prefix d ''sha256:'') of
               None \<Rightarrow> Inl ReceiptSignError
             | Some sg \<Rightarrow> Inr (attach_receipt lib (rc\<lparr>rc_signature := sg\<rparr>) r))))"

definition receipt_shape_ok :: "receipt_lib \<Rightarrow> proof_record \<Rightarrow> string \<Rightarrow> receipt \<Rightarrow> bool" where
  "receipt_shape_ok lib r public rc \<longleftrightarrow>
     rc_schema_id rc = receipt_schema_id \<and> rc_schema_version rc = receipt_schema_version \<and>
     rc_record_id rc = pr_record_id r \<and> rc_signer_key_id rc = rl_key_id lib public \<and>
     rc_content_digest rc \<noteq> [] \<and> \<not> receipt_incomplete rc"

definition verify_lifecycle_receipt ::
  "receipt_lib \<Rightarrow> proof_record \<Rightarrow> string \<Rightarrow> (receipt_error, receipt) result" where
  "verify_lifecycle_receipt lib r public =
    (if \<not> is_gait_lifecycle r then Inl NotLifecycle
     else case decode_receipt lib (mget (pr_metadata r) receipt_key) of
       None \<Rightarrow> Inl ReceiptUndecodable
     | Some rc \<Rightarrow>
        if \<not> receipt_shape_ok lib r public rc then Inl ReceiptMalformed
        else if lifecycle_content_digest lib r \<noteq> Some (rc_content_digest rc) then Inl ContentMismatch
        else if map_option (\<lambda>d. trim_prefix d ''sha256:'') (receipt_digest lib rc) \<noteq> Some (sg_signed_digest (rc_signature rc))
        then Inl ReceiptDigestMismatch
        else if rl_verify lib public (rc_signature rc) \<noteq> Some True then Inl ReceiptSignatureInvalid
        else case find (\<lambda>k. meta_value (pr_metadata r) k \<noteq> receipt_value rc k) provenance_keys of
          Some k \<Rightarrow> Inl (ProvenanceMismatch k)
        | None \<Rightarrow> Inr rc)"

definition append_verified_lifecycle ::
  "receipt_lib \<Rightarrow> proof_lib \<Rightarrow> store \<Rightarrow> instant \<Rightarrow> proof_record option \<Rightarrow> string \<Rightarrow> callback \<Rightarrow> disk \<Rightarrow>
   disk \<times> (store_error, append_result) result" where
  "append_verified_lifecycle rlib lib st clock rec key cb d =
    (case rec of
       None \<Rightarrow> (d, Inl (ValidationFailed ''record is not a Gait lifecycle aggregate''))
     | Some r \<Rightarrow>
        if \<not> is_gait_lifecycle r
        then (d, Inl (ValidationFailed ''record is not a Gait lifecycle aggregate''))
        else case load_signing_key d of
          Inl e \<Rightarrow> (d, Inl e)
        | Inr sk \<Rightarrow>
           (case verify_lifecycle_receipt rlib r (sk_public sk) of
              Inl e \<Rightarrow> (d, Inl (ValidationFailed ''Gait lifecycle verification receipt is invalid''))
            | Inr _ \<Rightarrow> append_record lib st clock (Some r) key True cb d))"

section \<open>Receipts survive linking\<close>

definition same_payload :: "proof_record \<Rightarrow> proof_record \<Rightarrow> bool" where
  \<comment> \<open>equal up to the integrity fields\<close>
  "same_payload r s \<longleftrightarrow> content_view r = content_view s \<and> pr_metadata r = pr_metadata s"

lemma same_payload_fields:
  assumes "same_payload r s"
  shows "pr_record_id r = pr_record_id s" "pr_source_product r = pr_source_product s"
    "pr_metadata r = pr_metadata s" "is_gait_lifecycle r = is_gait_lifecycle s"
    "lifecycle_content_digest lib r = lifecycle_content_digest lib s"
  using assms
  by (cases r; cases s; auto simp: same_payload_def content_view_def is_gait_lifecycle_def lifecycle_content_digest_def)+

lemma verify_receipt_payload:
  assumes "same_payload r s"
  shows "verify_lifecycle_receipt lib r pub = verify_lifecycle_receipt lib s pub"
  unfolding verify_lifecycle_receipt_def receipt_shape_ok_def
    same_payload_fields(1) [OF assms] same_payload_fields(3) [OF assms] same_payload_fields(4) [OF assms]
    same_payload_fields(5) [OF assms] ..

lemma linked_payload:
  assumes "lib_laws lib" and "pl_sign lib sk (link_record c r) = Some linked" and "pr_metadata r \<noteq> Some []"
  shows "same_payload r linked"
proof -
  obtain h g i where "linked = (link_record c r)\<lparr>pr_record_hash := h, pr_signature := g, pr_signing_key_id := i\<rparr>"
    using assms(1,2) unfolding lib_laws_def by blast
  with assms(3) show ?thesis
    by (simp add: same_payload_def content_view_def link_record_def canonicalize_proof_record_def
        canonicalize_optional_map_def)
qed

lemma gait_metadata: "is_gait_lifecycle r \<Longrightarrow> pr_metadata r \<noteq> Some []"
  by (auto simp: is_gait_lifecycle_def meta_value_def map_string_def)

lemma linked_not_gait:
  assumes "lib_laws lib" and "pl_sign lib sk (link_record c r) = Some linked" and "\<not> is_gait_lifecycle r"
  shows "\<not> is_gait_lifecycle linked"
proof -
  obtain h g i where "linked = (link_record c r)\<lparr>pr_record_hash := h, pr_signature := g, pr_signing_key_id := i\<rparr>"
    using assms(1,2) unfolding lib_laws_def by blast
  with assms(3) show ?thesis
    by (auto simp: link_record_def canonicalize_proof_record_def canonicalize_optional_map_def
        is_gait_lifecycle_def meta_value_def map_string_def)
qed

section \<open>Runs of the store\<close>

text \<open>
  The environment may inject any faults and may lose or rewrite the dedupe index between
  operations; only the two append boundaries touch the chain.
\<close>

inductive store_run :: "receipt_lib \<Rightarrow> proof_lib \<Rightarrow> store \<Rightarrow> disk \<Rightarrow> disk \<Rightarrow> bool" for rlib lib st d0 where
  run_start: "store_run rlib lib st d0 d0"
| run_environment: "store_run rlib lib st d0 d \<Longrightarrow> store_run rlib lib st d0 (d\<lparr>dk_faults := fs, dk_dedupe := ix\<rparr>)"
| run_append: "store_run rlib lib st d0 d \<Longrightarrow> record_dedupe_key lib r = Some key \<Longrightarrow>
    append_public lib st clock (Some r) key d = (d', res) \<Longrightarrow> store_run rlib lib st d0 d'"
| run_append_verified: "store_run rlib lib st d0 d \<Longrightarrow> record_dedupe_key lib r = Some key \<Longrightarrow>
    append_verified_lifecycle rlib lib st clock (Some r) key cb d = (d', res) \<Longrightarrow> store_run rlib lib st d0 d'"

definition records_of :: "disk \<Rightarrow> proof_record list" where
  "records_of d = (case dk_chain d of Content c \<Rightarrow> ch_records c | _ \<Rightarrow> [])"

definition store_ok :: "receipt_lib \<Rightarrow> proof_lib \<Rightarrow> signing_key \<Rightarrow> disk \<Rightarrow> bool" where
  "store_ok rlib lib sk d \<longleftrightarrow> dk_key d = Content sk \<and>
     (case dk_chain d of Content c \<Rightarrow> chain_ok lib c | _ \<Rightarrow> True) \<and>
     list_all (\<lambda>r. \<not> is_gait_lifecycle r \<or> (\<exists>rc. verify_lifecycle_receipt rlib r (sk_public sk) = Inr rc)) (records_of d)"

definition admissible :: "receipt_lib \<Rightarrow> signing_key \<Rightarrow> proof_record \<Rightarrow> bool" where
  "admissible rlib sk r \<longleftrightarrow>
     \<not> is_gait_lifecycle r \<or> (\<exists>rc. verify_lifecycle_receipt rlib r (sk_public sk) = Inr rc)"

lemma append_locked_gate:
  \<comment> \<open>the chain an append can write holds the old records and one linked record of the given payload\<close>
  assumes "lib_laws lib" and "record_dedupe_key lib r = Some key" and "admissible rlib sk r"
    and "append_locked lib st clock r key cb d = (d', res)" and "d' \<noteq> d"
  shows "\<exists>c linked c'. load_chain st d = Inr c \<and> \<not> chain_has_key lib c key \<and> extends lib c key c' \<and>
    ch_records c' = ch_records c @ [linked] \<and> admissible rlib sk linked \<and>
    dk_chain d' \<in> {dk_chain d, Content c, Content c'}"
proof -
  have key: "key \<noteq> []"
    using assms(2) unfolding record_dedupe_key_def by (rule build_key_nonempty)
  obtain c ix0 where c: "load_chain st d = Inr c" and i: "load_dedupe_index st d = Inr ix0"
    using assms(4,5) by (auto simp: append_locked_def Let_def split: sum.splits)
  obtain seen ix where s: "index_seen key (truncate_second clock) ix0 = (seen, ix)" by fastforce
  have new: "\<not> seen" "\<not> chain_has_key lib c key"
    using assms(4,5) key by (auto simp: append_locked_def Let_def c i s split: if_splits)
  then obtain skd linked c' where *: "pl_sign lib skd (link_record c r) = Some linked" "pl_append lib c linked = Some c'"
    and com: "commit st c ix c' linked key (truncate_second clock) cb d = (d', res)"
    using assms(4,5) key by (auto simp: append_locked_def Let_def c i s split: sum.splits option.splits if_splits)
  have "admissible rlib sk linked"
    using assms(1,3) * linked_payload gait_metadata linked_not_gait verify_receipt_payload
    unfolding admissible_def by metis
  moreover have "c' = c\<lparr>ch_records := ch_records c @ [linked], ch_head_hash := pr_record_hash linked\<rparr>"
    using assms(1) *(2) unfolding lib_laws_def by blast
  then have "ch_records c' = ch_records c @ [linked]" by simp
  ultimately show ?thesis
    using c new(2) link_extends [OF assms(1,2) *] commit_frame [OF com] by blast
qed

lemma load_chain_cases:
  assumes "load_chain st d = Inr c"
  shows "dk_chain d = Content c \<or> dk_chain d = Missing \<and> c = new_chain (cfg_chain_id (so_cfg st))"
  using assms by (auto simp: load_chain_def load_file_def split: go_file.splits)

lemma append_locked_ok:
  assumes "lib_laws lib" and "record_dedupe_key lib r = Some key" and "admissible rlib sk r"
    and "append_locked lib st clock r key cb d = (d', res)" and "store_ok rlib lib sk d"
  shows "store_ok rlib lib sk d' \<and> prefix (records_of d) (records_of d')"
proof (cases "d' = d")
  case False
  from append_locked_gate [OF assms(1-4) False] obtain c linked c' where
    c: "load_chain st d = Inr c" "\<not> chain_has_key lib c key" "extends lib c key c'"
      "ch_records c' = ch_records c @ [linked]" "admissible rlib sk linked"
      "dk_chain d' \<in> {dk_chain d, Content c, Content c'}"
    by blast
  have key: "dk_key d' = Content sk"
    using append_locked_frame [OF assms(1,2,4)] assms(5) by (simp add: store_ok_def)
  have old: "chain_ok lib c" using load_chain_cases [OF c(1)] assms(5) by (auto simp: store_ok_def)
  have recs: "ch_records c = records_of d"
    using load_chain_cases [OF c(1)] by (auto simp: records_of_def new_chain_def)
  have new: "chain_ok lib c'" using extends_ok [OF old c(3,2)] .
  have rec: "list_all (admissible rlib sk) (records_of d)"
    using assms(5) by (simp add: store_ok_def admissible_def list_all_iff)
  have rd': "records_of d' \<in> {records_of d, records_of d @ [linked]}"
    using c(4,6) recs by (auto simp: records_of_def)
  have ok': "case dk_chain d' of Content x \<Rightarrow> chain_ok lib x | _ \<Rightarrow> True"
    using c(6) old new assms(5) by (auto simp: store_ok_def)
  show ?thesis
    using key rd' ok' rec c(5) by (auto simp: store_ok_def admissible_def list_all_iff)
qed (use assms(5) in simp)

lemma append_record_locked:
  assumes "append_record lib st clock (Some r) key allow cb d = (d', res)" and "d' \<noteq> d"
  shows "append_locked lib st clock r key cb d = (d', res) \<and> (is_gait_lifecycle r \<longrightarrow> allow)"
  using assms by (auto simp: append_record_def split: if_splits)

lemma store_run_ok:
  assumes "lib_laws lib" and "store_run rlib lib st d0 d" and "store_ok rlib lib sk d0"
  shows "store_ok rlib lib sk d \<and> prefix (records_of d0) (records_of d)"
  using assms(2)
proof induction
  case run_start
  with assms(3) show ?case by simp
next
  case (run_environment d fs ix)
  then show ?case by (simp add: store_ok_def records_of_def)
next
  case (run_append d r key clock d' res)
  show ?case
  proof (cases "d' = d")
    case False
    have a: "append_record lib st clock (Some r) key False None d = (d', res)"
      using run_append False by (auto simp: append_public_def split: if_splits)
    from append_record_locked [OF a False] have "append_locked lib st clock r key None d = (d', res)"
      and "admissible rlib sk r" by (auto simp: admissible_def)
    with append_locked_ok [OF assms(1) run_append.hyps(2)] run_append.IH show ?thesis
      by (meson prefix_order.trans)
  qed (use run_append in simp)
next
  case (run_append_verified d r key clock cb d' res)
  show ?case
  proof (cases "d' = d")
    case False
    have key: "dk_key d = Content sk" using run_append_verified.IH by (simp add: store_ok_def)
    then have a: "append_record lib st clock (Some r) key True cb d = (d', res)"
      and "\<exists>rc. verify_lifecycle_receipt rlib r (sk_public sk) = Inr rc"
      using run_append_verified.hyps(3) False
      by (auto simp: append_verified_lifecycle_def load_signing_key_def split: if_splits sum.splits)
    with append_record_locked [OF a False] have "append_locked lib st clock r key cb d = (d', res)"
      and "admissible rlib sk r" by (auto simp: admissible_def)
    with append_locked_ok [OF assms(1) run_append_verified.hyps(2)] run_append_verified.IH show ?thesis
      by (meson prefix_order.trans)
  qed (use run_append_verified in simp)
qed

section \<open>A concrete store\<close>

definition demo_lib :: proof_lib where
  "demo_lib = \<lparr>pl_sign = (\<lambda>k r. Some (r\<lparr>pr_record_hash := pr_record_id r, pr_signature := ''s'', pr_signing_key_id := sk_id k\<rparr>)),
     pl_validate = (\<lambda>r. True),
     pl_append = (\<lambda>c r. if pr_previous_hash r = ch_head_hash c
        then Some (c\<lparr>ch_records := ch_records c @ [r], ch_head_hash := pr_record_hash r\<rparr>) else None),
     pl_event_digest = (\<lambda>m. Some (map_string m ''n''))\<rparr>"

lemma demo_lib_laws: "lib_laws demo_lib"
  by (auto simp: lib_laws_def demo_lib_def)

definition demo_record :: "string \<Rightarrow> proof_record" where
  "demo_record i = \<lparr>pr_record_id = i, pr_record_type = ''tool_invocation'', pr_source = ''mcp'',
     pr_source_product = ''axym'', pr_agent_id = [], pr_timestamp = 5, pr_event = Some [(''n'', VStr i)],
     pr_metadata = None, pr_relationship = None, pr_human_oversight = None, pr_record_hash = [],
     pr_previous_hash = [], pr_signing_key_id = [], pr_signature = []\<rparr>"

definition demo_store_key :: signing_key where
  "demo_store_key = \<lparr>sk_id = ''k'', sk_public = ''pub'', sk_private = ''priv''\<rparr>"

definition demo_store :: store where
  "demo_store = \<lparr>so_cfg = normalize_config \<lparr>cfg_root_dir = [], cfg_chain_id = [], cfg_compliance_mode = True,
     cfg_dedupe_ttl = 0, cfg_dedupe_max = 0\<rparr>, so_read_only = False, so_ignore_dir_sync = False\<rparr>"

definition demo_disk :: disk where
  "demo_disk = \<lparr>dk_chain = Missing, dk_dedupe = Missing, dk_key = Content demo_store_key, dk_faults = []\<rparr>"

definition demo_receipt_lib :: receipt_lib where
  "demo_receipt_lib = \<lparr>rl_record_digest = (\<lambda>r. Some (replicate 64 CHR ''a'')),
     rl_receipt_digest = (\<lambda>r. Some (replicate 64 CHR ''b'')), rl_key_id = (\<lambda>p. ''k''),
     rl_sign = (\<lambda>k h. Some \<lparr>sg_alg = [], sg_key_id = ''k'', sg_signed_digest = h, sg_value = []\<rparr>),
     rl_verify = (\<lambda>p sg. Some True),
     rl_encode_signature = (\<lambda>sg. VStrs [sg_alg sg, sg_key_id sg, sg_signed_digest sg, sg_value sg]),
     rl_decode_signature = (\<lambda>v. case v of Some (VStrs [alg, a, b, c]) \<Rightarrow>
        Some \<lparr>sg_alg = alg, sg_key_id = a, sg_signed_digest = b, sg_value = c\<rparr> | _ \<Rightarrow> None)\<rparr>"

definition demo_key_of :: "string \<Rightarrow> string" where
  "demo_key_of i = ''axym|tool_invocation|sha256:'' @ i"

definition demo_run1 :: "disk \<times> (store_error, append_result) result" where
  "demo_run1 = append_public demo_lib demo_store 7 (Some (demo_record ''r1'')) (demo_key_of ''r1'') demo_disk"

definition demo_result :: append_result where
  "demo_result = \<lparr>ar_appended = True, ar_deduped = False, ar_head_hash = ''r1'', ar_record_count = 1, ar_record_id = ''r1''\<rparr>"

lemma demo_key_ok: "record_dedupe_key demo_lib (demo_record ''r1'') = Some (demo_key_of ''r1'')"
  by code_simp

lemma demo_store_ok: "store_ok demo_receipt_lib demo_lib demo_store_key demo_disk"
  by (simp add: store_ok_def demo_disk_def records_of_def)

lemma demo_run1_result: "demo_run1 = (fst demo_run1, Inr demo_result)"
proof -
  have "snd demo_run1 = Inr demo_result" by code_simp
  then show ?thesis by (metis prod.collapse)
qed

definition demo_chain1 :: chain where
  "demo_chain1 = \<lparr>ch_id = ''axym-local'',
     ch_records = [(demo_record ''r1'')\<lparr>pr_record_hash := ''r1'', pr_signature := ''s'', pr_signing_key_id := ''k''\<rparr>],
     ch_head_hash = ''r1''\<rparr>"

lemma demo_chain1_value: "dk_chain (fst demo_run1) = Content demo_chain1"
  by code_simp

lemma demo_run1_step: "append_public demo_lib demo_store 7 (Some (demo_record ''r1'')) (demo_key_of ''r1'') demo_disk =
    (fst demo_run1, Inr demo_result)"
  using demo_run1_result unfolding demo_run1_def .

lemma demo_store_run: "store_run demo_receipt_lib demo_lib demo_store demo_disk (fst demo_run1)"
  by (rule run_append [OF run_start demo_key_ok demo_run1_step])



section \<open>Exactly once, and errors without faults\<close>

lemma load_chain_records: "load_chain st d = Inr c \<Longrightarrow> ch_records c = records_of d"
  using load_chain_cases [of st d c] by (auto simp: records_of_def new_chain_def)

lemma append_locked_known_key:
  assumes "append_locked lib st clock r key cb d = (d', res)" and "key \<noteq> []"
    and "\<exists>x \<in> set (records_of d). record_dedupe_key lib x = Some key"
  shows "d' = d \<and> (\<forall>a. res = Inr a \<longrightarrow> ar_deduped a \<and> \<not> ar_appended a)"
proof -
  have known: "chain_has_key lib c key" if "load_chain st d = Inr c" for c
    using assms(3) load_chain_records [OF that] by (auto simp: chain_has_key_def list_ex_iff)
  show ?thesis
    using assms(1,2) known
    by (auto simp: append_locked_def Let_def dedupe_hit_def deduped_result_def
        split: sum.splits prod.splits option.splits if_splits)
qed



text \<open>
  C12: an append that fails leaves the evidence as it was: when no system call fails, every error (a
  refused record, a bad schema, a failing commit callback) leaves a chain that reads exactly as before.
\<close>
theorem failed_append_restores_chain:
  assumes "dk_faults d = []" and "append_record lib st clock rec key allow cb d = (d', Inl e)"
  shows "load_chain st d' = load_chain st d"
proof (cases "d' = d")
  case False
  then obtain r where r: "append_locked lib st clock r key cb d = (d', Inl e)"
    using assms(2) by (auto simp: append_record_def split: option.splits if_splits)
  then obtain c ix0 where c: "load_chain st d = Inr c" and i: "load_dedupe_index st d = Inr ix0"
    using False by (auto simp: append_locked_def Let_def split: sum.splits)
  obtain ix c' linked where com: "commit st c ix c' linked key (truncate_second clock) cb d = (d', Inl e)"
    using r False
    by (auto simp: append_locked_def Let_def c i split: sum.splits option.splits if_splits prod.splits)
  have quiet: "persist_chain st x y = (y\<lparr>dk_chain := Content x\<rparr>, None)"
    "persist_dedupe_index st es y = (y\<lparr>dk_dedupe := Content (Some es)\<rparr>, None)" if "dk_faults y = []" for x es y
    using that by (simp_all add: persist_chain_def persist_dedupe_index_def next_fault_def)
  have "dk_chain d' = Content c"
    using com assms(1)
    by (auto simp: commit_def Let_def quiet rollback_def split: option.splits)
  then show ?thesis using c unfolding load_chain_def load_file_def by simp
qed simp

lemma failed_append_restores_chain_witness:
  "load_chain demo_store (fst (append_record demo_lib demo_store 7 (Some (demo_record ''r1'')) (demo_key_of ''r1'')
     False (Some (\<lambda>r. Some ''refused'')) demo_disk)) = load_chain demo_store demo_disk"
proof (rule failed_append_restores_chain)
  let ?r = "append_record demo_lib demo_store 7 (Some (demo_record ''r1'')) (demo_key_of ''r1'')
     False (Some (\<lambda>r. Some ''refused'')) demo_disk"
  have "snd ?r = Inl (CallbackFailed ''refused'')" by code_simp
  then show "?r = (fst ?r, Inl (CallbackFailed ''refused''))" by (metis prod.collapse)
qed (simp add: demo_disk_def)

text \<open>
  In compliance mode a failing directory sync comes after the rename: the append reports an error while
  the record is already in the chain file.
\<close>

lemma dir_sync_failure_keeps_record:
  assumes "cfg_compliance_mode (so_cfg st)" and "\<not> so_ignore_dir_sync st" and "dk_faults d = Some DirSyncFails # fs"
  shows "\<exists>d'. commit st c ix c' linked key now cb d = (d', Inl (PersistFailed ''chain'' ''sync directory'')) \<and>
    dk_chain d' = Content c'"
  using assms by (simp add: commit_def persist_chain_def next_fault_def write_json_atomic_def Let_def)

section \<open>Receipts: signing then verifying\<close>

definition receipt_laws :: "receipt_lib \<Rightarrow> signing_key \<Rightarrow> bool" where
  \<comment> \<open>documented behaviour on the store's key pair: ids agree, signatures verify, the signature struct
    survives JSON, and a digest is not empty\<close>
  "receipt_laws lib key \<longleftrightarrow> rl_key_id lib (sk_public key) = sk_id key \<and>
     (\<forall>h sg. rl_sign lib (sk_private key) h = Some sg \<longrightarrow>
        sg_signed_digest sg = h \<and> rl_verify lib (sk_public key) sg = Some True) \<and>
     (\<forall>sg. rl_decode_signature lib (Some (rl_encode_signature lib sg)) = Some sg)"

lemma decode_encode_receipt:
  assumes "receipt_laws lib key"
  shows "decode_receipt lib (Some (encode_receipt lib rc)) = Some rc"
  using assms
  by (cases rc) (simp add: decode_receipt_def encode_receipt_def receipt_fields_def json_string_def receipt_laws_def)

lemma content_view_attach: "is_gait_lifecycle r \<Longrightarrow> mget (pr_metadata r) receipt_key = None \<Longrightarrow>
    content_view (attach_receipt lib rc r) = content_view r"
proof -
  have "filter (\<lambda>(k, _). k \<noteq> receipt_key) (AList.update receipt_key v m) = filter (\<lambda>(k, _). k \<noteq> receipt_key) m"
    for v and m :: gobj
    by (induction m) auto
  then show ?thesis
    by (cases "pr_metadata r") (simp_all add: content_view_def attach_receipt_def)
qed

lemma meta_attach: "k \<noteq> receipt_key \<Longrightarrow> meta_value (pr_metadata (attach_receipt lib rc r)) k = meta_value (pr_metadata r) k"
  by (cases "pr_metadata r") (simp_all add: attach_receipt_def meta_value_def map_string_def)

text \<open>
  Receipt round trip: the receipt \<open>SignLifecycleReceipt\<close> attaches to a lifecycle aggregate with the
  store key is accepted by \<open>VerifyLifecycleReceipt\<close> under the store's public key, and it states the
  record's id, content digest and provenance.
\<close>
theorem signed_receipt_verifies:
  assumes "receipt_laws lib key" and "sign_lifecycle_receipt lib r key issued_at = Inr r'"
  shows "\<exists>rc. verify_lifecycle_receipt lib r' (sk_public key) = Inr rc \<and> rc_record_id rc = pr_record_id r \<and>
    lifecycle_content_digest lib r = Some (rc_content_digest rc) \<and> rc_issued_at rc = issued_at"
proof -
  obtain content d sg where gait: "is_gait_lifecycle r" and fresh: "mget (pr_metadata r) receipt_key = None"
    and content: "lifecycle_content_digest lib r = Some content"
    and full: "\<not> receipt_incomplete (draft_receipt r key issued_at content)"
    and d: "receipt_digest lib (draft_receipt r key issued_at content) = Some d"
    and sg: "rl_sign lib (sk_private key) (trim_prefix d ''sha256:'') = Some sg"
    and r': "r' = attach_receipt lib ((draft_receipt r key issued_at content)\<lparr>rc_signature := sg\<rparr>) r"
    using assms(2) by (auto simp: sign_lifecycle_receipt_def Let_def split: option.splits if_splits)
  define rc where "rc = (draft_receipt r key issued_at content)\<lparr>rc_signature := sg\<rparr>"
  note r' = r' [folded rc_def]
  have keys: "k \<noteq> receipt_key" if "k \<in> insert ''evidence_kind'' (set provenance_keys)" for k
    using that by (auto simp: receipt_key_def provenance_keys_def)
  have "is_gait_lifecycle r'"
    using gait meta_attach [OF keys [of "''evidence_kind''"], of lib rc r]
    by (auto simp: r' is_gait_lifecycle_def attach_receipt_def)
  moreover have "decode_receipt lib (mget (pr_metadata r') receipt_key) = Some rc"
    using gait by (auto simp: r' attach_receipt_def is_gait_lifecycle_def decode_encode_receipt [OF assms(1)])
  moreover have "receipt_shape_ok lib r' (sk_public key) rc"
    using assms(1) full content
    by (auto simp: receipt_shape_ok_def rc_def draft_receipt_def r' attach_receipt_def receipt_laws_def
        receipt_incomplete_def lifecycle_content_digest_def)
  moreover have "lifecycle_content_digest lib r' = Some (rc_content_digest rc)"
    using content content_view_attach [OF gait fresh]
    by (simp add: lifecycle_content_digest_def r') (simp add: rc_def draft_receipt_def)
  moreover have "receipt_digest lib rc = Some d"
    using d by (simp add: receipt_digest_def rc_def draft_receipt_def)
  moreover have "sg_signed_digest (rc_signature rc) = trim_prefix d ''sha256:''"
    "rl_verify lib (sk_public key) (rc_signature rc) = Some True"
    using assms(1) sg by (auto simp: receipt_laws_def rc_def)
  moreover have "find (\<lambda>k. meta_value (pr_metadata r') k \<noteq> receipt_value rc k) provenance_keys = None"
  proof -
    have "meta_value (pr_metadata r') k = receipt_value rc k" if "k \<in> set provenance_keys" for k
      using that meta_attach [OF keys [of k], of lib rc r]
      by (auto simp: r' provenance_keys_def receipt_value_def rc_def draft_receipt_def)
    then show ?thesis by (simp add: find_None_iff)
  qed
  ultimately have "verify_lifecycle_receipt lib r' (sk_public key) = Inr rc"
    by (simp add: verify_lifecycle_receipt_def)
  then show ?thesis by (auto simp: content rc_def draft_receipt_def)
qed

definition demo_gait_record :: proof_record where
  "demo_gait_record = (demo_record ''g1'')\<lparr>pr_source_product := ''gait'',
     pr_metadata := Some [(''evidence_kind'', VStr ''gait_lifecycle''),
       (''gait_source_artifact_digest'', VStr ''d''), (''gait_evidence_set_id'', VStr ''e''),
       (''gait_producer_version'', VStr ''1''), (''gait_source_commit'', VStr ''c'')]\<rparr>"

lemma demo_receipt_laws: "receipt_laws demo_receipt_lib demo_store_key"
  by (auto simp: receipt_laws_def demo_receipt_lib_def demo_store_key_def)

lemma signed_receipt_verifies_witness:
  "\<exists>r' rc. sign_lifecycle_receipt demo_receipt_lib demo_gait_record demo_store_key ''t'' = Inr r' \<and>
     verify_lifecycle_receipt demo_receipt_lib r' (sk_public demo_store_key) = Inr rc \<and> rc_record_id rc = ''g1''"
proof -
  have "isl (sign_lifecycle_receipt demo_receipt_lib demo_gait_record demo_store_key ''t'') = False" by code_simp
  then obtain r' where r': "sign_lifecycle_receipt demo_receipt_lib demo_gait_record demo_store_key ''t'' = Inr r'"
    by (cases "sign_lifecycle_receipt demo_receipt_lib demo_gait_record demo_store_key ''t''") auto
  from signed_receipt_verifies [OF demo_receipt_laws this] r' show ?thesis
    by (auto simp: demo_gait_record_def demo_record_def)
qed

end
