(* ===== verification/Identity.thy ===== *)
theory Identity
  imports GoValue
begin

text \<open>
  \<open>core/normalize/identity.go\<close>: the identity view of a record, that is who acted, through which
  executor, under which owner, policy and approval, on which target; how it is derived from the
  event, the metadata and the relationship envelope of a record, and how it is written back into
  them. A Go map is changed in place there; here the changed map is returned.
\<close>

section \<open>Views\<close>

record identity_view =
  iv_actor :: string
  iv_downstream :: string
  iv_owner :: string
  iv_policy :: string
  iv_approval :: string
  iv_kind :: string
  iv_target :: string
  iv_chain :: "agent_hop list"

definition view_empty :: "identity_view \<Rightarrow> bool" where
  "view_empty v \<longleftrightarrow>
     blank (iv_actor v) \<and> blank (iv_downstream v) \<and> blank (iv_owner v) \<and> blank (iv_policy v) \<and>
     blank (iv_approval v) \<and> blank (iv_kind v) \<and> blank (iv_target v) \<and> iv_chain v = []"

section \<open>Reading the relationship\<close>

definition clone_agent_chain :: "agent_hop list \<Rightarrow> agent_hop list" where
  "clone_agent_chain hops =
     map (\<lambda>h. h\<lparr>hop_identity := trim_space (hop_identity h), hop_role := trim_space (hop_role h)\<rparr>)
       (filter (\<lambda>h. \<not> blank (hop_identity h)) hops)"

definition hop_of_item :: "gvalue \<Rightarrow> agent_hop option" where
  "hop_of_item item =
     (case item of
        VObj entry \<Rightarrow>
          let identity = map_string (Some entry) ''identity''
          in if identity = [] then None
             else Some \<lparr>hop_identity = identity, hop_role = map_string (Some entry) ''role'', hop_extra = []\<rparr>
      | _ \<Rightarrow> None)"

definition chain_from_any :: "gvalue option \<Rightarrow> agent_hop list" where
  "chain_from_any v = (case as_arr v of None \<Rightarrow> [] | Some items \<Rightarrow> List.map_filter hop_of_item items)"

definition chain_to_any :: "agent_hop list \<Rightarrow> gobj list" where
  "chain_to_any hops =
     map (\<lambda>h. (''identity'', VStr (trim_space (hop_identity h))) #
            (if blank (hop_role h) then [] else [(''role'', VStr (trim_space (hop_role h)))]))
       (filter (\<lambda>h. \<not> blank (hop_identity h)) hops)"

definition first_chain :: "agent_hop list list \<Rightarrow> agent_hop list" where
  "first_chain cs =
     (case find (\<lambda>c. c \<noteq> []) cs of None \<Rightarrow> [] | Some c \<Rightarrow> clone_agent_chain c)"

definition rel_chain :: "relationship option \<Rightarrow> agent_hop list" where
  "rel_chain rel = (case rel of None \<Rightarrow> [] | Some r \<Rightarrow> rel_agent_chain r)"

definition policy_digest_of :: "relationship option \<Rightarrow> string" where
  "policy_digest_of rel =
     (case rel of
        None \<Rightarrow> []
      | Some r \<Rightarrow> (case rel_policy r of None \<Rightarrow> [] | Some p \<Rightarrow> trim_space (po_digest p)))"

definition last_chain_identity :: "relationship option \<Rightarrow> string" where
  "last_chain_identity rel =
     (if rel_chain rel = [] then [] else trim_space (hop_identity (last (rel_chain rel))))"

definition party_kinds :: "string list" where
  "party_kinds = [''agent'', ''identity'', ''owner'', ''policy'', ''approver'']"

definition target_ref :: "string \<times> string \<Rightarrow> bool" where
  "target_ref p \<longleftrightarrow> fst p \<noteq> [] \<and> snd p \<noteq> [] \<and> fst p \<notin> set party_kinds"

definition ref_pair :: "rel_ref \<Rightarrow> string \<times> string" where
  "ref_pair r = (trim_space (rr_kind r), trim_space (rr_id r))"

definition rel_pairs :: "relationship option \<Rightarrow> (string \<times> string) list" where
  "rel_pairs rel = (case rel of None \<Rightarrow> [] | Some r \<Rightarrow> map ref_pair (rel_entity_refs r))"

definition target_from_relationship :: "relationship option \<Rightarrow> string \<times> string" where
  "target_from_relationship rel =
     (case find target_ref (rel_pairs rel) of None \<Rightarrow> ([], []) | Some p \<Rightarrow> p)"

section \<open>Deriving a view\<close>

definition identity_sources :: "gmap \<Rightarrow> gmap \<Rightarrow> string list \<Rightarrow> string list" where
  \<comment> \<open>the key in the event, then in the metadata, for one key after the other\<close>
  "identity_sources ev md keys = concat (map (\<lambda>k. [map_string ev k, map_string md k]) keys)"

definition base_view :: "string \<Rightarrow> gmap \<Rightarrow> gmap \<Rightarrow> relationship option \<Rightarrow> identity_view" where
  "base_view agent ev md rel =
     \<lparr>iv_actor = first_non_empty (identity_sources ev md [''actor_identity'', ''actor_id'', ''principal_id'']),
      iv_downstream = first_non_empty
        (identity_sources ev md [''downstream_identity''] @ [last_chain_identity rel] @
         identity_sources ev md [''delegate_identity''] @ [trim_space agent]),
      iv_owner = first_non_empty (identity_sources ev md [''owner_identity'', ''approver_identity'']),
      iv_policy = first_non_empty (identity_sources ev md [''policy_digest''] @ [policy_digest_of rel]),
      iv_approval = first_non_empty
        (identity_sources ev md [''approval_token_ref'', ''context_approval_ref'', ''approval_ref'']),
      iv_kind = first_non_empty (identity_sources ev md [''target_kind'']),
      iv_target = first_non_empty (identity_sources ev md [''target_id'']),
      iv_chain = first_chain
        [chain_from_any (mget ev ''delegation_chain''), chain_from_any (mget md ''delegation_chain''),
         clone_agent_chain (rel_chain rel)]\<rparr>"

definition fallback_target :: "gmap \<Rightarrow> gmap \<Rightarrow> string" where
  "fallback_target ev md =
     first_non_empty [map_string ev ''tool_name'', map_string ev ''tool'', map_string ev ''scope'',
       map_string ev ''privilege'', map_string md ''scope'']"

definition fallback_kind :: "gmap \<Rightarrow> gmap \<Rightarrow> string" where
  "fallback_kind ev md =
     (if map_string ev ''tool_name'' \<noteq> [] \<or> map_string ev ''tool'' \<noteq> [] then ''tool''
      else if map_string ev ''privilege'' \<noteq> [] \<or> map_string ev ''scope'' \<noteq> [] \<or> map_string md ''scope'' \<noteq> []
        then ''privilege''
      else [])"

definition default_to :: "string \<Rightarrow> string \<Rightarrow> string" where
  \<comment> \<open>\<open>if s == "" { s = d }\<close>\<close>
  "default_to s d = (if s = [] then d else s)"

definition fill_target :: "gmap \<Rightarrow> gmap \<Rightarrow> relationship option \<Rightarrow> identity_view \<Rightarrow> identity_view" where
  "fill_target ev md rel v =
     (let target = default_to (iv_target v) (fallback_target ev md);
          kind = (if iv_kind v = [] \<and> target \<noteq> [] then fallback_kind ev md else iv_kind v);
          (rkind, rtarget) = target_from_relationship rel
      in v\<lparr>iv_kind := default_to kind rkind, iv_target := default_to target rtarget\<rparr>)"

definition fill_actors :: "identity_view \<Rightarrow> identity_view" where
  "fill_actors v =
     (let chain = iv_chain v;
          actor = default_to (iv_actor v) (if chain = [] then [] else trim_space (hop_identity (hd chain)));
          down = default_to (iv_downstream v) (if chain = [] then [] else trim_space (hop_identity (last chain)));
          actor = default_to actor down;
          down = default_to down actor
      in v\<lparr>iv_actor := actor, iv_downstream := down\<rparr>)"

definition direct_chain :: "string \<Rightarrow> string \<Rightarrow> agent_hop list" where
  "direct_chain actor down =
     (if actor \<noteq> [] \<and> down \<noteq> [] \<and> actor \<noteq> down then
        [\<lparr>hop_identity = actor, hop_role = ''requester'', hop_extra = []\<rparr>,
         \<lparr>hop_identity = down, hop_role = ''delegate'', hop_extra = []\<rparr>]
      else if down \<noteq> [] then [\<lparr>hop_identity = down, hop_role = ''delegate'', hop_extra = []\<rparr>]
      else [])"

definition fill_chain :: "identity_view \<Rightarrow> identity_view" where
  "fill_chain v =
     (if iv_chain v = [] then v\<lparr>iv_chain := direct_chain (iv_actor v) (iv_downstream v)\<rparr> else v)"

definition derive_identity_view ::
  "string \<Rightarrow> gmap \<Rightarrow> gmap \<Rightarrow> relationship option \<Rightarrow> identity_view" where
  "derive_identity_view agent ev md rel =
     fill_chain (fill_actors (fill_target ev md rel (base_view agent ev md rel)))"

definition identity_view_of :: "proof_record \<Rightarrow> identity_view" where
  \<comment> \<open>\<open>IdentityViewFromRecord\<close> of a non-nil record\<close>
  "identity_view_of r =
     (let v = derive_identity_view (pr_agent_id r) (pr_event r) (pr_metadata r) (pr_relationship r)
      in case pr_human_oversight r of
           Some h \<Rightarrow> if iv_owner v = [] then v\<lparr>iv_owner := trim_space (ho_reviewer h)\<rparr> else v
         | None \<Rightarrow> v)"

section \<open>Writing a view back\<close>

definition clone_ref :: "rel_ref \<Rightarrow> rel_ref" where
  \<comment> \<open>only kind, id and the raw extras are copied\<close>
  "clone_ref r =
     \<lparr>rr_kind = trim_space (rr_kind r), rr_id = trim_space (rr_id r), rr_digest = [], rr_schema_id = [],
      rr_schema_version = [], rr_source_product = [], rr_extra = rr_extra r\<rparr>"

definition clone_policy :: "policy_ref \<Rightarrow> policy_ref" where
  "clone_policy p =
     p\<lparr>po_id := trim_space (po_id p), po_version := trim_space (po_version p), po_digest := trim_space (po_digest p)\<rparr>"

definition clone_edge :: "rel_edge \<Rightarrow> rel_edge" where
  "clone_edge e =
     e\<lparr>re_kind := trim_space (re_kind e), re_from := clone_ref (re_from e), re_to := clone_ref (re_to e)\<rparr>"

definition clone_agent_lineage :: "lineage_hop list \<Rightarrow> lineage_hop list" where
  "clone_agent_lineage hops =
     map (\<lambda>h. h\<lparr>lh_agent := trim_space (lh_agent h), lh_by := trim_space (lh_by h),
                lh_record := trim_space (lh_record h)\<rparr>)
       (filter (\<lambda>h. \<not> blank (lh_agent h)) hops)"

definition clone_relationship :: "relationship \<Rightarrow> relationship" where
  "clone_relationship r =
     \<lparr>rel_parent_ref = map_option clone_ref (rel_parent_ref r),
      rel_entity_refs = map clone_ref (filter (\<lambda>x. \<not> blank (rr_kind x) \<and> \<not> blank (rr_id x)) (rel_entity_refs r)),
      rel_policy = map_option clone_policy (rel_policy r),
      rel_agent_chain = clone_agent_chain (rel_agent_chain r),
      rel_edges = map clone_edge (rel_edges r),
      rel_parent_id = trim_space (rel_parent_id r),
      rel_records = rel_records r,
      rel_entities = rel_entities r,
      rel_lineage = clone_agent_lineage (rel_lineage r),
      rel_extra = rel_extra r\<rparr>"

definition empty_relationship :: relationship where
  "empty_relationship =
     \<lparr>rel_parent_ref = None, rel_entity_refs = [], rel_policy = None, rel_agent_chain = [],
      rel_edges = [], rel_parent_id = [], rel_records = [], rel_entities = [], rel_lineage = [],
      rel_extra = []\<rparr>"

definition relationship_empty :: "relationship \<Rightarrow> bool" where
  "relationship_empty r \<longleftrightarrow>
     rel_parent_ref r = None \<and> rel_entity_refs r = [] \<and> rel_policy r = None \<and> rel_agent_chain r = [] \<and>
     rel_edges r = [] \<and> blank (rel_parent_id r) \<and> rel_records r = [] \<and> rel_entities r = [] \<and>
     rel_lineage r = [] \<and> rel_extra r = []"

definition set_string_if_missing :: "string \<Rightarrow> string \<Rightarrow> gobj \<Rightarrow> gobj" where
  "set_string_if_missing k s m =
     (if blank s \<or> map_of m k \<noteq> None then m else AList.update k (VStr (trim_space s)) m)"

definition append_entity_ref :: "string \<Rightarrow> string \<Rightarrow> relationship \<Rightarrow> relationship" where
  "append_entity_ref kind i r =
     (let k = trim_space kind; d = trim_space i
      in if k = [] \<or> d = [] \<or> (k, d) \<in> set (map ref_pair (rel_entity_refs r)) then r
         else r\<lparr>rel_entity_refs := rel_entity_refs r @ [\<lparr>rr_kind = k, rr_id = d, rr_digest = [], rr_schema_id = [], rr_schema_version = [],
           rr_source_product = [], rr_extra = []\<rparr>]\<rparr>)"

definition entity_kinds :: "string list" where
  "entity_kinds = [''agent'', ''tool'', ''resource'', ''policy'', ''run'', ''trace'', ''delegation'', ''evidence'']"

definition relationship_entity_kind :: "string \<Rightarrow> string" where
  "relationship_entity_kind kind =
     (if trim_space kind \<in> set entity_kinds then trim_space kind
      else if trim_space kind = [] then [] else ''resource'')"

definition bind_policy :: "string \<Rightarrow> relationship \<Rightarrow> relationship" where
  "bind_policy digest r =
     (if digest = [] then r
      else let p = (case rel_policy r of
                      None \<Rightarrow> \<lparr>po_id = [], po_version = [], po_digest = [], po_rules = [], po_extra = []\<rparr>
                    | Some p \<Rightarrow> p)
           in r\<lparr>rel_policy := Some (if blank (po_digest p) then p\<lparr>po_digest := digest\<rparr> else p)\<rparr>)"

definition bind_chain :: "agent_hop list \<Rightarrow> relationship \<Rightarrow> relationship" where
  "bind_chain hops r =
     (if hops \<noteq> [] \<and> rel_agent_chain r = [] then r\<lparr>rel_agent_chain := clone_agent_chain hops\<rparr> else r)"

definition identity_fields :: "identity_view \<Rightarrow> (string \<times> string) list" where
  "identity_fields v =
     [(''actor_identity'', iv_actor v), (''downstream_identity'', iv_downstream v),
      (''owner_identity'', iv_owner v), (''policy_digest'', iv_policy v),
      (''approval_token_ref'', iv_approval v), (''target_kind'', iv_kind v), (''target_id'', iv_target v)]"

definition apply_event :: "identity_view \<Rightarrow> gobj \<Rightarrow> gobj" where
  "apply_event v m =
     (let m = fold (\<lambda>(k, s). set_string_if_missing k s) (identity_fields v) m
      in if iv_chain v \<noteq> [] \<and> map_of m ''delegation_chain'' = None
         then AList.update ''delegation_chain'' (VObjs (chain_to_any (iv_chain v))) m else m)"

definition apply_relationship :: "identity_view \<Rightarrow> relationship \<Rightarrow> relationship" where
  "apply_relationship v r =
     append_entity_ref (relationship_entity_kind (iv_kind v)) (iv_target v)
       (append_entity_ref ''agent'' (iv_downstream v)
         (append_entity_ref ''agent'' (iv_actor v) (bind_chain (iv_chain v) (bind_policy (iv_policy v) r))))"

definition apply_identity_view ::
  "gmap \<Rightarrow> gmap \<Rightarrow> relationship option \<Rightarrow> identity_view \<Rightarrow> gobj \<times> gobj \<times> relationship option" where
  "apply_identity_view ev md rel v =
     (let e = (case ev of None \<Rightarrow> [] | Some m \<Rightarrow> m); m = (case md of None \<Rightarrow> [] | Some m \<Rightarrow> m)
      in if view_empty v then (e, m, map_option clone_relationship rel)
         else let r = apply_relationship v
                        (case rel of None \<Rightarrow> empty_relationship | Some r \<Rightarrow> clone_relationship r)
              in (apply_event v e, m, if relationship_empty r then None else Some r))"

section \<open>Elementary facts\<close>

lemma blank_simps [simp]: "blank []" "blank (trim_space s) \<longleftrightarrow> blank s"
  by (simp_all add: blank_def)

lemma not_blank_nonempty: "\<not> blank s \<Longrightarrow> s \<noteq> []"
  by (auto simp: blank_def)

lemma first_non_empty_simps [simp]:
  "first_non_empty [] = []"
  "first_non_empty (x # xs) = (if blank x then first_non_empty xs else trim_space x)"
  by (simp_all add: first_non_empty_def blank_def)

lemma first_non_empty_trimmed [simp]: "trim_space (first_non_empty xs) = first_non_empty xs"
  by (induction xs) auto

lemma first_non_empty_Nil_iff: "first_non_empty xs = [] \<longleftrightarrow> list_all blank xs"
  by (induction xs) (auto simp: blank_def)

lemma first_non_empty_append [simp]:
  "first_non_empty (xs @ ys) = default_to (first_non_empty xs) (first_non_empty ys)"
  by (induction xs) (auto simp: default_to_def blank_def)

lemma blank_map_string [simp]: "blank (map_string m k) \<longleftrightarrow> map_string m k = []"
  by (simp add: blank_def)

lemma default_to_simps [simp]:
  "default_to [] d = d" "default_to s [] = s" "default_to (default_to s d) d = default_to s d"
  by (simp_all add: default_to_def)

lemma default_to_Nil_iff [simp]: "default_to s d = [] \<longleftrightarrow> s = [] \<and> d = []"
  by (simp add: default_to_def)

lemma default_to_nonempty: "s \<noteq> [] \<Longrightarrow> default_to s d = s"
  by (simp add: default_to_def)

definition hops_clean :: "agent_hop list \<Rightarrow> bool" where
  "hops_clean hops \<longleftrightarrow>
     list_all (\<lambda>h. hop_identity h \<noteq> [] \<and> trim_space (hop_identity h) = hop_identity h \<and>
                    trim_space (hop_role h) = hop_role h) hops"

lemma hops_clean_clone: "hops_clean (clone_agent_chain hops)"
  by (auto simp: hops_clean_def clone_agent_chain_def list_all_iff blank_def)

lemma clone_clean: "hops_clean hops \<Longrightarrow> clone_agent_chain hops = hops"
  by (induction hops) (auto simp: hops_clean_def clone_agent_chain_def blank_def)

lemma clone_agent_chain_idem [simp]: "clone_agent_chain (clone_agent_chain hops) = clone_agent_chain hops"
  by (rule clone_clean) (rule hops_clean_clone)

lemma clone_agent_chain_Nil [simp]: "clone_agent_chain [] = []"
  by (simp add: clone_agent_chain_def)

lemma hops_clean_from_any: "hops_clean (chain_from_any v)"
proof -
  have "hops_clean (List.map_filter hop_of_item items)" for items
    by (induction items)
      (auto simp: hops_clean_def map_filter_simps hop_of_item_def Let_def split: option.splits gvalue.splits if_splits)
  then show ?thesis
    by (auto simp: chain_from_any_def hops_clean_def split: option.splits)
qed

lemma first_chain_Nil [simp]: "first_chain [] = []"
  by (simp add: first_chain_def)

lemma first_chain_Cons:
  "hops_clean c \<Longrightarrow> first_chain (c # cs) = (if c = [] then first_chain cs else c)"
  by (simp add: first_chain_def clone_clean)

lemma hops_clean_first: "hops_clean (first_chain cs)"
  by (auto simp: first_chain_def hops_clean_clone hops_clean_def [of "[]"] split: option.splits)

lemma hops_clean_ends:
  "hops_clean hops \<Longrightarrow> hops \<noteq> [] \<Longrightarrow>
     hop_identity (hd hops) \<noteq> [] \<and> trim_space (hop_identity (hd hops)) = hop_identity (hd hops) \<and>
     hop_identity (last hops) \<noteq> [] \<and> trim_space (hop_identity (last hops)) = hop_identity (last hops)"
  by (auto simp: hops_clean_def list_all_iff)

lemma base_view_trimmed:
  "trim_space (iv_actor (base_view a ev md rel)) = iv_actor (base_view a ev md rel)"
  "trim_space (iv_downstream (base_view a ev md rel)) = iv_downstream (base_view a ev md rel)"
  "trim_space (iv_owner (base_view a ev md rel)) = iv_owner (base_view a ev md rel)"
  "trim_space (iv_policy (base_view a ev md rel)) = iv_policy (base_view a ev md rel)"
  "trim_space (iv_approval (base_view a ev md rel)) = iv_approval (base_view a ev md rel)"
  "trim_space (iv_kind (base_view a ev md rel)) = iv_kind (base_view a ev md rel)"
  "trim_space (iv_target (base_view a ev md rel)) = iv_target (base_view a ev md rel)"
  "hops_clean (iv_chain (base_view a ev md rel))"
  unfolding base_view_def identity_view.simps
  by (rule first_non_empty_trimmed hops_clean_first)+

section \<open>The derived view\<close>

text \<open>The stages written out: what each field of the derived view is.\<close>

lemma derive_simple_fields:
  "iv_owner (derive_identity_view a ev md rel) = iv_owner (base_view a ev md rel)"
  "iv_policy (derive_identity_view a ev md rel) = iv_policy (base_view a ev md rel)"
  "iv_approval (derive_identity_view a ev md rel) = iv_approval (base_view a ev md rel)"
  by (simp_all add: derive_identity_view_def fill_chain_def fill_actors_def fill_target_def Let_def split_beta)

lemma derive_target_fields:
  "iv_target (derive_identity_view a ev md rel) =
     default_to (default_to (iv_target (base_view a ev md rel)) (fallback_target ev md))
       (snd (target_from_relationship rel))"
  "iv_kind (derive_identity_view a ev md rel) =
     default_to
       (if iv_kind (base_view a ev md rel) = [] \<and>
           default_to (iv_target (base_view a ev md rel)) (fallback_target ev md) \<noteq> []
        then fallback_kind ev md else iv_kind (base_view a ev md rel))
       (fst (target_from_relationship rel))"
  by (simp_all add: derive_identity_view_def fill_chain_def fill_actors_def fill_target_def Let_def split_beta)

definition actors_of :: "string \<Rightarrow> string \<Rightarrow> agent_hop list \<Rightarrow> string \<times> string" where
  "actors_of actor down hops =
     (let v = fill_actors \<lparr>iv_actor = actor, iv_downstream = down, iv_owner = [], iv_policy = [],
                iv_approval = [], iv_kind = [], iv_target = [], iv_chain = hops\<rparr>
      in (iv_actor v, iv_downstream v))"

lemma derive_actor_fields:
  fixes a ev md rel
  defines "b \<equiv> base_view a ev md rel" and "v \<equiv> derive_identity_view a ev md rel"
  shows "(iv_actor v, iv_downstream v) = actors_of (iv_actor b) (iv_downstream b) (iv_chain b)"
    and "iv_chain v = (if iv_chain b = [] then direct_chain (iv_actor v) (iv_downstream v) else iv_chain b)"
  by (simp_all add: b_def v_def actors_of_def derive_identity_view_def fill_chain_def fill_actors_def
      fill_target_def Let_def split_beta)

lemma actors_of_Nil: "actors_of x y [] = (default_to x y, default_to y x)"
  by (auto simp: actors_of_def fill_actors_def Let_def default_to_def)

lemma actors_of_chain:
  "hops_clean hops \<Longrightarrow> hops \<noteq> [] \<Longrightarrow>
     actors_of x y hops = (default_to x (hop_identity (hd hops)), default_to y (hop_identity (last hops)))"
  using hops_clean_ends [of hops]
  by (auto simp: actors_of_def fill_actors_def Let_def default_to_def)

lemma direct_chain_Nil_iff: "direct_chain x y = [] \<longleftrightarrow> y = []"
  by (auto simp: direct_chain_def)

lemma trim_roles [simp]: "trim_space ''requester'' = ''requester''" "trim_space ''delegate'' = ''delegate''"
  by code_simp+

lemma direct_chain_clean:
  "trim_space x = x \<Longrightarrow> trim_space y = y \<Longrightarrow> hops_clean (direct_chain x y)"
  by (auto simp: direct_chain_def hops_clean_def)

lemma target_from_relationship_trimmed:
  "trim_space (fst (target_from_relationship rel)) = fst (target_from_relationship rel)"
  "trim_space (snd (target_from_relationship rel)) = snd (target_from_relationship rel)"
proof -
  have "\<forall>p \<in> set (rel_pairs rel). trim_space (fst p) = fst p \<and> trim_space (snd p) = snd p"
    by (auto simp: rel_pairs_def ref_pair_def split: option.splits)
  then show "trim_space (fst (target_from_relationship rel)) = fst (target_from_relationship rel)"
    "trim_space (snd (target_from_relationship rel)) = snd (target_from_relationship rel)"
    by (auto simp: target_from_relationship_def dest!: find_SomeD split: option.splits)
qed

lemma trim_kinds [simp]: "trim_space ''tool'' = ''tool''" "trim_space ''privilege'' = ''privilege''"
  by code_simp+

lemma fallback_trimmed:
  "trim_space (fallback_target ev md) = fallback_target ev md"
  "trim_space (fallback_kind ev md) = fallback_kind ev md"
  by (simp_all add: fallback_target_def fallback_kind_def)

lemma trim_default_fix:
  "trim_space s = s \<Longrightarrow> trim_space d = d \<Longrightarrow> trim_space (default_to s d) = default_to s d"
  by (simp add: default_to_def)

lemma derive_clean:
  fixes a ev md rel
  defines "v \<equiv> derive_identity_view a ev md rel"
  shows "trim_space (iv_actor v) = iv_actor v" "trim_space (iv_downstream v) = iv_downstream v"
    "trim_space (iv_owner v) = iv_owner v" "trim_space (iv_policy v) = iv_policy v"
    "trim_space (iv_approval v) = iv_approval v" "trim_space (iv_kind v) = iv_kind v"
    "trim_space (iv_target v) = iv_target v" "hops_clean (iv_chain v)"
proof -
  let ?b = "base_view a ev md rel"
  have ad: "trim_space (iv_actor v) = iv_actor v \<and> trim_space (iv_downstream v) = iv_downstream v"
  proof (cases "iv_chain ?b = []")
    case True
    then show ?thesis
      using derive_actor_fields(1) [of a ev md rel]
      by (simp add: v_def actors_of_Nil trim_default_fix base_view_trimmed)
  next
    case False
    then show ?thesis
      using derive_actor_fields(1) [of a ev md rel] hops_clean_ends [OF base_view_trimmed(8) False]
      by (simp add: v_def actors_of_chain base_view_trimmed trim_default_fix)
  qed
  then show "trim_space (iv_actor v) = iv_actor v" "trim_space (iv_downstream v) = iv_downstream v"
    by simp_all
  show "trim_space (iv_owner v) = iv_owner v" "trim_space (iv_policy v) = iv_policy v"
    "trim_space (iv_approval v) = iv_approval v"
    by (simp_all add: v_def derive_simple_fields base_view_trimmed)
  show "trim_space (iv_kind v) = iv_kind v" "trim_space (iv_target v) = iv_target v"
    unfolding v_def derive_target_fields
    by (intro trim_default_fix target_from_relationship_trimmed; simp add: base_view_trimmed fallback_trimmed trim_default_fix)+
  show "hops_clean (iv_chain v)"
    using ad by (simp add: v_def derive_actor_fields(2) direct_chain_clean base_view_trimmed)
qed

text \<open>Actor, executor and delegation chain are known together or not at all.\<close>

lemma derive_linked:
  fixes a ev md rel
  defines "v \<equiv> derive_identity_view a ev md rel"
  shows "(iv_actor v = [] \<longleftrightarrow> iv_chain v = []) \<and> (iv_downstream v = [] \<longleftrightarrow> iv_chain v = [])"
proof (cases "iv_chain (base_view a ev md rel) = []")
  case True
  then show ?thesis
    using derive_actor_fields [of a ev md rel]
    by (auto simp: v_def actors_of_Nil direct_chain_Nil_iff)
next
  case False
  then show ?thesis
    using derive_actor_fields [of a ev md rel] hops_clean_ends [OF base_view_trimmed(8) False]
    by (simp add: v_def actors_of_chain base_view_trimmed)
qed

section \<open>Deriving again from what was written back\<close>

text \<open>
  What a second derivation needs of the written-back event \<open>e\<close> and relationship \<open>rel'\<close>: the
  identity keys hold the view, the other keys are as before, and the relationship shows nothing
  that the view does not have.
\<close>

definition shows_view :: "identity_view \<Rightarrow> gmap \<Rightarrow> gobj \<Rightarrow> relationship option \<Rightarrow> relationship option \<Rightarrow> bool" where
  "shows_view v ev e rel rel' \<longleftrightarrow>
     list_all (\<lambda>(k, s). map_string (Some e) k = s) (identity_fields v) \<and>
     (\<forall>k. k \<notin> fst ` set (identity_fields v) \<longrightarrow> k \<noteq> ''delegation_chain'' \<longrightarrow> map_of e k = mget ev k) \<and>
     chain_from_any (map_of e ''delegation_chain'') = chain_from_any (mget ev ''delegation_chain'') \<and>
     (iv_policy v = [] \<longrightarrow> policy_digest_of rel' = []) \<and>
     rel_chain rel' = (if clone_agent_chain (rel_chain rel) = [] then iv_chain v
                       else clone_agent_chain (rel_chain rel)) \<and>
     (iv_kind v = [] \<or> iv_target v = [] \<longrightarrow> target_from_relationship rel' = target_from_relationship rel)"

lemma map_string_cong: "mget m k = mget m' k' \<Longrightarrow> map_string m k = map_string m' k'"
  by (simp add: map_string_def)

lemma target_from_relationship_cases:
  "target_from_relationship rel = ([], []) \<or>
   fst (target_from_relationship rel) \<noteq> [] \<and> snd (target_from_relationship rel) \<noteq> []"
  by (auto simp: target_from_relationship_def target_ref_def dest!: find_SomeD split: option.splits)

lemma fallback_kind_Nil: "fallback_target ev md = [] \<Longrightarrow> fallback_kind ev md = []"
  by (auto simp: fallback_target_def fallback_kind_def split: if_splits)

lemma shows_view_other:
  assumes sv: "shows_view v ev e rel rel'" and k: "k \<in> set [''actor_id'', ''principal_id'', ''delegate_identity'',
     ''approver_identity'', ''context_approval_ref'', ''approval_ref'', ''tool_name'', ''tool'', ''scope'', ''privilege'']"
  shows "map_string (Some e) k = map_string ev k"
proof -
  have "k \<notin> fst ` set (identity_fields v)" "k \<noteq> ''delegation_chain''"
    using k by (auto simp: identity_fields_def)
  with sv have "map_of e k = mget ev k" by (simp add: shows_view_def)
  then show ?thesis by (intro map_string_cong) simp
qed

lemma base_chain:
  "iv_chain (base_view a ev md rel) =
     (if chain_from_any (mget ev ''delegation_chain'') \<noteq> [] then chain_from_any (mget ev ''delegation_chain'')
      else if chain_from_any (mget md ''delegation_chain'') \<noteq> [] then chain_from_any (mget md ''delegation_chain'')
      else clone_agent_chain (rel_chain rel))"
proof -
  have "hops_clean []" by (simp add: hops_clean_def)
  then show ?thesis
    by (simp add: base_view_def first_chain_Cons hops_clean_from_any hops_clean_clone)
qed

lemma rederive_chain:
  fixes a ev md rel e rel'
  defines "v \<equiv> derive_identity_view a ev md rel"
  assumes "shows_view v ev e rel rel'"
  shows "iv_chain (base_view a (Some e) md rel') = iv_chain v"
proof -
  let ?c3 = "clone_agent_chain (rel_chain rel)"
  have chain: "iv_chain v = (if iv_chain (base_view a ev md rel) = [] then direct_chain (iv_actor v) (iv_downstream v)
      else iv_chain (base_view a ev md rel))"
    unfolding v_def by (rule derive_actor_fields)
  have clean: "hops_clean (iv_chain v)" unfolding v_def by (rule derive_clean)
  have rel': "rel_chain rel' = (if ?c3 = [] then iv_chain v else ?c3)"
    and ev': "chain_from_any (map_of e ''delegation_chain'') = chain_from_any (mget ev ''delegation_chain'')"
    using assms(2) by (simp_all add: shows_view_def)
  have "clone_agent_chain (rel_chain rel') = (if ?c3 = [] then iv_chain v else ?c3)"
    unfolding rel' using clean by (simp add: clone_clean)
  moreover have "iv_chain v = iv_chain (base_view a ev md rel)" if "?c3 \<noteq> []"
    using chain that by (auto simp: base_chain)
  ultimately show ?thesis
    using chain unfolding base_chain mget_Some ev' by (auto split: if_splits)
qed

lemma base_actors:
  "iv_actor (base_view a ev md rel) = first_non_empty
     [map_string ev ''actor_identity'', map_string md ''actor_identity'', map_string ev ''actor_id'',
      map_string md ''actor_id'', map_string ev ''principal_id'', map_string md ''principal_id'']"
  "iv_downstream (base_view a ev md rel) = first_non_empty
     [map_string ev ''downstream_identity'', map_string md ''downstream_identity'', last_chain_identity rel,
      map_string ev ''delegate_identity'', map_string md ''delegate_identity'', trim_space a]"
  by (simp_all add: base_view_def identity_sources_def del: first_non_empty_simps)

lemma rederive_actors:
  fixes a ev md rel e rel'
  defines "v \<equiv> derive_identity_view a ev md rel"
  assumes sv: "shows_view v ev e rel rel'"
  shows "iv_actor (base_view a (Some e) md rel') = iv_actor v"
    and "iv_downstream (base_view a (Some e) md rel') = iv_downstream v"
proof -
  have e: "map_string (Some e) ''actor_identity'' = iv_actor v"
    "map_string (Some e) ''downstream_identity'' = iv_downstream v"
    using sv by (simp_all add: shows_view_def identity_fields_def)
  have trimmed: "trim_space (iv_actor v) = iv_actor v" "trim_space (iv_downstream v) = iv_downstream v"
    unfolding v_def by (rule derive_clean)+
  have "iv_actor (base_view a (Some e) md rel') = iv_actor v \<and>
      iv_downstream (base_view a (Some e) md rel') = iv_downstream v"
  proof (cases "iv_chain v = []")
    case False
    then have "iv_actor v \<noteq> []" "iv_downstream v \<noteq> []"
      using derive_linked [of a ev md rel] by (simp_all add: v_def)
    then show ?thesis
      by (simp add: base_actors e blank_def trimmed)
  next
    case True
    then have empty: "iv_actor v = []" "iv_downstream v = []" "iv_chain (base_view a ev md rel) = []"
      using derive_linked [of a ev md rel] derive_actor_fields(2) [of a ev md rel]
      by (auto simp: v_def split: if_splits)
    then have "actors_of (iv_actor (base_view a ev md rel)) (iv_downstream (base_view a ev md rel)) [] = ([], [])"
      using derive_actor_fields(1) [of a ev md rel] by (simp add: v_def)
    then have old: "iv_actor (base_view a ev md rel) = []" "iv_downstream (base_view a ev md rel) = []"
      by (simp_all add: actors_of_Nil)
    have "rel_chain rel' = []"
      using sv empty(3) True by (simp add: shows_view_def base_chain split: if_splits)
    then have "last_chain_identity rel' = []" by (simp add: last_chain_identity_def)
    moreover have "map_string (Some e) ''actor_id'' = map_string ev ''actor_id''"
      "map_string (Some e) ''principal_id'' = map_string ev ''principal_id''"
      "map_string (Some e) ''delegate_identity'' = map_string ev ''delegate_identity''"
      by (rule shows_view_other [OF sv]; simp)+
    moreover note old [unfolded base_actors first_non_empty_Nil_iff] e
    ultimately show ?thesis
      unfolding empty(1,2) base_actors first_non_empty_Nil_iff by simp
  qed
  then show "iv_actor (base_view a (Some e) md rel') = iv_actor v"
    and "iv_downstream (base_view a (Some e) md rel') = iv_downstream v" by simp_all
qed

lemma base_other:
  "iv_owner (base_view a ev md rel) = first_non_empty
     [map_string ev ''owner_identity'', map_string md ''owner_identity'', map_string ev ''approver_identity'',
      map_string md ''approver_identity'']"
  "iv_policy (base_view a ev md rel) = first_non_empty
     [map_string ev ''policy_digest'', map_string md ''policy_digest'', policy_digest_of rel]"
  "iv_approval (base_view a ev md rel) = first_non_empty
     [map_string ev ''approval_token_ref'', map_string md ''approval_token_ref'',
      map_string ev ''context_approval_ref'', map_string md ''context_approval_ref'',
      map_string ev ''approval_ref'', map_string md ''approval_ref'']"
  "iv_kind (base_view a ev md rel) = first_non_empty [map_string ev ''target_kind'', map_string md ''target_kind'']"
  "iv_target (base_view a ev md rel) = first_non_empty [map_string ev ''target_id'', map_string md ''target_id'']"
  by (simp_all add: base_view_def identity_sources_def del: first_non_empty_simps)

lemma rederive_simple:
  fixes a ev md rel e rel'
  defines "v \<equiv> derive_identity_view a ev md rel"
  assumes sv: "shows_view v ev e rel rel'"
  shows "iv_owner (base_view a (Some e) md rel') = iv_owner v"
    and "iv_policy (base_view a (Some e) md rel') = iv_policy v"
    and "iv_approval (base_view a (Some e) md rel') = iv_approval v"
proof -
  have e: "map_string (Some e) ''owner_identity'' = iv_owner v"
    "map_string (Some e) ''policy_digest'' = iv_policy v"
    "map_string (Some e) ''approval_token_ref'' = iv_approval v"
    using sv by (simp_all add: shows_view_def identity_fields_def)
  have o: "map_string (Some e) ''approver_identity'' = map_string ev ''approver_identity''"
    "map_string (Some e) ''context_approval_ref'' = map_string ev ''context_approval_ref''"
    "map_string (Some e) ''approval_ref'' = map_string ev ''approval_ref''"
    by (rule shows_view_other [OF sv]; simp)+
  have b: "iv_owner v = iv_owner (base_view a ev md rel)" "iv_policy v = iv_policy (base_view a ev md rel)"
    "iv_approval v = iv_approval (base_view a ev md rel)"
    by (simp_all add: v_def derive_simple_fields)
  show "iv_owner (base_view a (Some e) md rel') = iv_owner v"
    unfolding base_other e o
    by (cases "iv_owner v = []")
      (use b in \<open>simp_all only: base_other first_non_empty_Nil_iff\<close>, simp_all add: blank_def derive_clean v_def)
  have "iv_policy v = [] \<Longrightarrow> policy_digest_of rel' = []" using sv by (simp add: shows_view_def)
  then show "iv_policy (base_view a (Some e) md rel') = iv_policy v"
    unfolding base_other e o
    by (cases "iv_policy v = []")
      (use b in \<open>simp_all only: base_other first_non_empty_Nil_iff\<close>, simp_all add: blank_def derive_clean v_def)
  show "iv_approval (base_view a (Some e) md rel') = iv_approval v"
    unfolding base_other e o
    by (cases "iv_approval v = []")
      (use b in \<open>simp_all only: base_other first_non_empty_Nil_iff\<close>, simp_all add: blank_def derive_clean v_def)
qed

lemma fallback_kind_target_Nil:
  "fallback_kind ev md = [] \<longleftrightarrow> fallback_target ev md = []"
  by (simp add: fallback_kind_def fallback_target_def)

lemma refill_target:
  assumes "fk = [] \<longleftrightarrow> ft = []"
    and target: "target = default_to (default_to t ft) (snd rt)"
    and kind: "kind = default_to (if k = [] \<and> default_to t ft \<noteq> [] then fk else k) (fst rt)"
    and "kind = [] \<or> target = [] \<Longrightarrow> rt' = rt"
    and "rt = ([], []) \<or> fst rt \<noteq> [] \<and> snd rt \<noteq> []"
  shows "default_to (default_to (if target = [] then t else target) ft) (snd rt') = target"
    and "default_to
      (if (if kind = [] then k else kind) = [] \<and> default_to (if target = [] then t else target) ft \<noteq> []
       then fk else if kind = [] then k else kind) (fst rt') = kind"
  using assms by (cases "target = []"; cases "kind = []"; auto simp: default_to_def split: if_splits)+

lemma rederive_target:
  fixes a ev md rel e rel'
  defines "v \<equiv> derive_identity_view a ev md rel"
  assumes sv: "shows_view v ev e rel rel'"
  shows "iv_kind (derive_identity_view a (Some e) md rel') = iv_kind v"
    and "iv_target (derive_identity_view a (Some e) md rel') = iv_target v"
proof -
  let ?b = "base_view a ev md rel" and ?b' = "base_view a (Some e) md rel'"
  have e: "map_string (Some e) ''target_kind'' = iv_kind v" "map_string (Some e) ''target_id'' = iv_target v"
    using sv by (simp_all add: shows_view_def identity_fields_def)
  have o: "map_string (Some e) ''tool_name'' = map_string ev ''tool_name''"
    "map_string (Some e) ''tool'' = map_string ev ''tool''"
    "map_string (Some e) ''scope'' = map_string ev ''scope''"
    "map_string (Some e) ''privilege'' = map_string ev ''privilege''"
    by (rule shows_view_other [OF sv]; simp)+
  have fb: "fallback_target (Some e) md = fallback_target ev md" "fallback_kind (Some e) md = fallback_kind ev md"
    by (simp_all add: fallback_target_def fallback_kind_def o)
  note old = derive_target_fields [of a ev md rel, folded v_def]
  have trimmed: "trim_space (iv_kind v) = iv_kind v" "trim_space (iv_target v) = iv_target v"
    unfolding v_def by (rule derive_clean)+
  have two: "first_non_empty [x, y] = (if x = [] then first_non_empty [z, y] else x)"
    if "trim_space x = x" "x = [] \<Longrightarrow> first_non_empty [z, y] = []" for x y z
    using that by (cases "x = []") (auto simp: blank_def split: if_splits)
  have kind: "iv_kind ?b' = (if iv_kind v = [] then iv_kind ?b else iv_kind v)"
    unfolding base_other e by (rule two [OF trimmed(1)]) (use old(2) in \<open>simp add: base_other split: if_splits\<close>)
  have target: "iv_target ?b' = (if iv_target v = [] then iv_target ?b else iv_target v)"
    unfolding base_other e by (rule two [OF trimmed(2)]) (use old(1) in \<open>simp add: base_other split: if_splits\<close>)
  have rel: "target_from_relationship rel' = target_from_relationship rel" if "iv_kind v = [] \<or> iv_target v = []"
    using sv that by (simp add: shows_view_def)
  note again = refill_target [OF fallback_kind_target_Nil [of ev md] old(1) old(2) rel target_from_relationship_cases]
  show "iv_target (derive_identity_view a (Some e) md rel') = iv_target v"
    unfolding derive_target_fields(1) fb target by (rule again(1))
  show "iv_kind (derive_identity_view a (Some e) md rel') = iv_kind v"
    unfolding derive_target_fields(2) fb kind target by (rule again(2))
qed

text \<open>So the second derivation finds the same view.\<close>

lemma rederive_same:
  fixes a ev md rel e rel'
  defines "v \<equiv> derive_identity_view a ev md rel"
  assumes sv: "shows_view v ev e rel rel'"
  shows "derive_identity_view a (Some e) md rel' = v"
proof -
  let ?w = "derive_identity_view a (Some e) md rel'"
  have linked: "iv_actor v = [] \<longleftrightarrow> iv_chain v = []" "iv_downstream v = [] \<longleftrightarrow> iv_chain v = []"
    using derive_linked [of a ev md rel] by (simp_all add: v_def)
  note chain = rederive_chain [OF sv [unfolded v_def], folded v_def]
  note actors = rederive_actors [OF sv [unfolded v_def], folded v_def]
  have "(iv_actor ?w, iv_downstream ?w) = actors_of (iv_actor v) (iv_downstream v) (iv_chain v)"
    by (simp add: derive_actor_fields(1) chain actors)
  then have ad: "iv_actor ?w = iv_actor v" "iv_downstream ?w = iv_downstream v"
    using linked actors_of_chain [OF derive_clean(8) [of a ev md rel, folded v_def]]
    by (cases "iv_chain v = []"; simp add: actors_of_Nil default_to_nonempty)+
  moreover have "iv_chain ?w = iv_chain v"
    using linked by (simp add: derive_actor_fields(2) chain ad direct_chain_Nil_iff)
  moreover note rederive_target [OF sv [unfolded v_def], folded v_def]
    rederive_simple [OF sv [unfolded v_def], folded v_def]
  ultimately show ?thesis
    by (intro identity_view.equality) (simp_all add: derive_simple_fields)
qed

section \<open>What is written back shows the view\<close>

definition identity_keys_readable :: "gmap \<Rightarrow> bool" where
  \<comment> \<open>no identity key of the event is present with a blank or ill-typed value\<close>
  "identity_keys_readable ev \<longleftrightarrow>
     list_all (\<lambda>k. mget ev k = None \<or> map_string ev k \<noteq> [])
       [''actor_identity'', ''downstream_identity'', ''owner_identity'', ''policy_digest'',
        ''approval_token_ref'', ''target_kind'', ''target_id'']"

definition obj_of :: "gmap \<Rightarrow> gobj" where
  "obj_of m = (case m of None \<Rightarrow> [] | Some kvs \<Rightarrow> kvs)"

lemma map_of_obj_of [simp]: "map_of (obj_of m) k = mget m k"
  by (simp add: obj_of_def mget_def split: option.splits)

lemma obj_of_Some [simp]: "obj_of (Some kvs) = kvs"
  by (simp add: obj_of_def)

lemma map_of_set_string_if_missing:
  "map_of (set_string_if_missing k s m) k' =
     (if k' = k \<and> \<not> blank s \<and> map_of m k = None then Some (VStr (trim_space s)) else map_of m k')"
  by (auto simp: set_string_if_missing_def)

lemma map_of_fold_set:
  "distinct (map fst kss) \<Longrightarrow>
   map_of (fold (\<lambda>(k, s). set_string_if_missing k s) kss m) k' =
     (case map_of kss k' of
        Some s \<Rightarrow> if \<not> blank s \<and> map_of m k' = None then Some (VStr (trim_space s)) else map_of m k'
      | None \<Rightarrow> map_of m k')"
proof (induction kss arbitrary: m)
  case (Cons p kss)
  obtain k s where p: "p = (k, s)" by (cases p)
  with Cons.prems have "map_of kss k = None" by (simp add: map_of_eq_None_iff)
  then show ?case
    using Cons p by (auto simp: map_of_set_string_if_missing split: option.splits)
qed simp

lemma distinct_identity_fields: "distinct (map fst (identity_fields v))"
  by (simp add: identity_fields_def)

lemma map_of_apply_event:
  "map_of (apply_event v m) k =
     (if k = ''delegation_chain'' \<and> iv_chain v \<noteq> [] \<and> map_of m k = None
      then Some (VObjs (chain_to_any (iv_chain v)))
      else case map_of (identity_fields v) k of
             Some s \<Rightarrow> if \<not> blank s \<and> map_of m k = None then Some (VStr (trim_space s)) else map_of m k
           | None \<Rightarrow> map_of m k)"
proof -
  have "map_of (identity_fields v) ''delegation_chain'' = None" by (simp add: identity_fields_def)
  then show ?thesis
    unfolding apply_event_def Let_def
    by (auto simp: map_of_fold_set [OF distinct_identity_fields] split: option.splits)
qed

lemma derive_reads_event:
  fixes a ev md rel
  defines "v \<equiv> derive_identity_view a ev md rel"
  shows "map_string ev ''actor_identity'' \<noteq> [] \<Longrightarrow> iv_actor v = map_string ev ''actor_identity''"
    and "map_string ev ''downstream_identity'' \<noteq> [] \<Longrightarrow> iv_downstream v = map_string ev ''downstream_identity''"
    and "map_string ev ''owner_identity'' \<noteq> [] \<Longrightarrow> iv_owner v = map_string ev ''owner_identity''"
    and "map_string ev ''policy_digest'' \<noteq> [] \<Longrightarrow> iv_policy v = map_string ev ''policy_digest''"
    and "map_string ev ''approval_token_ref'' \<noteq> [] \<Longrightarrow> iv_approval v = map_string ev ''approval_token_ref''"
    and "map_string ev ''target_kind'' \<noteq> [] \<Longrightarrow> iv_kind v = map_string ev ''target_kind''"
    and "map_string ev ''target_id'' \<noteq> [] \<Longrightarrow> iv_target v = map_string ev ''target_id''"
proof -
  let ?b = "base_view a ev md rel"
  have actors: "(iv_actor ?b \<noteq> [] \<longrightarrow> iv_actor v = iv_actor ?b) \<and>
      (iv_downstream ?b \<noteq> [] \<longrightarrow> iv_downstream v = iv_downstream ?b)"
    using derive_actor_fields(1) [of a ev md rel] actors_of_chain [OF base_view_trimmed(8) [of a ev md rel]]
    by (cases "iv_chain ?b = []") (simp_all add: v_def actors_of_Nil default_to_nonempty)
  show "map_string ev ''actor_identity'' \<noteq> [] \<Longrightarrow> iv_actor v = map_string ev ''actor_identity''"
    using actors by (simp add: base_actors)
  show "map_string ev ''downstream_identity'' \<noteq> [] \<Longrightarrow> iv_downstream v = map_string ev ''downstream_identity''"
    using actors by (simp add: base_actors)
  show "map_string ev ''owner_identity'' \<noteq> [] \<Longrightarrow> iv_owner v = map_string ev ''owner_identity''"
    "map_string ev ''policy_digest'' \<noteq> [] \<Longrightarrow> iv_policy v = map_string ev ''policy_digest''"
    "map_string ev ''approval_token_ref'' \<noteq> [] \<Longrightarrow> iv_approval v = map_string ev ''approval_token_ref''"
    by (simp_all add: v_def derive_simple_fields base_other)
  show "map_string ev ''target_kind'' \<noteq> [] \<Longrightarrow> iv_kind v = map_string ev ''target_kind''"
    "map_string ev ''target_id'' \<noteq> [] \<Longrightarrow> iv_target v = map_string ev ''target_id''"
    by (simp_all add: v_def derive_target_fields base_other default_to_nonempty)
qed

lemma written_key:
  assumes "map_of e k = (if \<not> blank s \<and> mget ev k = None then Some (VStr (trim_space s)) else mget ev k)"
    and "mget ev k = None \<or> map_string ev k \<noteq> []" and "map_string ev k \<noteq> [] \<Longrightarrow> s = map_string ev k"
    and "trim_space s = s"
  shows "map_string (Some e) k = s"
proof (cases "mget ev k = None")
  case True
  then show ?thesis using assms(1,4) by (auto simp: map_string_def blank_def)
next
  case False
  then have "map_string (Some e) k = map_string ev k" using assms(1) by (auto intro: map_string_cong)
  with False assms(2,3) show ?thesis by metis
qed

lemma shown_fields:
  fixes a ev md rel
  defines "v \<equiv> derive_identity_view a ev md rel"
  assumes "identity_keys_readable ev"
  shows "list_all (\<lambda>(k, s). map_string (Some (apply_event v (obj_of ev))) k = s) (identity_fields v)"
proof -
  note clean = derive_clean [of a ev md rel, folded v_def]
  note reads = derive_reads_event [where a = a and ev = ev and md = md and rel = rel, folded v_def]
  have r: "list_all (\<lambda>(k, s). (map_string ev k \<noteq> [] \<longrightarrow> s = map_string ev k) \<and> trim_space s = s \<and>
      (mget ev k = None \<or> map_string ev k \<noteq> [])) (identity_fields v)"
    using assms(2) reads by (simp add: identity_fields_def clean identity_keys_readable_def)
  have "map_string (Some (apply_event v (obj_of ev))) k = s" if "(k, s) \<in> set (identity_fields v)" for k s
  proof (rule written_key)
    have "map_of (identity_fields v) k = Some s"
      using that distinct_identity_fields by (simp add: map_of_eq_Some_iff)
    moreover have "k \<noteq> ''delegation_chain''" using that by (auto simp: identity_fields_def)
    ultimately show "map_of (apply_event v (obj_of ev)) k =
        (if \<not> blank s \<and> mget ev k = None then Some (VStr (trim_space s)) else mget ev k)"
      by (simp add: map_of_apply_event)
  qed (use r that in \<open>auto simp: list_all_iff\<close>)
  then show ?thesis by (auto simp: list_all_iff)
qed

section \<open>The relationship after writing back\<close>

lemma clone_ref_pair [simp]: "ref_pair (clone_ref r) = ref_pair r"
  by (simp add: ref_pair_def clone_ref_def)

lemma clone_idems [simp]:
  "clone_ref (clone_ref r) = clone_ref r" "clone_policy (clone_policy p) = clone_policy p"
  "clone_edge (clone_edge e) = clone_edge e"
  "clone_agent_lineage (clone_agent_lineage hs) = clone_agent_lineage hs"
  by (simp_all add: clone_ref_def clone_policy_def clone_edge_def clone_agent_lineage_def filter_map o_def blank_def)

lemma clone_relationship_idem [simp]: "clone_relationship (clone_relationship r) = clone_relationship r"
  by (simp add: clone_relationship_def filter_map o_def option.map_comp)
    (auto simp: clone_ref_def intro!: arg_cong [where f = "map clone_ref"] filter_cong)

lemma clone_empty_relationship [simp]: "clone_relationship empty_relationship = empty_relationship"
  by (simp add: clone_relationship_def empty_relationship_def clone_agent_lineage_def)

definition envelope :: "relationship option \<Rightarrow> relationship" where
  "envelope rel = (case rel of None \<Rightarrow> empty_relationship | Some r \<Rightarrow> clone_relationship r)"

lemma clone_envelope [simp]: "clone_relationship (envelope rel) = envelope rel"
  by (simp add: envelope_def split: option.splits)

lemma apply_identity_view_alt:
  "apply_identity_view ev md rel v =
     (if view_empty v then (obj_of ev, obj_of md, map_option clone_relationship rel)
      else (apply_event v (obj_of ev), obj_of md,
            if relationship_empty (apply_relationship v (envelope rel)) then None
            else Some (apply_relationship v (envelope rel))))"
  by (simp add: apply_identity_view_def obj_of_def envelope_def Let_def)

lemma trim_entity_kind [simp]: "trim_space (relationship_entity_kind k) = relationship_entity_kind k"
proof -
  have "trim_space ''resource'' = ''resource''" by code_simp
  then show ?thesis by (auto simp: relationship_entity_kind_def)
qed

lemma trim_agent [simp]: "trim_space ''agent'' = ''agent''"
  by code_simp

text \<open>Each writing step keeps a cloned relationship a fixed point of cloning, and is idempotent.\<close>

definition cloned :: "relationship \<Rightarrow> bool" where
  "cloned r \<longleftrightarrow> clone_relationship r = r"

lemma cloned_parts:
  "cloned r \<longleftrightarrow>
     map_option clone_ref (rel_parent_ref r) = rel_parent_ref r \<and>
     map clone_ref (filter (\<lambda>x. \<not> blank (rr_kind x) \<and> \<not> blank (rr_id x)) (rel_entity_refs r)) = rel_entity_refs r \<and>
     map_option clone_policy (rel_policy r) = rel_policy r \<and>
     clone_agent_chain (rel_agent_chain r) = rel_agent_chain r \<and>
     map clone_edge (rel_edges r) = rel_edges r \<and> trim_space (rel_parent_id r) = rel_parent_id r \<and>
     clone_agent_lineage (rel_lineage r) = rel_lineage r"
  by (cases r) (auto simp: cloned_def clone_relationship_def)

lemma clone_policy_fix:
  "clone_policy p = p \<longleftrightarrow>
     trim_space (po_id p) = po_id p \<and> trim_space (po_version p) = po_version p \<and>
     trim_space (po_digest p) = po_digest p"
  by (cases p) (auto simp: clone_policy_def)

lemma cloned_append: "cloned r \<Longrightarrow> cloned (append_entity_ref k i r)"
  by (simp add: cloned_parts append_entity_ref_def Let_def clone_ref_def blank_def)

lemma cloned_bind_chain: "cloned r \<Longrightarrow> cloned (bind_chain hops r)"
  by (simp add: cloned_parts bind_chain_def)

lemma cloned_bind_policy:
  "cloned r \<Longrightarrow> trim_space d = d \<Longrightarrow> cloned (bind_policy d r)"
  by (auto simp: cloned_parts bind_policy_def clone_policy_fix Let_def split: option.splits)

lemma cloned_apply: "cloned r \<Longrightarrow> trim_space (iv_policy v) = iv_policy v \<Longrightarrow> cloned (apply_relationship v r)"
  by (simp add: apply_relationship_def cloned_append cloned_bind_chain cloned_bind_policy)

lemma append_entity_ref_pairs:
  "set (map ref_pair (rel_entity_refs (append_entity_ref k i r))) =
     set (map ref_pair (rel_entity_refs r)) \<union>
     (if blank k \<or> blank i then {} else {(trim_space k, trim_space i)})"
  by (auto simp: append_entity_ref_def Let_def blank_def ref_pair_def)

lemma append_entity_ref_absorb:
  "blank k \<or> blank i \<or> (trim_space k, trim_space i) \<in> set (map ref_pair (rel_entity_refs r)) \<Longrightarrow>
   append_entity_ref k i r = r"
  by (auto simp: append_entity_ref_def Let_def blank_def)

lemma append_entity_ref_frame [simp]:
  "rel_policy (append_entity_ref k i r) = rel_policy r"
  "rel_agent_chain (append_entity_ref k i r) = rel_agent_chain r"
  by (simp_all add: append_entity_ref_def Let_def)

lemma bind_policy_frame [simp]:
  "rel_entity_refs (bind_policy d r) = rel_entity_refs r" "rel_agent_chain (bind_policy d r) = rel_agent_chain r"
  by (simp_all add: bind_policy_def Let_def)

lemma bind_chain_frame [simp]:
  "rel_entity_refs (bind_chain hops r) = rel_entity_refs r" "rel_policy (bind_chain hops r) = rel_policy r"
  by (simp_all add: bind_chain_def)

lemma bind_policy_absorb:
  "d = [] \<or> (\<exists>p. rel_policy r = Some p \<and> \<not> blank (po_digest p)) \<Longrightarrow> bind_policy d r = r"
  by (cases r) (auto simp: bind_policy_def)

lemma bind_chain_absorb: "hops = [] \<or> rel_agent_chain r \<noteq> [] \<Longrightarrow> bind_chain hops r = r"
  by (auto simp: bind_chain_def)

lemma apply_relationship_policy:
  "iv_policy v \<noteq> [] \<Longrightarrow> trim_space (iv_policy v) = iv_policy v \<Longrightarrow>
     \<exists>p. rel_policy (apply_relationship v r) = Some p \<and> \<not> blank (po_digest p)"
  by (auto simp: apply_relationship_def bind_policy_def Let_def blank_def)

lemma apply_relationship_chain:
  "rel_agent_chain (apply_relationship v r) =
     (if rel_agent_chain r = [] then clone_agent_chain (iv_chain v) else rel_agent_chain r)"
  by (auto simp: apply_relationship_def bind_chain_def)

lemma apply_relationship_pairs:
  "set (map ref_pair (rel_entity_refs (apply_relationship v r))) =
     set (map ref_pair (rel_entity_refs r)) \<union>
     (if blank (iv_actor v) then {} else {(''agent'', trim_space (iv_actor v))}) \<union>
     (if blank (iv_downstream v) then {} else {(''agent'', trim_space (iv_downstream v))}) \<union>
     (if blank (relationship_entity_kind (iv_kind v)) \<or> blank (iv_target v) then {}
      else {(relationship_entity_kind (iv_kind v), trim_space (iv_target v))})"
  unfolding apply_relationship_def append_entity_ref_pairs by (simp add: blank_def [of "''agent''"])

lemma apply_relationship_idem:
  assumes "trim_space (iv_policy v) = iv_policy v" and "hops_clean (iv_chain v)"
  shows "apply_relationship v (apply_relationship v r) = apply_relationship v r"
proof -
  let ?r = "apply_relationship v r"
  have "bind_policy (iv_policy v) ?r = ?r"
    by (rule bind_policy_absorb) (use apply_relationship_policy assms(1) in blast)
  moreover have "bind_chain (iv_chain v) ?r = ?r"
    by (rule bind_chain_absorb) (auto simp: apply_relationship_chain clone_clean assms(2))
  moreover have "append_entity_ref ''agent'' (iv_actor v) ?r = ?r"
    "append_entity_ref ''agent'' (iv_downstream v) ?r = ?r"
    "append_entity_ref (relationship_entity_kind (iv_kind v)) (iv_target v) ?r = ?r"
    by (rule append_entity_ref_absorb, unfold apply_relationship_pairs, auto)+
  ultimately show ?thesis by (simp add: apply_relationship_def [of v ?r])
qed

lemma apply_event_idem: "apply_event v (apply_event v m) = apply_event v m"
proof -
  let ?m = "apply_event v m"
  have "fold (\<lambda>(k, s). set_string_if_missing k s) kss ?m = ?m" if "set kss \<subseteq> set (identity_fields v)" for kss
    using that
  proof (induction kss)
    case (Cons p kss)
    obtain k s where p: "p = (k, s)" by (cases p)
    with Cons.prems have "map_of (identity_fields v) k = Some s"
      using distinct_identity_fields by (simp add: map_of_eq_Some_iff)
    moreover from Cons.prems p have "k \<noteq> ''delegation_chain''" by (auto simp: identity_fields_def)
    ultimately have "blank s \<or> map_of ?m k \<noteq> None" by (auto simp: map_of_apply_event)
    then have "set_string_if_missing k s ?m = ?m" by (auto simp: set_string_if_missing_def)
    with Cons p show ?case by simp
  qed simp
  from this [of "identity_fields v"]
  have "fold (\<lambda>(k, s). set_string_if_missing k s) (identity_fields v) ?m = ?m" by simp
  moreover have "iv_chain v = [] \<or> map_of ?m ''delegation_chain'' \<noteq> None"
    by (auto simp: map_of_apply_event identity_fields_def)
  ultimately show ?thesis by (auto simp: apply_event_def [of v ?m] Let_def)
qed

lemma rel_pairs_clone: "find target_ref (rel_pairs (Some (envelope rel))) = find target_ref (rel_pairs rel)"
proof -
  have "find target_ref (map ref_pair (filter (\<lambda>x. \<not> blank (rr_kind x) \<and> \<not> blank (rr_id x)) refs)) =
      find target_ref (map ref_pair refs)" for refs
    by (induction refs) (auto simp: target_ref_def ref_pair_def blank_def)
  then show ?thesis
    by (auto simp: rel_pairs_def envelope_def clone_relationship_def empty_relationship_def o_def split: option.splits)
qed

lemma append_entity_ref_target:
  assumes "\<not> target_ref (trim_space k, trim_space i)"
  shows "find target_ref (map ref_pair (rel_entity_refs (append_entity_ref k i r))) =
    find target_ref (map ref_pair (rel_entity_refs r))"
proof -
  have "find target_ref (xs @ [(trim_space k, trim_space i)]) = find target_ref xs" for xs
    using assms by (induction xs) auto
  then show ?thesis by (auto simp: append_entity_ref_def Let_def ref_pair_def)
qed

lemma apply_relationship_target:
  assumes "iv_kind v = [] \<or> iv_target v = []"
  shows "target_from_relationship (Some (apply_relationship v (envelope rel))) = target_from_relationship rel"
proof -
  have 1: "\<not> target_ref (trim_space (relationship_entity_kind (iv_kind v)), trim_space (iv_target v))"
    using assms by (auto simp: target_ref_def relationship_entity_kind_def entity_kinds_def)
  have 2: "\<not> target_ref (trim_space ''agent'', x)" for x
    by (simp add: target_ref_def party_kinds_def)
  have "find target_ref (rel_pairs (Some (apply_relationship v (envelope rel)))) =
      find target_ref (rel_pairs (Some (envelope rel)))"
    by (simp only: rel_pairs_def option.case apply_relationship_def append_entity_ref_target [OF 1]
        append_entity_ref_target [OF 2] bind_chain_frame bind_policy_frame)
  then show ?thesis by (simp add: target_from_relationship_def rel_pairs_clone)
qed

section \<open>Filling in is stable\<close>

lemma written_shows_view:
  fixes a ev md rel
  defines "v \<equiv> derive_identity_view a ev md rel"
  assumes readable: "identity_keys_readable ev"
    and rel': "rel' = Some (apply_relationship v (envelope rel)) \<or>
      relationship_empty (apply_relationship v (envelope rel)) \<and> rel' = None"
  shows "shows_view v ev (apply_event v (obj_of ev)) rel rel'"
proof -
  let ?r = "apply_relationship v (envelope rel)"
  have clean: "hops_clean (iv_chain v)" unfolding v_def by (rule derive_clean)
  have same: "policy_digest_of rel' = policy_digest_of (Some ?r)" "rel_chain rel' = rel_chain (Some ?r)"
    "target_from_relationship rel' = target_from_relationship (Some ?r)"
    using rel' by (auto simp: policy_digest_of_def rel_chain_def relationship_empty_def
        target_from_relationship_def rel_pairs_def)
  have other: "map_of (apply_event v (obj_of ev)) k = mget ev k"
    if "k \<notin> fst ` set (identity_fields v)" "k \<noteq> ''delegation_chain''" for k
    using that by (auto simp: map_of_apply_event map_of_eq_None_iff [symmetric])
  have chain: "chain_from_any (map_of (apply_event v (obj_of ev)) ''delegation_chain'') =
      chain_from_any (mget ev ''delegation_chain'')"
    by (auto simp: map_of_apply_event identity_fields_def chain_from_any_def as_arr_def)
  have policy: "policy_digest_of (Some ?r) = []" if "iv_policy v = []"
  proof -
    have "policy_digest_of rel = []"
      using that by (simp add: v_def derive_simple_fields base_other policy_digest_of_def blank_def
          split: if_splits option.splits)
    then show ?thesis
      using that by (auto simp: policy_digest_of_def apply_relationship_def bind_policy_def envelope_def
          empty_relationship_def clone_relationship_def clone_policy_def split: option.splits)
  qed
  have "rel_agent_chain (envelope rel) = clone_agent_chain (rel_chain rel)"
    by (simp add: envelope_def rel_chain_def empty_relationship_def clone_relationship_def split: option.splits)
  then have "rel_chain (Some ?r) = (if clone_agent_chain (rel_chain rel) = [] then iv_chain v
      else clone_agent_chain (rel_chain rel))"
    by (simp add: rel_chain_def apply_relationship_chain clone_clean clean)
  then show ?thesis
    unfolding shows_view_def same
    using shown_fields [OF readable, where a = a and md = md and rel = rel, folded v_def]
      other chain policy apply_relationship_target [of v rel] by blast
qed

lemma view_empty_fields:
  assumes "view_empty (derive_identity_view a ev md rel)"
  shows "derive_identity_view a ev md rel =
    \<lparr>iv_actor = [], iv_downstream = [], iv_owner = [], iv_policy = [], iv_approval = [], iv_kind = [],
     iv_target = [], iv_chain = []\<rparr>"
  using assms by (intro identity_view.equality) (auto simp: view_empty_def blank_def derive_clean)

lemma apply_empty_view:
  assumes "view_empty v" and "v = derive_identity_view a ev md rel"
  shows "apply_event v m = m" and "apply_relationship v r = r"
  using view_empty_fields [of a ev md rel] assms
  by (auto simp: apply_event_def identity_fields_def set_string_if_missing_def apply_relationship_def
      append_entity_ref_def bind_chain_def bind_policy_def relationship_entity_kind_def)

lemma relationship_empty_cloned:
  "relationship_empty r \<Longrightarrow> cloned r \<Longrightarrow> r = empty_relationship"
  by (cases r) (auto simp: relationship_empty_def cloned_parts empty_relationship_def blank_def)

theorem fill_twice:
  fixes a ev md rel
  defines "v \<equiv> derive_identity_view a ev md rel"
  assumes readable: "identity_keys_readable ev"
    and out: "apply_identity_view ev md rel v = (e, m, rel')"
  shows "derive_identity_view a (Some e) (Some m) rel' = v \<and>
    apply_identity_view (Some e) (Some m) rel' v = (e, m, rel')"
proof -
  let ?r = "apply_relationship v (envelope rel)"
  have clean: "hops_clean (iv_chain v)" "trim_space (iv_policy v) = iv_policy v"
    unfolding v_def by (rule derive_clean)+
  have md: "derive_identity_view a ev' (Some (obj_of md)) rl = derive_identity_view a ev' md rl" for ev' rl
  proof -
    have g: "mget (Some (obj_of md)) k = mget md k" for k by simp
    have ms: "map_string (Some (obj_of md)) k = map_string md k" for k by (rule map_string_cong) (rule g)
    show ?thesis
      unfolding derive_identity_view_def base_view_def identity_sources_def fallback_target_def
        fallback_kind_def fill_target_def g ms ..
  qed
  have cl: "cloned ?r" by (intro cloned_apply) (simp_all add: cloned_def clean)
  show ?thesis
  proof (cases "view_empty v")
    case True
    note absorb = apply_empty_view [OF True v_def [THEN meta_eq_to_obj_eq]]
    have e: "e = apply_event v (obj_of ev)" "m = obj_of md" "rel' = map_option clone_relationship rel"
      using out True by (auto simp: apply_identity_view_alt absorb)
    have "rel' = Some ?r \<or> relationship_empty ?r \<and> rel' = None"
      unfolding absorb e by (cases rel) (auto simp: envelope_def relationship_empty_def empty_relationship_def)
    then have "derive_identity_view a (Some e) md rel' = v"
      unfolding v_def e(1) by (intro rederive_same written_shows_view readable)
    then show ?thesis
      using True by (simp add: e md apply_identity_view_alt absorb option.map_comp o_def)
  next
    case False
    then have e: "e = apply_event v (obj_of ev)" "m = obj_of md"
      "rel' = (if relationship_empty ?r then None else Some ?r)"
      using out by (auto simp: apply_identity_view_alt)
    then have "derive_identity_view a (Some e) md rel' = v"
      unfolding v_def e(1) by (intro rederive_same written_shows_view readable) auto
    moreover have "envelope rel' = ?r"
      using e(3) cl relationship_empty_cloned [of ?r] by (auto simp: envelope_def cloned_def)
    then have "apply_relationship v (envelope rel') = ?r" using clean by (simp add: apply_relationship_idem)
    ultimately show ?thesis
      using False by (simp add: apply_identity_view_alt e(1,2) md apply_event_idem)
        (use e(3) in auto)
  qed
qed

end
