(* ===== verification/Build.thy ===== *)
theory Build
  imports Identity Store
begin

text \<open>
  From a source's input to a Proof record: \<open>core/normalize/normalize.go\<close> (source contracts,
  aliases, defaults), \<open>core/redact\<close> (rules that hash, mask or omit the values at a path) and
  \<open>core/record/builder.go\<close>, which derives the identity once more, redacts, validates and calls
  the Proof library. The hash of a canonical value, the JSON schema of the normalized payload and
  \<open>proof.NewRecord\<close> are the record \<open>record_lib\<close>.
\<close>

section \<open>Normalizing an input\<close>

record norm_input =
  ni_source_type :: string
  ni_source :: string
  ni_source_product :: string
  ni_record_type :: string
  ni_agent_id :: string
  ni_timestamp :: instant
  ni_event :: gmap
  ni_metadata :: gmap
  ni_relationship :: "relationship option"
  ni_permissions :: bool
  ni_scope :: string

record norm_record =
  nr_source :: string
  nr_source_product :: string
  nr_record_type :: string
  nr_agent_id :: string
  nr_timestamp :: instant
  nr_event :: gmap
  nr_metadata :: gmap
  nr_relationship :: "relationship option"
  nr_permissions :: bool
  nr_scope :: string

datatype norm_error = UnsupportedSource string | EventRequired | MissingEventKey string string

record source_contract =
  sc_record_type :: string
  sc_required :: "string list"

definition contracts :: "(string \<times> source_contract) list" where
  "contracts =
     map (\<lambda>(k, t, req). (k, \<lparr>sc_record_type = t, sc_required = req\<rparr>))
      [(''mcp'', ''tool_invocation'', [''tool_name'']),
       (''llmapi'', ''decision'', [''model'']),
       (''cicd'', ''deployment'', [''pipeline'']),
       (''githubactions'', ''deployment'', [''workflow'']),
       (''data_pipeline'', ''data_pipeline_run'', [''job_name'']),
       (''dbt'', ''data_pipeline_run'', [''job_name'']),
       (''snowflake'', ''data_pipeline_run'', [''job_name'']),
       (''webhook'', ''policy_enforcement'', [''webhook_id'']),
       (''gitmeta'', ''model_change'', [''commit_sha'']),
       (''governance_event'', ''policy_enforcement'', [''governance_event_type'']),
       (''plugin'', ''tool_invocation'', []),
       (''wrkr'', ''scan_finding'', [''finding_id'']),
       (''gait'', ''policy_enforcement'', [''decision''])]"

definition alias_key :: "string \<Rightarrow> string \<Rightarrow> gobj \<Rightarrow> gobj" where
  \<comment> \<open>copy the value of the old key when the new one is missing\<close>
  "alias_key new old event =
     (case (map_of event new, map_of event old) of
        (None, Some v) \<Rightarrow> AList.update new v event
      | _ \<Rightarrow> event)"

definition apply_aliases :: "string \<Rightarrow> gobj \<Rightarrow> gobj" where
  "apply_aliases source_type event =
     (if source_type = ''mcp'' then alias_key ''tool_name'' ''tool'' event
      else if source_type = ''data_pipeline'' then alias_key ''job_name'' ''job'' event
      else if source_type = ''cicd'' then alias_key ''pipeline'' ''pipeline_name'' event
      else event)"

definition normalize_timestamp :: "instant \<Rightarrow> instant \<Rightarrow> instant" where
  "normalize_timestamp now t =
     (if is_zero_time (truncate_second t) then truncate_second now else truncate_second t)"

definition go_normalize :: "instant \<Rightarrow> norm_input \<Rightarrow> (norm_error, norm_record) result" where
  "go_normalize now i =
    (let st = to_lower (trim_space (ni_source_type i)) in
     case map_of contracts st of
       None \<Rightarrow> Inl (UnsupportedSource (ni_source_type i))
     | Some c \<Rightarrow>
        if ni_event i = None then Inl EventRequired
        else
          (let event0 = apply_aliases st (json_object (ni_event i));
               metadata0 = json_object (ni_metadata i);
               view = derive_identity_view (ni_agent_id i) (Some event0) (Some metadata0) (ni_relationship i);
               (event, metadata, rel) = apply_identity_view (Some event0) (Some metadata0) (ni_relationship i) view
           in case find (\<lambda>k. map_of event k = None) (sc_required c) of
                Some k \<Rightarrow> Inl (MissingEventKey k st)
              | None \<Rightarrow>
                  Inr \<lparr>nr_source = default_to (trim_space (ni_source i)) st,
                       nr_source_product = default_to (trim_space (ni_source_product i)) ''axym'',
                       nr_record_type = default_to (trim_space (ni_record_type i)) (sc_record_type c),
                       nr_agent_id = trim_space (ni_agent_id i),
                       nr_timestamp = normalize_timestamp now (ni_timestamp i),
                       nr_event = Some event, nr_metadata = Some metadata, nr_relationship = rel,
                       nr_permissions = ni_permissions i, nr_scope = ni_scope i\<rparr>))"

section \<open>Redaction\<close>

record redact_rule =
  ru_path :: string
  ru_action :: string

record redact_config =
  rc_event :: "redact_rule list"
  rc_metadata :: "redact_rule list"

datatype redact_error =
    PathRequired
  | UnsupportedAction string string
  | InvalidIndex string
  | NonObject string
  | HashFailed

definition atoi :: "string \<Rightarrow> int option" where
  \<comment> \<open>\<open>strconv.Atoi\<close> for a 64-bit \<open>int\<close>\<close>
  "atoi s =
     (let (neg, ds) = (case s of
            [] \<Rightarrow> (False, [])
          | c # cs \<Rightarrow> if c = CHR ''-'' then (True, cs) else if c = CHR ''+'' then (False, cs) else (False, s));
          n = (if neg then - digits_value ds else digits_value ds)
      in if ds = [] \<or> \<not> list_all is_digit ds \<or> n < - (2 ^ 63) \<or> 2 ^ 63 \<le> n then None else Some n)"

definition redact_leaf :: "(gvalue \<Rightarrow> string option) \<Rightarrow> string \<Rightarrow> string \<Rightarrow> gvalue \<Rightarrow> gobj \<Rightarrow> (redact_error, gobj) result" where
  \<comment> \<open>the last key of the path: \<open>hash\<close> returns the hex digest of the canonical value\<close>
  "redact_leaf hash action key child kvs =
     (if action = ''omit'' then Inr (AList.delete key kvs)
      else if action = ''mask'' then Inr (AList.update key (VStr ''***'') kvs)
      else if action = ''hash'' then
        (case hash child of None \<Rightarrow> Inl HashFailed
         | Some h \<Rightarrow> Inr (AList.update key (VStr (''sha256:'' @ h)) kvs))
      else Inr kvs)"

fun map_result :: "('a \<Rightarrow> ('e, 'b) result) \<Rightarrow> 'a list \<Rightarrow> ('e, 'b list) result" where
  "map_result f [] = Inr []"
| "map_result f (x # xs) = bind_result (f x) (\<lambda>y. bind_result (map_result f xs) (\<lambda>ys. Inr (y # ys)))"

fun apply_value ::
  "(gvalue \<Rightarrow> string option) \<Rightarrow> string \<Rightarrow> string list \<Rightarrow> gvalue \<Rightarrow> (redact_error, gvalue) result" where
  "apply_value hash action [] v = Inr v"
| "apply_value hash action (s # segs) v =
    (case v of
       VArr items \<Rightarrow>
         if s = ''*'' then bind_result (map_result (apply_value hash action segs) items) (\<lambda>xs. Inr (VArr xs))
         else (case atoi s of
             None \<Rightarrow> Inl (InvalidIndex (join ''.'' (s # segs)))
           | Some i \<Rightarrow>
               if i < 0 \<or> int (length items) \<le> i then Inl (InvalidIndex (join ''.'' (s # segs)))
               else bind_result (apply_value hash action segs (items ! nat i))
                      (\<lambda>x. Inr (VArr (items[nat i := x]))))
     | VObj kvs \<Rightarrow>
         (case map_of kvs s of
            None \<Rightarrow> Inr v
          | Some child \<Rightarrow>
              if segs \<noteq> [] then
                bind_result (apply_value hash action segs child) (\<lambda>x. Inr (VObj (AList.update s x kvs)))
              else bind_result (redact_leaf hash action s child kvs) (\<lambda>kvs. Inr (VObj kvs)))
     | _ \<Rightarrow> Inl (NonObject (join ''.'' (s # segs))))"

definition rule_before :: "redact_rule \<Rightarrow> redact_rule \<Rightarrow> bool" where
  "rule_before a b \<longleftrightarrow>
     (if ru_path a = ru_path b then ru_action a < ru_action b else ru_path a < ru_path b)"

definition rule_path :: "redact_rule \<Rightarrow> string list" where
  "rule_path r = split_char CHR ''.'' (trim_space (ru_path r))"

definition apply_one ::
  "(gvalue \<Rightarrow> string option) \<Rightarrow> redact_rule \<Rightarrow> gvalue \<Rightarrow> (redact_error, gvalue) result" where
  "apply_one hash r v =
     (if trim_space (ru_path r) = [] then Inl PathRequired
      else if ru_action r \<notin> set [''hash'', ''omit'', ''mask''] then
        Inl (UnsupportedAction (ru_action r) (trim_space (ru_path r)))
      else apply_value hash (ru_action r) (rule_path r) v)"

fun apply_each :: "(gvalue \<Rightarrow> string option) \<Rightarrow> redact_rule list \<Rightarrow> gvalue \<Rightarrow> (redact_error, gvalue) result" where
  "apply_each hash [] v = Inr v"
| "apply_each hash (r # rs) v = bind_result (apply_one hash r v) (apply_each hash rs)"

definition apply_rules :: "(gvalue \<Rightarrow> string option) \<Rightarrow> redact_rule list \<Rightarrow> gobj \<Rightarrow> (redact_error, gobj) result" where
  "apply_rules hash rules kvs =
     bind_result (apply_each hash (go_sort rule_before rules) (VObj kvs))
       (\<lambda>v. case v of VObj kvs \<Rightarrow> Inr kvs | _ \<Rightarrow> Inr kvs)"

definition redact_apply ::
  "(gvalue \<Rightarrow> string option) \<Rightarrow> redact_config \<Rightarrow> gmap \<Rightarrow> gmap \<Rightarrow> (redact_error, gobj \<times> gobj) result" where
  "redact_apply hash cfg event metadata =
     bind_result (apply_rules hash (rc_event cfg) (json_object event)) (\<lambda>e.
     bind_result (apply_rules hash (rc_metadata cfg) (json_object metadata)) (\<lambda>m. Inr (e, m)))"

section \<open>Building the record\<close>

record record_opts =
  \<comment> \<open>the data of the normalized payload, which are those of \<open>proof.RecordOpts\<close>\<close>
  op_source :: string
  op_source_product :: string
  op_agent_id :: string
  op_record_type :: string
  op_timestamp :: instant
  op_event :: gmap
  op_metadata :: gmap
  op_relationship :: "relationship option"
  op_permissions :: bool
  op_scope :: string

record record_lib =
  rb_hash :: "gvalue \<Rightarrow> string option"
  rb_schema_ok :: "record_opts \<Rightarrow> bool"
  rb_new :: "record_opts \<Rightarrow> proof_record option"

datatype build_error = BuildError string string

definition record_opts_of ::
  "record_lib \<Rightarrow> redact_config \<Rightarrow> norm_record \<Rightarrow> (build_error, record_opts) result" where
  \<comment> \<open>what \<open>Build\<close> assembles before it validates\<close>
  "record_opts_of lib cfg n =
    (let view = derive_identity_view (nr_agent_id n) (nr_event n) (nr_metadata n) (nr_relationship n);
         (e0, m0, rel) = apply_identity_view (nr_event n) (nr_metadata n) (nr_relationship n) view
     in case redact_apply (rb_hash lib) cfg (Some e0) (Some m0) of
          Inl err \<Rightarrow> Inl (BuildError ''mapping_error'' ''redaction failed'')
        | Inr (e1, m1) \<Rightarrow>
           let (event, metadata) = canonicalize_event_and_metadata (Some e1) (Some m1)
           in Inr \<lparr>op_source = nr_source n, op_source_product = nr_source_product n,
                 op_agent_id = nr_agent_id n, op_record_type = nr_record_type n,
                 op_timestamp = nr_timestamp n, op_event = event, op_metadata = metadata,
                 op_relationship = rel, op_permissions = nr_permissions n, op_scope = nr_scope n\<rparr>)"

definition build :: "proof_lib \<Rightarrow> record_lib \<Rightarrow> redact_config \<Rightarrow> norm_record \<Rightarrow> (build_error, proof_record) result" where
  "build plib lib cfg n =
     bind_result (record_opts_of lib cfg n) (\<lambda>opts.
       if \<not> rb_schema_ok lib opts then Inl (BuildError ''schema_error'' ''normalized payload failed schema validation'')
       else case rb_new lib opts of
              None \<Rightarrow> Inl (BuildError ''invalid_record'' ''create proof record'')
            | Some r \<Rightarrow>
                if \<not> pl_validate plib r then Inl (BuildError ''schema_error'' ''proof record failed schema validation'')
                else if pr_record_hash r = [] then Inl (BuildError ''invalid_record'' ''record hash is empty'')
                else Inr r)"

definition normalize_and_build ::
  "proof_lib \<Rightarrow> record_lib \<Rightarrow> instant \<Rightarrow> redact_config \<Rightarrow> norm_input \<Rightarrow> (build_error, proof_record) result" where
  "normalize_and_build plib lib now cfg i =
     (case go_normalize now i of
        Inl _ \<Rightarrow> Inl (BuildError ''mapping_error'' ''normalize input'')
      | Inr n \<Rightarrow> build plib lib cfg n)"

section \<open>Redaction reaches every selected value\<close>

text \<open>
  The values a path selects when its last segment is a key of an object: all that redaction can
  change. A path that ends at an array selects nothing.
\<close>

fun selected :: "string list \<Rightarrow> gvalue \<Rightarrow> gvalue list" where
  "selected [] v = []"
| "selected (s # segs) v =
    (case v of
       VArr items \<Rightarrow>
         if s = ''*'' then concat (map (selected segs) items)
         else (case atoi s of
             None \<Rightarrow> []
           | Some i \<Rightarrow> if i < 0 \<or> int (length items) \<le> i then [] else selected segs (items ! nat i))
     | VObj kvs \<Rightarrow>
         (case map_of kvs s of
            None \<Rightarrow> []
          | Some child \<Rightarrow> if segs = [] then [child] else selected segs child)
     | _ \<Rightarrow> [])"

definition redacted :: "gvalue \<Rightarrow> bool" where
  "redacted v = (case v of VStr s \<Rightarrow> s = ''***'' \<or> prefix ''sha256:'' s | _ \<Rightarrow> False)"

lemma redacted_string: "redacted v \<Longrightarrow> \<exists>s. v = VStr s"
  by (simp add: redacted_def split: gvalue.splits)

lemma selected_string [simp]: "selected p (VStr s) = []"
  by (cases p) simp_all

lemma map_result_Inr:
  "map_result f xs = Inr ys \<Longrightarrow> list_all2 (\<lambda>x y. f x = Inr y) xs ys"
  by (induction f xs arbitrary: ys rule: map_result.induct) (auto simp: bind_result_Inr_iff)

lemma redact_leaf_lookup:
  assumes "redact_leaf hash action key child kvs = Inr kvs'" and "action \<in> set [''hash'', ''omit'', ''mask'']"
  shows "k \<noteq> key \<Longrightarrow> map_of kvs' k = map_of kvs k" and "map_of kvs' key = Some v \<Longrightarrow> redacted v"
  using assms by (auto simp: redact_leaf_def redacted_def split: if_splits option.splits)

lemma apply_value_redacts:
  assumes "apply_value hash action p v = Inr v'" and "action \<in> set [''hash'', ''omit'', ''mask'']"
  shows "list_all redacted (selected p v')"
  using assms
proof (induction p arbitrary: v v')
  case (Cons s segs)
  show ?case
  proof (cases v)
    case (VArr items)
    show ?thesis
    proof (cases "s = ''*''")
      case True
      then obtain ys where "map_result (apply_value hash action segs) items = Inr ys" "v' = VArr ys"
        using Cons.prems VArr by (auto simp: bind_result_Inr_iff)
      then have "\<forall>y \<in> set ys. \<exists>x. apply_value hash action segs x = Inr y"
        using map_result_Inr [of "apply_value hash action segs" items ys]
        by (fastforce simp: in_set_conv_nth list_all2_conv_all_nth)
      then have "\<forall>y \<in> set ys. list_all redacted (selected segs y)"
        using Cons.IH Cons.prems(2) by blast
      with \<open>v' = VArr ys\<close> True show ?thesis by (auto simp: list_all_iff)
    next
      case False
      then obtain i x where "atoi s = Some i" "0 \<le> i" "i < int (length items)"
        "apply_value hash action segs (items ! nat i) = Inr x" "v' = VArr (items[nat i := x])"
        using Cons.prems VArr by (auto simp: bind_result_Inr_iff not_le not_less split: option.splits if_splits)
      then show ?thesis
        using False Cons.IH Cons.prems(2) by (auto simp: nat_less_iff)
    qed
  next
    case (VObj kvs)
    show ?thesis
    proof (cases "map_of kvs s")
      case None
      then have "v' = VObj kvs" using Cons.prems VObj by simp
      with None show ?thesis by simp
    next
      case (Some child)
      show ?thesis
      proof (cases "segs = []")
        case True
        then obtain kvs' where leaf: "redact_leaf hash action s child kvs = Inr kvs'" "v' = VObj kvs'"
          using Cons.prems VObj Some by (auto simp: bind_result_Inr_iff)
        then show ?thesis
          using redact_leaf_lookup(2) [OF leaf(1) Cons.prems(2)] True by (cases "map_of kvs' s") auto
      next
        case False
        then obtain x where "apply_value hash action segs child = Inr x" "v' = VObj (AList.update s x kvs)"
          using Cons.prems VObj Some by (auto simp: bind_result_Inr_iff)
        then show ?thesis using False Cons.IH Cons.prems(2) by simp
      qed
    qed
  qed (use Cons.prems in auto)
qed simp

text \<open>A later rule never uncovers what an earlier one redacted.\<close>

lemma apply_value_keeps:
  assumes "apply_value hash action q v = Inr v'" and "action \<in> set [''hash'', ''omit'', ''mask'']"
    and "list_all redacted (selected p v)"
  shows "list_all redacted (selected p v')"
  using assms
proof (induction q arbitrary: p v v')
  case (Cons s segs)
  show ?case
  proof (cases p)
    case Nil
    then show ?thesis by simp
  next
    case p: (Cons t ps)
    note IH = Cons.IH [OF _ Cons.prems(2)]
    show ?thesis
    proof (cases v)
      case (VArr items)
      define kept where "kept ys \<longleftrightarrow> length ys = length items \<and>
        (\<forall>i < length items. \<forall>ps. list_all redacted (selected ps (items ! i)) \<longrightarrow> list_all redacted (selected ps (ys ! i)))"
        for ys
      have "\<exists>ys. v' = VArr ys \<and> kept ys"
      proof (cases "s = ''*''")
        case True
        then obtain ys where ys: "map_result (apply_value hash action segs) items = Inr ys" "v' = VArr ys"
          using Cons.prems VArr by (auto simp: bind_result_Inr_iff)
        then show ?thesis
          using IH map_result_Inr [OF ys(1)] unfolding kept_def by (auto simp: list_all2_conv_all_nth)
      next
        case False
        then obtain i x where x: "apply_value hash action segs (items ! nat i) = Inr x" "v' = VArr (items[nat i := x])"
          "nat i < length items"
          using Cons.prems VArr by (auto simp: bind_result_Inr_iff nat_less_iff split: option.splits if_splits)
        then show ?thesis
          using IH [OF x(1)] unfolding kept_def
          by (intro exI [of _ "items[nat i := x]"]) (auto simp: nth_list_update)
      qed
      then obtain ys where ys: "v' = VArr ys" "kept ys" by blast
      note len = ys(2) [unfolded kept_def, THEN conjunct1]
        and keep = ys(2) [unfolded kept_def, THEN conjunct2, rule_format]
      show ?thesis
      proof (cases "t = ''*''")
        case True
        have "list_all redacted (selected ps (items ! i))" if "i < length items" for i
          using Cons.prems(3) nth_mem [OF that] by (simp add: p VArr True list_all_iff)
        then have "list_all redacted (selected ps (ys ! i))" if "i < length items" for i
          using keep that by simp
        then have "\<forall>y \<in> set ys. list_all redacted (selected ps y)"
          by (simp add: all_set_conv_all_nth len)
        then show ?thesis by (simp add: p ys(1) True list_all_iff)
      next
        case False
        show ?thesis
        proof (cases "\<exists>i. atoi t = Some i \<and> 0 \<le> i \<and> i < int (length items)")
          case True
          then obtain i where i: "atoi t = Some i" "0 \<le> i" "nat i < length items"
            by (auto simp: nat_less_iff)
          have "list_all redacted (selected ps (items ! nat i))"
            using Cons.prems(3) i False by (simp add: p VArr zless_nat_eq_int_zless nat_less_iff)
          then show ?thesis using keep i False by (simp add: p ys(1) len)
        next
          case none: False
          then show ?thesis using False by (cases "atoi t") (auto simp: p ys(1) len)
        qed
      qed
    next
      case (VObj kvs)
      show ?thesis
      proof (cases "map_of kvs s")
        case None
        then show ?thesis using Cons.prems VObj by simp
      next
        case (Some child)
        show ?thesis
        proof (cases "segs = []")
          case True
          then obtain kvs' where leaf: "redact_leaf hash action s child kvs = Inr kvs'" "v' = VObj kvs'"
            using Cons.prems VObj Some by (auto simp: bind_result_Inr_iff)
          have "map_of kvs' t = map_of kvs t \<or> (\<forall>w. map_of kvs' t = Some w \<longrightarrow> redacted w)"
            using redact_leaf_lookup [OF leaf(1) Cons.prems(2)] by (cases "t = s") auto
          then show ?thesis
            using Cons.prems(3) redacted_string unfolding p VObj leaf(2)
            by (fastforce split: option.splits if_splits)
        next
          case False
          then obtain x where x: "apply_value hash action segs child = Inr x" "v' = VObj (AList.update s x kvs)"
            using Cons.prems VObj Some by (auto simp: bind_result_Inr_iff)
          have "redacted child \<Longrightarrow> x = child \<or> False"
            using x(1) False redacted_string [of child] by (cases segs) auto
          then show ?thesis
            using Cons.prems(3) IH [OF x(1)] Some unfolding p VObj x(2)
            by (auto split: option.splits if_splits)
        qed
      qed
    qed (use Cons.prems in auto)
  qed
qed simp

lemma apply_each_redacts:
  assumes "apply_each hash rs v = Inr v'"
  shows "(\<forall>p. list_all redacted (selected p v) \<longrightarrow> list_all redacted (selected p v')) \<and>
    (\<forall>r \<in> set rs. list_all redacted (selected (rule_path r) v')) \<and> (\<forall>kvs. v = VObj kvs \<longrightarrow> (\<exists>kvs'. v' = VObj kvs'))"
  using assms
proof (induction hash rs v rule: apply_each.induct)
  case (2 hash r rs v)
  obtain w where w: "apply_one hash r v = Inr w" "apply_each hash rs w = Inr v'"
    using "2.prems" by (auto simp: bind_result_Inr_iff)
  then have one: "apply_value hash (ru_action r) (rule_path r) v = Inr w"
    "ru_action r \<in> set [''hash'', ''omit'', ''mask'']"
    by (auto simp: apply_one_def split: if_splits)
  have "\<exists>kvs'. w = VObj kvs'" if "v = VObj kvs" for kvs
    using one(1) that by (cases "rule_path r") (auto simp: bind_result_Inr_iff split: option.splits if_splits)
  then show ?case
    using "2.IH" [OF w(2)] apply_value_redacts [OF one] apply_value_keeps [OF one] by auto
qed auto

lemma apply_rules_redacts:
  assumes "apply_rules hash rules kvs = Inr out" and "r \<in> set rules"
  shows "list_all redacted (selected (rule_path r) (VObj out))"
proof -
  obtain v where v: "apply_each hash (go_sort rule_before rules) (VObj kvs) = Inr v"
    "(case v of VObj kvs \<Rightarrow> Inr kvs | _ \<Rightarrow> Inr kvs) = (Inr out :: (redact_error, gobj) result)"
    using assms(1) by (auto simp: apply_rules_def bind_result_Inr_iff)
  then show ?thesis
    using apply_each_redacts [OF v(1)] assms(2) by (auto split: gvalue.splits)
qed

lemma redact_apply_redacts:
  assumes "redact_apply hash cfg ev md = Inr (e, m)"
  shows "list_all (\<lambda>r. list_all redacted (selected (rule_path r) (VObj e))) (rc_event cfg)"
    and "list_all (\<lambda>r. list_all redacted (selected (rule_path r) (VObj m))) (rc_metadata cfg)"
  using assms apply_rules_redacts by (auto simp: redact_apply_def bind_result_Inr_iff list_all_iff)

text \<open>A rule whose path ends at an array changes nothing.\<close>

fun ends_at_array :: "string list \<Rightarrow> gvalue \<Rightarrow> bool" where
  "ends_at_array [] v = False"
| "ends_at_array (s # segs) v =
    (case v of
       VArr items \<Rightarrow>
         if segs = [] then s = ''*''
         else s = ''*'' \<and> list_all (ends_at_array segs) items
     | VObj kvs \<Rightarrow>
         (case map_of kvs s of None \<Rightarrow> False | Some child \<Rightarrow> segs \<noteq> [] \<and> ends_at_array segs child)
     | _ \<Rightarrow> False)"

lemma map_result_id:
  "(\<And>x. x \<in> set xs \<Longrightarrow> f x = Inr x) \<Longrightarrow> map_result f xs = Inr xs"
  by (induction xs) auto

lemma alist_update_same: "map_of kvs k = Some v \<Longrightarrow> AList.update k v kvs = kvs"
  by (induction kvs) auto

lemma apply_value_array_end:
  "ends_at_array p v \<Longrightarrow> apply_value hash action p v = Inr v"
proof (induction p arbitrary: v)
  case (Cons s segs)
  show ?case
  proof (cases v)
    case (VArr items)
    show ?thesis
    proof (cases "segs = []")
      case True
      have "map_result (apply_value hash action []) items = Inr items" by (rule map_result_id) simp
      with True Cons.prems VArr show ?thesis by simp
    next
      case False
      have "map_result (apply_value hash action segs) items = Inr items"
        using Cons False VArr by (intro map_result_id) (auto simp: list_all_iff)
      with False Cons.prems VArr show ?thesis by simp
    qed
  next
    case (VObj kvs)
    then obtain child where "map_of kvs s = Some child" "segs \<noteq> []" "ends_at_array segs child"
      using Cons.prems by (auto split: option.splits)
    then show ?thesis using Cons.IH [of child] VObj by (simp add: alist_update_same)
  qed (use Cons.prems in auto)
qed simp

section \<open>What normalization accepts and returns\<close>

lemma as_string_json_value: "as_string (map_option json_value v) = as_string v"
proof (cases v)
  case (Some x)
  then show ?thesis by (cases x) (auto simp: as_string_def)
qed simp

lemma map_string_json_object [simp]: "map_string (Some (json_object m)) k = map_string m k"
  by (simp add: map_string_def map_of_json_object as_string_json_value)

lemma map_of_alias_key:
  "map_of (alias_key new old event) k =
     (if k = new \<and> map_of event new = None then map_of event old else map_of event k)"
  by (auto simp: alias_key_def split: option.splits)

definition alias_of :: "string \<Rightarrow> string \<Rightarrow> string option" where
  \<comment> \<open>the older name a source type accepts for a key\<close>
  "alias_of st k =
     map_of [((''mcp'', ''tool_name''), ''tool''), ((''data_pipeline'', ''job_name''), ''job''),
             ((''cicd'', ''pipeline''), ''pipeline_name'')] (st, k)"

lemma map_of_apply_aliases:
  "map_of (apply_aliases st event) k =
     (case (map_of event k, alias_of st k) of
        (None, Some old) \<Rightarrow> map_of event old
      | _ \<Rightarrow> map_of event k)"
  by (auto simp: apply_aliases_def alias_of_def map_of_alias_key split: option.splits)

lemma readable_aliases:
  "identity_keys_readable (Some (apply_aliases st (json_object ev))) = identity_keys_readable ev"
proof -
  have "map_of (apply_aliases st (json_object ev)) k = map_of (json_object ev) k"
    if "k \<noteq> ''tool_name''" "k \<noteq> ''job_name''" "k \<noteq> ''pipeline''" for k
    using that by (auto simp: map_of_apply_aliases alias_of_def split: option.splits)
  then have "mget (Some (apply_aliases st (json_object ev))) k = None \<longleftrightarrow> mget ev k = None"
    "map_string (Some (apply_aliases st (json_object ev))) k = map_string ev k"
    if "k \<noteq> ''tool_name''" "k \<noteq> ''job_name''" "k \<noteq> ''pipeline''" for k
    using that map_string_cong [of "Some (apply_aliases st (json_object ev))" k "Some (json_object ev)" k]
    by (simp_all add: map_of_json_object)
  then show ?thesis by (simp add: identity_keys_readable_def)
qed

lemma required_not_identity:
  assumes "map_of contracts st = Some c" and "k \<in> set (sc_required c)"
  shows "map_of (identity_fields v) k = None \<and> k \<noteq> ''delegation_chain''"
proof -
  have "list_all (\<lambda>p. list_all (\<lambda>k. map_of (identity_fields v) k = None \<and> k \<noteq> ''delegation_chain'')
      (sc_required (snd p))) contracts"
    by (simp add: contracts_def identity_fields_def)
  then show ?thesis using assms map_of_SomeD [OF assms(1)] by (auto simp: list_all_iff)
qed

lemma apply_event_required:
  assumes "map_of contracts st = Some c" and "k \<in> set (sc_required c)"
  shows "map_of (fst (apply_identity_view (Some e) md rel v)) k = map_of e k"
  using required_not_identity [OF assms, of v]
  by (auto simp: apply_identity_view_alt map_of_apply_event)

text \<open>The parts of a normalization, named.\<close>

definition normalized_view :: "norm_input \<Rightarrow> identity_view" where
  "normalized_view i =
     derive_identity_view (ni_agent_id i)
       (Some (apply_aliases (to_lower (trim_space (ni_source_type i))) (json_object (ni_event i))))
       (Some (json_object (ni_metadata i))) (ni_relationship i)"

lemma go_normalize_Inr:
  assumes "go_normalize now i = Inr n"
  obtains e m rel where
    "apply_identity_view (Some (apply_aliases (to_lower (trim_space (ni_source_type i))) (json_object (ni_event i))))
       (Some (json_object (ni_metadata i))) (ni_relationship i) (normalized_view i) = (e, m, rel)"
    "nr_event n = Some e" "nr_metadata n = Some m" "nr_relationship n = rel"
    "nr_agent_id n = trim_space (ni_agent_id i)"
  using assms unfolding go_normalize_def normalized_view_def
  by (auto simp: Let_def split: option.splits if_splits prod.splits)

lemma derive_trim_agent [simp]: "derive_identity_view (trim_space a) ev md rel = derive_identity_view a ev md rel"
  by (simp add: derive_identity_view_def base_view_def del: first_non_empty_simps first_non_empty_append)

text \<open>
  C31: when no identity key of the input event is present with a blank or ill-typed value, the
  record \<open>Normalize\<close> returns already carries its identity. The second derivation that \<open>Build\<close>
  makes from the normalized event, metadata and relationship finds the view \<open>Normalize\<close> found, and
  writing it back changes none of the three. In the view, the actor, the executor and the delegation
  chain are known together or not at all.
\<close>

theorem normalize_identity_stable:
  assumes "go_normalize now i = Inr n" and "identity_keys_readable (ni_event i)"
  shows "\<exists>e m. nr_event n = Some e \<and> nr_metadata n = Some m \<and>
    derive_identity_view (nr_agent_id n) (nr_event n) (nr_metadata n) (nr_relationship n) = normalized_view i \<and>
    apply_identity_view (nr_event n) (nr_metadata n) (nr_relationship n) (normalized_view i) = (e, m, nr_relationship n) \<and>
    (iv_actor (normalized_view i) = [] \<longleftrightarrow> iv_downstream (normalized_view i) = []) \<and>
    (iv_actor (normalized_view i) = [] \<longleftrightarrow> iv_chain (normalized_view i) = [])"
proof -
  let ?st = "to_lower (trim_space (ni_source_type i))"
  obtain e m rel where out:
    "apply_identity_view (Some (apply_aliases ?st (json_object (ni_event i)))) (Some (json_object (ni_metadata i)))
       (ni_relationship i) (normalized_view i) = (e, m, rel)"
    and n: "nr_event n = Some e" "nr_metadata n = Some m" "nr_relationship n = rel"
      "nr_agent_id n = trim_space (ni_agent_id i)"
    using assms(1) by (rule go_normalize_Inr)
  have "identity_keys_readable (Some (apply_aliases ?st (json_object (ni_event i))))"
    using assms(2) by (simp add: readable_aliases)
  from fill_twice [OF this out [unfolded normalized_view_def]] show ?thesis
    unfolding n derive_trim_agent normalized_view_def [symmetric]
    using derive_linked by (metis normalized_view_def)
qed

definition demo_input :: norm_input where
  "demo_input =
     \<lparr>ni_source_type = '' MCP'', ni_source = [], ni_source_product = [], ni_record_type = [],
      ni_agent_id = ''agent-7'', ni_timestamp = 1500000000, ni_event = Some [(''tool'', VStr ''db.query'')],
      ni_metadata = None, ni_relationship = None, ni_permissions = True, ni_scope = []\<rparr>"

definition demo_event :: gobj where
  "demo_event =
     [(''tool'', VStr ''db.query''), (''tool_name'', VStr ''db.query''), (''actor_identity'', VStr ''agent-7''),
      (''downstream_identity'', VStr ''agent-7''), (''target_kind'', VStr ''tool''), (''target_id'', VStr ''db.query''),
      (''delegation_chain'', VObjs [[(''identity'', VStr ''agent-7''), (''role'', VStr ''delegate'')]])]"

definition demo_relationship :: relationship where
  "demo_relationship = empty_relationship
     \<lparr>rel_entity_refs := [\<lparr>rr_kind = ''agent'', rr_id = ''agent-7'', rr_digest = [], rr_schema_id = [], rr_schema_version = [],
           rr_source_product = [], rr_extra = []\<rparr>,
                          \<lparr>rr_kind = ''tool'', rr_id = ''db.query'', rr_digest = [], rr_schema_id = [], rr_schema_version = [],
           rr_source_product = [], rr_extra = []\<rparr>],
      rel_agent_chain := [\<lparr>hop_identity = ''agent-7'', hop_role = ''delegate'', hop_extra = []\<rparr>]\<rparr>"

definition demo_norm :: norm_record where
  "demo_norm =
     \<lparr>nr_source = ''mcp'', nr_source_product = ''axym'', nr_record_type = ''tool_invocation'',
      nr_agent_id = ''agent-7'', nr_timestamp = 1000000000, nr_event = Some demo_event, nr_metadata = Some [],
      nr_relationship = Some demo_relationship, nr_permissions = True, nr_scope = []\<rparr>"

lemma demo_normalize: "go_normalize 0 demo_input = Inr demo_norm"
  by code_simp

theorem normalize_identity_stable_witness:
  "\<exists>e m. nr_event demo_norm = Some e \<and> nr_metadata demo_norm = Some m \<and>
    apply_identity_view (nr_event demo_norm) (nr_metadata demo_norm) (nr_relationship demo_norm)
      (normalized_view demo_input) = (e, m, nr_relationship demo_norm)"
proof -
  have "identity_keys_readable (ni_event demo_input)" by code_simp
  from normalize_identity_stable [OF demo_normalize this] show ?thesis by blast
qed

text \<open>
  \<open>Normalize\<close> accepts an input exactly when its source type is known after trimming and
  lowering, it has an event, and every key its source requires is in the event under its name or the
  older name that source accepts.
\<close>

theorem normalize_accepts_iff:
  "(\<exists>n. go_normalize now i = Inr n) \<longleftrightarrow>
     (let st = to_lower (trim_space (ni_source_type i)) in
      ni_event i \<noteq> None \<and>
      (\<exists>c. map_of contracts st = Some c \<and>
        list_all (\<lambda>k. case mget (ni_event i) k of Some _ \<Rightarrow> True
            | None \<Rightarrow> (case alias_of st k of None \<Rightarrow> False | Some old \<Rightarrow> mget (ni_event i) old \<noteq> None)) (sc_required c)))"
proof -
  let ?st = "to_lower (trim_space (ni_source_type i))"
  let ?e0 = "apply_aliases ?st (json_object (ni_event i))"
  let ?out = "apply_identity_view (Some ?e0) (Some (json_object (ni_metadata i))) (ni_relationship i) (normalized_view i)"
  let ?has = "\<lambda>k. case mget (ni_event i) k of Some _ \<Rightarrow> True
      | None \<Rightarrow> (case alias_of ?st k of None \<Rightarrow> False | Some old \<Rightarrow> mget (ni_event i) old \<noteq> None)"
  have key: "map_of (fst ?out) k \<noteq> None \<longleftrightarrow> ?has k"
    if "map_of contracts ?st = Some c" "k \<in> set (sc_required c)" for c k
    unfolding apply_event_required [OF that]
    by (auto simp: map_of_apply_aliases map_of_json_object split: option.splits)
  have all: "find (\<lambda>k. map_of (fst ?out) k = None) (sc_required c) = None \<longleftrightarrow> list_all ?has (sc_required c)"
    if "map_of contracts ?st = Some c" for c
    unfolding find_None_iff list_all_iff using key [OF that] by blast
  have "(\<exists>n. go_normalize now i = Inr n) \<longleftrightarrow> ni_event i \<noteq> None \<and>
      (\<exists>c. map_of contracts ?st = Some c \<and> find (\<lambda>k. map_of (fst ?out) k = None) (sc_required c) = None)"
    unfolding go_normalize_def normalized_view_def Let_def by (auto simp: split_beta split: option.splits)
  also have "\<dots> \<longleftrightarrow> ni_event i \<noteq> None \<and>
      (\<exists>c. map_of contracts ?st = Some c \<and> list_all ?has (sc_required c))"
    using all by (metis (no_types, lifting))
  finally show ?thesis unfolding Let_def .
qed

section \<open>What redaction covers\<close>

definition redaction_holds :: "redact_rule list \<Rightarrow> gmap \<Rightarrow> bool" where
  \<comment> \<open>every value a rule selects is masked or hashed\<close>
  "redaction_holds rules m \<longleftrightarrow>
     list_all (\<lambda>r. list_all redacted (selected (rule_path r) (VObj (obj_of m)))) rules"

lemma obj_of_canonical: "obj_of (canonicalize_optional_map m) = obj_of m"
  by (simp add: canonicalize_optional_map_def obj_of_def split: option.splits)

lemma record_opts_redacts:
  assumes "record_opts_of lib cfg n = Inr opts"
  shows "redaction_holds (rc_event cfg) (op_event opts) \<and> redaction_holds (rc_metadata cfg) (op_metadata opts)"
  using assms
  by (auto simp: record_opts_of_def redaction_holds_def Let_def canonicalize_event_and_metadata_def
      obj_of_canonical redact_apply_redacts split: prod.splits sum.splits)

text \<open>
  C15: redaction is complete and final. Whatever rules are configured, in whatever order, if
  \<open>Build\<close> assembles a record then every value that any rule's path selects through the keys of
  objects in the record's event or metadata is the mask or a digest: no later rule uncovers what an
  earlier one redacted, and wildcard segments reach every element.
\<close>

theorem redaction_covers_paths:
  assumes "record_opts_of lib cfg n = Inr opts"
  shows "list_all (\<lambda>r. list_all redacted (selected (rule_path r) (VObj (obj_of (op_event opts))))) (rc_event cfg) \<and>
    list_all (\<lambda>r. list_all redacted (selected (rule_path r) (VObj (obj_of (op_metadata opts))))) (rc_metadata cfg)"
  using record_opts_redacts [OF assms] by (simp add: redaction_holds_def)

definition demo_record_lib :: record_lib where
  "demo_record_lib = \<lparr>rb_hash = (\<lambda>v. Some ''ab''), rb_schema_ok = (\<lambda>opts. True), rb_new = (\<lambda>opts. None)\<rparr>"

definition demo_redaction :: redact_config where
  "demo_redaction =
     \<lparr>rc_event = [\<lparr>ru_path = ''tool'', ru_action = ''omit''\<rparr>, \<lparr>ru_path = ''actor_identity'', ru_action = ''mask''\<rparr>,
                  \<lparr>ru_path = ''delegation_chain.*.identity'', ru_action = ''hash''\<rparr>],
      rc_metadata = []\<rparr>"

definition demo_opts :: record_opts where
  "demo_opts =
     \<lparr>op_source = ''mcp'', op_source_product = ''axym'', op_agent_id = ''agent-7'',
      op_record_type = ''tool_invocation'', op_timestamp = 1000000000,
      op_event = Some
        [(''tool_name'', VStr ''db.query''), (''actor_identity'', VStr ''***''),
         (''downstream_identity'', VStr ''agent-7''), (''target_kind'', VStr ''tool''), (''target_id'', VStr ''db.query''),
         (''delegation_chain'', VArr [VObj [(''identity'', VStr ''sha256:ab''), (''role'', VStr ''delegate'')]])],
      op_metadata = None, op_relationship = Some demo_relationship, op_permissions = True, op_scope = []\<rparr>"

lemma demo_opts_value: "record_opts_of demo_record_lib demo_redaction demo_norm = Inr demo_opts"
  by code_simp

theorem redaction_covers_paths_witness:
  "list_all (\<lambda>r. list_all redacted (selected (rule_path r) (VObj (obj_of (op_event demo_opts))))) (rc_event demo_redaction)"
  using redaction_covers_paths [OF demo_opts_value] by (rule conjunct1)

lemma record_opts_relationship:
  assumes "record_opts_of lib cfg n = Inr opts"
  shows "op_relationship opts = snd (snd (apply_identity_view (nr_event n) (nr_metadata n) (nr_relationship n)
    (derive_identity_view (nr_agent_id n) (nr_event n) (nr_metadata n) (nr_relationship n))))"
  using assms
  by (auto simp: record_opts_of_def Let_def canonicalize_event_and_metadata_def split: prod.splits sum.splits)

text \<open>
  redaction does not reach the relationship envelope. Whatever the configuration, and even when
  it masks the identity keys of the event, the record that \<open>Build\<close> assembles names the derived actor
  and executor in clear among its entity references, because the envelope is filled in from the
  event before the rules run.
\<close>

theorem redaction_misses_relationship:
  fixes n
  defines "v \<equiv> derive_identity_view (nr_agent_id n) (nr_event n) (nr_metadata n) (nr_relationship n)"
  assumes opts: "record_opts_of lib cfg n = Inr opts" and actor: "iv_actor v \<noteq> []"
  shows "\<exists>r. op_relationship opts = Some r \<and>
    (''agent'', iv_actor v) \<in> set (map ref_pair (rel_entity_refs r)) \<and>
    (''agent'', iv_downstream v) \<in> set (map ref_pair (rel_entity_refs r)) \<and> rel_agent_chain r \<noteq> []"
proof -
  let ?r = "apply_relationship v (envelope (nr_relationship n))"
  have clean: "trim_space (iv_actor v) = iv_actor v" "trim_space (iv_downstream v) = iv_downstream v"
    "hops_clean (iv_chain v)"
    unfolding v_def by (rule derive_clean)+
  have linked: "iv_chain v \<noteq> []" "iv_downstream v \<noteq> []"
    using actor derive_linked unfolding v_def by auto
  then have pairs: "(''agent'', iv_actor v) \<in> set (map ref_pair (rel_entity_refs ?r))"
    "(''agent'', iv_downstream v) \<in> set (map ref_pair (rel_entity_refs ?r))" and chain: "rel_agent_chain ?r \<noteq> []"
    using actor clean unfolding apply_relationship_pairs
    by (auto simp: blank_def apply_relationship_chain clone_clean)
  then have "\<not> relationship_empty ?r" by (auto simp: relationship_empty_def)
  moreover have "\<not> view_empty v" using linked by (simp add: view_empty_def)
  ultimately have "op_relationship opts = Some ?r"
    using record_opts_relationship [OF opts] by (simp add: v_def apply_identity_view_alt)
  with pairs chain show ?thesis by blast
qed

theorem redaction_misses_relationship_witness:
  "(''actor_identity'', VStr ''***'') \<in> set (obj_of (op_event demo_opts)) \<and>
   (\<exists>r. op_relationship demo_opts = Some r \<and> (''agent'', ''agent-7'') \<in> set (map ref_pair (rel_entity_refs r)))"
proof -
  have a: "iv_actor (derive_identity_view (nr_agent_id demo_norm) (nr_event demo_norm) (nr_metadata demo_norm)
      (nr_relationship demo_norm)) = ''agent-7''"
    by code_simp
  then have "iv_actor (derive_identity_view (nr_agent_id demo_norm) (nr_event demo_norm) (nr_metadata demo_norm)
      (nr_relationship demo_norm)) \<noteq> []"
    by simp
  from redaction_misses_relationship [OF demo_opts_value this]
  have "\<exists>r. op_relationship demo_opts = Some r \<and> (''agent'', ''agent-7'') \<in> set (map ref_pair (rel_entity_refs r))"
    unfolding a by blast
  moreover have "(''actor_identity'', VStr ''***'') \<in> set (obj_of (op_event demo_opts))"
    by (simp add: demo_opts_def)
  ultimately show ?thesis by blast
qed

text \<open>
  A rule whose path ends at an array, by the wildcard that the code documents as applying to
  every element, leaves the value untouched, without an error: the elements of a list of strings
  cannot be redacted.
\<close>

theorem array_elements_never_redacted:
  assumes "ends_at_array (rule_path r) v" and "ru_action r \<in> set [''hash'', ''omit'', ''mask'']"
    and "trim_space (ru_path r) \<noteq> []"
  shows "apply_one hash r v = Inr v"
  using apply_value_array_end [OF assms(1)] assms(2,3) by (auto simp: apply_one_def)

theorem array_elements_never_redacted_witness:
  "apply_one (rb_hash demo_record_lib) \<lparr>ru_path = ''tokens.*'', ru_action = ''mask''\<rparr>
     (VObj [(''tokens'', VArr [VStr ''secret''])]) = Inr (VObj [(''tokens'', VArr [VStr ''secret''])])"
proof (rule array_elements_never_redacted)
  show "ends_at_array (rule_path \<lparr>ru_path = ''tokens.*'', ru_action = ''mask''\<rparr>) (VObj [(''tokens'', VArr [VStr ''secret''])])"
    by code_simp
  show "trim_space (ru_path \<lparr>ru_path = ''tokens.*'', ru_action = ''mask''\<rparr>) \<noteq> []"
    by code_simp
qed simp

end
