(* ===== verification/Compliance.thy ===== *)
theory Compliance
  imports Identity Store
begin

text \<open>
  The inputs of control matching: \<open>core/compliance/context\<close> (what a record says about data class,
  endpoint, risk and discovery, with weights), \<open>core/compliance/threshold\<close> (coverage thresholds and
  invalid evidence) and \<open>core/compliance/framework\<close> (the normalized framework definitions; the
  Proof library's \<open>LoadFramework\<close> is a parameter). Coverage figures are rationals: the floats of the
  code are fractions of two small integers rounded to four decimals.
\<close>

section \<open>Evidence context\<close>

record evidence_context =
  cx_data_class :: string
  cx_endpoint_class :: string
  cx_risk_level :: string
  cx_discovery :: string

record weights =
  we_data_class :: int
  we_endpoint_class :: int
  we_risk_level :: int
  we_discovery :: int
  we_total :: int

definition lower_string :: "gmap \<Rightarrow> string \<Rightarrow> string" where
  "lower_string m k = to_lower (map_string m k)"

definition lower_trim :: "string \<Rightarrow> string" where
  "lower_trim s = to_lower (trim_space s)"

definition classify_data_class :: "proof_record \<Rightarrow> string" where
  "classify_data_class r =
     (let t = lower_trim (pr_record_type r); s = lower_trim (pr_source r)
      in if contains t ''risk'' then ''restricted''
         else if contains t ''decision'' \<or> contains s ''llm'' then ''sensitive''
         else if contains t ''deployment'' then ''internal''
         else ''unknown'')"

definition classify_endpoint :: "proof_record \<Rightarrow> string" where
  "classify_endpoint r =
     (let v = first_non_empty [lower_string (pr_event r) ''tool_name'', lower_string (pr_event r) ''endpoint'']
      in if contains v ''admin'' \<or> contains v ''root'' then ''admin''
         else if contains v ''write'' \<or> contains v ''delete'' \<or> contains v ''update'' then ''write''
         else if contains v ''read'' \<or> contains v ''get'' then ''read''
         else if v = [] then ''unknown''
         else ''execute'')"

definition classify_risk :: "proof_record \<Rightarrow> string" where
  "classify_risk r =
     (let t = lower_trim (pr_record_type r)
      in if t \<in> set [''risk_assessment'', ''approval'', ''human_oversight''] then ''high''
         else if t \<in> set [''decision'', ''policy_enforcement'', ''permission_check''] then ''medium''
         else if t \<in> set [''tool_invocation'', ''deployment'', ''model_change'', ''data_pipeline_run''] then ''low''
         else ''unknown'')"

definition enrich :: "proof_record \<Rightarrow> evidence_context" where
  "enrich r =
     (let data = first_non_empty [lower_string (pr_metadata r) ''data_class'', lower_string (pr_event r) ''data_class''];
          endpoint = first_non_empty [lower_string (pr_event r) ''endpoint_class'', classify_endpoint r];
          risk = first_non_empty [lower_string (pr_metadata r) ''risk_level'', lower_string (pr_event r) ''risk_level'',
                   classify_risk r];
          discovery = first_non_empty [lower_string (pr_metadata r) ''discovery_method'',
                        lower_string (pr_metadata r) ''evidence_source'', lower_trim (pr_source r)]
      in \<lparr>cx_data_class = default_to data (classify_data_class r),
          cx_endpoint_class = default_to endpoint ''unknown'',
          cx_risk_level = default_to risk ''unknown'',
          cx_discovery = default_to discovery ''unknown''\<rparr>)"

definition score_data_class :: "string \<Rightarrow> int" where
  "score_data_class s =
     (let v = lower_trim s in
      if v = ''restricted'' then 4 else if v = ''sensitive'' then 3 else if v = ''internal'' then 2
      else if v = ''public'' then 1 else 0)"

definition score_endpoint_class :: "string \<Rightarrow> int" where
  "score_endpoint_class s =
     (let v = lower_trim s in
      if v = ''admin'' then 4 else if v = ''write'' then 3 else if v = ''read'' \<or> v = ''execute'' then 2
      else if v = ''unknown'' then 1 else 0)"

definition score_risk_level :: "string \<Rightarrow> int" where
  "score_risk_level s =
     (let v = lower_trim s in
      if v = ''critical'' then 5 else if v = ''high'' then 4 else if v = ''medium'' then 2
      else if v = ''low'' then 1 else 0)"

definition score_discovery :: "string \<Rightarrow> int" where
  "score_discovery s =
     (let v = lower_trim s in
      if contains v ''runtime'' \<or> contains v ''mcp'' \<or> contains v ''llm'' then 3
      else if contains v ''ci'' \<or> contains v ''githubactions'' \<or> contains v ''pipeline'' then 2
      else if contains v ''ingest'' \<or> contains v ''wrkr'' \<or> contains v ''gait'' then 1
      else if v = ''unknown'' \<or> v = [] then 0
      else 1)"

definition score :: "evidence_context \<Rightarrow> weights" where
  "score c =
     (let d = score_data_class (cx_data_class c); e = score_endpoint_class (cx_endpoint_class c);
          r = score_risk_level (cx_risk_level c); f = score_discovery (cx_discovery c)
      in \<lparr>we_data_class = d, we_endpoint_class = e, we_risk_level = r, we_discovery = f,
          we_total = d + e + r + f\<rparr>)"

definition context_before :: "evidence_context \<Rightarrow> evidence_context \<Rightarrow> bool" where
  "context_before a b \<longleftrightarrow>
     (if cx_risk_level a \<noteq> cx_risk_level b then cx_risk_level a < cx_risk_level b
      else if cx_data_class a \<noteq> cx_data_class b then cx_data_class a < cx_data_class b
      else if cx_endpoint_class a \<noteq> cx_endpoint_class b then cx_endpoint_class a < cx_endpoint_class b
      else cx_discovery a < cx_discovery b)"

definition sort_contexts :: "evidence_context list \<Rightarrow> evidence_context list" where
  "sort_contexts cs = go_sort context_before cs"

section \<open>Thresholds and invalid evidence\<close>

record policy_config =
  pc_global :: "rat option"
  pc_framework :: "(string \<times> rat) list"

record framework_figure =
  \<comment> \<open>\<open>threshold.FrameworkCoverage\<close>\<close>
  ff_id :: string
  ff_coverage :: rat
  ff_failing :: "string list"

record failure =
  fa_framework :: string
  fa_required :: rat
  fa_actual :: rat
  fa_failing :: "string list"

definition clamp01 :: "rat \<Rightarrow> rat" where
  "clamp01 x = (if x < 0 then 0 else if x > 1 then 1 else x)"

definition normalize_thresholds :: "(string \<times> rat) list \<Rightarrow> (string \<times> rat) list" where
  \<comment> \<open>\<open>normalizeFrameworkThresholds\<close>: the list is the order in which Go ranges over the map\<close>
  "normalize_thresholds m =
     fold (\<lambda>(k, x) out. if lower_trim k = [] then out else AList.update (lower_trim k) (clamp01 x) out) m []"

definition load_policy :: "string \<Rightarrow> policy_config go_file \<Rightarrow> (string, policy_config) result" where
  "load_policy path file_contents =
     (if trim_space path = [] then Inr \<lparr>pc_global = None, pc_framework = []\<rparr>
      else case file_contents of
             Missing \<Rightarrow> Inl ''read policy config''
           | Unreadable \<Rightarrow> Inl ''read policy config''
           | Corrupt \<Rightarrow> Inl ''decode policy config''
           | Content cfg \<Rightarrow>
               Inr \<lparr>pc_global = map_option clamp01 (pc_global cfg),
                    pc_framework = normalize_thresholds (pc_framework cfg)\<rparr>)"

definition resolve_minimum :: "policy_config \<Rightarrow> string \<Rightarrow> rat option \<Rightarrow> rat option" where
  \<comment> \<open>\<open>None\<close> when no threshold is enabled\<close>
  "resolve_minimum policy framework override =
     (case override of
        Some x \<Rightarrow> Some (clamp01 x)
      | None \<Rightarrow>
          case map_of (pc_framework policy) (lower_trim framework) of
            Some x \<Rightarrow> Some x
          | None \<Rightarrow> map_option clamp01 (pc_global policy))"

definition failure_of :: "policy_config \<Rightarrow> rat option \<Rightarrow> framework_figure \<Rightarrow> failure option" where
  "failure_of policy override f =
     (case resolve_minimum policy (ff_id f) override of
        None \<Rightarrow> None
      | Some m \<Rightarrow>
          if ff_coverage f + 1 / 1000000000 \<ge> m then None
          else Some \<lparr>fa_framework = ff_id f, fa_required = m, fa_actual = ff_coverage f,
                     fa_failing = sort (ff_failing f)\<rparr>)"

definition failure_before :: "failure \<Rightarrow> failure \<Rightarrow> bool" where
  "failure_before a b \<longleftrightarrow>
     (if fa_framework a \<noteq> fa_framework b then fa_framework a < fa_framework b
      else fa_required a > fa_required b)"

definition threshold_evaluate ::
  "framework_figure list \<Rightarrow> policy_config \<Rightarrow> rat option \<Rightarrow> bool \<times> failure list" where
  "threshold_evaluate fs policy override =
     (let failures = List.map_filter (failure_of policy override) fs
      in (failures = [], go_sort failure_before failures))"

definition invalid_evidence_classes :: "string list" where
  "invalid_evidence_classes = [''invalid_record'', ''schema_error'', ''mapping_error'']"

definition reason_strings :: "gmap \<Rightarrow> string list" where
  "reason_strings m =
     (case as_string (mget m ''reason_code'') of None \<Rightarrow> [] | Some s \<Rightarrow> [s]) @
     (case as_string (mget m ''reason'') of None \<Rightarrow> [] | Some s \<Rightarrow> [s]) @
     (case mget m ''reason_codes'' of
        Some (VArr xs) \<Rightarrow> List.map_filter (\<lambda>x. as_string (Some x)) xs
      | Some (VStrs ss) \<Rightarrow> ss
      | _ \<Rightarrow> [])"

definition extract_reason_codes :: "gmap \<Rightarrow> string list" where
  "extract_reason_codes m =
     remdups_adj (sort (filter (\<lambda>s. s \<noteq> []) (map lower_trim (reason_strings m))))"

definition invalid_evidence_class :: "proof_record \<Rightarrow> string option" where
  "invalid_evidence_class r =
     find (\<lambda>c. c \<in> set invalid_evidence_classes)
       (extract_reason_codes (pr_metadata r) @ extract_reason_codes (pr_event r))"

section \<open>Framework definitions\<close>

record evidence_set =
  es_id :: string
  es_title :: string
  es_products :: "string list"
  es_types :: "string list"
  es_fields :: "string list"
  es_frequency :: string

record control =
  co_framework :: string
  co_id :: string
  co_title :: string
  co_types :: "string list"
  co_fields :: "string list"
  co_frequency :: string
  co_sets :: "evidence_set list"

record framework_def =
  de_id :: string
  de_version :: string
  de_title :: string
  de_controls :: "control list"

datatype fw_control =
  \<comment> \<open>the Proof library's control tree: id, title, record types, fields, frequency, sets, children\<close>
  FwControl string string "string list" "string list" string "evidence_set list" "fw_control list"

record fw_framework =
  fw_id :: string
  fw_version :: string
  fw_title :: string
  fw_controls :: "fw_control list"

datatype framework_error = FrameworkMissing | FrameworkLoadFailed string

definition is_likely_path :: "string \<Rightarrow> bool" where
  "is_likely_path s \<longleftrightarrow>
     s \<noteq> [] \<and> (has_prefix s ''/'' \<or> has_prefix s ''.'' \<or> list_ex (\<lambda>c. c = CHR ''/'' \<or> c = CHR 0x5C) s)"

definition normalize_id :: "string \<Rightarrow> string" where
  "normalize_id s = (let raw = trim_space s in if is_likely_path raw then raw else to_lower raw)"

definition normalize_ids :: "string list \<Rightarrow> string list" where
  "normalize_ids xs = sort (dedup (filter (\<lambda>s. s \<noteq> []) (map normalize_id xs)))"

definition adapt_evidence_sets :: "evidence_set list \<Rightarrow> evidence_set list" where
  "adapt_evidence_sets sets =
     go_sort (\<lambda>a b. es_id a < es_id b)
       (map (\<lambda>s. \<lparr>es_id = trim_space (es_id s), es_title = trim_space (es_title s),
                   es_products = unique_sorted_adj (es_products s), es_types = unique_sorted_adj (es_types s),
                   es_fields = unique_sorted_adj (es_fields s), es_frequency = trim_space (es_frequency s)\<rparr>) sets)"

fun flatten_control :: "string \<Rightarrow> fw_control \<Rightarrow> control list" where
  "flatten_control f (FwControl i title types required freq sets children) =
     \<lparr>co_framework = f, co_id = trim_space i, co_title = trim_space title,
      co_types = unique_sorted_adj types, co_fields = unique_sorted_adj required,
      co_frequency = trim_space freq, co_sets = adapt_evidence_sets sets\<rparr>
     # concat (map (flatten_control f) children)"

definition adapt_framework :: "fw_framework \<Rightarrow> framework_def" where
  "adapt_framework fw =
     \<lparr>de_id = trim_space (fw_id fw), de_version = trim_space (fw_version fw), de_title = trim_space (fw_title fw),
      de_controls = go_sort (\<lambda>a b. co_id a < co_id b)
        (concat (map (flatten_control (trim_space (fw_id fw))) (fw_controls fw)))\<rparr>"

fun load_each :: "(string \<Rightarrow> fw_framework option) \<Rightarrow> string list \<Rightarrow> (framework_error, framework_def list) result" where
  "load_each load [] = Inr []"
| "load_each load (i # ids) =
     (case load i of
        None \<Rightarrow> Inl (FrameworkLoadFailed i)
      | Some fw \<Rightarrow> bind_result (load_each load ids) (\<lambda>ds. Inr (adapt_framework fw # ds)))"

definition load_many :: "(string \<Rightarrow> fw_framework option) \<Rightarrow> string list \<Rightarrow> (framework_error, framework_def list) result" where
  \<comment> \<open>\<open>load\<close> is \<open>proof.LoadFramework\<close>\<close>
  "load_many load xs =
     (let ids = normalize_ids xs
      in if ids = [] then Inl FrameworkMissing
         else bind_result (load_each load ids) (\<lambda>ds. Inr (go_sort (\<lambda>a b. de_id a < de_id b) ds)))"

section \<open>Thresholds\<close>

text \<open>Overall the check passes exactly when every framework with a threshold reaches it.\<close>

lemma threshold_passes_iff:
  "fst (threshold_evaluate fs policy override) \<longleftrightarrow>
     list_all (\<lambda>f. case resolve_minimum policy (ff_id f) override of
                None \<Rightarrow> True | Some m \<Rightarrow> m \<le> ff_coverage f + 1 / 1000000000) fs"
  by (induction fs) (auto simp: threshold_evaluate_def map_filter_simps failure_of_def Let_def split: option.splits)

text \<open>
  A policy file may name a framework twice in different case. Which of the two minima counts depends
  on the order in which Go ranges over the map, which changes from run to run.
\<close>

lemma thresholds_depend_on_map_order:
  "map_of (normalize_thresholds [(''SOC2'', 1), (''soc2'', 0)]) ''soc2'' = Some 0 \<and>
   map_of (normalize_thresholds [(''soc2'', 0), (''SOC2'', 1)]) ''soc2'' = Some 1"
  by code_simp

end
