(* ===== verification/Match.thy ===== *)
theory Match
  imports Compliance
begin

text \<open>
  \<open>core/compliance/match\<close>: how the records of a store are matched against the controls of the loaded
  frameworks. A control has one or more sets of requirements; a set is evaluated over all records in
  time order, and the best result over the sets is the control's.
\<close>

section \<open>Results\<close>

record record_match =
  rm_record_id :: string
  rm_record_type :: string
  rm_timestamp :: string
  rm_status :: string
  rm_matched :: "string list"
  rm_missing :: "string list"
  rm_reasons :: "string list"
  rm_context :: evidence_context
  rm_weights :: weights

record control_result =
  cr_framework :: string
  cr_control :: string
  cr_title :: string
  cr_types :: "string list"
  cr_fields :: "string list"
  cr_frequency :: string
  cr_status :: string
  cr_candidates :: int
  cr_matched :: int
  cr_partial :: int
  cr_failed :: int
  cr_invalid :: int
  cr_reasons :: "string list"
  cr_rationale :: string
  cr_evidence :: "record_match list"
  cr_matched_types :: int
  cr_present_types :: "string list"

record framework_result =
  fr_id :: string
  fr_version :: string
  fr_title :: string
  fr_controls :: "control_result list"
  fr_ratio :: rat

record match_summary =
  ms_frameworks :: int
  ms_controls :: int
  ms_covered :: int
  ms_partial :: int
  ms_gap :: int

record match_result =
  mr_frameworks :: "framework_result list"
  mr_summary :: match_summary

section \<open>Fields of a record\<close>

fun walk_path :: "gvalue \<Rightarrow> string list \<Rightarrow> gvalue option" where
  "walk_path v [] = Some v"
| "walk_path v (s # segs) =
    (case v of
       VObj kvs \<Rightarrow> (case map_of kvs (trim_space s) of None \<Rightarrow> None | Some w \<Rightarrow> walk_path w segs)
     | _ \<Rightarrow> None)"

definition nested_map_key_exists :: "gmap \<Rightarrow> string list \<Rightarrow> bool" where
  "nested_map_key_exists m path =
     (case m of
        None \<Rightarrow> False
      | Some kvs \<Rightarrow>
          if path = [] then True
          else case walk_path (VObj kvs) path of
                 None \<Rightarrow> False
               | Some v \<Rightarrow> (case v of VNil \<Rightarrow> False | VStr s \<Rightarrow> \<not> blank s | _ \<Rightarrow> True))"

definition normalized_identity_field_exists :: "proof_record \<Rightarrow> string \<Rightarrow> bool option" where
  \<comment> \<open>\<open>None\<close> when the field is no identity field\<close>
  "normalized_identity_field_exists r field =
     (let v = identity_view_of r; f = trim_space field
      in if f = ''actor_identity'' then Some (\<not> blank (iv_actor v))
         else if f = ''downstream_identity'' then Some (\<not> blank (iv_downstream v))
         else if f = ''owner_identity'' then Some (\<not> blank (iv_owner v))
         else if f = ''policy_digest'' then Some (\<not> blank (iv_policy v))
         else if f = ''approval_token_ref'' then Some (\<not> blank (iv_approval v))
         else if f = ''target_kind'' then Some (\<not> blank (iv_kind v))
         else if f = ''target_id'' then Some (\<not> blank (iv_target v))
         else if f = ''delegation_chain'' then Some (iv_chain v \<noteq> [])
         else None)"

definition dotted_field_exists :: "proof_record \<Rightarrow> string \<Rightarrow> string list \<Rightarrow> bool" where
  "dotted_field_exists r head rest =
     (if head = ''event'' then
        (case (if length rest = 1 then normalized_identity_field_exists r (hd rest) else None) of
           Some b \<Rightarrow> b
         | None \<Rightarrow> nested_map_key_exists (pr_event r) rest)
      else if head = ''metadata'' then nested_map_key_exists (pr_metadata r) rest
      else if head = ''integrity'' then
        (if rest = [''record_hash''] then \<not> blank (pr_record_hash r)
         else if rest = [''previous_record_hash''] then \<not> blank (pr_previous_hash r)
         else if rest = [''signing_key_id''] then \<not> blank (pr_signing_key_id r)
         else if rest = [''signature''] then \<not> blank (pr_signature r)
         else False)
      else False)"

definition record_field_exists :: "proof_record \<Rightarrow> string \<Rightarrow> bool" where
  "record_field_exists r field =
     (let f = trim_space field
      in if f = [] then False
         else if f = ''record_id'' then \<not> blank (pr_record_id r)
         else if f = ''timestamp'' then \<not> is_zero_time (pr_timestamp r)
         else if f = ''source'' then \<not> blank (pr_source r)
         else if f = ''source_product'' then \<not> blank (pr_source_product r)
         else if f = ''record_type'' then \<not> blank (pr_record_type r)
         else if f = ''event'' then pr_event r \<noteq> None
         else if f = ''metadata'' then pr_metadata r \<noteq> None
         else (let segments = split_char CHR ''.'' f
               in dotted_field_exists r (lower_trim (hd segments)) (tl segments)))"

definition evaluate_fields :: "proof_record \<Rightarrow> string list \<Rightarrow> string list \<times> string list" where
  "evaluate_fields r required =
     (filter (record_field_exists r) required, filter (\<lambda>f. \<not> record_field_exists r f) required)"

section \<open>Identity weaknesses\<close>

definition owner_types :: "string list" where
  \<comment> \<open>\<open>requiresOwnerLinkage\<close> and \<open>requiresPolicyBinding\<close> name the same types\<close>
  "owner_types = [''decision'', ''policy_enforcement'', ''approval'', ''scan_finding'', ''deployment'',
     ''data_pipeline_run'', ''permission_check'', ''compiled_action'']"

definition identity_governed_record_type :: "string \<Rightarrow> bool" where
  "identity_governed_record_type t \<longleftrightarrow> t \<in> set (''tool_invocation'' # owner_types)"

definition unapproved_privilege_drift :: "proof_record \<Rightarrow> identity_view \<Rightarrow> bool" where
  "unapproved_privilege_drift r v \<longleftrightarrow>
     record_type_of r = ''scan_finding'' \<and>
     (trim_space (iv_kind v) = ''privilege'' \<or> map_string (pr_event r) ''privilege'' \<noteq> []) \<and>
     (case map_bool (pr_event r) ''approved'' of
        Some b \<Rightarrow> \<not> b
      | None \<Rightarrow> (case map_bool (pr_metadata r) ''approved'' of Some b \<Rightarrow> \<not> b | None \<Rightarrow> False)) \<and>
     blank (iv_approval v)"

definition requires_approval_binding :: "proof_record \<Rightarrow> identity_view \<Rightarrow> bool" where
  "requires_approval_binding r v \<longleftrightarrow>
     record_type_of r = ''approval'' \<or> map_string (pr_event r) ''approval_token_ref'' \<noteq> [] \<or>
     map_string (pr_event r) ''context_approval_ref'' \<noteq> [] \<or> map_string (pr_event r) ''approval_ref'' \<noteq> [] \<or>
     (case pr_human_oversight r of None \<Rightarrow> False | Some h \<Rightarrow> ho_approval_required h) \<or>
     unapproved_privilege_drift r v"

definition identity_weaknesses :: "proof_record \<Rightarrow> string list \<times> string list" where
  \<comment> \<open>the missing fields and the reasons\<close>
  "identity_weaknesses r =
     (let t = record_type_of r in
      if \<not> identity_governed_record_type t then ([], [])
      else
        let v = identity_view_of r;
            owner = (t \<in> set owner_types \<and> blank (iv_owner v));
            policy = (t \<in> set owner_types \<and> blank (iv_policy v));
            approval = (requires_approval_binding r v \<and> blank (iv_approval v))
        in (unique_sorted_adj
              (flag (blank (iv_actor v)) ''event.actor_identity'' @
               flag (blank (iv_downstream v)) ''event.downstream_identity'' @
               flag (blank (iv_kind v)) ''event.target_kind'' @
               flag (blank (iv_target v)) ''event.target_id'' @
               flag (iv_chain v = []) ''event.delegation_chain'' @
               flag owner ''event.owner_identity'' @
               flag policy ''event.policy_digest'' @
               flag approval ''event.approval_token_ref''),
            unique_sorted_adj
              (flag (blank (iv_actor v)) ''MISSING_ACTOR_LINKAGE'' @
               flag (blank (iv_downstream v)) ''MISSING_DOWNSTREAM_LINKAGE'' @
               flag (blank (iv_kind v) \<or> blank (iv_target v)) ''MISSING_TARGET_LINKAGE'' @
               flag (iv_chain v = []) ''INCOMPLETE_DELEGATION_CHAIN'' @
               flag owner ''MISSING_OWNER_LINKAGE'' @
               flag policy ''MISSING_POLICY_BINDING'' @
               flag approval ''MISSING_APPROVAL_BINDING'' @
               flag (unapproved_privilege_drift r v) ''UNAPPROVED_PRIVILEGE_DRIFT'')))"

definition identity_reasons :: "string list" where
  "identity_reasons = [''MISSING_ACTOR_LINKAGE'', ''MISSING_DOWNSTREAM_LINKAGE'', ''MISSING_OWNER_LINKAGE'',
     ''MISSING_TARGET_LINKAGE'', ''MISSING_POLICY_BINDING'', ''MISSING_APPROVAL_BINDING'',
     ''INCOMPLETE_DELEGATION_CHAIN'', ''UNAPPROVED_PRIVILEGE_DRIFT'']"

definition is_identity_reason_code :: "string \<Rightarrow> bool" where
  "is_identity_reason_code s \<longleftrightarrow> trim_space s \<in> set identity_reasons"

section \<open>Requirements and windows\<close>

record requirements =
  rq_id :: string
  rq_products :: "string list"
  rq_types :: "string list"
  rq_fields :: "string list"
  rq_frequency :: string
  rq_all_types :: bool

definition unique_lower_sorted :: "string list \<Rightarrow> string list" where
  "unique_lower_sorted xs = unique_sorted_adj (filter (\<lambda>s. s \<noteq> []) (map lower_trim xs))"

definition control_requirement_sets :: "control \<Rightarrow> requirements list" where
  "control_requirement_sets c =
     (if co_sets c = [] then
        [\<lparr>rq_id = [], rq_products = [], rq_types = unique_sorted_adj (co_types c),
          rq_fields = unique_sorted_adj (co_fields c), rq_frequency = trim_space (co_frequency c),
          rq_all_types = False\<rparr>]
      else
        map (\<lambda>s. \<lparr>rq_id = trim_space (es_id s), rq_products = unique_lower_sorted (es_products s),
                    rq_types = unique_lower_sorted (es_types s), rq_fields = unique_sorted_adj (es_fields s),
                    rq_frequency = trim_space (es_frequency s), rq_all_types = True\<rparr>)
          (go_sort (\<lambda>a b. trim_space (es_id a) < trim_space (es_id b)) (co_sets c)))"

definition minimum_matches :: "string \<Rightarrow> int" where
  \<comment> \<open>every branch of the code's switch returns 1\<close>
  "minimum_matches freq = 1"

definition frequency_window_start :: "string \<Rightarrow> proof_record list \<Rightarrow> instant option" where
  "frequency_window_start freq records =
     (if records = [] then None
      else let latest = pr_timestamp (last records); f = lower_trim freq
           in if f = ''quarterly'' then Some (add_date latest 0 (- 3) 0)
              else if f = ''monthly'' then Some (add_date latest 0 (- 1) 0)
              else if f = ''weekly'' then Some (add_date latest 0 0 (- 7))
              else if f = ''daily'' then Some (latest - 24 * hour_ns)
              else None)"

definition sorted_records :: "proof_record list \<Rightarrow> proof_record list" where
  "sorted_records rs = go_sort record_before rs"

section \<open>Evaluating one set of requirements\<close>

definition build_record_match ::
  "proof_record \<Rightarrow> string list \<Rightarrow> string list \<Rightarrow> string \<Rightarrow> string list \<Rightarrow> record_match" where
  "build_record_match r matched missing status reasons =
     \<lparr>rm_record_id = trim_space (pr_record_id r), rm_record_type = record_type_of r,
      rm_timestamp = format_rfc3339 (pr_timestamp r), rm_status = status,
      rm_matched = unique_sorted_adj matched, rm_missing = unique_sorted_adj missing,
      rm_reasons = unique_sorted_adj reasons, rm_context = enrich r, rm_weights = score (enrich r)\<rparr>"

definition build_rationale :: "control_result \<Rightarrow> int \<Rightarrow> int \<Rightarrow> string" where
  "build_rationale c required matched =
     ''status='' @ cr_status c @ '' matched='' @ itoa (cr_matched c) @ '' partial='' @ itoa (cr_partial c) @
     '' failed='' @ itoa (cr_failed c) @ '' candidates='' @ itoa (cr_candidates c) @
     '' required_matches='' @ itoa required @ '' matched_in_window='' @ itoa matched @
     '' invalid_excluded='' @ itoa (cr_invalid c)"

record match_state =
  st_result :: control_result
  st_in_window :: int
  st_matched_types :: "string list"
  st_present_types :: "string list"

definition is_candidate :: "requirements \<Rightarrow> proof_record \<Rightarrow> bool" where
  "is_candidate q r \<longleftrightarrow>
     record_type_of r \<in> set (rq_types q) \<and>
     (rq_products q = [] \<or> lower_trim (pr_source_product r) \<in> set (rq_products q))"

definition in_window :: "instant option \<Rightarrow> proof_record \<Rightarrow> bool" where
  "in_window start r = (case start of None \<Rightarrow> True | Some t \<Rightarrow> \<not> pr_timestamp r < t)"

definition all_missing :: "requirements \<Rightarrow> proof_record \<Rightarrow> string list" where
  \<comment> \<open>missing required fields and missing identity fields\<close>
  "all_missing q r =
     unique_sorted_adj (snd (evaluate_fields r (rq_fields q)) @ fst (identity_weaknesses r))"

definition exclude_record :: "requirements \<Rightarrow> proof_record \<Rightarrow> string \<Rightarrow> match_state \<Rightarrow> match_state" where
  "exclude_record q r code s =
    (let (matched, missing) = evaluate_fields r (rq_fields q); c = st_result s
     in s\<lparr>st_result := c\<lparr>cr_candidates := cr_candidates c + 1, cr_invalid := cr_invalid c + 1,
            cr_failed := cr_failed c + 1,
            cr_evidence := cr_evidence c @
              [build_record_match r matched missing ''failed'' [''INVALID_EVIDENCE'', code]]\<rparr>\<rparr>)"

definition count_record :: "requirements \<Rightarrow> instant option \<Rightarrow> proof_record \<Rightarrow> match_state \<Rightarrow> match_state" where
  "count_record q start r s =
    (let t = record_type_of r;
         matched = fst (evaluate_fields r (rq_fields q));
         missing = all_missing q r;
         why = snd (identity_weaknesses r);
         c = st_result s;
         c = c\<lparr>cr_candidates := cr_candidates c + 1\<rparr>;
         present = (if in_window start r then List.insert t (st_present_types s) else st_present_types s)
     in if missing = [] then
          s\<lparr>st_result := c\<lparr>cr_matched := cr_matched c + 1,
                cr_evidence := cr_evidence c @ [build_record_match r matched missing ''matched'' [''MATCHED'']]\<rparr>,
             st_in_window := (if in_window start r then st_in_window s + 1 else st_in_window s),
             st_matched_types := (if in_window start r then List.insert t (st_matched_types s) else st_matched_types s),
             st_present_types := present\<rparr>
        else if matched \<noteq> [] then
          s\<lparr>st_result := c\<lparr>cr_partial := cr_partial c + 1,
                cr_evidence := cr_evidence c @
                  [build_record_match r matched missing ''partial'' (''PARTIAL_FIELD_MATCH'' # why)]\<rparr>,
             st_present_types := present\<rparr>
        else
          s\<lparr>st_result := c\<lparr>cr_failed := cr_failed c + 1,
                cr_evidence := cr_evidence c @
                  [build_record_match r matched missing ''failed'' (''MISSING_REQUIRED_FIELDS'' # why @ why)]\<rparr>,
             st_present_types := present\<rparr>)"

definition judge_record ::
  "bool \<Rightarrow> requirements \<Rightarrow> instant option \<Rightarrow> proof_record \<Rightarrow> match_state \<Rightarrow> match_state" where
  "judge_record exclude_invalid q start r s =
     (if \<not> is_candidate q r then s
      else case (if exclude_invalid then invalid_evidence_class r else None) of
             Some code \<Rightarrow> exclude_record q r code s
           | None \<Rightarrow> count_record q start r s)"

definition initial_match :: "control \<Rightarrow> requirements \<Rightarrow> match_state" where
  "initial_match c q =
     \<lparr>st_result =
        \<lparr>cr_framework = co_framework c, cr_control = co_id c, cr_title = co_title c, cr_types = rq_types q,
         cr_fields = rq_fields q, cr_frequency = rq_frequency q, cr_status = [], cr_candidates = 0,
         cr_matched = 0, cr_partial = 0, cr_failed = 0, cr_invalid = 0, cr_reasons = [], cr_rationale = [],
         cr_evidence = [], cr_matched_types = 0, cr_present_types = []\<rparr>,
      st_in_window = 0, st_matched_types = [], st_present_types = []\<rparr>"

definition judge_records ::
  "bool \<Rightarrow> control \<Rightarrow> requirements \<Rightarrow> proof_record list \<Rightarrow> match_state" where
  "judge_records exclude_invalid c q records =
     fold (judge_record exclude_invalid q (frequency_window_start (rq_frequency q) records)) records (initial_match c q)"

definition conclude :: "requirements \<Rightarrow> match_state \<Rightarrow> control_result" where
  \<comment> \<open>the verdict after the loop\<close>
  "conclude q s =
    (let c = st_result s;
         required = minimum_matches (rq_frequency q);
         frequency_met = (st_in_window s \<ge> required);
         types_met = (rq_all_types q \<longrightarrow> list_all (\<lambda>t. t \<in> set (st_matched_types s)) (rq_types q));
         (status, reason) =
           (if cr_matched c > 0 \<and> frequency_met \<and> types_met then (''covered'', ''CONTROL_COVERED'')
            else if cr_matched c > 0 \<or> cr_partial c > 0 then (''partial'', ''CONTROL_PARTIAL'')
            else (''gap'', ''CONTROL_GAP''));
         reasons = [reason] @ flag (\<not> frequency_met) ''FREQUENCY_NOT_MET'' @
           flag (\<not> types_met) ''REQUIRED_RECORD_TYPES_NOT_MET'' @
           flag (cr_candidates c = 0) ''NO_RECORD_TYPE_MATCH'' @
           flag (cr_invalid c > 0) ''INVALID_EVIDENCE_CLASS'' @
           concat (map (\<lambda>e. filter is_identity_reason_code (rm_reasons e)) (cr_evidence c));
         c = c\<lparr>cr_status := status, cr_reasons := unique_sorted_adj reasons\<rparr>;
         rationale = build_rationale c required (st_in_window s)
     in c\<lparr>cr_rationale := (if rq_id q = [] then rationale else ''evidence_set='' @ rq_id q @ '' '' @ rationale),
          cr_matched_types := int (length (st_matched_types s)),
          cr_present_types := sort (st_present_types s)\<rparr>)"

definition evaluate_requirement_set ::
  "bool \<Rightarrow> control \<Rightarrow> requirements \<Rightarrow> proof_record list \<Rightarrow> control_result" where
  "evaluate_requirement_set exclude_invalid c q records =
     conclude q (judge_records exclude_invalid c q records)"

section \<open>The best set\<close>

definition control_status_rank :: "string \<Rightarrow> int" where
  "control_status_rank s = (if s = ''covered'' then 2 else if s = ''partial'' then 1 else 0)"

definition missing_field_count :: "control_result \<Rightarrow> int" where
  "missing_field_count c =
     int (length (dedup (filter (\<lambda>s. s \<noteq> []) (map trim_space (concat (map rm_missing (cr_evidence c)))))))"

definition prefer_control_result :: "control_result \<Rightarrow> control_result \<Rightarrow> bool" where
  "prefer_control_result a b \<longleftrightarrow>
    (let ra = control_status_rank (cr_status a); rb = control_status_rank (cr_status b);
         na = int (length (cr_types a)); nb = int (length (cr_types b));
         pa = int (length (cr_present_types a)); pb = int (length (cr_present_types b))
     in if ra \<noteq> rb then ra > rb
        else if cr_matched_types a * nb \<noteq> cr_matched_types b * na then cr_matched_types a * nb > cr_matched_types b * na
        else if pa * nb \<noteq> pb * na then pa * nb > pb * na
        else if na - pa \<noteq> nb - pb then na - pa < nb - pb
        else if missing_field_count a \<noteq> missing_field_count b then missing_field_count a < missing_field_count b
        else if cr_matched a \<noteq> cr_matched b then cr_matched a > cr_matched b
        else if cr_partial a \<noteq> cr_partial b then cr_partial a > cr_partial b
        else cr_failed a < cr_failed b)"

definition select_best :: "control_result list \<Rightarrow> control_result option" where
  "select_best cs =
     fold (\<lambda>c best. case best of
              None \<Rightarrow> Some c
            | Some b \<Rightarrow> if prefer_control_result c b then Some c else best) cs None"

definition empty_control_result :: control_result where
  "empty_control_result =
     \<lparr>cr_framework = [], cr_control = [], cr_title = [], cr_types = [], cr_fields = [], cr_frequency = [],
      cr_status = [], cr_candidates = 0, cr_matched = 0, cr_partial = 0, cr_failed = 0, cr_invalid = 0,
      cr_reasons = [], cr_rationale = [], cr_evidence = [], cr_matched_types = 0, cr_present_types = []\<rparr>"

definition evaluate_control :: "bool \<Rightarrow> control \<Rightarrow> proof_record list \<Rightarrow> control_result" where
  "evaluate_control exclude_invalid c records =
     (case select_best (map (\<lambda>q. evaluate_requirement_set exclude_invalid c q records) (control_requirement_sets c)) of
        None \<Rightarrow> empty_control_result
      | Some best \<Rightarrow> best)"

definition missing_required_record_types :: "control_result \<Rightarrow> string list" where
  "missing_required_record_types c =
     unique_sorted_adj (filter (\<lambda>t. t \<notin> set (cr_present_types c)) (cr_types c))"

section \<open>All frameworks\<close>

definition round_ratio :: "rat \<Rightarrow> rat" where
  "round_ratio x = (if x \<le> 0 then 0 else if x \<ge> 1 then 1 else of_int \<lfloor>x * 10000 + 1 / 2\<rfloor> / 10000)"

definition count_status :: "string \<Rightarrow> control_result list \<Rightarrow> int" where
  "count_status s cs = int (length (filter (\<lambda>c. cr_status c = s) cs))"

definition evaluate_framework :: "bool \<Rightarrow> proof_record list \<Rightarrow> framework_def \<Rightarrow> framework_result" where
  "evaluate_framework exclude_invalid records d =
    (let cs = map (\<lambda>c. evaluate_control exclude_invalid c records) (de_controls d)
     in \<lparr>fr_id = de_id d, fr_version = de_version d, fr_title = de_title d, fr_controls = cs,
         fr_ratio = (if cs = [] then 0 else round_ratio (of_int (count_status ''covered'' cs) / of_nat (length cs)))\<rparr>)"

definition summarize :: "framework_result list \<Rightarrow> match_summary" where
  "summarize frs =
    (let cs = concat (map fr_controls frs)
     in \<lparr>ms_frameworks = int (length frs), ms_controls = int (length cs), ms_covered = count_status ''covered'' cs,
         ms_partial = count_status ''partial'' cs,
         ms_gap = int (length (filter (\<lambda>c. cr_status c \<noteq> ''covered'' \<and> cr_status c \<noteq> ''partial'') cs))\<rparr>)"

definition evaluate :: "bool \<Rightarrow> framework_def list \<Rightarrow> proof_record list \<Rightarrow> match_result" where
  "evaluate exclude_invalid defs records =
    (let frs = map (evaluate_framework exclude_invalid (sorted_records records)) defs
     in \<lparr>mr_frameworks = go_sort (\<lambda>a b. fr_id a < fr_id b) frs, mr_summary = summarize frs\<rparr>)"

section \<open>What the loop over the records counts\<close>

definition counted :: "bool \<Rightarrow> requirements \<Rightarrow> proof_record \<Rightarrow> bool" where
  "counted ex q r \<longleftrightarrow> is_candidate q r \<and> (\<not> ex \<or> invalid_evidence_class r = None)"

definition record_complete :: "requirements \<Rightarrow> proof_record \<Rightarrow> bool" where
  "record_complete q r \<longleftrightarrow> all_missing q r = []"

definition record_touched :: "requirements \<Rightarrow> proof_record \<Rightarrow> bool" where
  \<comment> \<open>something required is missing, something required is there\<close>
  "record_touched q r \<longleftrightarrow> all_missing q r \<noteq> [] \<and> list_ex (record_field_exists r) (rq_fields q)"

definition count_of :: "('a \<Rightarrow> bool) \<Rightarrow> 'a list \<Rightarrow> int" where
  "count_of P xs = int (length (filter P xs))"

lemma count_of_simps [simp]:
  "count_of P [] = 0" "count_of P (x # xs) = (if P x then 1 else 0) + count_of P xs"
  by (simp_all add: count_of_def)

lemma count_of_append [simp]: "count_of P (xs @ ys) = count_of P xs + count_of P ys"
  by (simp add: count_of_def)

lemma count_of_nonneg [simp]: "0 \<le> count_of P xs"
  by (simp add: count_of_def)

lemma count_of_pos_iff: "0 < count_of P xs \<longleftrightarrow> list_ex P xs"
  by (induction xs) (auto simp: add_pos_nonneg add_nonneg_pos)

lemma count_of_ge_1_iff: "1 \<le> count_of P xs \<longleftrightarrow> list_ex P xs"
  using count_of_pos_iff [of P xs] by linarith

lemma evaluate_fields_simps [simp]:
  "fst (evaluate_fields r fs) = filter (record_field_exists r) fs"
  "snd (evaluate_fields r fs) = filter (\<lambda>f. \<not> record_field_exists r f) fs"
  by (simp_all add: evaluate_fields_def)

lemma filter_nonempty_iff: "filter P xs \<noteq> [] \<longleftrightarrow> list_ex P xs"
  by (induction xs) auto

text \<open>One record, seen from the fields that decide the verdict.\<close>

lemma judge_record_counts:
  fixes s ex q start r
  defines "s' \<equiv> judge_record ex q start r s"
  shows "cr_matched (st_result s') = cr_matched (st_result s) + (if counted ex q r \<and> record_complete q r then 1 else 0)"
    and "cr_partial (st_result s') = cr_partial (st_result s) + (if counted ex q r \<and> record_touched q r then 1 else 0)"
    and "cr_candidates (st_result s') = cr_candidates (st_result s) + (if is_candidate q r then 1 else 0)"
    and "st_in_window s' = st_in_window s +
      (if counted ex q r \<and> record_complete q r \<and> in_window start r then 1 else 0)"
    and "set (st_matched_types s') = set (st_matched_types s) \<union>
      (if counted ex q r \<and> record_complete q r \<and> in_window start r then {record_type_of r} else {})"
    and "set (st_present_types s') = set (st_present_types s) \<union>
      (if counted ex q r \<and> in_window start r then {record_type_of r} else {})"
    and "distinct (st_matched_types s) \<Longrightarrow> distinct (st_matched_types s')"
    and "distinct (st_present_types s) \<Longrightarrow> distinct (st_present_types s')"
  unfolding s'_def judge_record_def
  by (auto simp: counted_def record_complete_def record_touched_def exclude_record_def count_record_def Let_def
      split_beta filter_nonempty_iff [symmetric] split: option.splits)

lemma judge_record_totals:
  fixes s ex q start r
  defines "s' \<equiv> judge_record ex q start r s"
  assumes "cr_matched (st_result s) + cr_partial (st_result s) + cr_failed (st_result s) = cr_candidates (st_result s)"
    and "int (length (cr_evidence (st_result s))) = cr_candidates (st_result s)"
  shows "cr_matched (st_result s') + cr_partial (st_result s') + cr_failed (st_result s') = cr_candidates (st_result s')"
    and "int (length (cr_evidence (st_result s'))) = cr_candidates (st_result s')"
  using assms(2,3) unfolding s'_def judge_record_def
  by (auto simp: exclude_record_def count_record_def Let_def split_beta split: option.splits)

lemma judge_record_frame:
  fixes s ex q start r
  defines "s' \<equiv> judge_record ex q start r s"
  shows "cr_types (st_result s') = cr_types (st_result s)" "cr_framework (st_result s') = cr_framework (st_result s)"
    "cr_control (st_result s') = cr_control (st_result s)"
  unfolding s'_def judge_record_def
  by (auto simp: exclude_record_def count_record_def Let_def split_beta split: option.splits)

lemma judge_fold_counts:
  fixes s ex q start r
  defines "s' rs \<equiv> fold (judge_record ex q start) rs s"
  shows "cr_matched (st_result (s' rs)) = cr_matched (st_result s) + count_of (\<lambda>r. counted ex q r \<and> record_complete q r) rs"
    and "cr_partial (st_result (s' rs)) = cr_partial (st_result s) + count_of (\<lambda>r. counted ex q r \<and> record_touched q r) rs"
    and "cr_candidates (st_result (s' rs)) = cr_candidates (st_result s) + count_of (is_candidate q) rs"
    and "st_in_window (s' rs) = st_in_window s +
      count_of (\<lambda>r. counted ex q r \<and> record_complete q r \<and> in_window start r) rs"
    and "set (st_matched_types (s' rs)) = set (st_matched_types s) \<union>
      record_type_of ` {r \<in> set rs. counted ex q r \<and> record_complete q r \<and> in_window start r}"
    and "set (st_present_types (s' rs)) = set (st_present_types s) \<union>
      record_type_of ` {r \<in> set rs. counted ex q r \<and> in_window start r}"
  unfolding s'_def
  by (induction rs arbitrary: s) (auto simp: judge_record_counts)

lemma judge_fold_invariants:
  fixes s ex q start r
  defines "s' rs \<equiv> fold (judge_record ex q start) rs s"
  shows "distinct (st_present_types s) \<Longrightarrow> distinct (st_present_types (s' rs))"
    and "distinct (st_matched_types s) \<Longrightarrow> distinct (st_matched_types (s' rs))"
    and "cr_matched (st_result s) + cr_partial (st_result s) + cr_failed (st_result s) = cr_candidates (st_result s) \<Longrightarrow>
      int (length (cr_evidence (st_result s))) = cr_candidates (st_result s) \<Longrightarrow>
      cr_matched (st_result (s' rs)) + cr_partial (st_result (s' rs)) + cr_failed (st_result (s' rs)) =
        cr_candidates (st_result (s' rs)) \<and>
      int (length (cr_evidence (st_result (s' rs)))) = cr_candidates (st_result (s' rs))"
    and "cr_types (st_result (s' rs)) = cr_types (st_result s)"
    and "cr_framework (st_result (s' rs)) = cr_framework (st_result s)"
    and "cr_control (st_result (s' rs)) = cr_control (st_result s)"
  unfolding s'_def
  by (induction rs arbitrary: s) (simp_all add: judge_record_counts(7,8) judge_record_totals judge_record_frame)

section \<open>The verdict on a set of requirements\<close>

text \<open>What the verdict says in terms of the records alone.\<close>

definition window_of :: "requirements \<Rightarrow> proof_record list \<Rightarrow> proof_record \<Rightarrow> bool" where
  "window_of q rs r = in_window (frequency_window_start (rq_frequency q) rs) r"

definition fresh_evidence :: "bool \<Rightarrow> requirements \<Rightarrow> proof_record list \<Rightarrow> proof_record \<Rightarrow> bool" where
  \<comment> \<open>valid, complete and inside the frequency window\<close>
  "fresh_evidence ex q rs r \<longleftrightarrow> counted ex q r \<and> record_complete q r \<and> window_of q rs r"

definition set_covered :: "bool \<Rightarrow> requirements \<Rightarrow> proof_record list \<Rightarrow> bool" where
  "set_covered ex q rs \<longleftrightarrow>
     list_ex (fresh_evidence ex q rs) rs \<and>
     (\<not> rq_all_types q \<or>
      list_all (\<lambda>t. list_ex (\<lambda>r. fresh_evidence ex q rs r \<and> record_type_of r = t) rs) (rq_types q))"

definition set_touched :: "bool \<Rightarrow> requirements \<Rightarrow> proof_record list \<Rightarrow> bool" where
  "set_touched ex q rs \<longleftrightarrow> list_ex (\<lambda>r. counted ex q r \<and> (record_complete q r \<or> record_touched q r)) rs"

lemma conclude_status:
  "cr_status (conclude q s) =
     (if cr_matched (st_result s) > 0 \<and> st_in_window s \<ge> 1 \<and>
         (rq_all_types q \<longrightarrow> list_all (\<lambda>t. t \<in> set (st_matched_types s)) (rq_types q)) then ''covered''
      else if cr_matched (st_result s) > 0 \<or> cr_partial (st_result s) > 0 then ''partial'' else ''gap'')"
  by (auto simp: conclude_def Let_def minimum_matches_def)

lemma conclude_frame [simp]:
  "cr_framework (conclude q s) = cr_framework (st_result s)" "cr_control (conclude q s) = cr_control (st_result s)"
  "cr_types (conclude q s) = cr_types (st_result s)" "cr_evidence (conclude q s) = cr_evidence (st_result s)"
  "cr_matched (conclude q s) = cr_matched (st_result s)" "cr_partial (conclude q s) = cr_partial (st_result s)"
  "cr_failed (conclude q s) = cr_failed (st_result s)" "cr_candidates (conclude q s) = cr_candidates (st_result s)"
  "cr_invalid (conclude q s) = cr_invalid (st_result s)"
  "cr_present_types (conclude q s) = sort (st_present_types s)"
  by (simp_all add: conclude_def Let_def split_beta)

lemma initial_match_simps [simp]:
  "cr_matched (st_result (initial_match c q)) = 0" "cr_partial (st_result (initial_match c q)) = 0"
  "cr_failed (st_result (initial_match c q)) = 0" "cr_candidates (st_result (initial_match c q)) = 0"
  "cr_evidence (st_result (initial_match c q)) = []" "cr_types (st_result (initial_match c q)) = rq_types q"
  "cr_framework (st_result (initial_match c q)) = co_framework c"
  "cr_control (st_result (initial_match c q)) = co_id c"
  "st_in_window (initial_match c q) = 0" "st_matched_types (initial_match c q) = []"
  "st_present_types (initial_match c q) = []"
  by (simp_all add: initial_match_def)

lemma list_ex_mono: "list_ex P xs \<Longrightarrow> (\<And>x. P x \<Longrightarrow> Q x) \<Longrightarrow> list_ex Q xs"
  by (auto simp: list_ex_iff)

lemma evaluate_set_status:
  "cr_status (evaluate_requirement_set ex c q rs) =
     (if set_covered ex q rs then ''covered'' else if set_touched ex q rs then ''partial'' else ''gap'')"
proof -
  let ?s = "judge_records ex c q rs"
  have matched: "0 < cr_matched (st_result ?s) \<longleftrightarrow> list_ex (\<lambda>r. counted ex q r \<and> record_complete q r) rs"
    and partial: "0 < cr_partial (st_result ?s) \<longleftrightarrow> list_ex (\<lambda>r. counted ex q r \<and> record_touched q r) rs"
    and window: "1 \<le> st_in_window ?s \<longleftrightarrow> list_ex (fresh_evidence ex q rs) rs"
    by (simp_all add: judge_records_def judge_fold_counts count_of_pos_iff count_of_ge_1_iff fresh_evidence_def
        window_of_def cong: list_ex_cong)
  have types: "set (st_matched_types ?s) = record_type_of ` {r \<in> set rs. fresh_evidence ex q rs r}"
    by (simp add: judge_records_def judge_fold_counts fresh_evidence_def window_of_def)
  have "list_all (\<lambda>t. t \<in> set (st_matched_types ?s)) ts \<longleftrightarrow>
      list_all (\<lambda>t. list_ex (\<lambda>r. fresh_evidence ex q rs r \<and> record_type_of r = t) rs) ts" for ts
    unfolding types by (auto simp: list_all_iff list_ex_iff)
  moreover have "list_ex (fresh_evidence ex q rs) rs \<Longrightarrow> list_ex (\<lambda>r. counted ex q r \<and> record_complete q r) rs"
    by (erule list_ex_mono) (simp add: fresh_evidence_def)
  moreover have "set_touched ex q rs \<longleftrightarrow> list_ex (\<lambda>r. counted ex q r \<and> record_complete q r) rs \<or>
      list_ex (\<lambda>r. counted ex q r \<and> record_touched q r) rs"
    by (auto simp: set_touched_def list_ex_iff)
  ultimately show ?thesis
    unfolding evaluate_requirement_set_def conclude_status matched partial window set_covered_def by auto
qed

section \<open>The best set of requirements\<close>

lemma select_best_step:
  "select_best (cs @ [c]) =
     (case select_best cs of None \<Rightarrow> Some c | Some b \<Rightarrow> if prefer_control_result c b then Some c else Some b)"
  by (auto simp: select_best_def split: option.splits)

lemma prefer_rank: "prefer_control_result a b \<Longrightarrow> control_status_rank (cr_status b) \<le> control_status_rank (cr_status a)"
  and not_prefer_rank: "\<not> prefer_control_result a b \<Longrightarrow> control_status_rank (cr_status a) \<le> control_status_rank (cr_status b)"
  by (auto simp: prefer_control_result_def Let_def split: if_splits)

lemma select_best_max:
  "cs \<noteq> [] \<Longrightarrow> \<exists>b. select_best cs = Some b \<and> b \<in> set cs \<and>
     (\<forall>c \<in> set cs. control_status_rank (cr_status c) \<le> control_status_rank (cr_status b))"
proof (induction cs rule: rev_induct)
  case (snoc c cs)
  show ?case
  proof (cases "cs = []")
    case True
    then show ?thesis by (simp add: select_best_def)
  next
    case False
    then obtain b where "select_best cs = Some b" "b \<in> set cs"
      "\<forall>c \<in> set cs. control_status_rank (cr_status c) \<le> control_status_rank (cr_status b)"
      using snoc.IH by blast
    then show ?thesis
      using prefer_rank [of c b] not_prefer_rank [of c b] by (auto simp: select_best_step)
  qed
qed simp

lemma control_requirement_sets_nonempty: "control_requirement_sets c \<noteq> []"
  by (simp add: control_requirement_sets_def)

lemma evaluate_control_best:
  obtains q where "q \<in> set (control_requirement_sets c)"
    "evaluate_control ex c rs = evaluate_requirement_set ex c q rs"
    "\<forall>q' \<in> set (control_requirement_sets c).
       control_status_rank (cr_status (evaluate_requirement_set ex c q' rs)) \<le>
       control_status_rank (cr_status (evaluate_control ex c rs))"
  using select_best_max [of "map (\<lambda>q. evaluate_requirement_set ex c q rs) (control_requirement_sets c)"]
    control_requirement_sets_nonempty [of c]
  by (auto simp: evaluate_control_def)

lemma status_rank_simps [simp]:
  "control_status_rank ''covered'' = 2" "control_status_rank ''partial'' = 1" "control_status_rank ''gap'' = 0"
  by (simp_all add: control_status_rank_def)

text \<open>
  C14: a control is covered exactly when one of its requirement sets is: some record of a required
  type and source is valid evidence with every required and every identity field inside the
  frequency window, and, where the control lists evidence sets, each required type has such a
  record. It is partial when it is not covered but some valid candidate carries all or some of the
  fields, whatever its age, and a gap otherwise.
\<close>

theorem control_status_iff:
  "cr_status (evaluate_control ex c rs) =
     (if list_ex (\<lambda>q. set_covered ex q rs) (control_requirement_sets c) then ''covered''
      else if list_ex (\<lambda>q. set_touched ex q rs) (control_requirement_sets c) then ''partial'' else ''gap'')"
proof -
  obtain q where q: "q \<in> set (control_requirement_sets c)"
    "evaluate_control ex c rs = evaluate_requirement_set ex c q rs"
    and best: "\<And>q'. q' \<in> set (control_requirement_sets c) \<Longrightarrow>
      control_status_rank (cr_status (evaluate_requirement_set ex c q' rs)) \<le>
      control_status_rank (cr_status (evaluate_requirement_set ex c q rs))"
    by (metis evaluate_control_best)
  show ?thesis
  proof (cases "list_ex (\<lambda>q. set_covered ex q rs) (control_requirement_sets c)")
    case True
    then obtain q' where "q' \<in> set (control_requirement_sets c)" "set_covered ex q' rs" by (auto simp: list_ex_iff)
    with best [of q'] True show ?thesis
      by (simp add: q(2) evaluate_set_status split: if_splits)
  next
    case False
    then have nc: "\<not> set_covered ex q' rs" if "q' \<in> set (control_requirement_sets c)" for q'
      using that by (auto simp: list_ex_iff)
    have "list_ex (\<lambda>q. set_touched ex q rs) (control_requirement_sets c) \<longleftrightarrow> set_touched ex q rs"
    proof
      assume "list_ex (\<lambda>q. set_touched ex q rs) (control_requirement_sets c)"
      then obtain q' where "q' \<in> set (control_requirement_sets c)" "set_touched ex q' rs" by (auto simp: list_ex_iff)
      with best [of q'] nc q(1) show "set_touched ex q rs"
        by (simp add: evaluate_set_status split: if_splits)
    qed (use q(1) in \<open>auto simp: list_ex_iff\<close>)
    then show ?thesis using False nc [OF q(1)] by (simp add: q(2) evaluate_set_status)
  qed
qed

section \<open>Order independence\<close>

lemma sorted_records_key: "sorted_records rs = sort_key record_key rs"
  unfolding sorted_records_def by (rule go_sort_key) (rule record_before_key)

lemma sorted_records_perm:
  assumes "mset rs = mset rs'" and "distinct (map record_key rs)"
  shows "sorted_records rs = sorted_records rs'"
  unfolding sorted_records_key
  by (rule sort_key_perm [OF assms(1)]) (use assms(2) in \<open>simp add: distinct_map\<close>)

text \<open>
  The result of matching does not depend on the order in which the records are given, as
  long as no two share timestamp, id and hash.
\<close>

theorem evaluate_order_independent:
  assumes "mset rs = mset rs'" and "distinct (map record_key rs)"
  shows "evaluate ex defs rs = evaluate ex defs rs'"
  using sorted_records_perm [OF assms] by (simp add: evaluate_def)

definition demo_call :: "instant \<Rightarrow> string \<Rightarrow> proof_record" where
  "demo_call t i =
     \<lparr>pr_record_id = i, pr_record_type = ''tool_invocation'', pr_source = ''mcp'', pr_source_product = ''axym'',
      pr_agent_id = ''agent-7'', pr_timestamp = t, pr_event = Some [(''tool_name'', VStr ''db.query'')],
      pr_metadata = None, pr_relationship = None, pr_human_oversight = None, pr_record_hash = ''h'' @ i,
      pr_previous_hash = [], pr_signing_key_id = [], pr_signature = []\<rparr>"

definition demo_control :: "string \<Rightarrow> string list \<Rightarrow> string list \<Rightarrow> control" where
  "demo_control i types required =
     \<lparr>co_framework = ''soc2'', co_id = i, co_title = i, co_types = types, co_fields = required,
      co_frequency = ''daily'', co_sets = []\<rparr>"

definition demo_framework :: framework_def where
  "demo_framework =
     \<lparr>de_id = ''soc2'', de_version = ''1'', de_title = ''SOC 2'',
      de_controls = [demo_control ''c1'' [''tool_invocation''] [''event.tool_name''],
                     demo_control ''c2'' [''approval''] [''event.approver''],
                     demo_control ''c3'' [''tool_invocation''] [''event.tool_name'', ''event.owner'']]\<rparr>"

theorem evaluate_order_independent_witness:
  "evaluate True [demo_framework] [demo_call 2 ''b'', demo_call 1 ''a''] =
   evaluate True [demo_framework] [demo_call 1 ''a'', demo_call 2 ''b'']"
  by (rule evaluate_order_independent) (simp_all add: demo_call_def record_key_def add_mset_commute)

section \<open>Identity weaknesses\<close>

lemma first_non_empty_last: "\<not> blank x \<Longrightarrow> x \<in> set xs \<Longrightarrow> first_non_empty xs \<noteq> []"
  by (auto simp: first_non_empty_Nil_iff list_all_iff)

lemma identity_view_linked:
  fixes r
  defines "v \<equiv> identity_view_of r"
  shows "(blank (iv_actor v) \<longleftrightarrow> iv_chain v = []) \<and> (blank (iv_downstream v) \<longleftrightarrow> iv_chain v = []) \<and>
    (blank (pr_agent_id r) \<or> \<not> blank (iv_actor v))"
proof -
  let ?d = "derive_identity_view (pr_agent_id r) (pr_event r) (pr_metadata r) (pr_relationship r)"
  let ?b = "base_view (pr_agent_id r) (pr_event r) (pr_metadata r) (pr_relationship r)"
  have v: "iv_actor v = iv_actor ?d" "iv_downstream v = iv_downstream ?d" "iv_chain v = iv_chain ?d"
    by (simp_all add: v_def identity_view_of_def Let_def split: option.splits)
  have blank: "blank (iv_actor ?d) \<longleftrightarrow> iv_actor ?d = []" "blank (iv_downstream ?d) \<longleftrightarrow> iv_downstream ?d = []"
    by (simp_all add: blank_def derive_clean)
  have "iv_actor ?d \<noteq> []" if "\<not> blank (pr_agent_id r)"
  proof -
    have "iv_downstream ?b \<noteq> []"
      unfolding base_actors by (rule first_non_empty_last [of "trim_space (pr_agent_id r)"]) (use that in simp_all)
    then have "iv_downstream ?d \<noteq> []"
      using derive_actor_fields(1) [of "pr_agent_id r" "pr_event r" "pr_metadata r" "pr_relationship r"]
        actors_of_chain [OF base_view_trimmed(8)]
      by (cases "iv_chain ?b = []") (simp_all add: actors_of_Nil default_to_nonempty)
    then show ?thesis
      using derive_linked [of "pr_agent_id r" "pr_event r" "pr_metadata r" "pr_relationship r"] by blast
  qed
  then show ?thesis
    using derive_linked [of "pr_agent_id r" "pr_event r" "pr_metadata r" "pr_relationship r"]
    unfolding v blank by blast
qed

lemma set_flags:
  "set (unique_sorted_adj xs) = set xs" if "list_all (\<lambda>s. s \<noteq> [] \<and> trim_space s = s) xs"
  using that by (auto simp: norm_facts list_all_iff)

lemma set_flags_concat: "x \<in> set (concat (map (\<lambda>(b, s). flag b s) fs)) \<longleftrightarrow> (True, x) \<in> set fs"
  by (induction fs) (auto simp: flag_def)

lemma trim_identity_reasons: "list_all (\<lambda>s. s \<noteq> [] \<and> trim_space s = s) identity_reasons"
  by code_simp

lemma identity_reason_set:
  fixes r
  defines "v \<equiv> identity_view_of r" and "why \<equiv> set (snd (identity_weaknesses r))"
    and "governed \<equiv> identity_governed_record_type (record_type_of r)"
  shows "''MISSING_ACTOR_LINKAGE'' \<in> why \<longleftrightarrow> governed \<and> blank (iv_actor v)"
    and "''MISSING_DOWNSTREAM_LINKAGE'' \<in> why \<longleftrightarrow> governed \<and> blank (iv_downstream v)"
    and "''INCOMPLETE_DELEGATION_CHAIN'' \<in> why \<longleftrightarrow> governed \<and> iv_chain v = []"
    and "''UNAPPROVED_PRIVILEGE_DRIFT'' \<in> why \<longleftrightarrow> governed \<and> unapproved_privilege_drift r v"
    and "why \<subseteq> set identity_reasons"
proof -
  have clean: "list_all (\<lambda>s. s \<noteq> [] \<and> trim_space s = s) (concat (map (\<lambda>(b, s). flag b s) fs))"
    if "list_all (\<lambda>(b, s). s \<in> set identity_reasons) fs" for fs
    unfolding list_all_iff
  proof
    fix s
    assume "s \<in> set (concat (map (\<lambda>(b, s). flag b s) fs))"
    then have "(True, s) \<in> set fs" by (simp only: set_flags_concat)
    then have "s \<in> set identity_reasons" using that by (auto simp: list_all_iff)
    then show "s \<noteq> [] \<and> trim_space s = s" using trim_identity_reasons unfolding list_all_iff by blast
  qed
  have eq: "why = (if governed then set (concat (map (\<lambda>(b, s). flag b s)
     [(blank (iv_actor v), ''MISSING_ACTOR_LINKAGE''), (blank (iv_downstream v), ''MISSING_DOWNSTREAM_LINKAGE''),
      (blank (iv_kind v) \<or> blank (iv_target v), ''MISSING_TARGET_LINKAGE''),
      (iv_chain v = [], ''INCOMPLETE_DELEGATION_CHAIN''),
      (record_type_of r \<in> set owner_types \<and> blank (iv_owner v), ''MISSING_OWNER_LINKAGE''),
      (record_type_of r \<in> set owner_types \<and> blank (iv_policy v), ''MISSING_POLICY_BINDING''),
      (requires_approval_binding r v \<and> blank (iv_approval v), ''MISSING_APPROVAL_BINDING''),
      (unapproved_privilege_drift r v, ''UNAPPROVED_PRIVILEGE_DRIFT'')])) else {})"
    (is "why = (if governed then set (concat (map _ ?fs)) else {})")
  proof (cases governed)
    case True
    have "why = set (unique_sorted_adj (concat (map (\<lambda>(b, s). flag b s) ?fs)))"
      using True by (simp add: why_def identity_weaknesses_def Let_def governed_def v_def)
    also have "\<dots> = set (concat (map (\<lambda>(b, s). flag b s) ?fs))"
      by (rule set_flags, rule clean) (simp add: identity_reasons_def)
    finally show ?thesis using True by simp
  next
    case False
    then show ?thesis by (simp add: why_def identity_weaknesses_def governed_def)
  qed
  have mem: "x \<in> why \<longleftrightarrow> governed \<and> (True, x) \<in> set ?fs" for x
    unfolding eq using set_flags_concat [of x ?fs] by (cases governed) (simp_all only: if_True if_False empty_iff simp_thms)
  show "''MISSING_ACTOR_LINKAGE'' \<in> why \<longleftrightarrow> governed \<and> blank (iv_actor v)"
    "''MISSING_DOWNSTREAM_LINKAGE'' \<in> why \<longleftrightarrow> governed \<and> blank (iv_downstream v)"
    "''INCOMPLETE_DELEGATION_CHAIN'' \<in> why \<longleftrightarrow> governed \<and> iv_chain v = []"
    "''UNAPPROVED_PRIVILEGE_DRIFT'' \<in> why \<longleftrightarrow> governed \<and> unapproved_privilege_drift r v"
    unfolding mem by simp_all
  show "why \<subseteq> set identity_reasons"
    unfolding subset_iff mem by (auto simp: identity_reasons_def)
qed

text \<open>
  The three reason codes for a missing actor, a missing executor and an incomplete delegation
  chain are always reported together or not at all, and never for a record with an agent id: the
  derivation fills each of the three from the others and from the agent id.
\<close>

theorem linkage_reasons_together:
  "(let why = set (snd (identity_weaknesses r)) in
     (''MISSING_ACTOR_LINKAGE'' \<in> why \<longleftrightarrow> ''MISSING_DOWNSTREAM_LINKAGE'' \<in> why) \<and>
     (''MISSING_ACTOR_LINKAGE'' \<in> why \<longleftrightarrow> ''INCOMPLETE_DELEGATION_CHAIN'' \<in> why) \<and>
     (if blank (pr_agent_id r) then True else ''MISSING_ACTOR_LINKAGE'' \<notin> why))"
  unfolding Let_def identity_reason_set using identity_view_linked [of r] by auto

end
