(* ===== verification/Coverage.thy ===== *)
theory Coverage
  imports Match
begin

text \<open>
  What is reported of a matching result: \<open>core/compliance/coverage\<close> (counts, ratio and failing
  controls), \<open>core/review/grade\<close> (the letter) and \<open>core/gaps\<close> (the ranked list of what is missing).
\<close>

section \<open>The coverage report\<close>

record control_coverage =
  cc_framework :: string
  cc_control :: string
  cc_title :: string
  cc_status :: string
  cc_reasons :: "string list"
  cc_evidence :: int
  cc_missing_types :: "string list"
  cc_missing_fields :: "string list"
  cc_invalid :: int

record framework_coverage =
  fc_id :: string
  fc_coverage :: rat
  fc_covered :: int
  fc_partial :: int
  fc_gap :: int
  fc_controls :: "control_coverage list"
  fc_failing :: "string list"

record coverage_report =
  rp_frameworks :: "framework_coverage list"
  rp_summary :: match_summary

definition build_control_coverage :: "control_result \<Rightarrow> control_coverage" where
  "build_control_coverage c =
     \<lparr>cc_framework = cr_framework c, cc_control = cr_control c, cc_title = cr_title c, cc_status = cr_status c,
      cc_reasons = cr_reasons c, cc_evidence = int (length (cr_evidence c)),
      cc_missing_types = missing_required_record_types c,
      cc_missing_fields = sort (dedup (concat (map rm_missing (cr_evidence c)))),
      cc_invalid = cr_invalid c\<rparr>"

definition is_gap_status :: "string \<Rightarrow> bool" where
  \<comment> \<open>the default branch of the switch on the status\<close>
  "is_gap_status s \<longleftrightarrow> s \<noteq> ''covered'' \<and> s \<noteq> ''partial''"

definition framework_coverage_of :: "framework_result \<Rightarrow> framework_coverage" where
  "framework_coverage_of fr =
    (let ccs = map build_control_coverage (fr_controls fr);
         covered = count_of (\<lambda>c. cc_status c = ''covered'') ccs
     in \<lparr>fc_id = fr_id fr,
         fc_coverage = (if ccs = [] then 0 else round_ratio (of_int covered / of_nat (length ccs))),
         fc_covered = covered,
         fc_partial = count_of (\<lambda>c. cc_status c = ''partial'') ccs,
         fc_gap = count_of (\<lambda>c. is_gap_status (cc_status c)) ccs,
         fc_controls = ccs,
         fc_failing = sort (map cc_control (filter (\<lambda>c. cc_status c \<noteq> ''covered'') ccs))\<rparr>)"

definition coverage_build :: "match_result \<Rightarrow> coverage_report" where
  "coverage_build m =
    (let fcs = map framework_coverage_of (mr_frameworks m)
     in \<lparr>rp_frameworks = go_sort (\<lambda>a b. fc_id a < fc_id b) fcs,
         rp_summary =
           \<lparr>ms_frameworks = int (length (mr_frameworks m)),
            ms_controls = sum_list (map (\<lambda>f. int (length (fc_controls f))) fcs),
            ms_covered = sum_list (map fc_covered fcs), ms_partial = sum_list (map fc_partial fcs),
            ms_gap = sum_list (map fc_gap fcs)\<rparr>\<rparr>)"

section \<open>The grade\<close>

record grade_result =
  gr_letter :: string
  gr_score :: rat
  gr_reason :: string

definition identity_weakness_count :: "coverage_report \<Rightarrow> int" where
  "identity_weakness_count rep =
     count_of (\<lambda>c. list_ex (\<lambda>s. s \<in> set identity_reasons) (cc_reasons c))
       (concat (map fc_controls (rp_frameworks rep)))"

definition identity_penalty :: "int \<Rightarrow> rat" where
  "identity_penalty n =
     (if n \<le> 0 then 0 else let p = of_int n * (5 / 100) in if p > 15 / 100 then 15 / 100 else p)"

definition base_letter :: "int \<Rightarrow> int \<Rightarrow> int \<Rightarrow> rat \<Rightarrow> string" where
  "base_letter n_all covered gaps points =
     (if gaps = 0 \<and> covered = n_all then ''A''
      else if gaps = 0 \<and> points \<ge> 85 / 100 then ''B''
      else if gaps \<le> max 1 (n_all div 5) then ''C''
      else if gaps \<le> max 1 (n_all div 2) then ''D''
      else if points > 0 then ''E''
      else ''F'')"

definition capped_letter :: "int \<Rightarrow> string \<Rightarrow> string" where
  "capped_letter weak letter =
     (if weak \<ge> 3 \<and> (letter = ''A'' \<or> letter = ''B'') then ''D''
      else if weak \<ge> 2 \<and> (letter = ''A'' \<or> letter = ''B'') then ''C''
      else if weak \<ge> 1 \<and> letter = ''A'' then ''B''
      else letter)"

definition grade_derive :: "coverage_report \<Rightarrow> grade_result" where
  "grade_derive rep =
    (let s = rp_summary rep; n_all = ms_controls s; covered = ms_covered s; partial = ms_partial s; gaps = ms_gap s
     in if n_all = 0 then \<lparr>gr_letter = ''F'', gr_score = 0, gr_reason = ''no controls evaluated''\<rparr>
        else
          let weak = identity_weakness_count rep;
              raw = (of_int covered + of_int partial * (1 / 2)) / of_int n_all;
              points = round_ratio (raw - identity_penalty weak)
          in \<lparr>gr_letter = capped_letter weak (base_letter n_all covered gaps points),
              gr_score = round_ratio points,
              gr_reason = ''weakest_link controls='' @ itoa n_all @ '' covered='' @ itoa covered @
                '' partial='' @ itoa partial @ '' gap='' @ itoa gaps @ '' identity_weaknesses='' @ itoa weak\<rparr>)"

section \<open>The gap report\<close>

record gap_item =
  gi_rank :: int
  gi_framework :: string
  gi_control :: string
  gi_title :: string
  gi_status :: string
  gi_priority :: int
  gi_reasons :: "string list"
  gi_missing_types :: "string list"
  gi_missing_fields :: "string list"
  gi_remediation :: string
  gi_effort :: string
  gi_evidence :: int
  gi_invalid :: int

record gap_summary =
  gs_total :: int
  gs_gap :: int
  gs_partial :: int
  gs_covered :: int
  gs_highest :: int
  gs_lowest :: int

record gap_report =
  gp_gaps :: "gap_item list"
  gp_summary :: gap_summary
  gp_grade :: grade_result

definition identity_priority :: "string list \<Rightarrow> int" where
  "identity_priority reasons = 5 * count_of (\<lambda>s. s \<in> set identity_reasons) reasons"

definition has_identity_weakness :: "string list \<Rightarrow> bool" where
  "has_identity_weakness reasons \<longleftrightarrow> identity_priority reasons > 0"

definition priority :: "gap_item \<Rightarrow> int" where
  "priority i =
     (if gi_status i = ''gap'' then 20 else 10) + int (length (gi_missing_types i)) * 4 +
     int (length (gi_missing_fields i)) * 2 + gi_invalid i * 3 + identity_priority (gi_reasons i)"

definition effort_for :: "gap_item \<Rightarrow> bool \<Rightarrow> string" where
  "effort_for i types_and_fields =
     (if gi_status i = ''gap'' \<and>
         (types_and_fields \<or> length (gi_missing_types i) \<ge> 2 \<or> length (gi_missing_fields i) \<ge> 3) then ''high''
      else if gi_status i = ''gap'' \<or> gi_status i = ''partial'' then ''medium''
      else ''low'')"

definition remediation :: "gap_item \<Rightarrow> string \<times> string" where
  "remediation i =
    (let types = join '','' (gi_missing_types i); flds = join '','' (gi_missing_fields i)
     in if has_identity_weakness (gi_reasons i) then
          (''Link governed actions to actor, executor, owner, delegation, policy, and approval evidence'',
           effort_for i True)
        else if types \<noteq> [] \<and> flds \<noteq> [] then
          (''Collect evidence types ['' @ types @ ''] and populate fields ['' @ flds @ '']'', effort_for i True)
        else if types \<noteq> [] then (''Collect evidence types ['' @ types @ '']'', effort_for i False)
        else if flds \<noteq> [] then (''Populate required fields ['' @ flds @ '']'', effort_for i False)
        else (''Increase control evidence frequency and validate schema completeness'', effort_for i False))"

definition gap_item_of :: "string \<Rightarrow> control_coverage \<Rightarrow> gap_item" where
  "gap_item_of f c =
    (let i = \<lparr>gi_rank = 0, gi_framework = f, gi_control = cc_control c, gi_title = cc_title c,
              gi_status = cc_status c, gi_priority = 0, gi_reasons = cc_reasons c,
              gi_missing_types = cc_missing_types c, gi_missing_fields = cc_missing_fields c,
              gi_remediation = [], gi_effort = [], gi_evidence = cc_evidence c, gi_invalid = cc_invalid c\<rparr>;
         i = i\<lparr>gi_priority := priority i\<rparr>
     in i\<lparr>gi_remediation := fst (remediation i), gi_effort := snd (remediation i)\<rparr>)"

definition gap_items :: "coverage_report \<Rightarrow> gap_item list" where
  "gap_items rep =
     concat (map (\<lambda>f. map (gap_item_of (fc_id f)) (filter (\<lambda>c. cc_status c \<noteq> ''covered'') (fc_controls f)))
       (rp_frameworks rep))"

definition gap_ranks_before :: "gap_item \<Rightarrow> gap_item \<Rightarrow> bool" where
  "gap_ranks_before a b \<longleftrightarrow>
     (if gi_priority a \<noteq> gi_priority b then gi_priority a > gi_priority b
      else if gi_framework a \<noteq> gi_framework b then gi_framework a < gi_framework b
      else gi_control a < gi_control b)"

definition assign_ranks :: "gap_item list \<Rightarrow> gap_item list" where
  "assign_ranks items = map (\<lambda>(n, i). i\<lparr>gi_rank := int n + 1\<rparr>) (zip [0..<length items] items)"

definition gaps_build :: "coverage_report \<Rightarrow> gap_report" where
  "gaps_build rep =
    (let s = rp_summary rep; ranked = assign_ranks (go_sort gap_ranks_before (gap_items rep))
     in \<lparr>gp_gaps = ranked,
         gp_summary = \<lparr>gs_total = ms_controls s, gs_gap = ms_gap s, gs_partial = ms_partial s,
           gs_covered = ms_covered s,
           gs_highest = (if ranked = [] then 0 else gi_priority (hd ranked)),
           gs_lowest = (if ranked = [] then 0 else gi_priority (last ranked))\<rparr>,
         gp_grade = grade_derive rep\<rparr>)"

definition format_4 :: "rat \<Rightarrow> string" where
  \<comment> \<open>the verb \<open>%.4f\<close> on a number that is not negative\<close>
  "format_4 x =
     (let n = \<lfloor>x * 10000 + 1 / 2\<rfloor>
      in itoa (n div 10000) @ ''.'' @ pad_digits 4 (nat (n mod 10000)))"

definition gaps_explain :: "gap_report \<Rightarrow> string list" where
  "gaps_explain rep =
     (''grade='' @ gr_letter (gp_grade rep) @ '' score='' @ format_4 (gr_score (gp_grade rep)) @
      '' gaps='' @ itoa (gs_gap (gp_summary rep)) @ '' partial='' @ itoa (gs_partial (gp_summary rep)) @
      '' covered='' @ itoa (gs_covered (gp_summary rep))) #
     map (\<lambda>i. itoa (gi_rank i) @ ''. '' @ gi_framework i @ ''/'' @ gi_control i @ '' status='' @ gi_status i @
             '' priority='' @ itoa (gi_priority i) @ '' effort='' @ gi_effort i @ '' remediation='' @ gi_remediation i)
       (gp_gaps rep)"

section \<open>Counting\<close>

lemma count_of_split3:
  "int (length xs) = count_of (\<lambda>x. f x = a) xs + count_of (\<lambda>x. f x = b) xs + count_of (\<lambda>x. f x \<noteq> a \<and> f x \<noteq> b) xs"
  if "a \<noteq> b"
  using that by (induction xs) auto

lemma count_of_map [simp]: "count_of P (map f xs) = count_of (P \<circ> f) xs"
  by (induction xs) auto

lemma count_of_concat: "count_of P (concat xss) = sum_list (map (count_of P) xss)"
  by (induction xss) auto

lemma length_concat_int: "int (length (concat xss)) = sum_list (map (\<lambda>xs. int (length xs)) xss)"
  by (induction xss) auto

lemma sum_list_perm:
  fixes f :: "'a \<Rightarrow> int"
  shows "mset xs = mset ys \<Longrightarrow> sum_list (map f xs) = sum_list (map f ys)"
  by (metis mset_map sum_mset_sum_list)

lemma count_status_of: "count_status s = count_of (\<lambda>c. cr_status c = s)"
  by (intro ext) (simp add: count_status_def count_of_def)

lemma framework_coverage_of_simps [simp]:
  "fc_id (framework_coverage_of fr) = fr_id fr"
  "length (fc_controls (framework_coverage_of fr)) = length (fr_controls fr)"
  "fc_covered (framework_coverage_of fr) = count_of (\<lambda>c. cr_status c = ''covered'') (fr_controls fr)"
  "fc_partial (framework_coverage_of fr) = count_of (\<lambda>c. cr_status c = ''partial'') (fr_controls fr)"
  "fc_gap (framework_coverage_of fr) =
     count_of (\<lambda>c. cr_status c \<noteq> ''covered'' \<and> cr_status c \<noteq> ''partial'') (fr_controls fr)"
  by (simp_all add: framework_coverage_of_def Let_def o_def build_control_coverage_def is_gap_status_def)

lemma fc_coverage_ratio:
  "fc_coverage (framework_coverage_of fr) =
     (if fr_controls fr = [] then 0
      else round_ratio (of_int (count_status ''covered'' (fr_controls fr)) / of_nat (length (fr_controls fr))))"
  by (simp add: framework_coverage_of_def Let_def o_def build_control_coverage_def count_status_of)

section \<open>Rounding\<close>

lemma round_ratio_bounds: "0 \<le> round_ratio x \<and> round_ratio x \<le> 1"
proof -
  have "\<lfloor>x * 10000 + 1 / 2\<rfloor> \<le> 10000" if "x < 1"
  proof -
    have "x * 10000 + 1 / 2 < 10001" using that by simp
    then have "\<lfloor>x * 10000 + 1 / 2\<rfloor> < 10001" by (simp add: floor_less_iff)
    then show ?thesis by simp
  qed
  moreover have "0 \<le> \<lfloor>x * 10000 + 1 / 2\<rfloor>" if "0 < x"
    using that by simp
  moreover have "(of_int n :: rat) / 10000 \<le> 1" if "n \<le> 10000" for n :: int
    using that by (simp add: divide_le_eq_1)
  ultimately show ?thesis
    by (auto simp: round_ratio_def not_le)
qed

text \<open>Rounding to four decimals moves a ratio by at most half a unit of the last one.\<close>

lemma round_ratio_close:
  assumes "0 \<le> x" and "x \<le> 1"
  shows "\<bar>round_ratio x - x\<bar> \<le> 1 / 20000"
proof (cases "x = 0 \<or> x = 1")
  case True
  then show ?thesis by (auto simp: round_ratio_def)
next
  case False
  define n where "n = \<lfloor>x * 10000 + 1 / 2\<rfloor>"
  have "of_int n \<le> x * 10000 + 1 / 2" "x * 10000 + 1 / 2 < of_int n + 1"
    unfolding n_def by linarith+
  then have "of_int n / 10000 - x \<le> 1 / 20000" "x - of_int n / 10000 \<le> 1 / 20000" by simp_all
  then have "\<bar>of_int n / 10000 - x\<bar> \<le> 1 / 20000" by (simp only: abs_le_iff) simp
  moreover have "round_ratio x = of_int n / 10000" using False assms by (simp add: round_ratio_def n_def)
  ultimately show ?thesis by (simp only:)
qed

lemma round_ratio_one_iff:
  assumes "0 \<le> k" "k \<le> n" "0 < n" "n < 20000"
  shows "round_ratio (of_int k / of_int n) = 1 \<longleftrightarrow> k = n"
proof (cases "k = n")
  case True
  then show ?thesis using assms(3) by (simp add: round_ratio_def)
next
  case False
  define x where "x = (of_int k / of_int n :: rat)"
  have "x \<le> of_int (n - 1) / of_int n"
    unfolding x_def using False assms(2,3) by (intro divide_right_mono) simp_all
  also have "\<dots> = 1 - 1 / of_int n" using assms(3) by (simp add: field_simps)
  also have "\<dots> < 1 - 1 / 20000"
    using assms(3,4) by (simp add: frac_less2)
  finally have x: "x < 1 - 1 / 20000" .
  define f where "f = \<lfloor>x * 10000 + 1 / 2\<rfloor>"
  have "f < 10000" using x by (simp add: f_def floor_less_iff)
  then have "round_ratio x \<noteq> 1" using x unfolding round_ratio_def f_def [symmetric] by auto
  then show ?thesis using False by (simp add: x_def)
qed

section \<open>The coverage report\<close>

lemma go_sort_sorted_id:
  assumes "\<And>a b. lt a b \<longleftrightarrow> k a < (k b :: 'k :: linorder)" and "sorted (map k xs)"
  shows "go_sort lt xs = xs"
  using assms(2) by (simp add: go_sort_key [OF assms(1)] sort_key_id_if_sorted)

lemma coverage_frameworks:
  assumes "sorted (map fr_id (mr_frameworks m))"
  shows "rp_frameworks (coverage_build m) = map framework_coverage_of (mr_frameworks m)"
proof -
  have "sorted (map fc_id (map framework_coverage_of (mr_frameworks m)))"
    using assms by (simp add: o_def)
  then show ?thesis
    by (simp add: coverage_build_def Let_def go_sort_sorted_id [where k = fc_id])
qed

lemma evaluate_frameworks_sorted: "sorted (map fr_id (mr_frameworks (evaluate ex defs rs)))"
  unfolding evaluate_def Let_def by simp (rule go_sort_sorted, simp)

lemma coverage_summary:
  "rp_summary (coverage_build m) = summarize (mr_frameworks m)"
  by (simp add: coverage_build_def summarize_def Let_def o_def count_of_concat length_concat_int count_status_of
      count_of_def [symmetric])

lemma summarize_sums:
  "summarize frs =
     \<lparr>ms_frameworks = int (length frs), ms_controls = sum_list (map (\<lambda>f. int (length (fr_controls f))) frs),
      ms_covered = sum_list (map (\<lambda>f. count_status ''covered'' (fr_controls f)) frs),
      ms_partial = sum_list (map (\<lambda>f. count_status ''partial'' (fr_controls f)) frs),
      ms_gap = sum_list (map (\<lambda>f. count_of (\<lambda>c. cr_status c \<noteq> ''covered'' \<and> cr_status c \<noteq> ''partial'') (fr_controls f)) frs)\<rparr>"
  by (simp add: summarize_def Let_def count_status_of count_of_def [symmetric] count_of_concat length_concat_int o_def)

lemma summarize_perm:
  assumes "mset frs = mset frs'"
  shows "summarize frs = summarize frs'"
proof -
  have "sum_list (map f frs) = sum_list (map f frs')" for f :: "framework_result \<Rightarrow> int"
    using assms by (rule sum_list_perm)
  moreover have "length frs = length frs'" using assms by (rule mset_eq_length)
  ultimately show ?thesis unfolding summarize_sums by (intro match_summary.equality) simp_all
qed

text \<open>
  The coverage report recounts what the matcher counted and comes to the same figures: the same
  summary, the same ratio for every framework in the same order, and, per framework, covered, partial
  and gap controls that add up to all of its controls; the ratio lies between 0 and 1, is within half
  of the last decimal of the true fraction, and below twenty thousand controls is 1 only when
  every control is covered.
\<close>

theorem coverage_agrees_with_matcher:
  fixes ex defs rs
  defines "m \<equiv> evaluate ex defs rs"
  shows "rp_summary (coverage_build m) = mr_summary m \<and>
    map fc_id (rp_frameworks (coverage_build m)) = map fr_id (mr_frameworks m) \<and>
    map fc_coverage (rp_frameworks (coverage_build m)) = map fr_ratio (mr_frameworks m) \<and>
    list_all (\<lambda>f. fc_covered f + fc_partial f + fc_gap f = int (length (fc_controls f)) \<and>
        0 \<le> fc_coverage f \<and> fc_coverage f \<le> 1 \<and>
        (fc_controls f = [] \<or>
         \<bar>fc_coverage f - of_int (fc_covered f) / of_nat (length (fc_controls f))\<bar> \<le> 1 / 20000) \<and>
        (length (fc_controls f) \<ge> 20000 \<or> fc_controls f = [] \<or>
         (fc_coverage f = 1 \<longleftrightarrow> fc_covered f = int (length (fc_controls f)))))
      (rp_frameworks (coverage_build m))"
proof -
  note sorted = evaluate_frameworks_sorted [of ex defs rs, folded m_def]
  have "summarize (mr_frameworks m) = mr_summary m"
    unfolding m_def evaluate_def Let_def by (simp add: summarize_perm)
  moreover have "fr_ratio fr = fc_coverage (framework_coverage_of fr)" if "fr \<in> set (mr_frameworks m)" for fr
    using that by (auto simp: m_def evaluate_def Let_def evaluate_framework_def fc_coverage_ratio)
  moreover have "fc_covered f + fc_partial f + fc_gap f = int (length (fc_controls f)) \<and>
        0 \<le> fc_coverage f \<and> fc_coverage f \<le> 1 \<and>
        (fc_controls f = [] \<or>
         \<bar>fc_coverage f - of_int (fc_covered f) / of_nat (length (fc_controls f))\<bar> \<le> 1 / 20000) \<and>
        (length (fc_controls f) \<ge> 20000 \<or> fc_controls f = [] \<or>
         (fc_coverage f = 1 \<longleftrightarrow> fc_covered f = int (length (fc_controls f))))"
    if f: "f = framework_coverage_of fr" for f fr
  proof -
    have split: "int (length (fr_controls fr)) = fc_covered f + fc_partial f + fc_gap f"
      unfolding f framework_coverage_of_simps by (rule count_of_split3) simp
    have nonneg: "0 \<le> fc_covered f" "fc_covered f \<le> int (length (fc_controls f))"
      using split by (simp_all add: f)
    have len: "length (fc_controls f) = length (fr_controls fr)" "fc_controls f = [] \<longleftrightarrow> fr_controls fr = []"
      by (simp_all add: f flip: length_0_conv)
    have ratio: "fc_coverage f = round_ratio (of_int (fc_covered f) / of_int (int (length (fc_controls f))))"
      if "fc_controls f \<noteq> []"
      using that len by (simp add: f fc_coverage_ratio count_status_of)
    have "0 \<le> fc_coverage f \<and> fc_coverage f \<le> 1"
      using round_ratio_bounds by (auto simp: f fc_coverage_ratio)
    moreover have "\<bar>fc_coverage f - of_int (fc_covered f) / of_int (int (length (fc_controls f)))\<bar> \<le> 1 / 20000"
      if "fc_controls f \<noteq> []"
      unfolding ratio [OF that]
      by (rule round_ratio_close) (use nonneg that in \<open>simp_all add: divide_le_eq_1\<close>)
    moreover have "fc_coverage f = 1 \<longleftrightarrow> fc_covered f = int (length (fc_controls f))"
      if "fc_controls f \<noteq> []" "length (fc_controls f) < 20000"
      unfolding ratio [OF that(1)]
      by (rule round_ratio_one_iff) (use nonneg that in simp_all)
    ultimately show ?thesis unfolding of_int_of_nat_eq using split len
      by (cases "fc_controls f = []"; cases "length (fc_controls f) < 20000") simp_all
  qed
  ultimately show ?thesis
    unfolding coverage_frameworks [OF sorted] coverage_summary
    by (auto simp: list_all_iff framework_coverage_of_simps(1) simp del: framework_coverage_of_simps(2-))
qed

section \<open>The grade\<close>

lemma base_letter_cases:
  "base_letter n covered gaps points = ''A'' \<longleftrightarrow> gaps = 0 \<and> covered = n"
  "base_letter n covered gaps points = ''B'' \<Longrightarrow> gaps = 0"
  "base_letter n covered gaps points \<in> set [''A'', ''B'', ''C'', ''D'', ''E'', ''F'']"
  by (auto simp: base_letter_def split: if_splits)

lemma capped_letter_cases:
  "capped_letter w l = ''A'' \<longleftrightarrow> l = ''A'' \<and> w \<le> 0"
  "capped_letter w l = ''B'' \<Longrightarrow> (l = ''A'' \<or> l = ''B'') \<and> w \<le> 1"
  "l \<in> set [''A'', ''B'', ''C'', ''D'', ''E'', ''F''] \<Longrightarrow> capped_letter w l \<in> set [''A'', ''B'', ''C'', ''D'', ''E'', ''F'']"
  by (auto simp: capped_letter_def split: if_splits)

lemma identity_weakness_count_nonneg: "0 \<le> identity_weakness_count rep"
  by (simp add: identity_weakness_count_def)

text \<open>
  The letter is that of the weakest link. A is given exactly when there are controls, all of
  them are covered and none has an identity weakness; B needs at least that there is no gap and at
  most one control with an identity weakness; the score lies between 0 and 1. And a report on a
  single control with a gap gets the letter C with score 0.
\<close>

theorem grade_is_weakest_link:
  "(let s = rp_summary rep; g = grade_derive rep; weak = identity_weakness_count rep in
     (gr_letter g = ''A'' \<longleftrightarrow> ms_controls s \<noteq> 0 \<and> ms_gap s = 0 \<and> ms_covered s = ms_controls s \<and> weak = 0) \<and>
     (if gr_letter g = ''B'' then ms_gap s = 0 \<and> weak \<le> 1 else True) \<and>
     gr_letter g \<in> set [''A'', ''B'', ''C'', ''D'', ''E'', ''F''] \<and>
     0 \<le> gr_score g \<and> gr_score g \<le> 1 \<and>
     (if ms_controls s = 1 \<and> ms_gap s = 1 \<and> ms_covered s = 0 \<and> ms_partial s = 0
      then gr_letter g = ''C'' \<and> gr_score g = 0 else True))"
proof (cases "ms_controls (rp_summary rep) = 0")
  case True
  then show ?thesis by (simp add: grade_derive_def Let_def)
next
  case False
  let ?s = "rp_summary rep" and ?w = "identity_weakness_count rep"
  define points where "points = round_ratio ((of_int (ms_covered ?s) + of_int (ms_partial ?s) * (1 / 2)) /
      of_int (ms_controls ?s) - identity_penalty ?w)"
  have g: "gr_letter (grade_derive rep) = capped_letter ?w (base_letter (ms_controls ?s) (ms_covered ?s) (ms_gap ?s) points)"
    "gr_score (grade_derive rep) = round_ratio points"
    using False by (simp_all add: grade_derive_def Let_def points_def)
  have one: "points = 0" "base_letter 1 0 1 points = ''C''"
    if "ms_controls ?s = 1" "ms_gap ?s = 1" "ms_covered ?s = 0" "ms_partial ?s = 0"
  proof -
    have "0 \<le> identity_penalty ?w" by (simp add: identity_penalty_def Let_def)
    then show "points = 0" using that by (simp add: points_def round_ratio_def)
    show "base_letter 1 0 1 points = ''C''" by (simp add: base_letter_def)
  qed
  let ?base = "base_letter (ms_controls ?s) (ms_covered ?s) (ms_gap ?s) points"
  have a: "capped_letter ?w ?base = ''A'' \<longleftrightarrow> ms_gap ?s = 0 \<and> ms_covered ?s = ms_controls ?s \<and> ?w = 0"
    using identity_weakness_count_nonneg [of rep] by (auto simp: capped_letter_cases(1) base_letter_cases(1))
  have b: "ms_gap ?s = 0 \<and> ?w \<le> 1" if "capped_letter ?w ?base = ''B''"
    using capped_letter_cases(2) [OF that] base_letter_cases(1,2) by metis
  have c: "capped_letter ?w ?base = ''C'' \<and> round_ratio points = 0"
    if "ms_controls ?s = 1" "ms_gap ?s = 1" "ms_covered ?s = 0" "ms_partial ?s = 0"
    using one [OF that] that by (simp add: capped_letter_def round_ratio_def)
  note d = capped_letter_cases(3) [OF base_letter_cases(3), of ?w "ms_controls ?s" "ms_covered ?s" "ms_gap ?s" points]
  show ?thesis
    unfolding Let_def g a using False b c d round_ratio_bounds [of points] by (simp del: set_simps)
qed

section \<open>The gap report\<close>

definition gap_key :: "gap_item \<Rightarrow> int \<times> string \<times> string" where
  "gap_key i = (- gi_priority i, gi_framework i, gi_control i)"

lemma gap_ranks_before_key: "gap_ranks_before a b \<longleftrightarrow> gap_key a < gap_key b"
  by (auto simp: gap_ranks_before_def gap_key_def)

lemma sorted_ends:
  "sorted (map f xs) \<Longrightarrow> x \<in> set xs \<Longrightarrow> f (hd xs) \<le> f x \<and> f x \<le> f (last xs)"
  by (induction xs) auto

lemma gap_key_le: "gap_key a \<le> gap_key b \<Longrightarrow> gi_priority b \<le> gi_priority a"
  by (auto simp: gap_key_def less_eq_prod_def)

lemma assign_ranks_facts:
  "length (assign_ranks items) = length items"
  "map (\<lambda>i. i\<lparr>gi_rank := r\<rparr>) (assign_ranks items) = map (\<lambda>i. i\<lparr>gi_rank := r\<rparr>) items"
  "map gi_rank (assign_ranks items) = map (\<lambda>n. int n + 1) [0..<length items]"
  "map gap_key (assign_ranks items) = map gap_key items"
  by (auto simp: assign_ranks_def gap_key_def intro!: nth_equalityI)

lemma gap_items_rank: "i \<in> set (gap_items rep) \<Longrightarrow> i\<lparr>gi_rank := 0\<rparr> = i"
  by (auto simp: gap_items_def gap_item_of_def Let_def)

lemma gap_items_status: "i \<in> set (gap_items rep) \<Longrightarrow> gi_status i \<noteq> ''covered''"
  by (auto simp: gap_items_def gap_item_of_def Let_def)

text \<open>
  The gap report lists every control that is not covered exactly once, none that is, in
  descending order of priority (ties by framework and control id), numbered from 1; the summary's
  highest and lowest priority are the first and the last.
\<close>

theorem gap_report_ranks_every_gap:
  "(let rep' = gaps_build rep; items = gp_gaps rep' in
     mset (map (\<lambda>i. i\<lparr>gi_rank := 0\<rparr>) items) =
       mset (concat (map (\<lambda>f. map (gap_item_of (fc_id f)) (filter (\<lambda>c. cc_status c \<noteq> ''covered'') (fc_controls f)))
         (rp_frameworks rep))) \<and>
     map gi_rank items = map (\<lambda>n. int n + 1) [0..<length items] \<and>
     sorted (map (\<lambda>i. (- gi_priority i, gi_framework i, gi_control i)) items) \<and>
     list_all (\<lambda>i. gi_status i \<noteq> ''covered'' \<and> gi_priority i \<le> gs_highest (gp_summary rep') \<and>
         gs_lowest (gp_summary rep') \<le> gi_priority i) items)"
proof -
  let ?sorted = "go_sort gap_ranks_before (gap_items rep)"
  let ?items = "assign_ranks ?sorted"
  have items: "gp_gaps (gaps_build rep) = ?items" by (simp add: gaps_build_def Let_def)
  have "mset (map (\<lambda>i. i\<lparr>gi_rank := 0\<rparr>) ?items) = mset (map (\<lambda>i. i\<lparr>gi_rank := 0\<rparr>) (gap_items rep))"
    unfolding assign_ranks_facts by simp
  also have "map (\<lambda>i. i\<lparr>gi_rank := 0\<rparr>) (gap_items rep) = gap_items rep"
    by (rule map_idI) (rule gap_items_rank)
  finally have all: "mset (map (\<lambda>i. i\<lparr>gi_rank := 0\<rparr>) ?items) = mset (gap_items rep)" .
  have sorted: "sorted (map gap_key ?items)"
    unfolding assign_ranks_facts by (rule go_sort_sorted) (rule gap_ranks_before_key)
  have status: "gi_status i \<noteq> ''covered''" if "i \<in> set ?items" for i
  proof -
    have "i\<lparr>gi_rank := 0\<rparr> \<in> set (map (\<lambda>i. i\<lparr>gi_rank := 0\<rparr>) ?items)" using that by auto
    then have "i\<lparr>gi_rank := 0\<rparr> \<in> set (gap_items rep)" using all by (metis set_mset_mset)
    then show ?thesis using gap_items_status by fastforce
  qed
  have bounds: "gi_priority i \<le> gs_highest (gp_summary (gaps_build rep)) \<and>
      gs_lowest (gp_summary (gaps_build rep)) \<le> gi_priority i" if "i \<in> set ?items" for i
  proof -
    have ne: "?items \<noteq> []" using that by auto
    have "gap_key (hd ?items) \<le> gap_key i" "gap_key i \<le> gap_key (last ?items)"
      using sorted_ends [OF sorted that] by simp_all
    then have "gi_priority i \<le> gi_priority (hd ?items)" "gi_priority (last ?items) \<le> gi_priority i"
      by (simp_all only: gap_key_le)
    then show ?thesis using ne by (simp add: gaps_build_def Let_def)
  qed
  show ?thesis
    unfolding Let_def items
    using all sorted status bounds assign_ranks_facts(1,3)
    by (simp add: list_all_iff gap_key_def [abs_def] gap_items_def)
qed

end
