(* ===== verification/Telemetry.thy ===== *)
theory Telemetry
  imports Packet "HOL-Library.Word"
begin

text \<open>
  \<open>core/governance/ingest.go\<close> and \<open>core/governance/otlp.go\<close>: observability evidence. Trace spans
  come as a strict JSON document or as an OTLP export; boundary attestations and judge verdicts are
  signed documents. None of them carries authority. A raw input is its size, its digest and what
  the JSON decoder makes of it.
\<close>

section \<open>Documents\<close>

record 'a raw_doc =
  rd_size :: int
  rd_digest :: string
  rd_doc :: "'a option"      \<comment> \<open>\<open>None\<close> when decoding fails\<close>

record trace_span =
  ts_trace_id :: string
  ts_span_id :: string
  ts_parent :: string
  ts_name :: string
  ts_start :: string
  ts_end :: string
  ts_attributes :: "(string \<times> string) list"
  ts_source :: string
  ts_digest :: string

record boundary_attestation =
  ba_schema_id :: string
  ba_schema_version :: string
  ba_id :: string
  ba_boundary :: string
  ba_contract_ref :: gov_ref
  ba_observed_at :: string
  ba_fresh_until :: string
  ba_scope :: string
  ba_source :: string
  ba_digest :: string
  ba_signature :: signature
  ba_advisory :: bool
  ba_execution_authority :: bool

record judge_evidence =
  je_schema_id :: string
  je_schema_version :: string
  je_id :: string
  je_contract_ref :: gov_ref
  je_verdict :: string
  je_observed_at :: string
  je_fresh_until :: string
  je_explanation :: string
  je_source :: string
  je_digest :: string
  je_provider_version :: string
  je_signature :: signature
  je_advisory :: bool
  je_execution_authority :: bool

record telemetry_doc =
  td_spans :: "trace_span list"
  td_attestations :: "boundary_attestation list"

record telemetry_result =
  tr_spans :: "trace_span list"
  tr_attestations :: "boundary_attestation list"
  tr_source_digests :: "string list"
  tr_reasons :: "string list"
  tr_integrity :: string
  tr_freshness :: string
  tr_attestation :: string
  tr_enforcement :: string
  tr_correlation :: string

record judge_projection =
  jp_evidence_id :: string
  jp_verdict :: string
  jp_advisory :: bool
  jp_execution_authority :: bool
  jp_reasons :: "string list"
  jp_source_digest :: string

definition reason_stale :: string where "reason_stale = ''GOVERNANCE_STALE''"
definition reason_advisory :: string where "reason_advisory = ''JUDGE_ADVISORY_ONLY''"
definition reason_limit :: string where "reason_limit = ''GOVERNANCE_LIMIT_EXCEEDED''"
definition reason_missing :: string where "reason_missing = ''GOVERNANCE_TELEMETRY_MISSING''"
definition max_telemetry_spans :: int where "max_telemetry_spans = 10000"

section \<open>Telemetry\<close>

definition trace_id_ok :: "string \<Rightarrow> bool" where
  "trace_id_ok s \<longleftrightarrow> length s = 32 \<and> list_all is_hex s"

definition span_id_ok :: "string \<Rightarrow> bool" where
  "span_id_ok s \<longleftrightarrow> length s = 16 \<and> list_all is_hex s"

definition span_shape_ok :: "trace_span \<Rightarrow> bool" where
  "span_shape_ok s \<longleftrightarrow> trace_id_ok (ts_trace_id s) \<and> span_id_ok (ts_span_id s) \<and> digest_ok (ts_digest s) \<and>
     ts_source s \<noteq> []"

definition span_digest :: "(trace_span \<Rightarrow> string option) \<Rightarrow> trace_span \<Rightarrow> string" where
  \<comment> \<open>\<open>expected, _ := Digest(check)\<close>\<close>
  "span_digest jcs s = str_or_empty (gov_digest jcs (s\<lparr>ts_digest := []\<rparr>))"

definition span_times_ok :: "trace_span \<Rightarrow> bool" where
  "span_times_ok s =
     (case (parse_rfc3339 (ts_start s), parse_rfc3339 (ts_end s)) of
        (Some st, Some et) \<Rightarrow> st < et
      | _ \<Rightarrow> False)"

definition span_end :: "trace_span \<Rightarrow> instant" where
  \<comment> \<open>the zero time when parsing fails\<close>
  "span_end s = (case parse_rfc3339 (ts_end s) of None \<Rightarrow> 0 | Some t \<Rightarrow> t)"

definition span_stale :: "instant \<Rightarrow> duration \<Rightarrow> trace_span \<Rightarrow> bool" where
  "span_stale now max_age s \<longleftrightarrow> \<not> is_zero_time now \<and> max_age > 0 \<and> time_sub now (span_end s) > max_age"

definition span_foreign :: "string \<Rightarrow> string \<Rightarrow> trace_span \<Rightarrow> bool" where
  \<comment> \<open>a contract was asked for and the span does not name it\<close>
  "span_foreign key contract_id s \<longleftrightarrow>
     contract_id \<noteq> [] \<and>
     (let v = str_or_empty (map_of (ts_attributes s) key) in v = [] \<or> v \<noteq> contract_id)"

definition check_span ::
  "(trace_span \<Rightarrow> string option) \<Rightarrow> instant \<Rightarrow> duration \<Rightarrow> string \<Rightarrow> trace_span \<Rightarrow> telemetry_result \<Rightarrow> telemetry_result" where
  "check_span jcs now max_age contract_id s out =
     (if \<not> span_shape_ok s then
        out\<lparr>tr_integrity := ''failed'', tr_reasons := tr_reasons out @ [reason_malformed]\<rparr>
      else
        let out = (if span_digest jcs s \<noteq> ts_digest s
                   then out\<lparr>tr_integrity := ''failed'', tr_reasons := tr_reasons out @ [reason_tampered]\<rparr> else out);
            out = (if \<not> span_times_ok s
                   then out\<lparr>tr_integrity := ''failed'', tr_reasons := tr_reasons out @ [reason_malformed]\<rparr> else out);
            out = (if span_stale now max_age s
                   then out\<lparr>tr_freshness := ''stale'', tr_reasons := tr_reasons out @ [reason_stale]\<rparr> else out)
        in if span_foreign ''contract.id'' contract_id s
           then out\<lparr>tr_correlation := ''mismatched'', tr_reasons := tr_reasons out @ [reason_out_of_scope]\<rparr> else out)"

definition initial_telemetry :: "'a raw_doc \<Rightarrow> trace_span list \<Rightarrow> boundary_attestation list \<Rightarrow> string \<Rightarrow> telemetry_result" where
  "initial_telemetry raw spans atts correlation =
     \<lparr>tr_spans = spans, tr_attestations = atts, tr_source_digests = [rd_digest raw],
      tr_reasons = (if spans = [] then [reason_missing] else []),
      tr_integrity = (if spans = [] then ''absent'' else ''verified''),
      tr_freshness = (if spans = [] then ''absent'' else ''fresh''),
      tr_attestation = (if atts = [] then ''absent'' else ''present_advisory''),
      tr_enforcement = ''advisory_only'', tr_correlation = correlation\<rparr>"

definition settle_correlation :: "string \<Rightarrow> telemetry_result \<Rightarrow> telemetry_result" where
  "settle_correlation contract_id out =
     (if contract_id \<noteq> [] \<and> tr_correlation out = ''unverifiable'' then out\<lparr>tr_correlation := ''reported_match''\<rparr>
      else if contract_id = [] \<and> tr_spans out \<noteq> [] then out\<lparr>tr_correlation := ''identifier_only''\<rparr>
      else out)"

definition sort_reasons :: "telemetry_result \<Rightarrow> telemetry_result" where
  "sort_reasons out = out\<lparr>tr_reasons := sort (tr_reasons out)\<rparr>"

definition ingest_telemetry ::
  "(trace_span \<Rightarrow> string option) \<Rightarrow> telemetry_doc raw_doc \<Rightarrow> instant \<Rightarrow> duration \<Rightarrow> string \<Rightarrow>
   (string, telemetry_result) result" where
  "ingest_telemetry jcs raw now max_age contract_id =
     (case rd_doc raw of
        None \<Rightarrow> Inl reason_malformed
      | Some doc \<Rightarrow>
          if int (length (td_spans doc)) > max_telemetry_spans then Inl reason_limit
          else Inr (sort_reasons (settle_correlation contract_id
                 (fold (check_span jcs now max_age contract_id) (td_spans doc)
                   (initial_telemetry raw (td_spans doc) (td_attestations doc) ''unverifiable'')))))"

section \<open>Signed advisory documents\<close>

definition no_signature :: signature where
  "no_signature = \<lparr>sg_alg = [], sg_key_id = [], sg_signed_digest = [], sg_value = []\<rparr>"

definition unsealed_boundary :: "boundary_attestation \<Rightarrow> boundary_attestation" where
  "unsealed_boundary a = a\<lparr>ba_digest := [], ba_signature := no_signature\<rparr>"

definition unsealed_judge :: "judge_evidence \<Rightarrow> judge_evidence" where
  "unsealed_judge j = j\<lparr>je_digest := [], je_signature := no_signature\<rparr>"

definition sign_judge ::
  "(judge_evidence \<Rightarrow> string option) \<Rightarrow> ('priv \<Rightarrow> string \<Rightarrow> signature option) \<Rightarrow> 'priv \<Rightarrow> judge_evidence \<Rightarrow>
   judge_evidence option" where
  \<comment> \<open>\<open>None\<close> on an error\<close>
  "sign_judge jcs sign priv j =
     (let j = unsealed_judge j in
      case gov_digest jcs j of
        None \<Rightarrow> None
      | Some d \<Rightarrow>
          (case sign priv (trim_prefix d ''sha256:'') of
             None \<Rightarrow> None
           | Some s \<Rightarrow> Some (j\<lparr>je_digest := d, je_signature := s\<rparr>)))"

definition sign_boundary ::
  "(boundary_attestation \<Rightarrow> string option) \<Rightarrow> ('priv \<Rightarrow> string \<Rightarrow> signature option) \<Rightarrow> 'priv \<Rightarrow>
   boundary_attestation \<Rightarrow> boundary_attestation option" where
  "sign_boundary jcs sign priv a =
     (let a = unsealed_boundary a in
      case gov_digest jcs a of
        None \<Rightarrow> None
      | Some d \<Rightarrow>
          (case sign priv (trim_prefix d ''sha256:'') of
             None \<Rightarrow> None
           | Some s \<Rightarrow> Some (a\<lparr>ba_digest := d, ba_signature := s\<rparr>)))"

definition verify_boundary ::
  "(boundary_attestation \<Rightarrow> string option) \<Rightarrow> ('pub \<Rightarrow> string) \<Rightarrow> ('pub \<Rightarrow> signature \<Rightarrow> bool option) \<Rightarrow>
   boundary_attestation \<Rightarrow> 'pub \<Rightarrow> instant \<Rightarrow> string \<Rightarrow> string option" where
  "verify_boundary jcs key_id verify a pub now contract_id =
     (if ba_schema_id a = [] \<or> ba_schema_version a = [] \<or> \<not> ba_advisory a \<or> ba_execution_authority a \<or>
         \<not> valid_ref (ba_contract_ref a) \<or> \<not> digest_ok (ba_digest a) then Some reason_malformed
      else if contract_id \<noteq> [] \<and> ref_id (ba_contract_ref a) \<noteq> contract_id then Some reason_out_of_scope
      else if (case parse_rfc3339 (ba_fresh_until a) of None \<Rightarrow> True | Some t \<Rightarrow> now > t) then Some reason_stale
      else if str_or_empty (gov_digest jcs (unsealed_boundary a)) \<noteq> ba_digest a then Some reason_tampered
      else if sg_signed_digest (ba_signature a) \<noteq> trim_prefix (ba_digest a) ''sha256:'' then Some reason_tampered
      else if sg_key_id (ba_signature a) \<noteq> key_id pub then Some reason_tampered
      else if verify pub (ba_signature a) \<noteq> Some True then Some reason_tampered
      else None)"

definition verify_judge ::
  "(judge_evidence \<Rightarrow> string option) \<Rightarrow> ('pub \<Rightarrow> string) \<Rightarrow> ('pub \<Rightarrow> signature \<Rightarrow> bool option) \<Rightarrow>
   judge_evidence \<Rightarrow> 'pub \<Rightarrow> instant \<Rightarrow> string \<Rightarrow> string option" where
  "verify_judge jcs key_id verify j pub now contract_id =
     (if je_schema_id j = [] \<or> je_schema_version j = [] \<or> je_provider_version j = [] \<or> \<not> je_advisory j \<or>
         je_execution_authority j \<or> \<not> valid_ref (je_contract_ref j) \<or> \<not> digest_ok (je_digest j) then Some reason_malformed
      else if contract_id \<noteq> [] \<and> ref_id (je_contract_ref j) \<noteq> contract_id then Some reason_out_of_scope
      else if (case parse_rfc3339 (je_fresh_until j) of None \<Rightarrow> True | Some t \<Rightarrow> now > t) then Some reason_stale
      else if str_or_empty (gov_digest jcs (unsealed_judge j)) \<noteq> je_digest j then Some reason_tampered
      else if sg_signed_digest (je_signature j) \<noteq> trim_prefix (je_digest j) ''sha256:'' then Some reason_tampered
      else if sg_key_id (je_signature j) \<noteq> key_id pub then Some reason_tampered
      else if verify pub (je_signature j) \<noteq> Some True then Some reason_tampered
      else None)"

definition project_judge :: "judge_evidence \<Rightarrow> string \<Rightarrow> (string, judge_projection) result" where
  "project_judge j contract_id =
     (if je_id j = [] \<or> \<not> valid_ref (je_contract_ref j) \<or> je_verdict j = [] \<or> je_source j = [] \<or>
         \<not> digest_ok (je_digest j) then Inl reason_malformed
      else Inr
        \<lparr>jp_evidence_id = je_id j, jp_verdict = je_verdict j, jp_advisory = True, jp_execution_authority = False,
         jp_reasons = [reason_advisory] @
           (if contract_id \<noteq> [] \<and> ref_id (je_contract_ref j) \<noteq> contract_id then [reason_out_of_scope] else []),
         jp_source_digest = je_digest j\<rparr>)"

section \<open>OTLP\<close>

record otlp_scope =
  os_scope :: gmap
  os_spans :: "gmap list"

record otlp_group =
  og_attributes :: "gmap list"
  og_scopes :: "otlp_scope list"

record otlp_options =
  oo_max_bytes :: int
  oo_max_groups :: int
  oo_max_scopes :: int
  oo_max_spans :: int
  oo_now :: instant
  oo_max_age :: duration
  oo_contract_id :: string

definition limit :: "int \<Rightarrow> int \<Rightarrow> int" where
  "limit v d = (if v > 0 then v else d)"

definition string_value :: "gvalue option \<Rightarrow> string" where
  "string_value v =
     (case v of
        Some (VStr s) \<Rightarrow> s
      | Some (VObj x) \<Rightarrow>
          (case List.map_filter (\<lambda>k. as_string (map_of x k)) [''stringValue'', ''string_value'', ''value''] of
             [] \<Rightarrow> []
           | s # _ \<Rightarrow> s)
      | _ \<Rightarrow> [])"

definition add_attr :: "gmap \<Rightarrow> (string \<times> string) list \<Rightarrow> (string \<times> string) list" where
  "add_attr m out =
     (let k = string_value (mget m ''key'') in
      if k \<noteq> [] then AList.update k (string_value (mget m ''value'')) out else out)"

definition attrs_of_maps :: "gmap list \<Rightarrow> (string \<times> string) list" where
  "attrs_of_maps ms = fold add_attr ms []"

definition attrs_map :: "gvalue option \<Rightarrow> (string \<times> string) list" where
  "attrs_map v =
     (case v of
        Some (VArr items) \<Rightarrow> attrs_of_maps (List.map_filter (\<lambda>x. map_option Some (as_obj (Some x))) items)
      | Some (VObjs os) \<Rightarrow> attrs_of_maps (map Some os)
      | _ \<Rightarrow> [])"

definition merge_attrs :: "(string \<times> string) list \<Rightarrow> (string \<times> string) list \<Rightarrow> (string \<times> string) list" where
  "merge_attrs a b = fold (\<lambda>(k, v). AList.update k v) b a"

definition unix_epoch :: instant where
  "unix_epoch = days_of_date 1970 1 1 * day_ns"

definition nanos_step :: "64 word \<Rightarrow> char \<Rightarrow> 64 word" where
  \<comment> \<open>\<open>n = n*10 + int64(c-'0')\<close>, which wraps around\<close>
  "nanos_step n c = n * 10 + word_of_int (digit_value c)"

definition otlp_nanos :: "string \<Rightarrow> int" where
  "otlp_nanos s = sint (foldl nanos_step 0 s)"

definition otlp_time :: "gvalue option \<Rightarrow> instant option" where
  "otlp_time v =
     (let s = string_value v in
      if s = [] \<or> \<not> list_all is_digit s then None else Some (unix_epoch + otlp_nanos s))"

definition otlp_instant :: "gmap \<Rightarrow> string \<Rightarrow> string \<Rightarrow> instant option" where
  \<comment> \<open>the Unix time under one key or else the RFC 3339 time under the other\<close>
  "otlp_instant m unix_key key =
     (case otlp_time (mget m unix_key) of
        Some t \<Rightarrow> Some t
      | None \<Rightarrow> parse_rfc3339 (string_value (mget m key)))"

definition otlp_span ::
  "(trace_span \<Rightarrow> string option) \<Rightarrow> (string \<times> string) list \<Rightarrow> string \<Rightarrow> gmap \<Rightarrow> trace_span option" where
  "otlp_span jcs resource scope m =
     (let trace = to_lower (string_value (mget m ''traceId'')); sid = to_lower (string_value (mget m ''spanId''))
      in if \<not> trace_id_ok trace \<or> \<not> span_id_ok sid then None
         else case (otlp_instant m ''startTimeUnixNano'' ''startTime'', otlp_instant m ''endTimeUnixNano'' ''endTime'') of
            (Some st, Some et) \<Rightarrow>
              if et < st then None
              else
                let s = \<lparr>ts_trace_id = trace, ts_span_id = sid,
                         ts_parent = to_lower (string_value (mget m ''parentSpanId'')),
                         ts_name = string_value (mget m ''name''), ts_start = format_rfc3339_nano st,
                         ts_end = format_rfc3339_nano et,
                         ts_attributes = merge_attrs resource (attrs_map (mget m ''attributes'')),
                         ts_source = scope, ts_digest = []\<rparr>
                in Some (s\<lparr>ts_digest := span_digest jcs s\<rparr>)
          | _ \<Rightarrow> None)"

fun otlp_spans ::
  "(trace_span \<Rightarrow> string option) \<Rightarrow> int \<Rightarrow> (string \<times> string) list \<Rightarrow> string \<Rightarrow> gmap list \<Rightarrow> trace_span list \<Rightarrow>
   (string, trace_span list) result" where
  "otlp_spans jcs max_spans resource scope [] acc = Inr acc"
| "otlp_spans jcs max_spans resource scope (m # ms) acc =
     (if int (length acc) \<ge> max_spans then Inl reason_limit
      else case otlp_span jcs resource scope m of
             None \<Rightarrow> Inl reason_malformed
           | Some s \<Rightarrow> otlp_spans jcs max_spans resource scope ms (acc @ [s]))"

fun otlp_scopes ::
  "(trace_span \<Rightarrow> string option) \<Rightarrow> otlp_options \<Rightarrow> (string \<times> string) list \<Rightarrow> otlp_scope list \<Rightarrow> int \<times> trace_span list \<Rightarrow>
   (string, int \<times> trace_span list) result" where
  "otlp_scopes jcs opt resource [] st = Inr st"
| "otlp_scopes jcs opt resource (g # gs) (n, acc) =
     (if n + 1 > limit (oo_max_scopes opt) 500 then Inl reason_limit
      else bind_result
             (otlp_spans jcs (limit (oo_max_spans opt) max_telemetry_spans) resource
               (string_value (mget (os_scope g) ''name'')) (os_spans g) acc)
             (\<lambda>acc. otlp_scopes jcs opt resource gs (n + 1, acc)))"

fun otlp_groups ::
  "(trace_span \<Rightarrow> string option) \<Rightarrow> otlp_options \<Rightarrow> otlp_group list \<Rightarrow> int \<times> trace_span list \<Rightarrow>
   (string, int \<times> trace_span list) result" where
  "otlp_groups jcs opt [] st = Inr st"
| "otlp_groups jcs opt (g # gs) st =
     bind_result (otlp_scopes jcs opt (attrs_of_maps (og_attributes g)) (og_scopes g) st) (otlp_groups jcs opt gs)"

definition span_before :: "trace_span \<Rightarrow> trace_span \<Rightarrow> bool" where
  "span_before a b \<longleftrightarrow>
     (if ts_trace_id a = ts_trace_id b then ts_span_id a < ts_span_id b else ts_trace_id a < ts_trace_id b)"

definition span_key :: "trace_span \<Rightarrow> string" where
  "span_key s = ts_trace_id s @ '':'' @ ts_span_id s"

definition otlp_result :: "otlp_group list raw_doc \<Rightarrow> otlp_options \<Rightarrow> trace_span list \<Rightarrow> telemetry_result" where
  "otlp_result raw opt spans =
    (let foreign = filter (span_foreign ''axym.contract.id'' (oo_contract_id opt)) spans;
         stale = filter (span_stale (oo_now opt) (oo_max_age opt)) spans;
         out = initial_telemetry raw spans []
                 (if oo_contract_id opt = [] then ''identifier_only''
                  else if foreign = [] then ''reported_match'' else ''mismatched'')
     in out\<lparr>tr_freshness := (if stale = [] then tr_freshness out else ''stale''),
            tr_reasons := sort (tr_reasons out @ map (\<lambda>s. reason_out_of_scope) foreign @ map (\<lambda>s. reason_stale) stale)\<rparr>)"

definition ingest_otlp ::
  "(trace_span \<Rightarrow> string option) \<Rightarrow> otlp_group list raw_doc \<Rightarrow> otlp_options \<Rightarrow> (string, telemetry_result) result" where
  "ingest_otlp jcs raw opt =
     (if rd_size raw > (if oo_max_bytes opt = 0 then 10485760 else oo_max_bytes opt) then Inl reason_limit
      else case rd_doc raw of
        None \<Rightarrow> Inl reason_malformed
      | Some groups \<Rightarrow>
          if int (length groups) > limit (oo_max_groups opt) 100 then Inl reason_limit
          else bind_result (otlp_groups jcs opt groups (0, []))
                 (\<lambda>(n, spans).
                    if \<not> distinct (map span_key spans) then Inl reason_tampered
                    else Inr (otlp_result raw opt (go_sort span_before spans))))"

section \<open>The verdict on telemetry\<close>

definition span_sound :: "(trace_span \<Rightarrow> string option) \<Rightarrow> trace_span \<Rightarrow> bool" where
  "span_sound jcs s \<longleftrightarrow> span_shape_ok s \<and> span_digest jcs s = ts_digest s \<and> span_times_ok s"

lemma check_span_fields:
  fixes jcs now max_age cid s out
  defines "out' \<equiv> check_span jcs now max_age cid s out"
  shows "tr_integrity out' = (if span_sound jcs s then tr_integrity out else ''failed'')"
    and "tr_freshness out' = (if span_shape_ok s \<and> span_stale now max_age s then ''stale'' else tr_freshness out)"
    and "tr_correlation out' = (if span_shape_ok s \<and> span_foreign ''contract.id'' cid s then ''mismatched'' else tr_correlation out)"
    and "tr_enforcement out' = tr_enforcement out" and "tr_attestation out' = tr_attestation out"
    and "tr_spans out' = tr_spans out" and "tr_attestations out' = tr_attestations out"
    and "tr_source_digests out' = tr_source_digests out"
    and "set (tr_reasons out') = set (tr_reasons out) \<union>
      (if \<not> span_shape_ok s then {reason_malformed}
       else (if span_digest jcs s \<noteq> ts_digest s then {reason_tampered} else {}) \<union>
            (if \<not> span_times_ok s then {reason_malformed} else {}) \<union>
            (if span_stale now max_age s then {reason_stale} else {}) \<union>
            (if span_foreign ''contract.id'' cid s then {reason_out_of_scope} else {}))"
  unfolding out'_def span_sound_def check_span_def Let_def by simp_all

lemma fold_check_span:
  fixes jcs now max_age cid out
  defines "out' ss \<equiv> fold (check_span jcs now max_age cid) ss out"
  shows "tr_integrity (out' ss) = (if list_all (span_sound jcs) ss then tr_integrity out else ''failed'')"
    and "tr_freshness (out' ss) =
      (if list_ex (\<lambda>s. span_shape_ok s \<and> span_stale now max_age s) ss then ''stale'' else tr_freshness out)"
    and "tr_correlation (out' ss) =
      (if list_ex (\<lambda>s. span_shape_ok s \<and> span_foreign ''contract.id'' cid s) ss then ''mismatched'' else tr_correlation out)"
    and "tr_enforcement (out' ss) = tr_enforcement out" and "tr_attestation (out' ss) = tr_attestation out"
    and "tr_spans (out' ss) = tr_spans out"
  unfolding out'_def by (induction ss arbitrary: out) (auto simp: check_span_fields)

text \<open>
  The verdict on a telemetry document. Integrity is verified exactly when there are spans and
  each is well formed, carries its own digest and ends after it starts; it is fresh exactly when
  there are spans and no well-formed one is older than the bound; enforcement is advisory whatever
  the document says. The correlation with a contract that was asked for is \<open>reported_match\<close> unless a
  well-formed span lacks it, so a document without spans is reported as a match.
\<close>

theorem telemetry_verdict:
  assumes "ingest_telemetry jcs raw now max_age cid = Inr out"
  shows "tr_enforcement out = ''advisory_only'' \<and> int (length (tr_spans out)) \<le> max_telemetry_spans \<and>
    (tr_integrity out = ''verified'' \<longleftrightarrow> tr_spans out \<noteq> [] \<and> list_all (span_sound jcs) (tr_spans out)) \<and>
    (tr_freshness out = ''fresh'' \<longleftrightarrow> tr_spans out \<noteq> [] \<and>
       \<not> list_ex (\<lambda>s. span_shape_ok s \<and> span_stale now max_age s) (tr_spans out)) \<and>
    (tr_correlation out = ''reported_match'' \<longleftrightarrow> cid \<noteq> [] \<and>
       \<not> list_ex (\<lambda>s. span_shape_ok s \<and> span_foreign ''contract.id'' cid s) (tr_spans out))"
proof -
  obtain doc where "rd_doc raw = Some doc"
    using assms by (cases "rd_doc raw") (simp_all add: ingest_telemetry_def split: if_splits)
  then have doc: "int (length (td_spans doc)) \<le> max_telemetry_spans"
    and out: "out = sort_reasons (settle_correlation cid (fold (check_span jcs now max_age cid) (td_spans doc)
      (initial_telemetry raw (td_spans doc) (td_attestations doc) ''unverifiable'')))"
    using assms by (simp_all add: ingest_telemetry_def not_less split: if_splits)
  define o' where "o' = fold (check_span jcs now max_age cid) (td_spans doc)
      (initial_telemetry raw (td_spans doc) (td_attestations doc) ''unverifiable'')"
  note f = fold_check_span [of jcs now max_age cid "td_spans doc"
      "initial_telemetry raw (td_spans doc) (td_attestations doc) ''unverifiable''", folded o'_def]
  have spans: "tr_spans o' = td_spans doc" using f(6) by (simp add: initial_telemetry_def)
  have fields: "tr_spans out = td_spans doc" "tr_enforcement out = tr_enforcement o'"
    "tr_integrity out = tr_integrity o'" "tr_freshness out = tr_freshness o'"
    "tr_correlation out = (if cid \<noteq> [] \<and> tr_correlation o' = ''unverifiable'' then ''reported_match''
        else if cid = [] \<and> td_spans doc \<noteq> [] then ''identifier_only'' else tr_correlation o')"
    using spans by (simp_all add: out [folded o'_def] sort_reasons_def settle_correlation_def)
  show ?thesis
    unfolding fields f(1-5) using doc by (auto simp: initial_telemetry_def)
qed

definition demo_telemetry :: "telemetry_doc raw_doc" where
  "demo_telemetry = \<lparr>rd_size = 2, rd_digest = ''d'', rd_doc = Some \<lparr>td_spans = [], td_attestations = []\<rparr>\<rparr>"

definition demo_telemetry_result :: telemetry_result where
  "demo_telemetry_result =
     \<lparr>tr_spans = [], tr_attestations = [], tr_source_digests = [''d''], tr_reasons = [reason_missing],
      tr_integrity = ''absent'', tr_freshness = ''absent'', tr_attestation = ''absent'',
      tr_enforcement = ''advisory_only'', tr_correlation = ''reported_match''\<rparr>"

lemma demo_telemetry_value:
  "ingest_telemetry (\<lambda>s. None) demo_telemetry 0 0 ''contract-1'' = Inr demo_telemetry_result"
  by code_simp

theorem telemetry_verdict_witness:
  "tr_correlation demo_telemetry_result = ''reported_match'' \<and> tr_spans demo_telemetry_result = []"
  using telemetry_verdict [OF demo_telemetry_value] by (simp add: demo_telemetry_result_def)

section \<open>Limits of an OTLP export\<close>

lemma otlp_spans_Inr:
  "otlp_spans jcs mx res sc ms acc = Inr out \<Longrightarrow>
     length out = length acc + length ms \<and> (ms = [] \<or> int (length out) \<le> mx) \<and>
     (\<forall>s \<in> set out. s \<in> set acc \<or> (\<exists>m \<in> set ms. otlp_span jcs res sc m = Some s))"
  by (induction jcs mx res sc ms acc rule: otlp_spans.induct) (fastforce split: if_splits option.splits)+

definition from_export :: "(trace_span \<Rightarrow> string option) \<Rightarrow> trace_span \<Rightarrow> bool" where
  "from_export jcs s \<longleftrightarrow> (\<exists>res sc m. otlp_span jcs res sc m = Some s)"

lemma otlp_scopes_Inr:
  assumes "otlp_scopes jcs opt res gs (n, acc) = Inr (n', out)"
    and "int (length acc) \<le> limit (oo_max_spans opt) max_telemetry_spans" and "\<forall>s \<in> set acc. from_export jcs s"
    and "n \<le> limit (oo_max_scopes opt) 500"
  shows "n' = n + int (length gs) \<and> n' \<le> limit (oo_max_scopes opt) 500 \<and>
    int (length out) \<le> limit (oo_max_spans opt) max_telemetry_spans \<and> (\<forall>s \<in> set out. from_export jcs s) \<and>
    length out = length acc + sum_list (map (\<lambda>g. length (os_spans g)) gs)"
  using assms
proof (induction gs arbitrary: n acc)
  case (Cons g gs)
  then obtain acc' where acc': "n + 1 \<le> limit (oo_max_scopes opt) 500"
    "otlp_spans jcs (limit (oo_max_spans opt) max_telemetry_spans) res
       (string_value (mget (os_scope g) ''name'')) (os_spans g) acc = Inr acc'"
    "otlp_scopes jcs opt res gs (n + 1, acc') = Inr (n', out)"
    by (auto simp: bind_result_Inr_iff split: if_splits)
  note spans = otlp_spans_Inr [OF acc'(2)]
  have "int (length acc') \<le> limit (oo_max_spans opt) max_telemetry_spans"
    using spans Cons.prems(2) by auto
  moreover have "\<forall>s \<in> set acc'. from_export jcs s"
    using spans Cons.prems(3) unfolding from_export_def by blast
  ultimately show ?case using Cons.IH [OF acc'(3)] acc'(1) spans by simp
qed simp

lemma otlp_groups_Inr:
  assumes "otlp_groups jcs opt gs (n, acc) = Inr (n', out)"
    and "int (length acc) \<le> limit (oo_max_spans opt) max_telemetry_spans" and "\<forall>s \<in> set acc. from_export jcs s"
    and "n \<le> limit (oo_max_scopes opt) 500"
  shows "n' = n + int (length (concat (map og_scopes gs))) \<and> n' \<le> limit (oo_max_scopes opt) 500 \<and>
    int (length out) \<le> limit (oo_max_spans opt) max_telemetry_spans \<and> (\<forall>s \<in> set out. from_export jcs s) \<and>
    length out = length acc + sum_list (map (\<lambda>g. length (os_spans g)) (concat (map og_scopes gs)))"
  using assms
proof (induction gs arbitrary: n acc)
  case (Cons g gs)
  then obtain n1 acc1 where 1: "otlp_scopes jcs opt (attrs_of_maps (og_attributes g)) (og_scopes g) (n, acc) = Inr (n1, acc1)"
    "otlp_groups jcs opt gs (n1, acc1) = Inr (n', out)"
    by (auto simp: bind_result_Inr_iff)
  note s = otlp_scopes_Inr [OF 1(1) Cons.prems(2-4)]
  with Cons.IH [OF 1(2)] show ?case by auto
qed simp

lemma span_before_key: "span_before a b \<longleftrightarrow> (ts_trace_id a, ts_span_id a) < (ts_trace_id b, ts_span_id b)"
  by (auto simp: span_before_def)

lemma otlp_span_facts:
  assumes "otlp_span jcs res sc m = Some s"
  shows "trace_id_ok (ts_trace_id s)" and "span_id_ok (ts_span_id s)" and "span_digest jcs s = ts_digest s"
    and "\<exists>st et. ts_start s = format_rfc3339_nano st \<and> ts_end s = format_rfc3339_nano et \<and> st \<le> et"
proof -
  obtain st et where "\<not> et < st" "trace_id_ok (to_lower (string_value (mget m ''traceId'')))"
    "span_id_ok (to_lower (string_value (mget m ''spanId'')))"
    and s: "s = (let s = \<lparr>ts_trace_id = to_lower (string_value (mget m ''traceId'')),
        ts_span_id = to_lower (string_value (mget m ''spanId'')),
        ts_parent = to_lower (string_value (mget m ''parentSpanId'')),
        ts_name = string_value (mget m ''name''), ts_start = format_rfc3339_nano st,
        ts_end = format_rfc3339_nano et, ts_attributes = merge_attrs res (attrs_map (mget m ''attributes'')),
        ts_source = sc, ts_digest = []\<rparr> in s\<lparr>ts_digest := span_digest jcs s\<rparr>)"
    using assms unfolding otlp_span_def Let_def by (auto split: if_splits option.splits)
  then show "trace_id_ok (ts_trace_id s)" and "span_id_ok (ts_span_id s)" and "span_digest jcs s = ts_digest s"
    and "\<exists>st et. ts_start s = format_rfc3339_nano st \<and> ts_end s = format_rfc3339_nano et \<and> st \<le> et"
    by (auto simp: Let_def span_digest_def not_less)
qed

definition span_faithful :: "(trace_span \<Rightarrow> string option) \<Rightarrow> trace_span \<Rightarrow> bool" where
  "span_faithful jcs s \<longleftrightarrow> trace_id_ok (ts_trace_id s) \<and> span_id_ok (ts_span_id s) \<and>
     span_digest jcs s = ts_digest s \<and>
     (\<exists>st et. ts_start s = format_rfc3339_nano st \<and> ts_end s = format_rfc3339_nano et \<and> st \<le> et)"

lemma from_export_faithful: "from_export jcs s \<Longrightarrow> span_faithful jcs s"
  unfolding from_export_def span_faithful_def by (elim exE) (intro conjI otlp_span_facts)

lemma otlp_result_spans [simp]: "tr_spans (otlp_result raw opt ss) = ss"
  by (simp add: otlp_result_def initial_telemetry_def Let_def)

text \<open>
  An accepted OTLP export is within every limit, each of its spans is returned exactly once,
  spans are strictly ordered by trace and span id (so no two share both), and each is well formed
  and carries its own digest.
\<close>

theorem otlp_within_limits:
  assumes "ingest_otlp jcs raw opt = Inr out" and "rd_doc raw = Some groups"
  shows "int (length groups) \<le> limit (oo_max_groups opt) 100 \<and>
    int (length (concat (map og_scopes groups))) \<le> limit (oo_max_scopes opt) 500 \<and>
    int (length (tr_spans out)) \<le> limit (oo_max_spans opt) max_telemetry_spans \<and>
    length (tr_spans out) = (\<Sum>g \<leftarrow> concat (map og_scopes groups). length (os_spans g)) \<and>
    sorted (map (\<lambda>s. (ts_trace_id s, ts_span_id s)) (tr_spans out)) \<and>
    distinct (map span_key (tr_spans out)) \<and> list_all (span_faithful jcs) (tr_spans out)"
proof -
  obtain n ss where run: "otlp_groups jcs opt groups (0, []) = Inr (n, ss)" and d: "distinct (map span_key ss)"
    and out: "out = otlp_result raw opt (go_sort span_before ss)"
    and g: "int (length groups) \<le> limit (oo_max_groups opt) 100"
    using assms by (auto simp: ingest_otlp_def bind_result_Inr_iff split: if_splits)
  have "0 \<le> limit (oo_max_spans opt) max_telemetry_spans" "0 \<le> limit (oo_max_scopes opt) 500"
    by (simp_all add: limit_def max_telemetry_spans_def)
  with otlp_groups_Inr [OF run] have f: "n = int (length (concat (map og_scopes groups)))"
    "n \<le> limit (oo_max_scopes opt) 500" "int (length ss) \<le> limit (oo_max_spans opt) max_telemetry_spans"
    "\<forall>s \<in> set ss. from_export jcs s" "length ss = (\<Sum>g \<leftarrow> concat (map og_scopes groups). length (os_spans g))"
    by simp_all
  have "go_sort span_before ss = sort_key (\<lambda>s. (ts_trace_id s, ts_span_id s)) ss"
    by (rule go_sort_key) (rule span_before_key)
  moreover have "distinct (map span_key (go_sort span_before ss))"
    using d by (simp add: distinct_map)
  ultimately show ?thesis
    using g f from_export_faithful by (auto simp: out list_all_iff)
qed

definition demo_span_source :: gmap where
  "demo_span_source = Some
     [(''traceId'', VStr ''0123456789ABCDEF0123456789abcdef''), (''spanId'', VStr ''0123456789abcdef''),
      (''startTimeUnixNano'', VStr ''0''), (''endTimeUnixNano'', VStr ''18446744073709551616'')]"

definition demo_otlp :: "otlp_group list raw_doc" where
  "demo_otlp = \<lparr>rd_size = 100, rd_digest = ''d'', rd_doc = Some
     [\<lparr>og_attributes = [], og_scopes = [\<lparr>os_scope = None, os_spans = [demo_span_source]\<rparr>]\<rparr>]\<rparr>"

definition demo_otlp_options :: otlp_options where
  "demo_otlp_options = \<lparr>oo_max_bytes = 0, oo_max_groups = 0, oo_max_scopes = 0, oo_max_spans = 0, oo_now = 0,
     oo_max_age = 0, oo_contract_id = []\<rparr>"

definition demo_otlp_span :: trace_span where
  "demo_otlp_span = \<lparr>ts_trace_id = ''0123456789abcdef0123456789abcdef'', ts_span_id = ''0123456789abcdef'',
     ts_parent = [], ts_name = [], ts_start = ''1970-01-01T00:00:00Z'', ts_end = ''1970-01-01T00:00:00Z'',
     ts_attributes = [], ts_source = [], ts_digest = ''sha256:'' @ replicate 64 CHR ''0''\<rparr>"

lemma demo_otlp_value:
  "ingest_otlp demo_jcs demo_otlp demo_otlp_options =
     Inr (otlp_result demo_otlp demo_otlp_options [demo_otlp_span])"
  by code_simp

theorem otlp_within_limits_witness:
  "tr_spans (otlp_result demo_otlp demo_otlp_options [demo_otlp_span]) = [demo_otlp_span] \<and>
   span_digest demo_jcs demo_otlp_span = ts_digest demo_otlp_span"
  using otlp_within_limits [OF demo_otlp_value, unfolded demo_otlp_def raw_doc.simps, OF refl]
  by (simp add: span_faithful_def)

section \<open>Unix nanoseconds\<close>

lemma foldl_nanos: "foldl nanos_step 0 s = word_of_int (digits_value s)"
proof (induction s rule: rev_induct)
  case (snoc c s)
  then show ?case by (simp add: nanos_step_def digits_value_append_one algebra_simps)
qed (simp add: digits_value_def)

lemma digit_value_nonneg: "is_digit c \<Longrightarrow> 0 \<le> digit_value c"
proof -
  assume "is_digit c"
  moreover have "int (of_char c) = (of_char c :: int)" by (rule of_nat_of_char)
  ultimately show ?thesis unfolding is_digit_def digit_value_def by linarith
qed

lemma digits_value_nonneg: "list_all is_digit s \<Longrightarrow> 0 \<le> digits_value s"
  by (induction s rule: rev_induct) (simp_all add: digits_value_append_one digit_value_nonneg, simp add: digits_value_def)

lemma otlp_nanos_value:
  assumes "list_all is_digit s"
  shows "otlp_nanos s = (if digits_value s < 2 ^ 63 then digits_value s
           else (digits_value s + 2 ^ 63) mod 2 ^ 64 - 2 ^ 63)"
  using digits_value_nonneg [OF assms]
  by (simp add: otlp_nanos_def foldl_nanos sint_sbintrunc' signed_take_bit_eq_take_bit_shift take_bit_eq_mod)

text \<open>
  a string of digits is read as a Unix time modulo two to the power of 64, as a signed number:
  up to \<open>2 ^ 63 - 1\<close> it is the nanoseconds since 1970, and beyond that it is an unrelated instant,
  without an error.
\<close>

theorem otlp_time_wraps:
  "otlp_time (Some (VStr s)) =
     (if s \<noteq> [] \<and> list_all is_digit s then
        Some (unix_epoch + (if digits_value s < 2 ^ 63 then digits_value s
                            else (digits_value s + 2 ^ 63) mod 2 ^ 64 - 2 ^ 63))
      else None)"
  by (auto simp: otlp_time_def string_value_def otlp_nanos_value)

section \<open>Signed advisory documents verify\<close>

text \<open>
  Boundary attestations and judge verdicts are sealed alike: digest and signature are cleared,
  computed and stored. The laws are those of the two record types; what the signer returns is then
  accepted up to the guards on the content.
\<close>

locale advisory_document =
  fixes unseal :: "'d \<Rightarrow> 'd"
    and seal :: "string \<Rightarrow> signature \<Rightarrow> 'd \<Rightarrow> 'd"
    and digest_of :: "'d \<Rightarrow> string"
    and signature_of :: "'d \<Rightarrow> signature"
  assumes unseal_seal: "unseal (seal d s x) = unseal x"
    and unseal_unseal: "unseal (unseal x) = unseal x"
    and digest_seal: "digest_of (seal d s x) = d"
    and signature_seal: "signature_of (seal d s x) = s"
begin

definition authentic ::
  "('d \<Rightarrow> string option) \<Rightarrow> ('pub \<Rightarrow> string) \<Rightarrow> ('pub \<Rightarrow> signature \<Rightarrow> bool option) \<Rightarrow> 'pub \<Rightarrow> 'd \<Rightarrow> bool" where
  "authentic jcs key_id verify pub x \<longleftrightarrow>
     digest_ok (digest_of x) \<and> str_or_empty (gov_digest jcs (unseal x)) = digest_of x \<and>
     sg_signed_digest (signature_of x) = trim_prefix (digest_of x) ''sha256:'' \<and>
     sg_key_id (signature_of x) = key_id pub \<and> verify pub (signature_of x) = Some True"

definition sealed ::
  "('d \<Rightarrow> string option) \<Rightarrow> ('priv \<Rightarrow> string \<Rightarrow> signature option) \<Rightarrow> 'priv \<Rightarrow> 'd \<Rightarrow> 'd option" where
  "sealed jcs sign priv x =
     (case gov_digest jcs (unseal x) of
        None \<Rightarrow> None
      | Some d \<Rightarrow> map_option (\<lambda>s. seal d s (unseal x)) (sign priv (trim_prefix d ''sha256:'')))"

lemma sealed_authentic:
  assumes "hex_digests jcs" and "signing_laws public key_id sign verify" and "sealed jcs sign priv x = Some y"
  shows "authentic jcs key_id verify (public priv) y" and "unseal y = unseal x"
  using assms gov_digest_ok [OF assms(1)]
  by (auto simp: sealed_def authentic_def unseal_seal unseal_unseal digest_seal signature_seal signing_laws_def
      split: option.splits)

lemma authentic_binds:
  assumes "authentic jcs key_id verify pub x" and "authentic jcs key_id verify pub' y"
    and "signature_of x = signature_of y"
  shows "jcs (unseal x) = jcs (unseal y)"
proof -
  have "gov_digest jcs (unseal z) = Some (digest_of z)"
    if "authentic jcs key_id verify p z" for p z
    using that by (cases "gov_digest jcs (unseal z)") (auto simp: authentic_def digest_ok_def)
  then show ?thesis using assms unfolding authentic_def gov_digest_Some by (metis trim_sha256)
qed

end

definition seal_judge :: "string \<Rightarrow> signature \<Rightarrow> judge_evidence \<Rightarrow> judge_evidence" where
  "seal_judge d s j = j\<lparr>je_digest := d, je_signature := s\<rparr>"

definition seal_boundary :: "string \<Rightarrow> signature \<Rightarrow> boundary_attestation \<Rightarrow> boundary_attestation" where
  "seal_boundary d s a = a\<lparr>ba_digest := d, ba_signature := s\<rparr>"

interpretation judge_doc: advisory_document unsealed_judge seal_judge je_digest je_signature
  by unfold_locales (simp_all add: unsealed_judge_def seal_judge_def)

interpretation boundary_doc: advisory_document unsealed_boundary seal_boundary ba_digest ba_signature
  by unfold_locales (simp_all add: unsealed_boundary_def seal_boundary_def)

lemma sign_judge_sealed: "sign_judge jcs sign priv j = judge_doc.sealed jcs sign priv j"
  by (simp add: sign_judge_def judge_doc.sealed_def seal_judge_def Let_def split: option.splits)

lemma sign_boundary_sealed: "sign_boundary jcs sign priv a = boundary_doc.sealed jcs sign priv a"
  by (simp add: sign_boundary_def boundary_doc.sealed_def seal_boundary_def Let_def split: option.splits)

definition judge_content_ok :: "judge_evidence \<Rightarrow> instant \<Rightarrow> string \<Rightarrow> bool" where
  "judge_content_ok j now cid \<longleftrightarrow>
     je_schema_id j \<noteq> [] \<and> je_schema_version j \<noteq> [] \<and> je_provider_version j \<noteq> [] \<and> je_advisory j \<and>
     \<not> je_execution_authority j \<and> valid_ref (je_contract_ref j) \<and>
     (if cid = [] then True else ref_id (je_contract_ref j) = cid) \<and>
     (case parse_rfc3339 (je_fresh_until j) of None \<Rightarrow> False | Some t \<Rightarrow> now \<le> t)"

definition boundary_content_ok :: "boundary_attestation \<Rightarrow> instant \<Rightarrow> string \<Rightarrow> bool" where
  "boundary_content_ok a now cid \<longleftrightarrow>
     ba_schema_id a \<noteq> [] \<and> ba_schema_version a \<noteq> [] \<and> ba_advisory a \<and> \<not> ba_execution_authority a \<and>
     valid_ref (ba_contract_ref a) \<and> (if cid = [] then True else ref_id (ba_contract_ref a) = cid) \<and>
     (case parse_rfc3339 (ba_fresh_until a) of None \<Rightarrow> False | Some t \<Rightarrow> now \<le> t)"

lemma verify_judge_iff:
  "verify_judge jcs key_id verify j pub now cid = None \<longleftrightarrow>
     judge_content_ok j now cid \<and> judge_doc.authentic jcs key_id verify pub j"
  unfolding verify_judge_def judge_content_ok_def judge_doc.authentic_def
  by (auto split: option.splits)

lemma verify_boundary_iff:
  "verify_boundary jcs key_id verify a pub now cid = None \<longleftrightarrow>
     boundary_content_ok a now cid \<and> boundary_doc.authentic jcs key_id verify pub a"
  unfolding verify_boundary_def boundary_content_ok_def boundary_doc.authentic_def
  by (auto split: option.splits)

lemma judge_content_unsealed: "judge_content_ok (unsealed_judge j) now cid = judge_content_ok j now cid"
  by (simp add: judge_content_ok_def unsealed_judge_def)

lemma boundary_content_unsealed: "boundary_content_ok (unsealed_boundary a) now cid = boundary_content_ok a now cid"
  by (simp add: boundary_content_ok_def unsealed_boundary_def)

text \<open>
  What \<open>SignJudge\<close> and \<open>SignBoundary\<close> return verifies under the signer's key exactly when its
  content is admissible: it declares itself advisory and without execution authority, names its
  contract, and has not expired. Signing gives no document more standing than that.
\<close>

theorem signed_advice_verifies:
  assumes "hex_digests jcs" and "hex_digests jcs'" and "signing_laws public key_id sign verify"
    and "sign_judge jcs sign priv j = Some j'" and "sign_boundary jcs' sign priv a = Some a'"
  shows "(verify_judge jcs key_id verify j' (public priv) now cid = None \<longleftrightarrow> judge_content_ok j now cid) \<and>
    (verify_boundary jcs' key_id verify a' (public priv) now cid = None \<longleftrightarrow> boundary_content_ok a now cid)"
proof -
  note j = judge_doc.sealed_authentic [OF assms(1,3) assms(4) [unfolded sign_judge_sealed]]
  note a = boundary_doc.sealed_authentic [OF assms(2,3) assms(5) [unfolded sign_boundary_sealed]]
  have "judge_content_ok j' now cid = judge_content_ok j now cid" using j(2) by (metis judge_content_unsealed)
  moreover have "boundary_content_ok a' now cid = boundary_content_ok a now cid"
    using a(2) by (metis boundary_content_unsealed)
  ultimately show ?thesis using j(1) a(1) by (simp add: verify_judge_iff verify_boundary_iff)
qed

definition demo_judge :: judge_evidence where
  "demo_judge = \<lparr>je_schema_id = ''s'', je_schema_version = ''v1'', je_id = ''j1'', je_contract_ref = demo_full_ref ''c1'' ''k'' CHR ''0'',
     je_verdict = ''allow'', je_observed_at = ''2026-01-01T00:00:00Z'', je_fresh_until = ''2026-02-01T00:00:00Z'',
     je_explanation = [], je_source = ''judge'', je_digest = [], je_provider_version = ''1'',
     je_signature = no_signature, je_advisory = True, je_execution_authority = False\<rparr>"

definition demo_boundary :: boundary_attestation where
  "demo_boundary = \<lparr>ba_schema_id = ''s'', ba_schema_version = ''v1'', ba_id = ''b1'', ba_boundary = ''net'',
     ba_contract_ref = demo_full_ref ''c1'' ''k'' CHR ''0'', ba_observed_at = ''2026-01-01T00:00:00Z'', ba_fresh_until = ''2026-02-01T00:00:00Z'',
     ba_scope = [], ba_source = ''probe'', ba_digest = [], ba_signature = no_signature, ba_advisory = True,
     ba_execution_authority = True\<rparr>"

lemma demo_advice_signed:
  "sign_judge demo_jcs demo_sign () demo_judge = Some (the (sign_judge demo_jcs demo_sign () demo_judge))"
  "sign_boundary demo_jcs demo_sign () demo_boundary = Some (the (sign_boundary demo_jcs demo_sign () demo_boundary))"
  by (code_simp, code_simp)

theorem signed_advice_verifies_witness:
  "verify_judge demo_jcs demo_key_id demo_verify (the (sign_judge demo_jcs demo_sign () demo_judge)) () 0 ''c1'' = None \<and>
   verify_boundary demo_jcs demo_key_id demo_verify
     (the (sign_boundary demo_jcs demo_sign () demo_boundary)) () 0 ''c1'' \<noteq> None"
proof -
  have "judge_content_ok demo_judge 0 ''c1''" "\<not> boundary_content_ok demo_boundary 0 ''c1''"
    by (code_simp, code_simp)
  then show ?thesis
    using signed_advice_verifies [OF demo_hex demo_hex demo_signing demo_advice_signed, of 0 "''c1''"] by simp
qed

end
