(* ===== verification/GaitPack.thy ===== *)
theory GaitPack
  imports GoValue
begin

text \<open>
  \<open>core/ingest/gait/evidence\<close>: the consumer boundary for Gait's lifecycle evidence packs. Every
  record of a pack is checked on its own (schema, typed evidence, times, producer signature, record
  signature), against the caller's expected lineage, and against a state machine over the whole
  pack. Canonical digests, key ids and signature checks of the Proof library are the record
  \<open>gait_lib\<close>; a public key is its 32 bytes.
\<close>

section \<open>Evidence\<close>

record eref =
  er_digest :: string
  er_id :: string
  er_kind :: string
  er_schema_id :: string
  er_schema_version :: string
  er_product :: string

record correlation =
  co_profile :: string
  co_contract :: "eref option"
  co_event :: "eref option"
  co_causal :: "eref option"
  co_content_digest :: string
  co_mode :: string

record evidence_binding =
  eb_family :: string
  eb_revision :: int
  eb_contract :: eref
  eb_activation :: eref
  eb_runtime :: eref
  eb_readiness :: eref
  eb_decision :: eref
  eb_policy :: eref
  eb_target :: eref
  eb_environment :: eref
  eb_proofs :: "eref list"
  eb_causals :: "eref list"
  eb_correlation :: correlation

record provenance =
  pv_producer :: string
  pv_writer :: string
  pv_verifier :: string
  pv_public_key :: string
  pv_signature :: signature

record typed_evidence =
  \<comment> \<open>the fields the four kinds of evidence share\<close>
  te_schema_id :: string
  te_schema_version :: string
  te_id :: string
  te_binding :: evidence_binding
  te_event :: eref
  te_occurred_at :: string
  te_fresh_until :: string
  te_outcome :: string
  te_reason :: string
  te_provenance :: provenance
  te_digest :: string

record execution_evidence = typed_evidence +
  xe_compensation_required :: bool

record effect_event = typed_evidence +
  fe_execution :: eref
  fe_effect :: eref

record containment_evidence = typed_evidence +
  ce_execution :: eref
  ce_effect :: eref
  ce_containment :: eref

record compensation_evidence = typed_evidence +
  me_requirement :: eref
  me_execution :: eref

record gait_record =
  \<comment> \<open>a \<open>None\<close> field is a nil pointer; raw JSON is its text, empty when absent\<close>
  gr_schema_id :: string
  gr_schema_version :: string
  gr_id :: string
  gr_kind :: string
  gr_occurred_at :: string
  gr_contract :: eref
  gr_family :: string
  gr_revision :: int
  gr_proposal :: "eref option"
  gr_activation :: "eref option"
  gr_preconditions :: "eref list"
  gr_decision :: string
  gr_evidence_refs :: "eref list"
  gr_execution :: "execution_evidence option"
  gr_effect :: "effect_event option"
  gr_containment :: "containment_evidence option"
  gr_compensation :: "compensation_evidence option"
  gr_reasons :: "string list"
  gr_correlation :: correlation
  gr_immutable :: string
  gr_signature :: signature

record gait_pack =
  gp_records :: "gait_record list"
  gp_source_digest :: string

record verification_options =
  vo_key :: string
  vo_time :: instant
  vo_allow_fixture :: bool
  vo_contract :: eref
  vo_family :: string
  vo_revision :: int
  vo_activation :: eref
  vo_runtime_digest :: string
  vo_readiness_digest :: string
  vo_policy_digest :: string
  vo_target :: string
  vo_environment :: string
  vo_producer_version :: string
  vo_source_commit :: string
  vo_lifecycle_digest :: string
  vo_not_before :: instant
  vo_not_after :: instant

record snapshot =
  sn_execution :: string
  sn_effect :: string
  sn_containment :: string
  sn_compensation :: string

record gait_evidence_set =
  es_id :: string
  es_product :: string
  es_producer_version :: string
  es_source_commit :: string
  es_execution :: string
  es_effect :: string
  es_containment :: string
  es_compensation :: string
  es_verified :: bool
  es_authoritative :: bool
  es_fixture_only :: bool
  es_state :: string
  es_source_digests :: "string list"
  es_derived_digests :: "string list"
  es_reasons :: "string list"

record verification_result =
  vr_valid :: bool
  vr_authoritative :: bool
  vr_fixture_only :: bool
  vr_reasons :: "string list"
  vr_snapshot :: snapshot
  vr_set :: gait_evidence_set

record gait_lib =
  gl_execution_digest :: "execution_evidence \<Rightarrow> string option"
  gl_effect_digest :: "effect_event \<Rightarrow> string option"
  gl_containment_digest :: "containment_evidence \<Rightarrow> string option"
  gl_compensation_digest :: "compensation_evidence \<Rightarrow> string option"
  gl_record_digest :: "gait_record \<Rightarrow> string option"
  gl_decision_digest :: "string \<Rightarrow> string option"
  gl_pack_digest :: "gait_record list \<Rightarrow> string option"
  gl_key_id :: "string \<Rightarrow> string"
  gl_verify :: "string \<Rightarrow> signature \<Rightarrow> bool option"

section \<open>Constants\<close>

definition lifecycle_schema :: string where
  "lifecycle_schema = ''https://gait.dev/schemas/v1/runtime-lifecycle-record.schema.json''"

definition contract_schema :: string where
  "contract_schema = ''https://wrkr.dev/schemas/v1/proposed-action-contract-v3.schema.json''"

definition activation_schema :: string where
  "activation_schema = ''https://gait.dev/schemas/v1/activated-action-contract-artifact.schema.json''"

definition runtime_schema :: string where
  "runtime_schema = ''https://gait.dev/schemas/v1/runtime-action.schema.json''"

definition readiness_schema :: string where
  "readiness_schema = ''https://gait.dev/schemas/v1/runtime-readiness.schema.json''"

definition execution_schema :: string where
  "execution_schema = ''https://gait.dev/schemas/v1/action-contract/execution-evidence.schema.json''"

definition effect_schema :: string where
  "effect_schema = ''https://gait.dev/schemas/v1/action-contract/effect-event.schema.json''"

definition containment_schema :: string where
  "containment_schema = ''https://gait.dev/schemas/v1/action-contract/containment-evidence.schema.json''"

definition compensation_schema :: string where
  "compensation_schema = ''https://gait.dev/schemas/v1/action-contract/compensation-evidence.schema.json''"

definition fixture_tag :: string where "fixture_tag = ''v1.5.0''"

definition fixture_commit :: string where
  "fixture_commit = ''10f8b91b316c30c2202a580847dfdd3509bff458''"

definition fixture_key_id :: string where
  "fixture_key_id = ''42571c8843a10df565fd17a97a236c3552e8e4b7ff2a0b48bf524409279771d9''"

definition released_fixture_digests :: "string list" where
  "released_fixture_digests =
    [''sha256:087367b4a021b6c80fb3894bdec3df4ec07be6fb33c47bed9bd8ded4f17f699b'',
     ''sha256:4119d59c5680b02c72566d75d64db29d10bf7611584043fb69b1905dc1fcd02a'',
     ''sha256:9a6a4f917a0a8bc1d91e676d4b757ce7c3184720b9593f9214124c9fdb7339ef'',
     ''sha256:9e5a7f3670a56fd9e8a8d3434b575a9de3ea0a190f9f9b0efc6bf603b166931f'',
     ''sha256:ae405e39982570f419251e05d095fd06bc9cb22fc2eacfcce7513da36a0170ab'',
     ''sha256:c377ea478ee3bd97893079f598668c92b9c25fc2999652f4548e25c0360668ab'',
     ''sha256:f5bb0a80abd5d1f4cda07c3768f8c4a7b2cd2dd81803f948606908af1c02862e'',
     ''sha256:fcb0085b5af73b8a42aa09c25c09f6510d4eb39b8c06a0eb4e16bcbded4fffa2'']"

definition gait_schema_unsupported :: string where "gait_schema_unsupported = ''gait_schema_unsupported''"
definition gait_malformed :: string where "gait_malformed = ''gait_malformed''"
definition gait_digest_mismatch :: string where "gait_digest_mismatch = ''gait_digest_mismatch''"
definition gait_signature_invalid :: string where "gait_signature_invalid = ''gait_signature_invalid''"
definition gait_trusted_key_required :: string where "gait_trusted_key_required = ''gait_trusted_key_required''"
definition gait_public_key_mismatch :: string where "gait_public_key_mismatch = ''gait_public_key_mismatch''"
definition gait_producer_invalid :: string where "gait_producer_invalid = ''gait_producer_invalid''"
definition gait_fixture_only :: string where "gait_fixture_only = ''gait_fixture_non_authoritative''"
definition gait_lineage_missing :: string where "gait_lineage_missing = ''gait_lineage_missing''"
definition gait_lineage_mismatch :: string where "gait_lineage_mismatch = ''gait_lineage_mismatch''"
definition gait_correlation_invalid :: string where "gait_correlation_invalid = ''gait_correlation_invalid''"
definition gait_evidence_missing :: string where "gait_evidence_missing = ''gait_evidence_missing''"
definition gait_evidence_order :: string where "gait_evidence_order = ''gait_evidence_order_invalid''"
definition gait_replay :: string where "gait_replay = ''gait_replay''"
definition gait_time_window :: string where "gait_time_window = ''gait_time_window_invalid''"
definition gait_outcome_invalid :: string where "gait_outcome_invalid = ''gait_outcome_invalid''"
definition gait_activation_expired :: string where "gait_activation_expired = ''gait_activation_expired''"
definition gait_activation_early :: string where "gait_activation_early = ''gait_activation_not_yet_valid''"
definition gait_readiness_invalid :: string where "gait_readiness_invalid = ''gait_readiness_invalid''"
definition gait_runtime_invalid :: string where "gait_runtime_invalid = ''gait_runtime_invalid''"
definition gait_source_invalid :: string where "gait_source_invalid = ''gait_source_provenance_invalid''"

section \<open>References and bindings\<close>

definition is_hex_any :: "char \<Rightarrow> bool" where
  \<comment> \<open>the digits \<open>hex.DecodeString\<close> accepts\<close>
  "is_hex_any c \<longleftrightarrow> is_hex c \<or> 65 \<le> (of_char c :: nat) \<and> (of_char c :: nat) \<le> 70"

definition gait_digest_ok :: "string \<Rightarrow> bool" where
  "gait_digest_ok v =
     (let h = trim_prefix (trim_space v) ''sha256:'' in length h = 64 \<and> list_all is_hex_any h)"

definition commit_ok :: "string \<Rightarrow> bool" where
  "commit_ok v = (let h = trim_space v in length h = 40 \<and> list_all is_hex_any h)"

definition eref_ok :: "eref \<Rightarrow> bool" where
  "eref_ok r \<longleftrightarrow> er_kind r \<noteq> [] \<and> er_id r \<noteq> [] \<and> gait_digest_ok (er_digest r) \<and> er_schema_id r \<noteq> [] \<and>
     er_schema_version r \<noteq> [] \<and> er_product r \<noteq> []"

definition eref_is :: "eref \<Rightarrow> string \<Rightarrow> string \<Rightarrow> string \<Rightarrow> bool" where
  \<comment> \<open>\<open>validRefKind\<close>\<close>
  "eref_is r kind schema version \<longleftrightarrow>
     eref_ok r \<and> er_kind r = kind \<and> er_schema_id r = schema \<and> er_schema_version r = version"

definition same_ref :: "eref \<Rightarrow> eref \<Rightarrow> bool" where
  "same_ref a b \<longleftrightarrow> er_kind a = er_kind b \<and> er_id a = er_id b \<and> er_digest a = er_digest b \<and>
     er_schema_id a = er_schema_id b \<and> er_schema_version a = er_schema_version b \<and> er_product a = er_product b"

definition evidence_eref :: "string \<Rightarrow> string \<Rightarrow> string \<Rightarrow> string \<Rightarrow> eref" where
  "evidence_eref kind i digest schema =
     \<lparr>er_digest = digest, er_id = i, er_kind = kind, er_schema_id = schema, er_schema_version = ''1'',
      er_product = ''gait''\<rparr>"

definition has_causal :: "evidence_binding \<Rightarrow> eref \<Rightarrow> bool" where
  "has_causal b want = list_ex (\<lambda>r. same_ref r want) (eb_causals b)"

definition same_binding :: "evidence_binding \<Rightarrow> evidence_binding \<Rightarrow> bool" where
  \<comment> \<open>equal JSON once the causal references are left out\<close>
  "same_binding a b \<longleftrightarrow> a\<lparr>eb_causals := []\<rparr> = b\<lparr>eb_causals := []\<rparr>"

definition correlation_ok :: "correlation \<Rightarrow> eref \<Rightarrow> bool" where
  "correlation_ok c contract \<longleftrightarrow>
     co_mode c = ''digest_bound'' \<and> co_profile c = ''1.0'' \<and>
     (case co_contract c of None \<Rightarrow> False | Some r \<Rightarrow> same_ref r contract) \<and> co_content_digest c = er_digest contract"

definition validate_binding :: "evidence_binding \<Rightarrow> string option" where
  "validate_binding b =
     (if eb_family b = [] \<or> eb_revision b < 1 \<or> eb_proofs b = [] \<or> eb_causals b = [] then Some gait_lineage_missing
      else if list_ex (\<lambda>r. \<not> eref_ok r) [eb_contract b, eb_activation b, eb_runtime b, eb_readiness b, eb_decision b,
          eb_policy b, eb_target b, eb_environment b] then Some gait_lineage_missing
      else if \<not> eref_is (eb_contract b) ''action_contract'' contract_schema ''3'' \<or> er_product (eb_contract b) \<noteq> ''wrkr''
      then Some gait_lineage_mismatch
      else if \<not> eref_is (eb_activation b) ''activated_action_contract'' activation_schema ''1'' \<or>
        er_product (eb_activation b) \<noteq> ''gait'' then Some gait_lineage_mismatch
      else if \<not> eref_is (eb_runtime b) ''runtime_action'' runtime_schema ''1'' \<or> er_product (eb_runtime b) \<noteq> ''gait'' \<or>
        \<not> eref_is (eb_readiness b) ''readiness'' readiness_schema ''1'' \<or> er_product (eb_readiness b) \<noteq> ''gait'' \<or>
        \<not> eref_is (eb_decision b) ''decision'' readiness_schema ''1'' \<or> er_product (eb_decision b) \<noteq> ''gait'' \<or>
        er_kind (eb_policy b) \<noteq> ''policy'' \<or> er_kind (eb_target b) \<noteq> ''target'' \<or>
        er_kind (eb_environment b) \<noteq> ''environment'' then Some gait_lineage_mismatch
      else if \<not> correlation_ok (eb_correlation b) (eb_contract b) then Some gait_correlation_invalid
      else if list_ex (\<lambda>r. \<not> eref_ok r) (eb_proofs b @ eb_causals b) then Some gait_lineage_missing
      else None)"

section \<open>One record\<close>

definition blank_signature :: signature where
  "blank_signature = \<lparr>sg_alg = [], sg_key_id = [], sg_signed_digest = [], sg_value = []\<rparr>"

definition strip_evidence :: "'a typed_evidence_scheme \<Rightarrow> 'a typed_evidence_scheme" where
  \<comment> \<open>what the canonical digest is taken of\<close>
  "strip_evidence x = x\<lparr>te_id := [], te_digest := [], te_provenance := (te_provenance x)\<lparr>pv_signature := blank_signature\<rparr>\<rparr>"

definition prefixed :: "string option \<Rightarrow> string option" where
  "prefixed d = map_option (\<lambda>d. ''sha256:'' @ trim_prefix d ''sha256:'') d"

definition parse_time :: "string \<Rightarrow> instant option" where
  "parse_time s = parse_rfc3339 (trim_space s)"

definition validate_common ::
  "string \<Rightarrow> ('a typed_evidence_scheme \<Rightarrow> string option) \<Rightarrow> 'a typed_evidence_scheme \<Rightarrow> string option" where
  "validate_common pre digest x =
    (if te_reason x = [] \<or> te_id x = [] \<or> \<not> has_prefix (te_id x) pre \<or> \<not> eref_ok (te_event x) then Some gait_malformed
     else case validate_binding (te_binding x) of
       Some e \<Rightarrow> Some e
     | None \<Rightarrow>
        if (case (parse_time (te_occurred_at x), parse_time (te_fresh_until x)) of
              (Some st, Some fin) \<Rightarrow> fin < st
            | _ \<Rightarrow> True) then Some gait_time_window
        else if (let p = te_provenance x in pv_producer p \<noteq> ''gait'' \<or> pv_writer p = [] \<or> pv_verifier p = [] \<or>
            pv_public_key p = [] \<or> sg_alg (pv_signature p) \<noteq> ''ed25519'') then Some gait_producer_invalid
        else if \<not> gait_digest_ok (te_digest x) then Some gait_digest_mismatch
        else if prefixed (digest (strip_evidence x)) \<noteq> Some (te_digest x) \<or>
          sg_signed_digest (pv_signature (te_provenance x)) \<noteq> trim_prefix (te_digest x) ''sha256:''
        then Some gait_digest_mismatch
        else None)"

definition typed_schema_bad :: "string \<Rightarrow> string list \<Rightarrow> 'a typed_evidence_scheme \<Rightarrow> bool" where
  "typed_schema_bad schema outcomes x \<longleftrightarrow>
     te_schema_id x \<noteq> schema \<or> te_schema_version x \<noteq> ''1'' \<or> te_outcome x \<notin> set outcomes"

definition validate_execution :: "gait_lib \<Rightarrow> execution_evidence \<Rightarrow> string option" where
  "validate_execution lib x =
     (if typed_schema_bad execution_schema [''started'', ''succeeded'', ''failed'', ''blocked''] x
      then Some gait_schema_unsupported
      else validate_common ''gait-exec-'' (gl_execution_digest lib) x)"

definition validate_effect :: "gait_lib \<Rightarrow> effect_event \<Rightarrow> string option" where
  "validate_effect lib x =
     (if typed_schema_bad effect_schema [''recorded'', ''validated''] x then Some gait_schema_unsupported
      else case validate_common ''gait-effect-'' (gl_effect_digest lib) x of
        Some e \<Rightarrow> Some e
      | None \<Rightarrow> if \<not> eref_is (fe_execution x) ''execution'' execution_schema ''1'' \<or> \<not> eref_ok (fe_effect x)
          then Some gait_lineage_missing else None)"

definition validate_containment :: "gait_lib \<Rightarrow> containment_evidence \<Rightarrow> string option" where
  "validate_containment lib x =
     (if typed_schema_bad containment_schema [''requested'', ''completed'', ''partial'', ''unresolved''] x
      then Some gait_schema_unsupported
      else case validate_common ''gait-containment-'' (gl_containment_digest lib) x of
        Some e \<Rightarrow> Some e
      | None \<Rightarrow> if \<not> eref_is (ce_execution x) ''execution'' execution_schema ''1'' \<or> \<not> eref_ok (ce_effect x) \<or>
            \<not> eref_ok (ce_containment x) then Some gait_lineage_missing else None)"

definition validate_compensation :: "gait_lib \<Rightarrow> compensation_evidence \<Rightarrow> string option" where
  "validate_compensation lib x =
     (if typed_schema_bad compensation_schema [''required'', ''started'', ''completed''] x
      then Some gait_schema_unsupported
      else case validate_common ''gait-compensation-'' (gl_compensation_digest lib) x of
        Some e \<Rightarrow> Some e
      | None \<Rightarrow> if \<not> eref_is (me_execution x) ''execution'' execution_schema ''1'' \<or> \<not> eref_ok (me_requirement x)
          then Some gait_lineage_missing else None)"

definition typed_checked :: "('a \<Rightarrow> string option) \<Rightarrow> bool \<Rightarrow> 'a option \<Rightarrow> string option" where
  \<comment> \<open>evidence that is present is validated, then the kind of its record\<close>
  "typed_checked validate kind_ok v =
     (case v of
        None \<Rightarrow> None
      | Some x \<Rightarrow> (case validate x of
            Some e \<Rightarrow> Some e
          | None \<Rightarrow> if kind_ok then None else Some gait_outcome_invalid))"

definition typed_count :: "gait_record \<Rightarrow> nat" where
  "typed_count r = length (filter id [gr_execution r \<noteq> None, gr_effect r \<noteq> None, gr_containment r \<noteq> None,
     gr_compensation r \<noteq> None])"

definition first_fault :: "string option list \<Rightarrow> string option" where
  "first_fault es = (case List.map_filter id es of [] \<Rightarrow> None | e # _ \<Rightarrow> Some e)"

definition validate_typed :: "gait_lib \<Rightarrow> gait_record \<Rightarrow> string option" where
  "validate_typed lib r =
     (if typed_count r > 1 then Some gait_evidence_order
      else first_fault
        [typed_checked (validate_execution lib) (gr_kind r \<in> {''execution_started'', ''execution_succeeded'',
            ''execution_failed'', ''execution_blocked''}) (gr_execution r),
         typed_checked (validate_effect lib) (gr_kind r \<in> {''effect_recorded'', ''effect_validated''}) (gr_effect r),
         typed_checked (validate_containment lib) (has_prefix (gr_kind r) ''containment_'') (gr_containment r),
         typed_checked (validate_compensation lib) (has_prefix (gr_kind r) ''compensation_'') (gr_compensation r)])"

definition typed_view :: "gait_record \<Rightarrow> (typed_evidence \<times> string \<times> string) option" where
  \<comment> \<open>the shared fields of the record's evidence, with the kind and schema of references to it\<close>
  "typed_view r =
     (case gr_execution r of
        Some x \<Rightarrow> Some (typed_evidence.truncate x, ''execution'', execution_schema)
      | None \<Rightarrow> (case gr_effect r of
          Some x \<Rightarrow> Some (typed_evidence.truncate x, ''effect_event'', effect_schema)
        | None \<Rightarrow> (case gr_containment r of
            Some x \<Rightarrow> Some (typed_evidence.truncate x, ''containment'', containment_schema)
          | None \<Rightarrow> (case gr_compensation r of
              Some x \<Rightarrow> Some (typed_evidence.truncate x, ''compensation'', compensation_schema)
            | None \<Rightarrow> None))))"

definition typed_binding :: "gait_record \<Rightarrow> evidence_binding option" where
  "typed_binding r = map_option (\<lambda>(x, _). te_binding x) (typed_view r)"

definition typed_provenance :: "gait_record \<Rightarrow> provenance option" where
  "typed_provenance r = map_option (\<lambda>(x, _). te_provenance x) (typed_view r)"

definition typed_eref :: "gait_record \<Rightarrow> eref option" where
  "typed_eref r = map_option (\<lambda>(x, kind, schema). evidence_eref kind (te_id x) (te_digest x) schema) (typed_view r)"

definition typed_times :: "gait_record \<Rightarrow> (instant \<times> instant) option" where
  \<comment> \<open>two zero times when one of them does not parse\<close>
  "typed_times r =
     map_option (\<lambda>(x, _). case (parse_time (te_occurred_at x), parse_time (te_fresh_until x)) of
         (Some st, Some fin) \<Rightarrow> (st, fin)
       | _ \<Rightarrow> (0, 0)) (typed_view r)"

definition verify_typed_provenance :: "gait_lib \<Rightarrow> string \<Rightarrow> provenance \<Rightarrow> string option" where
  "verify_typed_provenance lib key p =
     (if base64_decode (trim_space (pv_public_key p)) \<noteq> Some key then Some gait_public_key_mismatch
      else if sg_key_id (pv_signature p) \<noteq> gl_key_id lib key then Some gait_signature_invalid
      else if gl_verify lib key (pv_signature p) \<noteq> Some True then Some gait_signature_invalid
      else None)"

definition strip_record :: "gait_record \<Rightarrow> gait_record" where
  "strip_record r = r\<lparr>gr_id := [], gr_signature := blank_signature\<rparr>"

definition verify_record_seal :: "gait_lib \<Rightarrow> string \<Rightarrow> gait_record \<Rightarrow> string option" where
  \<comment> \<open>the end of \<open>verifyLifecycleRecord\<close>: digest, key, signature and the id derived from the digest\<close>
  "verify_record_seal lib key r =
     (case gl_record_digest lib (strip_record r) of
        None \<Rightarrow> Some gait_digest_mismatch
      | Some d \<Rightarrow>
          if sg_signed_digest (gr_signature r) \<noteq> trim_prefix d ''sha256:'' then Some gait_digest_mismatch
          else if sg_key_id (gr_signature r) \<noteq> gl_key_id lib key then Some gait_signature_invalid
          else if gl_verify lib key (gr_signature r) \<noteq> Some True then Some gait_signature_invalid
          else if gr_id r \<noteq> ''gait-lr-'' @ take 16 (trim_prefix d ''sha256:'') then Some gait_digest_mismatch
          else None)"

definition record_time_ok :: "gait_record \<Rightarrow> bool" where
  "record_time_ok r =
     (case typed_times r of
        None \<Rightarrow> True
      | Some (st, fin) \<Rightarrow>
          (case parse_time (gr_occurred_at r) of None \<Rightarrow> False | Some t \<Rightarrow> \<not> t < st \<and> \<not> fin < t))"

definition verify_gait_record :: "gait_lib \<Rightarrow> string \<Rightarrow> gait_record \<Rightarrow> string option" where
  "verify_gait_record lib key r =
    (if gr_schema_id r \<noteq> lifecycle_schema \<or> gr_schema_version r \<noteq> ''1'' \<or> gr_id r = []
     then Some gait_schema_unsupported
     else if length key \<noteq> 32 then Some gait_trusted_key_required
     else if \<not> correlation_ok (gr_correlation r) (gr_contract r)
     then Some (gait_correlation_invalid @ '': '' @ gait_correlation_invalid)
     else case validate_typed lib r of
       Some e \<Rightarrow> Some e
     | None \<Rightarrow>
        if \<not> record_time_ok r then Some gait_time_window
        else case (case typed_provenance r of None \<Rightarrow> None | Some p \<Rightarrow> verify_typed_provenance lib key p) of
          Some e \<Rightarrow> Some e
        | None \<Rightarrow> verify_record_seal lib key r)"

definition mapped_reasons :: "string list" where
  "mapped_reasons = [gait_schema_unsupported, gait_digest_mismatch, gait_signature_invalid,
     gait_trusted_key_required, gait_public_key_mismatch, gait_producer_invalid, gait_lineage_missing,
     gait_lineage_mismatch, gait_correlation_invalid, gait_evidence_missing, gait_evidence_order, gait_replay,
     gait_time_window, gait_outcome_invalid, gait_readiness_invalid, gait_runtime_invalid]"

definition map_reason :: "string \<Rightarrow> string" where
  "map_reason msg = (case find (contains msg) mapped_reasons of None \<Rightarrow> gait_malformed | Some r \<Rightarrow> r)"

section \<open>The lineage the caller expects\<close>

definition needs_activation :: "string \<Rightarrow> bool" where
  "needs_activation kind \<longleftrightarrow> has_prefix kind ''execution_'' \<or> has_prefix kind ''effect_'' \<or>
     has_prefix kind ''containment_'' \<or> has_prefix kind ''compensation_'' \<or> kind = ''activated''"

definition binding_lineage ::
  "verification_options \<Rightarrow> evidence_binding option \<Rightarrow> gait_record \<Rightarrow> evidence_binding \<Rightarrow> string option" where
  "binding_lineage opt current r b =
     (if eb_family b \<noteq> gr_family r \<or> eb_revision b \<noteq> gr_revision r \<or> \<not> same_ref (eb_contract b) (gr_contract r) \<or>
         gr_proposal r = None \<or>
         (case gr_activation r of None \<Rightarrow> True | Some a \<Rightarrow> \<not> same_ref (eb_activation b) a) then Some gait_lineage_mismatch
      else if (case current of None \<Rightarrow> False | Some c \<Rightarrow> \<not> same_binding c b) then Some gait_lineage_mismatch
      else if vo_runtime_digest opt \<noteq> [] \<and> er_digest (eb_runtime b) \<noteq> vo_runtime_digest opt
      then Some gait_lineage_mismatch
      else if vo_readiness_digest opt \<noteq> [] \<and> (er_digest (eb_readiness b) \<noteq> vo_readiness_digest opt \<or>
          er_digest (eb_decision b) \<noteq> vo_readiness_digest opt) then Some gait_lineage_mismatch
      else if vo_policy_digest opt \<noteq> [] \<and> er_digest (eb_policy b) \<noteq> vo_policy_digest opt
      then Some gait_lineage_mismatch
      else if vo_target opt \<noteq> [] \<and> er_id (eb_target b) \<noteq> vo_target opt then Some gait_lineage_mismatch
      else if vo_environment opt \<noteq> [] \<and> er_id (eb_environment b) \<noteq> vo_environment opt then Some gait_lineage_mismatch
      else None)"

definition validate_record_lineage ::
  "verification_options \<Rightarrow> evidence_binding option \<Rightarrow> gait_record \<Rightarrow> string option" where
  "validate_record_lineage opt current r =
     (if er_id (vo_contract opt) \<noteq> [] \<and> \<not> same_ref (gr_contract r) (vo_contract opt) then Some gait_lineage_mismatch
      else if vo_family opt \<noteq> [] \<and> gr_family r \<noteq> vo_family opt then Some gait_lineage_mismatch
      else if vo_revision opt > 0 \<and> gr_revision r \<noteq> vo_revision opt then Some gait_lineage_mismatch
      else if (case gr_proposal r of None \<Rightarrow> False | Some p \<Rightarrow> \<not> same_ref p (gr_contract r)) then Some gait_lineage_mismatch
      else if gr_kind r = ''activation_requested'' \<and> gr_activation r = None then Some gait_lineage_missing
      else if needs_activation (gr_kind r) \<and> gr_activation r = None then Some gait_lineage_missing
      else if (case gr_activation r of None \<Rightarrow> False
               | Some a \<Rightarrow> er_id (vo_activation opt) \<noteq> [] \<and> \<not> same_ref a (vo_activation opt)) then Some gait_lineage_mismatch
      else case typed_binding r of
        None \<Rightarrow> None
      | Some b \<Rightarrow> binding_lineage opt current r b)"

section \<open>The state machine over a pack\<close>

record pack_state =
  ps_reasons :: "string list"
  ps_derived :: "string list"
  ps_previous :: instant
  ps_previous_id :: string
  ps_seen :: "string list"
  ps_binding :: "evidence_binding option"
  ps_proposal :: bool
  ps_requested :: bool
  ps_precondition :: bool
  ps_decision :: bool
  ps_activated :: bool
  ps_started :: bool
  ps_terminal :: bool
  ps_recorded :: bool
  ps_validated :: bool
  ps_contain_requested :: bool
  ps_contain_terminal :: bool
  ps_outcome :: string
  ps_execution :: eref
  ps_effect :: eref
  ps_effect_artifact :: eref
  ps_containment :: eref
  ps_containment_scope :: eref
  ps_compensation :: eref
  ps_requirement :: eref
  ps_comp_needed :: bool
  ps_comp_required :: bool
  ps_comp_started :: bool
  ps_comp_completed :: bool
  ps_snapshot :: snapshot

definition zero_eref :: eref where
  "zero_eref = \<lparr>er_digest = [], er_id = [], er_kind = [], er_schema_id = [], er_schema_version = [], er_product = []\<rparr>"

definition zero_snapshot :: snapshot where
  "zero_snapshot = \<lparr>sn_execution = [], sn_effect = [], sn_containment = [], sn_compensation = []\<rparr>"

definition initial_pack :: pack_state where
  "initial_pack =
     \<lparr>ps_reasons = [], ps_derived = [], ps_previous = 0, ps_previous_id = [], ps_seen = [], ps_binding = None,
      ps_proposal = False, ps_requested = False, ps_precondition = False, ps_decision = False, ps_activated = False,
      ps_started = False, ps_terminal = False, ps_recorded = False, ps_validated = False,
      ps_contain_requested = False, ps_contain_terminal = False, ps_outcome = [], ps_execution = zero_eref,
      ps_effect = zero_eref, ps_effect_artifact = zero_eref, ps_containment = zero_eref,
      ps_containment_scope = zero_eref, ps_compensation = zero_eref, ps_requirement = zero_eref,
      ps_comp_needed = False, ps_comp_required = False, ps_comp_started = False, ps_comp_completed = False,
      ps_snapshot = zero_snapshot\<rparr>"

definition note_reason :: "string \<Rightarrow> string list \<Rightarrow> string list" where
  "note_reason r rs = (if r = [] \<or> r \<in> set rs then rs else rs @ [r])"

definition add_ps :: "string \<Rightarrow> pack_state \<Rightarrow> pack_state" where
  "add_ps r s = s\<lparr>ps_reasons := note_reason r (ps_reasons s)\<rparr>"

definition set_execution :: "string \<Rightarrow> pack_state \<Rightarrow> pack_state" where
  "set_execution x s = s\<lparr>ps_snapshot := (ps_snapshot s)\<lparr>sn_execution := x\<rparr>\<rparr>"

definition set_effect :: "string \<Rightarrow> pack_state \<Rightarrow> pack_state" where
  "set_effect x s = s\<lparr>ps_snapshot := (ps_snapshot s)\<lparr>sn_effect := x\<rparr>\<rparr>"

definition set_containment :: "string \<Rightarrow> pack_state \<Rightarrow> pack_state" where
  "set_containment x s = s\<lparr>ps_snapshot := (ps_snapshot s)\<lparr>sn_containment := x\<rparr>\<rparr>"

definition set_compensation :: "string \<Rightarrow> pack_state \<Rightarrow> pack_state" where
  "set_compensation x s = s\<lparr>ps_snapshot := (ps_snapshot s)\<lparr>sn_compensation := x\<rparr>\<rparr>"

definition execution_eref :: "execution_evidence \<Rightarrow> eref" where
  "execution_eref x = evidence_eref ''execution'' (te_id x) (te_digest x) execution_schema"

definition effect_eref :: "effect_event \<Rightarrow> eref" where
  "effect_eref x = evidence_eref ''effect_event'' (te_id x) (te_digest x) effect_schema"

definition containment_eref :: "containment_evidence \<Rightarrow> eref" where
  "containment_eref x = evidence_eref ''containment'' (te_id x) (te_digest x) containment_schema"

definition compensation_eref :: "compensation_evidence \<Rightarrow> eref" where
  "compensation_eref x = evidence_eref ''compensation'' (te_id x) (te_digest x) compensation_schema"

type_synonym kind_result = "(string, pack_state) result"

definition setup_step :: "gait_lib \<Rightarrow> verification_options \<Rightarrow> gait_record \<Rightarrow> pack_state \<Rightarrow> kind_result" where
  \<comment> \<open>the cases from \<open>proposal_ingested\<close> to \<open>activated\<close>; \<open>Inl\<close> is \<open>add(reason); continue\<close>\<close>
  "setup_step lib opt r s =
    (if gr_kind r = ''proposal_ingested'' then
       (if ps_proposal s \<or> gr_proposal r = None then Inl gait_evidence_order else Inr (s\<lparr>ps_proposal := True\<rparr>))
     else if gr_kind r = ''activation_requested'' then
       (if \<not> ps_proposal s \<or> ps_requested s \<or> gr_proposal r = None \<or>
           (case gr_activation r of None \<Rightarrow> True | Some a \<Rightarrow> \<not> same_ref a (vo_activation opt))
        then Inl gait_evidence_order else Inr (s\<lparr>ps_requested := True\<rparr>))
     else if gr_kind r = ''precondition_evaluated'' then
       (if \<not> (ps_proposal s \<and> ps_requested s) \<or> ps_precondition s \<or> gr_preconditions r = []
        then Inl gait_evidence_order else Inr (s\<lparr>ps_precondition := True\<rparr>))
     else if gr_kind r = ''decision_ready'' then
       (if \<not> ps_proposal s \<or> \<not> ps_requested s \<or> \<not> ps_precondition s \<or> ps_decision s \<or> gr_decision r = []
        then Inl gait_evidence_order
        else if prefixed (gl_decision_digest lib (gr_decision r)) \<noteq> Some (vo_readiness_digest opt)
        then Inl gait_readiness_invalid else Inr (s\<lparr>ps_decision := True\<rparr>))
     else
       (if \<not> ps_requested s \<or> \<not> ps_decision s \<or> ps_activated s \<or> gr_activation r = None
        then Inl gait_evidence_order else Inr (s\<lparr>ps_activated := True\<rparr>)))"

definition execution_step :: "verification_options \<Rightarrow> gait_record \<Rightarrow> pack_state \<Rightarrow> kind_result" where
  "execution_step opt r s =
    (if gr_kind r = ''execution_started'' then
       (case gr_execution r of
          None \<Rightarrow> Inl gait_evidence_order
        | Some x \<Rightarrow>
            if \<not> ps_activated s \<or> te_outcome x \<noteq> ''started'' \<or> ps_started s \<or> ps_terminal s then Inl gait_evidence_order
            else if \<not> has_causal (te_binding x) (vo_contract opt) then Inl gait_lineage_mismatch
            else Inr (set_execution ''started'' (s\<lparr>ps_started := True, ps_execution := execution_eref x,
              ps_comp_needed := xe_compensation_required x\<rparr>)))
     else if gr_kind r = ''execution_blocked'' then
       (case (gr_execution r, gr_activation r) of
          (Some x, Some a) \<Rightarrow>
            if \<not> ps_activated s \<or> te_outcome x \<noteq> ''blocked'' \<or> ps_started s \<or> ps_terminal s then Inl gait_evidence_order
            else if \<not> has_causal (te_binding x) a then Inl gait_lineage_mismatch
            else Inr (set_execution ''blocked'' (s\<lparr>ps_terminal := True, ps_outcome := ''blocked'',
              ps_execution := execution_eref x, ps_comp_needed := xe_compensation_required x\<rparr>))
        | _ \<Rightarrow> Inl gait_evidence_order)
     else
       (case gr_execution r of
          None \<Rightarrow> Inl gait_evidence_order
        | Some x \<Rightarrow>
            let want = trim_prefix (gr_kind r) ''execution_'' in
            if \<not> ps_activated s \<or> ps_terminal s \<or> \<not> ps_started s then Inl gait_evidence_order
            else if te_outcome x \<noteq> want then Inl gait_outcome_invalid
            else if \<not> has_causal (te_binding x) (ps_execution s) then Inl gait_lineage_mismatch
            else Inr (set_execution want (s\<lparr>ps_terminal := True, ps_outcome := want,
              ps_execution := execution_eref x, ps_comp_needed := ps_comp_needed s \<or> xe_compensation_required x\<rparr>))))"

definition effect_step :: "gait_record \<Rightarrow> pack_state \<Rightarrow> kind_result" where
  "effect_step r s =
    (case gr_effect r of
       None \<Rightarrow> Inl gait_evidence_order
     | Some x \<Rightarrow>
        if gr_kind r = ''effect_recorded'' then
          (if te_outcome x \<noteq> ''recorded'' \<or> \<not> ps_terminal s \<or> ps_outcome s \<noteq> ''succeeded'' \<or> ps_recorded s
           then Inl gait_evidence_order
           else if \<not> same_ref (fe_execution x) (ps_execution s) \<or> \<not> has_causal (te_binding x) (ps_execution s)
           then Inl gait_lineage_mismatch
           else Inr (set_effect ''recorded'' (s\<lparr>ps_recorded := True, ps_effect := effect_eref x,
             ps_effect_artifact := fe_effect x\<rparr>)))
        else
          (if te_outcome x \<noteq> ''validated'' \<or> \<not> ps_recorded s \<or> ps_validated s then Inl gait_evidence_order
           else if \<not> same_ref (fe_execution x) (ps_execution s) \<or> \<not> same_ref (fe_effect x) (ps_effect_artifact s) \<or>
             \<not> has_causal (te_binding x) (ps_effect s) then Inl gait_lineage_mismatch
           else Inr (set_effect ''validated'' (s\<lparr>ps_validated := True, ps_effect := effect_eref x\<rparr>))))"

definition containment_step :: "gait_record \<Rightarrow> pack_state \<Rightarrow> kind_result" where
  "containment_step r s =
    (case gr_containment r of
       None \<Rightarrow> Inl gait_evidence_order
     | Some x \<Rightarrow>
        if gr_kind r = ''containment_requested'' then
          (if te_outcome x \<noteq> ''requested'' \<or> \<not> ps_validated s \<or> ps_contain_requested s \<or> ps_contain_terminal s
           then Inl gait_evidence_order
           else if \<not> same_ref (ce_execution x) (ps_execution s) \<or> \<not> same_ref (ce_effect x) (ps_effect s) \<or>
             \<not> has_causal (te_binding x) (ps_effect s) then Inl gait_lineage_mismatch
           else Inr (set_containment ''requested'' (s\<lparr>ps_contain_requested := True,
             ps_containment := containment_eref x, ps_containment_scope := ce_containment x\<rparr>)))
        else
          (let want = trim_prefix (gr_kind r) ''containment_'' in
           if \<not> ps_contain_requested s \<or> ps_contain_terminal s then Inl gait_evidence_order
           else if te_outcome x \<noteq> want \<or> \<not> same_ref (ce_execution x) (ps_execution s) \<or>
             \<not> same_ref (ce_effect x) (ps_effect s) \<or> \<not> same_ref (ce_containment x) (ps_containment_scope s) \<or>
             \<not> has_causal (te_binding x) (ps_containment s) then Inl gait_lineage_mismatch
           else Inr (set_containment want (s\<lparr>ps_contain_terminal := True\<rparr>))))"

definition compensation_step :: "gait_record \<Rightarrow> pack_state \<Rightarrow> kind_result" where
  "compensation_step r s =
    (case gr_compensation r of
       None \<Rightarrow> Inl gait_evidence_order
     | Some x \<Rightarrow>
        if gr_kind r = ''compensation_required'' then
          (if te_outcome x \<noteq> ''required'' \<or> \<not> ps_terminal s \<or> \<not> ps_comp_needed s \<or> ps_comp_required s
           then Inl gait_evidence_order
           else if \<not> same_ref (me_execution x) (ps_execution s) \<or> \<not> has_causal (te_binding x) (ps_execution s)
           then Inl gait_lineage_mismatch
           else Inr (set_compensation ''required'' (s\<lparr>ps_comp_required := True,
             ps_compensation := compensation_eref x, ps_requirement := me_requirement x\<rparr>)))
        else
          (let linked = (same_ref (me_execution x) (ps_execution s) \<and> same_ref (me_requirement x) (ps_requirement s) \<and>
             has_causal (te_binding x) (ps_compensation s)) in
           if gr_kind r = ''compensation_started'' then
             (if te_outcome x \<noteq> ''started'' \<or> \<not> ps_comp_required s \<or> ps_comp_started s \<or> ps_comp_completed s
              then Inl gait_evidence_order
              else if \<not> linked then Inl gait_lineage_mismatch
              else Inr (set_compensation ''started'' (s\<lparr>ps_comp_started := True,
                ps_compensation := compensation_eref x\<rparr>)))
           else
             (if te_outcome x \<noteq> ''completed'' \<or> \<not> ps_comp_started s \<or> ps_comp_completed s
              then Inl gait_evidence_order
              else if \<not> linked then Inl gait_lineage_mismatch
              else Inr (set_compensation ''completed'' (s\<lparr>ps_comp_completed := True\<rparr>)))))"

definition setup_kinds :: "string list" where
  "setup_kinds = [''proposal_ingested'', ''activation_requested'', ''precondition_evaluated'', ''decision_ready'',
     ''activated'']"

definition execution_kinds :: "string list" where
  "execution_kinds = [''execution_started'', ''execution_blocked'', ''execution_succeeded'', ''execution_failed'']"

definition kind_step :: "gait_lib \<Rightarrow> verification_options \<Rightarrow> gait_record \<Rightarrow> pack_state \<Rightarrow> kind_result" where
  \<comment> \<open>the switch on the kind\<close>
  "kind_step lib opt r s =
    (if gr_kind r \<in> set setup_kinds then setup_step lib opt r s
     else if gr_kind r \<in> set execution_kinds then execution_step opt r s
     else if gr_kind r \<in> {''effect_recorded'', ''effect_validated''} then effect_step r s
     else if gr_kind r \<in> {''containment_requested'', ''containment_completed'', ''containment_partial'',
         ''containment_unresolved''} then containment_step r s
     else if gr_kind r \<in> {''compensation_required'', ''compensation_started'', ''compensation_completed''}
     then compensation_step r s
     else Inl gait_outcome_invalid)"

definition note_time :: "gait_record \<Rightarrow> instant \<Rightarrow> pack_state \<Rightarrow> pack_state" where
  \<comment> \<open>the order of the pack is by time, then by record id\<close>
  "note_time r t s =
    (let s = (if \<not> is_zero_time (ps_previous s) \<and> (t < ps_previous s \<or> t = ps_previous s \<and> gr_id r < ps_previous_id s)
              then add_ps gait_evidence_order s else s)
     in s\<lparr>ps_previous := t, ps_previous_id := gr_id r\<rparr>)"

definition note_binding :: "gait_record \<Rightarrow> pack_state \<Rightarrow> pack_state" where
  "note_binding r s =
    (case typed_binding r of
       None \<Rightarrow> s
     | Some b \<Rightarrow> (case ps_binding s of
           None \<Rightarrow> s\<lparr>ps_binding := Some b\<rparr>
         | Some c \<Rightarrow> if \<not> same_binding c b then add_ps gait_lineage_mismatch s else s))"

definition note_evidence :: "gait_record \<Rightarrow> pack_state \<Rightarrow> pack_state" where
  "note_evidence r s =
    (case typed_eref r of
       None \<Rightarrow> s
     | Some e \<Rightarrow>
        (let s = (if \<not> list_ex (\<lambda>x. same_ref x e) (gr_evidence_refs r) then add_ps gait_lineage_missing s else s)
         in s\<lparr>ps_derived := ps_derived s @ [er_digest e]\<rparr>))"

definition record_digest_of :: "gait_record \<Rightarrow> string" where
  "record_digest_of r = ''sha256:'' @ trim_prefix (sg_signed_digest (gr_signature r)) ''sha256:''"

definition pack_step :: "gait_lib \<Rightarrow> verification_options \<Rightarrow> gait_record \<Rightarrow> pack_state \<Rightarrow> pack_state" where
  \<comment> \<open>one iteration of the loop of \<open>VerifyLifecyclePack\<close>\<close>
  "pack_step lib opt r s =
    (if gr_schema_id r \<noteq> lifecycle_schema \<or> gr_schema_version r \<noteq> ''1'' then add_ps gait_schema_unsupported s
     else if gr_id r = [] then add_ps gait_malformed s
     else if gr_id r \<in> set (ps_seen s) then add_ps gait_replay s
     else
       (let s = s\<lparr>ps_seen := gr_id r # ps_seen s\<rparr> in
        case parse_time (gr_occurred_at r) of
          None \<Rightarrow> add_ps gait_malformed s
        | Some t \<Rightarrow>
          (let s = note_time r t s in
           case verify_gait_record lib (vo_key opt) r of
             Some e \<Rightarrow> add_ps (map_reason e) s
           | None \<Rightarrow>
             (let s = s\<lparr>ps_derived := ps_derived s @ [record_digest_of r]\<rparr> in
              case validate_record_lineage opt (ps_binding s) r of
                Some e \<Rightarrow> add_ps (map_reason e) s
              | None \<Rightarrow>
                (let s = note_evidence r (note_binding r s) in
                 case kind_step lib opt r s of
                   Inl reason \<Rightarrow> add_ps reason s
                 | Inr s' \<Rightarrow> s')))))"

definition containment_over :: "string \<Rightarrow> bool" where
  "containment_over x \<longleftrightarrow> x = ''completed'' \<or> x = ''partial'' \<or> x = ''unresolved''"

lemma containment_over_simps [simp]:
  "containment_over ''completed''" "containment_over ''partial''" "containment_over ''unresolved''"
  by (simp_all add: containment_over_def)

definition execution_halted :: "string \<Rightarrow> bool" where
  "execution_halted x \<longleftrightarrow> x = ''blocked'' \<or> x = ''failed''"

definition outcome_fault :: "pack_state \<Rightarrow> string option" where
  "outcome_fault s =
    (let n = ps_snapshot s in
     if execution_halted (ps_outcome s) then
       (if sn_effect n \<noteq> [] \<or> sn_containment n \<noteq> [] then Some gait_evidence_order else None)
     else if ps_outcome s \<noteq> ''succeeded'' then Some gait_evidence_missing
     else if sn_effect n \<noteq> ''validated'' then Some gait_evidence_missing
     else if \<not> containment_over (sn_containment n) then Some gait_evidence_missing
     else None)"

definition finish_pack :: "pack_state \<Rightarrow> pack_state" where
  \<comment> \<open>the checks after the loop\<close>
  "finish_pack s =
    (let s = (if ps_binding s = None then add_ps gait_lineage_missing s else s) in
     if ps_reasons s \<noteq> [] then s
     else
       (let s = (case outcome_fault s of None \<Rightarrow> s | Some e \<Rightarrow> add_ps e s)
        in if ps_comp_needed s \<and> \<not> ps_comp_completed s then add_ps gait_evidence_missing s else s))"

definition unique_sorted_strings :: "string list \<Rightarrow> string list" where
  "unique_sorted_strings xs = unique_sorted_raw xs"

definition evidence_set_id :: "gait_lib \<Rightarrow> gait_pack \<Rightarrow> string" where
  "evidence_set_id lib p =
    (if gait_digest_ok (gp_source_digest p)
     then ''gait_lifecycle_v1:'' @ take 16 (trim_prefix (gp_source_digest p) ''sha256:'')
     else case gl_pack_digest lib (gp_records p) of
       None \<Rightarrow> ''gait_lifecycle_v1:invalid''
     | Some d \<Rightarrow>
        (let h = trim_prefix d ''sha256:'' in
         if length h < 16 then ''gait_lifecycle_v1:invalid'' else ''gait_lifecycle_v1:'' @ take 16 h))"

definition is_fixture_key :: "gait_lib \<Rightarrow> string \<Rightarrow> bool" where
  "is_fixture_key lib key \<longleftrightarrow> length key = 32 \<and> gl_key_id lib key = fixture_key_id"

definition option_fault :: "gait_lib \<Rightarrow> gait_pack \<Rightarrow> verification_options \<Rightarrow> string option" where
  \<comment> \<open>the checks before the loop that end the verification, with their reason\<close>
  "option_fault lib p opt =
    (let fixture = is_fixture_key lib (vo_key opt); version = trim_space (vo_producer_version opt);
         commit = trim_space (vo_source_commit opt)
     in if length (vo_key opt) \<noteq> 32 then Some gait_trusted_key_required
        else if fixture \<and> \<not> vo_allow_fixture opt then Some gait_fixture_only
        else if version = [] \<or> \<not> commit_ok commit \<or> \<not> gait_digest_ok (vo_lifecycle_digest opt) \<or>
          \<not> gait_digest_ok (gp_source_digest p) \<or> vo_lifecycle_digest opt \<noteq> gp_source_digest p
        then Some gait_source_invalid
        else if fixture \<and> (version \<noteq> fixture_tag \<or> commit \<noteq> fixture_commit \<or>
          gp_source_digest p \<notin> set released_fixture_digests) then Some gait_source_invalid
        else if is_zero_time (vo_time opt) then Some gait_readiness_invalid
        else if \<not> eref_is (vo_contract opt) ''action_contract'' contract_schema ''3'' \<or>
          er_product (vo_contract opt) \<noteq> ''wrkr'' \<or> vo_family opt = [] \<or> vo_revision opt < 1 \<or>
          \<not> eref_is (vo_activation opt) ''activated_action_contract'' activation_schema ''1'' \<or>
          er_product (vo_activation opt) \<noteq> ''gait'' \<or> \<not> gait_digest_ok (vo_runtime_digest opt) \<or>
          \<not> gait_digest_ok (vo_readiness_digest opt) \<or> \<not> gait_digest_ok (vo_policy_digest opt) \<or>
          vo_target opt = [] \<or> vo_environment opt = [] then Some gait_lineage_missing
        else if is_zero_time (vo_not_before opt) \<or> is_zero_time (vo_not_after opt) \<or>
          \<not> vo_not_before opt < vo_not_after opt then Some gait_readiness_invalid
        else None)"

definition window_reasons :: "verification_options \<Rightarrow> pack_state \<Rightarrow> pack_state" where
  "window_reasons opt s =
    (let s = (if \<not> is_zero_time (vo_not_before opt) \<and> vo_time opt < vo_not_before opt
              then add_ps gait_activation_early s else s)
     in if \<not> is_zero_time (vo_not_after opt) \<and> \<not> vo_time opt < vo_not_after opt
        then add_ps gait_activation_expired s else s)"

definition pack_result :: "gait_lib \<Rightarrow> gait_pack \<Rightarrow> verification_options \<Rightarrow> pack_state \<Rightarrow> verification_result" where
  \<comment> \<open>the end of the function and \<open>finish\<close>; \<open>ProducerVersion\<close> and \<open>SourceCommit\<close> are filled in
     after the key checks\<close>
  "pack_result lib p opt s =
    (let fixture = is_fixture_key lib (vo_key opt); valid = (ps_reasons s = []); n = ps_snapshot s;
         keyed = (length (vo_key opt) = 32 \<and> (\<not> fixture \<or> vo_allow_fixture opt));
         reasons = sort (if valid \<and> fixture then [gait_fixture_only] else ps_reasons s);
         pick = (\<lambda>x. if valid then x else [])
     in \<lparr>vr_valid = valid, vr_authoritative = (valid \<and> \<not> fixture), vr_fixture_only = fixture, vr_reasons = reasons,
         vr_snapshot = n,
         vr_set = \<lparr>es_id = evidence_set_id lib p, es_product = ''gait'',
           es_producer_version = (if keyed then trim_space (vo_producer_version opt) else []),
           es_source_commit = (if keyed then trim_space (vo_source_commit opt) else []),
           es_execution = pick (sn_execution n), es_effect = pick (sn_effect n),
           es_containment = pick (sn_containment n), es_compensation = pick (sn_compensation n),
           es_verified = valid, es_authoritative = (valid \<and> \<not> fixture), es_fixture_only = fixture,
           es_state = (if valid then ''verified'' else ''unverified''),
           es_source_digests = unique_sorted_strings [gp_source_digest p],
           es_derived_digests = unique_sorted_strings (ps_derived s), es_reasons = reasons\<rparr>\<rparr>)"

definition verify_lifecycle_pack :: "gait_lib \<Rightarrow> gait_pack \<Rightarrow> verification_options \<Rightarrow> verification_result" where
  "verify_lifecycle_pack lib p opt =
    pack_result lib p opt
      (case option_fault lib p opt of
         Some e \<Rightarrow> add_ps e initial_pack
       | None \<Rightarrow>
          (let s = window_reasons opt initial_pack in
           if gp_records p = [] then add_ps gait_evidence_missing s
           else finish_pack (fold (pack_step lib opt) (gp_records p) s)))"

section \<open>Runs without a reason code\<close>

lemma add_ps_reasons [simp]: "ps_reasons (add_ps r s) = note_reason r (ps_reasons s)"
  by (simp add: add_ps_def)

lemma note_reason_Nil [simp]: "note_reason r rs = [] \<longleftrightarrow> rs = [] \<and> r = []"
  by (auto simp: note_reason_def)

lemma map_reason_nonempty [simp]: "map_reason e \<noteq> []"
proof -
  have "list_all (\<lambda>r. r \<noteq> []) mapped_reasons" by code_simp
  then show ?thesis
    by (auto simp: map_reason_def gait_malformed_def list_all_iff dest: find_SomeD split: option.splits)
qed

lemmas gait_reasons = gait_schema_unsupported_def gait_malformed_def gait_lineage_missing_def
  gait_lineage_mismatch_def gait_evidence_missing_def gait_evidence_order_def gait_replay_def
  gait_outcome_invalid_def gait_readiness_invalid_def gait_activation_expired_def gait_activation_early_def

lemmas snapshot_setters = set_execution_def set_effect_def set_containment_def set_compensation_def

lemmas kind_steps = setup_step_def execution_step_def effect_step_def containment_step_def compensation_step_def

lemma kind_step_frame:
  assumes "kind_step lib opt r s = Inr s'"
  shows "ps_reasons s' = ps_reasons s \<and> ps_seen s' = ps_seen s \<and> ps_previous s' = ps_previous s \<and>
    ps_previous_id s' = ps_previous_id s \<and> ps_binding s' = ps_binding s \<and> ps_derived s' = ps_derived s"
  using assms unfolding kind_step_def kind_steps Let_def snapshot_setters
  by (auto split: if_splits option.splits)

lemma kind_step_Inl: "kind_step lib opt r s = Inl e \<Longrightarrow> e \<noteq> []"
  unfolding kind_step_def kind_steps Let_def gait_reasons
  by (auto split: if_splits option.splits)

text \<open>What an iteration does when it adds no reason code.\<close>

definition time_in_order :: "gait_record \<Rightarrow> instant \<Rightarrow> pack_state \<Rightarrow> bool" where
  "time_in_order r t s \<longleftrightarrow> is_zero_time (ps_previous s) \<or> ps_previous s < t \<or>
     ps_previous s = t \<and> ps_previous_id s \<le> gr_id r"

definition noted :: "gait_record \<Rightarrow> instant \<Rightarrow> pack_state \<Rightarrow> pack_state" where
  "noted r t s =
     s\<lparr>ps_seen := gr_id r # ps_seen s, ps_previous := t, ps_previous_id := gr_id r,
       ps_derived := ps_derived s @ [record_digest_of r] @ (case typed_eref r of None \<Rightarrow> [] | Some e \<Rightarrow> [er_digest e]),
       ps_binding := (case ps_binding s of None \<Rightarrow> typed_binding r | Some b \<Rightarrow> Some b)\<rparr>"

definition record_clean :: "gait_lib \<Rightarrow> verification_options \<Rightarrow> pack_state \<Rightarrow> gait_record \<Rightarrow> bool" where
  "record_clean lib opt s r \<longleftrightarrow>
     gr_id r \<notin> set (ps_seen s) \<and> verify_gait_record lib (vo_key opt) r = None \<and>
     validate_record_lineage opt (ps_binding s) r = None \<and>
     (case typed_eref r of None \<Rightarrow> True | Some e \<Rightarrow> list_ex (\<lambda>x. same_ref x e) (gr_evidence_refs r))"

lemma lineage_same_binding:
  "validate_record_lineage opt (Some c) r = None \<Longrightarrow> typed_binding r = Some b \<Longrightarrow> same_binding c b"
  unfolding validate_record_lineage_def binding_lineage_def by (auto split: if_splits)

lemma note_time_facts:
  "ps_reasons (note_time r t s) = [] \<longleftrightarrow> ps_reasons s = [] \<and> time_in_order r t s"
  "time_in_order r t s \<Longrightarrow> note_time r t s = s\<lparr>ps_previous := t, ps_previous_id := gr_id r\<rparr>"
  by (auto simp: note_time_def time_in_order_def Let_def gait_reasons not_less)

lemma note_binding_facts:
  "ps_reasons (note_binding r s) = [] \<Longrightarrow> ps_reasons s = []"
  "ps_reasons (note_binding r s) = [] \<Longrightarrow> note_binding r s =
     s\<lparr>ps_binding := (case ps_binding s of None \<Rightarrow> typed_binding r | Some b \<Rightarrow> Some b)\<rparr>"
  by (auto simp: note_binding_def gait_reasons split: option.splits if_splits)

lemma note_evidence_facts:
  "ps_reasons (note_evidence r s) = [] \<longleftrightarrow> ps_reasons s = [] \<and>
     (case typed_eref r of None \<Rightarrow> True | Some e \<Rightarrow> list_ex (\<lambda>x. same_ref x e) (gr_evidence_refs r))"
  "ps_reasons (note_evidence r s) = [] \<Longrightarrow> note_evidence r s =
     s\<lparr>ps_derived := ps_derived s @ (case typed_eref r of None \<Rightarrow> [] | Some e \<Rightarrow> [er_digest e])\<rparr>"
  by (auto simp: note_evidence_def Let_def gait_reasons split: option.splits if_splits)

lemma pack_step_clean:
  assumes "ps_reasons (pack_step lib opt r s) = []"
  obtains t where "ps_reasons s = []" and "record_clean lib opt s r" and "parse_time (gr_occurred_at r) = Some t"
    and "time_in_order r t s" and "kind_step lib opt r (noted r t s) = Inr (pack_step lib opt r s)"
proof -
  let ?s1 = "s\<lparr>ps_seen := gr_id r # ps_seen s\<rparr>"
  from assms obtain t where schema: "gr_id r \<notin> set (ps_seen s)" and t: "parse_time (gr_occurred_at r) = Some t"
    by (auto simp: pack_step_def Let_def gait_reasons split: if_splits option.splits)
  let ?s2 = "note_time r t ?s1"
  let ?s3 = "?s2\<lparr>ps_derived := ps_derived ?s2 @ [record_digest_of r]\<rparr>"
  let ?s4 = "note_evidence r (note_binding r ?s3)"
  from assms t have ver: "verify_gait_record lib (vo_key opt) r = None"
    and lin: "validate_record_lineage opt (ps_binding ?s3) r = None"
    and kind: "kind_step lib opt r ?s4 = Inr (pack_step lib opt r s)"
    by (auto simp: pack_step_def Let_def gait_reasons split: if_splits option.splits sum.splits dest: kind_step_Inl)
  have r4: "ps_reasons ?s4 = []" using kind_step_frame [OF kind] assms by simp
  then have r3: "ps_reasons (note_binding r ?s3) = []" and ev: "case typed_eref r of None \<Rightarrow> True
      | Some e \<Rightarrow> list_ex (\<lambda>x. same_ref x e) (gr_evidence_refs r)"
    by (simp_all add: note_evidence_facts)
  have "ps_reasons ?s2 = []" using note_binding_facts(1) [OF r3] by simp
  then have s: "ps_reasons s = []" and ord: "time_in_order r t s"
    by (simp_all add: note_time_facts time_in_order_def)
  have s2: "?s2 = ?s1\<lparr>ps_previous := t, ps_previous_id := gr_id r\<rparr>"
    using ord by (intro note_time_facts(2)) (simp add: time_in_order_def)
  have "?s4 = noted r t s"
    by (subst note_evidence_facts(2) [OF r4], subst (1 2) note_binding_facts(2) [OF r3]) (simp add: s2 noted_def)
  moreover have "record_clean lib opt s r"
    using schema ver lin ev by (simp add: record_clean_def s2)
  ultimately show ?thesis using that [OF s _ t ord] kind by simp
qed

section \<open>The kinds of a pack\<close>

definition is_compensation :: "string \<Rightarrow> bool" where
  "is_compensation k \<longleftrightarrow> has_prefix k ''compensation_''"

definition setup_word :: "pack_state \<Rightarrow> string list" where
  "setup_word s = flag (ps_proposal s) ''proposal_ingested'' @ flag (ps_requested s) ''activation_requested'' @
     flag (ps_precondition s) ''precondition_evaluated'' @ flag (ps_decision s) ''decision_ready'' @
     flag (ps_activated s) ''activated''"

definition exec_word :: "pack_state \<Rightarrow> string list" where
  "exec_word s = flag (ps_started s) ''execution_started'' @ flag (ps_terminal s) (''execution_'' @ ps_outcome s)"

definition main_word :: "pack_state \<Rightarrow> string list" where
  "main_word s = flag (ps_recorded s) ''effect_recorded'' @ flag (ps_validated s) ''effect_validated'' @
     flag (ps_contain_requested s) ''containment_requested'' @
     flag (ps_contain_terminal s) (''containment_'' @ sn_containment (ps_snapshot s))"

definition comp_word :: "pack_state \<Rightarrow> string list" where
  "comp_word s = flag (ps_comp_required s) ''compensation_required'' @
     flag (ps_comp_started s) ''compensation_started'' @ flag (ps_comp_completed s) ''compensation_completed''"

lemmas pack_words = setup_word_def exec_word_def main_word_def comp_word_def flag_def

definition phases_ok :: "pack_state \<Rightarrow> bool" where
  "phases_ok s \<longleftrightarrow>
     (ps_requested s \<longrightarrow> ps_proposal s) \<and> (ps_precondition s \<longrightarrow> ps_requested s) \<and>
     (ps_decision s \<longrightarrow> ps_precondition s) \<and> (ps_activated s \<longrightarrow> ps_decision s) \<and>
     (ps_started s \<longrightarrow> ps_activated s) \<and> (ps_terminal s \<longrightarrow> ps_activated s) \<and>
     (ps_recorded s \<longrightarrow> ps_terminal s \<and> ps_outcome s = ''succeeded'') \<and> (ps_validated s \<longrightarrow> ps_recorded s) \<and>
     (ps_contain_requested s \<longrightarrow> ps_validated s) \<and> (ps_contain_terminal s \<longrightarrow> ps_contain_requested s) \<and>
     (ps_comp_required s \<longrightarrow> ps_terminal s \<and> ps_comp_needed s) \<and> (ps_comp_started s \<longrightarrow> ps_comp_required s) \<and>
     (ps_comp_completed s \<longrightarrow> ps_comp_started s) \<and>
     (if ps_terminal s then (if ps_started s then ps_outcome s \<in> {''succeeded'', ''failed''}
        else ps_outcome s = ''blocked'') else ps_outcome s = [])"

definition snapshot_ok :: "pack_state \<Rightarrow> bool" where
  "snapshot_ok s \<longleftrightarrow>
     sn_execution (ps_snapshot s) = (if ps_terminal s then ps_outcome s else if ps_started s then ''started'' else []) \<and>
     sn_effect (ps_snapshot s) = (if ps_validated s then ''validated'' else if ps_recorded s then ''recorded'' else []) \<and>
     (if ps_contain_terminal s then containment_over (sn_containment (ps_snapshot s))
      else sn_containment (ps_snapshot s) = (if ps_contain_requested s then ''requested'' else [])) \<and>
     sn_compensation (ps_snapshot s) = (if ps_comp_completed s then ''completed''
       else if ps_comp_started s then ''started'' else if ps_comp_required s then ''required'' else [])"

definition tail_ok :: "pack_state \<Rightarrow> string list \<Rightarrow> bool" where
  "tail_ok s tail \<longleftrightarrow>
     filter (\<lambda>k. \<not> is_compensation k) tail = main_word s \<and> filter is_compensation tail = comp_word s"

definition pack_inv :: "string list \<Rightarrow> pack_state \<Rightarrow> bool" where
  "pack_inv ks s \<longleftrightarrow> phases_ok s \<and> snapshot_ok s \<and>
     (\<exists>tail. ks = setup_word s @ exec_word s @ tail \<and> tail_ok s tail)"

lemma tail_empty: "tail_ok s tail \<Longrightarrow> main_word s = [] \<Longrightarrow> comp_word s = [] \<Longrightarrow> tail = []"
  by (cases tail) (auto simp: tail_ok_def split: if_splits)

lemma phases_later:
  assumes "phases_ok s"
  shows "\<not> ps_activated s \<Longrightarrow> exec_word s = []" "\<not> ps_terminal s \<Longrightarrow> main_word s = [] \<and> comp_word s = []"
  using assms by (auto simp: phases_ok_def pack_words)

lemma want_simps:
  "trim_prefix ''execution_succeeded'' ''execution_'' = ''succeeded''"
  "trim_prefix ''execution_failed'' ''execution_'' = ''failed''"
  "trim_prefix ''containment_completed'' ''containment_'' = ''completed''"
  "trim_prefix ''containment_partial'' ''containment_'' = ''partial''"
  "trim_prefix ''containment_unresolved'' ''containment_'' = ''unresolved''"
  by (simp_all add: trim_prefix_def)

lemma compensation_kinds:
  "is_compensation ''compensation_required''" "is_compensation ''compensation_started''"
  "is_compensation ''compensation_completed''" "\<not> is_compensation ''effect_recorded''"
  "\<not> is_compensation ''effect_validated''" "\<not> is_compensation ''containment_requested''"
  "\<not> is_compensation (''containment_'' @ x)"
  by (simp_all add: is_compensation_def has_prefix_def)

lemma setup_grows:
  assumes "phases_ok s'" and "setup_word s' = setup_word s @ [k]" and "ks = setup_word s" and "snapshot_ok s'"
    and "exec_word s' = []" and "main_word s' = []" and "comp_word s' = []"
  shows "pack_inv (ks @ [k]) s'"
  using assms by (simp add: pack_inv_def tail_ok_def)

lemma phases_chain:
  assumes "phases_ok s"
  shows "ps_requested s \<Longrightarrow> ps_proposal s" "ps_precondition s \<Longrightarrow> ps_requested s \<and> ps_proposal s"
    "ps_decision s \<Longrightarrow> ps_precondition s \<and> ps_requested s \<and> ps_proposal s"
    "ps_activated s \<Longrightarrow> ps_decision s \<and> ps_precondition s \<and> ps_requested s \<and> ps_proposal s"
    "\<not> ps_activated s \<Longrightarrow> \<not> ps_started s \<and> \<not> ps_terminal s"
    "\<not> ps_terminal s \<Longrightarrow> ps_outcome s = [] \<and> \<not> ps_recorded s \<and> \<not> ps_validated s \<and> \<not> ps_contain_requested s \<and>
       \<not> ps_contain_terminal s \<and> \<not> ps_comp_required s \<and> \<not> ps_comp_started s \<and> \<not> ps_comp_completed s"
  using assms by (simp_all add: phases_ok_def split: if_splits) blast+

lemma setup_inv_parts:
  assumes "pack_inv ks s" and "\<not> ps_activated s"
  shows "phases_ok s" and "snapshot_ok s" and "\<not> ps_started s" and "\<not> ps_terminal s" and "ks = setup_word s"
proof -
  obtain tail where p: "phases_ok s" "snapshot_ok s" and ks: "ks = setup_word s @ exec_word s @ tail"
    and tail: "tail_ok s tail" using assms(1) unfolding pack_inv_def by blast
  then show "phases_ok s" "snapshot_ok s" and ns: "\<not> ps_started s" and nt: "\<not> ps_terminal s"
    using phases_chain(5) assms(2) by auto
  show "ks = setup_word s"
    using ks phases_later [OF p(1)] assms(2) nt tail_empty [OF tail] by simp
qed

lemma setup_step_idle:
  assumes "setup_step lib opt r s = Inr s'" and "phases_ok s"
  shows "\<not> ps_activated s"
proof
  assume a: "ps_activated s"
  then have "setup_step lib opt r s \<in> {Inl gait_evidence_order, Inl gait_readiness_invalid}"
    using phases_chain(4) [OF assms(2) a] by (simp add: setup_step_def)
  then show False using assms(1) by simp
qed

lemma setup_step_inv:
  assumes "pack_inv ks s" and "setup_step lib opt r s = Inr s'" and "gr_kind r \<in> set setup_kinds"
  shows "pack_inv (ks @ [gr_kind r]) s'"
proof -
  have "\<not> ps_activated s"
    using setup_step_idle [OF assms(2)] assms(1) by (simp add: pack_inv_def)
  note inv = setup_inv_parts [OF assms(1) this] this
  note later = phases_chain(6) [OF inv(1) inv(4)]
  have chain: "\<not> ps_proposal s \<Longrightarrow> \<not> ps_requested s" "\<not> ps_requested s \<Longrightarrow> \<not> ps_precondition s"
    "\<not> ps_precondition s \<Longrightarrow> \<not> ps_decision s" using phases_chain(1-3) [OF inv(1)] by blast+
  note chain = chain phases_chain(1-3) [OF inv(1)]
  have grown: "exec_word x = []" "main_word x = []" "comp_word x = []" "snapshot_ok x"
    if "\<not> ps_started x" "\<not> ps_terminal x" "\<not> ps_recorded x" "\<not> ps_validated x" "\<not> ps_contain_requested x"
      "\<not> ps_contain_terminal x" "\<not> ps_comp_required x" "\<not> ps_comp_started x" "\<not> ps_comp_completed x"
      "ps_snapshot x = ps_snapshot s" for x
    using that inv(2-4) later by (simp_all add: snapshot_ok_def exec_word_def main_word_def comp_word_def flag_def)
  from assms(3) have "gr_kind r = ''proposal_ingested'' \<or> gr_kind r = ''activation_requested'' \<or>
    gr_kind r = ''precondition_evaluated'' \<or> gr_kind r = ''decision_ready'' \<or> gr_kind r = ''activated''"
    by (simp add: setup_kinds_def)
  then show ?thesis
  proof (elim disjE)
    assume k: "gr_kind r = ''proposal_ingested''"
    with assms(2) have s': "s' = s\<lparr>ps_proposal := True\<rparr>" and f: "\<not> ps_proposal s" 
      by (auto simp: setup_step_def split: if_splits option.splits)
    have f: "True" "\<not> ps_proposal s \<and> \<not> ps_requested s \<and> \<not> ps_precondition s \<and> \<not> ps_decision s \<and> \<not> ps_activated s" using f chain inv(6) by blast+
    then have "phases_ok s'" using inv(3,4) later by (simp add: s' phases_ok_def)
    moreover have "setup_word s' = setup_word s @ [gr_kind r]" using f by (simp add: s' k setup_word_def flag_def)
    ultimately show ?thesis by (rule setup_grows [OF _ _ inv(5)]) (use inv later in \<open>simp_all add: s' grown\<close>)
  next
    assume k: "gr_kind r = ''activation_requested''"
    with assms(2) have s': "s' = s\<lparr>ps_requested := True\<rparr>" and f: "\<not> ps_requested s" "ps_proposal s"
      by (auto simp: setup_step_def split: if_splits option.splits)
    have f: "ps_proposal s" "\<not> ps_requested s \<and> \<not> ps_precondition s \<and> \<not> ps_decision s \<and> \<not> ps_activated s" using f chain inv(6) by blast+
    then have "phases_ok s'" using inv(3,4) later by (simp add: s' phases_ok_def)
    moreover have "setup_word s' = setup_word s @ [gr_kind r]" using f by (simp add: s' k setup_word_def flag_def)
    ultimately show ?thesis by (rule setup_grows [OF _ _ inv(5)]) (use inv later in \<open>simp_all add: s' grown\<close>)
  next
    assume k: "gr_kind r = ''precondition_evaluated''"
    with assms(2) have s': "s' = s\<lparr>ps_precondition := True\<rparr>" and f: "\<not> ps_precondition s" "ps_requested s"
      by (auto simp: setup_step_def split: if_splits option.splits)
    have f: "ps_proposal s \<and> ps_requested s" "\<not> ps_precondition s \<and> \<not> ps_decision s \<and> \<not> ps_activated s" using f chain inv(6) by blast+
    then have "phases_ok s'" using inv(3,4) later by (simp add: s' phases_ok_def)
    moreover have "setup_word s' = setup_word s @ [gr_kind r]" using f by (simp add: s' k setup_word_def flag_def)
    ultimately show ?thesis by (rule setup_grows [OF _ _ inv(5)]) (use inv later in \<open>simp_all add: s' grown\<close>)
  next
    assume k: "gr_kind r = ''decision_ready''"
    with assms(2) have s': "s' = s\<lparr>ps_decision := True\<rparr>" and f: "\<not> ps_decision s" "ps_precondition s"
      by (auto simp: setup_step_def split: if_splits option.splits)
    have f: "ps_proposal s \<and> ps_requested s \<and> ps_precondition s" "\<not> ps_decision s \<and> \<not> ps_activated s" using f chain inv(6) by blast+
    then have "phases_ok s'" using inv(3,4) later by (simp add: s' phases_ok_def)
    moreover have "setup_word s' = setup_word s @ [gr_kind r]" using f by (simp add: s' k setup_word_def flag_def)
    ultimately show ?thesis by (rule setup_grows [OF _ _ inv(5)]) (use inv later in \<open>simp_all add: s' grown\<close>)
  next
    assume k: "gr_kind r = ''activated''"
    with assms(2) have s': "s' = s\<lparr>ps_activated := True\<rparr>" and f: "\<not> ps_activated s" "ps_decision s"
      by (auto simp: setup_step_def split: if_splits option.splits)
    have f: "ps_proposal s \<and> ps_requested s \<and> ps_precondition s \<and> ps_decision s" "\<not> ps_activated s" using f chain inv(6) by blast+
    then have "phases_ok s'" using inv(3,4) later by (simp add: s' phases_ok_def)
    moreover have "setup_word s' = setup_word s @ [gr_kind r]" using f by (simp add: s' k setup_word_def flag_def)
    ultimately show ?thesis by (rule setup_grows [OF _ _ inv(5)]) (use inv later in \<open>simp_all add: s' grown\<close>)
  qed
qed

lemma exec_grows:
  assumes "phases_ok s'" and "snapshot_ok s'" and "setup_word s' = setup_word s" and "exec_word s' = exec_word s @ [k]"
    and "ks = setup_word s @ exec_word s" and "main_word s' = []" and "comp_word s' = []"
  shows "pack_inv (ks @ [k]) s'"
  using assms by (simp add: pack_inv_def tail_ok_def)

lemma exec_inv_parts:
  assumes "pack_inv ks s" and "\<not> ps_terminal s"
  shows "phases_ok s" and "snapshot_ok s" and "ks = setup_word s @ exec_word s"
proof -
  obtain tail where p: "phases_ok s" "snapshot_ok s" and ks: "ks = setup_word s @ exec_word s @ tail"
    and tail: "tail_ok s tail" using assms(1) unfolding pack_inv_def by blast
  then show "phases_ok s" "snapshot_ok s" "ks = setup_word s @ exec_word s"
    using phases_later(2) [OF p(1) assms(2)] tail_empty [OF tail] by simp_all
qed

lemma execution_step_inv:
  assumes "pack_inv ks s" and "execution_step opt r s = Inr s'" and "gr_kind r \<in> set execution_kinds"
  shows "pack_inv (ks @ [gr_kind r]) s'"
proof -
  have nt: "\<not> ps_terminal s" and act: "ps_activated s"
    using assms(2) by (auto simp: execution_step_def Let_def split: if_splits option.splits)
  note inv = exec_inv_parts [OF assms(1) nt]
  note later = phases_chain(6) [OF inv(1) nt] and before = phases_chain(4) [OF inv(1) act]
  have grow: ?thesis
    if s': "s' = set_execution out (s\<lparr>ps_started := st, ps_terminal := fin, ps_outcome := out', ps_execution := e,
        ps_comp_needed := n\<rparr>)"
      and word: "flag st ''execution_started'' @ flag fin (''execution_'' @ out') = exec_word s @ [gr_kind r]"
      and ok: "if fin then (if st then out' \<in> {''succeeded'', ''failed''} else out' = ''blocked'') else out' = [] \<and> st"
      and out: "out = (if fin then out' else ''started'')" for st fin out out' e n
  proof (rule exec_grows [OF _ _ _ _ inv(3)])
    show "phases_ok s'" using before later act ok by (simp add: s' phases_ok_def set_execution_def split: if_splits)
    show "snapshot_ok s'" using inv(2) later ok by (simp add: s' snapshot_ok_def set_execution_def out split: if_splits)
    show "exec_word s' = exec_word s @ [gr_kind r]" using word by (simp add: s' exec_word_def set_execution_def)
    show "setup_word s' = setup_word s" by (simp add: s' setup_word_def set_execution_def)
    show "main_word s' = []" "comp_word s' = []"
      using later by (simp_all add: s' main_word_def comp_word_def flag_def set_execution_def)
  qed
  from assms(3) have "gr_kind r = ''execution_started'' \<or> gr_kind r = ''execution_blocked'' \<or>
    gr_kind r = ''execution_succeeded'' \<or> gr_kind r = ''execution_failed''"
    by (simp add: execution_kinds_def)
  then show ?thesis
  proof (elim disjE)
    assume k: "gr_kind r = ''execution_started''"
    with assms(2) obtain x where st: "\<not> ps_started s" and s': "s' = set_execution ''started'' (s\<lparr>ps_started := True,
      ps_execution := execution_eref x, ps_comp_needed := xe_compensation_required x\<rparr>)"
      by (auto simp: execution_step_def split: if_splits option.splits)
    have "s' = set_execution ''started'' (s\<lparr>ps_started := True, ps_terminal := False, ps_outcome := [],
      ps_execution := execution_eref x, ps_comp_needed := xe_compensation_required x\<rparr>)"
      using st nt later by (cases s) (simp add: s')
    then show ?thesis by (rule grow) (use st nt k later in \<open>simp_all add: exec_word_def flag_def\<close>)
  next
    assume k: "gr_kind r = ''execution_blocked''"
    with assms(2) obtain x where st: "\<not> ps_started s" and s': "s' = set_execution ''blocked'' (s\<lparr>ps_terminal := True, ps_outcome := ''blocked'',
      ps_execution := execution_eref x, ps_comp_needed := xe_compensation_required x\<rparr>)"
      by (auto simp: execution_step_def split: if_splits option.splits)
    have "s' = set_execution ''blocked'' (s\<lparr>ps_started := False, ps_terminal := True, ps_outcome := ''blocked'',
      ps_execution := execution_eref x, ps_comp_needed := xe_compensation_required x\<rparr>)"
      using st nt later by (cases s) (simp add: s')
    then show ?thesis by (rule grow) (use st nt k later in \<open>simp_all add: exec_word_def flag_def\<close>)
  next
    assume k: "gr_kind r = ''execution_succeeded''"
    with assms(2) obtain x where st: "ps_started s" and s': "s' = set_execution ''succeeded'' (s\<lparr>ps_terminal := True, ps_outcome := ''succeeded'',
      ps_execution := execution_eref x, ps_comp_needed := ps_comp_needed s \<or> xe_compensation_required x\<rparr>)"
      by (auto simp: execution_step_def want_simps Let_def split: if_splits option.splits)
    have "s' = set_execution ''succeeded'' (s\<lparr>ps_started := True, ps_terminal := True, ps_outcome := ''succeeded'',
      ps_execution := execution_eref x, ps_comp_needed := ps_comp_needed s \<or> xe_compensation_required x\<rparr>)"
      using st nt later by (cases s) (simp add: s')
    then show ?thesis by (rule grow) (use st nt k later in \<open>simp_all add: exec_word_def flag_def\<close>)
  next
    assume k: "gr_kind r = ''execution_failed''"
    with assms(2) obtain x where st: "ps_started s" and s': "s' = set_execution ''failed'' (s\<lparr>ps_terminal := True, ps_outcome := ''failed'',
      ps_execution := execution_eref x, ps_comp_needed := ps_comp_needed s \<or> xe_compensation_required x\<rparr>)"
      by (auto simp: execution_step_def want_simps Let_def split: if_splits option.splits)
    have "s' = set_execution ''failed'' (s\<lparr>ps_started := True, ps_terminal := True, ps_outcome := ''failed'',
      ps_execution := execution_eref x, ps_comp_needed := ps_comp_needed s \<or> xe_compensation_required x\<rparr>)"
      using st nt later by (cases s) (simp add: s')
    then show ?thesis by (rule grow) (use st nt k later in \<open>simp_all add: exec_word_def flag_def\<close>)
  qed
qed

lemma tail_grows:
  assumes "pack_inv ks s" and "phases_ok s'" and "snapshot_ok s'" and "setup_word s' = setup_word s"
    and "exec_word s' = exec_word s"
    and "main_word s' = main_word s @ (if is_compensation k then [] else [k])"
    and "comp_word s' = comp_word s @ (if is_compensation k then [k] else [])"
  shows "pack_inv (ks @ [k]) s'"
proof -
  obtain tail where "ks = setup_word s @ exec_word s @ tail" "tail_ok s tail"
    using assms(1) unfolding pack_inv_def by blast
  then show ?thesis unfolding pack_inv_def tail_ok_def
    by (intro conjI assms(2,3) exI [of _ "tail @ [k]"]) (simp_all add: assms(4-7))
qed

lemma main_chain:
  assumes "phases_ok s"
  shows "\<not> ps_recorded s \<Longrightarrow> \<not> ps_validated s \<and> \<not> ps_contain_requested s \<and> \<not> ps_contain_terminal s"
    and "\<not> ps_validated s \<Longrightarrow> \<not> ps_contain_requested s \<and> \<not> ps_contain_terminal s"
    and "\<not> ps_contain_requested s \<Longrightarrow> \<not> ps_contain_terminal s"
    and "ps_validated s \<Longrightarrow> ps_recorded s" and "ps_contain_requested s \<Longrightarrow> ps_validated s \<and> ps_recorded s"
    and "\<not> ps_comp_required s \<Longrightarrow> \<not> ps_comp_started s \<and> \<not> ps_comp_completed s"
    and "\<not> ps_comp_started s \<Longrightarrow> \<not> ps_comp_completed s"
    and "ps_comp_started s \<Longrightarrow> ps_comp_required s"
  using assms by (simp_all add: phases_ok_def split: if_splits) blast+

lemmas pack_view = set_effect_def set_containment_def set_compensation_def

lemma effect_step_inv:
  assumes "pack_inv ks s" and "effect_step r s = Inr s'" and "gr_kind r \<in> {''effect_recorded'', ''effect_validated''}"
  shows "pack_inv (ks @ [gr_kind r]) s'"
proof -
  have p: "phases_ok s" and n: "snapshot_ok s" using assms(1) by (simp_all add: pack_inv_def)
  note chain = main_chain [OF p]
  have grow: ?thesis if "phases_ok s'" "snapshot_ok s'" "setup_word s' = setup_word s" "exec_word s' = exec_word s"
    "main_word s' = main_word s @ (if is_compensation (gr_kind r) then [] else [gr_kind r])"
    "comp_word s' = comp_word s @ (if is_compensation (gr_kind r) then [gr_kind r] else [])"
    using assms(1) that by (rule tail_grows)
  from assms(3) show ?thesis
  proof (elim insertE emptyE)
    assume k: "gr_kind r = ''effect_recorded''"
    with assms(2) obtain x where f: "\<not> ps_recorded s" "ps_terminal s" "ps_outcome s = ''succeeded''" and s': "s' = set_effect ''recorded'' (s\<lparr>ps_recorded := True, ps_effect := effect_eref x, ps_effect_artifact := fe_effect x\<rparr>)"
      by (auto simp: effect_step_def want_simps Let_def split: if_splits option.splits)
    have off: "\<not> ps_validated s \<and> \<not> ps_contain_requested s \<and> \<not> ps_contain_terminal s" using f chain by blast
    show ?thesis
      using p n f off by (intro grow)
        (simp_all add: s' k phases_ok_def snapshot_ok_def pack_words pack_view compensation_kinds is_compensation_def
          has_prefix_def split: if_splits)
  next
    assume k: "gr_kind r = ''effect_validated''"
    with assms(2) obtain x where f: "\<not> ps_validated s" "ps_recorded s" and s': "s' = set_effect ''validated'' (s\<lparr>ps_validated := True, ps_effect := effect_eref x\<rparr>)"
      by (auto simp: effect_step_def want_simps Let_def split: if_splits option.splits)
    have off: "\<not> ps_contain_requested s \<and> \<not> ps_contain_terminal s" using f chain by blast
    show ?thesis
      using p n f off by (intro grow)
        (simp_all add: s' k phases_ok_def snapshot_ok_def pack_words pack_view compensation_kinds is_compensation_def
          has_prefix_def split: if_splits)
  qed
qed

lemma containment_step_inv:
  assumes "pack_inv ks s" and "containment_step r s = Inr s'" and "gr_kind r \<in> {''containment_requested'', ''containment_completed'', ''containment_partial'', ''containment_unresolved''}"
  shows "pack_inv (ks @ [gr_kind r]) s'"
proof -
  have p: "phases_ok s" and n: "snapshot_ok s" using assms(1) by (simp_all add: pack_inv_def)
  note chain = main_chain [OF p]
  have grow: ?thesis if "phases_ok s'" "snapshot_ok s'" "setup_word s' = setup_word s" "exec_word s' = exec_word s"
    "main_word s' = main_word s @ (if is_compensation (gr_kind r) then [] else [gr_kind r])"
    "comp_word s' = comp_word s @ (if is_compensation (gr_kind r) then [gr_kind r] else [])"
    using assms(1) that by (rule tail_grows)
  from assms(3) show ?thesis
  proof (elim insertE emptyE)
    assume k: "gr_kind r = ''containment_requested''"
    with assms(2) obtain x where f: "\<not> ps_contain_requested s" "ps_validated s" and s': "s' = set_containment ''requested'' (s\<lparr>ps_contain_requested := True, ps_containment := containment_eref x, ps_containment_scope := ce_containment x\<rparr>)"
      by (auto simp: containment_step_def want_simps Let_def split: if_splits option.splits)
    have off: "\<not> ps_contain_terminal s" using f chain by blast
    show ?thesis
      using p n f off by (intro grow)
        (simp_all add: s' k phases_ok_def snapshot_ok_def pack_words pack_view compensation_kinds is_compensation_def
          has_prefix_def split: if_splits)
  next
    assume k: "gr_kind r = ''containment_completed''"
    with assms(2) obtain x where f: "ps_contain_requested s" "\<not> ps_contain_terminal s" and s': "s' = set_containment ''completed'' (s\<lparr>ps_contain_terminal := True\<rparr>)"
      by (auto simp: containment_step_def want_simps Let_def split: if_splits option.splits)
    have off: "ps_validated s \<and> ps_recorded s" using f chain by blast
    show ?thesis
      using p n f off by (intro grow)
        (simp_all add: s' k phases_ok_def snapshot_ok_def pack_words pack_view compensation_kinds is_compensation_def
          has_prefix_def split: if_splits)
  next
    assume k: "gr_kind r = ''containment_partial''"
    with assms(2) obtain x where f: "ps_contain_requested s" "\<not> ps_contain_terminal s" and s': "s' = set_containment ''partial'' (s\<lparr>ps_contain_terminal := True\<rparr>)"
      by (auto simp: containment_step_def want_simps Let_def split: if_splits option.splits)
    have off: "ps_validated s \<and> ps_recorded s" using f chain by blast
    show ?thesis
      using p n f off by (intro grow)
        (simp_all add: s' k phases_ok_def snapshot_ok_def pack_words pack_view compensation_kinds is_compensation_def
          has_prefix_def split: if_splits)
  next
    assume k: "gr_kind r = ''containment_unresolved''"
    with assms(2) obtain x where f: "ps_contain_requested s" "\<not> ps_contain_terminal s" and s': "s' = set_containment ''unresolved'' (s\<lparr>ps_contain_terminal := True\<rparr>)"
      by (auto simp: containment_step_def want_simps Let_def split: if_splits option.splits)
    have off: "ps_validated s \<and> ps_recorded s" using f chain by blast
    show ?thesis
      using p n f off by (intro grow)
        (simp_all add: s' k phases_ok_def snapshot_ok_def pack_words pack_view compensation_kinds is_compensation_def
          has_prefix_def split: if_splits)
  qed
qed

lemma compensation_step_inv:
  assumes "pack_inv ks s" and "compensation_step r s = Inr s'" and "gr_kind r \<in> {''compensation_required'', ''compensation_started'', ''compensation_completed''}"
  shows "pack_inv (ks @ [gr_kind r]) s'"
proof -
  have p: "phases_ok s" and n: "snapshot_ok s" using assms(1) by (simp_all add: pack_inv_def)
  note chain = main_chain [OF p]
  have grow: ?thesis if "phases_ok s'" "snapshot_ok s'" "setup_word s' = setup_word s" "exec_word s' = exec_word s"
    "main_word s' = main_word s @ (if is_compensation (gr_kind r) then [] else [gr_kind r])"
    "comp_word s' = comp_word s @ (if is_compensation (gr_kind r) then [gr_kind r] else [])"
    using assms(1) that by (rule tail_grows)
  from assms(3) show ?thesis
  proof (elim insertE emptyE)
    assume k: "gr_kind r = ''compensation_required''"
    with assms(2) obtain x where f: "\<not> ps_comp_required s" "ps_terminal s" "ps_comp_needed s" and s': "s' = set_compensation ''required'' (s\<lparr>ps_comp_required := True, ps_compensation := compensation_eref x, ps_requirement := me_requirement x\<rparr>)"
      by (auto simp: compensation_step_def want_simps Let_def split: if_splits option.splits)
    have off: "\<not> ps_comp_started s \<and> \<not> ps_comp_completed s" using f chain by blast
    show ?thesis
      using p n f off by (intro grow)
        (simp_all add: s' k phases_ok_def snapshot_ok_def pack_words pack_view compensation_kinds is_compensation_def
          has_prefix_def split: if_splits)
  next
    assume k: "gr_kind r = ''compensation_started''"
    with assms(2) obtain x where f: "ps_comp_required s" "\<not> ps_comp_started s" and s': "s' = set_compensation ''started'' (s\<lparr>ps_comp_started := True, ps_compensation := compensation_eref x\<rparr>)"
      by (auto simp: compensation_step_def want_simps Let_def split: if_splits option.splits)
    have off: "\<not> ps_comp_completed s" using f chain by blast
    show ?thesis
      using p n f off by (intro grow)
        (simp_all add: s' k phases_ok_def snapshot_ok_def pack_words pack_view compensation_kinds is_compensation_def
          has_prefix_def split: if_splits)
  next
    assume k: "gr_kind r = ''compensation_completed''"
    with assms(2) obtain x where f: "ps_comp_started s" "\<not> ps_comp_completed s" and s': "s' = set_compensation ''completed'' (s\<lparr>ps_comp_completed := True\<rparr>)"
      by (auto simp: compensation_step_def want_simps Let_def split: if_splits option.splits)
    have off: "ps_comp_required s" using f chain by blast
    show ?thesis
      using p n f off by (intro grow)
        (simp_all add: s' k phases_ok_def snapshot_ok_def pack_words pack_view compensation_kinds is_compensation_def
          has_prefix_def split: if_splits)
  qed
qed

lemma kind_step_inv:
  assumes "pack_inv ks s" and "kind_step lib opt r s = Inr s'"
  shows "pack_inv (ks @ [gr_kind r]) s'"
proof -
  consider "gr_kind r \<in> set setup_kinds" "setup_step lib opt r s = Inr s'"
    | "gr_kind r \<in> set execution_kinds" "execution_step opt r s = Inr s'"
    | "gr_kind r \<in> {''effect_recorded'', ''effect_validated''}" "effect_step r s = Inr s'"
    | "gr_kind r \<in> {''containment_requested'', ''containment_completed'', ''containment_partial'',
         ''containment_unresolved''}" "containment_step r s = Inr s'"
    | "gr_kind r \<in> {''compensation_required'', ''compensation_started'', ''compensation_completed''}"
      "compensation_step r s = Inr s'"
    using assms(2) unfolding kind_step_def by (meson sum.distinct(1))
  then show ?thesis
    using setup_step_inv [OF assms(1)] execution_step_inv [OF assms(1)] effect_step_inv [OF assms(1)]
      containment_step_inv [OF assms(1)] compensation_step_inv [OF assms(1)] by cases metis+
qed

lemma pack_inv_noted [simp]: "pack_inv ks (noted r t s) = pack_inv ks s"
  by (simp add: pack_inv_def phases_ok_def snapshot_ok_def tail_ok_def setup_word_def exec_word_def main_word_def
      comp_word_def noted_def)

lemma pack_inv_initial: "pack_inv [] initial_pack"
  by (simp add: pack_inv_def phases_ok_def snapshot_ok_def tail_ok_def pack_words initial_pack_def zero_snapshot_def)

section \<open>Verification as a run of a step relation\<close>

text \<open>
  \<open>clean_run s rs s'\<close>: the records \<open>rs\<close>, each sealed by the trusted key, in scope, new, in time
  order and legal where it stands, take the verifier from \<open>s\<close> to \<open>s'\<close>.
\<close>

inductive clean_run ::
  "gait_lib \<Rightarrow> verification_options \<Rightarrow> pack_state \<Rightarrow> gait_record list \<Rightarrow> pack_state \<Rightarrow> bool"
  for lib :: gait_lib and opt :: verification_options where
  clean_nil: "clean_run lib opt s [] s"
| clean_cons: "record_clean lib opt s r \<Longrightarrow> parse_time (gr_occurred_at r) = Some t \<Longrightarrow> time_in_order r t s \<Longrightarrow>
     kind_step lib opt r (noted r t s) = Inr s1 \<Longrightarrow> clean_run lib opt s1 rs s2 \<Longrightarrow>
     clean_run lib opt s (r # rs) s2"

inductive_cases clean_run_NilE [elim!]: "clean_run lib opt s [] s'"
inductive_cases clean_run_ConsE: "clean_run lib opt s (r # rs) s'"

lemma verified_shape:
  "verify_gait_record lib key r = None \<Longrightarrow>
     gr_schema_id r = lifecycle_schema \<and> gr_schema_version r = ''1'' \<and> gr_id r \<noteq> [] \<and> length key = 32"
  by (simp add: verify_gait_record_def split: if_splits)

lemma pack_step_run:
  assumes "record_clean lib opt s r" and "parse_time (gr_occurred_at r) = Some t" and "time_in_order r t s"
    and "kind_step lib opt r (noted r t s) = Inr s'"
  shows "pack_step lib opt r s = s'"
proof -
  let ?s1 = "s\<lparr>ps_seen := gr_id r # ps_seen s\<rparr>"
  let ?s2 = "note_time r t ?s1"
  let ?s3 = "?s2\<lparr>ps_derived := ps_derived ?s2 @ [record_digest_of r]\<rparr>"
  have s2: "?s2 = ?s1\<lparr>ps_previous := t, ps_previous_id := gr_id r\<rparr>"
    using assms(3) by (intro note_time_facts(2)) (simp add: time_in_order_def)
  have lin: "validate_record_lineage opt (ps_binding s) r = None" using assms(1) by (simp add: record_clean_def)
  have "note_binding r ?s3 = ?s3\<lparr>ps_binding := (case ps_binding s of None \<Rightarrow> typed_binding r | Some b \<Rightarrow> Some b)\<rparr>"
    using lin lineage_same_binding
    by (cases "typed_binding r"; cases "ps_binding s") (auto simp: note_binding_def s2)
  moreover have "case typed_eref r of None \<Rightarrow> True | Some e \<Rightarrow> list_ex (\<lambda>x. same_ref x e) (gr_evidence_refs r)"
    using assms(1) by (simp add: record_clean_def)
  ultimately have "note_evidence r (note_binding r ?s3) = noted r t s"
    by (cases "typed_eref r") (simp_all add: note_evidence_def noted_def s2)
  moreover have "ps_binding ?s3 = ps_binding s" by (simp add: s2)
  ultimately show ?thesis
    using assms lin verified_shape [of lib "vo_key opt" r] unfolding record_clean_def
    by (simp add: pack_step_def Let_def)
qed

lemma clean_run_fold:
  "clean_run lib opt s rs s' \<Longrightarrow> fold (pack_step lib opt) rs s = s' \<and> ps_reasons s' = ps_reasons s"
proof (induction rule: clean_run.induct)
  case (clean_cons s r t s1 rs s2)
  then show ?case
    using pack_step_run [OF clean_cons.hyps(1-4)] kind_step_frame [OF clean_cons.hyps(4)] by (simp add: noted_def)
qed simp

lemma fold_clean_run:
  "ps_reasons (fold (pack_step lib opt) rs s) = [] \<Longrightarrow>
     clean_run lib opt s rs (fold (pack_step lib opt) rs s) \<and> ps_reasons s = []"
proof (induction rs arbitrary: s)
  case (Cons r rs)
  have "ps_reasons (fold (pack_step lib opt) rs (pack_step lib opt r s)) = []" using Cons.prems by simp
  note IH = Cons.IH [OF this]
  from IH obtain t where "ps_reasons s = []" "record_clean lib opt s r" "parse_time (gr_occurred_at r) = Some t"
    "time_in_order r t s" "kind_step lib opt r (noted r t s) = Inr (pack_step lib opt r s)"
    by (elim conjE pack_step_clean)
  from this(1) clean_run.clean_cons [OF this(2-5) IH [THEN conjunct1]] show ?case by simp
qed (simp add: clean_nil)

definition within_activation :: "verification_options \<Rightarrow> bool" where
  "within_activation opt \<longleftrightarrow> vo_not_before opt \<le> vo_time opt \<and> vo_time opt < vo_not_after opt"

definition accepting :: "pack_state \<Rightarrow> bool" where
  "accepting s \<longleftrightarrow> ps_binding s \<noteq> None \<and> ps_terminal s \<and>
     (if ps_outcome s = ''succeeded'' then ps_contain_terminal s else True) \<and>
     (if ps_comp_needed s then ps_comp_completed s else True)"

lemma finish_pack_clean:
  assumes "pack_inv ks s" and "ps_reasons s = []"
  shows "ps_reasons (finish_pack s) = [] \<longleftrightarrow> accepting s"
proof -
  have p: "phases_ok s" and n: "snapshot_ok s" using assms(1) by (simp_all add: pack_inv_def)
  define ok halted over where "ok = (ps_outcome s = ''succeeded'')" and "halted = execution_halted (ps_outcome s)"
    and "over = containment_over (sn_containment (ps_snapshot s))"
  have halted: "halted \<longleftrightarrow> ps_terminal s \<and> \<not> ok" "ok \<Longrightarrow> ps_terminal s"
    using p by (auto simp: ok_def halted_def execution_halted_def phases_ok_def split: if_splits)
  have effect: "sn_effect (ps_snapshot s) = ''validated'' \<longleftrightarrow> ps_validated s"
    "sn_effect (ps_snapshot s) = [] \<longleftrightarrow> \<not> ps_recorded s"
    using n main_chain(4) [OF p] by (auto simp: snapshot_ok_def)
  have over: "over \<longleftrightarrow> ps_contain_terminal s" "sn_containment (ps_snapshot s) = [] \<longleftrightarrow> \<not> ps_contain_requested s"
    using n main_chain(3) [OF p] by (auto simp: snapshot_ok_def over_def containment_over_def split: if_splits)
  have flags: "ps_contain_terminal s \<Longrightarrow> ps_validated s" "\<not> ok \<Longrightarrow> \<not> ps_recorded s \<and> \<not> ps_contain_requested s"
    using p by (auto simp: phases_ok_def ok_def)
  have fault: "outcome_fault s = None \<longleftrightarrow> (if ok then ps_contain_terminal s else ps_terminal s)"
    unfolding outcome_fault_def Let_def halted_def [symmetric] ok_def [symmetric] over_def [symmetric] effect over
    using halted flags by (cases ok) auto
  have reason: "e \<noteq> []" if "outcome_fault s = Some e" for e
    using that by (auto simp: outcome_fault_def Let_def gait_reasons split: if_splits)
  show ?thesis
  proof (cases "ps_binding s = None")
    case True
    then show ?thesis using assms(2) by (simp add: finish_pack_def accepting_def Let_def gait_reasons)
  next
    case False
    then show ?thesis
      using assms(2) fault reason halted(2)
      by (cases "outcome_fault s") (auto simp: finish_pack_def accepting_def Let_def gait_reasons add_ps_def ok_def split: if_splits)
  qed
qed

section \<open>What a valid verdict means\<close>

lemma window_reasons_clean:
  assumes "option_fault lib p opt = None"
  shows "ps_reasons (window_reasons opt initial_pack) = [] \<longleftrightarrow> within_activation opt"
    and "within_activation opt \<Longrightarrow> window_reasons opt initial_pack = initial_pack"
proof -
  have "\<not> is_zero_time (vo_not_before opt)" "\<not> is_zero_time (vo_not_after opt)"
    using assms by (auto simp: option_fault_def Let_def split: if_splits)
  then show "ps_reasons (window_reasons opt initial_pack) = [] \<longleftrightarrow> within_activation opt"
    and "within_activation opt \<Longrightarrow> window_reasons opt initial_pack = initial_pack"
    by (auto simp: window_reasons_def within_activation_def Let_def gait_reasons initial_pack_def not_less)
qed

lemma option_fault_reason: "option_fault lib p opt = Some e \<Longrightarrow> e \<noteq> []"
  by (auto simp: option_fault_def Let_def gait_reasons gait_trusted_key_required_def gait_fixture_only_def
      gait_source_invalid_def split: if_splits)

lemma finish_pack_reasons: "ps_reasons (finish_pack s) = [] \<Longrightarrow> ps_reasons s = []"
  by (auto simp: finish_pack_def Let_def split: if_splits)

lemma clean_run_inv:
  "clean_run lib opt s rs s' \<Longrightarrow> pack_inv ks s \<Longrightarrow> pack_inv (ks @ map gr_kind rs) s'"
proof (induction arbitrary: ks rule: clean_run.induct)
  case (clean_cons s r t s1 rs s2)
  have "pack_inv (ks @ [gr_kind r]) s1"
    using kind_step_inv [OF _ clean_cons.hyps(4)] clean_cons.prems by simp
  from clean_cons.IH [OF this] show ?case by simp
qed simp

lemma vr_valid_eq:
  "vr_valid (verify_lifecycle_pack lib p opt) \<longleftrightarrow>
     ps_reasons (case option_fault lib p opt of
         Some e \<Rightarrow> add_ps e initial_pack
       | None \<Rightarrow> (let s = window_reasons opt initial_pack in
           if gp_records p = [] then add_ps gait_evidence_missing s
           else finish_pack (fold (pack_step lib opt) (gp_records p) s))) = []"
  by (simp add: verify_lifecycle_pack_def pack_result_def Let_def)

lemma valid_iff_run:
  "vr_valid (verify_lifecycle_pack lib p opt) \<longleftrightarrow>
     option_fault lib p opt = None \<and> within_activation opt \<and> gp_records p \<noteq> [] \<and>
     (\<exists>s. clean_run lib opt initial_pack (gp_records p) s \<and> accepting s)" (is "?l \<longleftrightarrow> ?r")
proof
  assume l: ?l
  then have o: "option_fault lib p opt = None" and ne: "gp_records p \<noteq> []"
    and fin: "ps_reasons (finish_pack (fold (pack_step lib opt) (gp_records p) (window_reasons opt initial_pack))) = []"
    by (auto simp: vr_valid_eq Let_def gait_evidence_missing_def dest: option_fault_reason split: option.splits if_splits)
  let ?s = "fold (pack_step lib opt) (gp_records p) (window_reasons opt initial_pack)"
  have r: "ps_reasons ?s = []" using fin by (rule finish_pack_reasons)
  note run = fold_clean_run [OF r]
  then have w: "within_activation opt" using window_reasons_clean(1) [OF o] by simp
  have run: "clean_run lib opt initial_pack (gp_records p) ?s"
    using run window_reasons_clean(2) [OF o w] by simp
  from clean_run_inv [OF run pack_inv_initial] finish_pack_clean [OF _ r] fin have "accepting ?s" by blast
  with o w ne run show ?r by blast
next
  assume ?r
  then obtain s where o: "option_fault lib p opt = None" and w: "within_activation opt" and ne: "gp_records p \<noteq> []"
    and run: "clean_run lib opt initial_pack (gp_records p) s" and acc: "accepting s" by blast
  have s: "fold (pack_step lib opt) (gp_records p) initial_pack = s" "ps_reasons s = []"
    using clean_run_fold [OF run] by (simp_all add: initial_pack_def)
  have "ps_reasons (finish_pack s) = []"
    using finish_pack_clean [OF clean_run_inv [OF run pack_inv_initial] s(2)] acc by simp
  with o ne s(1) window_reasons_clean(2) [OF o w] show ?l by (simp add: vr_valid_eq Let_def)
qed

text \<open>
  C17: \<open>VerifyLifecyclePack\<close> refines the step relation: it reports a pack valid exactly when the caller's
  options are complete, the evaluation time lies in the activation window, and the records are a
  clean run, each sealed by the trusted key, in scope, new and legal where it stands, that ends in
  an accepting state. A record that adds a reason code is skipped, but never forgiven.
\<close>

theorem pack_valid_iff_run:
  "vr_valid (verify_lifecycle_pack lib p opt) \<longleftrightarrow>
     option_fault lib p opt = None \<and> within_activation opt \<and> gp_records p \<noteq> [] \<and>
     (\<exists>s. clean_run lib opt initial_pack (gp_records p) s \<and> accepting s)"
  by (rule valid_iff_run)

definition lifecycle_word :: "bool \<Rightarrow> string list \<Rightarrow> bool" where
  \<comment> \<open>set-up, one execution, and after it effect and containment interleaved with compensation\<close>
  "lifecycle_word compensated ks \<longleftrightarrow>
     (let rest = drop 5 ks; e = takeWhile (\<lambda>k. k \<in> set execution_kinds) rest;
          tail = dropWhile (\<lambda>k. k \<in> set execution_kinds) rest; main = filter (\<lambda>k. \<not> is_compensation k) tail
      in take 5 ks = setup_kinds \<and>
         e \<in> {[''execution_blocked''], [''execution_started'', ''execution_failed''],
              [''execution_started'', ''execution_succeeded'']} \<and>
         (if e = [''execution_started'', ''execution_succeeded''] then
            main \<in> {[''effect_recorded'', ''effect_validated'', ''containment_requested'', ''containment_completed''],
                    [''effect_recorded'', ''effect_validated'', ''containment_requested'', ''containment_partial''],
                    [''effect_recorded'', ''effect_validated'', ''containment_requested'', ''containment_unresolved'']}
          else main = []) \<and>
         filter is_compensation tail =
           (if compensated then [''compensation_required'', ''compensation_started'', ''compensation_completed''] else []))"

definition requires_compensation :: "gait_record \<Rightarrow> bool" where
  "requires_compensation r = (case gr_execution r of None \<Rightarrow> False | Some x \<Rightarrow> xe_compensation_required x)"

lemma verified_execution_kind:
  assumes "verify_gait_record lib key r = None" and "gr_execution r = Some x"
  shows "gr_kind r \<in> set execution_kinds"
proof -
  have "validate_typed lib r = None"
    using assms(1) by (auto simp: verify_gait_record_def split: if_splits option.splits)
  then have "typed_checked (validate_execution lib) (gr_kind r \<in> {''execution_started'', ''execution_succeeded'',
      ''execution_failed'', ''execution_blocked''}) (gr_execution r) = None"
    by (auto simp: validate_typed_def first_fault_def List.map_filter_simps split: if_splits option.splits list.splits)
  then show ?thesis
    using assms(2) by (auto simp: typed_checked_def execution_kinds_def split: option.splits if_splits)
qed

lemma needed_step:
  assumes "kind_step lib opt r s = Inr s'" and "verify_gait_record lib key r = None"
    and "\<not> ps_started s \<Longrightarrow> \<not> ps_terminal s \<Longrightarrow> \<not> ps_comp_needed s"
  shows "ps_comp_needed s' \<longleftrightarrow> ps_comp_needed s \<or> requires_compensation r"
    and "\<not> ps_started s' \<Longrightarrow> \<not> ps_terminal s' \<Longrightarrow> \<not> ps_comp_needed s'"
proof -
  have "(ps_comp_needed s' \<longleftrightarrow> ps_comp_needed s \<or> requires_compensation r) \<and>
    (\<not> ps_started s' \<and> \<not> ps_terminal s' \<longrightarrow> \<not> ps_comp_needed s')"
  proof (cases "gr_kind r \<in> set execution_kinds")
    case True
    then have "gr_kind r \<notin> set setup_kinds" by (auto simp: execution_kinds_def setup_kinds_def)
    then have "execution_step opt r s = Inr s'" using assms(1) True by (simp add: kind_step_def)
    then show ?thesis
      using assms(3) by (auto simp: execution_step_def Let_def set_execution_def requires_compensation_def
          split: if_splits option.splits)
  next
    case False
    then have "gr_execution r = None" using verified_execution_kind [OF assms(2)] by (cases "gr_execution r") auto
    moreover have "ps_comp_needed s' = ps_comp_needed s \<and> ps_started s' = ps_started s \<and> ps_terminal s' = ps_terminal s"
      using assms(1) False unfolding kind_step_def setup_step_def effect_step_def containment_step_def
        compensation_step_def Let_def snapshot_setters
      by (auto split: if_splits option.splits)
    ultimately show ?thesis using assms(3) by (simp add: requires_compensation_def)
  qed
  then show "ps_comp_needed s' \<longleftrightarrow> ps_comp_needed s \<or> requires_compensation r"
    and "\<not> ps_started s' \<Longrightarrow> \<not> ps_terminal s' \<Longrightarrow> \<not> ps_comp_needed s'" by blast+
qed

lemma clean_run_needed:
  "clean_run lib opt s rs s' \<Longrightarrow> (\<not> ps_started s \<Longrightarrow> \<not> ps_terminal s \<Longrightarrow> \<not> ps_comp_needed s) \<Longrightarrow>
     ps_comp_needed s' \<longleftrightarrow> ps_comp_needed s \<or> list_ex requires_compensation rs"
proof (induction rule: clean_run.induct)
  case (clean_cons s r t s1 rs s2)
  have "verify_gait_record lib (vo_key opt) r = None" using clean_cons.hyps(1) by (simp add: record_clean_def)
  note step = needed_step [OF clean_cons.hyps(4) this]
  have prem: "\<not> ps_started (noted r t s) \<Longrightarrow> \<not> ps_terminal (noted r t s) \<Longrightarrow> \<not> ps_comp_needed (noted r t s)"
    using clean_cons.prems by (simp add: noted_def)
  from step(1) [OF prem] step(2) [OF prem] clean_cons.IH show ?case by (simp add: noted_def)
qed simp

lemma phase_split:
  assumes "list_all P e" and "list_all (\<lambda>x. \<not> P x) tail"
  shows "takeWhile P (e @ tail) = e" and "dropWhile P (e @ tail) = tail"
  using assms by (induction e; cases tail; simp)+

lemma accepting_words:
  assumes "pack_inv ks s" and "accepting s"
  shows "lifecycle_word (ps_comp_needed s) ks"
proof -
  obtain tail where ks: "ks = setup_word s @ exec_word s @ tail" and tail: "tail_ok s tail"
    and p: "phases_ok s" and n: "snapshot_ok s" using assms(1) by (auto simp: pack_inv_def)
  have t: "ps_terminal s" using assms(2) by (simp add: accepting_def)
  have setup_eq: "setup_word s = setup_kinds" using p t by (simp add: phases_ok_def setup_word_def flag_def setup_kinds_def)
  define E where "E = exec_word s"
  have E: "E = (if \<not> ps_started s then [''execution_blocked'']
      else if ps_outcome s = ''succeeded'' then [''execution_started'', ''execution_succeeded'']
      else [''execution_started'', ''execution_failed''])"
    using p t by (auto simp: E_def exec_word_def flag_def phases_ok_def split: if_splits)
  have win: "ps_outcome s = ''succeeded'' \<Longrightarrow> ps_started s" using p t by (auto simp: phases_ok_def split: if_splits)
  have main: "main_word s \<in> (if ps_outcome s = ''succeeded'' then
      {[''effect_recorded'', ''effect_validated'', ''containment_requested'', ''containment_completed''],
       [''effect_recorded'', ''effect_validated'', ''containment_requested'', ''containment_partial''],
       [''effect_recorded'', ''effect_validated'', ''containment_requested'', ''containment_unresolved'']} else {[]})"
  proof (cases "ps_outcome s = ''succeeded''")
    case True
    then have c: "ps_contain_terminal s" using assms(2) by (simp add: accepting_def)
    then have "ps_contain_requested s" "ps_validated s" "ps_recorded s" using p by (simp_all add: phases_ok_def)
    moreover have "containment_over (sn_containment (ps_snapshot s))" using n c by (simp add: snapshot_ok_def)
    ultimately show ?thesis using True c by (auto simp: main_word_def flag_def containment_over_def)
  next
    case False
    then show ?thesis using p by (auto simp: main_word_def flag_def phases_ok_def)
  qed
  have comp: "comp_word s = (if ps_comp_needed s then
      [''compensation_required'', ''compensation_started'', ''compensation_completed''] else [])"
    using p assms(2) by (auto simp: comp_word_def flag_def phases_ok_def accepting_def)
  have "main_word s = filter (\<lambda>k. \<not> is_compensation k) tail" "comp_word s = filter is_compensation tail"
    using tail by (simp_all add: tail_ok_def)
  then have members: "set tail = set (main_word s) \<union> set (comp_word s)" by auto
  have late: "list_all (\<lambda>k. k \<notin> set execution_kinds) tail"
    using main comp unfolding list_all_iff members by (auto simp: execution_kinds_def split: if_splits)
  have early: "list_all (\<lambda>k. k \<in> set execution_kinds) E" by (simp add: E execution_kinds_def)
  have "drop 5 ks = E @ tail" "take 5 ks = setup_kinds" by (simp_all add: ks setup_eq E_def setup_kinds_def)
  moreover have "filter (\<lambda>k. \<not> is_compensation k) tail = main_word s" "filter is_compensation tail = comp_word s"
    using tail by (simp_all add: tail_ok_def)
  moreover have "E = [''execution_started'', ''execution_succeeded''] \<longleftrightarrow> ps_outcome s = ''succeeded''"
    using win by (auto simp: E)
  moreover have "E \<in> {[''execution_blocked''], [''execution_started'', ''execution_failed''],
      [''execution_started'', ''execution_succeeded'']}" by (simp add: E)
  ultimately show ?thesis
    using main comp by (simp only: lifecycle_word_def Let_def phase_split [OF early late]) (simp split: if_splits)
qed

lemma accepting_snapshot:
  assumes "pack_inv ks s" and "accepting s"
  shows "sn_execution (ps_snapshot s) \<in> {''succeeded'', ''failed'', ''blocked''} \<and>
    (sn_execution (ps_snapshot s) = ''succeeded'') = (''execution_succeeded'' \<in> set ks) \<and>
    sn_effect (ps_snapshot s) = (if ''execution_succeeded'' \<in> set ks then ''validated'' else []) \<and>
    (sn_containment (ps_snapshot s) \<in> {''completed'', ''partial'', ''unresolved''}) = (''execution_succeeded'' \<in> set ks) \<and>
    sn_compensation (ps_snapshot s) = (if ps_comp_needed s then ''completed'' else [])"
proof -
  obtain tail where ks: "ks = setup_word s @ exec_word s @ tail" and tail: "tail_ok s tail"
    and p: "phases_ok s" and n: "snapshot_ok s" using assms(1) by (auto simp: pack_inv_def)
  have t: "ps_terminal s" using assms(2) by (simp add: accepting_def)
  have "set tail = set (main_word s) \<union> set (comp_word s)"
  proof -
    have "main_word s = filter (\<lambda>k. \<not> is_compensation k) tail" "comp_word s = filter is_compensation tail"
      using tail by (simp_all add: tail_ok_def)
    then show ?thesis by auto
  qed
  moreover have "''execution_succeeded'' \<notin> set (setup_word s)" "''execution_succeeded'' \<notin> set (main_word s)"
    "''execution_succeeded'' \<notin> set (comp_word s)"
    by (simp_all add: setup_word_def main_word_def comp_word_def flag_def)
  moreover have "''execution_succeeded'' \<in> set (exec_word s) \<longleftrightarrow> ps_terminal s \<and> ps_outcome s = ''succeeded''"
    by (auto simp add: exec_word_def flag_def)
  ultimately have "''execution_succeeded'' \<in> set ks \<longleftrightarrow> ps_terminal s \<and> ps_outcome s = ''succeeded''"
    unfolding ks set_append by blast
  then have succ: "''execution_succeeded'' \<in> set ks \<longleftrightarrow> ps_outcome s = ''succeeded''" using t by simp
  have out: "sn_execution (ps_snapshot s) = ps_outcome s" "ps_outcome s \<in> {''succeeded'', ''failed'', ''blocked''}"
    using n p t by (auto simp: snapshot_ok_def phases_ok_def split: if_splits)
  have eff: "ps_outcome s = ''succeeded'' \<Longrightarrow> ps_contain_terminal s \<and> ps_validated s"
    using p assms(2) by (auto simp: phases_ok_def accepting_def)
  have noeff: "ps_outcome s \<noteq> ''succeeded'' \<Longrightarrow> \<not> ps_recorded s \<and> \<not> ps_validated s \<and> \<not> ps_contain_requested s \<and>
      \<not> ps_contain_terminal s" using p by (auto simp: phases_ok_def)
  have comp: "ps_comp_needed s \<Longrightarrow> ps_comp_completed s" "\<not> ps_comp_needed s \<Longrightarrow> \<not> ps_comp_required s \<and>
      \<not> ps_comp_started s \<and> \<not> ps_comp_completed s"
    using p assms(2) by (auto simp: phases_ok_def accepting_def)
  have effects: "sn_effect (ps_snapshot s) = (if ps_outcome s = ''succeeded'' then ''validated'' else [])"
    using n eff noeff by (cases "ps_outcome s = ''succeeded''") (simp_all add: snapshot_ok_def)
  have contain: "(sn_containment (ps_snapshot s) \<in> {''completed'', ''partial'', ''unresolved''}) = (ps_outcome s = ''succeeded'')"
    using n eff noeff by (cases "ps_outcome s = ''succeeded''") (simp_all add: snapshot_ok_def containment_over_def)
  have compensate: "sn_compensation (ps_snapshot s) = (if ps_comp_needed s then ''completed'' else [])"
    using n comp by (cases "ps_comp_needed s") (simp_all add: snapshot_ok_def)
  show ?thesis using out effects contain compensate by (simp add: succ)
qed

lemma valid_run:
  assumes "vr_valid (verify_lifecycle_pack lib p opt)"
  obtains s where "clean_run lib opt initial_pack (gp_records p) s" and "accepting s"
    and "pack_inv (map gr_kind (gp_records p)) s" and "vr_snapshot (verify_lifecycle_pack lib p opt) = ps_snapshot s"
proof -
  from assms obtain s where o: "option_fault lib p opt = None" and w: "within_activation opt" and ne: "gp_records p \<noteq> []"
    and run: "clean_run lib opt initial_pack (gp_records p) s" and acc: "accepting s" by (auto simp: valid_iff_run)
  have s: "fold (pack_step lib opt) (gp_records p) initial_pack = s" using clean_run_fold [OF run] by simp
  have "ps_snapshot (finish_pack s) = ps_snapshot s"
    by (simp add: finish_pack_def add_ps_def Let_def split: option.splits)
  then have "vr_snapshot (verify_lifecycle_pack lib p opt) = ps_snapshot s"
    using o ne s window_reasons_clean(2) [OF o w] by (simp add: verify_lifecycle_pack_def pack_result_def Let_def)
  moreover have "pack_inv (map gr_kind (gp_records p)) s" using clean_run_inv [OF run pack_inv_initial] by simp
  ultimately show ?thesis using that run acc by blast
qed

text \<open>
  The records of a valid pack are the word of exactly one execution: set-up in order, one attempt,
  effect and containment exactly when it succeeded, and a whole compensation exactly when a record
  of the execution asks for one. The snapshot reports the statuses these records establish.
\<close>

theorem valid_pack_is_one_lifecycle:
  assumes "vr_valid (verify_lifecycle_pack lib p opt)"
  shows "lifecycle_word (list_ex requires_compensation (gp_records p)) (map gr_kind (gp_records p)) \<and>
    (let n = vr_snapshot (verify_lifecycle_pack lib p opt);
         succeeded = ''execution_succeeded'' \<in> set (map gr_kind (gp_records p))
     in sn_execution n \<in> {''succeeded'', ''failed'', ''blocked''} \<and> (sn_execution n = ''succeeded'') = succeeded \<and>
        sn_effect n = (if succeeded then ''validated'' else []) \<and>
        (sn_containment n \<in> {''completed'', ''partial'', ''unresolved''}) = succeeded \<and>
        sn_compensation n = (if list_ex requires_compensation (gp_records p) then ''completed'' else []))"
proof -
  obtain s where run: "clean_run lib opt initial_pack (gp_records p) s" and acc: "accepting s"
    and inv: "pack_inv (map gr_kind (gp_records p)) s"
    and n: "vr_snapshot (verify_lifecycle_pack lib p opt) = ps_snapshot s" using valid_run [OF assms] .
  define ks where "ks = map gr_kind (gp_records p)"
  have need: "ps_comp_needed s \<longleftrightarrow> list_ex requires_compensation (gp_records p)"
    using clean_run_needed [OF run] by (simp add: initial_pack_def)
  note word = accepting_words [OF inv acc]
  note facts = accepting_snapshot [OF inv acc]
  show ?thesis using word facts unfolding need n Let_def by blast
qed

definition in_scope :: "verification_options \<Rightarrow> gait_record \<Rightarrow> bool" where
  "in_scope opt r \<longleftrightarrow> same_ref (gr_contract r) (vo_contract opt) \<and> gr_family r = vo_family opt \<and>
     gr_revision r = vo_revision opt \<and>
     (case gr_activation r of None \<Rightarrow> \<not> needs_activation (gr_kind r) | Some a \<Rightarrow> same_ref a (vo_activation opt)) \<and>
     (case typed_binding r of None \<Rightarrow> True
      | Some b \<Rightarrow> er_digest (eb_runtime b) = vo_runtime_digest opt \<and> er_digest (eb_decision b) = vo_readiness_digest opt \<and>
          er_digest (eb_policy b) = vo_policy_digest opt \<and> er_id (eb_target b) = vo_target opt \<and>
          er_id (eb_environment b) = vo_environment opt)"

definition bound_to :: "evidence_binding \<Rightarrow> gait_record \<Rightarrow> bool" where
  "bound_to b r \<longleftrightarrow> (case typed_binding r of None \<Rightarrow> True | Some c \<Rightarrow> same_binding b c)"

lemma option_fault_scoped:
  assumes "option_fault lib p opt = None"
  shows "er_id (vo_contract opt) \<noteq> []" "vo_family opt \<noteq> []" "vo_revision opt > 0" "er_id (vo_activation opt) \<noteq> []"
    "vo_runtime_digest opt \<noteq> []" "vo_readiness_digest opt \<noteq> []" "vo_policy_digest opt \<noteq> []"
    "vo_target opt \<noteq> []" "vo_environment opt \<noteq> []"
proof -
  have "\<not> gait_digest_ok []" by code_simp
  then have digest: "gait_digest_ok d \<Longrightarrow> d \<noteq> []" for d by auto
  from assms have "eref_is (vo_contract opt) ''action_contract'' contract_schema ''3'' \<and> vo_family opt \<noteq> [] \<and>
      vo_revision opt \<ge> 1 \<and> eref_is (vo_activation opt) ''activated_action_contract'' activation_schema ''1'' \<and>
      gait_digest_ok (vo_runtime_digest opt) \<and> gait_digest_ok (vo_readiness_digest opt) \<and>
      gait_digest_ok (vo_policy_digest opt) \<and> vo_target opt \<noteq> [] \<and> vo_environment opt \<noteq> []"
    unfolding option_fault_def Let_def by (simp split: if_splits add: not_less)
  then show "er_id (vo_contract opt) \<noteq> []" "vo_family opt \<noteq> []" "vo_revision opt > 0" "er_id (vo_activation opt) \<noteq> []"
    "vo_runtime_digest opt \<noteq> []" "vo_readiness_digest opt \<noteq> []" "vo_policy_digest opt \<noteq> []"
    "vo_target opt \<noteq> []" "vo_environment opt \<noteq> []"
    using digest by (auto simp: eref_is_def eref_ok_def)
qed

lemma lineage_in_scope:
  assumes "option_fault lib p opt = None" and "validate_record_lineage opt c r = None"
  shows "in_scope opt r"
proof -
  note o = option_fault_scoped [OF assms(1)]
  have base: "same_ref (gr_contract r) (vo_contract opt)" "gr_family r = vo_family opt" "gr_revision r = vo_revision opt"
    and act: "case gr_activation r of None \<Rightarrow> \<not> needs_activation (gr_kind r) | Some a \<Rightarrow> same_ref a (vo_activation opt)"
    and bind: "case typed_binding r of None \<Rightarrow> True | Some b \<Rightarrow> binding_lineage opt c r b = None"
    using assms(2) o unfolding validate_record_lineage_def by (auto split: if_splits option.splits)
  have "case typed_binding r of None \<Rightarrow> True
      | Some b \<Rightarrow> er_digest (eb_runtime b) = vo_runtime_digest opt \<and> er_digest (eb_decision b) = vo_readiness_digest opt \<and>
          er_digest (eb_policy b) = vo_policy_digest opt \<and> er_id (eb_target b) = vo_target opt \<and>
          er_id (eb_environment b) = vo_environment opt"
  proof (cases "typed_binding r")
    case (Some b)
    then have "binding_lineage opt c r b = None" using bind by simp
    then have "er_digest (eb_runtime b) = vo_runtime_digest opt \<and> er_digest (eb_decision b) = vo_readiness_digest opt \<and>
        er_digest (eb_policy b) = vo_policy_digest opt \<and> er_id (eb_target b) = vo_target opt \<and>
        er_id (eb_environment b) = vo_environment opt"
      using o(5-9) unfolding binding_lineage_def by (simp only: split: if_split_asm) simp_all
    then show ?thesis using Some by simp
  qed simp
  with base act show ?thesis by (simp add: in_scope_def)
qed

lemma clean_run_sound:
  assumes "clean_run lib opt s rs s'" and "option_fault lib p opt = None"
  shows "list_all (\<lambda>r. verify_gait_record lib (vo_key opt) r = None \<and> in_scope opt r) rs \<and> distinct (map gr_id rs) \<and>
    set (ps_seen s) \<inter> set (map gr_id rs) = {} \<and>
    (\<forall>b. ps_binding s = Some b \<longrightarrow> ps_binding s' = Some b \<and> list_all (bound_to b) rs) \<and>
    (\<forall>b. ps_binding s' = Some b \<longrightarrow> list_all (bound_to b) rs)"
  using assms
proof (induction rule: clean_run.induct)
  case (clean_cons s r t s1 rs s2)
  note f = kind_step_frame [OF clean_cons.hyps(4)]
  have c: "gr_id r \<notin> set (ps_seen s)" "verify_gait_record lib (vo_key opt) r = None"
    and lin: "validate_record_lineage opt (ps_binding s) r = None"
    using clean_cons.hyps(1) by (simp_all add: record_clean_def)
  have scope: "in_scope opt r" using lineage_in_scope [OF clean_cons.prems lin] .
  have old: "bound_to b r" if "ps_binding s = Some b" for b
    using lineage_same_binding [of opt b r] lin that by (auto simp: bound_to_def split: option.splits)
  have new: "bound_to b r" if "ps_binding s = None" "typed_binding r = Some b" for b
    using that by (simp add: bound_to_def same_binding_def)
  have none: "bound_to b r" if "typed_binding r = None" for b using that by (simp add: bound_to_def)
  have seen: "ps_seen s1 = gr_id r # ps_seen s" using f by (simp add: noted_def)
  have b1: "ps_binding s1 = (case ps_binding s of None \<Rightarrow> typed_binding r | Some b \<Rightarrow> Some b)" using f by (simp add: noted_def)
  note IH = clean_cons.IH [OF clean_cons.prems, unfolded seen b1]
  show ?case
    using IH c scope old new none
    by (cases "ps_binding s"; cases "typed_binding r") auto
qed simp

definition in_pack_order :: "gait_record \<Rightarrow> gait_record \<Rightarrow> bool" where
  "in_pack_order a b \<longleftrightarrow>
     (case (parse_time (gr_occurred_at a), parse_time (gr_occurred_at b)) of
        (Some s, Some t) \<Rightarrow> is_zero_time s \<or> s < t \<or> s = t \<and> gr_id a \<le> gr_id b
      | _ \<Rightarrow> False)"

lemma clean_run_order: "clean_run lib opt s rs s' \<Longrightarrow> successively in_pack_order rs"
proof (induction rule: clean_run.induct)
  case (clean_cons s r t s1 rs s2)
  have prev: "ps_previous s1 = t" "ps_previous_id s1 = gr_id r"
    using kind_step_frame [OF clean_cons.hyps(4)] by (simp_all add: noted_def)
  show ?case
  proof (cases rs)
    case (Cons r' rest)
    then obtain u where "parse_time (gr_occurred_at r') = Some u" "time_in_order r' u s1"
      using clean_cons.hyps(5) by (auto elim: clean_run_ConsE)
    then have "in_pack_order r r'" using clean_cons.hyps(2) prev by (simp add: in_pack_order_def time_in_order_def)
    then show ?thesis using clean_cons.IH Cons by simp
  qed simp
qed simp

text \<open>
  C18: a valid pack is authentic and replay-free: every record passes its own verification under the
  trusted key and lies in the caller's scope (contract, family, revision, activation, runtime, decision, policy,
  target and environment); the ids are distinct, the records in time order, and all evidence carries one
  binding. The released fixture key never makes the result authoritative.
\<close>

theorem valid_pack_authentic:
  assumes "vr_valid (verify_lifecycle_pack lib p opt)"
  shows "list_all (\<lambda>r. verify_gait_record lib (vo_key opt) r = None \<and> in_scope opt r) (gp_records p) \<and>
    distinct (map gr_id (gp_records p)) \<and> successively in_pack_order (gp_records p) \<and>
    (\<exists>b. list_all (bound_to b) (gp_records p)) \<and> within_activation opt \<and> vo_lifecycle_digest opt = gp_source_digest p \<and>
    vr_authoritative (verify_lifecycle_pack lib p opt) = (gl_key_id lib (vo_key opt) \<noteq> fixture_key_id)"
proof -
  from assms obtain s where o: "option_fault lib p opt = None" and w: "within_activation opt"
    and run: "clean_run lib opt initial_pack (gp_records p) s" and acc: "accepting s" by (auto simp: valid_iff_run)
  obtain b where b: "ps_binding s = Some b" using acc by (auto simp: accepting_def)
  have src: "vo_lifecycle_digest opt = gp_source_digest p" and key: "length (vo_key opt) = 32"
    using o unfolding option_fault_def Let_def by (simp_all split: if_splits)
  have "vr_authoritative (verify_lifecycle_pack lib p opt) = (gl_key_id lib (vo_key opt) \<noteq> fixture_key_id)"
    using assms key by (simp add: verify_lifecycle_pack_def pack_result_def is_fixture_key_def Let_def)
  then show ?thesis using clean_run_sound [OF run o] clean_run_order [OF run] b w src by blast
qed

section \<open>A pack\<close>

definition sample_digest :: string where "sample_digest = ''sha256:'' @ replicate 64 CHR ''a''"

definition sample_key :: string where "sample_key = replicate 32 (CHR 0x00)"

definition sample_eref :: "string \<Rightarrow> string \<Rightarrow> string \<Rightarrow> string \<Rightarrow> eref" where
  "sample_eref kind schema version product =
     \<lparr>er_digest = sample_digest, er_id = ''x'', er_kind = kind, er_schema_id = schema, er_schema_version = version,
      er_product = product\<rparr>"

definition sample_contract :: eref where
  "sample_contract = sample_eref ''action_contract'' contract_schema ''3'' ''wrkr''"

definition sample_activation :: eref where
  "sample_activation = sample_eref ''activated_action_contract'' activation_schema ''1'' ''gait''"

definition sample_correlation :: correlation where
  "sample_correlation = \<lparr>co_profile = ''1.0'', co_contract = Some sample_contract, co_event = None, co_causal = None,
     co_content_digest = sample_digest, co_mode = ''digest_bound''\<rparr>"

definition sample_binding :: evidence_binding where
  "sample_binding =
     \<lparr>eb_family = ''family'', eb_revision = 1, eb_contract = sample_contract, eb_activation = sample_activation,
      eb_runtime = sample_eref ''runtime_action'' runtime_schema ''1'' ''gait'',
      eb_readiness = sample_eref ''readiness'' readiness_schema ''1'' ''gait'',
      eb_decision = sample_eref ''decision'' readiness_schema ''1'' ''gait'',
      eb_policy = sample_eref ''policy'' ''s'' ''1'' ''gait'', eb_target = sample_eref ''target'' ''s'' ''1'' ''gait'',
      eb_environment = sample_eref ''environment'' ''s'' ''1'' ''gait'',
      eb_proofs = [sample_contract], eb_causals = [sample_activation], eb_correlation = sample_correlation\<rparr>"

definition sample_signature :: "string \<Rightarrow> signature" where
  "sample_signature digest = \<lparr>sg_alg = ''ed25519'', sg_key_id = ''kid'', sg_signed_digest = digest, sg_value = ''sig''\<rparr>"

definition sample_lib :: gait_lib where
  "sample_lib =
     \<lparr>gl_execution_digest = (\<lambda>_. Some sample_digest), gl_effect_digest = (\<lambda>_. Some sample_digest),
      gl_containment_digest = (\<lambda>_. Some sample_digest), gl_compensation_digest = (\<lambda>_. Some sample_digest),
      gl_record_digest = (\<lambda>r. case drop 18 (gr_occurred_at r) of [] \<Rightarrow> None
         | c # _ \<Rightarrow> if is_hex c then Some (c # replicate 63 CHR ''0'') else None), gl_decision_digest = (\<lambda>_. Some sample_digest),
      gl_pack_digest = (\<lambda>_. None), gl_key_id = (\<lambda>_. ''kid''), gl_verify = (\<lambda>_ _. Some True)\<rparr>"

definition sample_execution :: execution_evidence where
  "sample_execution =
     \<lparr>te_schema_id = execution_schema, te_schema_version = ''1'', te_id = ''gait-exec-1'', te_binding = sample_binding,
      te_event = sample_contract, te_occurred_at = ''2026-01-01T00:00:00Z'', te_fresh_until = ''2026-01-02T00:00:00Z'',
      te_outcome = ''blocked'', te_reason = ''policy'',
      te_provenance = \<lparr>pv_producer = ''gait'', pv_writer = ''w'', pv_verifier = ''v'',
        pv_public_key = replicate 43 CHR ''A'' @ ''='', pv_signature = sample_signature (replicate 64 CHR ''a'')\<rparr>,
      te_digest = sample_digest, xe_compensation_required = False\<rparr>"

definition sample_record :: "string \<Rightarrow> string \<Rightarrow> gait_record" where
  "sample_record second kind =
     (let d = second @ replicate 63 CHR ''0'' in
      \<lparr>gr_schema_id = lifecycle_schema, gr_schema_version = ''1'', gr_id = ''gait-lr-'' @ take 16 d, gr_kind = kind,
       gr_occurred_at = ''2026-01-01T00:00:0'' @ second @ ''Z'', gr_contract = sample_contract, gr_family = ''family'',
       gr_revision = 1, gr_proposal = Some sample_contract, gr_activation = Some sample_activation,
       gr_preconditions = [sample_contract], gr_decision = ''{}'',
       gr_evidence_refs = [evidence_eref ''execution'' ''gait-exec-1'' sample_digest execution_schema],
       gr_execution = (if kind = ''execution_blocked'' then Some sample_execution else None), gr_effect = None,
       gr_containment = None, gr_compensation = None, gr_reasons = [], gr_correlation = sample_correlation,
       gr_immutable = [], gr_signature = sample_signature d\<rparr>)"

definition sample_pack :: gait_pack where
  "sample_pack =
     \<lparr>gp_records = [sample_record ''1'' ''proposal_ingested'', sample_record ''2'' ''activation_requested'',
        sample_record ''3'' ''precondition_evaluated'', sample_record ''4'' ''decision_ready'', sample_record ''5'' ''activated'',
        sample_record ''6'' ''execution_blocked''],
      gp_source_digest = sample_digest\<rparr>"

definition sample_options :: verification_options where
  "sample_options =
     \<lparr>vo_key = sample_key, vo_time = 63900000000000000000, vo_allow_fixture = False, vo_contract = sample_contract,
      vo_family = ''family'', vo_revision = 1, vo_activation = sample_activation, vo_runtime_digest = sample_digest,
      vo_readiness_digest = sample_digest, vo_policy_digest = sample_digest, vo_target = ''x'', vo_environment = ''x'',
      vo_producer_version = ''v1'', vo_source_commit = replicate 40 CHR ''a'', vo_lifecycle_digest = sample_digest,
      vo_not_before = 63800000000000000000, vo_not_after = 64000000000000000000\<rparr>"


lemma sample_digest_ok: "gait_digest_ok sample_digest" by code_simp

lemma sample_eref_simps [simp]:
  "eref_ok (sample_eref kind schema version product) \<longleftrightarrow> kind \<noteq> [] \<and> schema \<noteq> [] \<and> version \<noteq> [] \<and> product \<noteq> []"
  "er_kind (sample_eref kind schema version product) = kind"
  "er_schema_id (sample_eref kind schema version product) = schema"
  "er_schema_version (sample_eref kind schema version product) = version"
  "er_product (sample_eref kind schema version product) = product"
  "er_digest (sample_eref kind schema version product) = sample_digest"
  "er_id (sample_eref kind schema version product) = ''x''"
  by (auto simp: eref_ok_def sample_eref_def sample_digest_ok)

lemma schemas_nonempty:
  "contract_schema \<noteq> []" "activation_schema \<noteq> []" "runtime_schema \<noteq> []" "readiness_schema \<noteq> []"
  by (simp_all add: contract_schema_def activation_schema_def runtime_schema_def readiness_schema_def)

lemma same_ref_refl [simp]: "same_ref r r" by (simp add: same_ref_def)

lemma sample_refs [simp]:
  "eref_is sample_contract ''action_contract'' contract_schema ''3''" "er_product sample_contract = ''wrkr''"
  "eref_is sample_activation ''activated_action_contract'' activation_schema ''1''" "er_product sample_activation = ''gait''"
  "eref_ok sample_contract" "eref_ok sample_activation" "er_digest sample_contract = sample_digest"
  by (simp_all add: eref_is_def sample_contract_def sample_activation_def schemas_nonempty)

lemma sample_binding_ok: "validate_binding sample_binding = None"
  by (simp add: validate_binding_def sample_binding_def correlation_ok_def sample_correlation_def schemas_nonempty
      eref_is_def [of "sample_eref k s v p" for k s v p])

lemma sample_provenance: "verify_typed_provenance sample_lib sample_key (te_provenance sample_execution) = None"
  by code_simp

lemma sample_times:
  "parse_time (te_occurred_at sample_execution) = Some 63902822400000000000"
  "parse_time (te_fresh_until sample_execution) = Some 63902908800000000000"
  "parse_time (gr_occurred_at (sample_record ''1'' k)) = Some 63902822401000000000"
  by code_simp+


lemma sample_execution_ok: "validate_execution sample_lib sample_execution = None"
proof -
  have f: "te_schema_id sample_execution = execution_schema" "te_schema_version sample_execution = ''1''"
    "te_id sample_execution = ''gait-exec-1''" "te_binding sample_execution = sample_binding"
    "te_event sample_execution = sample_contract" "te_outcome sample_execution = ''blocked''"
    "te_reason sample_execution = ''policy''" "te_digest sample_execution = sample_digest"
    "pv_producer (te_provenance sample_execution) = ''gait''" "pv_writer (te_provenance sample_execution) = ''w''"
    "pv_verifier (te_provenance sample_execution) = ''v''" "pv_signature (te_provenance sample_execution) = sample_signature (replicate 64 CHR ''a'')"
    by (simp_all add: sample_execution_def)
  have key: "pv_public_key (te_provenance sample_execution) \<noteq> []" by code_simp
  have d: "prefixed (gl_execution_digest sample_lib (strip_evidence sample_execution)) = Some sample_digest"
    "trim_prefix sample_digest ''sha256:'' = replicate 64 CHR ''a''"
    by (simp_all add: sample_lib_def prefixed_def sample_digest_def trim_prefix_def)
  show ?thesis
    unfolding validate_execution_def validate_common_def typed_schema_bad_def f Let_def sample_times option.case
      prod.case sample_binding_ok d
    by (simp add: has_prefix_def sample_digest_ok sample_signature_def key)
qed

lemma sample_seals:
  "verify_record_seal sample_lib sample_key (sample_record ''6'' ''execution_blocked'') = None"
  "list_all (\<lambda>(second, kind). verify_gait_record sample_lib sample_key (sample_record second kind) = None)
     [(''1'', ''proposal_ingested''), (''2'', ''activation_requested''), (''3'', ''precondition_evaluated''),
      (''4'', ''decision_ready''), (''5'', ''activated'')]"
  by code_simp+

lemma sample_blocked_ok: "verify_gait_record sample_lib sample_key (sample_record ''6'' ''execution_blocked'') = None"
proof -
  let ?r = "sample_record ''6'' ''execution_blocked''"
  have f: "gr_execution ?r = Some sample_execution" "gr_effect ?r = None" "gr_containment ?r = None" "gr_compensation ?r = None"
    "gr_kind ?r = ''execution_blocked''" "gr_schema_id ?r = lifecycle_schema" "gr_schema_version ?r = ''1''"
    "gr_correlation ?r = sample_correlation" "gr_contract ?r = sample_contract"
    by (simp_all add: sample_record_def Let_def)
  have v: "validate_typed sample_lib ?r = None"
    by (simp add: validate_typed_def typed_count_def f typed_checked_def first_fault_def List.map_filter_simps sample_execution_ok)
  have tv: "typed_view ?r = Some (typed_evidence.truncate sample_execution, ''execution'', execution_schema)"
    by (simp add: typed_view_def f)
  have tt: "typed_times ?r = Some (63902822400000000000, 63902908800000000000)"
    "typed_provenance ?r = Some (te_provenance sample_execution)"
    using sample_times(1,2) by (simp_all add: typed_times_def typed_provenance_def tv typed_evidence.defs)
  have "parse_time (gr_occurred_at ?r) = Some 63902822406000000000" by code_simp
  then have "record_time_ok ?r" by (simp add: record_time_ok_def tt)
  moreover have "correlation_ok sample_correlation sample_contract"
    by (simp add: correlation_ok_def sample_correlation_def)
  moreover have "gr_id ?r \<noteq> []" "length sample_key = 32" by (simp_all add: sample_record_def Let_def sample_key_def)
  ultimately show ?thesis
    by (simp add: verify_gait_record_def f v tt sample_provenance sample_seals(1))
qed


text \<open>Each record of the sample is clean where it stands.\<close>

lemma sample_lineage:
  "list_all (\<lambda>(second, kind). validate_record_lineage sample_options None (sample_record second kind) = None \<and>
      typed_eref (sample_record second kind) = None \<and> typed_binding (sample_record second kind) = None)
     [(''1'', ''proposal_ingested''), (''2'', ''activation_requested''), (''3'', ''precondition_evaluated''),
      (''4'', ''decision_ready''), (''5'', ''activated'')]"
  "validate_record_lineage sample_options None (sample_record ''6'' ''execution_blocked'') = None"
  "(case typed_eref (sample_record ''6'' ''execution_blocked'') of None \<Rightarrow> False
    | Some e \<Rightarrow> list_ex (\<lambda>x. same_ref x e) (gr_evidence_refs (sample_record ''6'' ''execution_blocked'')))"
  by code_simp+

lemma sample_options_ok: "option_fault sample_lib sample_pack sample_options = None" "within_activation sample_options"
  by code_simp+

definition sample_ready :: pack_state where
  \<comment> \<open>the verifier before the last record\<close>
  "sample_ready = fold (pack_step sample_lib sample_options) (take 5 (gp_records sample_pack)) initial_pack"

definition ready_facts :: "pack_state \<Rightarrow> bool" where
  "ready_facts s \<longleftrightarrow> ps_reasons s = [] \<and> ps_binding s = None \<and> ps_activated s \<and> \<not> ps_started s \<and> \<not> ps_terminal s \<and>
     ps_previous s = 63902822405000000000 \<and> gr_id (sample_record ''6'' ''execution_blocked'') \<notin> set (ps_seen s)"

lemma sample_ready_ok: "ready_facts sample_ready" by code_simp

lemmas sample_ready_facts = sample_ready_ok [unfolded ready_facts_def]

lemma sample_valid: "vr_valid (verify_lifecycle_pack sample_lib sample_pack sample_options)"
proof -
  let ?r = "sample_record ''6'' ''execution_blocked''"
  have f: "gr_execution ?r = Some sample_execution" "gr_activation ?r = Some sample_activation"
    "gr_kind ?r = ''execution_blocked''" by (simp_all add: sample_record_def Let_def)
  have x: "te_outcome sample_execution = ''blocked''" "te_binding sample_execution = sample_binding"
    "\<not> xe_compensation_required sample_execution" by (simp_all add: sample_execution_def)
  have tv: "typed_binding ?r = Some sample_binding"
    by (simp add: typed_binding_def typed_view_def f typed_evidence.defs x)
  have clean: "record_clean sample_lib sample_options sample_ready ?r"
    using sample_lineage(2,3) sample_blocked_ok
    by (auto simp: record_clean_def sample_ready_facts sample_options_def split: option.splits)
  have t: "parse_time (gr_occurred_at ?r) = Some 63902822406000000000" by code_simp
  have order: "time_in_order ?r 63902822406000000000 sample_ready"
    by (simp add: time_in_order_def sample_ready_facts)
  have causal: "has_causal sample_binding sample_activation" by (simp add: has_causal_def sample_binding_def)
  let ?s = "noted ?r 63902822406000000000 sample_ready"
  let ?f = "set_execution ''blocked'' (?s\<lparr>ps_terminal := True, ps_outcome := ''blocked'',
              ps_execution := execution_eref sample_execution, ps_comp_needed := False\<rparr>)"
  have flags: "ps_activated ?s" "\<not> ps_started ?s" "\<not> ps_terminal ?s"
    using sample_ready_facts by (simp_all add: noted_def)
  have "kind_step sample_lib sample_options ?r ?s = Inr ?f"
    by (simp add: kind_step_def setup_kinds_def execution_kinds_def f execution_step_def flags x causal)
  from pack_step_run [OF clean t order this]
  have "fold (pack_step sample_lib sample_options) (take 5 (gp_records sample_pack) @ [?r]) initial_pack = ?f"
    by (simp add: sample_ready_def)
  moreover have "take 5 (gp_records sample_pack) @ [?r] = gp_records sample_pack" by (simp add: sample_pack_def)
  ultimately have all: "fold (pack_step sample_lib sample_options) (gp_records sample_pack) initial_pack = ?f" by simp
  moreover have "ps_reasons ?f = []" by (simp add: set_execution_def noted_def sample_ready_facts)
  ultimately have "clean_run sample_lib sample_options initial_pack (gp_records sample_pack) ?f"
    by (metis fold_clean_run)
  moreover have "accepting ?f"
    by (simp add: accepting_def set_execution_def noted_def sample_ready_facts tv)
  ultimately show ?thesis
    unfolding valid_iff_run using sample_options_ok by (auto simp: sample_pack_def)
qed

theorem valid_pack_is_one_lifecycle_witness:
  "lifecycle_word (list_ex requires_compensation (gp_records sample_pack)) (map gr_kind (gp_records sample_pack))"
  using valid_pack_is_one_lifecycle [OF sample_valid] by blast

theorem valid_pack_authentic_witness: "distinct (map gr_id (gp_records sample_pack))"
  using valid_pack_authentic [OF sample_valid] by blast

end
