(* ===== verification/Artifact.thy ===== *)
theory Artifact
  imports GoValue
begin

text \<open>
  \<open>core/ingest/actioncontract/validate.go\<close> and \<open>types.go\<close>: the consumer boundary for Wrkr
  proposals and Gait activations. The JSON decoder, the schema compiler, the Proof library's
  canonical digest and signatures and SHA-256 are the record \<open>artifact_lib\<close>; the decoding of
  a decoded object into the Go structs, every check and every digest input is written out.
\<close>

section \<open>Documents\<close>

datatype jvalue =
    JNull
  | JBool bool
  | JNumber string                   \<comment> \<open>\<open>json.Number\<close>: the literal\<close>
  | JText string
  | JArr "jvalue list"
  | JObj "(string \<times> jvalue) list"

type_synonym jobj = "(string \<times> jvalue) list"
type_synonym jmap = "jobj option"    \<comment> \<open>\<open>None\<close> is the nil map\<close>

definition jget :: "jmap \<Rightarrow> string \<Rightarrow> jvalue option" where
  "jget m k = (case m of None \<Rightarrow> None | Some kvs \<Rightarrow> map_of kvs k)"

definition string_field :: "jmap \<Rightarrow> string \<Rightarrow> string" where
  "string_field m k = (case jget m k of Some (JText s) \<Rightarrow> trim_space s | _ \<Rightarrow> [])"

definition bool_field :: "jmap \<Rightarrow> string \<Rightarrow> bool" where
  "bool_field m k = (case jget m k of Some (JBool b) \<Rightarrow> b | _ \<Rightarrow> False)"

definition max_int64 :: int where "max_int64 = 9223372036854775807"

definition parse_int64 :: "string \<Rightarrow> int \<times> bool" where
  \<comment> \<open>\<open>strconv.ParseInt(s, 10, 64)\<close>: the value, and whether there is no error; a value out of range
     is cut off\<close>
  "parse_int64 s =
    (let neg = (case s of c # _ \<Rightarrow> c = CHR ''-'' | [] \<Rightarrow> False);
         ds = (case s of c # rest \<Rightarrow> if c = CHR ''-'' \<or> c = CHR ''+'' then rest else s | [] \<Rightarrow> s)
     in if ds = [] \<or> \<not> list_all is_digit ds then (0, False)
        else let n = digits_value ds in
          if neg then (if n > max_int64 + 1 then (- max_int64 - 1, False) else (- n, True))
          else (if n > max_int64 then (max_int64, False) else (n, True)))"

definition int_field :: "jmap \<Rightarrow> string \<Rightarrow> int" where
  "int_field m k = (case jget m k of Some (JNumber s) \<Rightarrow> fst (parse_int64 s) | _ \<Rightarrow> 0)"

definition json_items :: "jmap \<Rightarrow> string \<Rightarrow> jvalue list" where
  "json_items m k = (case jget m k of Some (JArr xs) \<Rightarrow> xs | _ \<Rightarrow> [])"

definition string_array :: "jmap \<Rightarrow> string \<Rightarrow> string list" where
  "string_array m k = List.map_filter (\<lambda>v. case v of JText s \<Rightarrow> Some (trim_space s) | _ \<Rightarrow> None) (json_items m k)"

definition object_array :: "jmap \<Rightarrow> string \<Rightarrow> jmap list" where
  "object_array m k = List.map_filter (\<lambda>v. case v of JObj kvs \<Rightarrow> Some (Some kvs) | _ \<Rightarrow> None) (json_items m k)"

definition object_field :: "jmap \<Rightarrow> string \<Rightarrow> jmap" where
  "object_field m k = (case jget m k of Some (JObj kvs) \<Rightarrow> Some kvs | _ \<Rightarrow> None)"

definition non_empty :: "string list \<Rightarrow> string list" where
  "non_empty vs = filter (\<lambda>v. trim_space v \<noteq> []) vs"

definition contains_string :: "string list \<Rightarrow> string \<Rightarrow> bool" where
  "contains_string vs wanted = list_ex (\<lambda>v. trim_space v = trim_space wanted) vs"

definition format_bool :: "bool \<Rightarrow> string" where
  "format_bool b = (if b then ''true'' else ''false'')"

section \<open>Decoding into structs\<close>

text \<open>
  \<open>json.Unmarshal\<close> matches the keys of an object without regard to case; a later occurrence
  overwrites an earlier one, null leaves a scalar alone, and a value of another type is an error.
\<close>

definition occurrences :: "jobj \<Rightarrow> string \<Rightarrow> jvalue list" where
  "occurrences kvs name = map snd (filter (\<lambda>(k, _). to_lower k = name) kvs)"

definition decode_field :: "(jvalue \<Rightarrow> 'a \<Rightarrow> 'a option) \<Rightarrow> 'a \<Rightarrow> jobj \<Rightarrow> string \<Rightarrow> 'a option" where
  "decode_field assign zero kvs name =
     fold (\<lambda>v acc. Option.bind acc (assign v)) (occurrences kvs name) (Some zero)"

definition decode_string :: "jobj \<Rightarrow> string \<Rightarrow> string option" where
  "decode_string = decode_field (\<lambda>v old. case v of JText s \<Rightarrow> Some s | JNull \<Rightarrow> Some old | _ \<Rightarrow> None) []"

definition decode_bool :: "jobj \<Rightarrow> string \<Rightarrow> bool option" where
  "decode_bool = decode_field (\<lambda>v old. case v of JBool b \<Rightarrow> Some b | JNull \<Rightarrow> Some old | _ \<Rightarrow> None) False"

definition decode_int :: "jobj \<Rightarrow> string \<Rightarrow> int option" where
  "decode_int = decode_field (\<lambda>v old. case v of
       JNumber s \<Rightarrow> (case parse_int64 s of (n, ok) \<Rightarrow> if ok then Some n else None)
     | JNull \<Rightarrow> Some old | _ \<Rightarrow> None) 0"

definition decode_strings :: "jobj \<Rightarrow> string \<Rightarrow> string list option" where
  "decode_strings = decode_field (\<lambda>v old. case v of
       JArr xs \<Rightarrow> those (map (\<lambda>x. case x of JText s \<Rightarrow> Some s | JNull \<Rightarrow> Some [] | _ \<Rightarrow> None) xs)
     | JNull \<Rightarrow> Some [] | _ \<Rightarrow> None) []"

definition decode_map :: "jobj \<Rightarrow> string \<Rightarrow> jmap option" where
  "decode_map = decode_field (\<lambda>v old. case v of JObj kvs \<Rightarrow> Some (Some kvs) | JNull \<Rightarrow> Some None | _ \<Rightarrow> None) None"

definition decode_struct :: "(jobj \<Rightarrow> 'a option) \<Rightarrow> 'a \<Rightarrow> jobj \<Rightarrow> string \<Rightarrow> 'a option" where
  \<comment> \<open>a nested struct, here without merging several occurrences\<close>
  "decode_struct decode zero = decode_field (\<lambda>v old. case v of JObj kvs \<Rightarrow> decode kvs | JNull \<Rightarrow> Some old | _ \<Rightarrow> None) zero"

section \<open>Types\<close>

definition proposal_schema_id :: string where
  "proposal_schema_id = ''https://wrkr.dev/schemas/v1/proposed-action-contract-artifact.schema.json''"

definition activation_schema_id :: string where
  "activation_schema_id = ''https://gait.dev/schemas/v1/activated-action-contract-artifact.schema.json''"

definition proposal_schema_version :: string where "proposal_schema_version = ''1''"
definition proposal_contract_version :: string where "proposal_contract_version = ''3''"
definition proposal_producer :: string where "proposal_producer = ''wrkr''"
definition activation_schema_version :: string where "activation_schema_version = ''1''"
definition activation_contract_version :: string where "activation_contract_version = ''1''"

definition status_pass :: string where "status_pass = ''pass''"
definition status_invalid :: string where "status_invalid = ''invalid''"
definition status_unverifiable :: string where "status_unverifiable = ''unverifiable''"

record producer =
  pm_name :: string
  pm_artifact_version :: string
  pm_contract_version :: string

record proposal =
  pl_raw :: string
  pl_data :: jobj
  pl_schema_id :: string
  pl_schema_version :: string
  pl_artifact_id :: string
  pl_contract_id :: string
  pl_family :: string
  pl_revision :: int
  pl_producer :: producer
  pl_scans :: "string list"
  pl_compositions :: "string list"
  pl_resolution_key :: string
  pl_creation :: "string list"
  pl_digest :: string
  pl_report_only :: bool
  pl_contract :: jmap
  pl_raw_digest :: string

record proposal_ref =
  pf_artifact_id :: string
  pf_digest :: string
  pf_contract_id :: string
  pf_family :: string
  pf_revision :: int
  pf_schema_id :: string
  pf_schema_version :: string
  pf_contract_version :: string

record activation =
  an_raw :: string
  an_data :: jobj
  an_schema_id :: string
  an_schema_version :: string
  an_artifact_id :: string
  an_contract_id :: string
  an_family :: string
  an_revision :: int
  an_producer :: producer
  an_proposal :: proposal_ref
  an_policy_digest :: string
  an_principal :: string
  an_authority :: "string list"
  an_target :: string
  an_environment :: string
  an_mode :: string
  an_not_before :: string
  an_not_after :: string
  an_exceptions :: "string list"
  an_report_only :: bool
  an_development :: bool
  an_signature :: signature
  an_raw_digest :: string

record selection =
  se_artifact_id :: string
  se_artifact_digest :: string
  se_digest :: string
  se_contract_id :: string
  se_family :: string
  se_revision :: int
  se_current :: bool
  se_candidates :: int

record validation_options =
  vp_now :: instant
  vp_skip_temporal :: bool
  vp_key :: string
  vp_proposal :: "proposal option"
  vp_selection :: "selection option"
  vp_revision :: int
  vp_allow_development :: bool

record validation_result =
  vd_valid :: bool
  vd_status :: string
  vd_signature_verified :: bool
  vd_reasons :: "string list"
  vd_digest :: string
  vd_raw_digest :: string

record artifact_lib =
  al_decode :: "string \<Rightarrow> jobj option"           \<comment> \<open>\<open>decodeMap\<close>\<close>
  al_schema :: "string \<Rightarrow> string \<Rightarrow> bool"        \<comment> \<open>\<open>validateSchema\<close> of bytes against a schema id\<close>
  al_jcs :: "jobj \<Rightarrow> string option"             \<comment> \<open>\<open>json.Marshal\<close> and \<open>proofcanon.DigestJCS\<close>\<close>
  al_sha256 :: "string \<Rightarrow> string"               \<comment> \<open>the hexadecimal digest\<close>
  al_verify :: "string \<Rightarrow> signature \<Rightarrow> bool option"
  al_key_id :: "string \<Rightarrow> string"
  al_activation :: "string \<Rightarrow> activation option"  \<comment> \<open>the strict decoding of \<open>ParseActivation\<close>\<close>

definition ac_malformed :: string where "ac_malformed = ''artifact_malformed''"
definition ac_schema :: string where "ac_schema = ''schema_validation_failed''"
definition ac_unsupported_schema :: string where "ac_unsupported_schema = ''schema_unsupported''"
definition ac_unsupported_producer :: string where "ac_unsupported_producer = ''producer_unsupported''"
definition ac_report_only :: string where "ac_report_only = ''report_only_required''"
definition ac_identity :: string where "ac_identity = ''identity_mismatch''"
definition ac_digest :: string where "ac_digest = ''canonical_digest_mismatch''"
definition ac_contract_digest :: string where "ac_contract_digest = ''contract_digest_mismatch''"
definition ac_revision :: string where "ac_revision = ''revision_mismatch''"
definition ac_binding :: string where "ac_binding = ''proposal_binding_mismatch''"
definition ac_signature :: string where "ac_signature = ''signature_invalid''"
definition ac_unverifiable :: string where "ac_unverifiable = ''signature_unverifiable''"
definition ac_validity :: string where "ac_validity = ''validity_invalid''"
definition ac_expired :: string where "ac_expired = ''activation_expired''"
definition ac_not_yet :: string where "ac_not_yet = ''activation_not_yet_valid''"
definition ac_current_revision :: string where "ac_current_revision = ''revision_not_current''"
definition ac_selection_required :: string where "ac_selection_required = ''selection_evidence_required''"
definition ac_selection_mismatch :: string where "ac_selection_mismatch = ''selection_mismatch''"
definition ac_selection_not_current :: string where "ac_selection_not_current = ''selection_not_current''"
definition ac_selection_ambiguous :: string where "ac_selection_ambiguous = ''selection_ambiguous''"
definition ac_evaluation_time :: string where "ac_evaluation_time = ''evaluation_time_required''"
definition ac_development :: string where "ac_development = ''development_signing_not_allowed''"
definition ac_development_unverified :: string where "ac_development_unverified = ''development_signing_unverifiable''"
definition ac_unreadable :: string where "ac_unreadable = ''artifact_unreadable''"
definition ac_stale :: string where "ac_stale = ''proposal_stale''"
definition ac_contradictory :: string where "ac_contradictory = ''proposal_contradictory''"

lemmas ac_reasons = ac_malformed_def ac_schema_def ac_unsupported_schema_def ac_unsupported_producer_def
  ac_report_only_def ac_identity_def ac_digest_def ac_contract_digest_def ac_revision_def ac_binding_def
  ac_signature_def ac_unverifiable_def ac_validity_def ac_expired_def ac_not_yet_def ac_current_revision_def
  ac_selection_required_def ac_selection_mismatch_def ac_selection_not_current_def ac_selection_ambiguous_def
  ac_evaluation_time_def ac_development_def ac_development_unverified_def ac_unreadable_def ac_stale_def
  ac_contradictory_def

section \<open>Digests of a contract\<close>

definition unit_separator :: string where "unit_separator = [CHR 0x1F]"

definition prefixed_sha :: "artifact_lib \<Rightarrow> string \<Rightarrow> string" where
  "prefixed_sha lib s = ''sha256:'' @ al_sha256 lib s"

definition short_hash :: "artifact_lib \<Rightarrow> string \<Rightarrow> string" where
  "short_hash lib s = take 16 (al_sha256 lib (trim_space s))"

definition contract_family_id :: "artifact_lib \<Rightarrow> jmap \<Rightarrow> string" where
  "contract_family_id lib c =
     (let constraints = map (\<lambda>i. string_field i ''key'' @ ''='' @ string_field i ''value'')
            (object_array c ''target_constraints'')
      in ''pacf-'' @ short_hash lib (join unit_separator
        [string_field c ''composition_ref'',
         string_field c ''required_credential_mode'' @ ''|'' @ itoa (int_field c ''maximum_delegation_depth'') @ ''|'' @
           string_field c ''expected_outcome_class'' @ ''|'' @ string_field c ''resolution_key'',
         join ''|'' constraints]))"

definition scalar_parts :: "jmap \<Rightarrow> string list" where
  "scalar_parts c =
     [''version='' @ string_field c ''contract_version'', ''kind='' @ string_field c ''contract_kind'',
      ''composition='' @ string_field c ''composition_ref'', ''resolution='' @ string_field c ''resolution_key'',
      ''credential_mode='' @ string_field c ''required_credential_mode'',
      ''delegation_depth='' @ itoa (int_field c ''maximum_delegation_depth''),
      ''outcome='' @ string_field c ''expected_outcome_class'',
      ''compensation='' @ format_bool (bool_field c ''compensation_required''),
      ''expires_at='' @ string_field c ''expires_at'', ''report_only='' @ format_bool (bool_field c ''report_only''),
      ''readiness='' @ string_field c ''readiness_state'', ''revision='' @ itoa (int_field c ''revision''),
      ''supersedes='' @ string_field c ''supersedes_ref'',
      ''authority_readiness='' @ string_field c ''authority_readiness_state'']"

definition transition_parts :: "jmap \<Rightarrow> string \<Rightarrow> string \<Rightarrow> string list" where
  "transition_parts c key pre =
     map (\<lambda>i. pre @ join ''|'' (map (string_field i)
           [''transition_id'', ''from_stage_id'', ''to_stage_id'', ''from_role'', ''to_role'', ''reason'']))
       (object_array c key)"

definition array_parts :: "jmap \<Rightarrow> string \<Rightarrow> string \<Rightarrow> string list" where
  "array_parts c key pre = map (\<lambda>v. pre @ v) (string_array c key)"

definition comma :: "jmap \<Rightarrow> string \<Rightarrow> string" where
  "comma i key = join '','' (string_array i key)"

definition authority_parts :: "jmap \<Rightarrow> string list" where
  "authority_parts c =
     map (\<lambda>i. ''authority='' @ join ''|'' (map (string_field i)
           [''requirement_id'', ''kind'', ''required_constraint'', ''observed_value'', ''evidence_state'',
            ''freshness_state''] @ [comma i ''evidence_refs'', comma i ''reason_codes'']))
       (object_array c ''authority_requirements'')"

definition precondition_parts :: "jmap \<Rightarrow> string list" where
  "precondition_parts c =
     map (\<lambda>i. ''precondition='' @ join ''|''
           (map (string_field i) [''requirement_id'', ''kind'', ''required_constraint'', ''observed_value'',
              ''observed_result''] @ [comma i ''acceptable_producers''] @
            map (string_field i) [''max_age'', ''evidence_state'', ''freshness_state''] @
            [comma i ''evidence_refs'', comma i ''reason_codes'']))
       (object_array c ''preconditions'')"

definition confirmation_part :: "jmap \<Rightarrow> string" where
  "confirmation_part i = ''confirmation='' @ join ''|''
     [string_field i ''mode'', format_bool (bool_field i ''required''), string_field i ''evidence_state'',
      string_field i ''freshness_state'', comma i ''evidence_refs'', comma i ''reason_codes'']"

definition approval_part :: "jmap \<Rightarrow> string" where
  "approval_part i = ''approval='' @ join ''|''
     [format_bool (bool_field i ''required''), comma i ''approver_roles'', itoa (int_field i ''minimum_approvals''),
      comma i ''separation_of_duties'', string_field i ''scope_digest'', string_field i ''validity_window'',
      comma i ''reapproval_triggers'', string_field i ''evidence_state'', string_field i ''freshness_state'',
      comma i ''evidence_refs'', comma i ''reason_codes'']"

definition compensation_part :: "jmap \<Rightarrow> string" where
  "compensation_part i = ''compensation='' @ join ''|''
     [format_bool (bool_field i ''required''), string_field i ''kind'', string_field i ''procedure_ref'',
      string_field i ''target'', string_field i ''execution_window'',
      format_bool (bool_field i ''verification_required''), comma i ''acceptable_producers'',
      string_field i ''evidence_state'', string_field i ''freshness_state'', comma i ''evidence_refs'',
      comma i ''reason_codes'']"

definition requirement_part :: "(jmap \<Rightarrow> string) \<Rightarrow> jmap \<Rightarrow> string \<Rightarrow> string list" where
  "requirement_part part c key = (case object_field c key of None \<Rightarrow> [] | Some i \<Rightarrow> [part (Some i)])"

definition contract_parts :: "jmap \<Rightarrow> string list" where
  "contract_parts c =
     scalar_parts c @ transition_parts c ''allowed_transitions'' ''allow='' @
     transition_parts c ''prohibited_transitions'' ''prohibit='' @
     transition_parts c ''approval_required_transitions'' ''approval='' @
     map (\<lambda>i. ''target='' @ string_field i ''key'' @ ''='' @ string_field i ''value'')
       (object_array c ''target_constraints'') @
     array_parts c ''evidence_requirements'' ''evidence='' @ array_parts c ''acceptable_countersigners'' ''countersigner='' @
     array_parts c ''source_digests'' ''digest='' @ array_parts c ''reason_codes'' ''reason='' @
     authority_parts c @ precondition_parts c @ requirement_part confirmation_part c ''confirmation_requirement'' @
     requirement_part approval_part c ''approval_requirement'' @
     requirement_part compensation_part c ''compensation_requirement''"

definition contract_content_digest :: "artifact_lib \<Rightarrow> jmap \<Rightarrow> string" where
  "contract_content_digest lib c = prefixed_sha lib (join unit_separator (sort (contract_parts c)))"

definition contract_id_of :: "artifact_lib \<Rightarrow> jmap \<Rightarrow> string" where
  \<comment> \<open>the digest is never empty, so neither is the id\<close>
  "contract_id_of lib c =
     ''pac-'' @ short_hash lib (contract_family_id lib c @ ''|'' @ contract_content_digest lib c @ ''|'' @
       string_field c ''contract_version'')"

definition decode_producer :: "jobj \<Rightarrow> producer option" where
  "decode_producer kvs =
     Option.bind (decode_string kvs ''name'') (\<lambda>n.
     Option.bind (decode_string kvs ''artifact_schema_version'') (\<lambda>a.
     map_option (\<lambda>c. \<lparr>pm_name = n, pm_artifact_version = a, pm_contract_version = c\<rparr>)
       (decode_string kvs ''contract_schema_version'')))"

definition zero_producer :: producer where
  "zero_producer = \<lparr>pm_name = [], pm_artifact_version = [], pm_contract_version = []\<rparr>"

definition producer_value :: "producer \<Rightarrow> jvalue" where
  "producer_value p = JObj [(''name'', JText (pm_name p)), (''artifact_schema_version'', JText (pm_artifact_version p)),
     (''contract_schema_version'', JText (pm_contract_version p))]"

definition payload_keys :: "string list" where
  "payload_keys = [''schema_id'', ''schema_version'', ''contract_id'', ''contract_family_id'', ''revision'', ''producer'',
     ''source_scan_refs'', ''composition_refs'', ''creation_evidence'', ''variant'', ''report_only'', ''contract'']"

definition printed_blank :: "jvalue \<Rightarrow> bool" where
  \<comment> \<open>\<open>strings.TrimSpace(fmt.Sprint(v)) == ""\<close>; other values print at least a bracket or a word\<close>
  "printed_blank v = (case v of JText s \<Rightarrow> blank s | JNumber s \<Rightarrow> blank s | _ \<Rightarrow> False)"

definition proposal_payload :: "jobj \<Rightarrow> jobj option" where
  "proposal_payload data =
    (let kept = List.map_filter (\<lambda>k. map_option (Pair k) (map_of data k)) payload_keys;
         tail = (case map_of data ''resolution_key'' of
             Some v \<Rightarrow> if printed_blank v then [] else [(''resolution_key'', v)] | None \<Rightarrow> [])
     in case map_of data ''producer'' of
          None \<Rightarrow> Some (kept @ tail)
        | Some v \<Rightarrow>
           (case (case v of JObj kvs \<Rightarrow> decode_producer kvs | JNull \<Rightarrow> Some zero_producer | _ \<Rightarrow> None) of
              None \<Rightarrow> None
            | Some p \<Rightarrow> Some (AList.update ''producer'' (producer_value p) kept @ tail)))"

definition with_prefix :: "string \<Rightarrow> string" where
  "with_prefix d = (if has_prefix d ''sha256:'' then d else ''sha256:'' @ d)"

definition proposal_canonical_digest :: "artifact_lib \<Rightarrow> jobj \<Rightarrow> string option" where
  "proposal_canonical_digest lib data =
     Option.bind (proposal_payload data) (\<lambda>payload. map_option with_prefix (al_jcs lib payload))"

definition raw_digest :: "artifact_lib \<Rightarrow> string \<Rightarrow> string" where
  "raw_digest lib raw = prefixed_sha lib raw"

section \<open>Proposals\<close>

definition parse_proposal :: "artifact_lib \<Rightarrow> string \<Rightarrow> (string list, proposal) result" where
  \<comment> \<open>the reasons of the validation error on the left\<close>
  "parse_proposal lib raw =
    (case al_decode lib raw of
       None \<Rightarrow> Inl [ac_malformed]
     | Some d \<Rightarrow>
        if \<not> al_schema lib raw proposal_schema_id then Inl [ac_schema]
        else case (those [decode_string d ''schema_id'', decode_string d ''schema_version'', decode_string d ''artifact_id'',
              decode_string d ''contract_id'', decode_string d ''contract_family_id'', decode_string d ''resolution_key'',
              decode_string d ''canonical_content_digest''],
            those [decode_strings d ''source_scan_refs'', decode_strings d ''composition_refs'',
              decode_strings d ''creation_evidence''],
            decode_int d ''revision'', decode_bool d ''report_only'',
            decode_struct decode_producer zero_producer d ''producer'', decode_map d ''contract'') of
          (Some [si, sv, ai, ci, fi, rk, cd], Some [sr, cr, ce], Some rv, Some ro, Some pm, Some c) \<Rightarrow>
            Inr \<lparr>pl_raw = raw, pl_data = d, pl_schema_id = si, pl_schema_version = sv, pl_artifact_id = ai,
              pl_contract_id = ci, pl_family = fi, pl_revision = rv, pl_producer = pm, pl_scans = sr,
              pl_compositions = cr, pl_resolution_key = rk, pl_creation = ce, pl_digest = cd, pl_report_only = ro,
              pl_contract = c, pl_raw_digest = raw_digest lib raw\<rparr>
        | _ \<Rightarrow> Inl [ac_malformed])"

definition id_pattern :: "string \<Rightarrow> nat \<Rightarrow> nat \<Rightarrow> string \<Rightarrow> bool" where
  \<comment> \<open>\<open>^<pre>[a-f0-9]{lo,hi}$\<close>\<close>
  "id_pattern pre lo hi s \<longleftrightarrow>
     prefix pre s \<and> (let h = drop (length pre) s in lo \<le> length h \<and> length h \<le> hi \<and> list_all is_hex h)"

definition artifact_id_ok :: "string \<Rightarrow> bool" where "artifact_id_ok s = id_pattern ''paca-'' 16 16 s"
definition activation_id_ok :: "string \<Rightarrow> bool" where "activation_id_ok s = id_pattern ''gact-'' 16 16 s"
definition contract_id_ok :: "string \<Rightarrow> bool" where "contract_id_ok s = id_pattern ''pac-'' 8 64 s"
definition family_id_ok :: "string \<Rightarrow> bool" where "family_id_ok s = id_pattern ''pacf-'' 8 64 s"

definition parse_utc :: "string \<Rightarrow> instant option" where
  "parse_utc s = parse_rfc3339 (trim_space s)"

definition observation_reasons :: "jmap \<Rightarrow> string list" where
  "observation_reasons c = concat (map (\<lambda>o'.
       flag (string_field o' ''freshness_state'' \<in> {''stale'', ''expired''}) ac_stale @
       flag (string_field o' ''kind'' = ''supersession'' \<and> string_field o' ''evidence_state'' = ''contradictory'')
         ac_contradictory) (object_array c ''lifecycle_observations''))"

definition contract_mismatch :: "proposal \<Rightarrow> bool" where
  "contract_mismatch p \<longleftrightarrow>
     pl_contract p = None \<or> string_field (pl_contract p) ''contract_id'' \<noteq> pl_contract_id p \<or>
     string_field (pl_contract p) ''contract_family_id'' \<noteq> pl_family p \<or>
     int_field (pl_contract p) ''revision'' \<noteq> pl_revision p \<or>
     string_field (pl_contract p) ''contract_version'' \<noteq> proposal_contract_version \<or>
     string_field (pl_contract p) ''contract_kind'' \<noteq> ''proposed_action_contract'' \<or>
     \<not> bool_field (pl_contract p) ''report_only''"

definition expiry_reasons :: "proposal \<Rightarrow> validation_options \<Rightarrow> string list" where
  "expiry_reasons p opt =
    (let expires = string_field (pl_contract p) ''expires_at'' in
     if expires \<noteq> [] \<and> \<not> vp_skip_temporal opt then
       (if is_zero_time (vp_now opt) then [ac_evaluation_time]
        else case parse_utc expires of
            None \<Rightarrow> [ac_validity]
          | Some t \<Rightarrow> flag (t < vp_now opt) ac_validity)
     else [])"

definition proposal_reasons :: "artifact_lib \<Rightarrow> proposal \<Rightarrow> validation_options \<Rightarrow> string list" where
  "proposal_reasons lib p opt =
    (let c = pl_contract p; composition = string_field c ''composition_ref'';
         resolution = trim_space (pl_resolution_key p); embedded = string_field c ''contract_content_digest''
     in flag (\<not> al_schema lib (pl_raw p) proposal_schema_id) ac_schema @
        flag (pl_schema_id p \<noteq> proposal_schema_id \<or> pl_schema_version p \<noteq> proposal_schema_version)
          ac_unsupported_schema @
        flag (pm_name (pl_producer p) \<noteq> proposal_producer \<or>
          pm_artifact_version (pl_producer p) \<noteq> proposal_schema_version) ac_unsupported_producer @
        flag (pm_contract_version (pl_producer p) \<noteq> proposal_contract_version) ac_unsupported_schema @
        flag (\<not> pl_report_only p) ac_report_only @
        flag (\<not> artifact_id_ok (pl_artifact_id p) \<or> \<not> contract_id_ok (pl_contract_id p) \<or>
          \<not> family_id_ok (pl_family p) \<or> pl_revision p < 1) ac_identity @
        flag (non_empty (pl_scans p) = [] \<or> non_empty (pl_compositions p) = [] \<or> non_empty (pl_creation p) = [])
          ac_identity @
        flag (contract_mismatch p) ac_identity @
        flag (composition = [] \<or> \<not> contains_string (pl_compositions p) composition) ac_identity @
        flag (resolution \<noteq> [] \<and> string_field c ''resolution_key'' \<noteq> [] \<and>
          resolution \<noteq> string_field c ''resolution_key'') ac_identity @
        flag (pl_revision p > 1 \<and> string_field c ''supersedes_ref'' = []) ac_revision @
        observation_reasons c @
        flag (string_field c ''readiness_state'' = ''blocked_by_contradiction'' \<or>
          string_field c ''authority_readiness_state'' = ''blocked_by_contradiction'') ac_contradictory @
        flag (proposal_canonical_digest lib (pl_data p) \<noteq> Some (pl_digest p)) ac_digest @
        flag (\<not> digest_ok embedded \<or> contract_content_digest lib c \<noteq> embedded) ac_contract_digest @
        flag (contract_family_id lib c \<noteq> pl_family p \<or> contract_id_of lib c \<noteq> pl_contract_id p) ac_identity @
        flag (vp_revision opt > 0 \<and> vp_revision opt \<noteq> pl_revision p) ac_revision @
        expiry_reasons p opt)"

definition validate_proposal :: "artifact_lib \<Rightarrow> proposal \<Rightarrow> validation_options \<Rightarrow> validation_result" where
  "validate_proposal lib p opt =
    (let reasons = unique_sorted_seen (proposal_reasons lib p opt) in
     \<lparr>vd_valid = (reasons = []),
      vd_status = (if reasons = [] then status_pass
        else if ac_evaluation_time \<in> set reasons then status_unverifiable else status_invalid),
      vd_signature_verified = False, vd_reasons = reasons,
      vd_digest = (if proposal_canonical_digest lib (pl_data p) = Some (pl_digest p) then pl_digest p else []),
      vd_raw_digest = pl_raw_digest p\<rparr>)"

definition stable_reason_codes :: "string list option \<Rightarrow> string list" where
  \<comment> \<open>of an error: the reasons of a validation error, \<open>None\<close> for any other error\<close>
  "stable_reason_codes err = (case err of None \<Rightarrow> [ac_unreadable]
     | Some rs \<Rightarrow> if rs = [] then [ac_unreadable] else unique_sorted_seen rs)"

definition acceptable_proposal :: "validation_result \<Rightarrow> bool" where
  "acceptable_proposal r \<longleftrightarrow>
     vd_valid r \<or> vd_reasons r \<noteq> [] \<and> list_all (\<lambda>x. x = ac_stale \<or> x = ac_contradictory) (vd_reasons r)"

section \<open>Selections\<close>

record scenario =
  sc_artifact_id :: string
  sc_artifact_digest :: string
  sc_proposal_artifact :: string
  sc_proposal_digest :: string
  sc_digest :: string
  sc_contract_id :: string
  sc_family :: string
  sc_revision :: int
  sc_current :: bool

record manifest =
  mf_version :: string
  mf_producer :: string
  mf_artifact_schema :: string
  mf_contract_schema :: string
  mf_scenarios :: "scenario list"

definition selection_matches :: "artifact_lib \<Rightarrow> selection \<Rightarrow> proposal \<Rightarrow> bool" where
  "selection_matches lib s p \<longleftrightarrow>
     se_candidates s \<le> 1 \<and> se_current s \<and> se_artifact_id s = pl_artifact_id p \<and>
     se_artifact_digest s = raw_digest lib (pl_raw p) \<and> se_digest s = pl_digest p \<and>
     se_contract_id s = pl_contract_id p \<and> se_family s = pl_family p \<and> se_revision s = pl_revision p"

definition scenario_artifact :: "scenario \<Rightarrow> string" where
  "scenario_artifact s = (if sc_artifact_id s = [] then sc_proposal_artifact s else sc_artifact_id s)"

definition scenario_selection :: "scenario \<Rightarrow> int \<Rightarrow> selection" where
  "scenario_selection s n =
     \<lparr>se_artifact_id = scenario_artifact s,
      se_artifact_digest = (if sc_artifact_digest s = [] then sc_proposal_digest s else sc_artifact_digest s),
      se_digest = sc_digest s, se_contract_id = sc_contract_id s, se_family = sc_family s,
      se_revision = sc_revision s, se_current = sc_current s, se_candidates = n\<rparr>"

definition zero_selection :: selection where
  "zero_selection = \<lparr>se_artifact_id = [], se_artifact_digest = [], se_digest = [], se_contract_id = [],
     se_family = [], se_revision = 0, se_current = False, se_candidates = 0\<rparr>"

definition select_step :: "proposal \<Rightarrow> scenario \<Rightarrow> selection \<times> int \<times> int \<Rightarrow> selection \<times> int \<times> int" where
  \<comment> \<open>one iteration: the last match, the number of matches, the highest revision of the family\<close>
  "select_step p s = (\<lambda>(sel, found, high).
    (let high = (if sc_family s = pl_family p \<and> sc_revision s > high then sc_revision s else high) in
     if scenario_artifact s \<noteq> pl_artifact_id p \<and> sc_contract_id s \<noteq> pl_contract_id p then (sel, found, high)
     else (scenario_selection s (found + 1), found + 1, high)))"

definition select_manifest :: "artifact_lib \<Rightarrow> manifest \<Rightarrow> proposal \<Rightarrow> (string list, selection) result" where
  \<comment> \<open>\<open>ParseSelectionManifest\<close> after the decoding\<close>
  "select_manifest lib m p =
    (if mf_version m \<noteq> ''1'' \<or>
        \<not> (mf_producer m = proposal_producer \<and> mf_contract_schema m = proposal_contract_version \<or>
           mf_producer m = ''gait'' \<and> mf_contract_schema m = activation_contract_version) \<or>
        mf_artifact_schema m \<noteq> proposal_schema_version then Inl [ac_selection_mismatch]
     else case fold (select_step p) (mf_scenarios m) (zero_selection, 0, 0) of
       (sel, found, high) \<Rightarrow>
         if found = 0 then Inl [ac_selection_required]
         else if found > 1 then Inl [ac_selection_ambiguous]
         else if \<not> se_current sel \<or> high > se_revision sel then Inl [ac_selection_not_current]
         else if \<not> selection_matches lib sel p then Inl [ac_selection_mismatch]
         else Inr sel)"

section \<open>Activations\<close>

definition parse_activation :: "artifact_lib \<Rightarrow> string \<Rightarrow> (string list, activation) result" where
  "parse_activation lib raw =
    (case al_decode lib raw of
       None \<Rightarrow> Inl [ac_malformed]
     | Some d \<Rightarrow>
        if \<not> al_schema lib raw activation_schema_id then Inl [ac_schema]
        else case al_activation lib raw of
            None \<Rightarrow> Inl [ac_malformed]
          | Some a \<Rightarrow> Inr (a\<lparr>an_raw := raw, an_data := d, an_raw_digest := raw_digest lib raw\<rparr>))"

definition signable_data :: "jobj \<Rightarrow> jobj" where
  "signable_data data =
     AList.update ''signature'' (JObj [(''alg'', JText []), (''key_id'', JText []), (''sig'', JText [])])
       (AList.update ''artifact_id'' (JText []) (AList.delete ''signature'' data))"

definition signable_digest :: "artifact_lib \<Rightarrow> activation \<Rightarrow> string option" where
  "signable_digest lib a = al_jcs lib (signable_data (an_data a))"

definition activation_id_of :: "string \<Rightarrow> string" where
  "activation_id_of digest = ''gact-'' @ take 16 (trim_prefix digest ''sha256:'')"

definition signature_matches :: "artifact_lib \<Rightarrow> string \<Rightarrow> activation \<Rightarrow> string \<Rightarrow> bool" where
  "signature_matches lib key a digest \<longleftrightarrow>
     sg_signed_digest (an_signature a) = trim_prefix digest ''sha256:'' \<and>
     al_verify lib key (an_signature a) = Some True \<and> sg_key_id (an_signature a) = al_key_id lib key"

definition selection_reasons :: "artifact_lib \<Rightarrow> validation_options \<Rightarrow> string list" where
  "selection_reasons lib opt =
    (case vp_selection opt of
       None \<Rightarrow> [ac_selection_required]
     | Some s \<Rightarrow>
         if se_candidates s > 1 then [ac_selection_ambiguous]
         else if \<not> se_current s then [ac_selection_not_current]
         else (case vp_proposal opt of
             None \<Rightarrow> [ac_selection_mismatch]
           | Some p \<Rightarrow> flag (\<not> selection_matches lib s p) ac_selection_mismatch))"

definition window_check :: "activation \<Rightarrow> validation_options \<Rightarrow> string list" where
  "window_check a opt =
    (let now = vp_now opt; before = parse_utc (an_not_before a); after = parse_utc (an_not_after a) in
     flag (is_zero_time now) ac_evaluation_time @
     (case before of None \<Rightarrow> [ac_validity] | Some t \<Rightarrow> flag (\<not> is_zero_time now \<and> now < t) ac_not_yet) @
     (if an_not_after a = [] then []
      else (case after of None \<Rightarrow> [ac_validity] | Some t \<Rightarrow> flag (\<not> is_zero_time now \<and> \<not> now < t) ac_expired) @
        (case (before, after) of (Some b, Some e) \<Rightarrow> flag (\<not> b < e) ac_validity | _ \<Rightarrow> [])))"

definition activation_reasons :: "artifact_lib \<Rightarrow> activation \<Rightarrow> validation_options \<Rightarrow> string list" where
  \<comment> \<open>the checks before the signature\<close>
  "activation_reasons lib a opt =
    (let f = an_proposal a in
     flag (\<not> al_schema lib (an_raw a) activation_schema_id) ac_schema @
     flag (an_schema_id a \<noteq> activation_schema_id \<or> an_schema_version a \<noteq> activation_schema_version \<or>
       pm_name (an_producer a) \<noteq> ''gait'' \<or> pm_artifact_version (an_producer a) \<noteq> activation_schema_version \<or>
       pm_contract_version (an_producer a) \<noteq> activation_contract_version \<or> an_report_only a) ac_unsupported_schema @
     flag (an_development a) (if vp_allow_development opt then ac_development_unverified else ac_development) @
     flag (\<not> activation_id_ok (an_artifact_id a) \<or> \<not> contract_id_ok (an_contract_id a) \<or>
       \<not> family_id_ok (an_family a) \<or> an_revision a < 1 \<or> an_policy_digest a = [] \<or> an_principal a = [] \<or>
       non_empty (an_authority a) = [] \<or> an_target a = [] \<or> an_environment a = []) ac_identity @
     flag (pf_contract_id f \<noteq> an_contract_id a \<or> pf_family f \<noteq> an_family a \<or> pf_revision f \<noteq> an_revision a \<or>
       pf_schema_id f \<noteq> proposal_schema_id \<or> pf_schema_version f \<noteq> proposal_schema_version \<or>
       pf_contract_version f \<noteq> proposal_contract_version) ac_binding @
     selection_reasons lib opt @
     (case vp_proposal opt of
        None \<Rightarrow> [ac_unverifiable]
      | Some p \<Rightarrow> flag (\<not> vd_valid (validate_proposal lib p opt) \<or> pf_artifact_id f \<noteq> pl_artifact_id p \<or>
          pf_digest f \<noteq> pl_digest p) ac_binding) @
     flag (an_mode a \<noteq> ''context_only'' \<and> an_mode a \<noteq> ''enforce_floor'' \<and> an_mode a \<noteq> ''required'') ac_identity @
     window_check a opt @
     flag (vp_revision opt > 0 \<and> vp_revision opt \<noteq> an_revision a) ac_current_revision)"

definition signature_checks_allowed :: "string list \<Rightarrow> bool" where
  "signature_checks_allowed reasons = list_all (\<lambda>r. r = ac_development_unverified) reasons"

definition check_signature :: "artifact_lib \<Rightarrow> activation \<Rightarrow> validation_options \<Rightarrow> string list \<Rightarrow> bool \<times> string list" where
  \<comment> \<open>whether the signature was verified, and the reasons that are added\<close>
  "check_signature lib a opt reasons =
    (if length (vp_key opt) = 32 \<and> signature_checks_allowed reasons then
       (let verified = (case signable_digest lib a of None \<Rightarrow> False | Some d \<Rightarrow> signature_matches lib (vp_key opt) a d)
        in (verified,
            flag (\<not> verified) ac_signature @
            flag (reasons = [] \<and> verified \<and>
              (case signable_digest lib a of None \<Rightarrow> False | Some d \<Rightarrow> an_artifact_id a \<noteq> activation_id_of d)) ac_identity))
     else (False, flag (reasons = []) ac_unverifiable))"

definition validate_activation :: "artifact_lib \<Rightarrow> activation \<Rightarrow> validation_options \<Rightarrow> validation_result" where
  "validate_activation lib a opt =
    (let pre = activation_reasons lib a opt; (verified, extra) = check_signature lib a opt pre;
         reasons = unique_sorted_seen (pre @ extra); valid = (reasons = [] \<and> \<not> an_development a)
     in \<lparr>vd_valid = valid, vd_status = (if valid then status_pass else status_unverifiable),
         vd_signature_verified = verified, vd_reasons = reasons, vd_digest = [], vd_raw_digest = an_raw_digest a\<rparr>)"

definition verify_activation_signature :: "artifact_lib \<Rightarrow> activation \<Rightarrow> string \<Rightarrow> string option" where
  \<comment> \<open>\<open>VerifyActivationSignature\<close>, the recheck when a stored activation is loaded\<close>
  "verify_activation_signature lib a key =
    (if length key \<noteq> 32 then Some ac_unverifiable
     else case signable_digest lib a of
       None \<Rightarrow> Some ac_signature
     | Some d \<Rightarrow>
         if \<not> signature_matches lib key a d then Some ac_signature
         else if an_artifact_id a \<noteq> activation_id_of d then Some ac_identity else None)"

section \<open>Reason codes\<close>

definition ac_codes :: "string list" where
  "ac_codes = [ac_malformed, ac_schema, ac_unsupported_schema, ac_unsupported_producer, ac_report_only, ac_identity,
     ac_digest, ac_contract_digest, ac_revision, ac_binding, ac_signature, ac_unverifiable, ac_validity, ac_expired,
     ac_not_yet, ac_current_revision, ac_selection_required, ac_selection_mismatch, ac_selection_not_current,
     ac_selection_ambiguous, ac_evaluation_time, ac_development, ac_development_unverified, ac_unreadable, ac_stale,
     ac_contradictory]"

lemma ac_codes_clean: "list_all (\<lambda>r. trim_space r = r \<and> r \<noteq> []) ac_codes"
  by code_simp

lemma set_flag: "set (flag b s) = (if b then {s} else {})"
  by (simp add: flag_def)

lemma flag_Nil [simp]: "flag b s = [] \<longleftrightarrow> \<not> b"
  by (simp add: flag_def)

lemma unique_sorted_codes:
  assumes "set rs \<subseteq> set ac_codes"
  shows "unique_sorted_seen rs = [] \<longleftrightarrow> rs = []" and "set (unique_sorted_seen rs) = set rs"
proof -
  have *: "trim_space r = r \<and> r \<noteq> []" if "r \<in> set rs" for r
    using ac_codes_clean that assms by (auto simp: list_all_iff)
  have "set (unique_sorted_seen rs) = set rs"
    using * by (force simp: us_seen.norm_set clean_trim_def split: if_splits)
  then show "unique_sorted_seen rs = [] \<longleftrightarrow> rs = []" and "set (unique_sorted_seen rs) = set rs"
    by (metis set_empty)+
qed

lemma flag_subset: "s \<in> A \<Longrightarrow> set (flag b s) \<subseteq> A"
  by (cases b) (simp_all add: flag_def)

lemma code_members:
  "{ac_malformed, ac_schema, ac_unsupported_schema, ac_unsupported_producer, ac_report_only, ac_identity,
     ac_digest, ac_contract_digest, ac_revision, ac_binding, ac_signature, ac_unverifiable, ac_validity, ac_expired,
     ac_not_yet, ac_current_revision, ac_selection_required, ac_selection_mismatch, ac_selection_not_current,
     ac_selection_ambiguous, ac_evaluation_time, ac_development, ac_development_unverified, ac_unreadable, ac_stale,
     ac_contradictory} \<subseteq> set ac_codes"
  by (simp add: ac_codes_def)

lemmas code_member = code_members [unfolded insert_subset]

lemma observation_codes: "set (observation_reasons c) \<subseteq> set ac_codes"
  unfolding observation_reasons_def set_concat set_map
  by (intro UN_least, elim imageE) (simp only: set_append Un_subset_iff flag_subset code_member simp_thms)

lemma expiry_codes: "set (expiry_reasons p opt) \<subseteq> set ac_codes"
  using code_member by (auto simp: expiry_reasons_def Let_def set_flag split: option.splits if_splits)

lemma proposal_codes: "set (proposal_reasons lib p opt) \<subseteq> set ac_codes"
  unfolding proposal_reasons_def Let_def set_append Un_subset_iff
  by (intro conjI flag_subset observation_codes expiry_codes) (simp_all only: code_member)

lemma selection_codes: "set (selection_reasons lib opt) \<subseteq> set ac_codes"
  using code_member by (auto simp: selection_reasons_def set_flag split: option.splits if_splits)

lemma window_codes: "set (window_check a opt) \<subseteq> set ac_codes"
  using code_member by (auto simp: window_check_def Let_def set_flag split: option.splits if_splits)

lemma activation_codes: "set (activation_reasons lib a opt) \<subseteq> set ac_codes"
proof -
  have "set (case vp_proposal opt of None \<Rightarrow> [ac_unverifiable]
      | Some p \<Rightarrow> flag (b p) ac_binding) \<subseteq> set ac_codes" for b
    using code_member by (auto simp: set_flag split: option.splits if_splits)
  then show ?thesis
    unfolding activation_reasons_def Let_def set_append Un_subset_iff
    by (intro conjI flag_subset selection_codes window_codes) (simp_all add: code_member)
qed

section \<open>What a valid proposal is\<close>

lemma proposal_valid_reasons: "vd_valid (validate_proposal lib p opt) \<longleftrightarrow> proposal_reasons lib p opt = []"
  using unique_sorted_codes(1) [OF proposal_codes] by (simp add: validate_proposal_def Let_def)

definition unexpired :: "proposal \<Rightarrow> validation_options \<Rightarrow> bool" where
  "unexpired p opt \<longleftrightarrow>
    (if string_field (pl_contract p) ''expires_at'' = [] \<or> vp_skip_temporal opt then True
     else \<not> is_zero_time (vp_now opt) \<and>
       (case parse_utc (string_field (pl_contract p) ''expires_at'') of None \<Rightarrow> False | Some t \<Rightarrow> vp_now opt \<le> t))"

definition self_certified :: "artifact_lib \<Rightarrow> proposal \<Rightarrow> bool" where
  \<comment> \<open>the identity of the envelope is the one its content determines\<close>
  "self_certified lib p \<longleftrightarrow>
     (let c = pl_contract p in
      contract_id_of lib c = pl_contract_id p \<and> contract_family_id lib c = pl_family p \<and>
      contract_content_digest lib c = string_field c ''contract_content_digest'' \<and>
      digest_ok (string_field c ''contract_content_digest'') \<and>
      proposal_canonical_digest lib (pl_data p) = Some (pl_digest p) \<and>
      string_field c ''contract_id'' = pl_contract_id p \<and> string_field c ''contract_family_id'' = pl_family p \<and>
      int_field c ''revision'' = pl_revision p \<and> 1 \<le> pl_revision p)"

lemma expiry_clean: "expiry_reasons p opt = [] \<longleftrightarrow> unexpired p opt"
  by (auto simp: expiry_reasons_def unexpired_def Let_def not_less split: option.splits)

definition proposal_shape :: "artifact_lib \<Rightarrow> proposal \<Rightarrow> bool" where
  "proposal_shape lib p \<longleftrightarrow>
     al_schema lib (pl_raw p) proposal_schema_id \<and> pl_schema_id p = proposal_schema_id \<and>
     pl_schema_version p = proposal_schema_version \<and>
     pl_producer p = \<lparr>pm_name = proposal_producer, pm_artifact_version = proposal_schema_version,
       pm_contract_version = proposal_contract_version\<rparr> \<and>
     pl_report_only p \<and> artifact_id_ok (pl_artifact_id p) \<and> contract_id_ok (pl_contract_id p) \<and>
     family_id_ok (pl_family p) \<and> non_empty (pl_scans p) \<noteq> [] \<and> non_empty (pl_compositions p) \<noteq> [] \<and>
     non_empty (pl_creation p) \<noteq> [] \<and>
     (let c = pl_contract p in
      c \<noteq> None \<and> string_field c ''contract_version'' = proposal_contract_version \<and>
      string_field c ''contract_kind'' = ''proposed_action_contract'' \<and> bool_field c ''report_only'' \<and>
      string_field c ''composition_ref'' \<noteq> [] \<and>
      contains_string (pl_compositions p) (string_field c ''composition_ref'') \<and>
      trim_space (pl_resolution_key p) \<in>
        (if string_field c ''resolution_key'' = [] then UNIV else {[], string_field c ''resolution_key''}))"

definition uncontradicted :: "jmap \<Rightarrow> bool" where
  "uncontradicted c \<longleftrightarrow>
     list_all (\<lambda>x. string_field x ''freshness_state'' \<notin> {''stale'', ''expired''} \<and>
       (string_field x ''kind'', string_field x ''evidence_state'') \<noteq> (''supersession'', ''contradictory''))
       (object_array c ''lifecycle_observations'') \<and>
     string_field c ''readiness_state'' \<noteq> ''blocked_by_contradiction'' \<and>
     string_field c ''authority_readiness_state'' \<noteq> ''blocked_by_contradiction''"

lemma observation_clean:
  "observation_reasons c = [] \<and> \<not> (string_field c ''readiness_state'' = ''blocked_by_contradiction'' \<or>
     string_field c ''authority_readiness_state'' = ''blocked_by_contradiction'') \<longleftrightarrow> uncontradicted c"
  by (auto simp: observation_reasons_def uncontradicted_def list_all_iff)

lemma proposal_valid:
  "vd_valid (validate_proposal lib p opt) =
     (proposal_shape lib p \<and> self_certified lib p \<and> uncontradicted (pl_contract p) \<and>
      (if pl_revision p > 1 then string_field (pl_contract p) ''supersedes_ref'' \<noteq> [] else True) \<and>
      (if vp_revision opt > 0 then pl_revision p = vp_revision opt else True) \<and> unexpired p opt)"
proof -
  have producer: "pl_producer p = \<lparr>pm_name = n, pm_artifact_version = a, pm_contract_version = c\<rparr> \<longleftrightarrow>
      pm_name (pl_producer p) = n \<and> pm_artifact_version (pl_producer p) = a \<and> pm_contract_version (pl_producer p) = c"
    for n a c by (cases "pl_producer p") simp
  have key: "k \<in> (if r = [] then UNIV else {[], r}) \<longleftrightarrow> \<not> (k \<noteq> [] \<and> r \<noteq> [] \<and> k \<noteq> r)" for k r :: string by auto
  have later: "\<not> (q \<and> t = []) \<longleftrightarrow> (if q then t \<noteq> [] else True)" for q and t :: string by auto
  have expect: "\<not> (q \<and> x \<noteq> y) \<longleftrightarrow> (if q then y = x else True)" for q and x y :: int by auto
  show ?thesis
    unfolding proposal_valid_reasons proposal_reasons_def Let_def append_is_Nil_conv flag_Nil expiry_clean
      proposal_shape_def self_certified_def contract_mismatch_def observation_clean [symmetric] producer key later expect
      not_less [symmetric]
    by (simp only: de_Morgan_disj not_not) blast
qed


section \<open>What a valid activation is\<close>

definition activation_shape :: "artifact_lib \<Rightarrow> activation \<Rightarrow> bool" where
  "activation_shape lib a \<longleftrightarrow>
     al_schema lib (an_raw a) activation_schema_id \<and> an_schema_id a = activation_schema_id \<and>
     an_schema_version a = activation_schema_version \<and> pm_name (an_producer a) = ''gait'' \<and>
     pm_artifact_version (an_producer a) = activation_schema_version \<and>
     pm_contract_version (an_producer a) = activation_contract_version \<and> \<not> an_report_only a \<and>
     activation_id_ok (an_artifact_id a) \<and> contract_id_ok (an_contract_id a) \<and> family_id_ok (an_family a) \<and>
     an_revision a \<ge> 1 \<and> an_policy_digest a \<noteq> [] \<and> an_principal a \<noteq> [] \<and> non_empty (an_authority a) \<noteq> [] \<and>
     an_target a \<noteq> [] \<and> an_environment a \<noteq> [] \<and> an_mode a \<in> {''context_only'', ''enforce_floor'', ''required''}"

definition selected_proposal :: "artifact_lib \<Rightarrow> activation \<Rightarrow> validation_options \<Rightarrow> bool" where
  \<comment> \<open>bound to the one valid proposal that the selection evidence names as current\<close>
  "selected_proposal lib a opt \<longleftrightarrow>
    (let f = an_proposal a in
     pf_contract_id f = an_contract_id a \<and> pf_family f = an_family a \<and> pf_revision f = an_revision a \<and>
     pf_schema_id f = proposal_schema_id \<and> pf_schema_version f = proposal_schema_version \<and>
     pf_contract_version f = proposal_contract_version \<and>
     (case (vp_selection opt, vp_proposal opt) of
        (Some s, Some p) \<Rightarrow> selection_matches lib s p \<and> vd_valid (validate_proposal lib p opt) \<and>
          pf_artifact_id f = pl_artifact_id p \<and> pf_digest f = pl_digest p
      | _ \<Rightarrow> False))"

definition in_force :: "activation \<Rightarrow> validation_options \<Rightarrow> bool" where
  \<comment> \<open>from \<open>not_before\<close> on and strictly before \<open>not_after\<close>\<close>
  "in_force a opt \<longleftrightarrow> \<not> is_zero_time (vp_now opt) \<and>
     (case parse_utc (an_not_before a) of None \<Rightarrow> False | Some b \<Rightarrow> b \<le> vp_now opt) \<and>
     (if an_not_after a = [] then True
      else case parse_utc (an_not_after a) of None \<Rightarrow> False | Some e \<Rightarrow> vp_now opt < e)"

lemma selection_clean:
  "selection_reasons lib opt = [] \<longleftrightarrow>
     (\<exists>s p. vp_selection opt = Some s \<and> vp_proposal opt = Some p \<and> selection_matches lib s p)"
  by (auto simp: selection_reasons_def selection_matches_def split: option.splits)

lemma window_clean: "window_check a opt = [] \<longleftrightarrow> in_force a opt"
  by (auto simp: window_check_def in_force_def Let_def not_less split: option.splits)

lemma activation_clean:
  "activation_reasons lib a opt = [] \<longleftrightarrow>
     activation_shape lib a \<and> \<not> an_development a \<and> selected_proposal lib a opt \<and> in_force a opt \<and>
     (if vp_revision opt > 0 then an_revision a = vp_revision opt else True)"
proof -
  have bound: "(case vp_proposal opt of None \<Rightarrow> [ac_unverifiable]
      | Some p \<Rightarrow> flag (\<not> vd_valid (validate_proposal lib p opt) \<or> pf_artifact_id f \<noteq> pl_artifact_id p \<or>
          pf_digest f \<noteq> pl_digest p) ac_binding) = [] \<longleftrightarrow>
      (\<exists>p. vp_proposal opt = Some p \<and> vd_valid (validate_proposal lib p opt) \<and> pf_artifact_id f = pl_artifact_id p \<and>
        pf_digest f = pl_digest p)" for f
    by (auto split: option.splits)
  show ?thesis
    unfolding activation_reasons_def Let_def append_is_Nil_conv flag_Nil selection_clean window_clean bound
      activation_shape_def selected_proposal_def
    by (cases "vp_selection opt"; cases "vp_proposal opt"; cases "vp_revision opt > 0") (auto simp: not_less)
qed

lemma check_signature_clean:
  "snd (check_signature lib a opt []) = [] \<longleftrightarrow> verify_activation_signature lib a (vp_key opt) = None"
  by (auto simp: check_signature_def verify_activation_signature_def signature_checks_allowed_def Let_def
      split: option.splits)

lemma check_signature_codes: "set (snd (check_signature lib a opt rs)) \<subseteq> set ac_codes"
  using code_member by (auto simp: check_signature_def Let_def set_flag split: option.splits if_splits)

text \<open>
  An activation is valid exactly when its shape is supported, it is not development-signed, it is bound
  by artifact id, digest, contract, family and revision to the one proposal that is valid and that
  the selection evidence names as current, the evaluation time lies in its window (closed at
  \<open>not_before\<close>, open at \<open>not_after\<close>), and its signature and id verify under the trusted key; the
  recheck a load makes of a stored activation therefore succeeds on it.
\<close>

theorem activation_valid_iff:
  "vd_valid (validate_activation lib a opt) =
     (activation_shape lib a \<and> \<not> an_development a \<and> selected_proposal lib a opt \<and> in_force a opt \<and>
      (if vp_revision opt > 0 then an_revision a = vp_revision opt else True) \<and>
      verify_activation_signature lib a (vp_key opt) = None)"
proof -
  define pre where "pre = activation_reasons lib a opt"
  define extra where "extra = snd (check_signature lib a opt pre)"
  have codes: "set (pre @ extra) \<subseteq> set ac_codes"
    unfolding set_append pre_def extra_def using activation_codes check_signature_codes by (metis Un_least)
  have "vd_valid (validate_activation lib a opt) \<longleftrightarrow> pre @ extra = [] \<and> \<not> an_development a"
    using unique_sorted_codes(1) [OF codes]
    by (simp add: validate_activation_def Let_def split_beta pre_def extra_def)
  also have "\<dots> \<longleftrightarrow> pre = [] \<and> verify_activation_signature lib a (vp_key opt) = None \<and> \<not> an_development a"
    using check_signature_clean [of lib a opt] by (auto simp: extra_def)
  also have "\<dots> \<longleftrightarrow> activation_shape lib a \<and> \<not> an_development a \<and> selected_proposal lib a opt \<and> in_force a opt \<and>
      (if vp_revision opt > 0 then an_revision a = vp_revision opt else True) \<and>
      verify_activation_signature lib a (vp_key opt) = None"
    unfolding pre_def activation_clean by blast
  finally show ?thesis .
qed

section \<open>Selecting a proposal\<close>

definition scenario_for :: "proposal \<Rightarrow> scenario \<Rightarrow> bool" where
  "scenario_for p s \<longleftrightarrow> scenario_artifact s = pl_artifact_id p \<or> sc_contract_id s = pl_contract_id p"

definition manifest_header_ok :: "manifest \<Rightarrow> bool" where
  "manifest_header_ok m \<longleftrightarrow> mf_version m = ''1'' \<and> mf_artifact_schema m = proposal_schema_version \<and>
     (mf_producer m, mf_contract_schema m) \<in>
       {(proposal_producer, proposal_contract_version), (''gait'', activation_contract_version)}"

definition family_revisions :: "proposal \<Rightarrow> scenario list \<Rightarrow> int list" where
  "family_revisions p ss = map sc_revision (filter (\<lambda>s. sc_family s = pl_family p) ss)"

lemma select_fold:
  "fold (select_step p) ss (sel, found, high) =
     (case rev (filter (scenario_for p) ss) of
        [] \<Rightarrow> sel
      | s # _ \<Rightarrow> scenario_selection s (found + int (length (filter (scenario_for p) ss))),
      found + int (length (filter (scenario_for p) ss)), foldl max high (family_revisions p ss))"
proof (induction ss arbitrary: sel found high)
  case (Cons s ss)
  have step: "select_step p s (sel, found, high) =
      (if scenario_for p s then (scenario_selection s (found + 1), found + 1,
          if sc_family s = pl_family p then max high (sc_revision s) else high)
       else (sel, found, if sc_family s = pl_family p then max high (sc_revision s) else high))"
    by (auto simp: select_step_def scenario_for_def Let_def max_def)
  show ?case
    by (simp only: fold_simps step if_distrib [of "fold (select_step p) ss"] Cons.IH)
      (auto simp: family_revisions_def ac_simps split: list.splits)
qed (simp add: family_revisions_def)

lemma foldl_max_le: "foldl max (h :: int) xs \<le> r \<longleftrightarrow> h \<le> r \<and> list_all (\<lambda>x. x \<le> r) xs"
  by (induction xs arbitrary: h) auto

text \<open>
  The manifest selects a proposal exactly when its header is supported and exactly one scenario
  names the proposal's artifact or contract, that scenario is current, no scenario of the family
  has a later revision, and all of its identities are the proposal's.
\<close>

theorem selection_iff:
  "(select_manifest lib m p = Inr s) =
     (manifest_header_ok m \<and>
      (\<exists>x. filter (scenario_for p) (mf_scenarios m) = [x] \<and> s = scenario_selection x 1) \<and> selection_matches lib s p \<and>
      0 \<le> pl_revision p \<and> list_all (\<lambda>r. r \<le> pl_revision p) (family_revisions p (mf_scenarios m)))"
proof -
  let ?fs = "filter (scenario_for p) (mf_scenarios m)"
  define high where "high = foldl max 0 (family_revisions p (mf_scenarios m))"
  have header: "(mf_version m \<noteq> ''1'' \<or>
        \<not> (mf_producer m = proposal_producer \<and> mf_contract_schema m = proposal_contract_version \<or>
           mf_producer m = ''gait'' \<and> mf_contract_schema m = activation_contract_version) \<or>
        mf_artifact_schema m \<noteq> proposal_schema_version) \<longleftrightarrow> \<not> manifest_header_ok m"
    by (auto simp: manifest_header_ok_def)
  note eq = select_manifest_def [of lib m p, unfolded header select_fold]
  have high: "\<not> high > r \<longleftrightarrow> 0 \<le> r \<and> list_all (\<lambda>x. x \<le> r) (family_revisions p (mf_scenarios m))" for r
    using foldl_max_le [of 0 _ r] by (simp add: high_def not_less)
  consider "?fs = []" | x where "?fs = [x]" | "length ?fs > 1"
    by (cases ?fs rule: remdups_adj.cases) auto
  then show ?thesis
  proof cases
    case 1
    then show ?thesis by (simp add: eq)
  next
    case 2
    have "(select_manifest lib m p = Inr s) \<longleftrightarrow> manifest_header_ok m \<and> \<not> (\<not> se_current (scenario_selection x 1) \<or>
        high > se_revision (scenario_selection x 1)) \<and> selection_matches lib (scenario_selection x 1) p \<and>
        s = scenario_selection x 1"
      by (auto simp: eq 2 high_def [symmetric])
    then show ?thesis using 2 high [of "pl_revision p"] by (auto simp: selection_matches_def)
  next
    case 3
    moreover from this have "int (length ?fs) \<noteq> 0" "int (length ?fs) > 1" by auto
    ultimately show ?thesis by (auto simp: eq)
  qed
qed

section \<open>The content digest\<close>

definition transition_object :: "string \<Rightarrow> string \<Rightarrow> jvalue" where
  "transition_object i reason =
     JObj [(''transition_id'', JText i), (''from_stage_id'', JText ''a''), (''to_stage_id'', JText ''b''),
       (''reason'', JText reason)]"

definition allowing :: "jvalue list \<Rightarrow> jmap" where
  "allowing ts = Some [(''contract_version'', JText ''3''), (''composition_ref'', JText ''c''),
     (''revision'', JNumber ''1''), (''report_only'', JBool True), (''allowed_transitions'', JArr ts)]"

definition narrow_contract :: jmap where
  "narrow_contract = allowing [transition_object ''t1'' (''r'' @ unit_separator @ ''allow=t2|a|b|||q'')]"

definition wide_contract :: jmap where
  "wide_contract = allowing [transition_object ''t1'' ''r'', transition_object ''t2'' ''q'']"

lemma joined_parts:
  "join unit_separator (sort (contract_parts narrow_contract)) = join unit_separator (sort (contract_parts wide_contract))"
  by code_simp

text \<open>
  The content digest does not determine the contract. The parts it hashes are joined by a separator that the
  text of a part may contain, so a contract that allows one transition and one that allows two have
  the same content digest, contract id and family id, whatever the hash function.
\<close>

theorem content_digest_not_injective:
  "map (\<lambda>i. string_field i ''transition_id'') (object_array narrow_contract ''allowed_transitions'') = [''t1''] \<and>
   map (\<lambda>i. string_field i ''transition_id'') (object_array wide_contract ''allowed_transitions'') = [''t1'', ''t2''] \<and>
   contract_content_digest lib narrow_contract = contract_content_digest lib wide_contract \<and>
   contract_family_id lib narrow_contract = contract_family_id lib wide_contract \<and>
   contract_id_of lib narrow_contract = contract_id_of lib wide_contract"
proof -
  have digest: "contract_content_digest lib narrow_contract = contract_content_digest lib wide_contract"
    by (simp add: contract_content_digest_def joined_parts)
  have field: "string_field (allowing ts) k = string_field (allowing us) k" if "k \<noteq> ''allowed_transitions''" for ts us k
    using that by (simp add: string_field_def jget_def allowing_def)
  have "contract_family_id lib narrow_contract = contract_family_id lib wide_contract"
    by (simp add: contract_family_id_def narrow_contract_def wide_contract_def allowing_def string_field_def
        int_field_def object_array_def json_items_def jget_def)
  moreover have "string_field narrow_contract ''contract_version'' = string_field wide_contract ''contract_version''"
    unfolding narrow_contract_def wide_contract_def by (rule field) simp
  moreover have "map (\<lambda>i. string_field i ''transition_id'') (object_array narrow_contract ''allowed_transitions'') = [''t1'']"
    "map (\<lambda>i. string_field i ''transition_id'') (object_array wide_contract ''allowed_transitions'') = [''t1'', ''t2'']"
    by code_simp+
  ultimately show ?thesis using digest by (simp add: contract_id_of_def)
qed

end
