(* ===== verification/Conformance.thy ===== *)
theory Conformance
  imports Artifact
begin

text \<open>
  \<open>core/ingest/actioncontract/conformance.go\<close>: how a validated activation relates to the proposal
  it binds, from the two artifacts alone and with a projection of the controls the producer
  applies. Go visits the controls of the projection in the order of a map; the order is an
  argument of the model.
\<close>

section \<open>Results\<close>

record conformance =
  cf_class :: string
  cf_valid :: bool
  cf_non_binding :: bool
  cf_reasons :: "string list"
  cf_checked :: "string list"
  cf_missing :: "string list"
  cf_exceptions :: "string list"

record projection =
  pj_authority :: "string list"
  pj_preconditions :: "string list"
  pj_confirmation :: string
  pj_approval :: string
  pj_credential :: string
  pj_depth :: int
  pj_outcome :: string
  pj_forbidden :: "string list"
  pj_compensation :: "bool option"
  pj_not_before :: string
  pj_not_after :: string

definition class_exact :: string where "class_exact = ''exact''"
definition class_tightened :: string where "class_tightened = ''tightened''"
definition class_contextual :: string where "class_contextual = ''contextual''"
definition class_excepted :: string where "class_excepted = ''excepted''"
definition class_mismatched :: string where "class_mismatched = ''mismatched''"
definition class_weakened :: string where "class_weakened = ''weakened''"
definition class_incomplete :: string where "class_incomplete = ''incomplete''"
definition class_unverifiable :: string where "class_unverifiable = ''unverifiable''"

definition zero_conformance :: conformance where
  "zero_conformance = \<lparr>cf_class = class_unverifiable, cf_valid = False, cf_non_binding = False, cf_reasons = [],
     cf_checked = [], cf_missing = [], cf_exceptions = []\<rparr>"

section \<open>Scanning an integer\<close>

text \<open>
  \<open>fmt.Sscan\<close> into an int: blanks, a sign, then a literal of Go with its base prefix, as far as it
  goes. On any error the variable keeps its zero.
\<close>

definition hex_value :: "char \<Rightarrow> int" where
  "hex_value c = (let n = of_char (lower_char c) :: int in if 97 \<le> n \<and> n \<le> 102 then n - 87 else n - 48)"

definition base_digit :: "int \<Rightarrow> char \<Rightarrow> bool" where
  "base_digit base c \<longleftrightarrow> (is_digit c \<or> is_hex (lower_char c)) \<and> hex_value c < base"

fun underscores_ok :: "bool \<Rightarrow> string \<Rightarrow> bool" where
  \<comment> \<open>an underscore stands between digits or after the base prefix\<close>
  "underscores_ok after_digit [] \<longleftrightarrow> True"
| "underscores_ok after_digit (c # cs) \<longleftrightarrow>
     (if c = CHR ''_'' then after_digit \<and> cs \<noteq> [] \<and> hd cs \<noteq> CHR ''_'' \<and> underscores_ok False cs else underscores_ok True cs)"

definition scan_base :: "string \<Rightarrow> (int \<times> bool \<times> string) option" where
  \<comment> \<open>the base, whether a digit has been read, and the rest; \<open>None\<close> for a bare prefix\<close>
  "scan_base s =
     (case s of
        c # d # rest \<Rightarrow>
          if c \<noteq> CHR ''0'' then Some (10, False, s)
          else if lower_char d = CHR ''b'' then Some (2, True, rest)
          else if lower_char d = CHR ''o'' then Some (8, True, rest)
          else if lower_char d = CHR ''x'' then Some (16, True, rest)
          else Some (8, True, d # rest)
      | [c] \<Rightarrow> if c = CHR ''0'' then Some (8, True, []) else Some (10, False, s)
      | [] \<Rightarrow> None)"

definition bare_prefix :: "string \<Rightarrow> bool" where
  "bare_prefix s \<longleftrightarrow> length s \<ge> 2 \<and> hd s = CHR ''0'' \<and> lower_char (s ! 1) \<in> {CHR ''b'', CHR ''o'', CHR ''x''}"

definition scan_value :: "bool \<Rightarrow> string \<Rightarrow> int" where
  "scan_value neg body =
    (case scan_base body of
       None \<Rightarrow> 0
     | Some (base, read, rest) \<Rightarrow>
        (let taken = takeWhile (\<lambda>c. base_digit base c \<or> c = CHR ''_'') rest;
             n = foldl (\<lambda>n c. base * n + hex_value c) 0 (filter (\<lambda>c. c \<noteq> CHR ''_'') taken);
             v = (if neg then - n else n)
         in if taken = [] \<and> (\<not> read \<or> bare_prefix body) then 0
            else if \<not> underscores_ok read taken then 0
            else if v > max_int64 \<or> v < - max_int64 - 1 then 0 else v))"

definition int_value :: "string \<Rightarrow> int" where
  "int_value value =
    (case trim_left value of
       [] \<Rightarrow> 0
     | c # rest \<Rightarrow> if c = CHR ''-'' then scan_value True rest
         else if c = CHR ''+'' then scan_value False rest else scan_value False (c # rest))"

section \<open>The controls of a proposal and of a projection\<close>

definition join_requirements :: "jmap list \<Rightarrow> string" where
  "join_requirements items =
     join ''|'' (unique_sorted_seen
       (map (\<lambda>i. string_field i ''requirement_id'' @ ''='' @ string_field i ''required_constraint'') items))"

definition join_effects :: "jmap \<Rightarrow> string" where
  "join_effects c =
     join ''|'' (unique_sorted_seen (map (\<lambda>i. string_field i ''required_constraint'')
       (filter (\<lambda>i. string_field i ''kind'' \<in> {''forbidden_effect'', ''expected_effect''}) (object_array c ''preconditions''))))"

definition proposal_controls :: "jmap \<Rightarrow> string \<Rightarrow> string option" where
  "proposal_controls c field =
     map_of ([(''credential_mode'', string_field c ''required_credential_mode''),
       (''delegation_depth'', itoa (int_field c ''maximum_delegation_depth'')),
       (''expected_outcome'', string_field c ''expected_outcome_class''),
       (''compensation'', format_bool (bool_field c ''compensation_required'')),
       (''validity'', string_field c ''expires_at''),
       (''authority'', join_requirements (object_array c ''authority_requirements'')),
       (''preconditions'', join_requirements (object_array c ''preconditions'')),
       (''forbidden_effects'', join_effects c)] @
      (case object_field c ''confirmation_requirement'' of None \<Rightarrow> []
       | Some i \<Rightarrow> [(''confirmation'', string_field (Some i) ''mode'' @ ''|'' @ format_bool (bool_field (Some i) ''required''))]) @
      (case object_field c ''approval_requirement'' of None \<Rightarrow> []
       | Some i \<Rightarrow> [(''approval'', format_bool (bool_field (Some i) ''required'') @ ''|'' @
           itoa (int_field (Some i) ''minimum_approvals''))])) field"

definition projection_controls :: "projection \<Rightarrow> string \<Rightarrow> string option" where
  "projection_controls j field =
     map_of ([(''authority'', join ''|'' (unique_sorted_seen (pj_authority j))),
       (''preconditions'', join ''|'' (unique_sorted_seen (pj_preconditions j))),
       (''confirmation'', pj_confirmation j), (''approval'', pj_approval j),
       (''credential_mode'', trim_space (pj_credential j)), (''delegation_depth'', itoa (pj_depth j)),
       (''expected_outcome'', trim_space (pj_outcome j)),
       (''forbidden_effects'', join ''|'' (unique_sorted_seen (pj_forbidden j))),
       (''validity'', trim_space (pj_not_after j))] @
      (case pj_compensation j of None \<Rightarrow> [] | Some b \<Rightarrow> [(''compensation'', format_bool b)])) field"

definition credential_strength :: "string \<Rightarrow> nat" where
  "credential_strength v =
     (let s = trim_space v in
      if s = ''ephemeral'' then 3 else if s = ''scoped'' then 2 else if s = ''standing_or_unknown'' then 1 else 0)"

definition approval_strength :: "string \<Rightarrow> int" where
  "approval_strength v =
     (case split_char CHR ''|'' v of
        [a, b] \<Rightarrow> int_value b + (if a = ''true'' then 100 else 0)
      | _ \<Rightarrow> 0)"

definition control_items :: "string \<Rightarrow> string set" where
  "control_items v = set (filter (\<lambda>s. trim_space s \<noteq> []) (split_char CHR ''|'' v))"

definition is_superset :: "string \<Rightarrow> string \<Rightarrow> bool" where
  "is_superset got want \<longleftrightarrow>
     control_items want \<subseteq> control_items got \<and> card (control_items got) > card (control_items want)"

definition tightens :: "string \<Rightarrow> string \<Rightarrow> string \<Rightarrow> bool" where
  "tightens field want got =
    (if field = ''credential_mode'' then credential_strength got > credential_strength want
     else if field = ''delegation_depth'' then int_value got < int_value want
     else if field \<in> {''forbidden_effects'', ''authority'', ''preconditions''} then is_superset got want
     else if field = ''approval'' then approval_strength got > approval_strength want
     else if field = ''compensation'' then want = ''false'' \<and> got = ''true''
     else if field = ''validity'' then
       (if want = [] then got \<noteq> []
        else (case (parse_utc want, parse_utc got) of (Some w, Some g) \<Rightarrow> g < w | _ \<Rightarrow> False))
     else False)"

section \<open>Exceptions\<close>

definition normalize_exception :: "string \<Rightarrow> string" where
  "normalize_exception v = to_lower (trim_space v)"

definition exception_aliases :: "(string \<times> string) list" where
  "exception_aliases = [(''authority'', ''authority_requirements''), (''confirmation'', ''confirmation_requirement''),
     (''approval'', ''approval_requirement''), (''compensation'', ''compensation_requirement'')]"

definition accepted_names :: "string \<Rightarrow> string list" where
  "accepted_names field =
     field # (case map_of exception_aliases field of None \<Rightarrow> [] | Some a \<Rightarrow> [a]) @
     map fst (filter (\<lambda>(_, a). a = field) exception_aliases)"

definition contains_exception :: "string list \<Rightarrow> string \<Rightarrow> bool" where
  "contains_exception exceptions field =
     list_ex (\<lambda>e. normalize_exception e \<in> set (accepted_names (normalize_exception field))) exceptions"

definition known_exceptions :: "string list" where
  "known_exceptions = [''authority'', ''authority_requirements'', ''preconditions'', ''confirmation'',
     ''confirmation_requirement'', ''approval'', ''approval_requirement'', ''credential_mode'', ''delegation_depth'',
     ''expected_outcome'', ''forbidden_effects'', ''compensation'', ''compensation_requirement'', ''validity'',
     ''composition_ref'', ''contract_content_digest'']"

definition unknown_exceptions :: "string list \<Rightarrow> string list" where
  "unknown_exceptions exceptions =
     filter (\<lambda>e. e \<notin> set known_exceptions) (map normalize_exception (unique_sorted_seen exceptions))"

definition required_missing :: "proposal \<Rightarrow> string list" where
  "required_missing p =
    (let c = pl_contract p in
     unique_sorted_seen
       (flag (string_field c ''composition_ref'' = []) ''composition_ref'' @
        flag (string_field c ''contract_content_digest'' = []) ''contract_content_digest'' @
        flag (object_array c ''preconditions'' = []) ''preconditions'' @
        flag (object_array c ''authority_requirements'' = []) ''authority_requirements'' @
        flag (string_field (object_field c ''confirmation_requirement'') ''mode'' = []) ''confirmation_requirement''))"

section \<open>The comparison\<close>

datatype control_verdict = Kept | Tighter | Exempt | Weaker

definition judge_control :: "jmap \<Rightarrow> projection \<Rightarrow> string list \<Rightarrow> string \<Rightarrow> control_verdict option" where
  \<comment> \<open>what one turn of the loop over the proposal's controls does; \<open>None\<close> when it has no such control\<close>
  "judge_control c j exceptions field =
    (case proposal_controls c field of
       None \<Rightarrow> None
     | Some want \<Rightarrow> Some
        (case projection_controls j field of
           None \<Rightarrow> if contains_exception exceptions field then Exempt else Weaker
         | Some got \<Rightarrow>
             if got = want then Kept
             else if tightens field want got then Tighter
             else if contains_exception exceptions field then Exempt else Weaker))"

definition controls_with :: "(string \<Rightarrow> control_verdict option) \<Rightarrow> control_verdict \<Rightarrow> string list \<Rightarrow> string list" where
  "controls_with judge v order = filter (\<lambda>f. judge f = Some v) order"

definition projected_fields :: "string list" where
  "projected_fields = [''authority'', ''preconditions'', ''confirmation'', ''approval'', ''credential_mode'',
     ''delegation_depth'', ''expected_outcome'', ''forbidden_effects'', ''compensation'', ''validity'']"

definition compare_controls ::
  "string list \<Rightarrow> proposal \<Rightarrow> activation \<Rightarrow> projection \<Rightarrow> conformance \<Rightarrow> conformance" where
  \<comment> \<open>\<open>order\<close>: the controls in the order the map is visited\<close>
  "compare_controls order p a j r =
    (let r = r\<lparr>cf_checked := unique_sorted_seen (cf_checked r @ projected_fields)\<rparr>;
         unknown = unknown_exceptions (an_exceptions a)
     in if unknown \<noteq> [] then
          r\<lparr>cf_class := class_mismatched, cf_valid := False,
            cf_reasons := cf_reasons r @ [''unknown_exception_ref:'' @ hd unknown]\<rparr>
        else
          (let judge = judge_control (pl_contract p) j (an_exceptions a);
               r = r\<lparr>cf_exceptions := cf_exceptions r @ controls_with judge Exempt order\<rparr>;
               weakened = sort (controls_with judge Weaker order)
           in if weakened \<noteq> [] then
                r\<lparr>cf_class := class_weakened, cf_valid := False, cf_reasons := cf_reasons r @ [''weakened:'' @ hd weakened]\<rparr>
              else if cf_exceptions r \<noteq> [] then
                r\<lparr>cf_class := class_excepted, cf_valid := True, cf_exceptions := unique_sorted_seen (cf_exceptions r),
                  cf_reasons := cf_reasons r @ [''explicit_exception_present'']\<rparr>
              else if controls_with judge Tighter order \<noteq> [] then
                r\<lparr>cf_class := class_tightened, cf_valid := True, cf_reasons := cf_reasons r @ [''actual_controls_tightened'']\<rparr>
              else r\<lparr>cf_class := class_exact, cf_valid := True\<rparr>))"

definition settle_reasons :: "conformance \<Rightarrow> conformance" where
  "settle_reasons r = r\<lparr>cf_reasons := unique_sorted_seen (cf_reasons r)\<rparr>"

definition binding_differs :: "proposal \<Rightarrow> activation \<Rightarrow> bool" where
  "binding_differs p a \<longleftrightarrow>
     pf_artifact_id (an_proposal a) \<noteq> pl_artifact_id p \<or> pf_digest (an_proposal a) \<noteq> pl_digest p \<or>
     an_contract_id a \<noteq> pl_contract_id p \<or> an_family a \<noteq> pl_family p \<or> an_revision a \<noteq> pl_revision p"

definition checked_fields :: "string list" where
  "checked_fields = [''artifact_id'', ''canonical_content_digest'', ''contract_id'', ''contract_family_id'',
     ''revision'', ''schema_versions'']"

definition compare_missing :: "activation \<Rightarrow> string list \<Rightarrow> conformance \<Rightarrow> conformance" where
  "compare_missing a missing r =
    (let reasons = map (\<lambda>f. ''missing:'' @ f) (filter (\<lambda>f. \<not> contains_exception (an_exceptions a) f) missing);
         r = r\<lparr>cf_missing := missing, cf_reasons := reasons\<rparr>
     in settle_reasons (if reasons = [] then r\<lparr>cf_class := class_excepted, cf_valid := True\<rparr>
        else r\<lparr>cf_class := class_incomplete\<rparr>))"

definition compare_released :: "activation \<Rightarrow> conformance \<Rightarrow> conformance" where
  \<comment> \<open>without a projection: exact, unless the activation states exceptions\<close>
  "compare_released a r =
    (let unknown = unknown_exceptions (an_exceptions a) in settle_reasons
      (if unknown \<noteq> [] then
         r\<lparr>cf_class := class_mismatched, cf_reasons := [''unknown_exception_ref:'' @ hd unknown]\<rparr>
       else if an_exceptions a \<noteq> [] then
         r\<lparr>cf_class := class_excepted, cf_valid := True, cf_exceptions := unique_sorted_seen (an_exceptions a),
           cf_reasons := [''explicit_exception_present'']\<rparr>
       else if an_mode a = ''enforce_floor'' then
         r\<lparr>cf_class := class_exact, cf_valid := True, cf_reasons := [''enforce_floor_preserves_bound_proposal'']\<rparr>
       else r\<lparr>cf_class := class_exact, cf_valid := True\<rparr>))"

definition compare_proposal_activation ::
  "string list \<Rightarrow> proposal \<Rightarrow> activation \<Rightarrow> validation_result \<Rightarrow> validation_result \<Rightarrow> projection option \<Rightarrow> conformance" where
  "compare_proposal_activation order p a pr ar proj =
    (let passed = (vd_status pr = status_pass \<and> vd_status ar = status_pass);
         checked = zero_conformance\<lparr>cf_checked := checked_fields\<rparr>; missing = required_missing p
     in if vd_status pr = status_invalid \<or> vd_status ar = status_invalid then
          zero_conformance\<lparr>cf_reasons := [''validation_failed'']\<rparr>
        else if pl_artifact_id p = [] \<or> an_artifact_id a = [] then
          zero_conformance\<lparr>cf_class := class_incomplete, cf_reasons := [''artifact_id_missing'']\<rparr>
        else if binding_differs p a then
          checked\<lparr>cf_class := class_mismatched, cf_reasons := [''proposal_binding_mismatch'']\<rparr>
        else if an_mode a = ''context_only'' then
          checked\<lparr>cf_class := class_contextual, cf_non_binding := True, cf_valid := passed,
            cf_reasons := unique_sorted_seen (''context_only_non_binding'' # flag (\<not> passed) ''verification_unavailable'')\<rparr>
        else if \<not> passed then
          checked\<lparr>cf_class := class_unverifiable, cf_reasons := [''verification_unavailable'']\<rparr>
        else if an_mode a \<noteq> ''enforce_floor'' \<and> an_mode a \<noteq> ''required'' then
          checked\<lparr>cf_class := class_incomplete, cf_reasons := [''activation_mode_unrecognized'']\<rparr>
        else if missing \<noteq> [] then compare_missing a missing checked
        else case proj of
            Some j \<Rightarrow> settle_reasons (compare_controls order p a j checked)
          | None \<Rightarrow> compare_released a checked)"

section \<open>Tightening\<close>

lemma control_items_finite [simp]: "finite (control_items v)"
  by (simp add: control_items_def)

lemma is_superset_psubset: "is_superset got want \<longleftrightarrow> control_items want \<subset> control_items got"
proof
  show "is_superset got want \<Longrightarrow> control_items want \<subset> control_items got" by (auto simp: is_superset_def)
  show "control_items want \<subset> control_items got \<Longrightarrow> is_superset got want"
    using psubset_card_mono [OF control_items_finite] by (auto simp: is_superset_def)
qed

lemma parse_utc_Nil [simp]: "parse_utc [] = None"
  by code_simp

text \<open>
  "tighter than" is a strict partial order on the values of each control: no value is tighter than itself,
  and tightening a tightened value tightens the original one.
\<close>

theorem tightening_strict_order: "irreflp (tightens field) \<and> transp (tightens field)"
proof
  show "irreflp (tightens field)"
    by (rule irreflpI) (auto simp: tightens_def is_superset_psubset split: option.splits)
  show "transp (tightens field)"
  proof (rule transpI)
    fix a b c
    assume ab: "tightens field a b" and bc: "tightens field b c"
    consider "field = ''validity''" | "field = ''delegation_depth''" | "field = ''credential_mode''"
      | "field \<in> {''forbidden_effects'', ''authority'', ''preconditions''}" | "field = ''approval''"
      | "field = ''compensation''" using ab by (auto simp: tightens_def split: if_splits)
    then show "tightens field a c"
    proof cases
      case 1
      then show ?thesis using ab bc by (auto simp: tightens_def split: if_splits option.splits)
    next
      case 4
      then have "control_items a \<subset> control_items b" "control_items b \<subset> control_items c"
        using ab bc by (auto simp: tightens_def is_superset_psubset)
      then have "control_items a \<subset> control_items c" by blast
      then show ?thesis using 4 by (auto simp: tightens_def is_superset_psubset)
    qed (use ab bc in \<open>auto simp: tightens_def\<close>)
  qed
qed

text \<open>
  The strengths miss what they are meant to compare. An approval that is no longer required is
  tighter than a required one when it asks for enough approvals, and any text is a tighter
  validity than none.
\<close>

theorem tightening_anomalies:
  "tightens ''approval'' ''true|50'' ''false|200'' \<and> tightens ''validity'' [] ''never''"
  by code_simp

section \<open>Verdicts\<close>

lemma controls_with_Nil: "controls_with judge v order = [] \<longleftrightarrow> list_all (\<lambda>f. judge f \<noteq> Some v) order"
  by (simp add: controls_with_def filter_empty_conv list_all_iff)

lemma sort_Nil_iff [simp]: "sort xs = [] \<longleftrightarrow> xs = []"
  by (metis set_empty set_sort)

lemma compare_controls_valid:
  "cf_valid (compare_controls order p a j r) \<longleftrightarrow>
     unknown_exceptions (an_exceptions a) = [] \<and>
     list_all (\<lambda>f. judge_control (pl_contract p) j (an_exceptions a) f \<noteq> Some Weaker) order"
  by (simp add: compare_controls_def Let_def controls_with_Nil [symmetric])

definition no_control_weakened :: "string list \<Rightarrow> proposal \<Rightarrow> activation \<Rightarrow> projection option \<Rightarrow> bool" where
  "no_control_weakened order p a proj \<longleftrightarrow> unknown_exceptions (an_exceptions a) = [] \<and>
     (case proj of None \<Rightarrow> True
      | Some j \<Rightarrow> list_all (\<lambda>f. judge_control (pl_contract p) j (an_exceptions a) f \<noteq> Some Weaker) order)"

lemma compare_released_valid: "cf_valid r = False \<Longrightarrow> cf_valid (compare_released a r) \<longleftrightarrow> unknown_exceptions (an_exceptions a) = []"
  by (simp add: compare_released_def settle_reasons_def Let_def)

lemma compare_missing_valid:
  "cf_valid r = False \<Longrightarrow> cf_valid (compare_missing a ms r) \<longleftrightarrow> list_all (contains_exception (an_exceptions a)) ms"
  by (simp add: compare_missing_def settle_reasons_def Let_def filter_empty_conv list_all_iff)


section \<open>The order of the map\<close>

lemma controls_with_perm:
  "mset order = mset order' \<Longrightarrow> mset (controls_with judge v order) = mset (controls_with judge v order')"
  by (simp add: controls_with_def mset_filter)

lemma compare_controls_order:
  assumes "mset order = mset order'"
  shows "(compare_controls order p a j r)\<lparr>cf_exceptions := []\<rparr> = (compare_controls order' p a j r)\<lparr>cf_exceptions := []\<rparr>"
    and "cf_valid (compare_controls order p a j r) \<Longrightarrow>
      cf_exceptions (compare_controls order p a j r) = cf_exceptions (compare_controls order' p a j r)"
proof -
  let ?w = "\<lambda>v o'. controls_with (judge_control (pl_contract p) j (an_exceptions a)) v o'"
  have perm: "mset (?w v order) = mset (?w v order')" for v using assms by (rule controls_with_perm)
  have weak: "sort (?w Weaker order) = sort (?w Weaker order')" using perm by (metis properties_for_sort sorted_sort mset_sort)
  have empty: "?w v order = [] \<longleftrightarrow> ?w v order' = []" for v using perm [of v] by (metis mset_zero_iff)
  have "unique_sorted_seen (xs @ ?w v order) = unique_sorted_seen (xs @ ?w v order')" for xs v
    using perm [of v] by (intro us_seen.norm_cong) (metis set_append set_mset_mset)
  note uniq = this
  show "(compare_controls order p a j r)\<lparr>cf_exceptions := []\<rparr> = (compare_controls order' p a j r)\<lparr>cf_exceptions := []\<rparr>"
    using weak empty by (simp add: compare_controls_def Let_def)
  assume "cf_valid (compare_controls order p a j r)"
  then have "unknown_exceptions (an_exceptions a) = []" "?w Weaker order = []" "?w Weaker order' = []"
    using empty [of Weaker] by (simp_all add: compare_controls_valid controls_with_Nil)
  then show "cf_exceptions (compare_controls order p a j r) = cf_exceptions (compare_controls order' p a j r)"
    using uniq empty [of Exempt] empty [of Tighter] by (simp add: compare_controls_def Let_def)
qed

text \<open>
  The verdict does not depend on the order in which Go visits the map of controls: any order gives what the
  sorted order gives, but for the stated exceptions, and these too when the comparison is valid.
\<close>

theorem comparison_order_independent:
  "(compare_proposal_activation order p a pr ar proj)\<lparr>cf_exceptions := []\<rparr> =
      (compare_proposal_activation (sort order) p a pr ar proj)\<lparr>cf_exceptions := []\<rparr> \<and>
    (if cf_valid (compare_proposal_activation order p a pr ar proj)
     then cf_exceptions (compare_proposal_activation order p a pr ar proj) =
       cf_exceptions (compare_proposal_activation (sort order) p a pr ar proj) else True)"
proof (cases proj)
  case (Some j)
  let ?r = "zero_conformance\<lparr>cf_checked := checked_fields\<rparr>"
  let ?c = "\<lambda>o'. compare_controls o' p a j ?r"
  have perm: "mset order = mset (sort order)" by simp
  have settle: "(settle_reasons x)\<lparr>cf_exceptions := []\<rparr> = settle_reasons (x\<lparr>cf_exceptions := []\<rparr>)" for x
    by (simp add: settle_reasons_def)
  have "(settle_reasons (?c order))\<lparr>cf_exceptions := []\<rparr> = (settle_reasons (?c (sort order)))\<lparr>cf_exceptions := []\<rparr>"
    unfolding settle using compare_controls_order(1) [OF perm, of p a j ?r] by simp
  moreover have "cf_valid (settle_reasons (?c order)) \<Longrightarrow>
      cf_exceptions (settle_reasons (?c order)) = cf_exceptions (settle_reasons (?c (sort order)))"
    using compare_controls_order(2) [OF perm, of p a j ?r] by (simp add: settle_reasons_def)
  ultimately show ?thesis by (simp add: compare_proposal_activation_def Let_def Some)
qed (simp add: compare_proposal_activation_def Let_def)

lemma digit_char_cases: "is_digit c \<Longrightarrow> c \<in> set ''0123456789''"
proof -
  assume "is_digit c"
  then have "(of_char c :: nat) \<in> set [48..<58]" unfolding is_digit_def set_upt atLeastLessThan_iff by linarith
  moreover have "list_all (\<lambda>n. char_of n \<in> set ''0123456789'') [48..<58 :: nat]" by code_simp
  ultimately have "char_of (of_char c :: nat) \<in> set ''0123456789''" by (metis list_all_iff)
  then show ?thesis by simp
qed

lemma digit_facts:
  assumes "is_digit c"
  shows "hex_value c = digit_value c" "base_digit 10 c" "c \<noteq> CHR ''_''" "c \<noteq> CHR ''-''" "c \<noteq> CHR ''+''"
    "leading_rune go_spaces (c # cs) = 0"
proof -
  have l: "list_all (\<lambda>c. hex_value c = digit_value c \<and> base_digit 10 c \<and> c \<noteq> CHR ''_'' \<and> c \<noteq> CHR ''-'' \<and> c \<noteq> CHR ''+'')
      ''0123456789''" by code_simp
  from digit_char_cases [OF assms]
  show "hex_value c = digit_value c" "base_digit 10 c" "c \<noteq> CHR ''_''" "c \<noteq> CHR ''-''" "c \<noteq> CHR ''+''"
    using l by (auto simp: list_all_iff)
  have s: "list_all (\<lambda>p. list_all (\<lambda>c. hd p \<noteq> c) ''0123456789'') go_spaces" by code_simp
  show "leading_rune go_spaces (c # cs) = 0"
    unfolding leading_rune_eq_0_iff
  proof (intro ballI impI)
    fix p :: string assume p: "p \<in> set go_spaces" "p \<noteq> []"
    then have "hd p \<noteq> c" using s digit_char_cases [OF assms] by (auto simp: list_all_iff)
    then show "\<not> prefix p (c # cs)" using p(2) by (cases p) auto
  qed
qed

lemma nat_digits_head: "hd (nat_digits n) = CHR ''0'' \<longleftrightarrow> n = 0"
proof (induction n rule: nat_digits.induct)
  case (1 n)
  show ?case
  proof (cases "n < 10")
    case True
    have "list_all (\<lambda>n. (hd (nat_digits n) = CHR ''0'') = (n = 0)) [0..<10]" by code_simp
    then show ?thesis using True by (simp add: list_all_iff)
  next
    case False
    then have "hd (nat_digits n) = hd (nat_digits (n div 10))"
      by (subst nat_digits.simps) (simp add: nat_digits_facts)
    then show ?thesis using 1 False by simp
  qed
qed


definition in_int64 :: "int \<Rightarrow> bool" where
  "in_int64 n \<longleftrightarrow> - max_int64 - 1 \<le> n \<and> n \<le> max_int64"

lemma foldl_digits:
  "list_all is_digit ds \<Longrightarrow> foldl (\<lambda>n c. 10 * n + hex_value c) a ds = foldl (\<lambda>n c. 10 * n + digit_value c) a ds"
  by (induction ds arbitrary: a) (simp_all add: digit_facts)

lemma underscores_digits: "list_all is_digit ds \<Longrightarrow> underscores_ok b ds"
  by (induction ds arbitrary: b) (simp_all add: digit_facts)

lemma scan_digits:
  fixes n :: nat
  defines "ds \<equiv> nat_digits n"
  shows "\<exists>base read rest. scan_base ds = Some (base, read, rest) \<and>
    takeWhile (\<lambda>c. base_digit base c \<or> c = CHR ''_'') rest = rest \<and>
    foldl (\<lambda>n c. base * n + hex_value c) 0 (filter (\<lambda>c. c \<noteq> CHR ''_'') rest) = int n \<and>
    (rest \<noteq> [] \<or> read) \<and> \<not> bare_prefix ds \<and> underscores_ok read rest"
proof -
  have ds: "list_all is_digit ds" "digits_value ds = int n" "ds \<noteq> []" using nat_digits_facts by (simp_all add: ds_def)
  have bare: "\<not> bare_prefix ds"
  proof
    assume b: "bare_prefix ds"
    then have "n = 0" using nat_digits_head by (simp add: bare_prefix_def ds_def)
    then show False using b by (simp add: bare_prefix_def ds_def nat_digits.simps)
  qed
  show ?thesis
  proof (cases "n = 0")
    case True
    have "digit_char 0 = CHR ''0''" by code_simp
    then have "ds = ''0''" using True by (simp add: ds_def nat_digits.simps)
    then show ?thesis
      using True bare by (intro exI [of _ 8] exI [of _ True] exI [of _ "[]"]) (simp add: scan_base_def)
  next
    case False
    then have "hd ds \<noteq> CHR ''0''" using nat_digits_head by (simp add: ds_def)
    then have scan: "scan_base ds = Some (10, False, ds)" using ds(3) by (auto simp: scan_base_def split: list.splits)
    have none: "filter (\<lambda>c. c \<noteq> CHR ''_'') ds = ds" "takeWhile (\<lambda>c. base_digit 10 c \<or> c = CHR ''_'') ds = ds"
      using ds(1) by (auto simp: list_all_iff digit_facts intro!: filter_True takeWhile_eq_all_conv [THEN iffD2])
    show ?thesis
      unfolding scan using none bare ds foldl_digits [OF ds(1), of 0] underscores_digits [OF ds(1)]
      by (intro exI [of _ 10] exI [of _ False] exI [of _ ds]) (simp add: digits_value_def)
  qed
qed

lemma scanned_int:
  assumes "in_int64 n"
  shows "int_value (itoa n) = n"
proof -
  define ds where "ds = nat_digits (nat \<bar>n\<bar>)"
  obtain base r rest where scan: "scan_base ds = Some (base, r, rest)"
    "takeWhile (\<lambda>c. base_digit base c \<or> c = CHR ''_'') rest = rest"
    "foldl (\<lambda>n c. base * n + hex_value c) 0 (filter (\<lambda>c. c \<noteq> CHR ''_'') rest) = int (nat \<bar>n\<bar>)"
    "rest \<noteq> [] \<or> r" "\<not> bare_prefix ds" "underscores_ok r rest"
    using scan_digits [of "nat \<bar>n\<bar>"] by (auto simp: ds_def)
  obtain c cs where ds: "ds = c # cs" "is_digit c" using nat_digits_facts [of "nat \<bar>n\<bar>"] by (cases ds) (auto simp: ds_def)
  have minus: "leading_rune go_spaces (CHR ''-'' # x) = 0" for x
  proof -
    have "list_all (\<lambda>p. hd p \<noteq> CHR ''-'' \<and> p \<noteq> []) go_spaces" by code_simp
    then show ?thesis unfolding leading_rune_eq_0_iff by (auto simp: list_all_iff prefix_Cons)
  qed
  have trim: "trim_left (itoa n) = itoa n"
    using ds digit_facts(6) [OF ds(2)] minus
    by (auto simp: trim_left_def itoa_def ds_def abs_if split: if_splits intro!: strip_front_done)
  have scanned: "scan_value neg ds = (if neg then - int (nat \<bar>n\<bar>) else int (nat \<bar>n\<bar>))"
    if "if neg then n \<le> 0 else 0 \<le> n" for neg
  proof -
    define v where "v = (if neg then - int (nat \<bar>n\<bar>) else int (nat \<bar>n\<bar>))"
    have "\<not> (v > max_int64 \<or> v < - max_int64 - 1)"
      using that assms by (auto simp: in_int64_def v_def)
    moreover have "\<not> (rest = [] \<and> (\<not> r \<or> bare_prefix ds))" using scan by auto
    ultimately show ?thesis
      unfolding scan_value_def scan(1) option.case prod.case Let_def scan(2,3) v_def [symmetric]
      using scan(6) by (simp only: if_False not_True_eq_False)
  qed
  show ?thesis
  proof (cases "n < 0")
    case True
    then have "itoa n = CHR ''-'' # ds" by (simp add: itoa_def ds_def)
    then show ?thesis using scanned [of True] True trim by (simp add: int_value_def)
  next
    case False
    then have "itoa n = ds" by (simp add: itoa_def ds_def)
    then show ?thesis using scanned [of False] False trim digit_facts(4,5) [OF ds(2)] by (simp add: int_value_def ds(1))
  qed
qed

text \<open>
  On the numbers of the contract the comparison of delegation depths is the one of integers: printed with
  \<open>fmt.Sprint\<close> and scanned again, every 64-bit depth is itself, so a projection tightens exactly when
  its depth is smaller. Equal values are kept, and nothing in between is lost.
\<close>

theorem depth_tightening_exact:
  assumes "in_int64 m" and "in_int64 n"
  shows "tightens ''delegation_depth'' (itoa m) (itoa n) = (n < m) \<and> (itoa m = itoa n) = (m = n)"
proof
  show "tightens ''delegation_depth'' (itoa m) (itoa n) = (n < m)"
    by (simp add: tightens_def scanned_int assms)
  show "(itoa m = itoa n) = (m = n)" by (metis scanned_int assms)
qed

theorem depth_tightening_exact_witness:
  "tightens ''delegation_depth'' (itoa 5) (itoa (- 3)) = (- 3 < (5 :: int)) \<and> (itoa 5 = itoa (- 3)) = (5 = (- 3 :: int))"
  by (rule depth_tightening_exact) (simp_all add: in_int64_def max_int64_def)

end
