(* ===== verification/NativeStore.thy ===== *)
theory NativeStore
  imports Conformance Store "HOL-Library.Countable"
begin

text \<open>
  \<open>core/ingest/actioncontract/store.go\<close>: the store of the producers' own documents. A document
  is kept byte for byte beside an envelope that indexes it, and an activation beside a receipt
  signed by the store. The state is the directory tree below \<open>action-contract\<close>; the faults that
  writes meet are arguments. Removing a file and writing back a snapshot are taken to succeed.
\<close>

section \<open>Files\<close>

datatype node =
    Regular string
  | Symlink "string option"          \<comment> \<open>what reading through it gives; \<open>None\<close> when it dangles\<close>
  | Subdir

type_synonym path = "string \<times> string"      \<comment> \<open>directory and file name\<close>
type_synonym tree = "(path \<times> node) list"

definition node_at :: "tree \<Rightarrow> path \<Rightarrow> node option" where
  "node_at t p = map_of t p"

definition read_node :: "node option \<Rightarrow> string go_file" where
  \<comment> \<open>\<open>os.ReadFile\<close>\<close>
  "read_node n = (case n of
       None \<Rightarrow> Missing
     | Some (Regular b) \<Rightarrow> Content b
     | Some (Symlink None) \<Rightarrow> Missing
     | Some (Symlink (Some b)) \<Rightarrow> Content b
     | Some Subdir \<Rightarrow> Unreadable)"

definition put_file :: "bool \<Rightarrow> fs_fault option \<Rightarrow> path \<Rightarrow> string \<Rightarrow> tree \<Rightarrow> tree \<times> string option" where
  \<comment> \<open>\<open>store.WriteJSONAtomic(path, raw, true)\<close>; renaming over a directory fails\<close>
  "put_file ign fault p raw t =
    (if node_at t p = Some Subdir then (t, Some ''rename temp file'')
     else (let (f, err) = write_json_atomic ign True fault raw Missing
           in (if f = Content raw then AList.update p (Regular raw) t else t, err)))"

definition remove_file :: "path \<Rightarrow> tree \<Rightarrow> tree" where
  "remove_file p t = AList.delete p t"

section \<open>Envelopes and receipts\<close>

definition proposal_dir :: string where "proposal_dir = ''proposals''"
definition activation_dir :: string where "activation_dir = ''activations''"

definition activation_receipt_schema :: string where
  "activation_receipt_schema =
     ''https://axym.dev/schemas/v1/action-contract-activation-verification-receipt.schema.json''"

definition activation_receipt_version :: string where "activation_receipt_version = ''1''"

record native_envelope =
  nv_type :: string
  nv_artifact_id :: string
  nv_contract_id :: string
  nv_family :: string
  nv_revision :: int
  nv_producer :: producer
  nv_schema_id :: string
  nv_schema_version :: string
  nv_contract_version :: string
  nv_raw_digest :: string
  nv_digest :: string
  nv_references :: "string list"
  nv_report_only :: bool
  nv_mode :: string
  nv_non_binding :: bool
  nv_reasons :: "string list"
  nv_conformance :: string

record activation_receipt =
  ar_schema_id :: string
  ar_schema_version :: string
  ar_artifact_id :: string
  ar_raw_digest :: string
  ar_signature_digest :: string
  ar_conformance :: string
  ar_reasons :: "string list"
  ar_signer :: string
  ar_issued_at :: string
  ar_signature :: signature

record stored_artifact =
  so_path :: path
  so_raw :: string
  so_envelope :: native_envelope

record native_lib =
  nl_artifact :: artifact_lib
  nl_encode_env :: "native_envelope \<Rightarrow> string"                \<comment> \<open>\<open>json.MarshalIndent\<close> and a line break\<close>
  nl_decode_env :: "string \<Rightarrow> native_envelope option"         \<comment> \<open>strict, no duplicate keys, no trailing input\<close>
  nl_encode_receipt :: "activation_receipt \<Rightarrow> string"
  nl_decode_receipt :: "string \<Rightarrow> activation_receipt option"
  nl_receipt_digest :: "activation_receipt \<Rightarrow> string option"
  nl_conformance_digest :: "conformance \<Rightarrow> string option"
  nl_sign :: "string \<Rightarrow> string \<Rightarrow> signature option"    \<comment> \<open>private key and digest\<close>

definition sorted_refs :: "string list \<Rightarrow> string list" where
  "sorted_refs xs = unique_sorted_seen xs"

definition same_strings :: "string list \<Rightarrow> string list \<Rightarrow> bool" where
  "same_strings xs ys \<longleftrightarrow> sorted_refs xs = sorted_refs ys"

definition payload_name :: "string \<Rightarrow> string" where "payload_name i = i @ ''.json''"
definition envelope_name :: "string \<Rightarrow> string" where "envelope_name i = i @ ''.envelope.json''"
definition receipt_name :: "string \<Rightarrow> string" where "receipt_name i = i @ ''.verification.json''"

datatype native_error =
    IdentityRequired
  | UnsafeId
  | DifferentBytes
  | PayloadUnreadable
  | WriteError string
  | DevelopmentSigned
  | ConformanceRequired
  | ConformanceUndigestable
  | VerificationRequired
  | ProducerSignature string
  | NotRegular
  | NoSigningKey
  | ReceiptUnsigned
  | UnsupportedEntry
  | UnexpectedFile
  | SymlinkedEnvelope
  | InvalidPayload
  | EnvelopeUndecodable
  | DigestDiffers
  | EnvelopeIncomplete
  | MetadataDiffers
  | ReceiptMissing
  | ReceiptUndecodable
  | ReceiptDiffers
  | ReceiptTime
  | ReceiptSigner
  | ReceiptDigest
  | ReceiptSignature
  | OrphanPayload

section \<open>Persisting\<close>

definition unsafe_id :: "string \<Rightarrow> bool" where
  "unsafe_id i \<longleftrightarrow> CHR ''/'' \<in> set i \<or> CHR 0x5C \<in> set i"

record write_faults =
  wf_ignorable :: bool
  wf_payload :: "fs_fault option"
  wf_envelope :: "fs_fault option"
  wf_receipt :: "fs_fault option"

definition persist ::
  "native_lib \<Rightarrow> write_faults \<Rightarrow> string \<Rightarrow> string \<Rightarrow> string \<Rightarrow> string \<Rightarrow> native_envelope \<Rightarrow> tree \<Rightarrow>
     tree \<times> (native_error, stored_artifact) result" where
  "persist lib w base kind i raw env t =
    (if blank base \<or> blank i \<or> raw = [] then (t, Inl IdentityRequired)
     else if unsafe_id i then (t, Inl UnsafeId)
     else
       (let env = (if nv_raw_digest env = [] then env\<lparr>nv_raw_digest := raw_digest (nl_artifact lib) raw\<rparr> else env);
            payload = (kind, payload_name i); old = read_node (node_at t payload)
        in case old of
             Unreadable \<Rightarrow> (t, Inl PayloadUnreadable)
           | Corrupt \<Rightarrow> (t, Inl PayloadUnreadable)
           | _ \<Rightarrow>
             (if old \<noteq> Missing \<and> old \<noteq> Content raw then (t, Inl DifferentBytes)
              else case put_file (wf_ignorable w) (wf_payload w) payload raw t of
                (t1, Some e) \<Rightarrow> (t1, Inl (WriteError e))
              | (t1, None) \<Rightarrow>
                  (case put_file (wf_ignorable w) (wf_envelope w) (kind, envelope_name i) (nl_encode_env lib env) t1 of
                     (t2, Some e) \<Rightarrow> (if old = Missing then remove_file payload t2 else t2, Inl (WriteError e))
                   | (t2, None) \<Rightarrow> (t2, Inr \<lparr>so_path = payload, so_raw = raw, so_envelope = env\<rparr>)))))"

definition proposal_envelope :: "proposal \<Rightarrow> native_envelope" where
  "proposal_envelope p =
     \<lparr>nv_type = ''proposal'', nv_artifact_id = pl_artifact_id p, nv_contract_id = pl_contract_id p,
      nv_family = pl_family p, nv_revision = pl_revision p, nv_producer = pl_producer p,
      nv_schema_id = pl_schema_id p, nv_schema_version = pl_schema_version p,
      nv_contract_version = pm_contract_version (pl_producer p), nv_raw_digest = pl_raw_digest p,
      nv_digest = pl_digest p, nv_references = sorted_refs (pl_scans p @ pl_compositions p @ pl_creation p),
      nv_report_only = pl_report_only p, nv_mode = [], nv_non_binding = True, nv_reasons = [], nv_conformance = []\<rparr>"

definition persist_proposal ::
  "native_lib \<Rightarrow> write_faults \<Rightarrow> string \<Rightarrow> proposal \<Rightarrow> tree \<Rightarrow> tree \<times> (native_error, stored_artifact) result" where
  "persist_proposal lib w base p t =
     persist lib w base proposal_dir (pl_artifact_id p) (pl_raw p) (proposal_envelope p) t"

definition activation_envelope :: "activation \<Rightarrow> conformance \<Rightarrow> string \<Rightarrow> native_envelope" where
  "activation_envelope a c digest =
     \<lparr>nv_type = ''activation'', nv_artifact_id = an_artifact_id a, nv_contract_id = an_contract_id a,
      nv_family = an_family a, nv_revision = an_revision a, nv_producer = an_producer a,
      nv_schema_id = an_schema_id a, nv_schema_version = an_schema_version a,
      nv_contract_version = pm_contract_version (an_producer a), nv_raw_digest = an_raw_digest a,
      nv_digest = [], nv_references = sorted_refs (an_authority a), nv_report_only = an_report_only a,
      nv_mode = an_mode a, nv_non_binding = True, nv_reasons = sorted_refs (cf_reasons c), nv_conformance = digest\<rparr>"

definition restore :: "tree \<Rightarrow> path list \<Rightarrow> tree \<Rightarrow> tree" where
  \<comment> \<open>\<open>restoreFileSnapshots\<close>: each file back to what it was in \<open>old\<close>\<close>
  "restore old ps t =
     fold (\<lambda>p t. case node_at old p of None \<Rightarrow> remove_file p t | Some n \<Rightarrow> AList.update p n t) ps t"

definition not_regular :: "node option \<Rightarrow> bool" where
  "not_regular n \<longleftrightarrow> (case n of None \<Rightarrow> False | Some (Regular _) \<Rightarrow> False | _ \<Rightarrow> True)"

definition make_activation_receipt ::
  "native_lib \<Rightarrow> signing_key \<Rightarrow> string \<Rightarrow> activation \<Rightarrow> native_envelope \<Rightarrow> activation_receipt option" where
  "make_activation_receipt lib key now a env =
    (let r = \<lparr>ar_schema_id = activation_receipt_schema, ar_schema_version = activation_receipt_version,
         ar_artifact_id = an_artifact_id a, ar_raw_digest = raw_digest (nl_artifact lib) (an_raw a),
         ar_signature_digest = sg_signed_digest (an_signature a), ar_conformance = nv_conformance env,
         ar_reasons = nv_reasons env, ar_signer = sk_id key, ar_issued_at = now,
         ar_signature = \<lparr>sg_alg = [], sg_key_id = [], sg_signed_digest = [], sg_value = []\<rparr>\<rparr>
     in Option.bind (nl_receipt_digest lib r) (\<lambda>d.
        map_option (\<lambda>sg. r\<lparr>ar_signature := sg\<rparr>) (nl_sign lib (sk_private key) (trim_prefix d ''sha256:''))))"

definition persist_activation ::
  "native_lib \<Rightarrow> write_faults \<Rightarrow> signing_key option \<Rightarrow> string \<Rightarrow> string \<Rightarrow> activation \<Rightarrow> conformance option \<Rightarrow>
     (validation_result \<times> string) list \<Rightarrow> tree \<Rightarrow> tree \<times> (native_error, stored_artifact) result" where
  \<comment> \<open>\<open>key\<close>: the store's signing key, if it opens; \<open>now\<close>: the formatted time\<close>
  "persist_activation lib w key now base a conf verifs t =
    (let i = an_artifact_id a; paths = map (\<lambda>n. (activation_dir, n i)) [payload_name, envelope_name, receipt_name] in
     if an_development a then (t, Inl DevelopmentSigned)
     else case conf of
       None \<Rightarrow> (t, Inl ConformanceRequired)
     | Some c \<Rightarrow>
        if blank base \<or> i = [] \<or> unsafe_id i \<or> an_raw a = [] then (t, Inl IdentityRequired)
        else case nl_conformance_digest lib c of
          None \<Rightarrow> (t, Inl ConformanceUndigestable)
        | Some cd \<Rightarrow>
           (case verifs of
              [(vr, pub)] \<Rightarrow>
                if \<not> vd_valid vr \<or> \<not> vd_signature_verified vr then (t, Inl VerificationRequired)
                else (case verify_activation_signature (nl_artifact lib) a pub of
                  Some e \<Rightarrow> (t, Inl (ProducerSignature e))
                | None \<Rightarrow>
                   (let env = activation_envelope a c cd; rollback = restore t paths in
                    if list_ex (\<lambda>p. not_regular (node_at t p)) paths then (t, Inl NotRegular)
                    else case persist lib w base activation_dir i (an_raw a) env t of
                      (t1, Inl e) \<Rightarrow> (rollback t1, Inl e)
                    | (t1, Inr item) \<Rightarrow>
                       (case key of
                          None \<Rightarrow> (rollback t1, Inl NoSigningKey)
                        | Some k \<Rightarrow>
                           (case make_activation_receipt lib k now a env of
                              None \<Rightarrow> (rollback t1, Inl ReceiptUnsigned)
                            | Some r \<Rightarrow>
                               (case put_file (wf_ignorable w) (wf_receipt w) (activation_dir, receipt_name i)
                                    (nl_encode_receipt lib r) t1 of
                                  (t2, Some e) \<Rightarrow> (rollback t2, Inl (WriteError e))
                                | (t2, None) \<Rightarrow> (t2, Inr item))))))
            | _ \<Rightarrow> (t, Inl VerificationRequired)))"

section \<open>Loading\<close>

definition names_in :: "tree \<Rightarrow> string \<Rightarrow> string list" where
  \<comment> \<open>\<open>os.ReadDir\<close>: the names of a directory in order\<close>
  "names_in t kind = sort (dedup (map snd (filter (\<lambda>p. fst p = kind) (map fst t))))"

definition has_suffix :: "string \<Rightarrow> string \<Rightarrow> bool" where
  "has_suffix s x \<longleftrightarrow> suffix x s"

definition trim_suffix :: "string \<Rightarrow> string \<Rightarrow> string" where
  "trim_suffix s x = (if suffix x s then take (length s - length x) s else s)"

definition validate_stored_envelope :: "native_lib \<Rightarrow> string \<Rightarrow> native_envelope \<Rightarrow> string \<Rightarrow> native_error option" where
  "validate_stored_envelope lib kind env raw =
    (if nv_raw_digest env \<noteq> raw_digest (nl_artifact lib) raw \<or> nv_artifact_id env = [] \<or> nv_contract_id env = [] \<or>
        nv_family env = [] \<or> nv_revision env < 1 \<or> pm_name (nv_producer env) = [] \<or> nv_schema_id env = [] \<or>
        nv_schema_version env = [] \<or> nv_contract_version env = [] \<or> \<not> nv_non_binding env then Some EnvelopeIncomplete
     else if kind = proposal_dir then
       (case parse_proposal (nl_artifact lib) raw of
          Inl _ \<Rightarrow> Some MetadataDiffers
        | Inr p \<Rightarrow>
           if nv_type env \<noteq> ''proposal'' \<or> nv_producer env \<noteq> pl_producer p \<or> nv_schema_id env \<noteq> proposal_schema_id \<or>
             nv_schema_version env \<noteq> proposal_schema_version \<or> nv_contract_version env \<noteq> proposal_contract_version \<or>
             nv_artifact_id env \<noteq> pl_artifact_id p \<or> nv_contract_id env \<noteq> pl_contract_id p \<or>
             nv_family env \<noteq> pl_family p \<or> nv_revision env \<noteq> pl_revision p \<or> nv_digest env \<noteq> pl_digest p \<or>
             \<not> nv_report_only env \<or> \<not> pl_report_only p \<or>
             \<not> same_strings (nv_references env) (sorted_refs (pl_scans p @ pl_compositions p @ pl_creation p))
           then Some MetadataDiffers else None)
     else
       (case parse_activation (nl_artifact lib) raw of
          Inl _ \<Rightarrow> Some MetadataDiffers
        | Inr a \<Rightarrow>
           if nv_type env \<noteq> ''activation'' \<or> nv_producer env \<noteq> an_producer a \<or> nv_schema_id env \<noteq> activation_schema_id \<or>
             nv_schema_version env \<noteq> activation_schema_version \<or> nv_contract_version env \<noteq> activation_contract_version \<or>
             nv_artifact_id env \<noteq> an_artifact_id a \<or> nv_contract_id env \<noteq> an_contract_id a \<or>
             nv_family env \<noteq> an_family a \<or> nv_revision env \<noteq> an_revision a \<or> nv_report_only env \<noteq> an_report_only a \<or>
             nv_mode env \<noteq> an_mode a \<or> \<not> same_strings (nv_references env) (sorted_refs (an_authority a))
           then Some MetadataDiffers else None))"

definition receipt_public_key ::
  "(string \<times> string) option \<Rightarrow> (string \<times> string) option \<Rightarrow> (string \<times> string) option" where
  \<comment> \<open>public key and its id: of the managed store, else of the bundle's key file (id and base64)\<close>
  "receipt_public_key managed bundle =
    (case managed of
       Some k \<Rightarrow> Some k
     | None \<Rightarrow> (case bundle of
         None \<Rightarrow> None
       | Some (kid, encoded) \<Rightarrow> (case base64_decode encoded of
           None \<Rightarrow> None
         | Some pub \<Rightarrow> if length pub \<noteq> 32 \<or> kid = [] then None else Some (pub, kid))))"

definition verify_stored_receipt ::
  "native_lib \<Rightarrow> (string \<times> string) option \<Rightarrow> tree \<Rightarrow> activation \<Rightarrow> native_envelope \<Rightarrow> native_error option" where
  "verify_stored_receipt lib pk t a env =
    (case node_at t (activation_dir, receipt_name (an_artifact_id a)) of
       Some (Regular raw) \<Rightarrow>
         (case nl_decode_receipt lib raw of
            None \<Rightarrow> Some ReceiptUndecodable
          | Some r \<Rightarrow>
             if ar_schema_id r \<noteq> activation_receipt_schema \<or> ar_schema_version r \<noteq> activation_receipt_version \<or>
               ar_artifact_id r \<noteq> an_artifact_id a \<or> ar_raw_digest r \<noteq> raw_digest (nl_artifact lib) (an_raw a) \<or>
               ar_signature_digest r \<noteq> sg_signed_digest (an_signature a) \<or> ar_conformance r = [] \<or>
               ar_conformance r \<noteq> nv_conformance env \<or> \<not> same_strings (ar_reasons r) (nv_reasons env) \<or>
               ar_signer r = [] \<or> ar_issued_at r = [] then Some ReceiptDiffers
             else if parse_rfc3339 (ar_issued_at r) = None then Some ReceiptTime
             else (case pk of
               None \<Rightarrow> Some ReceiptSigner
             | Some (pub, kid) \<Rightarrow>
                 if ar_signer r \<noteq> kid then Some ReceiptSigner
                 else case nl_receipt_digest lib (r\<lparr>ar_signature :=
                     \<lparr>sg_alg = [], sg_key_id = [], sg_signed_digest = [], sg_value = []\<rparr>\<rparr>) of
                   None \<Rightarrow> Some ReceiptDigest
                 | Some d \<Rightarrow>
                     if sg_signed_digest (ar_signature r) \<noteq> trim_prefix d ''sha256:'' then Some ReceiptDigest
                     else if al_verify (nl_artifact lib) pub (ar_signature r) \<noteq> Some True \<or>
                       sg_key_id (ar_signature r) \<noteq> kid then Some ReceiptSignature
                     else None))
     | _ \<Rightarrow> Some ReceiptMissing)"

definition load_entry ::
  "native_lib \<Rightarrow> (string \<times> string) option \<Rightarrow> tree \<Rightarrow> string \<Rightarrow> string \<Rightarrow> (native_error, stored_artifact option) result" where
  \<comment> \<open>one turn of the first loop over a directory; \<open>None\<close> for a file that is not an envelope\<close>
  "load_entry lib pk t kind name =
    (case node_at t (kind, name) of
       None \<Rightarrow> Inr None
     | Some n \<Rightarrow>
        if n = Subdir \<or> \<not> has_suffix name ''.envelope.json'' then
          (if n = Subdir \<or> \<not> has_suffix name ''.json'' then Inl UnexpectedFile else Inr None)
        else case n of
          Symlink _ \<Rightarrow> Inl SymlinkedEnvelope
        | Subdir \<Rightarrow> Inl UnexpectedFile
        | Regular env_raw \<Rightarrow>
           (let i = trim_suffix name ''.envelope.json'' in
            case node_at t (kind, payload_name i) of
              Some (Regular raw) \<Rightarrow>
                (case nl_decode_env lib env_raw of
                   None \<Rightarrow> Inl EnvelopeUndecodable
                 | Some env \<Rightarrow>
                    if nv_artifact_id env \<noteq> i \<or> nv_raw_digest env \<noteq> raw_digest (nl_artifact lib) raw then Inl DigestDiffers
                    else case validate_stored_envelope lib kind env raw of
                      Some e \<Rightarrow> Inl e
                    | None \<Rightarrow>
                       (case (if kind = activation_dir then
                            (case parse_activation (nl_artifact lib) raw of
                               Inl _ \<Rightarrow> Some MetadataDiffers
                             | Inr a \<Rightarrow> verify_stored_receipt lib pk t a env)
                          else None) of
                          Some e \<Rightarrow> Inl e
                        | None \<Rightarrow> Inr (Some \<lparr>so_path = (kind, payload_name i), so_raw = raw, so_envelope = env\<rparr>)))
            | _ \<Rightarrow> Inl InvalidPayload))"

definition load_entries ::
  "native_lib \<Rightarrow> (string \<times> string) option \<Rightarrow> tree \<Rightarrow> (string \<times> string) list \<Rightarrow> (native_error, stored_artifact list) result" where
  "load_entries lib pk t ps =
     foldr (\<lambda>(kind, name) acc. bind_result (load_entry lib pk t kind name)
         (\<lambda>x. bind_result acc (\<lambda>xs. Inr (case x of None \<Rightarrow> xs | Some a \<Rightarrow> a # xs)))) ps (Inr [])"

definition orphan :: "tree \<Rightarrow> string \<Rightarrow> string \<Rightarrow> bool" where
  "orphan t kind name \<longleftrightarrow>
     node_at t (kind, name) \<noteq> Some Subdir \<and> has_suffix name ''.json'' \<and> \<not> has_suffix name ''.envelope.json'' \<and>
     \<not> has_suffix name ''.verification.json'' \<and>
     node_at t (kind, envelope_name (trim_suffix name ''.json'')) = None"

definition known_dirs :: "string list" where
  "known_dirs = [proposal_dir, activation_dir, ''packets'', ''timelines'', ''graphs'']"

definition load_kind ::
  "native_lib \<Rightarrow> (string \<times> string) option \<Rightarrow> tree \<Rightarrow> string \<Rightarrow> (native_error, stored_artifact list) result" where
  "load_kind lib pk t kind =
     bind_result (load_entries lib pk t (map (Pair kind) (names_in t kind)))
       (\<lambda>xs. if list_ex (orphan t kind) (names_in t kind) then Inl OrphanPayload else Inr xs)"

definition load_stored ::
  "native_lib \<Rightarrow> (string \<times> string) option \<Rightarrow> tree \<Rightarrow> (native_error, stored_artifact list) result" where
  \<comment> \<open>\<open>LoadStored\<close>; every file of the tree lies in a directory, so the base holds directories only\<close>
  "load_stored lib pk t =
    (if list_ex (\<lambda>p. fst (fst p) \<notin> set known_dirs) t then Inl UnsupportedEntry
     else bind_result (load_kind lib pk t proposal_dir) (\<lambda>ps.
       bind_result (load_kind lib pk t activation_dir) (\<lambda>as.
         Inr (go_sort (\<lambda>a b. so_path a < so_path b) (ps @ as)))))"

section \<open>What the operations write\<close>

lemma node_at_update [simp]: "node_at (AList.update p n t) q = (if q = p then Some n else node_at t q)"
  by (simp add: node_at_def update_conv')

lemma node_at_remove [simp]: "node_at (remove_file p t) q = (if q = p then None else node_at t q)"
  by (simp add: node_at_def remove_file_def delete_conv')

lemma put_file_cases:
  assumes "put_file ign fault p raw t = (t', err)"
  shows "t' = t \<and> err \<noteq> None \<or> t' = AList.update p (Regular raw) t \<and> (err \<noteq> None \<longrightarrow> fault \<noteq> None)"
  using assms by (auto simp: put_file_def write_json_atomic_def split: if_splits option.splits fs_fault.splits)

lemma put_file_frame: "q \<noteq> p \<Longrightarrow> node_at (fst (put_file ign fault p raw t)) q = node_at t q"
  using put_file_cases [of ign fault p raw t] by (cases "put_file ign fault p raw t") auto

lemma put_file_ok: "put_file ign fault p raw t = (t', None) \<Longrightarrow> t' = AList.update p (Regular raw) t"
  using put_file_cases by fastforce

lemma persist_paths:
  assumes "persist lib w base kind i raw env t = (t', r)"
    and "q \<noteq> (kind, payload_name i)" and "q \<noteq> (kind, envelope_name i)"
  shows "node_at t' q = node_at t q"
  using assms(1) put_file_frame [OF assms(2)] put_file_frame [OF assms(3)] assms(2)
  by (auto simp: persist_def Let_def split: if_splits go_file.splits prod.splits option.splits)
    (metis fst_conv)+

lemma node_at_restore:
  "node_at (restore old ps t) q = (if q \<in> set ps then node_at old q else node_at t q)"
  by (induction ps arbitrary: t) (auto simp: restore_def split: option.splits)

lemma failed_activation:
  "case persist_activation lib w key now base a conf verifs t of
     (t', Inl _) \<Rightarrow> node_at t' = node_at t
   | (t', Inr item) \<Rightarrow> so_raw item = an_raw a"
proof -
  define paths where "paths = map (\<lambda>n. (activation_dir, n (an_artifact_id a))) [payload_name, envelope_name, receipt_name]"
  have undone: "node_at (restore t paths t1) = node_at t"
    if "\<And>q. q \<notin> set paths \<Longrightarrow> node_at t1 q = node_at t q" for t1
    using that by (auto simp: node_at_restore)
  have one: "node_at t1 q = node_at t q" if "persist lib w base activation_dir (an_artifact_id a) raw env t = (t1, r)"
    "q \<notin> set paths" for t1 r q raw env
    using persist_paths [OF that(1)] that(2) by (auto simp: paths_def)
  have two: "node_at t2 q = node_at t q" if "persist lib w base activation_dir (an_artifact_id a) raw env t = (t1, r)"
    "put_file ign fault (activation_dir, receipt_name (an_artifact_id a)) x t1 = (t2, e)" "q \<notin> set paths" for t1 t2 r q raw env ign fault x e
  proof -
    have "q \<noteq> (activation_dir, receipt_name (an_artifact_id a))" using that(3) by (auto simp: paths_def)
    from put_file_frame [OF this, of ign fault x t1] that(2) one [OF that(1,3)] show ?thesis by simp
  qed
  have raw: "so_raw item = raw" if "persist lib w base kind i raw env t = (t1, Inr item)" for kind i raw env t1 item
    using that by (auto simp: persist_def Let_def split: if_splits go_file.splits prod.splits option.splits)
  show ?thesis
    unfolding persist_activation_def Let_def paths_def [symmetric]
    by (auto split: prod.splits sum.splits option.splits list.splits dest: raw intro!: undone intro: one two)
qed


section \<open>Documents are written once\<close>

datatype native_op =
    PutProposal write_faults proposal
  | PutActivation write_faults "signing_key option" string activation "conformance option" "(validation_result \<times> string) list"

definition apply_op :: "native_lib \<Rightarrow> string \<Rightarrow> native_op \<Rightarrow> tree \<Rightarrow> tree" where
  "apply_op lib base op t =
    (case op of
       PutProposal w p \<Rightarrow> fst (persist_proposal lib w base p t)
     | PutActivation w key now a conf verifs \<Rightarrow> fst (persist_activation lib w key now base a conf verifs t))"

definition document :: "tree \<Rightarrow> string \<Rightarrow> string \<Rightarrow> string option" where
  "document t kind i = (case node_at t (kind, payload_name i) of Some (Regular b) \<Rightarrow> Some b | _ \<Rightarrow> None)"

definition plain_id :: "string \<Rightarrow> bool" where "plain_id i \<longleftrightarrow> CHR ''.'' \<notin> set i"

lemma plain_names:
  assumes "plain_id i"
  shows "payload_name i \<noteq> envelope_name j" "payload_name i \<noteq> receipt_name j"
    "payload_name i = payload_name j \<longleftrightarrow> i = j"
proof -
  have "i @ ''.json'' \<noteq> (j @ ''.envelope'') @ ''.json''" "i @ ''.json'' \<noteq> (j @ ''.verification'') @ ''.json''"
    using assms by (auto simp: plain_id_def)
  then show "payload_name i \<noteq> envelope_name j" "payload_name i \<noteq> receipt_name j"
    by (simp_all add: payload_name_def envelope_name_def receipt_name_def)
qed (simp add: payload_name_def)

lemma persist_result:
  obtains (unchanged) "fst (persist lib w base kind i raw env t) = t"
  | (written) t1 e t2 x where "put_file (wf_ignorable w) (wf_payload w) (kind, payload_name i) raw t = (t1, e)"
      "t2 = t1 \<or> t2 = fst (put_file (wf_ignorable w) (wf_envelope w) (kind, envelope_name i) x t1)"
      "read_node (node_at t (kind, payload_name i)) \<in> {Missing, Content raw}"
      "fst (persist lib w base kind i raw env t) = t2 \<or>
       read_node (node_at t (kind, payload_name i)) = Missing \<and>
       fst (persist lib w base kind i raw env t) = remove_file (kind, payload_name i) t2"
proof -
  let ?old = "read_node (node_at t (kind, payload_name i))"
  let ?env = "if nv_raw_digest env = [] then env\<lparr>nv_raw_digest := raw_digest (nl_artifact lib) raw\<rparr> else env"
  obtain t1 e where p1: "put_file (wf_ignorable w) (wf_payload w) (kind, payload_name i) raw t = (t1, e)" by fastforce
  obtain t2 e2 where p2: "put_file (wf_ignorable w) (wf_envelope w) (kind, envelope_name i) (nl_encode_env lib ?env) t1 = (t2, e2)"
    by fastforce
  have eq: "fst (persist lib w base kind i raw env t) =
     (if blank base \<or> blank i \<or> raw = [] \<or> unsafe_id i \<or> ?old \<notin> {Missing, Content raw} then t
      else if e \<noteq> None then t1
      else if e2 \<noteq> None \<and> ?old = Missing then remove_file (kind, payload_name i) t2 else t2)"
    using p1 p2 by (cases ?old; cases e; cases e2) (auto simp: persist_def Let_def)
  show thesis
  proof (cases "blank base \<or> blank i \<or> raw = [] \<or> unsafe_id i \<or> ?old \<notin> {Missing, Content raw}")
    case True
    then show ?thesis using unchanged eq by simp
  next
    case False
    then have old: "?old \<in> {Missing, Content raw}" by blast
    have two: "t2 = fst (put_file (wf_ignorable w) (wf_envelope w) (kind, envelope_name i) (nl_encode_env lib ?env) t1)"
      by (simp add: p2)
    show ?thesis
    proof (cases "e = None")
      case True
      show ?thesis by (rule written [OF p1 disjI2 [OF two] old]) (use eq False True in auto)
    next
      case e: False
      show ?thesis by (rule written [OF p1 disjI1 [OF refl] old]) (use eq False e in auto)
    qed
  qed
qed

lemma persist_keeps:
  assumes "document t kind i = Some b" and "plain_id i"
  shows "document (fst (persist lib w base kind' j raw env t)) kind i = Some b"
proof (cases "(kind, payload_name i) = (kind', payload_name j)")
  case False
  have "node_at (fst (persist lib w base kind' j raw env t)) (kind, payload_name i) = node_at t (kind, payload_name i)"
  proof (rule persist_paths)
    show "persist lib w base kind' j raw env t =
        (fst (persist lib w base kind' j raw env t), snd (persist lib w base kind' j raw env t))" by simp
  qed (use False plain_names [OF assms(2)] in auto)
  then show ?thesis using assms(1) by (simp add: document_def)
next
  case True
  let ?p = "(kind', payload_name j)"
  have here: "node_at t ?p = Some (Regular b)" using assms(1) True by (auto simp: document_def split: option.splits node.splits)
  have env: "?p \<noteq> (kind', envelope_name j)" using True plain_names(1) [OF assms(2), of j] by auto
  have "node_at (fst (persist lib w base kind' j raw env t)) ?p = Some (Regular b)"
  proof (cases rule: persist_result [of lib w base kind' j raw env t])
    case unchanged
    then show ?thesis using here by simp
  next
    case (written t1 e t2 x)
    then have "raw = b" using here by (simp add: read_node_def)
    then have "node_at t1 ?p = Some (Regular b)" using put_file_cases [OF written(1)] here by auto
    then have "node_at t2 ?p = Some (Regular b)" using written(2) put_file_frame [OF env] by auto
    then show ?thesis using written(4) here by (simp add: read_node_def)
  qed
  then show ?thesis using True by (simp add: document_def)
qed

lemma activation_keeps:
  assumes "document t kind i = Some b" and "plain_id i"
  shows "document (fst (persist_activation lib w key now base a conf verifs t)) kind i = Some b"
proof (cases "persist_activation lib w key now base a conf verifs t")
  case (Pair t' r)
  show ?thesis
  proof (cases r)
    case (Inl e)
    then have "node_at t' = node_at t"
      using failed_activation [where lib = lib and w = w and key = key and now = now and base = base and a = a and
          conf = conf and verifs = verifs and t = t] Pair by simp
    then show ?thesis using assms(1) Pair by (simp add: document_def)
  next
    case (Inr item)
    then obtain c cd vr pub t1 env r f2 where run: "persist lib w base activation_dir (an_artifact_id a) (an_raw a) env t = (t1, Inr item)"
      "put_file (wf_ignorable w) f2 (activation_dir, receipt_name (an_artifact_id a)) r t1 = (t', None)"
      using Pair by (auto simp: persist_activation_def Let_def split: if_splits option.splits list.splits prod.splits sum.splits)
    have "document t1 kind i = Some b"
      using persist_keeps [OF assms, of lib w base activation_dir "an_artifact_id a" "an_raw a" env] run(1) by simp
    then show ?thesis
      using put_file_ok [OF run(2)] plain_names(2) [OF assms(2)] Pair by (auto simp: document_def)
  qed
qed

lemma run_keeps:
  "document t kind i = Some b \<Longrightarrow> plain_id i \<Longrightarrow> document (fold (apply_op lib base) ops t) kind i = Some b"
proof (induction ops arbitrary: t)
  case (Cons op ops)
  have "document (apply_op lib base op t) kind i = Some b"
    using Cons.prems by (cases op) (simp_all add: apply_op_def persist_proposal_def persist_keeps activation_keeps)
  then show ?case using Cons.IH Cons.prems(2) by simp
qed simp


section \<open>What a load returns\<close>

lemma load_entries_Inr:
  "load_entries lib pk t ps = Inr xs \<longleftrightarrow>
     list_all (\<lambda>(kind, name). \<exists>x. load_entry lib pk t kind name = Inr x) ps \<and>
     xs = List.map_filter (\<lambda>(kind, name). case load_entry lib pk t kind name of Inr x \<Rightarrow> x | Inl _ \<Rightarrow> None) ps"
proof (induction ps arbitrary: xs)
  case (Cons p ps)
  obtain kind name where p: "p = (kind, name)" by (cases p)
  have step: "load_entries lib pk t (p # ps) = bind_result (load_entry lib pk t kind name)
      (\<lambda>x. bind_result (load_entries lib pk t ps) (\<lambda>ys. Inr (case x of None \<Rightarrow> ys | Some a \<Rightarrow> a # ys)))"
    by (simp add: load_entries_def p)
  show ?case
    unfolding step bind_result_Inr_iff by (auto simp: Cons.IH p List.map_filter_simps split: option.splits)
qed (auto simp: load_entries_def List.map_filter_simps)

lemma set_load_entries:
  "load_entries lib pk t ps = Inr xs \<Longrightarrow>
     set xs = {x. \<exists>(kind, name) \<in> set ps. load_entry lib pk t kind name = Inr (Some x)}"
  unfolding load_entries_Inr by (force simp: List.map_filter_def split: sum.splits)

definition document_files :: "tree \<Rightarrow> path list" where
  "document_files t = concat (map (\<lambda>kind. map (Pair kind) (names_in t kind)) [proposal_dir, activation_dir])"

lemma load_stored_Inr:
  "(\<exists>xs. load_stored lib pk t = Inr xs) \<longleftrightarrow>
     list_all (\<lambda>p. fst (fst p) \<in> set known_dirs) t \<and>
     list_all (\<lambda>(kind, name). (\<exists>x. load_entry lib pk t kind name = Inr x) \<and> \<not> orphan t kind name) (document_files t)"
  by (auto simp: load_stored_def load_kind_def bind_result_Inr_iff load_entries_Inr document_files_def list_all_iff list_ex_iff
      ball_Un split: if_splits)

lemma set_load_stored:
  assumes "load_stored lib pk t = Inr xs"
  shows "set xs = {x. \<exists>(kind, name) \<in> set (document_files t). load_entry lib pk t kind name = Inr (Some x)}"
  using assms
  by (auto simp: load_stored_def load_kind_def bind_result_Inr_iff document_files_def bex_Un dest!: set_load_entries split: if_splits)

lemma set_names_in: "name \<in> set (names_in t kind) \<longleftrightarrow> node_at t (kind, name) \<noteq> None"
  by (force simp: names_in_def node_at_def map_of_eq_None_iff)

lemma in_document_files:
  "(kind, name) \<in> set (document_files t) \<longleftrightarrow> kind \<in> {proposal_dir, activation_dir} \<and> node_at t (kind, name) \<noteq> None"
  by (auto simp: document_files_def set_names_in)

definition attested :: "native_lib \<Rightarrow> (string \<times> string) option \<Rightarrow> tree \<Rightarrow> stored_artifact \<Rightarrow> bool" where
  \<comment> \<open>what holds of a document that a load returns\<close>
  "attested lib pk t x \<longleftrightarrow>
    (let env = so_envelope x; kind = fst (so_path x) in
     so_path x = (kind, payload_name (nv_artifact_id env)) \<and> node_at t (so_path x) = Some (Regular (so_raw x)) \<and>
     nv_raw_digest env = raw_digest (nl_artifact lib) (so_raw x) \<and> validate_stored_envelope lib kind env (so_raw x) = None \<and>
     (if kind = activation_dir then
        (\<exists>a. parse_activation (nl_artifact lib) (so_raw x) = Inr a \<and> verify_stored_receipt lib pk t a env = None)
      else kind = proposal_dir))"

lemma load_entry_attested:
  assumes "load_entry lib pk t kind name = Inr (Some x)" and "kind \<in> {proposal_dir, activation_dir}"
  shows "attested lib pk t x \<and> fst (so_path x) = kind \<and> name = envelope_name (nv_artifact_id (so_envelope x))"
proof -
  from assms(1) obtain env_raw raw env where
      name: "has_suffix name ''.envelope.json''"
    and raw: "node_at t (kind, payload_name (trim_suffix name ''.envelope.json'')) = Some (Regular raw)"
    and env: "nv_artifact_id env = trim_suffix name ''.envelope.json''" "nv_raw_digest env = raw_digest (nl_artifact lib) raw"
      "validate_stored_envelope lib kind env raw = None"
    and act: "kind = activation_dir \<Longrightarrow> \<exists>a. parse_activation (nl_artifact lib) raw = Inr a \<and> verify_stored_receipt lib pk t a env = None"
    and x: "x = \<lparr>so_path = (kind, payload_name (trim_suffix name ''.envelope.json'')), so_raw = raw, so_envelope = env\<rparr>"
    by (auto simp: load_entry_def Let_def split: option.splits if_splits node.splits sum.splits)
  have "name = envelope_name (trim_suffix name ''.envelope.json'')"
    using name by (auto simp: has_suffix_def trim_suffix_def envelope_name_def suffix_def)
  then show ?thesis using raw env act x assms(2) by (auto simp: attested_def Let_def)
qed


section \<open>Reading back what was persisted\<close>

lemma persist_ok:
  assumes "persist lib w base kind i raw env t = (t', Inr item)"
  shows "t' = AList.update (kind, envelope_name i) (Regular (nl_encode_env lib (so_envelope item)))
      (AList.update (kind, payload_name i) (Regular raw) t)" (is ?tree)
    and "item = \<lparr>so_path = (kind, payload_name i), so_raw = raw,
      so_envelope = (if nv_raw_digest env = [] then env\<lparr>nv_raw_digest := raw_digest (nl_artifact lib) raw\<rparr> else env)\<rparr>" (is ?item)
    and "read_node (node_at t (kind, payload_name i)) \<in> {Missing, Content raw}" (is ?old)
proof -
  let ?env = "if nv_raw_digest env = [] then env\<lparr>nv_raw_digest := raw_digest (nl_artifact lib) raw\<rparr> else env"
  obtain t1 where p1: "put_file (wf_ignorable w) (wf_payload w) (kind, payload_name i) raw t = (t1, None)"
    and p2: "put_file (wf_ignorable w) (wf_envelope w) (kind, envelope_name i) (nl_encode_env lib ?env) t1 = (t', None)"
    and item: "item = \<lparr>so_path = (kind, payload_name i), so_raw = raw, so_envelope = ?env\<rparr>" and old: ?old
    using assms unfolding persist_def Let_def by (auto split: if_split_asm go_file.splits prod.splits option.splits)
  show ?item ?old using item old .
  show ?tree using put_file_ok [OF p1] put_file_ok [OF p2] item by simp
qed

lemma trim_envelope [simp]: "trim_suffix (envelope_name i) ''.envelope.json'' = i"
proof -
  have "suffix ''.envelope.json'' (i @ ''.envelope.json'')" by (rule suffixI) (rule refl)
  then show ?thesis by (simp add: trim_suffix_def envelope_name_def)
qed

lemma envelope_suffix [simp]: "has_suffix (envelope_name i) ''.envelope.json''" "has_suffix (envelope_name i) ''.json''"
proof -
  have "envelope_name i = (i @ ''.envelope'') @ ''.json''" by (simp add: envelope_name_def)
  then show "has_suffix (envelope_name i) ''.json''" unfolding has_suffix_def by (metis suffixI)
  show "has_suffix (envelope_name i) ''.envelope.json''" unfolding has_suffix_def envelope_name_def by (rule suffixI) (rule refl)
qed

lemma payload_suffix:
  "has_suffix (payload_name i) ''.json''" "plain_id i \<Longrightarrow> \<not> has_suffix (payload_name i) ''.envelope.json''"
  "trim_suffix (payload_name i) ''.json'' = i"
proof -
  show "\<not> has_suffix (payload_name i) ''.envelope.json''" if "plain_id i"
  proof
    assume "has_suffix (payload_name i) ''.envelope.json''"
    then obtain j where "payload_name i = j @ ''.envelope.json''" by (auto simp: has_suffix_def suffix_def)
    then show False using plain_names(1) [OF that, of j] by (simp add: envelope_name_def)
  qed
qed (simp_all add: has_suffix_def payload_name_def trim_suffix_def suffix_def)

lemma proposal_envelope_stored:
  assumes "parse_proposal (nl_artifact lib) (pl_raw p) = Inr p" and "vd_valid (validate_proposal (nl_artifact lib) p opt)"
  shows "validate_stored_envelope lib proposal_dir (proposal_envelope p) (pl_raw p) = None"
    and "nv_raw_digest (proposal_envelope p) = raw_digest (nl_artifact lib) (pl_raw p)"
    and "raw_digest (nl_artifact lib) (pl_raw p) \<noteq> []" and "plain_id (pl_artifact_id p)"
proof -
  let ?l = "nl_artifact lib"
  have shape: "proposal_shape ?l p" and rev: "1 \<le> pl_revision p"
    using assms(2) by (simp_all add: proposal_valid self_certified_def Let_def)
  have digest: "pl_raw_digest p = raw_digest ?l (pl_raw p)"
    using assms(1)
    by (auto simp: parse_proposal_def dest!: arg_cong [of _ p pl_raw_digest] split: option.splits if_splits list.splits)
  have ids: "pl_artifact_id p \<noteq> []" "pl_contract_id p \<noteq> []" "pl_family p \<noteq> []"
    using shape by (auto simp: proposal_shape_def artifact_id_ok_def contract_id_ok_def family_id_ok_def id_pattern_def)
  show "raw_digest ?l (pl_raw p) \<noteq> []" by (simp add: raw_digest_def prefixed_sha_def)
  show "nv_raw_digest (proposal_envelope p) = raw_digest ?l (pl_raw p)" by (simp add: proposal_envelope_def digest)
  show "validate_stored_envelope lib proposal_dir (proposal_envelope p) (pl_raw p) = None"
    using shape ids rev digest
    by (simp add: validate_stored_envelope_def proposal_envelope_def assms(1) proposal_shape_def same_strings_def
        sorted_refs_def us_seen.norm_idem proposal_schema_id_def proposal_schema_version_def proposal_contract_version_def
        proposal_producer_def)
  have "id_pattern ''paca-'' 16 16 (pl_artifact_id p)" using shape by (simp add: proposal_shape_def artifact_id_ok_def)
  then obtain h where "pl_artifact_id p = ''paca-'' @ h" "list_all is_hex h" by (auto simp: id_pattern_def prefix_def Let_def)
  moreover have "\<not> is_hex CHR ''.''" by code_simp
  ultimately show "plain_id (pl_artifact_id p)" by (auto simp: plain_id_def list_all_iff)
qed


definition codes_envelopes :: "native_lib \<Rightarrow> bool" where
  \<comment> \<open>what \<open>encoding/json\<close> promises of the envelope struct\<close>
  "codes_envelopes lib \<longleftrightarrow> (\<forall>e. nl_decode_env lib (nl_encode_env lib e) = Some e)"

lemma payload_name_inject [simp]: "payload_name i = payload_name j \<longleftrightarrow> i = j"
  by (simp add: payload_name_def)

lemma persisted_entries:
  fixes p :: proposal and t :: tree and lib :: native_lib
  defines "i \<equiv> pl_artifact_id p"
  defines "t' \<equiv> AList.update (proposal_dir, envelope_name i) (Regular (nl_encode_env lib (proposal_envelope p)))
    (AList.update (proposal_dir, payload_name i) (Regular (pl_raw p)) t)"
  assumes parse: "parse_proposal (nl_artifact lib) (pl_raw p) = Inr p"
    and valid: "vd_valid (validate_proposal (nl_artifact lib) p opt)"
    and codes: "codes_envelopes lib"
    and apart: "node_at t (proposal_dir, envelope_name (i @ ''.envelope'')) = None"
  shows "load_entry lib pk t' proposal_dir (envelope_name i) =
      Inr (Some \<lparr>so_path = (proposal_dir, payload_name i), so_raw = pl_raw p, so_envelope = proposal_envelope p\<rparr>)" (is ?env)
    and "load_entry lib pk t' proposal_dir (payload_name i) = Inr None" (is ?payload)
    and "(kind, name) \<noteq> (proposal_dir, envelope_name i) \<Longrightarrow> (kind, name) \<noteq> (proposal_dir, payload_name i) \<Longrightarrow>
      node_at t (kind, name) \<noteq> None \<Longrightarrow> load_entry lib pk t' kind name = load_entry lib pk t kind name"
proof -
  note st = proposal_envelope_stored [OF parse valid]
  have ne: "payload_name i \<noteq> envelope_name j" for j using plain_names(1) st(4) by (simp add: i_def)
  have dirs: "proposal_dir \<noteq> activation_dir" by (simp add: proposal_dir_def activation_dir_def)
  have nodes: "node_at t' (proposal_dir, envelope_name i) = Some (Regular (nl_encode_env lib (proposal_envelope p)))"
    "node_at t' (proposal_dir, payload_name i) = Some (Regular (pl_raw p))"
    using ne [of i] by (simp_all add: t'_def)
  have same: "node_at t' q = node_at t q" if "q \<noteq> (proposal_dir, envelope_name i)" "q \<noteq> (proposal_dir, payload_name i)" for q
    using that by (simp add: t'_def)
  have ident: "nv_artifact_id (proposal_envelope p) = i" by (simp add: proposal_envelope_def i_def)
  show ?env
    using codes dirs by (simp add: load_entry_def nodes st ident codes_envelopes_def Let_def)
  show ?payload
    using payload_suffix [of i] st(4) [folded i_def] by (simp add: load_entry_def nodes)
  assume other: "(kind, name) \<noteq> (proposal_dir, envelope_name i)" "(kind, name) \<noteq> (proposal_dir, payload_name i)"
    and here: "node_at t (kind, name) \<noteq> None"
  let ?j = "trim_suffix name ''.envelope.json''"
  have receipt: "verify_stored_receipt lib pk t' a env = verify_stored_receipt lib pk t a env" for a env
    using dirs by (simp add: verify_stored_receipt_def t'_def)
  show "load_entry lib pk t' kind name = load_entry lib pk t kind name"
  proof (cases "has_suffix name ''.envelope.json''")
    case False
    then show ?thesis by (simp only: load_entry_def same [OF other] Let_def simp_thms if_True if_False)
  next
    case True
    then have name: "name = envelope_name ?j" by (auto simp: has_suffix_def trim_suffix_def envelope_name_def suffix_def)
    have "(kind, payload_name ?j) \<noteq> (proposal_dir, payload_name i)" using other(1) name by auto
    moreover have "(kind, payload_name ?j) \<noteq> (proposal_dir, envelope_name i)"
    proof
      assume eq: "(kind, payload_name ?j) = (proposal_dir, envelope_name i)"
      then have "?j = i @ ''.envelope''" by (simp add: payload_name_def envelope_name_def)
      then show False using apart here name eq by simp
    qed
    ultimately have sibling: "node_at t' (kind, payload_name ?j) = node_at t (kind, payload_name ?j)" by (intro same)
    show ?thesis by (simp only: load_entry_def same [OF other] sibling receipt Let_def)
  qed
qed


lemma known_iff:
  "list_all (\<lambda>p. fst (fst p) \<in> D) t \<longleftrightarrow> (\<forall>q. node_at t q \<noteq> None \<longrightarrow> fst q \<in> D)"
  by (force simp: list_all_iff node_at_def map_of_eq_None_iff)

lemma stored_proposal:
  assumes load: "load_stored lib pk t = Inr xs" and persisted: "persist_proposal lib w base p t = (t', Inr item)"
    and parse: "parse_proposal (nl_artifact lib) (pl_raw p) = Inr p"
    and valid: "vd_valid (validate_proposal (nl_artifact lib) p opt)" and codes: "codes_envelopes lib"
    and apart: "node_at t (proposal_dir, envelope_name (pl_artifact_id p @ ''.envelope'')) = None"
  shows "\<exists>ys. load_stored lib pk t' = Inr ys \<and> item \<in> set ys \<and> so_raw item = pl_raw p \<and>
    {y \<in> set ys. so_path y \<noteq> so_path item} = {x \<in> set xs. so_path x \<noteq> so_path item}"
proof -
  let ?i = "pl_artifact_id p"
  let ?e = "(proposal_dir, envelope_name ?i)" and ?b = "(proposal_dir, payload_name ?i)"
  note st = proposal_envelope_stored [OF parse valid]
  note ok = persist_ok [OF persisted [unfolded persist_proposal_def]]
  have item: "item = \<lparr>so_path = ?b, so_raw = pl_raw p, so_envelope = proposal_envelope p\<rparr>"
    using ok(2) st(2,3) by simp
  have t': "t' = AList.update ?e (Regular (nl_encode_env lib (proposal_envelope p))) (AList.update ?b (Regular (pl_raw p)) t)"
    using ok(1) item by simp
  note entries = persisted_entries [OF parse valid codes apart, where pk = pk, folded t']
  have nodes: "node_at t' q \<noteq> None \<longleftrightarrow> q = ?e \<or> q = ?b \<or> node_at t q \<noteq> None" for q by (simp add: t')
  have old: "(\<exists>x. load_entry lib pk t kind name = Inr x) \<and> \<not> orphan t kind name"
    if "(kind, name) \<in> set (document_files t)" for kind name
    using load load_stored_Inr [of lib pk t] that by (force simp: list_all_iff)
  have "(\<exists>x. load_entry lib pk t' kind name = Inr x) \<and> \<not> orphan t' kind name"
    if "(kind, name) \<in> set (document_files t')" for kind name
  proof (cases "(kind, name) = ?e \<or> (kind, name) = ?b")
    case True
    have "\<not> orphan t' proposal_dir (payload_name ?i)" by (simp add: orphan_def payload_suffix t')
    moreover have "\<not> orphan t' proposal_dir (envelope_name ?i)" by (simp add: orphan_def)
    ultimately show ?thesis using True entries(1,2) by auto
  next
    case False
    then have doc: "(kind, name) \<in> set (document_files t)"
      using that nodes [of "(kind, name)"] unfolding in_document_files by blast
    then have "node_at t (kind, name) \<noteq> None" by (simp add: in_document_files)
    then have "load_entry lib pk t' kind name = load_entry lib pk t kind name" using entries(3) [of kind name] False by blast
    then show ?thesis using old [OF doc] False by (auto simp: orphan_def t')
  qed
  moreover have "list_all (\<lambda>p. fst (fst p) \<in> set known_dirs) t'"
    using load load_stored_Inr [of lib pk t] nodes
    unfolding known_iff by (auto simp: known_dirs_def)
  ultimately obtain ys where ys: "load_stored lib pk t' = Inr ys" using load_stored_Inr [of lib pk t'] by (force simp: list_all_iff)
  have "?e \<in> set (document_files t')" unfolding in_document_files nodes by simp
  then have item_in: "item \<in> set ys"
    unfolding set_load_stored [OF ys] using entries(1) by (auto simp: item intro!: bexI [of _ ?e])
  have "y \<in> set ys \<longleftrightarrow> y \<in> set xs" if "so_path y \<noteq> so_path item" for y
  proof -
    have "(kind, name) \<in> set (document_files t') \<and> load_entry lib pk t' kind name = Inr (Some y) \<longleftrightarrow>
        (kind, name) \<in> set (document_files t) \<and> load_entry lib pk t kind name = Inr (Some y)" for kind name
    proof (cases "(kind, name) = ?e \<or> (kind, name) = ?b")
      case False
      then show ?thesis
        using entries(3) [of kind name] nodes [of "(kind, name)"] unfolding in_document_files by metis
    next
      case True
      have "so_path y = ?b" if "load_entry lib pk t kind name = Inr (Some y)" "kind = proposal_dir" "(kind, name) = ?e"
        using load_entry_attested [OF that(1)] that by (auto simp: attested_def Let_def envelope_name_def)
      moreover have "load_entry lib pk t proposal_dir (payload_name ?i) \<noteq> Inr (Some y)"
      proof
        assume "load_entry lib pk t proposal_dir (payload_name ?i) = Inr (Some y)"
        from load_entry_attested [OF this] show False using plain_names(1) [OF st(4)] by auto
      qed
      ultimately show ?thesis using True entries(1,2) that by (auto simp: item)
    qed
    then show ?thesis unfolding set_load_stored [OF ys] set_load_stored [OF load] by auto
  qed
  then show ?thesis using ys item_in by (auto simp: item)
qed


text \<open>
  C24: a proposal that was persisted is read back: if the store loads before, it loads after, the
  proposal is among the documents with exactly its bytes and its own metadata, and every other
  document is the one it was.
\<close>

theorem stored_proposal_loads:
  assumes "load_stored lib pk t = Inr xs" and "persist_proposal lib w base p t = (t', Inr item)"
    and "parse_proposal (nl_artifact lib) (pl_raw p) = Inr p"
    and "vd_valid (validate_proposal (nl_artifact lib) p opt)" and "codes_envelopes lib"
    and "node_at t (proposal_dir, envelope_name (pl_artifact_id p @ ''.envelope'')) = None"
  shows "\<exists>ys. load_stored lib pk t' = Inr ys \<and> item \<in> set ys \<and> so_raw item = pl_raw p \<and>
    {y \<in> set ys. so_path y \<noteq> so_path item} = {x \<in> set xs. so_path x \<noteq> so_path item}"
  using assms by (rule stored_proposal)

definition hexes :: "nat \<Rightarrow> string" where "hexes n = replicate n CHR ''a''"

definition sample_document :: jobj where
  "sample_document =
     [(''schema_id'', JText proposal_schema_id), (''schema_version'', JText ''1''),
      (''artifact_id'', JText (''paca-'' @ hexes 16)), (''contract_id'', JText (''pac-'' @ hexes 16)),
      (''contract_family_id'', JText (''pacf-'' @ hexes 16)), (''revision'', JNumber ''1''),
      (''producer'', JObj [(''name'', JText ''wrkr''), (''artifact_schema_version'', JText ''1''),
         (''contract_schema_version'', JText ''3'')]),
      (''source_scan_refs'', JArr [JText ''s'']), (''composition_refs'', JArr [JText ''c'']),
      (''creation_evidence'', JArr [JText ''e'']), (''canonical_content_digest'', JText (''sha256:'' @ hexes 64)),
      (''report_only'', JBool True),
      (''contract'', JObj [(''contract_id'', JText (''pac-'' @ hexes 16)), (''contract_family_id'', JText (''pacf-'' @ hexes 16)),
         (''revision'', JNumber ''1''), (''contract_version'', JText ''3''),
         (''contract_kind'', JText ''proposed_action_contract''), (''report_only'', JBool True),
         (''composition_ref'', JText ''c''), (''contract_content_digest'', JText (''sha256:'' @ hexes 64))])]"

definition sample_artifact_lib :: artifact_lib where
  "sample_artifact_lib =
     \<lparr>al_decode = (\<lambda>_. Some sample_document), al_schema = (\<lambda>_ _. True), al_jcs = (\<lambda>_. Some (hexes 64)),
      al_sha256 = (\<lambda>_. hexes 64), al_verify = (\<lambda>_ _. Some True), al_key_id = (\<lambda>_. ''k''),
      al_activation = (\<lambda>_. None)\<rparr>"

definition sample_contract_map :: jmap where
  "sample_contract_map = object_field (Some sample_document) ''contract''"

definition sample_proposal :: proposal where
  "sample_proposal =
     \<lparr>pl_raw = ''{}'', pl_data = sample_document, pl_schema_id = proposal_schema_id, pl_schema_version = ''1'',
      pl_artifact_id = ''paca-'' @ hexes 16, pl_contract_id = ''pac-'' @ hexes 16, pl_family = ''pacf-'' @ hexes 16,
      pl_revision = 1,
      pl_producer = \<lparr>pm_name = ''wrkr'', pm_artifact_version = ''1'', pm_contract_version = ''3''\<rparr>,
      pl_scans = [''s''], pl_compositions = [''c''], pl_resolution_key = [], pl_creation = [''e''],
      pl_digest = ''sha256:'' @ hexes 64, pl_report_only = True, pl_contract = sample_contract_map,
      pl_raw_digest = raw_digest sample_artifact_lib ''{}''\<rparr>"

definition sample_checks :: validation_options where
  "sample_checks = \<lparr>vp_now = 1, vp_skip_temporal = False, vp_key = [], vp_proposal = None, vp_selection = None,
     vp_revision = 0, vp_allow_development = False\<rparr>"

definition codec_lib :: "(native_envelope \<Rightarrow> string) \<Rightarrow> (string \<Rightarrow> native_envelope option) \<Rightarrow> native_lib" where
  "codec_lib enc dec =
     \<lparr>nl_artifact = sample_artifact_lib, nl_encode_env = enc, nl_decode_env = dec, nl_encode_receipt = (\<lambda>_. []),
      nl_decode_receipt = (\<lambda>_. None), nl_receipt_digest = (\<lambda>_. None), nl_conformance_digest = (\<lambda>_. None),
      nl_sign = (\<lambda>_ _. None)\<rparr>"

lemma occurrences_lower:
  "list_all (\<lambda>(k, _). to_lower k = k) kvs \<Longrightarrow> occurrences kvs name = map snd (filter (\<lambda>(k, _). k = name) kvs)"
  by (induction kvs) (auto simp: occurrences_def)

lemma sample_lower: "list_all (\<lambda>(k, _). to_lower k = k) sample_document"
  by code_simp

lemma producer_lower: "list_all (\<lambda>(k, _). to_lower k = k)
    [(''name'', JText ''wrkr''), (''artifact_schema_version'', JText ''1''), (''contract_schema_version'', JText ''3'')]"
  by code_simp

lemma one_int64: "parse_int64 ''1'' = (1, True)"
  by code_simp

lemmas decoders = decode_string_def decode_strings_def decode_bool_def decode_int_def decode_map_def decode_struct_def
  decode_field_def

lemma sample_producer: "decode_producer [(''name'', JText ''wrkr''), (''artifact_schema_version'', JText ''1''),
    (''contract_schema_version'', JText ''3'')] =
    Some \<lparr>pm_name = ''wrkr'', pm_artifact_version = ''1'', pm_contract_version = ''3''\<rparr>"
  by (simp add: decode_producer_def decoders occurrences_lower [OF producer_lower])

lemma sample_decoded:
  "decode_string sample_document ''schema_id'' = Some proposal_schema_id"
  "decode_string sample_document ''schema_version'' = Some ''1''"
  "decode_string sample_document ''artifact_id'' = Some (''paca-'' @ hexes 16)"
  "decode_string sample_document ''contract_id'' = Some (''pac-'' @ hexes 16)"
  "decode_string sample_document ''contract_family_id'' = Some (''pacf-'' @ hexes 16)"
  "decode_string sample_document ''resolution_key'' = Some []"
  "decode_string sample_document ''canonical_content_digest'' = Some (''sha256:'' @ hexes 64)"
  "decode_strings sample_document ''source_scan_refs'' = Some [''s'']"
  "decode_strings sample_document ''composition_refs'' = Some [''c'']"
  "decode_strings sample_document ''creation_evidence'' = Some [''e'']"
  "decode_int sample_document ''revision'' = Some 1" "decode_bool sample_document ''report_only'' = Some True"
  "decode_struct decode_producer zero_producer sample_document ''producer'' =
    Some \<lparr>pm_name = ''wrkr'', pm_artifact_version = ''1'', pm_contract_version = ''3''\<rparr>"
  "decode_map sample_document ''contract'' = Some sample_contract_map"
  unfolding decoders occurrences_lower [OF sample_lower]
  by (simp_all add: sample_document_def sample_contract_map_def object_field_def jget_def one_int64 sample_producer)

lemma sample_parses: "parse_proposal sample_artifact_lib ''{}'' = Inr sample_proposal"
  unfolding parse_proposal_def
  by (simp add: sample_artifact_lib_def [THEN arg_cong [of _ _ al_decode]] sample_artifact_lib_def [THEN arg_cong [of _ _ al_schema]]
      sample_decoded sample_proposal_def)


lemma sample_contract_fields:
  "string_field sample_contract_map ''contract_id'' = ''pac-'' @ hexes 16"
  "string_field sample_contract_map ''contract_family_id'' = ''pacf-'' @ hexes 16"
  "string_field sample_contract_map ''contract_version'' = ''3''"
  "string_field sample_contract_map ''contract_kind'' = ''proposed_action_contract''"
  "string_field sample_contract_map ''composition_ref'' = ''c''"
  "string_field sample_contract_map ''contract_content_digest'' = ''sha256:'' @ hexes 64"
  "string_field sample_contract_map ''resolution_key'' = []" "string_field sample_contract_map ''expires_at'' = []"
  "int_field sample_contract_map ''revision'' = 1" "bool_field sample_contract_map ''report_only''"
  "uncontradicted sample_contract_map" "sample_contract_map \<noteq> None"
  by code_simp+

lemma sample_ids:
  "artifact_id_ok (''paca-'' @ hexes 16)" "contract_id_ok (''pac-'' @ hexes 16)" "family_id_ok (''pacf-'' @ hexes 16)"
  "digest_ok (''sha256:'' @ hexes 64)" "with_prefix (hexes 64) = ''sha256:'' @ hexes 64" "take 16 (hexes 64) = hexes 16"
  "non_empty [''s''] = [''s'']" "non_empty [''c''] = [''c'']" "non_empty [''e''] = [''e'']" "contains_string [''c''] ''c''"
  by code_simp+

lemma sample_payload: "proposal_payload sample_document \<noteq> None"
proof -
  have "map_of sample_document ''producer'' = Some (JObj [(''name'', JText ''wrkr''), (''artifact_schema_version'', JText ''1''),
      (''contract_schema_version'', JText ''3'')])" by (simp add: sample_document_def)
  then show ?thesis by (simp add: proposal_payload_def sample_producer Let_def)
qed

lemma sample_is_valid: "vd_valid (validate_proposal sample_artifact_lib sample_proposal sample_checks)"
proof -
  have f: "pl_contract sample_proposal = sample_contract_map" "pl_data sample_proposal = sample_document"
    "pl_revision sample_proposal = 1" "pl_digest sample_proposal = ''sha256:'' @ hexes 64"
    "pl_contract_id sample_proposal = ''pac-'' @ hexes 16" "pl_family sample_proposal = ''pacf-'' @ hexes 16"
    "pl_artifact_id sample_proposal = ''paca-'' @ hexes 16"
    by (simp_all add: sample_proposal_def)
  have lib: "al_sha256 sample_artifact_lib s = hexes 64" "al_jcs sample_artifact_lib d = Some (hexes 64)"
    "al_schema sample_artifact_lib x y" for s d x y by (simp_all add: sample_artifact_lib_def)
  have cert: "self_certified sample_artifact_lib sample_proposal"
    using sample_payload sample_ids(4)
    by (auto simp: self_certified_def f lib contract_id_of_def contract_family_id_def contract_content_digest_def
        prefixed_sha_def short_hash_def sample_ids sample_contract_fields proposal_canonical_digest_def)
  have shape: "proposal_shape sample_artifact_lib sample_proposal"
    using sample_ids(1-3) sample_contract_fields(12)
    by (auto simp: proposal_shape_def sample_proposal_def lib sample_ids sample_contract_fields(1-11) proposal_schema_version_def
        proposal_producer_def proposal_contract_version_def)
  show ?thesis
    unfolding proposal_valid f
    using cert shape by (simp add: sample_contract_fields unexpired_def f sample_checks_def)
qed

text \<open>An encoding of envelopes, to see that the promise can be kept.\<close>

type_synonym envelope_tuple = "(string \<times> string \<times> string \<times> string \<times> int \<times> string \<times> string \<times> string \<times> string) \<times>
  (string \<times> string \<times> string \<times> string \<times> string list \<times> bool \<times> string \<times> bool \<times> string list \<times> string)"

definition envelope_tuple_of :: "native_envelope \<Rightarrow> envelope_tuple" where
  "envelope_tuple_of e =
     ((nv_type e, nv_artifact_id e, nv_contract_id e, nv_family e, nv_revision e, pm_name (nv_producer e),
       pm_artifact_version (nv_producer e), pm_contract_version (nv_producer e), nv_schema_id e),
      (nv_schema_version e, nv_contract_version e, nv_raw_digest e, nv_digest e, nv_references e, nv_report_only e,
       nv_mode e, nv_non_binding e, nv_reasons e, nv_conformance e))"

definition tuple_envelope :: "envelope_tuple \<Rightarrow> native_envelope" where
  "tuple_envelope = (\<lambda>((a, b, c, d, e, f, g, h, i), (j, k, l, m, n, q, r, s, u, v)).
     \<lparr>nv_type = a, nv_artifact_id = b, nv_contract_id = c, nv_family = d, nv_revision = e,
      nv_producer = \<lparr>pm_name = f, pm_artifact_version = g, pm_contract_version = h\<rparr>, nv_schema_id = i,
      nv_schema_version = j, nv_contract_version = k, nv_raw_digest = l, nv_digest = m, nv_references = n,
      nv_report_only = q, nv_mode = r, nv_non_binding = s, nv_reasons = u, nv_conformance = v\<rparr>)"

definition counted_lib :: native_lib where
  "counted_lib = codec_lib (\<lambda>e. replicate (to_nat (envelope_tuple_of e)) CHR ''x'')
     (\<lambda>s. Some (tuple_envelope (from_nat (length s))))"

lemma counted_codes: "codes_envelopes counted_lib"
proof -
  have "tuple_envelope (envelope_tuple_of e) = e" for e
    by (cases e; cases "nv_producer e") (simp add: tuple_envelope_def envelope_tuple_of_def)
  then show ?thesis by (simp add: codes_envelopes_def counted_lib_def codec_lib_def)
qed

definition no_faults :: write_faults where
  "no_faults = \<lparr>wf_ignorable = False, wf_payload = None, wf_envelope = None, wf_receipt = None\<rparr>"

theorem stored_proposal_loads_witness:
  "\<exists>ys. load_stored counted_lib None (fst (persist_proposal counted_lib no_faults ''d'' sample_proposal [])) = Inr ys \<and>
     ''{}'' \<in> so_raw ` set ys"
proof -
  let ?p = "persist_proposal counted_lib no_faults ''d'' sample_proposal []"
  have art: "nl_artifact counted_lib = sample_artifact_lib" by (simp add: counted_lib_def codec_lib_def)
  have raw: "pl_raw sample_proposal = ''{}''" by (simp add: sample_proposal_def)
  have ids: "\<not> blank ''d''" "\<not> blank (pl_artifact_id sample_proposal)" "\<not> unsafe_id (pl_artifact_id sample_proposal)"
    unfolding sample_proposal_def by code_simp+
  have "\<exists>t' item. ?p = (t', Inr item)"
    using ids by (simp add: persist_proposal_def persist_def raw put_file_def no_faults_def Let_def read_node_def node_at_def
        payload_name_def envelope_name_def write_json_atomic_def)
  then obtain t' item where p: "?p = (t', Inr item)" by blast
  have empty: "names_in [] k = []" for k :: string
    using set_names_in [of "hd (names_in [] k)" "[]" k] by (cases "names_in [] k") (auto simp: node_at_def)
  have loaded: "load_stored counted_lib None [] = Inr []"
    by (simp add: load_stored_def load_kind_def load_entries_def go_sort_def empty)
  have "parse_proposal (nl_artifact counted_lib) (pl_raw sample_proposal) = Inr sample_proposal"
    "vd_valid (validate_proposal (nl_artifact counted_lib) sample_proposal sample_checks)"
    using sample_parses sample_is_valid by (simp_all add: art raw)
  from stored_proposal_loads [OF loaded p this counted_codes] show ?thesis by (force simp: p node_at_def raw)
qed

definition sync_fault :: write_faults where
  "sync_fault = no_faults\<lparr>wf_payload := Some DirSyncFails\<rparr>"

definition orphaned :: tree where
  "orphaned = [((proposal_dir, payload_name (pl_artifact_id sample_proposal)), Regular ''{}'')]"

text \<open>
  A proposal whose payload is renamed into place but whose directory does not sync is reported as an error
  and left without its envelope; from then on no document of the store loads.
\<close>

theorem sync_failure_orphans_payload:
  "persist_proposal lib sync_fault ''d'' sample_proposal [] = (orphaned, Inl (WriteError ''sync directory'')) \<and>
   load_stored lib pk orphaned = Inl OrphanPayload"
proof
  have ids: "\<not> blank ''d''" "\<not> blank (pl_artifact_id sample_proposal)" "\<not> unsafe_id (pl_artifact_id sample_proposal)"
    unfolding sample_proposal_def by code_simp+
  have raw: "pl_raw sample_proposal = ''{}''" by (simp add: sample_proposal_def)
  have dirs: "proposal_dir \<noteq> activation_dir" "proposal_dir \<in> set known_dirs"
    by (simp_all add: proposal_dir_def activation_dir_def known_dirs_def)
  show "persist_proposal lib sync_fault ''d'' sample_proposal [] = (orphaned, Inl (WriteError ''sync directory''))"
    using ids by (simp add: persist_proposal_def persist_def raw put_file_def sync_fault_def no_faults_def Let_def
        read_node_def node_at_def write_json_atomic_def orphaned_def)
  have plain: "plain_id (pl_artifact_id sample_proposal)" unfolding sample_proposal_def by code_simp
  let ?n = "payload_name (pl_artifact_id sample_proposal)"
  have names: "set (names_in orphaned proposal_dir) = {?n}"
    by (auto simp: set_names_in node_at_def orphaned_def split: if_splits)
  have entry: "load_entry lib pk orphaned proposal_dir ?n = Inr None"
    using payload_suffix [of "pl_artifact_id sample_proposal"] plain
    by (simp add: load_entry_def node_at_def orphaned_def)
  have verif: "\<not> has_suffix ?n ''.verification.json''"
    using plain_names(2) [OF plain] by (auto simp: has_suffix_def suffix_def receipt_name_def)
  have "orphan orphaned proposal_dir ?n"
    using payload_suffix [of "pl_artifact_id sample_proposal"] plain plain_names(1) [OF plain, THEN not_sym] verif
    by (auto simp: orphan_def node_at_def orphaned_def)
  then have orphan: "list_ex (orphan orphaned proposal_dir) (names_in orphaned proposal_dir)"
    using names by (simp add: list_ex_iff)
  have "list_all (\<lambda>(kind, name). \<exists>x. load_entry lib pk orphaned kind name = Inr x)
      (map (Pair proposal_dir) (names_in orphaned proposal_dir))"
    using entry names by (auto simp: list_all_iff)
  then obtain xs where "load_entries lib pk orphaned (map (Pair proposal_dir) (names_in orphaned proposal_dir)) = Inr xs"
    unfolding load_entries_Inr by blast
  then have "load_kind lib pk orphaned proposal_dir = Inl OrphanPayload" by (simp add: load_kind_def orphan)
  then show "load_stored lib pk orphaned = Inl OrphanPayload"
    using dirs by (simp add: load_stored_def orphaned_def)
qed

end
