(* ===== verification/Translate.thy ===== *)
theory Translate
  imports GaitPack Build Receipt
begin

text \<open>
  \<open>core/ingest/gait/translate/lifecycle.go\<close>: a verified, authoritative lifecycle pack becomes one
  aggregate Proof record. The record is an observation of Gait's evidence: it names the contract and
  the activation, carries the references of every record once, and lists the events of the pack with
  their times. \<open>proof.NewRecord\<close> is the argument \<open>new\<close>; the digest of a pack without a usable source
  digest comes from the library record of \<open>GaitPack\<close>.
\<close>

section \<open>Digests and identities\<close>

datatype translate_error = TranslateError string string    \<comment> \<open>reason code and message\<close>

definition tr_authority_required :: string where "tr_authority_required = ''GAIT_LIFECYCLE_AUTHORITY_REQUIRED''"
definition tr_pack_mismatch :: string where "tr_pack_mismatch = ''GAIT_LIFECYCLE_PACK_MISMATCH''"
definition tr_failed :: string where "tr_failed = ''GAIT_LIFECYCLE_TRANSLATION_FAILED''"
definition tr_version :: string where "tr_version = ''v1''"

definition hex_string :: "string \<Rightarrow> bool" where
  \<comment> \<open>\<open>validHex\<close>: what \<open>hex.DecodeString\<close> accepts\<close>
  "hex_string s \<longleftrightarrow> even (length s) \<and> list_all is_hex_any s"

definition sha256_digest_ok :: "string \<Rightarrow> bool" where
  "sha256_digest_ok v = (let h = trim_prefix (trim_space v) ''sha256:'' in length h = 64 \<and> hex_string h)"

definition digests_ok :: "string list \<Rightarrow> bool" where
  "digests_ok vs \<longleftrightarrow> vs \<noteq> [] \<and> list_all sha256_digest_ok vs"

definition contains_digest :: "string list \<Rightarrow> string \<Rightarrow> bool" where
  "contains_digest vs want = list_ex (\<lambda>v. v = want) vs"

definition lifecycle_set_id :: "gait_lib \<Rightarrow> gait_pack \<Rightarrow> string option" where
  "lifecycle_set_id lib p =
    (let digest = trim_space (gp_source_digest p) in
     if sha256_digest_ok digest then Some (''gait_lifecycle_v1:'' @ take 16 (trim_prefix digest ''sha256:''))
     else case gl_pack_digest lib (gp_records p) of
       None \<Rightarrow> None
     | Some d \<Rightarrow>
        (let h = trim_prefix d ''sha256:'' in
         if length h < 16 then None else Some (''gait_lifecycle_v1:'' @ take 16 h)))"

section \<open>What the pack says\<close>

fun newest_time :: "instant \<Rightarrow> gait_record list \<Rightarrow> instant option" where
  \<comment> \<open>the loop of \<open>lifecycleTimestamp\<close>, with the latest time so far\<close>
  "newest_time m [] = Some m"
| "newest_time m (r # rs) =
     (case parse_time (gr_occurred_at r) of
        None \<Rightarrow> None
      | Some t \<Rightarrow> newest_time (if m < t then t else m) rs)"

definition lifecycle_timestamp :: "gait_pack \<Rightarrow> instant option" where
  "lifecycle_timestamp p =
     (case newest_time 0 (gp_records p) of
        None \<Rightarrow> None
      | Some t \<Rightarrow> if is_zero_time t then None else Some t)"

definition eref_key :: "eref \<Rightarrow> string" where
  "eref_key r = er_kind r @ ''|'' @ er_id r @ ''|'' @ er_digest r @ ''|'' @ er_schema_id r @ ''|'' @
     er_schema_version r @ ''|'' @ er_product r"

fun dedup_refs :: "string list \<Rightarrow> eref list \<Rightarrow> eref list" where
  "dedup_refs seen [] = []"
| "dedup_refs seen (r # rs) =
     (if eref_key r \<in> set seen then dedup_refs seen rs else r # dedup_refs (eref_key r # seen) rs)"

definition lifecycle_contract :: "gait_pack \<Rightarrow> eref option" where
  "lifecycle_contract p = (case gp_records p of [] \<Rightarrow> None | r # _ \<Rightarrow> Some (gr_contract r))"

definition lifecycle_activation :: "gait_pack \<Rightarrow> eref option" where
  "lifecycle_activation p =
     (case List.map_filter gr_activation (gp_records p) of [] \<Rightarrow> None | a # _ \<Rightarrow> Some a)"

definition lifecycle_refs :: "gait_pack \<Rightarrow> eref list" where
  "lifecycle_refs p =
     go_sort (\<lambda>a b. eref_key a < eref_key b) (dedup_refs [] (concat (map gr_evidence_refs (gp_records p))))"

definition lifecycle_record_ids :: "gait_pack \<Rightarrow> string list" where
  "lifecycle_record_ids p = filter (\<lambda>i. i \<noteq> []) (map gr_id (gp_records p))"

definition event_ref_kind :: "string \<Rightarrow> string" where
  "event_ref_kind kind =
     (if has_prefix kind ''execution_'' then ''execution''
      else if has_prefix kind ''effect_'' then ''effect_event''
      else if has_prefix kind ''containment_'' then ''containment''
      else if has_prefix kind ''compensation_'' then ''compensation''
      else ''evidence'')"

definition evidence_fields :: "'a typed_evidence_scheme \<Rightarrow> string \<times> string \<times> string \<times> string" where
  "evidence_fields x = (te_id x, te_digest x, te_schema_id x, te_schema_version x)"

definition typed_fields :: "gait_record \<Rightarrow> (string \<times> string \<times> string \<times> string) option" where
  "typed_fields r =
     (case gr_execution r of
        Some x \<Rightarrow> Some (evidence_fields x)
      | None \<Rightarrow> (case gr_effect r of
          Some x \<Rightarrow> Some (evidence_fields x)
        | None \<Rightarrow> (case gr_containment r of
            Some x \<Rightarrow> Some (evidence_fields x)
          | None \<Rightarrow> (case gr_compensation r of
              Some x \<Rightarrow> Some (evidence_fields x)
            | None \<Rightarrow> None))))"

definition event_evidence_ref :: "gait_record \<Rightarrow> gobj option" where
  "event_evidence_ref r =
     (case typed_fields r of
        None \<Rightarrow> None
      | Some (i, digest, schema, version) \<Rightarrow>
          if i = [] \<or> digest = [] \<or> schema = [] \<or> version = [] then None
          else Some [(''id'', VStr i), (''kind'', VStr (event_ref_kind (gr_kind r))), (''digest'', VStr digest),
            (''source'', VStr ''gait''), (''source_product'', VStr ''gait''), (''schema_id'', VStr schema),
            (''schema_version'', VStr version)])"

definition event_entry :: "gait_record \<Rightarrow> gobj" where
  "event_entry r =
     [(''id'', VStr (gr_id r)), (''kind'', VStr (gr_kind r)), (''occurred_at'', VStr (gr_occurred_at r)),
      (''source_digest'', VStr (''sha256:'' @ trim_prefix (sg_signed_digest (gr_signature r)) ''sha256:''))] @
     (case event_evidence_ref r of None \<Rightarrow> [] | Some ref \<Rightarrow> [(''evidence_ref'', VObj ref)])"

definition event_metadata :: "gait_pack \<Rightarrow> gobj list" where
  \<comment> \<open>\<open>lifecycleEventMetadata\<close>\<close>
  "event_metadata p =
     map event_entry (filter (\<lambda>r. gr_id r \<noteq> [] \<and> gr_occurred_at r \<noteq> []) (gp_records p))"

section \<open>The record\<close>

definition eref_object :: "eref \<Rightarrow> gobj" where
  \<comment> \<open>a reference as it is marshalled\<close>
  "eref_object r =
     [(''digest'', VStr (er_digest r)), (''id'', VStr (er_id r)), (''kind'', VStr (er_kind r)),
      (''schema_id'', VStr (er_schema_id r)), (''schema_version'', VStr (er_schema_version r)),
      (''source_product'', VStr (er_product r))]"

definition copied_strings :: "string list \<Rightarrow> gvalue" where
  \<comment> \<open>\<open>append([]string(nil), xs...)\<close>: nil when there is nothing to copy\<close>
  "copied_strings xs = (if xs = [] then VNil else VStrs xs)"

definition refs_to_proof :: "eref list \<Rightarrow> rel_ref list" where
  "refs_to_proof refs =
     map (\<lambda>r. \<lparr>rr_kind = trim_space (er_product r) @ ''.'' @ trim_space (er_kind r), rr_id = er_id r,
        rr_digest = er_digest r, rr_schema_id = er_schema_id r, rr_schema_version = er_schema_version r,
        rr_source_product = er_product r, rr_extra = []\<rparr>) refs"

definition entity_relationship :: "rel_ref list \<Rightarrow> relationship" where
  \<comment> \<open>\<open>&proof.Relationship{EntityRefs: refs}\<close>\<close>
  "entity_relationship refs =
     \<lparr>rel_parent_ref = None, rel_entity_refs = refs, rel_policy = None, rel_agent_chain = [], rel_edges = [],
      rel_parent_id = [], rel_records = [], rel_entities = [], rel_lineage = [], rel_extra = []\<rparr>"

definition authoritative_success :: "snapshot \<Rightarrow> bool" where
  "authoritative_success n \<longleftrightarrow>
     sn_execution n = ''succeeded'' \<and> sn_effect n = ''validated'' \<and> sn_containment n = ''completed'' \<and>
     (sn_compensation n = [] \<or> sn_compensation n = ''completed'')"

definition lifecycle_event :: "verification_result \<Rightarrow> gait_pack \<Rightarrow> eref \<Rightarrow> eref \<Rightarrow> eref list \<Rightarrow> gobj" where
  "lifecycle_event v p contract activation refs =
    (let s = vr_set v; n = vr_snapshot v in
     [(''test_name'', VStr ''gait_lifecycle_conformance''), (''status'', VStr ''passed''),
      (''evidence_set_id'', VStr (es_id s)), (''producer'', VStr ''gait''),
      (''producer_version'', VStr (es_producer_version s)), (''source_commit'', VStr (es_source_commit s)),
      (''translation_version'', VStr tr_version), (''gait_execution'', VStr (sn_execution n)),
      (''gait_effect'', VStr (sn_effect n)), (''containment_status'', VStr (sn_containment n)),
      (''compensation_status'', VStr (sn_compensation n)),
      (''authoritative_success'', VBool (authoritative_success n)),
      (''contract_ref'', VStruct (eref_object contract)), (''activation_ref'', VStruct (eref_object activation)),
      (''evidence_refs'', VStructs (map eref_object refs)),
      (''source_artifact_digest'', VStr (gp_source_digest p)),
      (''source_artifact_digests'', copied_strings (es_source_digests s)),
      (''derived_evidence_digests'', copied_strings (es_derived_digests s)),
      (''reason_codes'', copied_strings (vr_reasons v)), (''gait_lifecycle_events'', VObjs (event_metadata p))])"

definition lifecycle_metadata :: "verification_result \<Rightarrow> gait_pack \<Rightarrow> gobj" where
  "lifecycle_metadata v p =
    (let s = vr_set v; n = vr_snapshot v in
     [(''evidence_kind'', VStr ''gait_lifecycle''), (''gait_translation'', VStr tr_version),
      (''gait_evidence_set_id'', VStr (es_id s)), (''gait_producer_version'', VStr (es_producer_version s)),
      (''gait_source_commit'', VStr (es_source_commit s)), (''gait_verification_state'', VStr (es_state s)),
      (''gait_authoritative'', VBool True), (''gait_fixture_only'', VBool False),
      (''gait_execution'', VStr (sn_execution n)), (''gait_effect'', VStr (sn_effect n)),
      (''gait_containment_status'', VStr (sn_containment n)),
      (''gait_compensation_status'', VStr (sn_compensation n)),
      (''gait_authoritative_success'', VBool (authoritative_success n)),
      (''gait_source_artifact_digests'', copied_strings (es_source_digests s)),
      (''gait_derived_evidence_digests'', copied_strings (es_derived_digests s)),
      (''gait_source_artifact_digest'', VStr (gp_source_digest p)),
      (''gait_lifecycle_record_ids'', VStrs (lifecycle_record_ids p))])"

definition lifecycle_opts ::
  "verification_result \<Rightarrow> gait_pack \<Rightarrow> instant \<Rightarrow> eref \<Rightarrow> eref \<Rightarrow> eref list \<Rightarrow> record_opts" where
  "lifecycle_opts v p time contract activation refs =
     \<lparr>op_source = ''gait'', op_source_product = ''gait'',
      op_agent_id = ''gait://'' @ es_producer_version (vr_set v), op_record_type = ''test_result'',
      op_timestamp = time, op_event = Some (lifecycle_event v p contract activation refs),
      op_metadata = Some (lifecycle_metadata v p),
      op_relationship = Some (entity_relationship (refs_to_proof (contract # activation # refs))),
      op_permissions = False, op_scope = []\<rparr>"

definition verified_authority :: "verification_result \<Rightarrow> bool" where
  \<comment> \<open>the first guard of \<open>TranslateLifecycle\<close>\<close>
  "verified_authority v \<longleftrightarrow>
     vr_valid v \<and> vr_authoritative v \<and> \<not> vr_fixture_only v \<and> es_verified (vr_set v) \<and>
     es_authoritative (vr_set v) \<and> \<not> es_fixture_only (vr_set v) \<and> es_state (vr_set v) = ''verified''"

definition provenance_matches :: "verification_result \<Rightarrow> gait_pack \<Rightarrow> bool" where
  "provenance_matches v p \<longleftrightarrow>
     (let s = vr_set v in
      length (es_source_commit s) = 40 \<and> hex_string (es_source_commit s) \<and>
      contains_digest (es_source_digests s) (gp_source_digest p) \<and> digests_ok (es_source_digests s) \<and>
      digests_ok (es_derived_digests s))"

definition translate_lifecycle ::
  "gait_lib \<Rightarrow> (record_opts \<Rightarrow> proof_record option) \<Rightarrow> verification_result \<Rightarrow> gait_pack \<Rightarrow>
   (translate_error, proof_record) result" where
  "translate_lifecycle lib new v p =
    (if \<not> verified_authority v
     then Inl (TranslateError tr_authority_required ''lifecycle result is not verified authoritative evidence'')
     else if gp_records p = [] then Inl (TranslateError tr_pack_mismatch ''lifecycle pack is empty'')
     else if lifecycle_set_id lib p \<noteq> Some (es_id (vr_set v))
     then Inl (TranslateError tr_pack_mismatch ''lifecycle pack does not match verified evidence set'')
     else if es_product (vr_set v) \<noteq> ''gait'' \<or> es_producer_version (vr_set v) = []
     then Inl (TranslateError tr_failed ''lifecycle producer metadata is incomplete'')
     else if \<not> provenance_matches v p
     then Inl (TranslateError tr_pack_mismatch ''lifecycle provenance metadata does not match the verified source'')
     else case lifecycle_timestamp p of
       None \<Rightarrow> Inl (TranslateError tr_failed ''lifecycle timestamp is invalid'')
     | Some time \<Rightarrow>
        (case (lifecycle_contract p, lifecycle_activation p, lifecycle_refs p) of
           (Some contract, Some activation, ref # refs) \<Rightarrow>
             (case new (lifecycle_opts v p time contract activation (ref # refs)) of
                None \<Rightarrow> Inl (TranslateError tr_failed ''build lifecycle proof record'')
              | Some r \<Rightarrow> Inr r)
         | _ \<Rightarrow> Inl (TranslateError tr_pack_mismatch
                  ''lifecycle contract, activation, and evidence references are required'')))"

definition lifecycle_translation_digest :: "(gmap \<Rightarrow> gmap \<Rightarrow> string option) \<Rightarrow> proof_record option \<Rightarrow> string" where
  \<comment> \<open>\<open>summed\<close> stands for \<open>json.Marshal\<close> of the pair followed by SHA-256 in hex\<close>
  "lifecycle_translation_digest summed rec =
     (case rec of
        None \<Rightarrow> []
      | Some r \<Rightarrow> (case summed (pr_event r) (pr_metadata r) of None \<Rightarrow> [] | Some h \<Rightarrow> ''sha256:'' @ h))"

section \<open>What a translation says\<close>

lemma newest_time_Some:
  "newest_time m rs = Some t \<longleftrightarrow>
     list_all (\<lambda>r. parse_time (gr_occurred_at r) \<noteq> None) rs \<and>
     t = foldl max m (map (\<lambda>r. the (parse_time (gr_occurred_at r))) rs)"
  by (induction m rs rule: newest_time.induct) (auto simp: max_def split: option.splits)

lemma foldl_max_Max: "foldl max m ts = Max (insert m (set ts))" for m :: "'a :: linorder"
proof (induction ts arbitrary: m)
  case (Cons x ts)
  have "Max (insert (max m x) (set ts)) = Max (insert m (insert x (set ts)))"
    by (cases "ts = []") (simp_all add: max.assoc)
  then show ?case using Cons by simp
qed simp

lemma lifecycle_timestamp_Some:
  "lifecycle_timestamp p = Some t \<longleftrightarrow> t \<noteq> 0 \<and>
     list_all (\<lambda>r. parse_time (gr_occurred_at r) \<noteq> None) (gp_records p) \<and>
     t = Max (insert 0 (set (map (\<lambda>r. the (parse_time (gr_occurred_at r))) (gp_records p))))"
proof -
  have "lifecycle_timestamp p = Some t \<longleftrightarrow> t \<noteq> 0 \<and> newest_time 0 (gp_records p) = Some t"
    by (auto simp: lifecycle_timestamp_def is_zero_time_def split: option.splits)
  then show ?thesis unfolding newest_time_Some foldl_max_Max by blast
qed

lemma dedup_refs_set:
  "set (map eref_key (dedup_refs seen rs)) = set (map eref_key rs) - set seen"
  "distinct (map eref_key (dedup_refs seen rs))" "set (dedup_refs seen rs) \<subseteq> set rs"
  by (induction seen rs rule: dedup_refs.induct) auto

lemma lifecycle_refs_facts:
  "set (map eref_key (lifecycle_refs p)) = eref_key ` (\<Union>r \<in> set (gp_records p). set (gr_evidence_refs r))"
  "distinct (map eref_key (lifecycle_refs p))" "sorted (map eref_key (lifecycle_refs p))"
proof -
  let ?ds = "dedup_refs [] (concat (map gr_evidence_refs (gp_records p)))"
  show "set (map eref_key (lifecycle_refs p)) = eref_key ` (\<Union>r \<in> set (gp_records p). set (gr_evidence_refs r))"
    using dedup_refs_set(1) [of "[]" "concat (map gr_evidence_refs (gp_records p))"] by (simp add: lifecycle_refs_def)
  have "mset (map eref_key (lifecycle_refs p)) = mset (map eref_key ?ds)"
    by (simp add: lifecycle_refs_def)
  then show "distinct (map eref_key (lifecycle_refs p))"
    using dedup_refs_set(2) by (metis mset_eq_imp_distinct_iff)
  show "sorted (map eref_key (lifecycle_refs p))"
    unfolding lifecycle_refs_def by (rule go_sort_sorted) simp
qed

lemma translate_lifecycle_Inr:
  "translate_lifecycle lib new v p = Inr r \<longleftrightarrow>
     verified_authority v \<and> lifecycle_set_id lib p = Some (es_id (vr_set v)) \<and> es_product (vr_set v) = ''gait'' \<and>
     es_producer_version (vr_set v) \<noteq> [] \<and> provenance_matches v p \<and> lifecycle_refs p \<noteq> [] \<and>
     (\<exists>time c a. lifecycle_timestamp p = Some time \<and> lifecycle_contract p = Some c \<and> lifecycle_activation p = Some a \<and>
        new (lifecycle_opts v p time c a (lifecycle_refs p)) = Some r)"
  by (auto simp: translate_lifecycle_def lifecycle_contract_def split: list.splits option.splits)


section \<open>A valid pack translates\<close>

lemma sha256_digest_ok_gait: "sha256_digest_ok v = gait_digest_ok v"
  by (auto simp: sha256_digest_ok_def gait_digest_ok_def hex_string_def Let_def)

lemma hex_printable: "is_hex c \<Longrightarrow> printable c"
  by (auto simp: is_hex_def is_digit_def printable_def)

lemma prefixed_hex_ok:
  assumes "bare_digest_ok h"
  shows "gait_digest_ok (''sha256:'' @ h)" and "trim_prefix h ''sha256:'' = h"
proof -
  have h: "length h = 64" "list_all is_hex h" using assms by (simp_all add: bare_digest_ok_def)
  then have ne: "h \<noteq> []" by auto
  then have "is_hex (last h)" "is_hex (hd h)" using h(2) by (simp_all add: list_all_iff)
  then have "trim_space (''sha256:'' @ h) = ''sha256:'' @ h"
    using ne by (intro trim_space_printable) (simp_all add: hex_printable, simp add: printable_def)
  moreover have "list_all is_hex_any h" using h(2) by (auto simp: list_all_iff is_hex_any_def)
  ultimately show "gait_digest_ok (''sha256:'' @ h)"
    using h(1) by (simp add: gait_digest_ok_def trim_prefix_def)
  have "\<not> is_hex CHR ''s''" by (simp add: is_hex_def is_digit_def)
  then have "\<not> prefix ''sha256:'' h" using \<open>is_hex (hd h)\<close> by (cases h) auto
  then show "trim_prefix h ''sha256:'' = h" by (simp add: trim_prefix_def)
qed

definition hex_digest :: "string option \<Rightarrow> bool" where
  "hex_digest d = (case d of None \<Rightarrow> True | Some d \<Rightarrow> bare_digest_ok (trim_prefix d ''sha256:''))"

definition digest_law :: "gait_lib \<Rightarrow> bool" where
  \<comment> \<open>the Proof library's canonical digests are SHA-256 in lowercase hex\<close>
  "digest_law lib \<longleftrightarrow>
     (\<forall>r. hex_digest (gl_record_digest lib r)) \<and> (\<forall>x. hex_digest (gl_execution_digest lib x)) \<and>
     (\<forall>x. hex_digest (gl_effect_digest lib x)) \<and> (\<forall>x. hex_digest (gl_containment_digest lib x)) \<and>
     (\<forall>x. hex_digest (gl_compensation_digest lib x))"

lemma digest_ok_prefixed: "digest_ok d \<longleftrightarrow> (\<exists>h. d = ''sha256:'' @ h \<and> bare_digest_ok h)"
  by (auto simp: digest_ok_def bare_digest_ok_def prefix_def)

lemma digest_ok_gait: "digest_ok d \<Longrightarrow> gait_digest_ok d"
  using prefixed_hex_ok(1) by (auto simp: digest_ok_prefixed)

lemma record_digest_valid:
  assumes "digest_law lib" and "verify_gait_record lib key r = None"
  shows "digest_ok (record_digest_of r)"
proof -
  have seal: "verify_record_seal lib key r = None"
    using assms(2) unfolding verify_gait_record_def by (simp only: split: if_splits option.splits) simp_all
  obtain d where d: "gl_record_digest lib (strip_record r) = Some d"
    "sg_signed_digest (gr_signature r) = trim_prefix d ''sha256:''"
  proof (cases "gl_record_digest lib (strip_record r)")
    case (Some d)
    then show ?thesis using seal that [of d] by (simp add: verify_record_seal_def split: if_splits)
  qed (use seal in \<open>simp add: verify_record_seal_def\<close>)
  have "bare_digest_ok (sg_signed_digest (gr_signature r))"
    using assms(1) d unfolding digest_law_def hex_digest_def by (metis option.simps(5))
  then show ?thesis using prefixed_hex_ok(2) unfolding digest_ok_prefixed record_digest_of_def by simp
qed

lemma common_digest:
  assumes "validate_common pre digest x = None" and "\<forall>y. hex_digest (digest y)"
  shows "digest_ok (te_digest x)"
proof -
  have "prefixed (digest (strip_evidence x)) = Some (te_digest x)"
    using assms(1) unfolding validate_common_def Let_def by (auto split: if_splits option.splits)
  then obtain d where "digest (strip_evidence x) = Some d" "te_digest x = ''sha256:'' @ trim_prefix d ''sha256:''"
    by (auto simp: prefixed_def)
  then show ?thesis using assms(2) unfolding hex_digest_def digest_ok_prefixed by (metis option.simps(5))
qed

lemma first_fault_None: "first_fault es = None \<longleftrightarrow> list_all (\<lambda>e. e = None) es"
  by (induction es) (auto simp: first_fault_def List.map_filter_simps split: list.splits option.splits)

lemma typed_checked_None: "typed_checked f k v = None \<Longrightarrow> v = Some x \<Longrightarrow> f x = None"
  by (simp add: typed_checked_def split: option.splits)

lemma typed_evidence_checked:
  assumes "validate_typed lib r = None"
  shows "gr_execution r = Some x \<Longrightarrow> validate_execution lib x = None"
    and "gr_effect r = Some f \<Longrightarrow> validate_effect lib f = None"
    and "gr_containment r = Some c \<Longrightarrow> validate_containment lib c = None"
    and "gr_compensation r = Some m \<Longrightarrow> validate_compensation lib m = None"
proof -
  have "list_all (\<lambda>e. e = None)
     [typed_checked (validate_execution lib) (gr_kind r \<in> {''execution_started'', ''execution_succeeded'',
            ''execution_failed'', ''execution_blocked''}) (gr_execution r),
         typed_checked (validate_effect lib) (gr_kind r \<in> {''effect_recorded'', ''effect_validated''}) (gr_effect r),
         typed_checked (validate_containment lib) (has_prefix (gr_kind r) ''containment_'') (gr_containment r),
         typed_checked (validate_compensation lib) (has_prefix (gr_kind r) ''compensation_'') (gr_compensation r)]"
    using assms unfolding validate_typed_def first_fault_None [symmetric] by (simp only: option.distinct split: if_split_asm)
  then show "gr_execution r = Some x \<Longrightarrow> validate_execution lib x = None"
    "gr_effect r = Some f \<Longrightarrow> validate_effect lib f = None"
    "gr_containment r = Some c \<Longrightarrow> validate_containment lib c = None"
    "gr_compensation r = Some m \<Longrightarrow> validate_compensation lib m = None"
    unfolding list.pred_inject by (blast intro: typed_checked_None)+
qed

lemma verified_typed_digest:
  assumes "validate_typed lib r = None" and "typed_eref r = Some e" and "digest_law lib"
  shows "digest_ok (er_digest e)"
proof -
  note checked = typed_evidence_checked [OF assms(1)]
  note laws = assms(3) [unfolded digest_law_def]
  have x: "digest_ok (te_digest x)" if "gr_execution r = Some x" for x
    using checked(1) [OF that] laws by (auto simp: validate_execution_def intro: common_digest split: if_splits)
  have f: "digest_ok (te_digest x)" if "gr_effect r = Some x" for x
    using checked(2) [OF that] laws by (auto simp: validate_effect_def intro: common_digest split: if_splits option.splits)
  have c: "digest_ok (te_digest x)" if "gr_containment r = Some x" for x
    using checked(3) [OF that] laws by (auto simp: validate_containment_def intro: common_digest split: if_splits option.splits)
  have m: "digest_ok (te_digest x)" if "gr_compensation r = Some x" for x
    using checked(4) [OF that] laws by (auto simp: validate_compensation_def intro: common_digest split: if_splits option.splits)
  show ?thesis
    using assms(2) x f c m
    by (auto simp: typed_eref_def typed_view_def typed_evidence.defs evidence_eref_def split: option.splits)
qed

lemma verified_typed: "verify_gait_record lib key r = None \<Longrightarrow> validate_typed lib r = None"
  unfolding verify_gait_record_def by (simp only: split: if_splits option.splits) simp_all

lemma clean_run_derived:
  assumes "clean_run lib opt s rs s'" and "digest_law lib"
  shows "\<exists>ds. ps_derived s' = ps_derived s @ ds \<and> list_all digest_ok ds \<and> length rs \<le> length ds"
  using assms
proof (induction rule: clean_run.induct)
  case (clean_cons s r t s1 rs s2)
  have v: "verify_gait_record lib (vo_key opt) r = None" using clean_cons.hyps(1) by (simp add: record_clean_def)
  define new where "new = record_digest_of r # (case typed_eref r of None \<Rightarrow> [] | Some e \<Rightarrow> [er_digest e])"
  have "ps_derived s1 = ps_derived s @ new"
    using kind_step_frame [OF clean_cons.hyps(4)] by (simp add: noted_def new_def)
  moreover have "list_all digest_ok new"
    using record_digest_valid [OF clean_cons.prems v] verified_typed_digest [OF verified_typed [OF v] _ clean_cons.prems]
    by (auto simp: new_def split: option.splits)
  moreover have "1 \<le> length new" by (simp add: new_def)
  ultimately show ?case
    using clean_cons.IH [OF clean_cons.prems] by (force intro: exI [where x = "new @ _"])
qed simp

lemma clean_run_binding:
  assumes "clean_run lib opt s rs s'" and "ps_binding s = None" and "ps_binding s' \<noteq> None"
  shows "\<exists>r \<in> set rs. gr_activation r \<noteq> None \<and> gr_evidence_refs r \<noteq> []"
  using assms
proof (induction rule: clean_run.induct)
  case (clean_cons s r t s1 rs s2)
  show ?case
  proof (cases "typed_binding r")
    case None
    then have "ps_binding s1 = None"
      using kind_step_frame [OF clean_cons.hyps(4)] clean_cons.prems(1) by (simp add: noted_def)
    then show ?thesis using clean_cons.IH clean_cons.prems(2) by auto
  next
    case (Some b)
    have c: "validate_record_lineage opt (ps_binding s) r = None"
      "case typed_eref r of None \<Rightarrow> True | Some e \<Rightarrow> list_ex (\<lambda>x. same_ref x e) (gr_evidence_refs r)"
      using clean_cons.hyps(1) by (simp_all add: record_clean_def)
    have "binding_lineage opt (ps_binding s) r b = None"
      using c(1) Some unfolding validate_record_lineage_def by (auto split: if_splits)
    then have "gr_activation r \<noteq> None"
      unfolding binding_lineage_def by (cases "gr_activation r") simp_all
    moreover have "typed_eref r \<noteq> None"
      using Some by (auto simp: typed_eref_def typed_binding_def)
    then have "gr_evidence_refs r \<noteq> []" using c(2) by (cases "gr_evidence_refs r") auto
    ultimately show ?thesis by auto
  qed
qed simp

lemma set_ids_agree:
  assumes "gait_digest_ok (gp_source_digest p)" and "trim_space (gp_source_digest p) = gp_source_digest p"
  shows "lifecycle_set_id lib p = Some (evidence_set_id lib p)"
  using assms by (simp add: lifecycle_set_id_def evidence_set_id_def sha256_digest_ok_gait Let_def)

lemma unique_sorted_raw_one: "x \<noteq> [] \<Longrightarrow> unique_sorted_strings [x] = [x]"
  by (simp add: unique_sorted_strings_def unique_sorted_raw_def dedup_def)

lemma set_unique_sorted_strings: "set (unique_sorted_strings xs) = set xs - {[]}"
  by (auto simp: unique_sorted_strings_def us_raw.norm_set clean_raw_def split: if_splits)

lemma valid_derived:
  assumes "vr_valid (verify_lifecycle_pack lib p opt)" and "digest_law lib"
  shows "list_all digest_ok (es_derived_digests (vr_set (verify_lifecycle_pack lib p opt)))"
    and "es_derived_digests (vr_set (verify_lifecycle_pack lib p opt)) \<noteq> []"
    and "gp_source_digest p \<noteq> [] \<Longrightarrow> es_source_digests (vr_set (verify_lifecycle_pack lib p opt)) = [gp_source_digest p]"
proof -
  let ?v = "verify_lifecycle_pack lib p opt"
  from assms(1) obtain s where o: "option_fault lib p opt = None" and w: "within_activation opt" and ne: "gp_records p \<noteq> []"
    and run: "clean_run lib opt initial_pack (gp_records p) s" by (auto simp: valid_iff_run)
  have fin: "ps_derived (finish_pack s) = ps_derived s"
    by (simp add: finish_pack_def add_ps_def Let_def split: option.splits)
  have fold: "fold (pack_step lib opt) (gp_records p) (window_reasons opt initial_pack) = s"
    using clean_run_fold [OF run] window_reasons_clean(2) [OF o w] by simp
  have set: "vr_set ?v = vr_set (pack_result lib p opt (finish_pack s))"
    using o ne fold by (simp add: verify_lifecycle_pack_def Let_def)
  obtain ds where ds: "ps_derived s = ds" "list_all digest_ok ds" "length (gp_records p) \<le> length ds"
    using clean_run_derived [OF run assms(2)] by (auto simp: initial_pack_def)
  have derived: "set (es_derived_digests (vr_set ?v)) = set ds"
    using ds by (auto simp: set pack_result_def Let_def set_unique_sorted_strings fin list_all_iff)
  then show "list_all digest_ok (es_derived_digests (vr_set ?v))" using ds(2) by (simp add: list_all_iff)
  have "ds \<noteq> []" using ds(3) ne by auto
  with derived show "es_derived_digests (vr_set ?v) \<noteq> []" by auto
  show "es_source_digests (vr_set ?v) = [gp_source_digest p]" if "gp_source_digest p \<noteq> []"
    using unique_sorted_raw_one [OF that] by (simp add: set pack_result_def Let_def)
qed

lemma valid_provenance:
  assumes "vr_valid (verify_lifecycle_pack lib p opt)" and "digest_law lib"
  shows "provenance_matches (verify_lifecycle_pack lib p opt) p"
proof -
  let ?v = "verify_lifecycle_pack lib p opt"
  from assms(1) have o: "option_fault lib p opt = None" by (auto simp: valid_iff_run)
  have key: "length (vo_key opt) = 32" "is_fixture_key lib (vo_key opt) \<Longrightarrow> vo_allow_fixture opt"
    "commit_ok (trim_space (vo_source_commit opt))" "gait_digest_ok (gp_source_digest p)"
    using o unfolding option_fault_def Let_def by (simp_all split: if_splits)
  have "\<not> gait_digest_ok []" by code_simp
  then have source: "es_source_digests (vr_set ?v) = [gp_source_digest p]"
    using valid_derived(3) [OF assms] key(4) by metis
  have "digests_ok (es_derived_digests (vr_set ?v))"
    using valid_derived(1,2) [OF assms] digest_ok_gait by (auto simp: digests_ok_def sha256_digest_ok_gait list_all_iff)
  moreover have "es_source_commit (vr_set ?v) = trim_space (vo_source_commit opt)"
    using key by (auto simp: verify_lifecycle_pack_def pack_result_def Let_def)
  ultimately show ?thesis
    using key(3,4) by (simp add: provenance_matches_def source contains_digest_def digests_ok_def
        sha256_digest_ok_gait commit_ok_def hex_string_def Let_def)
qed

lemma clean_run_times:
  "clean_run lib opt s rs s' \<Longrightarrow> list_all (\<lambda>r. parse_time (gr_occurred_at r) \<noteq> None) rs"
  by (induction rule: clean_run.induct) simp_all

definition dated :: "gait_pack \<Rightarrow> bool" where
  \<comment> \<open>some record is later than Go's zero time\<close>
  "dated p \<longleftrightarrow>
     list_ex (\<lambda>r. case parse_time (gr_occurred_at r) of None \<Rightarrow> False | Some t \<Rightarrow> 0 < t) (gp_records p)"

lemma dated_timestamp:
  assumes "list_all (\<lambda>r. parse_time (gr_occurred_at r) \<noteq> None) (gp_records p)" and "dated p"
  shows "\<exists>t. lifecycle_timestamp p = Some t"
proof -
  define ts where "ts = set (map (\<lambda>r. the (parse_time (gr_occurred_at r))) (gp_records p))"
  have fin: "finite ts" by (simp add: ts_def)
  obtain r t where r: "r \<in> set (gp_records p)" "parse_time (gr_occurred_at r) = Some t" "0 < t"
    using assms(2) by (auto simp: dated_def list_ex_iff split: option.splits)
  then have "t \<in> ts" by (force simp: ts_def)
  then have "t \<le> Max (insert 0 ts)" using fin by simp
  then show ?thesis
    using assms(1) r(3) unfolding lifecycle_timestamp_Some ts_def by (intro exI [of _ "Max (insert 0 ts)"]) (simp add: ts_def)
qed

lemma authoritative_translates:
  assumes "vr_authoritative (verify_lifecycle_pack lib p opt)" and "digest_law lib"
    and "trim_space (gp_source_digest p) = gp_source_digest p" and "dated p"
  shows "\<exists>time c a refs. refs \<noteq> [] \<and> translate_lifecycle lib new (verify_lifecycle_pack lib p opt) p =
    (case new (lifecycle_opts (verify_lifecycle_pack lib p opt) p time c a refs) of
       None \<Rightarrow> Inl (TranslateError tr_failed ''build lifecycle proof record'')
     | Some r \<Rightarrow> Inr r)"
proof -
  let ?v = "verify_lifecycle_pack lib p opt"
  have auth: "verified_authority ?v" and valid: "vr_valid ?v"
    using assms(1) by (simp_all add: verified_authority_def verify_lifecycle_pack_def pack_result_def Let_def)
  from valid obtain s where o: "option_fault lib p opt = None" and ne: "gp_records p \<noteq> []"
    and run: "clean_run lib opt initial_pack (gp_records p) s" and acc: "accepting s" by (auto simp: valid_iff_run)
  have key: "length (vo_key opt) = 32" "\<not> is_fixture_key lib (vo_key opt)" "trim_space (vo_producer_version opt) \<noteq> []"
    "gait_digest_ok (gp_source_digest p)"
    using o assms(1) unfolding option_fault_def Let_def
    by (simp_all add: verify_lifecycle_pack_def pack_result_def Let_def split: if_splits)
  have set: "es_id (vr_set ?v) = evidence_set_id lib p" "es_product (vr_set ?v) = ''gait''"
    "es_producer_version (vr_set ?v) = trim_space (vo_producer_version opt)"
    using key by (simp_all add: verify_lifecycle_pack_def pack_result_def Let_def)
  have ids: "lifecycle_set_id lib p = Some (es_id (vr_set ?v))"
    using set_ids_agree [OF key(4) assms(3)] set(1) by simp
  obtain time where time: "lifecycle_timestamp p = Some time"
    using dated_timestamp [OF clean_run_times [OF run] assms(4)] by blast
  obtain r where r: "r \<in> set (gp_records p)" "gr_activation r \<noteq> None" "gr_evidence_refs r \<noteq> []"
    using clean_run_binding [OF run] acc by (auto simp: initial_pack_def accepting_def)
  obtain c where c: "lifecycle_contract p = Some c"
    using ne by (cases "gp_records p") (auto simp: lifecycle_contract_def)
  have "List.map_filter gr_activation (gp_records p) \<noteq> []"
    using r by (force simp: List.map_filter_def filter_empty_conv)
  then obtain a where a: "lifecycle_activation p = Some a"
    by (cases "List.map_filter gr_activation (gp_records p)") (auto simp: lifecycle_activation_def)
  have refs: "lifecycle_refs p \<noteq> []"
    using r lifecycle_refs_facts(1) [of p] by fastforce
  have "translate_lifecycle lib new ?v p =
    (case new (lifecycle_opts ?v p time c a (lifecycle_refs p)) of
       None \<Rightarrow> Inl (TranslateError tr_failed ''build lifecycle proof record'') | Some r \<Rightarrow> Inr r)"
    using auth ne ids set key valid_provenance [OF valid assms(2)] time c a refs
    by (simp add: translate_lifecycle_def split: list.splits)
  then show ?thesis using refs by blast
qed

text \<open>
  The two sides of the Gait boundary fit together: a pack that verifies as authoritative, with a trimmed source digest
  and at least one record later than Go's zero time, passes every check of the translator, so the only
  failure left is that of \<open>proof.NewRecord\<close>.
\<close>

theorem valid_pack_translates:
  assumes "vr_authoritative (verify_lifecycle_pack lib p opt)" and "digest_law lib"
    and "trim_space (gp_source_digest p) = gp_source_digest p" and "dated p"
  shows "\<exists>time c a refs. refs \<noteq> [] \<and> translate_lifecycle lib new (verify_lifecycle_pack lib p opt) p =
    (case new (lifecycle_opts (verify_lifecycle_pack lib p opt) p time c a refs) of
       None \<Rightarrow> Inl (TranslateError tr_failed ''build lifecycle proof record'')
     | Some r \<Rightarrow> Inr r)"
  using assms by (rule authoritative_translates)

section \<open>A translated pack\<close>

definition sample_verdict :: verification_result where
  "sample_verdict = verify_lifecycle_pack sample_lib sample_pack sample_options"

lemma sample_digest_law: "digest_law sample_lib"
proof -
  have "bare_digest_ok (trim_prefix (c # replicate 63 CHR ''0'') ''sha256:'')" if "is_hex c" for c
  proof -
    have "\<not> prefix ''sha256:'' (c # replicate 63 CHR ''0'')"
      by (simp add: numeral_eq_Suc)
    moreover have "is_hex CHR ''0''" by (simp add: is_hex_def is_digit_def)
    ultimately show ?thesis using that by (simp add: bare_digest_ok_def trim_prefix_def list_all_iff)
  qed
  moreover have "bare_digest_ok (trim_prefix sample_digest ''sha256:'')" by code_simp
  ultimately show ?thesis by (auto simp: digest_law_def hex_digest_def sample_lib_def split: list.splits)
qed

lemma sample_verdict_fields:
  "vr_authoritative sample_verdict" "trim_space (gp_source_digest sample_pack) = gp_source_digest sample_pack" "dated sample_pack"
proof -
  have "\<not> is_fixture_key sample_lib (vo_key sample_options)" by code_simp
  then show "vr_authoritative sample_verdict"
    using sample_valid by (simp add: sample_verdict_def verify_lifecycle_pack_def pack_result_def Let_def)
  show "trim_space (gp_source_digest sample_pack) = gp_source_digest sample_pack" by code_simp
  have "case parse_time (gr_occurred_at (hd (gp_records sample_pack))) of None \<Rightarrow> False | Some t \<Rightarrow> 0 < t" by code_simp
  then show "dated sample_pack" by (simp add: dated_def sample_pack_def)
qed

theorem valid_pack_translates_witness:
  "\<exists>time c a refs. refs \<noteq> [] \<and> translate_lifecycle sample_lib (\<lambda>_. None) sample_verdict sample_pack =
    Inl (TranslateError tr_failed ''build lifecycle proof record'')"
  using valid_pack_translates [OF sample_verdict_fields(1) [unfolded sample_verdict_def] sample_digest_law
      sample_verdict_fields(2,3), of "\<lambda>_. None"] unfolding sample_verdict_def by auto

definition aggregate :: "record_opts \<Rightarrow> proof_record" where
  \<comment> \<open>a Proof library that copies the options\<close>
  "aggregate opts = \<lparr>pr_record_id = ''prf-1'', pr_record_type = op_record_type opts, pr_source = op_source opts,
     pr_source_product = op_source_product opts, pr_agent_id = op_agent_id opts, pr_timestamp = op_timestamp opts,
     pr_event = op_event opts, pr_metadata = op_metadata opts, pr_relationship = op_relationship opts,
     pr_human_oversight = None, pr_record_hash = sample_digest, pr_previous_hash = [], pr_signing_key_id = [],
     pr_signature = []\<rparr>"

lemma sample_translated:
  "\<exists>r. translate_lifecycle sample_lib (\<lambda>opts. Some (aggregate opts)) sample_verdict sample_pack = Inr r"
  using authoritative_translates [OF sample_verdict_fields(1) [unfolded sample_verdict_def] sample_digest_law
      sample_verdict_fields(2,3), of "\<lambda>opts. Some (aggregate opts)"] unfolding sample_verdict_def by auto

text \<open>
  The two sides disagree on white space: the verifier derives the id of the evidence set from the digest as it stands, the
  translator from the trimmed digest. A verified pack with a blank before its source digest is therefore refused.
\<close>

definition spaced_digest :: string where "spaced_digest = CHR '' '' # sample_digest"

definition spaced_options :: verification_options where
  "spaced_options = sample_options\<lparr>vo_lifecycle_digest := spaced_digest\<rparr>"

definition spaced_pack :: gait_pack where
  "spaced_pack = sample_pack\<lparr>gp_source_digest := spaced_digest\<rparr>"

lemma clean_run_lifecycle_digest:
  "clean_run lib opt s rs s' \<Longrightarrow> clean_run lib (opt\<lparr>vo_lifecycle_digest := d\<rparr>) s rs s'"
proof (induction rule: clean_run.induct)
  case (clean_cons s r t s1 rs s2)
  have "record_clean lib (opt\<lparr>vo_lifecycle_digest := d\<rparr>) s r"
    using clean_cons.hyps(1)
    by (simp add: record_clean_def validate_record_lineage_def binding_lineage_def cong: if_cong option.case_cong)
  moreover have "kind_step lib (opt\<lparr>vo_lifecycle_digest := d\<rparr>) r (noted r t s) = Inr s1"
    using clean_cons.hyps(4)
    by (simp add: kind_step_def setup_step_def execution_step_def cong: if_cong option.case_cong)
  ultimately show ?case using clean_cons.hyps(2,3) clean_cons.IH by (auto intro: clean_run.clean_cons)
qed (rule clean_run.clean_nil)

theorem spaced_digest_not_translated:
  "vr_authoritative (verify_lifecycle_pack sample_lib spaced_pack spaced_options) \<and>
   translate_lifecycle sample_lib new (verify_lifecycle_pack sample_lib spaced_pack spaced_options) spaced_pack =
     Inl (TranslateError tr_pack_mismatch ''lifecycle pack does not match verified evidence set'')"
proof -
  let ?v = "verify_lifecycle_pack sample_lib spaced_pack spaced_options"
  obtain s where run: "clean_run sample_lib sample_options initial_pack (gp_records sample_pack) s" and acc: "accepting s"
    using sample_valid by (auto simp: valid_iff_run)
  have "option_fault sample_lib spaced_pack spaced_options = None" "within_activation spaced_options" by code_simp+
  moreover have "gp_records spaced_pack = gp_records sample_pack" by (simp add: spaced_pack_def)
  moreover have "gp_records sample_pack \<noteq> []" by (simp add: sample_pack_def)
  ultimately have valid: "vr_valid ?v"
    unfolding valid_iff_run using clean_run_lifecycle_digest [OF run] acc by (auto simp: spaced_options_def)
  have f: "\<not> is_fixture_key sample_lib (vo_key spaced_options)" by code_simp
  then have auth: "vr_authoritative ?v" "verified_authority ?v" "es_id (vr_set ?v) = evidence_set_id sample_lib spaced_pack"
    using valid by (simp_all add: verified_authority_def verify_lifecycle_pack_def pack_result_def Let_def)
  moreover have "lifecycle_set_id sample_lib spaced_pack \<noteq> Some (evidence_set_id sample_lib spaced_pack)" by code_simp
  moreover have "gp_records spaced_pack \<noteq> []" by (simp add: spaced_pack_def sample_pack_def)
  ultimately show ?thesis by (simp add: translate_lifecycle_def)
qed

text \<open>
  The key of a reference joins its fields with a bar that the fields may contain, so two references can share one: then only
  the first of them is carried over.
\<close>

theorem reference_keys_collide:
  "let a = evidence_eref ''execution'' ''x|y'' sample_digest ''s''; b = evidence_eref ''execution|x'' ''y'' sample_digest ''s''
   in a \<noteq> b \<and> dedup_refs [] [a, b] = [a] \<and> dedup_refs [] [b, a] = [b]"
  by (simp add: evidence_eref_def eref_key_def Let_def)


end
