(* ===== verification/Project.thy ===== *)
theory Project
  imports Timeline Artifact Translate
begin

text \<open>
  \<open>core/governance/actioncontract.go\<close> and \<open>core/governance/verified_registry.go\<close>: Wrkr proposals and
  the Gait lifecycle records of the store become governed contracts and evidence packets. A proposal
  alone is report-only; a record promotes an axis only when it is a verified, authoritative lifecycle
  aggregate that names the contract exactly, carries an ingest receipt and, where a registry is
  consulted, an entry of the registry. The checks of the Proof library are arguments.
\<close>

section \<open>Contracts from proposals\<close>

definition number_exponent :: "string \<Rightarrow> int" where
  "number_exponent s =
     (case s of [] \<Rightarrow> 0
      | c # rest \<Rightarrow> if c = CHR ''-'' then - digits_value rest else if c = CHR ''+'' then digits_value rest else digits_value s)"

definition number_value :: "string \<Rightarrow> rat" where
  \<comment> \<open>the number a JSON literal denotes\<close>
  "number_value s =
    (let neg = (take 1 s = ''-''); body = (if neg then tl s else s);
         mant = takeWhile (\<lambda>c. c \<noteq> CHR ''e'' \<and> c \<noteq> CHR ''E'') body; ex = number_exponent (drop (length mant + 1) body);
         whole = takeWhile (\<lambda>c. c \<noteq> CHR ''.'') mant; frac = drop (length whole + 1) mant;
         m = of_int (digits_value (whole @ frac)) / 10 ^ length frac;
         v = (if ex < 0 then m / 10 ^ nat (- ex) else m * 10 ^ nat ex)
     in if neg then - v else v)"

fun go_value :: "jvalue \<Rightarrow> gvalue" where
  \<comment> \<open>a decoded JSON value as the maps of a contract hold it; a \<open>json.Number\<close> is the number it denotes\<close>
  "go_value JNull = VNil"
| "go_value (JBool b) = VBool b"
| "go_value (JNumber s) = VNum (number_value s)"
| "go_value (JText s) = VStr s"
| "go_value (JArr xs) = VArr (map go_value xs)"
| "go_value (JObj kvs) = VObj (map (\<lambda>(k, v). (k, go_value v)) kvs)"

definition go_object :: "jmap \<Rightarrow> gobj" where
  "go_object m = (case m of None \<Rightarrow> [] | Some kvs \<Rightarrow> map (\<lambda>(k, v). (k, go_value v)) kvs)"

definition axis_objects :: "jmap \<Rightarrow> string \<Rightarrow> gobj list" where
  \<comment> \<open>\<open>objectArrayAC\<close>\<close>
  "axis_objects c k = map go_object (object_array c k)"

definition single_object :: "jmap \<Rightarrow> string \<Rightarrow> gobj list" where
  "single_object c k = (case jget c k of Some (JObj kvs) \<Rightarrow> [go_object (Some kvs)] | _ \<Rightarrow> [])"

definition object_or_array :: "jmap \<Rightarrow> string \<Rightarrow> gobj list" where
  "object_or_array c k =
     (case jget c k of Some (JObj kvs) \<Rightarrow> [go_object (Some kvs)] | _ \<Rightarrow> axis_objects c k)"

definition constraint_value :: "jmap \<Rightarrow> string \<Rightarrow> string" where
  "constraint_value c key =
     (case find (\<lambda>i. string_field i ''key'' = key) (object_array c ''target_constraints'') of
        None \<Rightarrow> [] | Some i \<Rightarrow> string_field i ''value'')"

definition or_else :: "string \<Rightarrow> string \<Rightarrow> string" where
  "or_else x y = (if x = [] then y else x)"

datatype project_error =
    IdentityIncomplete
  | ProposalProvenance
  | PacketError gov_error
  | RegisterDigest
  | RecordUnverified nat
  | ReceiptMissing nat
  | RegistryEntryMissing string

definition proposal_provenance :: "proposal \<Rightarrow> gov_ref" where
  "proposal_provenance p =
     \<lparr>ref_id = pl_artifact_id p, ref_kind = ''proposal'', ref_digest = pl_raw_digest p, ref_source = ''wrkr'',
      ref_source_product = pm_name (pl_producer p), ref_schema_id = pl_schema_id p,
      ref_schema_version = pl_schema_version p\<rparr>"

definition contract_from_proposal :: "proposal \<Rightarrow> (project_error, contract) result" where
  "contract_from_proposal p =
    (if pl_artifact_id p = [] \<or> pl_contract_id p = [] \<or> pl_family p = [] \<or> pl_revision p < 1 then Inl IdentityIncomplete
     else if \<not> valid_ref (proposal_provenance p) then Inl ProposalProvenance
     else
      (let c = pl_contract p;
           target = constraint_value c ''target_identity'';
           comp = object_or_array c ''compensation_requirement''
       in Inr \<lparr>gc_id = pl_contract_id p, gc_family_id = pl_family p, gc_revision = pl_revision p,
            gc_action = or_else (string_field c ''expected_outcome_class'') ''proposed_action'',
            gc_target = or_else (or_else target (constraint_value c ''target_class'')) ''unknown'',
            gc_environment = or_else (constraint_value c ''environment'') ''unknown'',
            gc_policy_digest = string_field c ''policy_digest'', gc_owner = string_field c ''owner'',
            gc_authority_refs = [], gc_authorization = axis_objects c ''authority_requirements'',
            gc_preconditions = axis_objects c ''preconditions'',
            gc_confirmation = single_object c ''confirmation_requirement'',
            gc_approval = single_object c ''approval_requirement'',
            gc_credential = axis_objects c ''credential_requirements'', gc_effect = axis_objects c ''effects'',
            gc_compensation = (if comp = [] then axis_objects c ''compensation'' else comp),
            gc_outcome = axis_objects c ''outcomes'', gc_provenance = proposal_provenance p,
            gc_causal_ref =
              \<lparr>ref_id = pl_contract_id p, ref_kind = ''action_contract'', ref_digest = pl_digest p, ref_source = ''wrkr'',
               ref_source_product = pm_name (pl_producer p),
               ref_schema_id = ''https://wrkr.dev/schemas/v1/proposed-action-contract-v3.schema.json'',
               ref_schema_version = pm_contract_version (pl_producer p)\<rparr>\<rparr>))"

section \<open>References inside a record\<close>

text \<open>
  \<open>json.Marshal\<close> writes the keys of a map in order and those of a struct as declared;
  \<open>json.Unmarshal\<close> matches keys without regard to case and keeps the last one. A field of the wrong type
  is left alone and makes the call return an error.
\<close>

definition json_entries :: "gobj \<Rightarrow> gobj" where
  "json_entries kvs = map (\<lambda>k. (k, json_value (the (map_of kvs k)))) (sort (remdups (map fst kvs)))"

definition named :: "gobj \<Rightarrow> string \<Rightarrow> gvalue list" where
  "named kvs name = map snd (filter (\<lambda>(k, _). to_lower k = name) (json_entries kvs))"

definition text_field :: "gobj \<Rightarrow> string \<Rightarrow> string" where
  "text_field kvs name = fold (\<lambda>v old. case v of VStr s \<Rightarrow> s | _ \<Rightarrow> old) (named kvs name) []"

definition text_ok :: "gobj \<Rightarrow> string \<Rightarrow> bool" where
  "text_ok kvs name = list_all (\<lambda>v. case v of VStr _ \<Rightarrow> True | VNil \<Rightarrow> True | _ \<Rightarrow> False) (named kvs name)"

definition ref_names :: "string list" where
  "ref_names = [''id'', ''kind'', ''digest'', ''source'', ''source_product'', ''schema_id'', ''schema_version'']"

definition decode_ref :: "gobj \<Rightarrow> gov_ref" where
  "decode_ref kvs =
     \<lparr>ref_id = text_field kvs ''id'', ref_kind = text_field kvs ''kind'', ref_digest = text_field kvs ''digest'',
      ref_source = text_field kvs ''source'', ref_source_product = text_field kvs ''source_product'',
      ref_schema_id = text_field kvs ''schema_id'', ref_schema_version = text_field kvs ''schema_version''\<rparr>"

definition ref_fields_ok :: "gobj \<Rightarrow> bool" where
  "ref_fields_ok kvs = list_all (text_ok kvs) ref_names"

definition zero_ref :: gov_ref where
  "zero_ref = \<lparr>ref_id = [], ref_kind = [], ref_digest = [], ref_source = [], ref_source_product = [], ref_schema_id = [],
     ref_schema_version = []\<rparr>"

definition with_source :: "gov_ref \<Rightarrow> gov_ref" where
  "with_source r = (if ref_source r = [] then r\<lparr>ref_source := ref_source_product r\<rparr> else r)"

definition refs_from_value :: "gvalue option \<Rightarrow> gov_ref list" where
  "refs_from_value v =
     (case map_option json_value v of
        Some (VArr xs) \<Rightarrow>
          (case those (map (\<lambda>x. case x of
               VObj kvs \<Rightarrow> if ref_fields_ok kvs then Some (decode_ref kvs) else None
             | VNil \<Rightarrow> Some zero_ref | _ \<Rightarrow> None) xs) of
             None \<Rightarrow> [] | Some refs \<Rightarrow> map with_source refs)
      | _ \<Rightarrow> [])"

definition ref_from_value :: "gvalue option \<Rightarrow> gov_ref" where
  "ref_from_value v =
     with_source (case map_option json_value v of Some (VObj kvs) \<Rightarrow> decode_ref kvs | _ \<Rightarrow> zero_ref)"

section \<open>The transitions a record reports\<close>

record transition =
  tn_id :: string
  tn_kind :: string
  tn_occurred_at :: string
  tn_source_digest :: string
  tn_ref :: gov_ref

definition evidence_ref_ok :: "gvalue \<Rightarrow> bool" where
  "evidence_ref_ok v = (case v of VObj kvs \<Rightarrow> ref_fields_ok kvs | VNil \<Rightarrow> True | _ \<Rightarrow> False)"

definition transition_ok :: "gobj \<Rightarrow> bool" where
  "transition_ok kvs \<longleftrightarrow>
     list_all (text_ok kvs) [''id'', ''kind'', ''occurred_at'', ''source_digest''] \<and>
     list_all evidence_ref_ok (named kvs ''evidence_ref'')"

definition decode_transition :: "gobj \<Rightarrow> transition" where
  \<comment> \<open>here without merging several spellings of \<open>evidence_ref\<close>\<close>
  "decode_transition kvs =
     \<lparr>tn_id = text_field kvs ''id'', tn_kind = text_field kvs ''kind'', tn_occurred_at = text_field kvs ''occurred_at'',
      tn_source_digest = text_field kvs ''source_digest'',
      tn_ref = fold (\<lambda>v old. case v of VObj o' \<Rightarrow> decode_ref o' | _ \<Rightarrow> old) (named kvs ''evidence_ref'') zero_ref\<rparr>"

definition zero_transition :: transition where
  "zero_transition = \<lparr>tn_id = [], tn_kind = [], tn_occurred_at = [], tn_source_digest = [], tn_ref = zero_ref\<rparr>"

definition decode_transitions :: "gvalue option \<Rightarrow> transition list" where
  "decode_transitions v =
     (case map_option json_value v of
        Some (VArr xs) \<Rightarrow>
          (case those (map (\<lambda>x. case x of
               VObj kvs \<Rightarrow> if transition_ok kvs then Some (decode_transition kvs) else None
             | VNil \<Rightarrow> Some zero_transition | _ \<Rightarrow> None) xs) of
             None \<Rightarrow> [] | Some ts \<Rightarrow> ts)
      | _ \<Rightarrow> [])"

definition axis_kinds :: "string \<Rightarrow> string list" where
  "axis_kinds axis =
     (if axis = ''execution'' then [''execution_started'', ''execution_blocked'', ''execution_succeeded'', ''execution_failed'']
      else if axis = ''effect'' then [''effect_recorded'', ''effect_validated'']
      else if axis = ''compensation'' then [''compensation_required'', ''compensation_started'', ''compensation_completed'']
      else if axis = ''containment''
      then [''containment_requested'', ''containment_completed'', ''containment_partial'', ''containment_unresolved'']
      else [])"

definition lifecycle_transitions :: "proof_record \<Rightarrow> string \<Rightarrow> transition list" where
  "lifecycle_transitions r axis =
     filter (\<lambda>t. tn_kind t \<in> set (axis_kinds axis) \<and> tn_id t \<noteq> [] \<and> tn_occurred_at t \<noteq> [])
       (decode_transitions (mget (pr_event r) ''gait_lifecycle_events''))"

definition transition_state :: "string \<Rightarrow> string" where
  "transition_state kind =
     (if kind \<in> {''execution_started'', ''compensation_started''} then ''started''
      else if kind = ''execution_blocked'' then ''blocked''
      else if kind = ''execution_succeeded'' then ''succeeded''
      else if kind = ''effect_recorded'' then ''recorded''
      else if kind = ''effect_validated'' then ''validated''
      else if kind \<in> {''execution_failed'', ''compensation_failed''} then ''failed''
      else if kind = ''compensation_required'' then ''required''
      else if kind = ''compensation_completed'' then ''completed''
      else if kind = ''containment_requested'' then ''requested''
      else if kind = ''containment_partial'' then ''partial''
      else if kind = ''containment_completed'' then ''completed''
      else if kind = ''containment_unresolved'' then ''gap''
      else ''unknown'')"

definition transition_terminal :: "string \<Rightarrow> string \<Rightarrow> bool" where
  "transition_terminal axis kind \<longleftrightarrow>
     (if axis = ''execution'' then kind \<in> {''execution_blocked'', ''execution_succeeded'', ''execution_failed''}
      else if axis = ''compensation'' then kind \<in> {''compensation_completed'', ''compensation_failed''}
      else if axis = ''effect'' then kind = ''effect_validated''
      else if axis = ''containment''
      then kind \<in> {''containment_completed'', ''containment_partial'', ''containment_unresolved''}
      else False)"

section \<open>Evidence from a lifecycle record\<close>

definition lifecycle_record :: "proof_record \<Rightarrow> bool" where
  "lifecycle_record r \<longleftrightarrow>
     pr_source_product r = ''gait'' \<and> str_or_empty (as_string (mget (pr_metadata r) ''evidence_kind'')) = ''gait_lifecycle''"

definition ac_digest_ok :: "string \<Rightarrow> bool" where
  "ac_digest_ok s = digest_ok (trim_space s)"

definition ac_digests_ok :: "string list \<Rightarrow> bool" where
  "ac_digests_ok vs \<longleftrightarrow> vs \<noteq> [] \<and> list_all ac_digest_ok vs"

definition ac_bool :: "gmap \<Rightarrow> string \<Rightarrow> bool" where
  "ac_bool m k = (case as_bool (mget m k) of None \<Rightarrow> False | Some b \<Rightarrow> b)"

definition ac_strings :: "gmap \<Rightarrow> string \<Rightarrow> string list" where
  "ac_strings m k =
     (case mget m k of
        Some (VStrs ss) \<Rightarrow> ss
      | Some (VArr xs) \<Rightarrow> List.map_filter (\<lambda>v. as_string (Some v)) xs
      | _ \<Rightarrow> [])"

definition nonempty_array :: "gvalue option \<Rightarrow> bool" where
  \<comment> \<open>by reflection: a slice of any type with an element\<close>
  "nonempty_array v =
     (case v of Some (VStrs xs) \<Rightarrow> xs \<noteq> [] | Some (VArr xs) \<Rightarrow> xs \<noteq> [] | Some (VObjs xs) \<Rightarrow> xs \<noteq> []
      | Some (VStructs xs) \<Rightarrow> xs \<noteq> [] | _ \<Rightarrow> False)"

definition lifecycle_state :: "proof_record \<Rightarrow> string \<Rightarrow> string" where
  "lifecycle_state r kind =
    (let ev = map_string (pr_event r);
         contain = or_else (ev ''containment_status'') (ev ''gait_containment_status'');
         comp = to_lower (or_else (ev ''compensation_status'') (map_string (pr_metadata r) ''gait_compensation_status''));
         raw = (if kind = ''execution'' then ev ''gait_execution'' else if kind = ''effect'' then ev ''gait_effect''
                else if kind = ''containment'' then contain else if kind = ''compensation'' then comp else []);
         value = to_lower raw
     in if kind = ''execution'' \<and> value = ''blocked'' then ''blocked''
        else if kind = ''containment'' \<and> raw \<in> {''partial'', ''requested''} then raw
        else if kind = ''compensation'' \<and> comp \<in> {''required'', ''not_required'', ''started'', ''requested'', ''completed'',
            ''succeeded'', ''failed'', ''rejected'', ''unresolved'', ''unknown''} then comp
        else if value \<in> {''failed'', ''rejected''} \<or> value = ''unresolved'' \<and> kind = ''containment'' then ''gap''
        else if value \<in> {''unknown'', ''unresolved'', ''started'', ''requested''} then ''unknown''
        else ''present'')"

definition preferred_kinds :: "string \<Rightarrow> string list" where
  "preferred_kinds kind =
     (if kind = ''authority'' then [''proposal_ingested'']
      else if kind = ''readiness'' then [''decision_ready'']
      else if kind = ''correlation'' then [''proposal_ingested'']
      else if kind = ''enforcement'' then [''activated'']
      else axis_kinds kind)"

definition event_items :: "gvalue option \<Rightarrow> gobj list" where
  "event_items v =
     (case v of
        Some (VArr xs) \<Rightarrow> List.map_filter (\<lambda>x. as_obj (Some x)) xs
      | Some (VObjs os) \<Rightarrow> os
      | _ \<Rightarrow> [])"

definition evidence_occurred_at :: "proof_record \<Rightarrow> string \<Rightarrow> string \<Rightarrow> string" where
  \<comment> \<open>\<open>lifecycleEvidenceOccurredAt\<close>: the last event of a preferred kind that has a time\<close>
  "evidence_occurred_at r kind fallback =
     or_else (fold (\<lambda>o' sel. if map_string (Some o') ''kind'' \<in> set (preferred_kinds kind) \<and>
           map_string (Some o') ''occurred_at'' \<noteq> [] then map_string (Some o') ''occurred_at'' else sel)
        (event_items (mget (pr_event r) ''gait_lifecycle_events'')) []) fallback"

definition lifecycle_provenance :: "gov_ref list \<Rightarrow> string \<Rightarrow> gov_ref" where
  "lifecycle_provenance refs source =
     (case find (\<lambda>r. ref_digest r = source) refs of
        Some r \<Rightarrow> r
      | None \<Rightarrow> \<lparr>ref_id = source, ref_kind = ''gait_lifecycle_source'', ref_digest = source, ref_source = ''gait'',
          ref_source_product = ''gait'',
          ref_schema_id = ''https://gait.dev/schemas/v1/runtime-lifecycle-record.schema.json'', ref_schema_version = ''1''\<rparr>)"

definition usable_ref :: "gov_ref \<Rightarrow> bool" where
  "usable_ref r \<longleftrightarrow> ref_id r \<noteq> [] \<and> ac_digest_ok (ref_digest r) \<and> ref_schema_id r \<noteq> [] \<and> ref_schema_version r \<noteq> [] \<and>
     ref_source_product r \<noteq> []"

type_synonym ref_table = "(string \<times> gov_ref) list"

definition refs_by_kind :: "gov_ref list \<Rightarrow> gov_ref \<Rightarrow> gov_ref \<Rightarrow> ref_table" where
  "refs_by_kind refs activation contract =
    (let t = fold (\<lambda>r. AList.update (to_lower (ref_kind r)) r) (filter usable_ref refs) []
     in AList.update (to_lower (ref_kind contract)) contract
          (AList.update ''enforcement'' activation (AList.update (to_lower (ref_kind activation)) activation t)))"

definition evidence_axes :: "proof_record \<Rightarrow> ref_table \<Rightarrow> string list" where
  \<comment> \<open>\<open>values\<close>, each once\<close>
  "evidence_axes r t =
    (let has = (\<lambda>k. map_of t k \<noteq> None); ev = map_string (pr_event r) in
     dedup (filter has [''authority'', ''readiness'', ''preconditions'', ''confirmation'', ''approval'', ''credential'',
        ''delegation'', ''enforcement'', ''resource_lifecycle'', ''proof'', ''freshness'', ''correlation''] @
      (if has ''action_contract'' then [''authority'', ''readiness'', ''correlation''] else []) @
      (if has ''activated_action_contract'' then [''enforcement''] else []) @
      (if has ''execution'' \<and> ev ''gait_execution'' \<noteq> [] then [''execution''] else []) @
      (if has ''effect_event'' \<and> ev ''gait_effect'' \<noteq> [] then [''effect''] else []) @
      (if has ''containment'' \<and> (ev ''containment_status'' \<noteq> [] \<or> ev ''gait_containment_status'' \<noteq> [])
       then [''containment''] else []) @
      (if has ''compensation'' \<and> (ev ''compensation_status'' \<noteq> [] \<or>
          map_string (pr_metadata r) ''gait_compensation_status'' \<noteq> []) then [''compensation''] else [])))"

definition lifecycle_base :: "proof_record \<Rightarrow> gov_ref" where
  "lifecycle_base r =
     \<lparr>ref_id = pr_record_id r, ref_kind = ''gait_lifecycle'', ref_digest = pr_record_hash r, ref_source = pr_source r,
      ref_source_product = ''gait'',
      ref_schema_id = ''https://github.com/Clyra-AI/proof/schemas/v1/proof-record-v1.schema.json'',
      ref_schema_version = ''1.0''\<rparr>"

definition axis_ref :: "gov_ref \<Rightarrow> ref_table \<Rightarrow> string \<Rightarrow> gov_ref" where
  "axis_ref base t kind =
     (case map_of t kind of
        Some ref \<Rightarrow> ref
      | None \<Rightarrow> (case (if kind = ''effect'' then map_of t ''effect_event'' else None) of Some ref \<Rightarrow> ref | None \<Rightarrow> base))"

definition transition_attributes :: "string \<Rightarrow> transition \<Rightarrow> (string \<times> string) list" where
  "transition_attributes kind t =
     [(''state'', transition_state (tn_kind t)), (''event_id'', tn_id t)] @
     (if tn_source_digest t \<noteq> [] then [(''source_digest'', tn_source_digest t)] else []) @
     (if transition_terminal kind (tn_kind t) then [(''terminal'', ''true'')] else [])"

definition axis_evidence ::
  "proof_record \<Rightarrow> gov_ref \<Rightarrow> gov_ref list \<Rightarrow> ref_table \<Rightarrow> string \<Rightarrow> evidence list" where
  \<comment> \<open>the body of the last loop of \<open>verifiedLifecycleEvidence\<close>\<close>
  "axis_evidence r cref refs t kind =
    (let ref = axis_ref (lifecycle_base r) t kind;
         prov = lifecycle_provenance refs (map_string (pr_metadata r) ''gait_source_artifact_digest'');
         ts = lifecycle_transitions r kind
     in if ts \<noteq> [] then
          map (\<lambda>tn. \<lparr>evd_kind = kind, evd_ref = (if valid_ref (tn_ref tn) then tn_ref tn else ref),
             evd_occurred_at = tn_occurred_at tn, evd_contract_ref = cref,
             evd_attributes = Some (transition_attributes kind tn), evd_provenance = prov\<rparr>) ts
        else
          [\<lparr>evd_kind = kind, evd_ref = ref,
            evd_occurred_at = evidence_occurred_at r kind (format_rfc3339_nano (pr_timestamp r)), evd_contract_ref = cref,
            evd_attributes = Some ((''state'', lifecycle_state r kind) #
              (if kind = ''enforcement'' then [(''event_id'', pr_record_id r), (''source_digest'', pr_record_hash r)] else [])),
            evd_provenance = prov\<rparr>])"

definition same_contract :: "gov_ref \<Rightarrow> gov_ref \<Rightarrow> bool" where
  "same_contract a b \<longleftrightarrow> ref_id a = ref_id b \<and> ref_digest a = ref_digest b \<and> ref_schema_id a = ref_schema_id b \<and>
     ref_schema_version a = ref_schema_version b \<and> ref_source_product a = ref_source_product b"

definition verified_aggregate :: "proof_record \<Rightarrow> bool" where
  \<comment> \<open>the guards on the record itself\<close>
  "verified_aggregate r \<longleftrightarrow>
     map_string (pr_metadata r) ''evidence_kind'' = ''gait_lifecycle'' \<and>
     map_string (pr_metadata r) ''gait_verification_state'' = ''verified'' \<and>
     ac_bool (pr_metadata r) ''gait_authoritative'' \<and> \<not> ac_bool (pr_metadata r) ''gait_fixture_only''"

definition promotes :: "proof_record \<Rightarrow> gov_ref \<Rightarrow> bool" where
  \<comment> \<open>every guard of \<open>verifiedLifecycleEvidence\<close>\<close>
  "promotes r cref \<longleftrightarrow>
    (let m = pr_metadata r; refs = refs_from_value (mget (pr_event r) ''evidence_refs'');
         activation = ref_from_value (mget (pr_event r) ''activation_ref'');
         contract = ref_from_value (mget (pr_event r) ''contract_ref'')
     in lifecycle_record r \<and> pr_event r \<noteq> None \<and> pr_record_hash r \<noteq> [] \<and> verified_aggregate r \<and>
        ac_digest_ok (map_string m ''gait_source_artifact_digest'') \<and>
        ac_digests_ok (ac_strings m ''gait_source_artifact_digests'') \<and>
        ac_digests_ok (ac_strings m ''gait_derived_evidence_digests'') \<and>
        nonempty_array (mget (pr_event r) ''evidence_refs'') \<and> ac_digest_ok (pr_record_hash r) \<and>
        valid_ref activation \<and> to_lower (ref_kind activation) = ''activated_action_contract'' \<and>
        valid_ref contract \<and> to_lower (ref_kind contract) = ''action_contract'' \<and> list_ex usable_ref refs \<and>
        same_contract contract cref)"

definition verified_lifecycle_evidence :: "proof_record \<Rightarrow> gov_ref \<Rightarrow> evidence list" where
  "verified_lifecycle_evidence r cref =
    (if \<not> promotes r cref then []
     else
      (let refs = refs_from_value (mget (pr_event r) ''evidence_refs'');
           t = refs_by_kind refs (ref_from_value (mget (pr_event r) ''activation_ref''))
                 (ref_from_value (mget (pr_event r) ''contract_ref''))
       in concat (map (axis_evidence r cref refs t) (evidence_axes r t))))"

section \<open>Joining records with contracts\<close>

definition exact_join :: "contract \<Rightarrow> gov_ref \<Rightarrow> string \<Rightarrow> string \<Rightarrow> string \<Rightarrow> string \<Rightarrow> bool" where
  \<comment> \<open>\<open>exactContractJoin\<close> against one of the two references of a contract\<close>
  "exact_join c expected i digest schema product \<longleftrightarrow>
     i = gc_id c \<and> digest \<noteq> [] \<and> schema \<noteq> [] \<and> product \<noteq> [] \<and> digest = ref_digest expected \<and>
     schema = ref_schema_id expected \<and> product = ref_source_product expected"

definition joins :: "contract \<Rightarrow> string \<Rightarrow> string \<Rightarrow> string \<Rightarrow> string \<Rightarrow> bool" where
  "joins c i digest schema product \<longleftrightarrow>
     exact_join c (gc_provenance c) i digest schema product \<or> exact_join c (gc_causal_ref c) i digest schema product"

definition record_belongs :: "proof_record \<Rightarrow> contract \<Rightarrow> bool" where
  "record_belongs r c =
    (case mget (pr_event r) ''contract_ref'' of
       Some (VObj kvs) \<Rightarrow>
         (let f = (\<lambda>k. str_or_empty (as_string (map_of kvs k))) in
          f ''kind'' = ''action_contract'' \<and> joins c (f ''id'') (f ''digest'') (f ''schema_id'') (f ''source_product''))
     | _ \<Rightarrow>
         (case pr_relationship r of
            None \<Rightarrow> False
          | Some rel \<Rightarrow> list_ex (\<lambda>ref. rr_kind ref = ''action_contract'' \<and>
              joins c (rr_id ref) (rr_digest ref) (rr_schema_id ref) (rr_source_product ref)) (rel_entity_refs rel)))"

section \<open>Registers and packets\<close>

definition fixed_proposal_timestamp :: string where
  "fixed_proposal_timestamp = ''2000-01-01T00:00:00Z''"

definition evidence_contract_ref :: "contract \<Rightarrow> gov_ref" where
  "evidence_contract_ref c =
     (if valid_ref (gc_causal_ref c) then gc_causal_ref c
      else \<lparr>ref_id = gc_id c, ref_kind = ''action_contract'', ref_digest = ref_digest (gc_provenance c),
        ref_source = ref_source (gc_provenance c), ref_source_product = ref_source_product (gc_provenance c),
        ref_schema_id = register_schema_id, ref_schema_version = schema_version\<rparr>)"

definition proposal_evidence :: "contract \<Rightarrow> evidence" where
  "proposal_evidence c =
     \<lparr>evd_kind = ''proposal'', evd_ref = gc_provenance c, evd_occurred_at = fixed_proposal_timestamp,
      evd_contract_ref = evidence_contract_ref c, evd_attributes = None, evd_provenance = gc_provenance c\<rparr>"

definition evidence_for_contract :: "contract \<Rightarrow> proof_record list \<Rightarrow> evidence list" where
  "evidence_for_contract c rs =
     go_sort (\<lambda>a b. ref_id (evd_ref a) < ref_id (evd_ref b))
       (proposal_evidence c #
        concat (map (\<lambda>r. verified_lifecycle_evidence r (evidence_contract_ref c)) (filter (\<lambda>r. record_belongs r c) rs)))"

type_synonym packets = "(string \<times> packet) list"

fun project_proposals ::
  "(packet \<Rightarrow> string option) \<Rightarrow> proof_record list \<Rightarrow> proposal list \<Rightarrow> contract list \<Rightarrow> packets \<Rightarrow>
   (project_error, contract list \<times> packets) result" where
  \<comment> \<open>the loop of \<open>registerAndPackets\<close>, with the contracts and packets so far\<close>
  "project_proposals jcs rs [] cs ps = Inr (cs, ps)"
| "project_proposals jcs rs (p # rest) cs ps =
     (case contract_from_proposal p of
        Inl e \<Rightarrow> Inl e
      | Inr c \<Rightarrow> (case build_packet jcs c (evidence_for_contract c rs) of
          Inl e \<Rightarrow> Inl (PacketError e)
        | Inr pk \<Rightarrow> project_proposals jcs rs rest (cs @ [c]) (AList.update (gc_id c) pk ps)))"

record project_lib =
  pj_packet_digest :: "packet \<Rightarrow> string option"
  pj_contracts_digest :: "contract list \<Rightarrow> string option"
  pj_verify_record :: "string \<Rightarrow> proof_record \<Rightarrow> bool"     \<comment> \<open>\<open>proof.Verify\<close>\<close>
  pj_receipts :: receipt_lib

definition register_and_packets ::
  "project_lib \<Rightarrow> proposal list \<Rightarrow> proof_record list \<Rightarrow> (project_error, register \<times> packets) result" where
  \<comment> \<open>\<open>registerAndPackets\<close>\<close>
  "register_and_packets lib proposals rs =
     bind_result (project_proposals (pj_packet_digest lib) rs proposals [] []) (\<lambda>(cs, ps).
       case normalize_register \<lparr>rg_schema_id = register_schema_id, rg_schema_version = schema_version,
           rg_contracts = cs, rg_source_digest = [], rg_digest = [], rg_signature = None\<rparr> of
         Inl e \<Rightarrow> Inl (PacketError e)
       | Inr reg \<Rightarrow> (case gov_digest (pj_contracts_digest lib) (rg_contracts reg) of
           None \<Rightarrow> Inl RegisterDigest
         | Some d \<Rightarrow> Inr (reg\<lparr>rg_source_digest := d\<rparr>, ps)))"

definition register_from_proposals ::
  "project_lib \<Rightarrow> proposal list \<Rightarrow> proof_record list \<Rightarrow> (project_error, register \<times> packets) result" where
  \<comment> \<open>\<open>RegisterAndPackets\<close>: the legacy entry point drops the records\<close>
  "register_from_proposals lib proposals rs = register_and_packets lib proposals []"

fun check_records ::
  "(nat \<Rightarrow> proof_record \<Rightarrow> project_error option) \<Rightarrow> nat \<Rightarrow> proof_record list \<Rightarrow> project_error option" where
  "check_records check i [] = None"
| "check_records check i (r # rs) =
     (case check i r of Some e \<Rightarrow> Some e | None \<Rightarrow> check_records check (Suc i) rs)"

definition check_verified :: "project_lib \<Rightarrow> string \<Rightarrow> nat \<Rightarrow> proof_record \<Rightarrow> project_error option" where
  "check_verified lib public i r =
     (if \<not> pj_verify_record lib public r then Some (RecordUnverified i)
      else if lifecycle_record r then
        (case verify_lifecycle_receipt (pj_receipts lib) r public of Inl _ \<Rightarrow> Some (ReceiptMissing i) | Inr _ \<Rightarrow> None)
      else None)"

definition register_verified ::
  "project_lib \<Rightarrow> string \<Rightarrow> proposal list \<Rightarrow> proof_record list \<Rightarrow> (project_error, register \<times> packets) result" where
  \<comment> \<open>\<open>RegisterAndPacketsVerified\<close>\<close>
  "register_verified lib public proposals rs =
     (case check_records (check_verified lib public) 0 rs of
        Some e \<Rightarrow> Inl e
      | None \<Rightarrow> register_and_packets lib proposals rs)"

section \<open>The registry of verified lifecycles\<close>

record registry_entry =
  en_record_id :: string
  en_record_hash :: string
  en_source_digest :: string
  en_receipt :: receipt

type_synonym registry = "registry_entry list go_file"

definition registry_eligible :: "proof_record \<Rightarrow> bool" where
  "registry_eligible r \<longleftrightarrow>
     pr_metadata r \<noteq> None \<and> pr_source_product r = ''gait'' \<and> pr_record_hash r \<noteq> [] \<and> verified_aggregate r \<and>
     ac_digest_ok (map_string (pr_metadata r) ''gait_source_artifact_digest'') \<and> ac_digest_ok (pr_record_hash r)"

definition registry_entry_of :: "proof_record \<Rightarrow> receipt \<Rightarrow> registry_entry" where
  \<comment> \<open>\<open>lifecycleRegistryEntry\<close> of an eligible record, with the receipt its callers fill in\<close>
  "registry_entry_of r receipt =
     \<lparr>en_record_id = pr_record_id r, en_record_hash = pr_record_hash r,
      en_source_digest = map_string (pr_metadata r) ''gait_source_artifact_digest'', en_receipt = receipt\<rparr>"

datatype registry_error = NotAggregate | ReceiptInvalid receipt_error | RegistryCorrupt | RegistryUnreadable | RegistryWrite string

definition registry_table :: "registry_entry list \<Rightarrow> (string \<times> registry_entry) list" where
  "registry_table es =
     fold (\<lambda>e. AList.update (en_record_id e) e) (filter (\<lambda>e. en_record_id e \<noteq> []) es) []"

definition merge_entry :: "registry_entry \<Rightarrow> registry_entry list \<Rightarrow> registry_entry list" where
  \<comment> \<open>the new entry replaces that of its record; the entries come out by record id\<close>
  "merge_entry e es =
    (let t = AList.update (en_record_id e) e (registry_table es)
     in map (\<lambda>k. the (map_of t k)) (sort (map fst t)))"

definition register_lifecycle ::
  "receipt_lib \<Rightarrow> string \<Rightarrow> bool \<Rightarrow> fs_fault option \<Rightarrow> proof_record \<Rightarrow> registry \<Rightarrow> registry \<times> registry_error option" where
  \<comment> \<open>\<open>RegisterVerifiedLifecycle\<close>\<close>
  "register_lifecycle lib public ignorable fault r registry =
    (if \<not> registry_eligible r then (registry, Some NotAggregate)
     else case verify_lifecycle_receipt lib r public of
       Inl e \<Rightarrow> (registry, Some (ReceiptInvalid e))
     | Inr receipt \<Rightarrow>
        (let write = (\<lambda>es. case write_json_atomic ignorable True fault (merge_entry (registry_entry_of r receipt) es) registry of
              (f, err) \<Rightarrow> (f, map_option RegistryWrite err))
         in case registry of
              Unreadable \<Rightarrow> (registry, Some RegistryUnreadable)
            | Corrupt \<Rightarrow> (registry, Some RegistryCorrupt)
            | Missing \<Rightarrow> write []
            | Content es \<Rightarrow> write es))"

definition verify_registered :: "receipt_lib \<Rightarrow> string \<Rightarrow> registry \<Rightarrow> proof_record \<Rightarrow> bool" where
  \<comment> \<open>\<open>VerifyRegisteredLifecycle\<close>\<close>
  "verify_registered lib public registry r =
    (if \<not> registry_eligible r then False
     else case verify_lifecycle_receipt lib r public of
       Inl _ \<Rightarrow> False
     | Inr receipt \<Rightarrow>
        (case registry of Content es \<Rightarrow> list_ex (\<lambda>e. e = registry_entry_of r receipt) es | _ \<Rightarrow> False))"

definition check_registered ::
  "project_lib \<Rightarrow> string \<Rightarrow> registry \<Rightarrow> nat \<Rightarrow> proof_record \<Rightarrow> project_error option" where
  \<comment> \<open>one iteration of the loop of \<open>RegisterAndPacketsVerifiedWithRegistry\<close>\<close>
  "check_registered lib public file i r =
     (case check_verified lib public i r of
        Some e \<Rightarrow> Some e
      | None \<Rightarrow> if lifecycle_record r \<and> \<not> verify_registered (pj_receipts lib) public file r
          then Some (RegistryEntryMissing (pr_record_id r)) else None)"

definition register_with_registry ::
  "project_lib \<Rightarrow> string \<Rightarrow> registry \<Rightarrow> proposal list \<Rightarrow> proof_record list \<Rightarrow>
   (project_error, register \<times> packets) result" where
  "register_with_registry lib public file proposals rs =
     (case check_records (check_registered lib public file) 0 rs of
        Some e \<Rightarrow> Inl e
      | None \<Rightarrow> register_and_packets lib proposals rs)"

definition check_lifecycle ::
  "receipt_lib \<Rightarrow> string \<Rightarrow> registry \<Rightarrow> nat \<Rightarrow> proof_record \<Rightarrow> project_error option" where
  "check_lifecycle lib public file i r =
     (if \<not> lifecycle_record r then None
      else case verify_lifecycle_receipt lib r public of
        Inl _ \<Rightarrow> Some (ReceiptMissing i)
      | Inr _ \<Rightarrow> if verify_registered lib public file r then None else Some (RegistryEntryMissing (pr_record_id r)))"

definition verify_lifecycle_records ::
  "receipt_lib \<Rightarrow> string \<Rightarrow> registry \<Rightarrow> proof_record list \<Rightarrow> project_error option" where
  \<comment> \<open>\<open>VerifyLifecycleRecordsWithRegistry\<close>\<close>
  "verify_lifecycle_records lib public file rs = check_records (check_lifecycle lib public file) 0 rs"


section \<open>What an entry of a packet rests on\<close>

lemma evidence_promoted: "e \<in> set (verified_lifecycle_evidence r cref) \<Longrightarrow> promotes r cref"
  by (simp add: verified_lifecycle_evidence_def split: if_splits)

lemma promotes_lifecycle: "promotes r cref \<Longrightarrow> lifecycle_record r"
  by (simp add: promotes_def Let_def)

lemma evidence_for_contract_sources:
  assumes "e \<in> set (evidence_for_contract c rs)"
  shows "e = proposal_evidence c \<or>
    (\<exists>r \<in> set rs. record_belongs r c \<and> promotes r (evidence_contract_ref c) \<and>
       e \<in> set (verified_lifecycle_evidence r (evidence_contract_ref c)))"
  using assms evidence_promoted by (fastforce simp: evidence_for_contract_def)

lemma build_packet_fields:
  assumes "build_packet jcs c es = Inr pk"
  shows "pk_contract pk = c" "set (pk_evidence pk) = set es"
  using assms by (auto simp: build_packet_def draft_packet_def Let_def split: option.splits prod.splits)

definition packet_for :: "(packet \<Rightarrow> string option) \<Rightarrow> proof_record list \<Rightarrow> contract list \<Rightarrow> packet \<Rightarrow> bool" where
  "packet_for jcs rs cs pk \<longleftrightarrow> (\<exists>c \<in> set cs. build_packet jcs c (evidence_for_contract c rs) = Inr pk)"

lemma project_proposals_packets:
  assumes "project_proposals jcs rs ps cs0 pks0 = Inr (cs, pks)"
    and "\<forall>pk \<in> ran (map_of pks0). packet_for jcs rs cs0 pk"
  shows "\<forall>pk \<in> ran (map_of pks). packet_for jcs rs cs pk"
  using assms
proof (induction jcs rs ps cs0 pks0 rule: project_proposals.induct)
  case (2 jcs rs p rest cs0 pks0)
  from "2.prems"(1) obtain c pk where c: "contract_from_proposal p = Inr c"
    "build_packet jcs c (evidence_for_contract c rs) = Inr pk"
    "project_proposals jcs rs rest (cs0 @ [c]) (AList.update (gc_id c) pk pks0) = Inr (cs, pks)"
    by (auto split: sum.splits)
  have "\<forall>q \<in> ran (map_of (AList.update (gc_id c) pk pks0)). packet_for jcs rs (cs0 @ [c]) q"
    using "2.prems"(2) c(2) by (auto simp: packet_for_def ran_def split: if_splits)
  with "2.IH" c show ?case by blast
qed simp

lemma register_and_packets_packet:
  assumes "register_and_packets lib ps rs = Inr (reg, pks)" and "map_of pks cid = Some pk"
  shows "\<exists>c \<in> set (rg_contracts reg). pk_contract pk = c \<and> set (pk_evidence pk) = set (evidence_for_contract c rs) \<and>
    build_packet (pj_packet_digest lib) c (evidence_for_contract c rs) = Inr pk"
proof -
  obtain cs where p: "project_proposals (pj_packet_digest lib) rs ps [] [] = Inr (cs, pks)"
    and n: "set (rg_contracts reg) = set cs"
    using assms(1) by (auto simp: register_and_packets_def bind_result_Inr_iff normalize_register_def
        split: option.splits sum.splits)
  have "pk \<in> ran (map_of pks)" using assms(2) by (auto simp: ran_def)
  then have "packet_for (pj_packet_digest lib) rs cs pk" using project_proposals_packets [OF p] by simp
  then show ?thesis using build_packet_fields n by (auto simp: packet_for_def)
qed

lemma check_records_None: "check_records check i rs = None \<longleftrightarrow> (\<forall>k < length rs. check (i + k) (rs ! k) = None)"
proof (induction rs arbitrary: i)
  case (Cons r rs)
  have "(\<forall>k < length (r # rs). check (i + k) ((r # rs) ! k) = None) \<longleftrightarrow>
      check i r = None \<and> (\<forall>k < length rs. check (Suc i + k) (rs ! k) = None)"
    by (auto simp: less_Suc_eq_0_disj nth_Cons split: nat.splits)
  then show ?case using Cons.IH [of "Suc i"] by (auto split: option.splits)
qed simp

lemma check_records_all: "check_records check i rs = None \<Longrightarrow> r \<in> set rs \<Longrightarrow> \<exists>k. check k r = None"
  by (auto simp: check_records_None in_set_conv_nth)

definition record_attested :: "project_lib \<Rightarrow> string \<Rightarrow> registry \<Rightarrow> proof_record \<Rightarrow> bool" where
  \<comment> \<open>signed by the store's key, with a valid ingest receipt and an entry of the registry\<close>
  "record_attested lib public registry r \<longleftrightarrow>
     pj_verify_record lib public r \<and> (\<exists>rc. verify_lifecycle_receipt (pj_receipts lib) r public = Inr rc) \<and>
     verify_registered (pj_receipts lib) public registry r"

lemma registered_attested:
  "check_registered lib public registry i r = None \<Longrightarrow> lifecycle_record r \<Longrightarrow> record_attested lib public registry r"
  by (auto simp: check_registered_def check_verified_def record_attested_def split: option.splits if_splits sum.splits)


definition no_axis :: axis_map where
  "no_axis = map (\<lambda>a. (a, ''missing'')) packet_axes"

lemma no_axis_missing:
  "list_all (\<lambda>a. axis_get no_axis a = ''missing'') packet_axes"
  "concat (map (axis_reason no_axis) packet_axes) = map (\<lambda>a. ''MISSING_'' @ to_upper a) packet_axes"
  by code_simp+

lemma proposal_alone_states:
  "derive_packet_completeness [proposal_evidence c] =
     (''partial'', no_axis, sort (map (\<lambda>a. ''MISSING_'' @ to_upper a) packet_axes))"
proof -
  have "str_or_empty (map_of axis_aliases (to_lower (trim_space ''proposal''))) = []" by code_simp
  then have "axis_states [proposal_evidence c] = no_axis"
    by (simp add: axis_states_def axis_step_def item_axis_def proposal_evidence_def no_axis_def)
  moreover have "axis_get no_axis a = ''missing''" if "a \<in> set packet_axes" for a
    using no_axis_missing(1) that by (simp add: list_all_iff)
  then have "\<not> list_ex (\<lambda>a. axis_get no_axis a \<in> {''unknown'', ''gap''}) packet_axes"
    "\<not> list_all (\<lambda>a. axis_get no_axis a \<notin> {''missing'', ''unknown'', ''gap''}) packet_axes"
    by (auto simp: list_ex_iff list_all_iff packet_axes_def)
  ultimately show ?thesis by (simp only: derive_packet_completeness_def Let_def no_axis_missing(2) if_False)
qed

text \<open>
  A proposal on its own promotes nothing: the packets of the legacy entry point, whatever records it is
  given, hold the proposal alone and miss every axis.
\<close>

theorem proposals_promote_nothing:
  assumes "register_from_proposals lib ps rs = Inr (reg, pks)" and "map_of pks cid = Some pk"
  shows "pk_evidence pk = [proposal_evidence (pk_contract pk)] \<and> pk_completeness pk = ''partial'' \<and>
    pk_reason_codes pk = sort (map (\<lambda>a. ''MISSING_'' @ to_upper a) packet_axes)"
proof -
  obtain c where c: "pk_contract pk = c" "build_packet (pj_packet_digest lib) c (evidence_for_contract c []) = Inr pk"
    using register_and_packets_packet [OF assms(1) [unfolded register_from_proposals_def] assms(2)] by blast
  have "evidence_for_contract c [] = [proposal_evidence c]" "go_sort lt [proposal_evidence c] = [proposal_evidence c]" for lt
    by (simp_all add: evidence_for_contract_def go_sort_def)
  moreover from this obtain d where "pk = (draft_packet c [proposal_evidence c])\<lparr>pk_digest := d\<rparr>"
    using c(2) by (auto simp: build_packet_def Let_def split: option.splits)
  ultimately show ?thesis using c(1) by (simp add: draft_packet_def Let_def proposal_alone_states)
qed

section \<open>The relationship of a translated record\<close>

lemma refs_to_proof_kind: "ref \<in> set (refs_to_proof refs) \<Longrightarrow> CHR ''.'' \<in> set (rr_kind ref)"
  by (auto simp: refs_to_proof_def)

text \<open>
  An aggregate joins a contract only once it has been through the store. While its event still holds Gait's
  structs the join falls back on the relationship, whose kinds carry the name of their source and never
  equal the kind the join looks for.
\<close>

theorem aggregate_joins_after_storage:
  assumes "pr_event r = op_event (lifecycle_opts v p time contract activation refs)"
    and "pr_relationship r = op_relationship (lifecycle_opts v p time contract activation refs)"
  shows "\<not> record_belongs r c \<and>
    (record_belongs (r\<lparr>pr_event := Some (json_object (pr_event r))\<rparr>) c \<longleftrightarrow>
      er_kind contract = ''action_contract'' \<and>
      joins c (er_id contract) (er_digest contract) (er_schema_id contract) (er_product contract))"
proof -
  have "CHR ''.'' \<notin> set ''action_contract''" by simp
  then have rel: "rr_kind ref \<noteq> ''action_contract''" if "ref \<in> set (refs_to_proof rs)" for ref rs
    using refs_to_proof_kind [OF that] by metis
  have ev: "mget (pr_event r) ''contract_ref'' = Some (VStruct (eref_object contract))"
    by (simp add: assms(1) lifecycle_opts_def lifecycle_event_def Let_def)
  then have "\<not> record_belongs r c"
    using rel assms(2) by (auto simp: record_belongs_def lifecycle_opts_def entity_relationship_def list_ex_iff)
  moreover have "record_belongs (r\<lparr>pr_event := Some (json_object (pr_event r))\<rparr>) c \<longleftrightarrow>
      er_kind contract = ''action_contract'' \<and>
      joins c (er_id contract) (er_digest contract) (er_schema_id contract) (er_product contract)"
    by (simp add: record_belongs_def map_of_json_object ev eref_object_def Let_def)
  ultimately show ?thesis by blast
qed

section \<open>The registry\<close>

definition keyed :: "(string \<times> registry_entry) list \<Rightarrow> bool" where
  "keyed t \<longleftrightarrow> distinct (map fst t) \<and> (\<forall>k e. map_of t k = Some e \<longrightarrow> en_record_id e = k)"

lemma keyed_update: "keyed t \<Longrightarrow> keyed (AList.update (en_record_id e) e t)"
  unfolding keyed_def map_of_update fun_upd_apply by (metis distinct_update option.inject)

lemma keyed_fold: "keyed t \<Longrightarrow> keyed (fold (\<lambda>e. AList.update (en_record_id e) e) es t)"
  by (induction es arbitrary: t) (simp_all add: keyed_update)

lemma keyed_table: "keyed (AList.update (en_record_id e) e (registry_table es))"
  unfolding registry_table_def by (intro keyed_update keyed_fold) (simp add: keyed_def)

lemma map_of_key: "k \<in> set (map fst t) \<longleftrightarrow> map_of t k = Some (the (map_of t k))"
  by (metis map_of_eq_None_iff option.collapse option.distinct(1) set_map)

lemma keyed_ids:
  assumes "keyed t" shows "map en_record_id (map (\<lambda>k. the (map_of t k)) (sort (map fst t))) = sort (map fst t)"
proof -
  have "en_record_id (the (map_of t k)) = k" if "k \<in> set (map fst t)" for k
    using assms that map_of_key [of k t] unfolding keyed_def by blast
  then have "\<forall>k \<in> set (sort (map fst t)). (en_record_id \<circ> (\<lambda>k. the (map_of t k))) k = k"
    unfolding set_sort comp_def by blast
  then show ?thesis unfolding map_map by (intro map_idI) blast
qed

lemma keyed_member:
  assumes "keyed t"
  shows "x \<in> (\<lambda>k. the (map_of t k)) ` set (map fst t) \<longleftrightarrow> map_of t (en_record_id x) = Some x"
proof
  assume "x \<in> (\<lambda>k. the (map_of t k)) ` set (map fst t)"
  then obtain k where "k \<in> set (map fst t)" "x = the (map_of t k)" by blast
  then have "map_of t k = Some x" using map_of_key [of k t] by simp
  then show "map_of t (en_record_id x) = Some x" using assms unfolding keyed_def by metis
next
  assume m: "map_of t (en_record_id x) = Some x"
  then have "en_record_id x \<in> set (map fst t)" using map_of_key [of "en_record_id x" t] by simp
  with m show "x \<in> (\<lambda>k. the (map_of t k)) ` set (map fst t)" by (intro image_eqI [of _ _ "en_record_id x"]) simp_all
qed

lemma merge_entry_ids:
  "map en_record_id (merge_entry e es) = sort (map fst (AList.update (en_record_id e) e (registry_table es)))"
  unfolding merge_entry_def Let_def by (rule keyed_ids) (rule keyed_table)

lemma merge_entry_set:
  "x \<in> set (merge_entry e es) \<longleftrightarrow> map_of (AList.update (en_record_id e) e (registry_table es)) (en_record_id x) = Some x"
proof -
  have "set (merge_entry e es) = (\<lambda>k. the (map_of (AList.update (en_record_id e) e (registry_table es)) k)) `
      set (map fst (AList.update (en_record_id e) e (registry_table es)))"
    by (simp only: merge_entry_def Let_def set_map set_sort)
  then show ?thesis using keyed_member [OF keyed_table] by simp
qed

lemma registry_table_last:
  "map_of (fold (\<lambda>e. AList.update (en_record_id e) e) es t) k =
     (case find (\<lambda>e. en_record_id e = k) (rev es) of None \<Rightarrow> map_of t k | Some e \<Rightarrow> Some e)"
  by (induction es rule: rev_induct) (auto simp: fun_upd_def)

lemma find_by_id:
  assumes "distinct (map en_record_id es)" and "en_record_id x \<noteq> []"
  shows "find (\<lambda>e. en_record_id e = en_record_id x) (rev (filter (\<lambda>e. en_record_id e \<noteq> []) es)) = Some x \<longleftrightarrow> x \<in> set es"
proof -
  let ?fs = "rev (filter (\<lambda>e. en_record_id e \<noteq> []) es)"
  have inj: "inj_on en_record_id (set es)" using assms(1) by (simp add: distinct_map)
  have x: "x \<in> set ?fs \<longleftrightarrow> x \<in> set es" using assms(2) by auto
  show ?thesis
  proof
    assume "find (\<lambda>e. en_record_id e = en_record_id x) ?fs = Some x"
    from find_SomeD [OF this] show "x \<in> set es" by simp
  next
    assume m: "x \<in> set es"
    then have "find (\<lambda>e. en_record_id e = en_record_id x) ?fs \<noteq> None"
      using x by (auto simp: find_None_iff)
    then obtain y where y: "find (\<lambda>e. en_record_id e = en_record_id x) ?fs = Some y" by blast
    from find_SomeD [OF this] have "y \<in> set es" "en_record_id y = en_record_id x" by simp_all
    then have "y = x" using inj m by (auto dest: inj_onD)
    then show "find (\<lambda>e. en_record_id e = en_record_id x) ?fs = Some x" using y by simp
  qed
qed

definition stored_entries :: "registry \<Rightarrow> registry_entry list" where
  "stored_entries registry = (case registry of Content es \<Rightarrow> es | _ \<Rightarrow> [])"

lemma written: "write_json_atomic ign fs fault x f = (f', None) \<Longrightarrow> f' = Content x"
  using write_json_atomic_ok [of ign fs fault x f] by simp

text \<open>
  C29: a registration that reports success makes the record verify against the registry, leaves one entry per
  record in order of record ids, and keeps what other records have there; one that fails without
  a directory fault leaves the registry as it was.
\<close>

theorem registration_recorded:
  assumes "register_lifecycle lib public ign fault r registry = (registry', err)"
  shows "(err = None \<longrightarrow> verify_registered lib public registry' r \<and>
      sorted (map en_record_id (stored_entries registry')) \<and> distinct (map en_record_id (stored_entries registry')) \<and>
      (\<forall>e. en_record_id e \<noteq> pr_record_id r \<longrightarrow> en_record_id e \<noteq> [] \<longrightarrow> distinct (map en_record_id (stored_entries registry)) \<longrightarrow>
         (e \<in> set (stored_entries registry') \<longleftrightarrow> e \<in> set (stored_entries registry)))) \<and>
    (err \<noteq> None \<and> fault \<noteq> Some DirSyncFails \<longrightarrow> registry' = registry)"
proof (cases err)
  case (Some e)
  then show ?thesis
    using assms by (auto simp: register_lifecycle_def write_json_atomic_def Let_def
        split: if_splits sum.splits go_file.splits prod.splits option.splits fs_fault.splits)
next
  case None
  obtain rc where el: "registry_eligible r" and rc: "verify_lifecycle_receipt lib r public = Inr rc"
    using assms None by (auto simp: register_lifecycle_def split: if_splits sum.splits)
  let ?e = "registry_entry_of r rc"
  have id: "en_record_id ?e = pr_record_id r" by (simp add: registry_entry_of_def)
  have new: "registry' = Content (merge_entry ?e (stored_entries registry))"
    using assms None el rc
    by (cases registry) (auto simp: register_lifecycle_def stored_entries_def Let_def written split: prod.splits)
  have "?e \<in> set (merge_entry ?e (stored_entries registry))" by (simp add: merge_entry_set)
  then have 1: "verify_registered lib public registry' r"
    by (simp add: verify_registered_def el rc new list_ex_iff)
  have 2: "sorted (map en_record_id (stored_entries registry'))" "distinct (map en_record_id (stored_entries registry'))"
    using keyed_table [of ?e "stored_entries registry"] unfolding keyed_def
    by (simp_all only: new stored_entries_def [of "Content _"] go_file.case merge_entry_ids sorted_sort distinct_sort)
  have 3: "x \<in> set (stored_entries registry') \<longleftrightarrow> x \<in> set (stored_entries registry)"
    if "en_record_id x \<noteq> pr_record_id r" "en_record_id x \<noteq> []" "distinct (map en_record_id (stored_entries registry))" for x
  proof -
    let ?es = "stored_entries registry"
    have "x \<in> set (stored_entries registry') \<longleftrightarrow> map_of (registry_table ?es) (en_record_id x) = Some x"
      using that(1) by (simp add: new stored_entries_def [of "Content _"] merge_entry_set id)
    also have "\<dots> \<longleftrightarrow> find (\<lambda>e. en_record_id e = en_record_id x) (rev (filter (\<lambda>e. en_record_id e \<noteq> []) ?es)) = Some x"
      by (simp add: registry_table_def registry_table_last split: option.splits)
    also have "\<dots> \<longleftrightarrow> x \<in> set ?es"
      using find_by_id [OF that(3,2)] .
    finally show ?thesis .
  qed
  from 1 2 3 None show ?thesis by auto
qed

section \<open>A record that went through the store\<close>

definition stored_as :: "record_opts \<Rightarrow> proof_record \<Rightarrow> bool" where
  \<comment> \<open>the record holds the options after the JSON round trip; its metadata may have gained the receipt\<close>
  "stored_as opts r \<longleftrightarrow>
     pr_source r = op_source opts \<and> pr_source_product r = op_source_product opts \<and>
     pr_timestamp r = op_timestamp opts \<and> pr_event r = Some (json_object (op_event opts)) \<and>
     pr_metadata r \<noteq> None \<and>
     (\<forall>k. k \<noteq> receipt_key \<longrightarrow> mget (pr_metadata r) k = map_option json_value (mget (op_metadata opts) k))"

definition gait_ref :: "eref \<Rightarrow> gov_ref" where
  \<comment> \<open>Gait's reference as the projection reads it back\<close>
  "gait_ref e =
     \<lparr>ref_id = er_id e, ref_kind = er_kind e, ref_digest = er_digest e, ref_source = er_product e,
      ref_source_product = er_product e, ref_schema_id = er_schema_id e, ref_schema_version = er_schema_version e\<rparr>"

lemma eref_entries:
  "json_entries (map (\<lambda>(k, v). (k, json_value v)) (eref_object e)) = eref_object e"
proof -
  have keys: "sort (remdups (map fst (map (\<lambda>(k, v). (k, json_value v)) (eref_object e)))) =
      [''digest'', ''id'', ''kind'', ''schema_id'', ''schema_version'', ''source_product'']"
    by (simp add: eref_object_def)
  show ?thesis unfolding json_entries_def keys by (simp add: eref_object_def)
qed

lemma lower_names:
  "to_lower ''digest'' = ''digest''" "to_lower ''id'' = ''id''" "to_lower ''kind'' = ''kind''"
  "to_lower ''schema_id'' = ''schema_id''" "to_lower ''schema_version'' = ''schema_version''"
  "to_lower ''source_product'' = ''source_product''" "to_lower ''source'' = ''source''"
  "to_lower ''occurred_at'' = ''occurred_at''" "to_lower ''source_digest'' = ''source_digest''"
  "to_lower ''evidence_ref'' = ''evidence_ref''"
  by code_simp+

lemma eref_decoded:
  "decode_ref (map (\<lambda>(k, v). (k, json_value v)) (eref_object e)) = (gait_ref e)\<lparr>ref_source := []\<rparr>"
  "ref_fields_ok (map (\<lambda>(k, v). (k, json_value v)) (eref_object e))"
  unfolding decode_ref_def ref_fields_ok_def ref_names_def text_field_def text_ok_def named_def eref_entries
  by (simp_all add: eref_object_def lower_names gait_ref_def)

lemma with_source_gait: "with_source ((gait_ref e)\<lparr>ref_source := []\<rparr>) = gait_ref e"
  by (simp add: with_source_def gait_ref_def)

lemma those_map_Some: "those (map (\<lambda>x. Some (f x)) xs) = Some (map f xs)"
  by (induction xs) simp_all

lemma refs_from_json:
  "refs_from_value (Some (json_value (VStructs (map eref_object es)))) = map gait_ref es"
  "ref_from_value (Some (json_value (VStruct (eref_object e)))) = gait_ref e"
proof -
  have "those (map ((\<lambda>x. case x of VObj kvs \<Rightarrow> if ref_fields_ok kvs then Some (decode_ref kvs) else None
             | VNil \<Rightarrow> Some zero_ref | _ \<Rightarrow> None) \<circ> (json_value \<circ> (\<lambda>e. VObj (map (\<lambda>(k, v). (k, json_value v)) (eref_object e))))) es) =
      Some (map (\<lambda>e. (gait_ref e)\<lparr>ref_source := []\<rparr>) es)"
  proof -
    have "json_value (VObj (map (\<lambda>(k, v). (k, json_value v)) (eref_object e))) =
        VObj (map (\<lambda>(k, v). (k, json_value v)) (eref_object e))" for e
      using json_value_idem [of "VStruct (eref_object e)"] by simp
    then show ?thesis unfolding comp_def by (simp only: gvalue.case eref_decoded if_True those_map_Some)
  qed
  then show "refs_from_value (Some (json_value (VStructs (map eref_object es)))) = map gait_ref es"
    by (simp add: refs_from_value_def comp_def with_source_gait)
  have "json_value (json_value (VStruct (eref_object e))) = VObj (map (\<lambda>(k, v). (k, json_value v)) (eref_object e))"
    by (simp only: json_value_idem) simp
  then show "ref_from_value (Some (json_value (VStruct (eref_object e)))) = gait_ref e"
    unfolding ref_from_value_def by (simp only: option.map gvalue.case option.case eref_decoded with_source_gait)
qed

section \<open>The transitions of a stored record\<close>

definition typed_ref :: "gait_record \<Rightarrow> gov_ref" where
  "typed_ref g =
     (case typed_fields g of
        None \<Rightarrow> zero_ref
      | Some (i, digest, schema, version) \<Rightarrow>
          if i = [] \<or> digest = [] \<or> schema = [] \<or> version = [] then zero_ref
          else \<lparr>ref_id = i, ref_kind = event_ref_kind (gr_kind g), ref_digest = digest, ref_source = ''gait'',
            ref_source_product = ''gait'', ref_schema_id = schema, ref_schema_version = version\<rparr>)"

definition transition_of :: "gait_record \<Rightarrow> transition" where
  "transition_of g =
     \<lparr>tn_id = gr_id g, tn_kind = gr_kind g, tn_occurred_at = gr_occurred_at g, tn_source_digest = record_digest_of g,
      tn_ref = typed_ref g\<rparr>"

definition ref_object :: "string \<Rightarrow> string \<Rightarrow> string \<Rightarrow> string \<Rightarrow> string \<Rightarrow> gobj" where
  "ref_object i kind digest schema version =
     [(''id'', VStr i), (''kind'', VStr kind), (''digest'', VStr digest), (''source'', VStr ''gait''),
      (''source_product'', VStr ''gait''), (''schema_id'', VStr schema), (''schema_version'', VStr version)]"

lemma ref_object_decoded:
  "decode_ref (ref_object i kind digest schema version) =
     \<lparr>ref_id = i, ref_kind = kind, ref_digest = digest, ref_source = ''gait'', ref_source_product = ''gait'',
      ref_schema_id = schema, ref_schema_version = version\<rparr>"
  "ref_fields_ok (ref_object i kind digest schema version)"
proof -
  let ?o = "ref_object i kind digest schema version"
  have keys: "sort (remdups (map fst ?o)) =
      [''digest'', ''id'', ''kind'', ''schema_id'', ''schema_version'', ''source'', ''source_product'']"
    by (simp add: ref_object_def)
  have entries: "json_entries ?o = [(''digest'', VStr digest), (''id'', VStr i), (''kind'', VStr kind),
      (''schema_id'', VStr schema), (''schema_version'', VStr version), (''source'', VStr ''gait''),
      (''source_product'', VStr ''gait'')]"
    unfolding json_entries_def keys by (simp add: ref_object_def)
  show "decode_ref ?o = \<lparr>ref_id = i, ref_kind = kind, ref_digest = digest, ref_source = ''gait'', ref_source_product = ''gait'',
      ref_schema_id = schema, ref_schema_version = version\<rparr>" "ref_fields_ok ?o"
    unfolding decode_ref_def ref_fields_ok_def ref_names_def text_field_def text_ok_def named_def entries
    by (simp_all add: lower_names)
qed

lemma ref_object_json: "map (\<lambda>(k, v). (k, json_value v)) (ref_object i kind digest schema version) = ref_object i kind digest schema version"
  by (simp add: ref_object_def)

definition entry_object :: "gait_record \<Rightarrow> gvalue list \<Rightarrow> gobj" where
  "entry_object g ref =
     [(''id'', VStr (gr_id g)), (''kind'', VStr (gr_kind g)), (''occurred_at'', VStr (gr_occurred_at g)),
      (''source_digest'', VStr (record_digest_of g))] @ map (Pair ''evidence_ref'') ref"

lemma entry_decoded:
  "decode_transition (entry_object g []) = (transition_of g)\<lparr>tn_ref := zero_ref\<rparr>"
  "transition_ok (entry_object g [])"
  "decode_transition (entry_object g [VObj (ref_object i kind digest schema version)]) =
     (transition_of g)\<lparr>tn_ref := \<lparr>ref_id = i, ref_kind = kind, ref_digest = digest, ref_source = ''gait'',
        ref_source_product = ''gait'', ref_schema_id = schema, ref_schema_version = version\<rparr>\<rparr>"
  "transition_ok (entry_object g [VObj (ref_object i kind digest schema version)])"
proof -
  have keys: "sort (remdups (map fst (entry_object g []))) = [''id'', ''kind'', ''occurred_at'', ''source_digest'']"
    "sort (remdups (map fst (entry_object g [x]))) = [''evidence_ref'', ''id'', ''kind'', ''occurred_at'', ''source_digest'']" for x
    by (simp_all add: entry_object_def)
  have entries: "json_entries (entry_object g []) = [(''id'', VStr (gr_id g)), (''kind'', VStr (gr_kind g)),
      (''occurred_at'', VStr (gr_occurred_at g)), (''source_digest'', VStr (record_digest_of g))]"
    "json_entries (entry_object g [VObj (ref_object i kind digest schema version)]) =
      [(''evidence_ref'', VObj (ref_object i kind digest schema version)), (''id'', VStr (gr_id g)), (''kind'', VStr (gr_kind g)),
      (''occurred_at'', VStr (gr_occurred_at g)), (''source_digest'', VStr (record_digest_of g))]"
    unfolding json_entries_def keys by (simp_all add: entry_object_def ref_object_json)
  show "decode_transition (entry_object g []) = (transition_of g)\<lparr>tn_ref := zero_ref\<rparr>"
    "transition_ok (entry_object g [])"
    "decode_transition (entry_object g [VObj (ref_object i kind digest schema version)]) =
     (transition_of g)\<lparr>tn_ref := \<lparr>ref_id = i, ref_kind = kind, ref_digest = digest, ref_source = ''gait'',
        ref_source_product = ''gait'', ref_schema_id = schema, ref_schema_version = version\<rparr>\<rparr>"
    "transition_ok (entry_object g [VObj (ref_object i kind digest schema version)])"
    unfolding decode_transition_def transition_ok_def text_field_def text_ok_def named_def entries
    by (simp_all add: lower_names transition_of_def evidence_ref_ok_def ref_object_decoded)
qed

lemma event_entry_object:
  "(case event_evidence_ref g of None \<Rightarrow> event_entry g = entry_object g [] \<and> typed_ref g = zero_ref
    | Some o' \<Rightarrow> (\<exists>i kind d s v. o' = ref_object i kind d s v \<and> event_entry g = entry_object g [VObj (ref_object i kind d s v)] \<and>
        typed_ref g = \<lparr>ref_id = i, ref_kind = kind, ref_digest = d, ref_source = ''gait'', ref_source_product = ''gait'',
          ref_schema_id = s, ref_schema_version = v\<rparr>))"
  by (auto simp: event_evidence_ref_def event_entry_def entry_object_def record_digest_of_def typed_ref_def ref_object_def
      split: option.splits)

lemma event_entry_decoded:
  "decode_transition (map (\<lambda>(k, v). (k, json_value v)) (event_entry g)) = transition_of g"
  "transition_ok (map (\<lambda>(k, v). (k, json_value v)) (event_entry g))"
proof -
  have json: "map (\<lambda>(k, v). (k, json_value v)) (entry_object g []) = entry_object g []"
    "map (\<lambda>(k, v). (k, json_value v)) (entry_object g [VObj (ref_object i kind d s v)]) =
      entry_object g [VObj (ref_object i kind d s v)]" for i kind d s v
    by (simp_all add: entry_object_def ref_object_json)
  show "decode_transition (map (\<lambda>(k, v). (k, json_value v)) (event_entry g)) = transition_of g"
    "transition_ok (map (\<lambda>(k, v). (k, json_value v)) (event_entry g))"
    using event_entry_object [of g] by (auto simp: json entry_decoded split: option.splits) (simp_all add: transition_of_def)
qed

lemma decode_event_metadata:
  "decode_transitions (Some (json_value (VObjs (event_metadata p)))) =
     map transition_of (filter (\<lambda>g. gr_id g \<noteq> [] \<and> gr_occurred_at g \<noteq> []) (gp_records p))"
proof -
  let ?gs = "filter (\<lambda>g. gr_id g \<noteq> [] \<and> gr_occurred_at g \<noteq> []) (gp_records p)"
  let ?j = "\<lambda>g. map (\<lambda>(k, v). (k, json_value v)) (event_entry g)"
  have "json_value (json_value (VObjs (event_metadata p))) = VArr (map (\<lambda>g. VObj (?j g)) ?gs)"
    unfolding json_value_idem by (simp add: event_metadata_def)
  then show ?thesis
    unfolding decode_transitions_def
    by (simp only: option.map gvalue.case option.case map_map comp_def event_entry_decoded if_True those_map_Some)
qed

text \<open>
  C27: the events of a pack survive translation, storage and projection: what the projection reads
  back for an axis are the records of the pack of that axis's kinds, in pack order, each with its id,
  time, digest and the reference of its typed evidence.
\<close>

theorem transitions_round_trip:
  assumes "stored_as (lifecycle_opts v p time contract activation refs) r"
  shows "lifecycle_transitions r axis =
    map transition_of (filter (\<lambda>g. gr_kind g \<in> set (axis_kinds axis) \<and> gr_id g \<noteq> [] \<and> gr_occurred_at g \<noteq> []) (gp_records p))"
proof -
  have "mget (pr_event r) ''gait_lifecycle_events'' = Some (json_value (VObjs (event_metadata p)))"
    using assms by (simp add: stored_as_def lifecycle_opts_def lifecycle_event_def map_of_json_object Let_def del: json_value.simps)
  then have "lifecycle_transitions r axis =
      map transition_of (filter (\<lambda>g. gr_kind g \<in> set (axis_kinds axis) \<and> gr_id g \<noteq> [] \<and> gr_occurred_at g \<noteq> [])
        (filter (\<lambda>g. gr_id g \<noteq> [] \<and> gr_occurred_at g \<noteq> []) (gp_records p)))"
    unfolding lifecycle_transitions_def
    by (simp only: decode_event_metadata filter_map comp_def) (simp add: transition_of_def)
  then show ?thesis by (simp add: filter_filter conj_ac)
qed

section \<open>A valid pack promotes its contract\<close>

definition bar_free :: "gait_pack \<Rightarrow> bool" where
  \<comment> \<open>the separator of reference keys occurs in no field before the last\<close>
  "bar_free p \<longleftrightarrow>
     list_all (\<lambda>g. list_all (\<lambda>e. CHR ''|'' \<notin> set (er_kind e @ er_id e @ er_digest e @ er_schema_id e @ er_schema_version e))
       (gr_evidence_refs g)) (gp_records p)"

lemma cut_at_bar:
  assumes "x @ c # y = x' @ c # y'" and "c \<notin> set x" and "c \<notin> set x'"
  shows "x = x' \<and> y = y'"
proof -
  have t: "takeWhile (\<lambda>a. a \<noteq> c) (u @ c # v) = u" if "c \<notin> set u" for u v using that by (induction u) auto
  have "x = x'" using t [OF assms(2), of y] t [OF assms(3), of y'] assms(1) by simp
  then show ?thesis using assms(1) by simp
qed

lemma eref_key_inj:
  assumes "eref_key a = eref_key b"
    and "CHR ''|'' \<notin> set (er_kind a @ er_id a @ er_digest a @ er_schema_id a @ er_schema_version a)"
    and "CHR ''|'' \<notin> set (er_kind b @ er_id b @ er_digest b @ er_schema_id b @ er_schema_version b)"
  shows "a = (b :: eref)"
proof -
  have "er_kind a @ CHR ''|'' # er_id a @ CHR ''|'' # er_digest a @ CHR ''|'' # er_schema_id a @ CHR ''|'' #
      er_schema_version a @ CHR ''|'' # er_product a =
    er_kind b @ CHR ''|'' # er_id b @ CHR ''|'' # er_digest b @ CHR ''|'' # er_schema_id b @ CHR ''|'' #
      er_schema_version b @ CHR ''|'' # er_product b"
    using assms(1) by (simp add: eref_key_def)
  then have "er_kind a = er_kind b" "er_id a = er_id b" "er_digest a = er_digest b" "er_schema_id a = er_schema_id b"
    "er_schema_version a = er_schema_version b" "er_product a = er_product b"
    using assms(2,3) cut_at_bar by (metis Un_iff set_append)+
  then show ?thesis by simp
qed

lemma pack_ref_kept:
  assumes "bar_free p" and "g \<in> set (gp_records p)" and "e \<in> set (gr_evidence_refs g)"
  shows "e \<in> set (lifecycle_refs p)"
proof -
  have sub: "set (lifecycle_refs p) \<subseteq> (\<Union>g \<in> set (gp_records p). set (gr_evidence_refs g))"
    using dedup_refs_set(3) [of "[]" "concat (map gr_evidence_refs (gp_records p))"] by (simp add: lifecycle_refs_def)
  have "eref_key e \<in> set (map eref_key (lifecycle_refs p))"
    using assms(2,3) by (subst lifecycle_refs_facts(1)) blast
  then obtain e' where e': "e' \<in> set (lifecycle_refs p)" "eref_key e' = eref_key e" by auto
  then obtain g' where g': "g' \<in> set (gp_records p)" "e' \<in> set (gr_evidence_refs g')" using sub by blast
  have "CHR ''|'' \<notin> set (er_kind x @ er_id x @ er_digest x @ er_schema_id x @ er_schema_version x)"
    if "h \<in> set (gp_records p)" "x \<in> set (gr_evidence_refs h)" for h x
    using assms(1) that unfolding bar_free_def list_all_iff by blast
  then have "e' = e" using eref_key_inj e'(2) g' assms(2,3) by blast
  with e'(1) show ?thesis by simp
qed

lemma execution_terminal_step:
  "kind_step lib opt r s = Inr s' \<Longrightarrow> ps_terminal s' \<Longrightarrow> \<not> ps_terminal s \<Longrightarrow> gr_execution r \<noteq> None"
  unfolding kind_step_def kind_steps Let_def snapshot_setters
  by (auto split: if_splits option.splits)

lemma clean_run_execution:
  assumes "clean_run lib opt s rs s'" and "\<not> ps_terminal s" and "ps_terminal s'"
  shows "\<exists>r \<in> set rs. gr_execution r \<noteq> None \<and> verify_gait_record lib (vo_key opt) r = None \<and>
    (\<exists>e. typed_eref r = Some e \<and> list_ex (\<lambda>x. same_ref x e) (gr_evidence_refs r))"
  using assms
proof (induction rule: clean_run.induct)
  case (clean_cons s r t s1 rs s2)
  show ?case
  proof (cases "ps_terminal s1")
    case True
    moreover have "\<not> ps_terminal (noted r t s)" using clean_cons.prems by (simp add: noted_def)
    ultimately have "gr_execution r \<noteq> None" using execution_terminal_step [OF clean_cons.hyps(4)] by blast
    moreover from this have "typed_eref r \<noteq> None" by (auto simp: typed_eref_def typed_view_def)
    ultimately show ?thesis
      using clean_cons.hyps(1) by (auto simp: record_clean_def)
  next
    case False
    then show ?thesis using clean_cons.IH clean_cons.prems by auto
  qed
qed simp

lemma digest_ok_trim: "digest_ok d \<Longrightarrow> trim_space d = d"
proof -
  assume "digest_ok d"
  then obtain h where h: "d = ''sha256:'' @ h" "length h = 64" "list_all is_hex h"
    by (auto simp: digest_ok_prefixed bare_digest_ok_def)
  then have ne: "h \<noteq> []" by auto
  then have "is_hex (last h)" using h(3) by (simp add: list_all_iff)
  then show "trim_space d = d" using ne h(1)
    by (intro trim_space_printable) (simp_all add: hex_printable, simp add: printable_def)
qed

lemma ac_digest_ok_lower: "digest_ok d \<Longrightarrow> ac_digest_ok d"
  by (simp add: ac_digest_ok_def digest_ok_trim)

lemma same_ref_eq: "same_ref a b \<longleftrightarrow> a = (b :: eref)"
  by (cases a; cases b) (auto simp: same_ref_def)

lemma valid_gait_ref: "eref_ok e \<Longrightarrow> digest_ok (er_digest e) \<Longrightarrow> valid_ref (gait_ref e)"
  by (simp add: eref_ok_def valid_ref_def gait_ref_def)

lemma ac_strings_copied:
  "mget m k = map_option json_value (Some (copied_strings xs)) \<Longrightarrow> ac_strings m k = xs"
proof -
  have "List.map_filter (\<lambda>v. as_string (Some v)) (map VStr xs) = xs" by (induction xs) (simp_all add: List.map_filter_simps)
  then show "mget m k = map_option json_value (Some (copied_strings xs)) \<Longrightarrow> ac_strings m k = xs"
    by (cases xs) (simp_all add: ac_strings_def copied_strings_def)
qed

lemma valid_pack_scope:
  assumes "vr_valid (verify_lifecycle_pack lib p opt)"
  shows "lifecycle_contract p = Some c \<Longrightarrow> c = vo_contract opt"
    and "lifecycle_activation p = Some a \<Longrightarrow> a = vo_activation opt"
    and "eref_ok (vo_contract opt)" "er_kind (vo_contract opt) = ''action_contract''"
    and "eref_ok (vo_activation opt)" "er_kind (vo_activation opt) = ''activated_action_contract''"
proof -
  from assms obtain s where o: "option_fault lib p opt = None" and ne: "gp_records p \<noteq> []"
    and run: "clean_run lib opt initial_pack (gp_records p) s" by (auto simp: valid_iff_run)
  have "eref_is (vo_contract opt) ''action_contract'' contract_schema ''3''"
    "eref_is (vo_activation opt) ''activated_action_contract'' activation_schema ''1''"
    using o unfolding option_fault_def Let_def by (simp_all split: if_splits)
  then show "eref_ok (vo_contract opt)" "er_kind (vo_contract opt) = ''action_contract''"
    "eref_ok (vo_activation opt)" "er_kind (vo_activation opt) = ''activated_action_contract''"
    by (simp_all add: eref_is_def)
  have scope: "in_scope opt g" if "g \<in> set (gp_records p)" for g
    using clean_run_sound [OF run o] that by (simp add: list_all_iff)
  show "c = vo_contract opt" if "lifecycle_contract p = Some c"
    using that ne scope [of "hd (gp_records p)"]
    by (cases "gp_records p") (auto simp: lifecycle_contract_def in_scope_def same_ref_eq)
  show "a = vo_activation opt" if "lifecycle_activation p = Some a"
  proof -
    have "a \<in> set (List.map_filter gr_activation (gp_records p))"
      using that by (auto simp: lifecycle_activation_def split: list.splits)
    then obtain g where "g \<in> set (gp_records p)" "gr_activation g = Some a" by (auto simp: List.map_filter_def)
    with scope [of g] show ?thesis by (simp add: in_scope_def same_ref_eq)
  qed
qed

lemma valid_pack_execution_ref:
  assumes "vr_valid (verify_lifecycle_pack lib p opt)" and "digest_law lib" and "bar_free p"
  shows "\<exists>e \<in> set (lifecycle_refs p). er_kind e = ''execution'' \<and> usable_ref (gait_ref e)"
proof -
  from assms(1) obtain s where run: "clean_run lib opt initial_pack (gp_records p) s" and acc: "accepting s"
    by (auto simp: valid_iff_run)
  have "\<not> ps_terminal initial_pack" "ps_terminal s" using acc by (simp_all add: initial_pack_def accepting_def)
  then obtain g e x where g: "g \<in> set (gp_records p)" "gr_execution g = Some x" "typed_eref g = Some e"
    "verify_gait_record lib (vo_key opt) g = None" "e \<in> set (gr_evidence_refs g)"
    using clean_run_execution [OF run] by (force simp: same_ref_eq list_ex_iff)
  have e: "e = evidence_eref ''execution'' (te_id x) (te_digest x) execution_schema"
    using g(2,3) by (simp add: typed_eref_def typed_view_def typed_evidence.defs)
  have d: "digest_ok (er_digest e)" using verified_typed_digest [OF verified_typed [OF g(4)] g(3) assms(2)] .
  have "validate_common ''gait-exec-'' (gl_execution_digest lib) x = None"
    using typed_evidence_checked(1) [OF verified_typed [OF g(4)] g(2)] by (simp add: validate_execution_def split: if_splits)
  then have "te_id x \<noteq> []" unfolding validate_common_def Let_def by (auto split: if_splits)
  then have "usable_ref (gait_ref e)"
    using d by (simp add: usable_ref_def gait_ref_def e evidence_eref_def ac_digest_ok_lower execution_schema_def)
  moreover have "er_kind e = ''execution''" by (simp add: e evidence_eref_def)
  ultimately show ?thesis using pack_ref_kept [OF assms(3) g(1,5)] by blast
qed

lemma table_has:
  "r \<in> set rs \<Longrightarrow> to_lower (ref_kind r) = k \<Longrightarrow>
     map_of (fold (\<lambda>r. AList.update (to_lower (ref_kind r)) r) rs t) k \<noteq> None"
proof (induction rs arbitrary: t rule: rev_induct)
  case (snoc x xs)
  then show ?case by auto
qed simp

lemma stored_metadata:
  assumes "stored_as (lifecycle_opts v p time c a refs) r"
  shows "mget (pr_metadata r) ''evidence_kind'' = Some (VStr ''gait_lifecycle'')"
    "mget (pr_metadata r) ''gait_verification_state'' = Some (VStr (es_state (vr_set v)))"
    "mget (pr_metadata r) ''gait_authoritative'' = Some (VBool True)"
    "mget (pr_metadata r) ''gait_fixture_only'' = Some (VBool False)"
    "mget (pr_metadata r) ''gait_source_artifact_digest'' = Some (VStr (gp_source_digest p))"
    "mget (pr_metadata r) ''gait_source_artifact_digests'' =
       map_option json_value (Some (copied_strings (es_source_digests (vr_set v))))"
    "mget (pr_metadata r) ''gait_derived_evidence_digests'' =
       map_option json_value (Some (copied_strings (es_derived_digests (vr_set v))))"
proof -
  have meta: "mget (pr_metadata r) k = map_option json_value (map_of (lifecycle_metadata v p) k)" if "k \<noteq> receipt_key" for k
    using assms that by (simp add: stored_as_def lifecycle_opts_def)
  show "mget (pr_metadata r) ''evidence_kind'' = Some (VStr ''gait_lifecycle'')"
    "mget (pr_metadata r) ''gait_verification_state'' = Some (VStr (es_state (vr_set v)))"
    "mget (pr_metadata r) ''gait_authoritative'' = Some (VBool True)"
    "mget (pr_metadata r) ''gait_fixture_only'' = Some (VBool False)"
    "mget (pr_metadata r) ''gait_source_artifact_digest'' = Some (VStr (gp_source_digest p))"
    "mget (pr_metadata r) ''gait_source_artifact_digests'' =
       map_option json_value (Some (copied_strings (es_source_digests (vr_set v))))"
    "mget (pr_metadata r) ''gait_derived_evidence_digests'' =
       map_option json_value (Some (copied_strings (es_derived_digests (vr_set v))))"
    by (subst meta, simp add: receipt_key_def, simp add: lifecycle_metadata_def Let_def)+
qed

text \<open>
  C25: the whole path from Gait to a packet: the stored aggregate of an authoritative pack passes every guard of the
  projection for the contract it was verified against, and so puts evidence on the axes that contract and activation
  stand for and on the execution axis. The digests have to be lowercase, which the pack verifier does not demand, and
  reference fields may not contain the separator of reference keys.
\<close>

theorem valid_pack_promotes:
  assumes "vr_authoritative (verify_lifecycle_pack lib p opt)" and "digest_law lib" and "bar_free p"
    and "digest_ok (gp_source_digest p)" and "digest_ok (er_digest (vo_contract opt))"
    and "digest_ok (er_digest (vo_activation opt))"
    and "\<And>opts r. new opts = Some r \<Longrightarrow> stored_as opts r" and "ac_digest_ok (pr_record_hash r)"
    and "translate_lifecycle lib new (verify_lifecycle_pack lib p opt) p = Inr r"
  shows "promotes r (gait_ref (vo_contract opt)) \<and>
    {''authority'', ''readiness'', ''correlation'', ''enforcement'', ''execution''}
      \<subseteq> set (map evd_kind (verified_lifecycle_evidence r (gait_ref (vo_contract opt))))"
proof -
  let ?v = "verify_lifecycle_pack lib p opt"
  have valid: "vr_valid ?v" using assms(1) by (simp add: verify_lifecycle_pack_def pack_result_def Let_def)
  note scope = valid_pack_scope [OF valid]
  obtain time where auth: "verified_authority ?v" and refs: "lifecycle_refs p \<noteq> []"
    and stored: "stored_as (lifecycle_opts ?v p time (vo_contract opt) (vo_activation opt) (lifecycle_refs p)) r"
    using assms(9) scope(1,2) assms(7) unfolding translate_lifecycle_Inr by metis
  define ev where "ev = lifecycle_event ?v p (vo_contract opt) (vo_activation opt) (lifecycle_refs p)"
  have event: "pr_event r = Some (json_object (Some ev))" and product: "pr_source_product r = ''gait''"
    using stored by (simp_all add: stored_as_def lifecycle_opts_def ev_def)
  have source: "es_source_digests (vr_set ?v) = [gp_source_digest p]"
    using valid_derived(3) [OF valid assms(2)] digest_ok_nonempty [OF assms(4)] by blast
  have state: "es_state (vr_set ?v) = ''verified''" using auth by (simp add: verified_authority_def)
  note m = stored_metadata [OF stored, unfolded state source]
  have e: "mget (pr_event r) ''evidence_refs'' = Some (json_value (VStructs (map eref_object (lifecycle_refs p))))"
    "mget (pr_event r) ''activation_ref'' = Some (json_value (VStruct (eref_object (vo_activation opt))))"
    "mget (pr_event r) ''contract_ref'' = Some (json_value (VStruct (eref_object (vo_contract opt))))"
    "mget (pr_event r) ''gait_execution'' = Some (VStr (sn_execution (vr_snapshot ?v)))"
    by (simp_all add: event ev_def lifecycle_event_def map_of_json_object Let_def)
  define cr ar where "cr = gait_ref (vo_contract opt)" and "ar = gait_ref (vo_activation opt)"
  have readback: "refs_from_value (mget (pr_event r) ''evidence_refs'') = map gait_ref (lifecycle_refs p)"
    "ref_from_value (mget (pr_event r) ''activation_ref'') = ar" "ref_from_value (mget (pr_event r) ''contract_ref'') = cr"
    unfolding e refs_from_json ar_def cr_def by simp_all
  have valid_refs: "valid_ref cr" "valid_ref ar" "ref_kind cr = ''action_contract''" "ref_kind ar = ''activated_action_contract''"
    using valid_gait_ref scope(3-6) assms(5,6) by (simp_all add: cr_def ar_def) (simp_all add: gait_ref_def)
  obtain x where x: "x \<in> set (lifecycle_refs p)" "er_kind x = ''execution''" "usable_ref (gait_ref x)"
    using valid_pack_execution_ref [OF valid assms(2,3)] by blast
  have lower: "to_lower ''action_contract'' = ''action_contract''"
    "to_lower ''activated_action_contract'' = ''activated_action_contract''" "to_lower ''execution'' = ''execution''"
    "trim_space ''gait_lifecycle'' = ''gait_lifecycle''" "trim_space ''verified'' = ''verified''" by code_simp+
  have derived: "ac_strings (pr_metadata r) ''gait_derived_evidence_digests'' = es_derived_digests (vr_set ?v)"
    "ac_strings (pr_metadata r) ''gait_source_artifact_digests'' = [gp_source_digest p]"
    using ac_strings_copied m(6,7) by blast+
  have verified: "verified_aggregate r"
    by (simp add: verified_aggregate_def map_string_def m(1-4) ac_bool_def as_bool_def lower)
  have promotes: "promotes r cr"
    unfolding promotes_def Let_def readback derived
  proof (intro conjI)
    show "lifecycle_record r" by (simp add: lifecycle_record_def product m(1))
    show "pr_event r \<noteq> None" by (simp add: event)
    show "pr_record_hash r \<noteq> []" using assms(8) by (auto simp: ac_digest_ok_def)
    show "verified_aggregate r" "ac_digest_ok (pr_record_hash r)" by (rule verified, rule assms(8))
    show "ac_digest_ok (map_string (pr_metadata r) ''gait_source_artifact_digest'')"
      using assms(4) by (simp add: map_string_def m(5) digest_ok_trim ac_digest_ok_lower)
    show "ac_digests_ok [gp_source_digest p]" using assms(4) by (simp add: ac_digests_ok_def ac_digest_ok_lower)
    show "ac_digests_ok (es_derived_digests (vr_set ?v))"
      using valid_derived(1,2) [OF valid assms(2)] by (auto simp: ac_digests_ok_def list_all_iff ac_digest_ok_lower)
    show "nonempty_array (mget (pr_event r) ''evidence_refs'')" using refs by (simp add: e(1) nonempty_array_def)
    show "valid_ref ar" "valid_ref cr" "to_lower (ref_kind ar) = ''activated_action_contract''"
      "to_lower (ref_kind cr) = ''action_contract''" using valid_refs lower by simp_all
    show "list_ex usable_ref (map gait_ref (lifecycle_refs p))" using x by (auto simp: list_ex_iff)
    show "same_contract cr cr" by (simp add: same_contract_def)
  qed
  define t where "t = refs_by_kind (map gait_ref (lifecycle_refs p)) ar cr"
  have "map_of t ''action_contract'' \<noteq> None" "map_of t ''activated_action_contract'' \<noteq> None"
    using valid_refs lower by (auto simp: t_def refs_by_kind_def Let_def)
  moreover have "map_of t ''execution'' \<noteq> None"
  proof -
    have "gait_ref x \<in> set (filter usable_ref (map gait_ref (lifecycle_refs p)))" using x by simp
    moreover have "to_lower (ref_kind (gait_ref x)) = ''execution''" using x(2) lower(3) by (simp add: gait_ref_def)
    ultimately have "map_of (fold (\<lambda>r. AList.update (to_lower (ref_kind r)) r)
        (filter usable_ref (map gait_ref (lifecycle_refs p))) []) ''execution'' \<noteq> None" by (rule table_has)
    then show ?thesis by (simp add: t_def refs_by_kind_def Let_def)
  qed
  moreover have "sn_execution (vr_snapshot ?v) \<noteq> []" "trim_space (sn_execution (vr_snapshot ?v)) = sn_execution (vr_snapshot ?v)"
  proof -
    have "sn_execution (vr_snapshot ?v) \<in> {''succeeded'', ''failed'', ''blocked''}"
      using valid_run [OF valid] accepting_snapshot by metis
    moreover have "list_all (\<lambda>x. x \<noteq> [] \<and> trim_space x = x) [''succeeded'', ''failed'', ''blocked'']" by code_simp
    ultimately show "sn_execution (vr_snapshot ?v) \<noteq> []" "trim_space (sn_execution (vr_snapshot ?v)) = sn_execution (vr_snapshot ?v)"
      by auto
  qed
  ultimately have axes: "{''authority'', ''readiness'', ''correlation'', ''enforcement'', ''execution''} \<subseteq> set (evidence_axes r t)"
    by (simp add: evidence_axes_def Let_def map_string_def e(4))
  have each: "k \<in> evd_kind ` set (axis_evidence r cr (map gait_ref (lifecycle_refs p)) t k)" for k
  proof (cases "lifecycle_transitions r k")
    case (Cons tn tns)
    then show ?thesis by (simp add: axis_evidence_def Let_def)
  qed (simp add: axis_evidence_def Let_def)
  have "verified_lifecycle_evidence r cr =
      concat (map (axis_evidence r cr (map gait_ref (lifecycle_refs p)) t) (evidence_axes r t))"
    using promotes unfolding verified_lifecycle_evidence_def Let_def readback t_def [symmetric] by simp
  then have "evd_kind ` set (verified_lifecycle_evidence r cr) =
      (\<Union>k \<in> set (evidence_axes r t). evd_kind ` set (axis_evidence r cr (map gait_ref (lifecycle_refs p)) t k))"
    by (simp add: image_UN)
  then have "set (evidence_axes r t) \<subseteq> evd_kind ` set (verified_lifecycle_evidence r cr)" using each by blast
  then have "{''authority'', ''readiness'', ''correlation'', ''enforcement'', ''execution''}
      \<subseteq> set (map evd_kind (verified_lifecycle_evidence r cr))"
    using subset_trans [OF axes] by simp
  with promotes show ?thesis by (simp add: cr_def)
qed

text \<open>
  Two places where the code does less than it says: an absent axis of a contract is read as an empty one, and a failed
  compensation is never a transition although the tables of states and terminals provide for it.
\<close>

theorem missing_axis_looks_empty: "jget c k = None \<Longrightarrow> axis_objects c k = [] \<and> axis_objects (Some [(k, JArr [])]) k = []"
  by (simp add: axis_objects_def object_array_def json_items_def jget_def List.map_filter_simps)

theorem failed_compensation_not_projected:
  "t \<in> set (lifecycle_transitions r axis) \<Longrightarrow> tn_kind t \<noteq> ''compensation_failed''"
  by (auto simp: lifecycle_transitions_def axis_kinds_def split: if_splits)

section \<open>Samples\<close>

definition stored_copy :: "record_opts \<Rightarrow> proof_record" where
  \<comment> \<open>a Proof library and a store that keep what they are given\<close>
  "stored_copy opts = (aggregate opts)\<lparr>pr_event := Some (json_object (op_event opts)),
     pr_metadata := Some (json_object (op_metadata opts))\<rparr>"

lemma stored_copy_stored: "stored_as opts (stored_copy opts)"
  by (simp add: stored_as_def stored_copy_def aggregate_def map_of_json_object)

lemma sample_stored:
  "\<exists>opts. translate_lifecycle sample_lib (\<lambda>opts. Some (stored_copy opts)) sample_verdict sample_pack = Inr (stored_copy opts)"
  using authoritative_translates [OF sample_verdict_fields(1) [unfolded sample_verdict_def] sample_digest_law
      sample_verdict_fields(2,3), of "\<lambda>opts. Some (stored_copy opts)"] unfolding sample_verdict_def by auto

theorem valid_pack_promotes_witness:
  "\<exists>r. translate_lifecycle sample_lib (\<lambda>opts. Some (stored_copy opts)) sample_verdict sample_pack = Inr r \<and>
     promotes r (gait_ref sample_contract)"
proof -
  obtain opts where t: "translate_lifecycle sample_lib (\<lambda>opts. Some (stored_copy opts)) sample_verdict sample_pack = Inr (stored_copy opts)"
    using sample_stored by blast
  have "bar_free sample_pack" "digest_ok (gp_source_digest sample_pack)" "digest_ok (er_digest (vo_contract sample_options))"
    "digest_ok (er_digest (vo_activation sample_options))" "ac_digest_ok sample_digest" by code_simp+
  moreover have "vo_contract sample_options = sample_contract" by (simp add: sample_options_def)
  moreover have "stored_as o' r" if "Some (stored_copy o') = Some r" for o' r using that stored_copy_stored by auto
  moreover have "pr_record_hash (stored_copy opts) = sample_digest" by (simp add: stored_copy_def aggregate_def)
  ultimately show ?thesis
    using valid_pack_promotes [OF sample_verdict_fields(1) [unfolded sample_verdict_def] sample_digest_law, of "\<lambda>opts. Some (stored_copy opts)" "stored_copy opts"]
      t unfolding sample_verdict_def by auto
qed

definition sample_opts :: record_opts where
  "sample_opts = lifecycle_opts sample_verdict sample_pack 0 sample_contract sample_activation (lifecycle_refs sample_pack)"

theorem transitions_round_trip_witness:
  "map tn_kind (lifecycle_transitions (stored_copy sample_opts) ''execution'') = [''execution_blocked'']"
proof -
  have "map gr_kind (filter (\<lambda>g. gr_kind g \<in> set (axis_kinds ''execution'') \<and> gr_id g \<noteq> [] \<and> gr_occurred_at g \<noteq> [])
      (gp_records sample_pack)) = [''execution_blocked'']" by code_simp
  moreover have "tn_kind (transition_of g) = gr_kind g" for g by (simp add: transition_of_def)
  ultimately show ?thesis
    using transitions_round_trip [OF stored_copy_stored, of sample_verdict sample_pack 0 sample_contract sample_activation
        "lifecycle_refs sample_pack" "''execution''"]
    by (simp add: sample_opts_def comp_def)
qed

theorem aggregate_joins_after_storage_witness: "\<not> record_belongs (aggregate sample_opts) c"
proof -
  have "pr_event (aggregate sample_opts) = op_event sample_opts" "pr_relationship (aggregate sample_opts) = op_relationship sample_opts"
    by (simp_all add: aggregate_def)
  from aggregate_joins_after_storage [OF this [unfolded sample_opts_def]] show ?thesis by (simp add: sample_opts_def)
qed

definition registry_record :: proof_record where
  "registry_record = (demo_record ''g1'')\<lparr>pr_source_product := ''gait'', pr_record_hash := sample_digest,
     pr_metadata := Some [(''evidence_kind'', VStr ''gait_lifecycle''), (''gait_verification_state'', VStr ''verified''),
       (''gait_authoritative'', VBool True), (''gait_fixture_only'', VBool False),
       (''gait_source_artifact_digest'', VStr sample_digest), (''gait_evidence_set_id'', VStr ''e''),
       (''gait_producer_version'', VStr ''1''), (''gait_source_commit'', VStr ''c'')]\<rparr>"

lemma registry_record_signed:
  "\<exists>r. sign_lifecycle_receipt demo_receipt_lib registry_record demo_store_key ''t'' = Inr r \<and> registry_eligible r \<and>
     pr_record_id r = ''g1'' \<and> (\<exists>rc. verify_lifecycle_receipt demo_receipt_lib r ''pub'' = Inr rc)"
proof -
  have "(case sign_lifecycle_receipt demo_receipt_lib registry_record demo_store_key ''t'' of
      Inl _ \<Rightarrow> False | Inr r \<Rightarrow> registry_eligible r \<and> pr_record_id r = ''g1'')" by code_simp
  then obtain r where r: "sign_lifecycle_receipt demo_receipt_lib registry_record demo_store_key ''t'' = Inr r"
    "registry_eligible r" "pr_record_id r = ''g1''" by (auto split: sum.splits)
  have "sk_public demo_store_key = ''pub''" by (simp add: demo_store_key_def)
  then have "\<exists>rc. verify_lifecycle_receipt demo_receipt_lib r ''pub'' = Inr rc"
    using signed_receipt_verifies [OF demo_receipt_laws r(1)] by auto
  with r show ?thesis by blast
qed

theorem registration_recorded_witness:
  "\<exists>r f. register_lifecycle demo_receipt_lib ''pub'' False None r Missing = (f, None) \<and>
     verify_registered demo_receipt_lib ''pub'' f r"
proof -
  obtain r rc where r: "registry_eligible r" "verify_lifecycle_receipt demo_receipt_lib r ''pub'' = Inr rc"
    using registry_record_signed by blast
  have "register_lifecycle demo_receipt_lib ''pub'' False None r Missing =
      (Content (merge_entry (registry_entry_of r rc) []), None)"
    by (simp add: register_lifecycle_def r Let_def)
  with registration_recorded [OF this] show ?thesis by blast
qed

definition sample_action_proposal :: proposal where
  "sample_action_proposal =
     \<lparr>pl_raw = [], pl_data = [], pl_schema_id = ''s'', pl_schema_version = ''1'', pl_artifact_id = ''paca-1'',
      pl_contract_id = ''x'', pl_family = ''family'', pl_revision = 1,
      pl_producer = \<lparr>pm_name = ''wrkr'', pm_artifact_version = ''1'', pm_contract_version = ''3''\<rparr>, pl_scans = [],
      pl_compositions = [], pl_resolution_key = [], pl_creation = [], pl_digest = sample_digest, pl_report_only = True,
      pl_contract = Some [(''target_constraints'', JArr [JObj [(''key'', JText ''environment''), (''value'', JText ''prod'')]])],
      pl_raw_digest = sample_digest\<rparr>"

definition sample_project_lib :: project_lib where
  "sample_project_lib = \<lparr>pj_packet_digest = (\<lambda>_. Some (replicate 64 CHR ''a'')), pj_contracts_digest = (\<lambda>_. Some (replicate 64 CHR ''b'')),
     pj_verify_record = (\<lambda>_ _. True), pj_receipts = demo_receipt_lib\<rparr>"

lemma sample_register:
  "\<exists>reg pks pk. register_and_packets sample_project_lib [sample_action_proposal] [] = Inr (reg, pks) \<and> map_of pks ''x'' = Some pk"
proof -
  have "(case contract_from_proposal sample_action_proposal of Inl _ \<Rightarrow> False
      | Inr c \<Rightarrow> gc_id c = ''x'' \<and> validate_packet (draft_packet c (evidence_for_contract c [])) = None \<and>
          validate_contracts [] [c] = None)" by code_simp
  then obtain c where c: "contract_from_proposal sample_action_proposal = Inr c" "gc_id c = ''x''"
    "validate_packet (draft_packet c (evidence_for_contract c [])) = None" "validate_contracts [] [c] = None"
    by (auto split: sum.splits)
  then show ?thesis
    by (simp add: register_and_packets_def sample_project_lib_def build_packet_def gov_digest_def normalize_register_def
        validate_register_def go_sort_def schema_version_def del: validate_contracts.simps)
qed


theorem proposals_promote_nothing_witness:
  "\<exists>reg pks pk. register_from_proposals sample_project_lib [sample_action_proposal] [registry_record] = Inr (reg, pks) \<and>
     map_of pks ''x'' = Some pk \<and> pk_completeness pk = ''partial''"
proof -
  obtain reg pks pk where r: "register_and_packets sample_project_lib [sample_action_proposal] [] = Inr (reg, pks)" "map_of pks ''x'' = Some pk"
    using sample_register by blast
  then have "register_from_proposals sample_project_lib [sample_action_proposal] [registry_record] = Inr (reg, pks)"
    by (simp add: register_from_proposals_def)
  with proposals_promote_nothing [OF this r(2)] r(2) show ?thesis by blast
qed

end
