(* ===== verification/Control.thy ===== *)
theory Control
  imports Gate
begin

text \<open>
  \<open>core/governance/control.go\<close>: the verification of a control lifecycle, a sequence of signed
  records whose control documents request an action (stop, external revocation, invalidation) and
  report how it ended. A document is the result of decoding its bytes; the digest of a JSON
  object, the decoding of a signature object, key ids and signature checks are the Proof
  library's and the fields of \<open>control_lib\<close>.
\<close>

section \<open>Data\<close>

definition control_signature_invalid :: string where
  "control_signature_invalid = ''CONTROL_SIGNATURE_INVALID''"

record control_outcome =
  co_scenario :: string
  co_statuses :: "string list"
  co_lineage :: bool
  co_quarantine :: bool
  co_authoritative :: bool

record control_lib =
  cl_signature :: "gobj \<Rightarrow> signature option"   \<comment> \<open>the object read back as a Proof signature\<close>
  cl_digest :: "gobj \<Rightarrow> string option"         \<comment> \<open>\<open>json.Marshal\<close> and \<open>DigestJCS\<close>\<close>
  cl_key_id :: "string \<Rightarrow> string"
  cl_verify :: "string \<Rightarrow> signature \<Rightarrow> bool option"

type_synonym controls = "(string \<times> gobj) list"

section \<open>The phases of a control\<close>

definition invalidation :: "string \<Rightarrow> bool" where
  "invalidation cmd \<longleftrightarrow> cmd = ''capability_invalidation'' \<or> cmd = ''descendant_invalidation''"

definition opening_phase :: "string \<Rightarrow> bool" where
  "opening_phase p \<longleftrightarrow> p = ''requested'' \<or> p = ''attempted''"

definition closing_phase :: "string \<Rightarrow> bool" where
  "closing_phase p \<longleftrightarrow> p = ''acknowledged'' \<or> p = ''failed'' \<or> p = ''denied'' \<or> p = ''invalidated''"

definition same_string :: "gvalue option \<Rightarrow> gvalue option \<Rightarrow> bool" where
  "same_string a b \<longleftrightarrow> gate_string a \<noteq> [] \<and> gate_string a = gate_string b"

definition same_evidence_ref :: "gvalue option \<Rightarrow> gobj \<Rightarrow> bool" where
  "same_evidence_ref a prev =
     (case as_obj a of
        None \<Rightarrow> False
      | Some m \<Rightarrow> let i = gate_string (map_of prev ''evidence_id'') in i \<noteq> [] \<and> map_of m ''id'' = Some (VStr i))"

definition scope_subset :: "gvalue option \<Rightarrow> gvalue option \<Rightarrow> bool" where
  \<comment> \<open>only the strings of the two arrays count\<close>
  "scope_subset child par =
     (let items = (\<lambda>v. case as_arr v of None \<Rightarrow> [] | Some xs \<Rightarrow> xs);
          strings = List.map_filter (\<lambda>v. as_string (Some v))
      in set (strings (items child)) \<subseteq> set (strings (items par)))"

definition verify_control_phase :: "gobj \<Rightarrow> controls \<Rightarrow> (string, controls) result" where
  "verify_control_phase c prior =
     (let cmd = gate_string (map_of c ''command'');
          phase = gate_string (map_of c ''phase'');
          own = map_of prior cmd;
          prev = (if invalidation cmd \<and> own = None then map_of prior ''external_revocation'' else own)
      in if cmd = [] \<or> phase = [] then Inl reason_malformed
         else if opening_phase phase then
           (if prev \<noteq> None then Inl gate_parent else Inr (AList.update cmd c prior))
         else (case prev of
             None \<Rightarrow> Inl gate_parent
           | Some p \<Rightarrow>
              if \<not> closing_phase phase then Inl reason_malformed
              else if invalidation cmd then Inr prior
              else if \<not> same_evidence_ref (map_of c ''causal_ref'') p then Inl gate_parent
              else if \<not> same_string (map_of c ''boundary_id'') (map_of p ''boundary_id'') \<or>
                  \<not> same_string (map_of c ''resource_id'') (map_of p ''resource_id'') \<or>
                  \<not> same_string (map_of c ''adapter_identity'') (map_of p ''adapter_identity'') then Inl gate_parent
              else if \<not> scope_subset (map_of c ''affected_scope'') (map_of p ''affected_scope'') then Inl gate_authority
              else if cmd \<noteq> ''external_revocation'' then Inr (AList.delete cmd prior)
              else Inr prior))"

section \<open>Seals\<close>

definition key_checks :: "control_lib \<Rightarrow> string \<Rightarrow> signature \<Rightarrow> bool" where
  \<comment> \<open>the signature names the trusted key and verifies under it\<close>
  "key_checks lib key sg \<longleftrightarrow> sg_key_id sg = cl_key_id lib key \<and> cl_verify lib key sg = Some True"

definition outer_signable :: "gobj \<Rightarrow> gobj" where
  "outer_signable r =
     AList.update ''signature'' (VObj [(''alg'', VStr []), (''key_id'', VStr []), (''sig'', VStr [])])
       (AList.update ''record_id'' (VStr []) r)"

definition outer_sealed :: "control_lib \<Rightarrow> string \<Rightarrow> string \<Rightarrow> signature \<Rightarrow> gobj \<Rightarrow> bool" where
  \<comment> \<open>the end of \<open>verifyOuterRecord\<close>\<close>
  "outer_sealed lib key i sg r =
     (case cl_digest lib (outer_signable r) of
        None \<Rightarrow> False
      | Some raw \<Rightarrow> let d = trim_prefix raw ''sha256:'' in
          sg_signed_digest sg = d \<and> i = ''gait-lr-'' @ take 16 d \<and> key_checks lib key sg)"

definition verify_outer :: "control_lib \<Rightarrow> string \<Rightarrow> gobj \<Rightarrow> string option" where
  "verify_outer lib key r =
     (let i = gate_string (map_of r ''record_id'') in
      case as_obj (map_of r ''signature'') of
        None \<Rightarrow> Some control_signature_invalid
      | Some s \<Rightarrow>
          if i = [] then Some control_signature_invalid
          else (case cl_signature lib s of
              None \<Rightarrow> Some control_signature_invalid
            | Some sg \<Rightarrow>
                if length (sg_signed_digest sg) \<noteq> 64 \<or> \<not> outer_sealed lib key i sg r
                then Some control_signature_invalid else None))"

definition control_schema :: string where
  "control_schema = ''https://gait.dev/schemas/v1/action-contract/control-event-evidence.schema.json''"

definition control_ref_ok :: "gvalue option \<Rightarrow> bool" where
  "control_ref_ok v =
     (case as_obj v of
        None \<Rightarrow> False
      | Some m \<Rightarrow> gate_string (map_of m ''id'') \<noteq> [] \<and> digest_ok (gate_string (map_of m ''digest'')) \<and>
          gate_string (map_of m ''schema_id'') \<noteq> [] \<and> gate_string (map_of m ''schema_version'') \<noteq> [] \<and>
          gate_string (map_of m ''source_product'') \<noteq> [])"

definition nested_well_formed :: "gobj \<Rightarrow> bool" where
  "nested_well_formed c \<longleftrightarrow>
     gate_string (map_of c ''schema_id'') = control_schema \<and> gate_string (map_of c ''evidence_id'') \<noteq> [] \<and>
     digest_ok (gate_string (map_of c ''canonical_content_digest'')) \<and>
     list_all (\<lambda>k. control_ref_ok (map_of c k)) [''event_ref'', ''causal_ref'', ''control_ref'']"

definition nested_signable :: "gobj \<Rightarrow> gobj \<Rightarrow> gobj" where
  \<comment> \<open>without id, digest and, in its provenance, signature\<close>
  "nested_signable c prov =
     AList.update ''provenance'' (VObj (AList.delete ''signature'' prov))
       (AList.delete ''canonical_content_digest'' (AList.delete ''evidence_id'' (json_object (Some c))))"

definition nested_sealed :: "control_lib \<Rightarrow> string \<Rightarrow> gobj \<Rightarrow> gobj \<Rightarrow> signature \<Rightarrow> bool" where
  "nested_sealed lib key c prov sg =
     (case cl_digest lib (nested_signable c prov) of
        None \<Rightarrow> False
      | Some raw \<Rightarrow> let d = trim_prefix raw ''sha256:'' in
          gate_string (map_of c ''canonical_content_digest'') = ''sha256:'' @ d \<and>
          gate_string (map_of c ''evidence_id'') = ''gait-control-'' @ take 16 d \<and> sg_signed_digest sg = d \<and>
          base64_decode (gate_string (map_of prov ''public_key'')) = Some key \<and> key_checks lib key sg)"

definition verify_nested :: "control_lib \<Rightarrow> string \<Rightarrow> gobj \<Rightarrow> string option" where
  "verify_nested lib key c =
     (if \<not> nested_well_formed c then Some reason_malformed
      else case as_obj (map_of (json_object (Some c)) ''provenance'') of
        None \<Rightarrow> Some control_signature_invalid
      | Some prov \<Rightarrow>
         (case as_obj (map_of prov ''signature'') of
            None \<Rightarrow> Some control_signature_invalid
          | Some s \<Rightarrow>
             (case cl_signature lib s of
                None \<Rightarrow> Some control_signature_invalid
              | Some sg \<Rightarrow> if nested_sealed lib key c prov sg then None else Some control_signature_invalid)))"

section \<open>The lifecycle\<close>

definition control_of :: "gmap \<Rightarrow> gobj option" where
  "control_of r = as_obj (mget r ''control'')"

definition control_time :: "gmap \<Rightarrow> instant" where
  "control_time r = parse_or_zero (gate_string (mget r ''occurred_at''))"

definition control_id :: "gmap \<Rightarrow> string" where
  "control_id r = gate_string (mget r ''record_id'')"

definition record_object :: "gmap \<Rightarrow> gobj" where
  "record_object r = (case r of None \<Rightarrow> [] | Some kvs \<Rightarrow> kvs)"

definition add_status :: "gmap \<Rightarrow> control_outcome \<Rightarrow> control_outcome" where
  "add_status r out =
     (case as_string (mget r ''kind'') of None \<Rightarrow> out | Some k \<Rightarrow> out\<lparr>co_statuses := co_statuses out @ [k]\<rparr>)"

fun control_loop ::
  "control_lib \<Rightarrow> string \<Rightarrow> string list \<Rightarrow> instant \<Rightarrow> controls \<Rightarrow> control_outcome \<Rightarrow> gmap list \<Rightarrow>
   control_outcome \<times> string option" where
  "control_loop lib key seen latest prior out [] =
     (out\<lparr>co_statuses := sort (co_statuses out), co_lineage := True\<rparr>, None)"
| "control_loop lib key seen latest prior out (r # rs) =
     (if control_id r = [] \<or> control_id r \<in> set seen then (out, Some reason_tampered)
      else if is_zero_time (control_time r) \<or> (\<not> is_zero_time latest \<and> control_time r < latest)
      then (out, Some reason_malformed)
      else case verify_outer lib key (record_object r) of
        Some e \<Rightarrow> (out, Some e)
      | None \<Rightarrow>
         (case control_of r of
            None \<Rightarrow> control_loop lib key (control_id r # seen) (control_time r) prior out rs
          | Some c \<Rightarrow>
             (case verify_nested lib key c of
                Some e \<Rightarrow> (out, Some (''nested:'' @ e))
              | None \<Rightarrow>
                 (case verify_control_phase c prior of
                    Inl e \<Rightarrow> (out, Some e)
                  | Inr prior' \<Rightarrow>
                      control_loop lib key (control_id r # seen) (control_time r) prior' (add_status r out) rs))))"

definition empty_control_outcome :: control_outcome where
  "empty_control_outcome = \<lparr>co_scenario = [], co_statuses = [], co_lineage = False, co_quarantine = False,
     co_authoritative = False\<rparr>"

definition verify_control_lifecycle ::
  "control_lib \<Rightarrow> string \<Rightarrow> gmap list option \<Rightarrow> control_outcome \<times> string option" where
  "verify_control_lifecycle lib key doc =
     (case doc of
        None \<Rightarrow> (empty_control_outcome, Some reason_malformed)
      | Some [] \<Rightarrow> (empty_control_outcome, Some reason_malformed)
      | Some rs \<Rightarrow> control_loop lib key [] 0 [] (empty_control_outcome\<lparr>co_quarantine := True\<rparr>) rs)"

section \<open>Every report answers a request\<close>

definition command_of :: "gobj \<Rightarrow> string" where
  "command_of c = gate_string (map_of c ''command'')"

definition opens :: "gobj \<Rightarrow> bool" where
  "opens c \<longleftrightarrow> opening_phase (gate_string (map_of c ''phase''))"

definition answers :: "gobj \<Rightarrow> gobj \<Rightarrow> bool" where
  \<comment> \<open>\<open>c\<close> reports on what \<open>p\<close> asked for\<close>
  "answers c p \<longleftrightarrow>
     (if invalidation (command_of c) then command_of p = command_of c \<or> command_of p = ''external_revocation''
      else command_of p = command_of c \<and> same_evidence_ref (map_of c ''causal_ref'') p \<and>
        same_string (map_of c ''boundary_id'') (map_of p ''boundary_id'') \<and>
        same_string (map_of c ''resource_id'') (map_of p ''resource_id'') \<and>
        same_string (map_of c ''adapter_identity'') (map_of p ''adapter_identity'') \<and>
        scope_subset (map_of c ''affected_scope'') (map_of p ''affected_scope''))"

fun answered :: "gobj list \<Rightarrow> gobj list \<Rightarrow> bool" where
  "answered earlier [] = True"
| "answered earlier (c # cs) \<longleftrightarrow>
     (opens c \<or> list_ex (\<lambda>p. opens p \<and> answers c p) earlier) \<and> answered (c # earlier) cs"

definition open_requests :: "gobj list \<Rightarrow> controls \<Rightarrow> bool" where
  \<comment> \<open>what the verifier remembers are requests it has seen, under their commands\<close>
  "open_requests earlier prior \<longleftrightarrow>
     (\<forall>k p. map_of prior k = Some p \<longrightarrow> p \<in> set earlier \<and> opens p \<and> command_of p = k)"

lemma open_requests_update:
  "open_requests earlier prior \<Longrightarrow> opens c \<Longrightarrow> open_requests (c # earlier) (AList.update (command_of c) c prior)"
  by (auto simp: open_requests_def)

lemma open_requests_more: "open_requests earlier prior \<Longrightarrow> open_requests (c # earlier) prior"
  by (auto simp: open_requests_def)

lemma open_requests_delete: "open_requests earlier prior \<Longrightarrow> open_requests earlier (AList.delete k prior)"
  by (auto simp: open_requests_def)

lemma phase_opens:
  assumes "verify_control_phase c prior = Inr prior'" and "opens c"
  shows "prior' = AList.update (command_of c) c prior"
  using assms by (auto simp: verify_control_phase_def opens_def command_of_def Let_def split: if_splits)

lemma phase_closes:
  assumes "verify_control_phase c prior = Inr prior'" and "\<not> opens c"
  obtains p where "map_of prior (command_of c) = Some p \<or>
      (invalidation (command_of c) \<and> map_of prior ''external_revocation'' = Some p)"
    and "invalidation (command_of c) \<or> (map_of prior (command_of c) = Some p \<and>
      same_evidence_ref (map_of c ''causal_ref'') p \<and>
      same_string (map_of c ''boundary_id'') (map_of p ''boundary_id'') \<and>
      same_string (map_of c ''resource_id'') (map_of p ''resource_id'') \<and>
      same_string (map_of c ''adapter_identity'') (map_of p ''adapter_identity'') \<and>
      scope_subset (map_of c ''affected_scope'') (map_of p ''affected_scope''))"
    and "prior' = prior \<or> prior' = AList.delete (command_of c) prior"
  using assms unfolding verify_control_phase_def opens_def [symmetric] command_of_def [symmetric] Let_def
  by (auto split: if_splits option.splits)

lemma phase_step:
  assumes "verify_control_phase c prior = Inr prior'" and "open_requests earlier prior"
  shows "(opens c \<or> list_ex (\<lambda>p. opens p \<and> answers c p) earlier) \<and> open_requests (c # earlier) prior'"
proof (cases "opens c")
  case True
  with assms show ?thesis using phase_opens open_requests_update by blast
next
  case False
  from assms(1) False obtain p where p: "map_of prior (command_of c) = Some p \<or>
      (invalidation (command_of c) \<and> map_of prior ''external_revocation'' = Some p)"
    and a: "invalidation (command_of c) \<or> (map_of prior (command_of c) = Some p \<and>
      same_evidence_ref (map_of c ''causal_ref'') p \<and>
      same_string (map_of c ''boundary_id'') (map_of p ''boundary_id'') \<and>
      same_string (map_of c ''resource_id'') (map_of p ''resource_id'') \<and>
      same_string (map_of c ''adapter_identity'') (map_of p ''adapter_identity'') \<and>
      scope_subset (map_of c ''affected_scope'') (map_of p ''affected_scope''))"
    and q: "prior' = prior \<or> prior' = AList.delete (command_of c) prior"
    by (rule phase_closes)
  have "p \<in> set earlier" and "opens p" and "command_of p = command_of c \<or>
      (invalidation (command_of c) \<and> command_of p = ''external_revocation'')"
    using p assms(2) unfolding open_requests_def by blast+
  moreover from this a have "answers c p"
    using assms(2) unfolding answers_def open_requests_def by auto
  ultimately have "list_ex (\<lambda>p. opens p \<and> answers c p) earlier"
    unfolding list_ex_iff by blast
  moreover have "open_requests (c # earlier) prior'"
    using q assms(2) open_requests_more open_requests_delete by blast
  ultimately show ?thesis by blast
qed

definition statuses_of :: "gmap list \<Rightarrow> string list" where
  \<comment> \<open>the kinds of the records that carry a control\<close>
  "statuses_of rs = List.map_filter (\<lambda>r. as_string (mget r ''kind'')) (filter (\<lambda>r. control_of r \<noteq> None) rs)"

definition controls_of :: "gmap list \<Rightarrow> gobj list" where
  "controls_of rs = List.map_filter control_of rs"

lemma control_loop_sound:
  assumes "control_loop lib key seen latest prior out rs = (out', None)"
    and "open_requests earlier prior" and "distinct seen"
  shows "distinct (rev (map control_id rs) @ seen) \<and>
    (is_zero_time latest \<or> sorted (latest # map control_time rs)) \<and> sorted (map control_time rs) \<and>
    list_all (\<lambda>r. verify_outer lib key (record_object r) = None) rs \<and>
    list_all (\<lambda>c. verify_nested lib key c = None) (controls_of rs) \<and>
    answered earlier (controls_of rs) \<and>
    out' = out\<lparr>co_statuses := sort (co_statuses out @ statuses_of rs), co_lineage := True\<rparr>"
  using assms
proof (induction lib key seen latest prior out rs arbitrary: earlier rule: control_loop.induct)
  case (1 lib key seen latest prior out)
  then show ?case by (auto simp: controls_of_def statuses_of_def map_filter_simps)
next
  case (2 lib key seen latest prior out r rs)
  have fresh: "control_id r \<notin> set seen"
    and time: "\<not> is_zero_time (control_time r)" "is_zero_time latest \<or> latest \<le> control_time r"
    and outer: "verify_outer lib key (record_object r) = None"
    using "2.prems"(1) by (auto split: if_splits option.splits)
  note guards = fresh time outer
  have g: "\<not> (control_id r = [] \<or> control_id r \<in> set seen)"
    "\<not> (is_zero_time (control_time r) \<or> \<not> is_zero_time latest \<and> control_time r < latest)"
    using "2.prems"(1) by (auto split: if_splits)
  show ?case
  proof (cases "control_of r")
    case None
    then have "control_loop lib key (control_id r # seen) (control_time r) prior out rs = (out', None)"
      using "2.prems"(1) outer by (simp split: if_splits)
    from "2.IH"(1) [OF g outer None this "2.prems"(2)] fresh "2.prems"(3) time outer None
    show ?thesis by (auto simp: controls_of_def statuses_of_def map_filter_simps)
  next
    case (Some c)
    then have nested: "verify_nested lib key c = None"
      using "2.prems"(1) outer by (auto split: if_splits option.splits)
    obtain prior' where phase: "verify_control_phase c prior = Inr prior'"
      using "2.prems"(1) outer Some nested by (auto split: if_splits sum.splits)
    have loop: "control_loop lib key (control_id r # seen) (control_time r) prior' (add_status r out) rs = (out', None)"
      using "2.prems"(1) outer Some nested phase by (simp split: if_splits)
    have step: "(opens c \<or> list_ex (\<lambda>p. opens p \<and> answers c p) earlier) \<and> open_requests (c # earlier) prior'"
      using phase_step [OF phase "2.prems"(2)] .
    have "distinct (control_id r # seen)" using fresh "2.prems"(3) by simp
    from "2.IH"(2) [OF g outer Some nested phase loop conjunct2 [OF step] this] step fresh time outer nested Some
    show ?thesis
      by (auto simp: controls_of_def statuses_of_def map_filter_simps add_status_def split: option.splits)
  qed
qed

lemma control_lifecycle_accepts:
  assumes "verify_control_lifecycle lib key (Some rs) = (out, None)"
  shows "distinct (map control_id rs) \<and> sorted (map control_time rs) \<and>
    list_all (\<lambda>r. verify_outer lib key (record_object r) = None) rs \<and>
    list_all (\<lambda>c. verify_nested lib key c = None) (controls_of rs) \<and> answered [] (controls_of rs) \<and>
    out = empty_control_outcome\<lparr>co_statuses := sort (statuses_of rs), co_lineage := True, co_quarantine := True\<rparr>"
proof -
  have "control_loop lib key [] 0 [] (empty_control_outcome\<lparr>co_quarantine := True\<rparr>) rs = (out, None)"
    using assms by (auto simp: verify_control_lifecycle_def split: list.splits)
  from control_loop_sound [OF this, of "[]"] show ?thesis
    by (simp add: open_requests_def empty_control_outcome_def)
qed


section \<open>A revocation and its acknowledgement\<close>

definition control_digest :: "char \<Rightarrow> string" where
  "control_digest c = c # replicate 63 CHR ''0''"

definition demo_control_lib :: control_lib where
  \<comment> \<open>a digest that depends on the phase of a control and on the time of a record\<close>
  "demo_control_lib =
     \<lparr>cl_signature = (\<lambda>s. Some \<lparr>sg_alg = ''ed25519'', sg_key_id = ''kid'',
          sg_signed_digest = gate_string (map_of s ''signed_digest''), sg_value = ''sig''\<rparr>),
      cl_digest = (\<lambda>v. Some (control_digest (case map_of v ''phase'' of
          Some (VStr p) \<Rightarrow> hd p | _ \<Rightarrow> last (butlast (gate_string (map_of v ''occurred_at'')))))),
      cl_key_id = (\<lambda>_. ''kid''), cl_verify = (\<lambda>_ _. Some True)\<rparr>"

definition demo_seal :: "char \<Rightarrow> gvalue" where
  "demo_seal c = VObj [(''signed_digest'', VStr (control_digest c))]"

definition demo_control_ref :: "string \<Rightarrow> gvalue" where
  "demo_control_ref i = VObj [(''id'', VStr i), (''digest'', VStr (''sha256:'' @ control_digest CHR ''a'')),
     (''schema_id'', VStr ''s''), (''schema_version'', VStr ''1''), (''source_product'', VStr ''gait'')]"

definition demo_command :: "string \<Rightarrow> string \<Rightarrow> string \<Rightarrow> string \<Rightarrow> gobj" where
  "demo_command cmd phase cause boundary =
     [(''schema_id'', VStr control_schema), (''command'', VStr cmd), (''phase'', VStr phase),
      (''evidence_id'', VStr (''gait-control-'' @ take 16 (control_digest (hd phase)))),
      (''canonical_content_digest'', VStr (''sha256:'' @ control_digest (hd phase))),
      (''event_ref'', demo_control_ref ''e''), (''causal_ref'', demo_control_ref cause),
      (''control_ref'', demo_control_ref ''c''),
      (''boundary_id'', VStr boundary), (''resource_id'', VStr ''r''), (''adapter_identity'', VStr ''ad''),
      (''affected_scope'', VArr [VStr ''x'']),
      (''provenance'', VObj [(''public_key'', VStr []), (''signature'', demo_seal (hd phase))])]"

definition demo_control_record :: "char \<Rightarrow> string \<Rightarrow> gobj option \<Rightarrow> gmap" where
  "demo_control_record second kind c =
     Some ([(''record_id'', VStr (''gait-lr-'' @ take 16 (control_digest second))), (''kind'', VStr kind),
        (''occurred_at'', VStr (''2026-01-01T00:00:0'' @ [second] @ ''Z'')), (''signature'', demo_seal second)] @
        (case c of None \<Rightarrow> [] | Some x \<Rightarrow> [(''control'', VObj x)]))"

definition demo_controls :: "gmap list" where
  "demo_controls =
     [demo_control_record CHR ''1'' ''created'' None,
      demo_control_record CHR ''2'' ''revocation_requested''
        (Some (demo_command ''external_revocation'' ''attempted'' ''root'' ''b'')),
      demo_control_record CHR ''3'' ''revocation_denied''
        (Some (demo_command ''external_revocation'' ''denied''
          (''gait-control-'' @ take 16 (control_digest CHR ''a'')) ''b''))]"

lemma demo_controls_accepted:
  "verify_control_lifecycle demo_control_lib [] (Some demo_controls) =
     (empty_control_outcome\<lparr>co_statuses := [''revocation_denied'', ''revocation_requested''],
        co_lineage := True, co_quarantine := True\<rparr>, None)"
  by code_simp


text \<open>
  The lineage verdict is given to a lifecycle without a single control, and an invalidation is
  accepted as the answer to an external revocation of another boundary.
\<close>
lemma lineage_without_control:
  "verify_control_lifecycle demo_control_lib [] (Some [demo_control_record CHR ''1'' ''created'' None]) =
     (empty_control_outcome\<lparr>co_lineage := True, co_quarantine := True\<rparr>, None)"
  by code_simp

lemma foreign_invalidation_accepted:
  "snd (verify_control_lifecycle demo_control_lib []
     (Some [demo_control_record CHR ''2'' ''revocation_requested''
          (Some (demo_command ''external_revocation'' ''attempted'' ''root'' ''b'')),
        demo_control_record CHR ''3'' ''capability_invalidated''
          (Some (demo_command ''capability_invalidation'' ''denied'' ''unrelated'' ''another boundary''))])) = None"
  by code_simp

end
