(* ===== verification/Masking.thy ===== *)
theory Masking
  imports Packet Telemetry Build
begin

text \<open>
  \<open>core/governance/redaction.go\<close> and \<open>core/governance/proof.go\<close>: the customer-safe projection of
  telemetry spans, registers and packets, and the proof records projections are stored as. A
  register is written as JSON, the JSON is masked, and the result is read back over the original;
  the error of reading back is ignored in the code. \<open>dg\<close> is the canonical digest of a JSON value
  (\<open>Digest\<close>).
\<close>

section \<open>Keys\<close>

definition squeeze :: "string \<Rightarrow> string" where
  \<comment> \<open>\<open>NewReplacer(".", "", "-", "", "_", "", "/", "")\<close> over the lowercased trimmed key\<close>
  "squeeze key = filter (\<lambda>c. c \<notin> {CHR ''.'', CHR ''-'', CHR ''_'', CHR ''/''}) (to_lower (trim_space key))"

definition has_marker :: "string list \<Rightarrow> string \<Rightarrow> bool" where
  "has_marker markers key \<longleftrightarrow> list_ex (contains (squeeze key)) markers"

definition telemetry_sensitive_key :: "string \<Rightarrow> bool" where
  "telemetry_sensitive_key = has_marker [''authorization'', ''authheader'', ''apikey'', ''token'', ''secret'',
     ''password'', ''prompt'', ''input'', ''output'', ''dbstatement'', ''databasestatement'', ''sql'', ''query'']"

definition sensitive_projection_key :: "string \<Rightarrow> bool" where
  "sensitive_projection_key = has_marker [''apikey'', ''token'', ''secret'', ''password'', ''prompt'', ''input'',
     ''output'', ''dbstatement'', ''databasestatement'', ''sql'']"

definition governed_axis_key :: "string \<Rightarrow> bool" where
  "governed_axis_key = has_marker [''authorization'', ''authority'', ''precondition'', ''confirmation'',
     ''approval'', ''credential'', ''delegation'', ''effect'', ''compensation'', ''outcome'', ''judge'']"

definition sensitive_axis_value_key :: "string \<Rightarrow> bool" where
  "sensitive_axis_value_key = has_marker [''value'', ''content'', ''constraint'', ''detail'', ''explanation'',
     ''sourceuri'', ''token'', ''secret'', ''payload'', ''statement'']"

section \<open>Spans\<close>

definition redact_telemetry_span :: "trace_span \<Rightarrow> trace_span" where
  "redact_telemetry_span s =
     s\<lparr>ts_attributes := map (\<lambda>(k, v). (k, if telemetry_sensitive_key k then ''[REDACTED]'' else v)) (ts_attributes s)\<rparr>"

section \<open>JSON values\<close>

definition masked_key :: "string \<Rightarrow> string \<Rightarrow> bool" where
  \<comment> \<open>a child \<open>k\<close> of an object found under \<open>key\<close>\<close>
  "masked_key key k \<longleftrightarrow> sensitive_projection_key k \<or> (governed_axis_key key \<and> sensitive_axis_value_key k)"

definition stable_redacted_digest :: "(gvalue \<Rightarrow> string option) \<Rightarrow> gvalue \<Rightarrow> string" where
  "stable_redacted_digest dg v = (case dg v of None \<Rightarrow> ''[REDACTED]'' | Some d \<Rightarrow> d)"

fun redact_json_value :: "(gvalue \<Rightarrow> string option) \<Rightarrow> string \<Rightarrow> gvalue \<Rightarrow> gvalue" where
  "redact_json_value dg key (VObj kvs) =
     (if sensitive_projection_key key then VObj kvs
      else VObj (map (\<lambda>(k, v). (k, if masked_key key k then VStr (stable_redacted_digest dg v)
                                   else redact_json_value dg k v)) kvs))"
| "redact_json_value dg key (VArr xs) =
     (if sensitive_projection_key key then VArr xs else VArr (map (redact_json_value dg key) xs))"
| "redact_json_value dg key v = v"

definition redact_json :: "(gvalue \<Rightarrow> string option) \<Rightarrow> gvalue \<Rightarrow> gvalue" where
  "redact_json dg v = redact_json_value dg [] (json_value v)"

section \<open>Registers and packets as JSON\<close>

definition unless_empty :: "string \<Rightarrow> bool \<Rightarrow> gvalue \<Rightarrow> gobj" where
  \<comment> \<open>an \<open>omitempty\<close> field\<close>
  "unless_empty k none v = (if none then [] else [(k, v)])"

definition ref_json :: "gov_ref \<Rightarrow> gobj" where
  "ref_json r = [(''id'', VStr (ref_id r)), (''kind'', VStr (ref_kind r)), (''digest'', VStr (ref_digest r)),
     (''source'', VStr (ref_source r)), (''source_product'', VStr (ref_source_product r)),
     (''schema_id'', VStr (ref_schema_id r)), (''schema_version'', VStr (ref_schema_version r))]"

definition axis_json :: "string \<Rightarrow> gobj list \<Rightarrow> gobj" where
  "axis_json k os = unless_empty k (os = []) (VObjs os)"

definition contract_json :: "contract \<Rightarrow> gobj" where
  "contract_json c =
     [(''id'', VStr (gc_id c)), (''family_id'', VStr (gc_family_id c)), (''revision'', VInt (gc_revision c)),
      (''action'', VStr (gc_action c)), (''target'', VStr (gc_target c)),
      (''environment'', VStr (gc_environment c)), (''policy_digest'', VStr (gc_policy_digest c)),
      (''owner'', VStr (gc_owner c))] @
     unless_empty ''authority_refs'' (gc_authority_refs c = []) (VStructs (map ref_json (gc_authority_refs c))) @
     axis_json ''authorization'' (gc_authorization c) @ axis_json ''preconditions'' (gc_preconditions c) @
     axis_json ''confirmation'' (gc_confirmation c) @ axis_json ''approval'' (gc_approval c) @
     axis_json ''credential'' (gc_credential c) @ axis_json ''effect'' (gc_effect c) @
     axis_json ''compensation'' (gc_compensation c) @ axis_json ''outcome'' (gc_outcome c) @
     [(''provenance'', VStruct (ref_json (gc_provenance c))), (''causal_ref'', VStruct (ref_json (gc_causal_ref c)))]"

definition signature_json :: "signature option \<Rightarrow> gobj" where
  "signature_json s =
     (case s of
        None \<Rightarrow> []
      | Some x \<Rightarrow> [(''signature'', VStruct [(''alg'', VStr (sg_alg x)), (''key_id'', VStr (sg_key_id x)),
          (''sig'', VStr (sg_value x)), (''signed_digest'', VStr (sg_signed_digest x))])])"

definition register_json :: "register \<Rightarrow> gvalue" where
  "register_json r = VStruct
     ([(''schema_id'', VStr (rg_schema_id r)), (''schema_version'', VStr (rg_schema_version r)),
       (''contracts'', VStructs (map contract_json (rg_contracts r)))] @
      unless_empty ''source_digest'' (rg_source_digest r = []) (VStr (rg_source_digest r)) @
      unless_empty ''digest'' (rg_digest r = []) (VStr (rg_digest r)) @ signature_json (rg_signature r))"

definition string_map_json :: "(string \<times> string) list \<Rightarrow> gobj" where
  "string_map_json m = map (\<lambda>(k, v). (k, VStr v)) m"

definition evidence_json :: "evidence \<Rightarrow> gobj" where
  "evidence_json e =
     (let attrs = (case evd_attributes e of None \<Rightarrow> [] | Some m \<Rightarrow> m) in
      [(''kind'', VStr (evd_kind e)), (''ref'', VStruct (ref_json (evd_ref e))),
       (''occurred_at'', VStr (evd_occurred_at e)), (''contract_ref'', VStruct (ref_json (evd_contract_ref e)))] @
      unless_empty ''attributes'' (attrs = []) (VObj (string_map_json attrs)) @
      [(''provenance'', VStruct (ref_json (evd_provenance e)))])"

definition packet_json :: "packet \<Rightarrow> gvalue" where
  "packet_json p = VStruct
     ([(''schema_id'', VStr (pk_schema_id p)), (''schema_version'', VStr (pk_schema_version p)),
       (''packet_id'', VStr (pk_packet_id p)), (''contract'', VStruct (contract_json (pk_contract p))),
       (''evidence'', VStructs (map evidence_json (pk_evidence p))),
       (''completeness'', VStr (pk_completeness p))] @
      unless_empty ''reason_codes'' (pk_reason_codes p = []) (VStrs (pk_reason_codes p)) @
      [(''source_digests'', VStrs (pk_source_digests p))] @
      unless_empty ''digest'' (pk_digest p = []) (VStr (pk_digest p)) @ signature_json (pk_signature p) @
      unless_empty ''axis_states'' (pk_axis_states p = []) (VObj (string_map_json (pk_axis_states p))))"

section \<open>Reading back over the original\<close>

text \<open>
  \<open>json.Unmarshal\<close> into a value that is already filled: a member that is absent, null or of the
  wrong type leaves the field as it is, objects are merged into the maps they find, elements into
  the elements of the slice.
\<close>

definition read_string :: "gobj \<Rightarrow> string \<Rightarrow> string \<Rightarrow> string" where
  "read_string j k old = (case map_of j k of Some (VStr s) \<Rightarrow> s | _ \<Rightarrow> old)"

definition read_int :: "gobj \<Rightarrow> string \<Rightarrow> int \<Rightarrow> int" where
  "read_int j k old = (case map_of j k of Some (VNum q) \<Rightarrow> if q = of_int \<lfloor>q\<rfloor> then \<lfloor>q\<rfloor> else old | _ \<Rightarrow> old)"

definition merge_map :: "('k \<times> 'v) list \<Rightarrow> ('k \<times> 'v) list \<Rightarrow> ('k \<times> 'v) list" where
  "merge_map old new = new @ filter (\<lambda>(k, _). k \<notin> fst ` set new) old"

fun read_elements :: "('a \<Rightarrow> gvalue \<Rightarrow> 'a) \<Rightarrow> 'a \<Rightarrow> 'a list \<Rightarrow> gvalue list \<Rightarrow> 'a list" where
  "read_elements f zero olds [] = []"
| "read_elements f zero [] (x # xs) = f zero x # read_elements f zero [] xs"
| "read_elements f zero (old # olds) (x # xs) = f old x # read_elements f zero olds xs"

definition read_slice :: "('a \<Rightarrow> gvalue \<Rightarrow> 'a) \<Rightarrow> 'a \<Rightarrow> gobj \<Rightarrow> string \<Rightarrow> 'a list \<Rightarrow> 'a list" where
  "read_slice f zero j k olds =
     (case map_of j k of Some (VArr xs) \<Rightarrow> read_elements f zero olds xs | Some VNil \<Rightarrow> [] | _ \<Rightarrow> olds)"

definition read_struct :: "(gobj \<Rightarrow> 'a \<Rightarrow> 'a) \<Rightarrow> 'a \<Rightarrow> gvalue \<Rightarrow> 'a" where
  "read_struct f old v = (case v of VObj j \<Rightarrow> f j old | _ \<Rightarrow> old)"

definition read_member :: "(gobj \<Rightarrow> 'a \<Rightarrow> 'a) \<Rightarrow> gobj \<Rightarrow> string \<Rightarrow> 'a \<Rightarrow> 'a" where
  "read_member f j k old = (case map_of j k of None \<Rightarrow> old | Some v \<Rightarrow> read_struct f old v)"

definition read_text :: "string \<Rightarrow> gvalue \<Rightarrow> string" where
  "read_text old v = (case v of VStr s \<Rightarrow> s | _ \<Rightarrow> old)"

definition read_string_map :: "gobj \<Rightarrow> (string \<times> string) list \<Rightarrow> (string \<times> string) list" where
  "read_string_map j old = merge_map old (map (\<lambda>(k, v). (k, read_text [] v)) j)"

definition no_ref :: gov_ref where
  "no_ref = \<lparr>ref_id = [], ref_kind = [], ref_digest = [], ref_source = [], ref_source_product = [],
     ref_schema_id = [], ref_schema_version = []\<rparr>"

definition no_contract :: contract where
  "no_contract = \<lparr>gc_id = [], gc_family_id = [], gc_revision = 0, gc_action = [], gc_target = [],
     gc_environment = [], gc_policy_digest = [], gc_owner = [], gc_authority_refs = [], gc_authorization = [],
     gc_preconditions = [], gc_confirmation = [], gc_approval = [], gc_credential = [], gc_effect = [],
     gc_compensation = [], gc_outcome = [], gc_provenance = no_ref, gc_causal_ref = no_ref\<rparr>"

definition no_evidence :: evidence where
  "no_evidence = \<lparr>evd_kind = [], evd_ref = no_ref, evd_occurred_at = [], evd_contract_ref = no_ref,
     evd_attributes = None, evd_provenance = no_ref\<rparr>"

definition read_ref :: "gobj \<Rightarrow> gov_ref \<Rightarrow> gov_ref" where
  "read_ref j r = \<lparr>ref_id = read_string j ''id'' (ref_id r), ref_kind = read_string j ''kind'' (ref_kind r),
     ref_digest = read_string j ''digest'' (ref_digest r), ref_source = read_string j ''source'' (ref_source r),
     ref_source_product = read_string j ''source_product'' (ref_source_product r),
     ref_schema_id = read_string j ''schema_id'' (ref_schema_id r),
     ref_schema_version = read_string j ''schema_version'' (ref_schema_version r)\<rparr>"

definition read_axis :: "gobj \<Rightarrow> string \<Rightarrow> gobj list \<Rightarrow> gobj list" where
  "read_axis = read_slice (read_struct (\<lambda>new old. merge_map old new)) []"

definition read_contract :: "gobj \<Rightarrow> contract \<Rightarrow> contract" where
  "read_contract j c = \<lparr>gc_id = read_string j ''id'' (gc_id c),
     gc_family_id = read_string j ''family_id'' (gc_family_id c),
     gc_revision = read_int j ''revision'' (gc_revision c),
     gc_action = read_string j ''action'' (gc_action c), gc_target = read_string j ''target'' (gc_target c),
     gc_environment = read_string j ''environment'' (gc_environment c),
     gc_policy_digest = read_string j ''policy_digest'' (gc_policy_digest c),
     gc_owner = read_string j ''owner'' (gc_owner c),
     gc_authority_refs = read_slice (read_struct read_ref) no_ref j ''authority_refs'' (gc_authority_refs c),
     gc_authorization = read_axis j ''authorization'' (gc_authorization c),
     gc_preconditions = read_axis j ''preconditions'' (gc_preconditions c),
     gc_confirmation = read_axis j ''confirmation'' (gc_confirmation c),
     gc_approval = read_axis j ''approval'' (gc_approval c),
     gc_credential = read_axis j ''credential'' (gc_credential c),
     gc_effect = read_axis j ''effect'' (gc_effect c),
     gc_compensation = read_axis j ''compensation'' (gc_compensation c),
     gc_outcome = read_axis j ''outcome'' (gc_outcome c),
     gc_provenance = read_member read_ref j ''provenance'' (gc_provenance c),
     gc_causal_ref = read_member read_ref j ''causal_ref'' (gc_causal_ref c)\<rparr>"

definition read_evidence :: "gobj \<Rightarrow> evidence \<Rightarrow> evidence" where
  "read_evidence j e = \<lparr>evd_kind = read_string j ''kind'' (evd_kind e),
     evd_ref = read_member read_ref j ''ref'' (evd_ref e),
     evd_occurred_at = read_string j ''occurred_at'' (evd_occurred_at e),
     evd_contract_ref = read_member read_ref j ''contract_ref'' (evd_contract_ref e),
     evd_attributes = (case map_of j ''attributes'' of
         Some (VObj m) \<Rightarrow> Some (read_string_map m (case evd_attributes e of None \<Rightarrow> [] | Some old \<Rightarrow> old))
       | _ \<Rightarrow> evd_attributes e),
     evd_provenance = read_member read_ref j ''provenance'' (evd_provenance e)\<rparr>"

definition read_signature :: "gobj \<Rightarrow> signature option \<Rightarrow> signature option" where
  "read_signature j old =
     (case (map_of j ''signature'', old) of
        (Some (VObj m), Some s) \<Rightarrow> Some \<lparr>sg_alg = read_string m ''alg'' (sg_alg s),
          sg_key_id = read_string m ''key_id'' (sg_key_id s),
          sg_signed_digest = read_string m ''signed_digest'' (sg_signed_digest s),
          sg_value = read_string m ''sig'' (sg_value s)\<rparr>
      | (Some (VObj m), None) \<Rightarrow> Some \<lparr>sg_alg = read_string m ''alg'' [], sg_key_id = read_string m ''key_id'' [],
          sg_signed_digest = read_string m ''signed_digest'' [], sg_value = read_string m ''sig'' []\<rparr>
      | _ \<Rightarrow> old)"

definition read_register :: "gobj \<Rightarrow> register \<Rightarrow> register" where
  "read_register j r = \<lparr>rg_schema_id = read_string j ''schema_id'' (rg_schema_id r),
     rg_schema_version = read_string j ''schema_version'' (rg_schema_version r),
     rg_contracts = read_slice (read_struct read_contract) no_contract j ''contracts'' (rg_contracts r),
     rg_source_digest = read_string j ''source_digest'' (rg_source_digest r),
     rg_digest = read_string j ''digest'' (rg_digest r), rg_signature = read_signature j (rg_signature r)\<rparr>"

definition read_packet :: "gobj \<Rightarrow> packet \<Rightarrow> packet" where
  "read_packet j p = \<lparr>pk_schema_id = read_string j ''schema_id'' (pk_schema_id p),
     pk_schema_version = read_string j ''schema_version'' (pk_schema_version p),
     pk_packet_id = read_string j ''packet_id'' (pk_packet_id p),
     pk_contract = read_member read_contract j ''contract'' (pk_contract p),
     pk_evidence = read_slice (read_struct read_evidence) no_evidence j ''evidence'' (pk_evidence p),
     pk_completeness = read_string j ''completeness'' (pk_completeness p),
     pk_reason_codes = read_slice read_text [] j ''reason_codes'' (pk_reason_codes p),
     pk_source_digests = read_slice read_text [] j ''source_digests'' (pk_source_digests p),
     pk_digest = read_string j ''digest'' (pk_digest p), pk_signature = read_signature j (pk_signature p),
     pk_axis_states = (case map_of j ''axis_states'' of
         Some (VObj m) \<Rightarrow> read_string_map m (pk_axis_states p) | _ \<Rightarrow> pk_axis_states p)\<rparr>"

definition redact_register_value :: "(gvalue \<Rightarrow> string option) \<Rightarrow> register \<Rightarrow> register" where
  "redact_register_value dg r = read_struct read_register r (redact_json dg (register_json r))"

definition redact_packet_value :: "(gvalue \<Rightarrow> string option) \<Rightarrow> packet \<Rightarrow> packet" where
  "redact_packet_value dg p = read_struct read_packet p (redact_json dg (packet_json p))"

definition redact_register :: "(gvalue \<Rightarrow> string option) \<Rightarrow> register \<Rightarrow> register" where
  \<comment> \<open>the digest is taken of the contracts as JSON\<close>
  "redact_register dg r =
     (let r1 = redact_register_value dg r in
      case dg (json_value (VStructs (map contract_json (rg_contracts r1)))) of
        None \<Rightarrow> r1
      | Some d \<Rightarrow> r1\<lparr>rg_source_digest := d\<rparr>)"

definition redact_packet :: "(gvalue \<Rightarrow> string option) \<Rightarrow> packet \<Rightarrow> packet" where
  "redact_packet dg p = (redact_packet_value dg p)\<lparr>pk_digest := [], pk_signature := None\<rparr>"

section \<open>Stored projections\<close>

datatype projection_error = InvalidIdentity | InvalidReference string | RecordRejected | StoreRequired
  | KeyFailed | AppendFailed store_error

definition projection_relationship :: "gov_ref list \<Rightarrow> relationship" where
  "projection_relationship refs =
     \<lparr>rel_parent_ref = None,
      rel_entity_refs = go_sort (\<lambda>a b. if rr_kind a = rr_kind b then rr_id a < rr_id b else rr_kind a < rr_kind b)
        (map (\<lambda>r. \<lparr>rr_kind = ref_kind r, rr_id = ref_id r, rr_digest = ref_digest r, rr_schema_id = ref_schema_id r,
            rr_schema_version = ref_schema_version r, rr_source_product = ref_source_product r, rr_extra = []\<rparr>) refs),
      rel_policy = None, rel_agent_chain = [], rel_edges = [], rel_parent_id = [], rel_records = [],
      rel_entities = [], rel_lineage = [], rel_extra = []\<rparr>"

definition projection_event :: "string \<Rightarrow> string \<Rightarrow> gmap \<Rightarrow> gobj" where
  "projection_event i product payload =
     AList.update ''execution_authority'' (VBool False)
       (AList.update ''source_claim'' (VBool True)
         (AList.update ''source_product'' (VStr product)
           (AList.update ''projection_id'' (VStr i) (case payload of None \<Rightarrow> [] | Some kvs \<Rightarrow> kvs))))"

definition to_proof_record ::
  "record_lib \<Rightarrow> string \<Rightarrow> string \<Rightarrow> string \<Rightarrow> string \<Rightarrow> instant \<Rightarrow> gmap \<Rightarrow> gov_ref list \<Rightarrow>
   (projection_error, proof_record) result" where
  "to_proof_record lib rtype source product i occurred payload refs =
     (if is_zero_time occurred \<or> i = [] \<or> source = [] \<or> product = [] then Inl InvalidIdentity
      else case find (\<lambda>r. \<not> valid_ref r) refs of
        Some r \<Rightarrow> Inl (InvalidReference (ref_id r))
      | None \<Rightarrow>
         (case rb_new lib \<lparr>op_source = source, op_source_product = product, op_agent_id = ''axym://governance'',
              op_record_type = rtype, op_timestamp = occurred, op_event = Some (projection_event i product payload),
              op_metadata = None, op_relationship = Some (projection_relationship refs),
              op_permissions = False, op_scope = []\<rparr> of
            None \<Rightarrow> Inl RecordRejected
          | Some r \<Rightarrow> Inr r))"

definition append_projection ::
  "proof_lib \<Rightarrow> store option \<Rightarrow> instant \<Rightarrow> proof_record option \<Rightarrow> disk \<Rightarrow> disk \<times> (projection_error, append_result) result" where
  "append_projection lib st clock r d =
     (case (st, r) of
        (Some s, Some x) \<Rightarrow>
          (case record_dedupe_key lib x of
             None \<Rightarrow> (d, Inl KeyFailed)
           | Some key \<Rightarrow>
              (case append_public lib s clock (Some x) key d of
                 (d', Inl e) \<Rightarrow> (d', Inl (AppendFailed e))
               | (d', Inr a) \<Rightarrow> (d', Inr a)))
      | _ \<Rightarrow> (d, Inl StoreRequired))"

section \<open>What masking does to every value of a document\<close>

datatype step = Key string | Item nat

fun lookup :: "gvalue \<Rightarrow> step list \<Rightarrow> gvalue option" where
  \<comment> \<open>the value at a path of keys and indices\<close>
  "lookup v [] = Some v"
| "lookup (VObj kvs) (Key k # p) = (case map_of kvs k of None \<Rightarrow> None | Some v \<Rightarrow> lookup v p)"
| "lookup (VArr xs) (Item n # p) = (if n < length xs then lookup (xs ! n) p else None)"
| "lookup v p = None"

fun enclosing_key :: "string \<Rightarrow> step list \<Rightarrow> string" where
  \<comment> \<open>the last key on a path\<close>
  "enclosing_key key [] = key"
| "enclosing_key key (Key k # p) = enclosing_key k p"
| "enclosing_key key (Item n # p) = enclosing_key key p"

fun open_path :: "string \<Rightarrow> step list \<Rightarrow> bool" where
  \<comment> \<open>no step of the path takes a masked key\<close>
  "open_path key [] = True"
| "open_path key (Key k # p) \<longleftrightarrow> \<not> masked_key key k \<and> open_path k p"
| "open_path key (Item n # p) = open_path key p"

lemma map_of_map_keyed: "map_of (map (\<lambda>(k, v). (k, f k v)) kvs) k = map_option (f k) (map_of kvs k)"
  by (induction kvs) auto

lemma masked_key_sensitive: "\<not> masked_key key k \<Longrightarrow> \<not> sensitive_projection_key k"
  by (simp add: masked_key_def)

lemma lookup_redacted_open:
  assumes "open_path key p" and "\<not> sensitive_projection_key key"
  shows "lookup (redact_json_value dg key v) p = map_option (redact_json_value dg (enclosing_key key p)) (lookup v p)"
  using assms
proof (induction v p arbitrary: key rule: lookup.induct)
  case (2 kvs k p)
  then show ?case by (auto simp: map_of_map_keyed masked_key_sensitive split: option.splits)
next
  case (3 xs n p)
  then show ?case by auto
qed auto

lemma lookup_redacted_masked:
  assumes "open_path key p" and "\<not> sensitive_projection_key key" and "masked_key (enclosing_key key p) k"
    and "lookup v (p @ [Key k]) = Some w"
  shows "lookup (redact_json_value dg key v) (p @ [Key k]) = Some (VStr (stable_redacted_digest dg w))"
  using assms
proof (induction v p arbitrary: key rule: lookup.induct)
  case (1 v)
  then show ?case by (cases v) (auto simp: map_of_map_keyed split: option.splits)
next
  case (2 kvs k' p)
  then show ?case by (auto simp: map_of_map_keyed masked_key_sensitive split: option.splits)
next
  case (3 xs n p)
  then show ?case by (auto split: if_splits)
qed auto

lemma root_key_open [simp]: "\<not> sensitive_projection_key []"
  by code_simp

text \<open>
  Masking is exact: the value at any path that takes no masked key is what it was, with its
  own members masked, and the value under the first masked key of a path is replaced by its digest.
\<close>
theorem masking_exact:
  assumes "open_path [] p"
  shows "lookup (redact_json dg v) p = map_option (redact_json_value dg (enclosing_key [] p)) (lookup (json_value v) p) \<and>
    (masked_key (enclosing_key [] p) k \<and> lookup (json_value v) (p @ [Key k]) = Some w \<longrightarrow>
     lookup (redact_json dg v) (p @ [Key k]) = Some (VStr (stable_redacted_digest dg w)))"
  using assms unfolding redact_json_def
  by (auto intro: lookup_redacted_open lookup_redacted_masked)

definition axis_document :: gvalue where
  "axis_document = VObj [(''authorization'', VArr [VObj [(''requirement_id'', VStr ''keep''),
     (''required_constraint'', VStr ''raw-secret''), (''scope'', VObj [(''value'', VStr ''raw-secret'')])]])]"

lemma masking_exact_witness:
  "lookup (redact_json (\<lambda>_. Some ''sha256:x'') axis_document)
     [Key ''authorization'', Item 0, Key ''required_constraint''] = Some (VStr ''sha256:x'')"
proof -
  have "open_path [] [Key ''authorization'', Item 0]"
    and "masked_key (enclosing_key [] [Key ''authorization'', Item 0]) ''required_constraint''"
    and "lookup (json_value axis_document) ([Key ''authorization'', Item 0] @ [Key ''required_constraint'']) =
      Some (VStr ''raw-secret'')"
    by code_simp+
  with masking_exact [of "[Key ''authorization'', Item 0]" "\<lambda>_. Some ''sha256:x''" axis_document
      "''required_constraint''" "VStr ''raw-secret''"]
  show ?thesis by (simp add: stable_redacted_digest_def)
qed

text \<open>A value one level deeper in an axis is not masked.\<close>
lemma nested_axis_value_survives:
  "lookup (redact_json dg axis_document) [Key ''authorization'', Item 0, Key ''scope'', Key ''value''] =
     Some (VStr ''raw-secret'')"
proof -
  have "open_path [] [Key ''authorization'', Item 0, Key ''scope'', Key ''value'']"
    and "lookup (json_value axis_document) [Key ''authorization'', Item 0, Key ''scope'', Key ''value''] =
      Some (VStr ''raw-secret'')"
    by code_simp+
  then show ?thesis using lookup_redacted_open [of "[]" _ dg] by (simp add: redact_json_def)
qed

section \<open>Masked documents keep their Go types\<close>

datatype gotype = GString | GInt | GAny | GMap gotype | GList gotype | GStruct "(string \<times> gotype) list"

fun fits :: "gotype \<Rightarrow> gvalue \<Rightarrow> bool" where
  \<comment> \<open>a JSON value that \<open>json.Unmarshal\<close> reads into the type without an error\<close>
  "fits t VNil = True"
| "fits GString (VStr s) = True"
| "fits GInt (VNum q) \<longleftrightarrow> q = of_int \<lfloor>q\<rfloor>"
| "fits GAny v = True"
| "fits (GMap t) (VObj kvs) = list_all (\<lambda>(k, v). fits t v) kvs"
| "fits (GList t) (VArr xs) = list_all (fits t) xs"
| "fits (GStruct fs) (VObj kvs) =
     list_all (\<lambda>(k, v). case map_of fs k of None \<Rightarrow> True | Some t \<Rightarrow> fits t v) kvs"
| "fits t v = False"

fun takes_string :: "gotype \<Rightarrow> bool" where
  "takes_string GString = True" | "takes_string GAny = True" | "takes_string t = False"

fun maskable :: "string \<Rightarrow> gotype \<Rightarrow> bool" where
  \<comment> \<open>every member that can be masked accepts a string\<close>
  "maskable key GString = True"
| "maskable key GInt = True"
| "maskable key GAny = True"
| "maskable key (GMap t) = takes_string t"
| "maskable key (GList t) = maskable key t"
| "maskable key (GStruct fs) =
     list_all (\<lambda>(k, t). if masked_key key k then takes_string t else maskable k t) fs"

lemma takes_string_fits: "takes_string t \<Longrightarrow> fits t (VStr s)"
  by (cases t) auto

lemma fits_GAny [simp]: "fits GAny v"
  by (cases v) auto

lemma redact_GString: "fits GString v \<Longrightarrow> fits GString (redact_json_value dg key v)"
  by (cases v) auto

lemma redact_takes: "takes_string t \<Longrightarrow> fits t v \<Longrightarrow> fits t (redact_json_value dg key v)"
  by (cases t) (auto intro: redact_GString)

lemma redact_fits: "fits t v \<Longrightarrow> maskable key t \<Longrightarrow> fits t (redact_json_value dg key v)"
proof (induction t v arbitrary: key rule: fits.induct)
  case (5 t kvs)
  then show ?case
    by (auto simp: list_all_iff takes_string_fits redact_takes)
next
  case (6 t xs)
  then show ?case by (auto simp: list_all_iff)
next
  case (7 fs kvs)
  show ?case
  proof (cases "sensitive_projection_key key")
    case False
    have "case map_of fs k of None \<Rightarrow> True | Some t \<Rightarrow>
        fits t (if masked_key key k then VStr (stable_redacted_digest dg v) else redact_json_value dg k v)"
      if kv: "(k, v) \<in> set kvs" for k v
    proof (cases "map_of fs k")
      case (Some t)
      then have "if masked_key key k then takes_string t else maskable k t"
        using "7.prems"(2) map_of_SomeD [OF Some] by (auto simp: list_all_iff)
      moreover have "fits t v" using "7.prems"(1) kv Some by (auto simp: list_all_iff)
      ultimately show ?thesis using "7.IH" [OF kv refl Some] Some by (auto simp: takes_string_fits split: if_splits)
    qed simp
    with False show ?thesis by (auto simp: list_all_iff)
  qed (use 7 in simp)
qed auto

definition strings_type :: "string list \<Rightarrow> (string \<times> gotype) list" where
  "strings_type ks = map (\<lambda>k. (k, GString)) ks"

definition ref_type :: gotype where
  "ref_type = GStruct (strings_type [''id'', ''kind'', ''digest'', ''source'', ''source_product'', ''schema_id'',
     ''schema_version''])"

definition axis_type :: gotype where "axis_type = GList (GMap GAny)"

definition contract_type :: gotype where
  "contract_type = GStruct (strings_type [''id'', ''family_id'', ''action'', ''target'', ''environment'',
      ''policy_digest'', ''owner''] @ [(''revision'', GInt), (''authority_refs'', GList ref_type)] @
     map (\<lambda>k. (k, axis_type)) [''authorization'', ''preconditions'', ''confirmation'', ''approval'', ''credential'',
      ''effect'', ''compensation'', ''outcome''] @ [(''provenance'', ref_type), (''causal_ref'', ref_type)])"

definition signature_type :: gotype where
  "signature_type = GStruct (strings_type [''alg'', ''key_id'', ''sig'', ''signed_digest''])"

definition register_type :: gotype where
  "register_type = GStruct (strings_type [''schema_id'', ''schema_version'', ''source_digest'', ''digest''] @
     [(''contracts'', GList contract_type), (''signature'', signature_type)])"

definition evidence_type :: gotype where
  "evidence_type = GStruct (strings_type [''kind'', ''occurred_at''] @
     [(''ref'', ref_type), (''contract_ref'', ref_type), (''attributes'', GMap GString), (''provenance'', ref_type)])"

definition packet_type :: gotype where
  "packet_type = GStruct (strings_type [''schema_id'', ''schema_version'', ''packet_id'', ''completeness'', ''digest''] @
     [(''contract'', contract_type), (''evidence'', GList evidence_type), (''reason_codes'', GList GString),
      (''source_digests'', GList GString), (''signature'', signature_type), (''axis_states'', GMap GString)])"

lemma register_maskable: "maskable [] register_type"
  by code_simp

lemma packet_maskable: "maskable [] packet_type"
  by code_simp

lemma fits_ref: "fits ref_type (json_value (VStruct (ref_json r)))"
  by (simp add: ref_type_def ref_json_def strings_type_def)

lemma fits_refs: "fits (GList ref_type) (json_value (VStructs (map ref_json rs)))"
  using fits_ref by (auto simp: list_all_iff comp_def)

lemma fits_axis: "fits axis_type (json_value (VObjs os))"
  by (auto simp: axis_type_def list_all_iff)

lemma fits_strings: "fits (GList GString) (json_value (VStrs ss))"
  by (auto simp: list_all_iff)

lemma fits_string_map: "fits (GMap GString) (json_value (VObj (string_map_json m)))"
  by (auto simp: list_all_iff string_map_json_def)

definition typed_members :: "(string \<times> gotype) list \<Rightarrow> gobj \<Rightarrow> bool" where
  "typed_members fs kvs \<longleftrightarrow>
     list_all (\<lambda>(k, v). case map_of fs k of None \<Rightarrow> True | Some t \<Rightarrow> fits t (json_value v)) kvs"

lemma typed_members_simps [simp]:
  "typed_members fs []"
  "typed_members fs ((k, v) # kvs) \<longleftrightarrow>
     (case map_of fs k of None \<Rightarrow> True | Some t \<Rightarrow> fits t (json_value v)) \<and> typed_members fs kvs"
  "typed_members fs (xs @ ys) \<longleftrightarrow> typed_members fs xs \<and> typed_members fs ys"
  "typed_members fs (unless_empty k b v) \<longleftrightarrow>
     b \<or> (case map_of fs k of None \<Rightarrow> True | Some t \<Rightarrow> fits t (json_value v))"
  by (auto simp: typed_members_def unless_empty_def)

lemma fits_struct: "typed_members fs kvs \<Longrightarrow> fits (GStruct fs) (json_value (VStruct kvs))"
  by (fastforce simp: typed_members_def list_all_iff)

lemmas fits_members = fits_ref fits_refs fits_axis fits_strings fits_string_map

lemma fits_contract: "fits contract_type (json_value (VStruct (contract_json c)))"
  unfolding contract_type_def
  by (rule fits_struct)
    (simp add: contract_json_def axis_json_def strings_type_def fits_members del: json_value.simps fits.simps(5-7),
     simp)

lemma fits_signature:
  "map_of fs ''signature'' = Some signature_type \<Longrightarrow> typed_members fs (signature_json s)"
  by (auto simp: signature_json_def signature_type_def strings_type_def split: option.splits)

lemma fits_evidence: "fits evidence_type (json_value (VStruct (evidence_json e)))"
  unfolding evidence_type_def
  by (rule fits_struct)
    (simp add: evidence_json_def Let_def strings_type_def fits_members del: json_value.simps fits.simps(5-7), simp)

lemma fits_structs:
  "(\<And>x. fits t (json_value (VStruct (f x)))) \<Longrightarrow> fits (GList t) (json_value (VStructs (map f xs)))"
  by (auto simp: list_all_iff)

lemma fits_register: "fits register_type (json_value (register_json r))"
proof -
  have "fits (GList contract_type) (json_value (VStructs (map contract_json cs)))" for cs
    by (rule fits_structs) (rule fits_contract)
  moreover have "fits GString (json_value (VStr s))" for s by simp
  ultimately show ?thesis
    unfolding register_type_def register_json_def
    by (intro fits_struct) (simp add: strings_type_def fits_signature del: json_value.simps fits.simps(5-7))
qed

lemma fits_packet: "fits packet_type (json_value (packet_json p))"
proof -
  have "fits (GList evidence_type) (json_value (VStructs (map evidence_json es)))" for es
    by (rule fits_structs) (rule fits_evidence)
  moreover have "fits GString (json_value (VStr s))" for s by simp
  ultimately show ?thesis
    unfolding packet_type_def packet_json_def
    by (intro fits_struct)
      (simp add: strings_type_def fits_signature fits_contract fits_members del: json_value.simps fits.simps(5-7))
qed


section \<open>A projection carries no authority\<close>

lemma projection_event_claims:
  "map_of (projection_event i product payload) ''execution_authority'' = Some (VBool False) \<and>
   map_of (projection_event i product payload) ''source_claim'' = Some (VBool True) \<and>
   map_of (projection_event i product payload) ''source_product'' = Some (VStr product) \<and>
   map_of (projection_event i product payload) ''projection_id'' = Some (VStr i)"
  by (simp add: projection_event_def)

lemma projections_grant_nothing:
  assumes "to_proof_record lib rtype source product i occurred payload refs = Inr r"
    and new: "\<And>opts x. rb_new lib opts = Some x \<Longrightarrow>
      pr_event x = op_event opts \<and> pr_relationship x = op_relationship opts"
  shows "mget (pr_event r) ''execution_authority'' = Some (VBool False) \<and>
    list_all valid_ref refs \<and> pr_relationship r = Some (projection_relationship refs)"
  using assms(1) new projection_event_claims
  by (fastforce simp: to_proof_record_def find_None_iff list_all_iff split: if_splits option.splits)

end
