(* ===== verification/Ticket.thy ===== *)
theory Ticket
  imports Build Receipt
begin

text \<open>
  \<open>core/ticket\<close>: attaching evidence to an external ticket with a bounded number of attempts,
  the dead letter queue for what could not be attached, and the record either outcome leaves in
  the evidence store. An adapter is a function on its own state; \<open>jira\<close> and \<open>servicenow\<close> are the
  scripted ones of the repository. The retry loop is a partial function, so that its return is
  a theorem. JSON encoding and decoding of queue entries are the arguments \<open>enc\<close> and \<open>dec\<close>.
\<close>

section \<open>The dead letter queue\<close>

record dlq_entry =
  dq_system :: string
  dq_change_id :: string
  dq_payload_hash :: string
  dq_reasons :: "string list"
  dq_attempts :: int
  dq_occurred_at :: string

datatype line_file =
    NoFile
  | DirFile
  | LinkFile "string option"     \<comment> \<open>a symbolic link and the text it leads to, if any\<close>
  | TextFile string

datatype line_fault = StatFails | OpenFails | WriteStops nat | FileSyncFails

datatype line_error = StatPath | NotRegular string | OpenFile | WriteLine | SyncFile | ReadFile | DecodeLine

definition newline :: char where "newline = CHR 0x0A"

definition ensure_regular_file :: "line_fault option \<Rightarrow> line_file \<Rightarrow> line_error option" where
  \<comment> \<open>\<open>ensureRegularFilePath\<close> and \<open>ensureRegularFile\<close>\<close>
  "ensure_regular_file fault f =
     (if fault = Some StatFails then Some StatPath
      else case f of
        LinkFile _ \<Rightarrow> Some (NotRegular ''symlink'')
      | DirFile \<Rightarrow> Some (NotRegular ''regular file'')
      | _ \<Rightarrow> None)"

definition file_text :: "line_file \<Rightarrow> string" where
  "file_text f = (case f of TextFile s \<Rightarrow> s | _ \<Rightarrow> [])"

definition append_line :: "line_fault option \<Rightarrow> string \<Rightarrow> line_file \<Rightarrow> line_file \<times> line_error option" where
  \<comment> \<open>a write that stops leaves the bytes written so far\<close>
  "append_line fault payload f =
     (case ensure_regular_file fault f of
        Some err \<Rightarrow> (f, Some err)
      | None \<Rightarrow>
         (let line = payload @ [newline] in
          case fault of
            Some OpenFails \<Rightarrow> (f, Some OpenFile)
          | Some (WriteStops n) \<Rightarrow> (TextFile (file_text f @ take n line), Some WriteLine)
          | Some FileSyncFails \<Rightarrow> (TextFile (file_text f @ line), Some SyncFile)
          | _ \<Rightarrow> (TextFile (file_text f @ line), None)))"

definition enqueue ::
  "(dlq_entry \<Rightarrow> string) \<Rightarrow> line_fault option \<Rightarrow> dlq_entry \<Rightarrow> line_file \<Rightarrow> line_file \<times> line_error option" where
  "enqueue enc fault e = append_line fault (enc e)"

fun decode_lines :: "(string \<Rightarrow> dlq_entry option) \<Rightarrow> string list \<Rightarrow> (line_error, dlq_entry list) result" where
  "decode_lines dec [] = Inr []"
| "decode_lines dec (l # ls) =
     (let t = trim_space l in
      if t = [] then decode_lines dec ls
      else case dec t of
        None \<Rightarrow> Inl DecodeLine
      | Some e \<Rightarrow> bind_result (decode_lines dec ls) (\<lambda>es. Inr (e # es)))"

definition read_all :: "(string \<Rightarrow> dlq_entry option) \<Rightarrow> line_file \<Rightarrow> (line_error, dlq_entry list) result" where
  "read_all dec f =
     (let parse = (\<lambda>raw. let ls = split_char newline (trim_space raw) in
                         if ls = [[]] then Inr [] else decode_lines dec ls)
      in case f of
           NoFile \<Rightarrow> Inr [] | LinkFile None \<Rightarrow> Inr []
         | DirFile \<Rightarrow> Inl ReadFile
         | LinkFile (Some s) \<Rightarrow> parse s | TextFile s \<Rightarrow> parse s)"

fun clean_parts :: "bool \<Rightarrow> string list \<Rightarrow> string list \<Rightarrow> string list" where
  "clean_parts rooted acc [] = rev acc"
| "clean_parts rooted acc (c # cs) =
     (if c = [] \<or> c = ''.'' then clean_parts rooted acc cs
      else if c = ''..'' then
        (case acc of
           [] \<Rightarrow> clean_parts rooted (if rooted then [] else [''..'']) cs
         | a # acc' \<Rightarrow> clean_parts rooted (if a = ''..'' then ''..'' # acc else acc') cs)
      else clean_parts rooted (c # acc) cs)"

definition clean_path :: "string \<Rightarrow> string" where
  \<comment> \<open>\<open>filepath.Clean\<close> with forward slashes\<close>
  "clean_path s =
     (let rooted = has_prefix s ''/''; body = join ''/'' (clean_parts rooted [] (split_char CHR ''/'' s))
      in if rooted then ''/'' @ body else if body = [] then ''.'' else body)"

definition join_path :: "string list \<Rightarrow> string" where
  "join_path ps = (let xs = filter (\<lambda>p. p \<noteq> []) ps in if xs = [] then [] else clean_path (join ''/'' xs))"

definition new_queue :: "bool \<Rightarrow> string \<Rightarrow> (string, string) result" where
  \<comment> \<open>\<open>New\<close>: the path of the queue file; \<open>made\<close> is whether the directory could be made\<close>
  "new_queue made rt =
     (let cleaned = clean_path (trim_space rt) in
      if cleaned = [] \<or> cleaned = ''.'' then Inl ''dlq root dir is required''
      else if \<not> made then Inl ''create dlq root''
      else Inr (join_path [cleaned, ''ticket-dlq.jsonl'']))"

section \<open>Adapters\<close>

datatype attach_answer = AttachError | Status int

record scripted =
  sc_responses :: "int list"
  sc_index :: nat

definition new_scripted :: "int list \<Rightarrow> scripted" where
  "new_scripted codes = \<lparr>sc_responses = (if codes = [] then [200] else codes), sc_index = 0\<rparr>"

definition scripted_attach :: "scripted \<Rightarrow> attach_answer \<times> scripted" where
  "scripted_attach a =
     (if length (sc_responses a) \<le> sc_index a then (Status (last (sc_responses a)), a)
      else (Status (sc_responses a ! sc_index a), a\<lparr>sc_index := sc_index a + 1\<rparr>))"

section \<open>Requests, results, environment\<close>

record ticket_request =
  tr_system :: string
  tr_change_id :: string
  tr_payload_hash :: string
  tr_opened_at :: instant
  tr_sla :: duration
  tr_source :: string
  tr_agent_id :: string

record ticket_result =
  tk_system :: string
  tk_change_id :: string
  tk_status :: string
  tk_attempts :: int
  tk_reasons :: "string list"
  tk_dlq_path :: string
  tk_sla_within :: bool
  tk_occurred_at :: string
  tk_record_id :: string

datatype ticket_error = TicketError string string

definition reason_rate_limited :: string where "reason_rate_limited = ''TICKET_RATE_LIMITED''"
definition reason_remote :: string where "reason_remote = ''TICKET_REMOTE_ERROR''"
definition reason_rejected :: string where "reason_rejected = ''TICKET_REJECTED''"
definition reason_dlq :: string where "reason_dlq = ''TICKET_DLQ''"
definition ticket_invalid :: "string \<Rightarrow> ticket_error" where
  "ticket_invalid msg = TicketError ''TICKET_INVALID_INPUT'' msg"

record 's ticket_env =
  te_adapter :: bool                                 \<comment> \<open>the adapter is not nil\<close>
  te_name :: string
  te_attach :: "'s \<Rightarrow> attach_answer \<times> 's"
  te_cancelled :: "int \<Rightarrow> bool"                      \<comment> \<open>the context is done when an attempt begins\<close>
  te_interrupted :: "int \<Rightarrow> bool"                    \<comment> \<open>the context ends while an attempt waits\<close>
  te_sleep :: "(int \<Rightarrow> duration \<Rightarrow> bool) option"     \<comment> \<open>the \<open>Sleep\<close> hook: whether the wait completes\<close>
  te_backoff :: "(int \<Rightarrow> string \<Rightarrow> duration) option"
  te_max :: int
  te_started :: instant                              \<comment> \<open>the two readings of the clock\<close>
  te_completed :: instant
  te_store_clock :: instant                          \<comment> \<open>the clock of the store\<close>

section \<open>The retry loop\<close>

definition default_retry_backoff :: "int \<Rightarrow> string \<Rightarrow> duration" where
  "default_retry_backoff attempt reason =
     (if attempt \<le> 0 then 0
      else if reason = reason_rate_limited then attempt * (100 * 1000000)
      else if reason = reason_remote then attempt * (50 * 1000000) else 0)"

definition sleep_with_context :: "bool \<Rightarrow> duration \<Rightarrow> bool" where
  "sleep_with_context interrupted delay \<longleftrightarrow> delay \<le> 0 \<or> \<not> interrupted"

definition backoff :: "'s ticket_env \<Rightarrow> int \<Rightarrow> string \<Rightarrow> duration" where
  "backoff env = (case te_backoff env of None \<Rightarrow> default_retry_backoff | Some f \<Rightarrow> f)"

definition waits_out :: "'s ticket_env \<Rightarrow> int \<Rightarrow> duration \<Rightarrow> bool" where
  "waits_out env n delay =
     (case te_sleep env of None \<Rightarrow> sleep_with_context (te_interrupted env n) delay | Some f \<Rightarrow> f n delay)"

definition max_attempts :: "'s ticket_env \<Rightarrow> int" where
  "max_attempts env = (if te_max env \<le> 0 then 3 else te_max env)"

datatype verdict = Attached | Refused | Retry string

definition judge_answer :: "attach_answer \<Rightarrow> verdict" where
  "judge_answer a =
     (case a of
        AttachError \<Rightarrow> Retry reason_remote
      | Status c \<Rightarrow>
          if 200 \<le> c \<and> c < 300 then Attached
          else if c = 429 then Retry reason_rate_limited
          else if 500 \<le> c then Retry reason_remote
          else Refused)"

record loop_outcome =
  lo_attached :: bool
  lo_attempts :: int
  lo_reasons :: "string list"

type_synonym 's loop_end = "duration list \<times> nat \<times> 's \<times> (ticket_error, loop_outcome) result"

partial_function (option) attempt_loop ::
  "'s ticket_env \<Rightarrow> int \<Rightarrow> string list \<Rightarrow> duration list \<Rightarrow> nat \<Rightarrow> 's \<Rightarrow> 's loop_end option" where
  \<comment> \<open>the waits so far and the number of calls to the adapter are kept beside the code's state\<close>
  [code]: "attempt_loop env n reasons waits calls s =
     (if max_attempts env < n
      then Some (waits, calls, s, Inr \<lparr>lo_attached = False, lo_attempts = n, lo_reasons = reasons\<rparr>)
      else if te_cancelled env n
      then Some (waits, calls, s, Inl (TicketError reason_remote ''context canceled''))
      else (case te_attach env s of (answer, s') \<Rightarrow>
       (case judge_answer answer of
          Attached \<Rightarrow> Some (waits, calls + 1, s', Inr \<lparr>lo_attached = True, lo_attempts = n, lo_reasons = reasons\<rparr>)
        | Refused \<Rightarrow> Some (waits, calls + 1, s',
            Inr \<lparr>lo_attached = False, lo_attempts = n, lo_reasons = reasons @ [reason_rejected]\<rparr>)
        | Retry reason \<Rightarrow>
            if n < max_attempts env then
              (if waits_out env n (backoff env n reason)
               then attempt_loop env (n + 1) (reasons @ [reason]) (waits @ [backoff env n reason]) (calls + 1) s'
               else Some (waits, calls + 1, s', Inl (TicketError reason_remote ''retry wait interrupted'')))
            else Some (waits, calls + 1, s',
              Inr \<lparr>lo_attached = False, lo_attempts = n, lo_reasons = reasons @ [reason]\<rparr>))))"

section \<open>One ticket\<close>

definition evaluate_sla :: "instant \<Rightarrow> instant \<Rightarrow> duration \<Rightarrow> bool" where
  "evaluate_sla now opened sla \<longleftrightarrow> is_zero_time opened \<or> sla \<le> 0 \<or> \<not> now > opened + sla"

definition ticket_system :: "'s ticket_env \<Rightarrow> ticket_request \<Rightarrow> string" where
  "ticket_system env req =
     (let named = (if trim_space (tr_system req) = [] then te_name env else trim_space (tr_system req))
      in if named = [] then ''ticket'' else named)"

definition ticket_event :: "ticket_result \<Rightarrow> gobj" where
  "ticket_event r =
     [(''kind'', VStr ''ticket_attachment''), (''system'', VStr (tk_system r)), (''change_id'', VStr (tk_change_id r)),
      (''status'', VStr (tk_status r)), (''attempts'', VInt (tk_attempts r)), (''sla_within'', VBool (tk_sla_within r)),
      (''reason_codes'', VStrs (tk_reasons r))] @
     (if tk_dlq_path r \<noteq> [] then [(''dlq_path'', VStr (tk_dlq_path r))] else [])"

definition ticket_opts :: "instant \<Rightarrow> ticket_request \<Rightarrow> ticket_result \<Rightarrow> record_opts" where
  "ticket_opts now req r =
     \<lparr>op_source = (let s = trim_space (tr_source req) in if s = [] then ''axym-ticket-bridge'' else s),
      op_source_product = ''axym'', op_agent_id = trim_space (tr_agent_id req),
      op_record_type = ''policy_enforcement'', op_timestamp = now, op_event = Some (ticket_event r),
      op_metadata = Some [(''payload_hash'', VStr (tr_payload_hash req)), (''occurred_at'', VStr (tk_occurred_at r)),
        (''sla_within'', VBool (tk_sla_within r))],
      op_relationship = None, op_permissions = True, op_scope = ''ticket:'' @ tk_change_id r\<rparr>"

definition append_failed :: "string \<Rightarrow> ticket_error" where
  "append_failed msg = TicketError ''TICKET_CHAIN_APPEND_FAILED'' msg"

definition emit_result_record ::
  "proof_lib \<Rightarrow> record_lib \<Rightarrow> store \<Rightarrow> instant \<Rightarrow> instant \<Rightarrow> ticket_request \<Rightarrow> ticket_result \<Rightarrow> disk \<Rightarrow>
   disk \<times> (ticket_error, string) result" where
  "emit_result_record lib rlib st clock now req r d =
     (case rb_new rlib (ticket_opts now req r) of
        None \<Rightarrow> (d, Inl (append_failed ''build ticket evidence record''))
      | Some rec \<Rightarrow>
         (case record_dedupe_key lib rec of
            None \<Rightarrow> (d, Inl (append_failed ''build dedupe key''))
          | Some key \<Rightarrow>
             (case append_public lib st clock (Some rec) key d of
                (d', Inl _) \<Rightarrow> (d', Inl (append_failed ''append ticket evidence record''))
              | (d', Inr a) \<Rightarrow> (d', Inr (if ar_deduped a then pr_record_id rec else ar_record_id a)))))"

record ticket_world =
  tw_disk :: disk
  tw_queue :: line_file

definition ticket_entry :: "ticket_request \<Rightarrow> string \<Rightarrow> loop_outcome \<Rightarrow> instant \<Rightarrow> dlq_entry" where
  "ticket_entry req system out completed =
     \<lparr>dq_system = system, dq_change_id = tr_change_id req, dq_payload_hash = tr_payload_hash req,
      dq_reasons = unique_sorted_seen (lo_reasons out @ [reason_dlq]), dq_attempts = lo_attempts out,
      dq_occurred_at = format_rfc3339 completed\<rparr>"

definition settle_ticket ::
  "proof_lib \<Rightarrow> record_lib \<Rightarrow> (dlq_entry \<Rightarrow> string) \<Rightarrow> line_fault option \<Rightarrow> 's ticket_env \<Rightarrow> store \<Rightarrow>
   string option \<Rightarrow> ticket_request \<Rightarrow> loop_outcome \<Rightarrow> ticket_world \<Rightarrow>
   ticket_world \<times> (ticket_error, ticket_result) result" where
  \<comment> \<open>the rest of \<open>Process\<close> once the loop has ended; the queue is given by its path\<close>
  "settle_ticket lib rlib enc fault env st queue req out w =
     (let started = truncate_second (te_started env);
          completed = truncate_second (te_completed env);
          system = ticket_system env req;
          reasons = (if lo_attached out then lo_reasons out else lo_reasons out @ [reason_dlq]);
          (file', err) = (case queue of
              Some _ \<Rightarrow> if lo_attached out then (tw_queue w, None)
                        else enqueue enc fault (ticket_entry req system out completed) (tw_queue w)
            | None \<Rightarrow> (tw_queue w, None));
          w1 = w\<lparr>tw_queue := file'\<rparr>;
          r = \<lparr>tk_system = system, tk_change_id = tr_change_id req,
               tk_status = (if lo_attached out then ''attached'' else ''dlq''), tk_attempts = lo_attempts out,
               tk_reasons = unique_sorted_seen reasons,
               tk_dlq_path = (case queue of Some path \<Rightarrow> if lo_attached out then [] else path | None \<Rightarrow> []),
               tk_sla_within = evaluate_sla completed (tr_opened_at req) (tr_sla req),
               tk_occurred_at = format_rfc3339 completed, tk_record_id = []\<rparr>
      in case err of
           Some _ \<Rightarrow> (w1, Inl (TicketError reason_dlq ''persist dlq entry''))
         | None \<Rightarrow>
            (case emit_result_record lib rlib st (te_store_clock env) started req r (tw_disk w1) of
               (d', Inl e) \<Rightarrow> (w1\<lparr>tw_disk := d'\<rparr>, Inl e)
             | (d', Inr i) \<Rightarrow> (w1\<lparr>tw_disk := d'\<rparr>, Inr (r\<lparr>tk_record_id := i\<rparr>))))"

definition process ::
  "proof_lib \<Rightarrow> record_lib \<Rightarrow> (dlq_entry \<Rightarrow> string) \<Rightarrow> line_fault option \<Rightarrow> 's ticket_env \<Rightarrow> store option \<Rightarrow>
   string option \<Rightarrow> ticket_request \<Rightarrow> 's \<Rightarrow> ticket_world \<Rightarrow>
   (ticket_world \<times> (ticket_error, ticket_result) result) option" where
  "process lib rlib enc fault env store queue req s w =
     (if \<not> te_adapter env then Some (w, Inl (ticket_invalid ''adapter is required''))
      else case store of
        None \<Rightarrow> Some (w, Inl (ticket_invalid ''store is required''))
      | Some st \<Rightarrow>
          if trim_space (tr_change_id req) = [] then Some (w, Inl (ticket_invalid ''change_id is required''))
          else (case attempt_loop env 1 [] [] 0 s of
              None \<Rightarrow> None
            | Some (_, _, _, Inl e) \<Rightarrow> Some (w, Inl e)
            | Some (_, _, _, Inr out) \<Rightarrow> Some (settle_ticket lib rlib enc fault env st queue req out w)))"

section \<open>Paths\<close>

lemma clean_path_examples:
  "clean_path ''/a/./b/../c//'' = ''/a/c''" "clean_path ''../../a'' = ''../../a''" "clean_path [] = ''.''"
  "clean_path ''/..'' = ''/''"
  by code_simp+

section \<open>The loop returns within its bound\<close>

lemma attempt_loop_step:
  assumes "1 \<le> n" and "n \<le> max_attempts env" and "int calls = n - 1" and "length waits = calls"
  shows "\<exists>waits' calls' s' res. attempt_loop env n reasons waits calls s = Some (waits', calls', s', res) \<and>
    int calls' \<le> max_attempts env \<and> length waits' \<le> calls' \<and>
    (case res of Inl _ \<Rightarrow> True | Inr out \<Rightarrow> 1 \<le> lo_attempts out \<and> lo_attempts out = int calls' \<and>
       length waits' + 1 = calls')"
  using assms
proof (induction "nat (max_attempts env - n)" arbitrary: n reasons waits calls s)
  case 0
  obtain answer s' where "te_attach env s = (answer, s')" by fastforce
  with 0 show ?case
    by (subst attempt_loop.simps) (auto split: verdict.splits)
next
  case (Suc m)
  obtain answer s' where a: "te_attach env s = (answer, s')" by fastforce
  have onward: "\<exists>waits' calls' s'' res.
      attempt_loop env (n + 1) (reasons @ [reason]) (waits @ [w]) (calls + 1) s' = Some (waits', calls', s'', res) \<and>
      int calls' \<le> max_attempts env \<and> length waits' \<le> calls' \<and>
      (case res of Inl _ \<Rightarrow> True | Inr out \<Rightarrow> 1 \<le> lo_attempts out \<and> lo_attempts out = int calls' \<and>
         length waits' + 1 = calls')" for reason w
    using Suc.hyps(2) Suc.prems by (intro Suc.hyps(1)) auto
  show ?case
  proof (cases "te_cancelled env n")
    case True
    with Suc.prems show ?thesis by (subst attempt_loop.simps) auto
  next
    case False
    show ?thesis
    proof (cases "judge_answer answer")
      case (Retry reason)
      with a False Suc.prems Suc.hyps(2) onward show ?thesis
        by (subst attempt_loop.simps) auto
    qed (use a False Suc.prems in \<open>subst attempt_loop.simps; auto\<close>)+
  qed
qed

text \<open>
  C32: processing a ticket always ends: whatever the adapter answers, the retry loop returns after at
  most the configured number of calls to the adapter (three when none is configured), has waited
  once between two calls, and reports the number of calls it made.
\<close>
theorem ticket_attempts_bounded:
  "\<exists>waits calls s' res. attempt_loop env 1 [] [] 0 s = Some (waits, calls, s', res) \<and>
     int calls \<le> max_attempts env \<and> length waits \<le> calls \<and>
     (case res of Inl _ \<Rightarrow> True | Inr out \<Rightarrow> 1 \<le> lo_attempts out \<and> lo_attempts out = int calls \<and>
        length waits + 1 = calls) \<and>
     process lib rlib enc fault env store queue req s w \<noteq> None"
proof -
  have "1 \<le> max_attempts env" by (simp add: max_attempts_def)
  from attempt_loop_step [of 1 env 0 "[]" "[]" s, OF order_refl this]
  obtain waits calls s' res where l: "attempt_loop env 1 [] [] 0 s = Some (waits, calls, s', res)"
    "int calls \<le> max_attempts env" "length waits \<le> calls"
    "case res of Inl _ \<Rightarrow> True | Inr out \<Rightarrow> 1 \<le> lo_attempts out \<and> lo_attempts out = int calls \<and>
       length waits + 1 = calls"
    by auto
  moreover have "process lib rlib enc fault env store queue req s w \<noteq> None"
    by (simp add: process_def l(1) split: option.splits sum.splits)
  ultimately show ?thesis by blast
qed

section \<open>The queue gives back what was put in\<close>

definition codec_ok :: "(dlq_entry \<Rightarrow> string) \<Rightarrow> (string \<Rightarrow> dlq_entry option) \<Rightarrow> dlq_entry \<Rightarrow> bool" where
  \<comment> \<open>an entry is one line of JSON text, an object, that decodes to it\<close>
  "codec_ok enc dec e \<longleftrightarrow> dec (enc e) = Some e \<and> newline \<notin> set (enc e) \<and> enc e \<noteq> [] \<and>
     hd (enc e) = CHR ''{'' \<and> last (enc e) = CHR ''}''"

fun enqueue_all :: "(dlq_entry \<Rightarrow> string) \<Rightarrow> dlq_entry list \<Rightarrow> line_file \<Rightarrow> line_file" where
  "enqueue_all enc [] f = f"
| "enqueue_all enc (e # es) f = enqueue_all enc es (fst (enqueue enc None e f))"

definition lines_text :: "(dlq_entry \<Rightarrow> string) \<Rightarrow> dlq_entry list \<Rightarrow> string" where
  "lines_text enc es = concat (map (\<lambda>e. enc e @ [newline]) es)"

lemma enqueue_all_text:
  "enqueue_all enc es (TextFile s) = TextFile (s @ lines_text enc es)"
  by (induction es arbitrary: s)
    (simp_all add: lines_text_def enqueue_def append_line_def ensure_regular_file_def file_text_def)

lemma enqueue_all_new:
  "es \<noteq> [] \<Longrightarrow> enqueue_all enc es NoFile = TextFile (lines_text enc es)"
  by (cases es)
    (simp_all add: enqueue_all_text lines_text_def enqueue_def append_line_def ensure_regular_file_def file_text_def)

lemma split_char_line: "c \<notin> set x \<Longrightarrow> split_char c (x @ c # y) = x # split_char c y"
  by (induction x) auto

lemma split_char_last: "c \<notin> set x \<Longrightarrow> split_char c x = [x]"
  by (induction x) auto

lemma object_trimmed:
  "x \<noteq> [] \<Longrightarrow> hd x = CHR ''{'' \<Longrightarrow> last x = CHR ''}'' \<Longrightarrow> trim_space x = x"
  by (rule trim_space_printable) (simp_all add: printable_def)

lemma trim_final_newline:
  assumes "x \<noteq> []" and "hd x = CHR ''{''" and "last x = CHR ''}''"
  shows "trim_space (x @ [newline]) = x"
proof -
  have "trim_left (x @ [newline]) = x @ [newline]"
    unfolding trim_left_def
    by (rule strip_front_done, rule leading_rune_printable(1)) (use assms in \<open>simp add: printable_def\<close>)
  moreover have "leading_rune (map rev go_spaces) (newline # rev x) = 1"
    by (simp add: go_spaces_def newline_def)
  then have "strip_front (map rev go_spaces) (newline # rev x) = strip_front (map rev go_spaces) (rev x)"
    by (subst strip_front.simps) simp
  moreover have "strip_front (map rev go_spaces) (rev x) = rev x"
    by (rule strip_front_done, rule leading_rune_printable(2))
      (use assms in \<open>simp add: hd_rev printable_def\<close>)
  ultimately show ?thesis by (simp add: trim_space_def trim_right_def)
qed

lemma lines_split:
  "es \<noteq> [] \<Longrightarrow> list_all (codec_ok enc dec) es \<Longrightarrow>
   split_char newline (butlast (lines_text enc es)) = map enc es"
proof (induction es)
  case (Cons e es)
  show ?case
  proof (cases "es = []")
    case True
    with Cons.prems show ?thesis by (simp add: lines_text_def codec_ok_def split_char_last butlast_append)
  next
    case False
    then have "lines_text enc es \<noteq> []" by (cases es) (simp_all add: lines_text_def)
    with False Cons show ?thesis
      by (simp add: lines_text_def codec_ok_def butlast_append split_char_line)
  qed
qed simp

lemma decode_encoded:
  "list_all (codec_ok enc dec) es \<Longrightarrow> decode_lines dec (map enc es) = Inr es"
  by (induction es) (simp_all add: codec_ok_def object_trimmed)

lemma lines_ends:
  assumes "es \<noteq> []" and "list_all (codec_ok enc dec) es"
  shows "butlast (lines_text enc es) \<noteq> [] \<and> hd (butlast (lines_text enc es)) = CHR ''{'' \<and>
    last (butlast (lines_text enc es)) = CHR ''}'' \<and>
    lines_text enc es = butlast (lines_text enc es) @ [newline]"
  using assms
proof (induction es)
  case (Cons e es)
  then have e: "enc e \<noteq> []" "hd (enc e) = CHR ''{''" "last (enc e) = CHR ''}''" by (auto simp: codec_ok_def)
  show ?case
  proof (cases "es = []")
    case True
    with e show ?thesis by (simp add: lines_text_def butlast_append)
  next
    case False
    with Cons have ih: "butlast (lines_text enc es) \<noteq> []"
      "last (butlast (lines_text enc es)) = CHR ''}''"
      "lines_text enc es = butlast (lines_text enc es) @ [newline]" by auto
    have eq: "lines_text enc (e # es) = enc e @ newline # lines_text enc es" by (simp add: lines_text_def)
    have ne: "lines_text enc es \<noteq> []" using ih(3) by auto
    then have "butlast (lines_text enc (e # es)) = enc e @ newline # butlast (lines_text enc es)"
      by (simp add: eq butlast_append)
    with e ih ne eq show ?thesis by (metis append_Cons append_is_Nil_conv hd_append2 last.simps last_append append_assoc)
  qed
qed simp

text \<open>
  The dead letter queue loses nothing: entries put into a new queue, in any number, are read
  back as they were and in the order they were put in.
\<close>
theorem dlq_round_trip:
  assumes "list_all (codec_ok enc dec) es"
  shows "read_all dec (enqueue_all enc es NoFile) = Inr es"
proof (cases "es = []")
  case True
  then show ?thesis by (simp add: read_all_def)
next
  case False
  let ?b = "butlast (lines_text enc es)"
  have b: "?b \<noteq> []" "hd ?b = CHR ''{''" "last ?b = CHR ''}''" "lines_text enc es = ?b @ [newline]"
    using lines_ends [OF False assms] by auto
  have "trim_space (lines_text enc es) = ?b"
    by (subst b(4)) (rule trim_final_newline [OF b(1-3)])
  moreover have "split_char newline ?b = map enc es" by (rule lines_split [OF False assms])
  moreover have "map enc es \<noteq> [[]]" using assms by (auto simp: codec_ok_def)
  ultimately show ?thesis
    using decode_encoded [OF assms] by (simp add: enqueue_all_new [OF False] read_all_def)
qed

definition demo_entry :: "string \<Rightarrow> dlq_entry" where
  "demo_entry i = \<lparr>dq_system = ''jira'', dq_change_id = i, dq_payload_hash = ''abc'',
     dq_reasons = [reason_dlq, reason_rate_limited], dq_attempts = 3, dq_occurred_at = ''2026-09-15T10:00:00Z''\<rparr>"

definition demo_encode :: "dlq_entry \<Rightarrow> string" where
  "demo_encode e = ''{'' @ dq_change_id e @ ''}''"

definition demo_decode :: "string \<Rightarrow> dlq_entry option" where
  "demo_decode s = (if s = [] \<or> last s \<noteq> CHR ''}'' \<or> CHR ''{'' \<in> set (tl s) then None else Some (demo_entry (butlast (tl s))))"

lemma demo_codec: "list_all (codec_ok demo_encode demo_decode) [demo_entry ''CHG-1'', demo_entry ''CHG-2'']"
  by code_simp

lemma dlq_round_trip_witness:
  "read_all demo_decode (enqueue_all demo_encode [demo_entry ''CHG-1'', demo_entry ''CHG-2''] NoFile) =
     Inr [demo_entry ''CHG-1'', demo_entry ''CHG-2'']"
  by (rule dlq_round_trip [OF demo_codec])

text \<open>A write that stops in the middle of a line makes every entry of the queue unreadable.\<close>
lemma torn_line_loses_queue:
  "read_all demo_decode (enqueue_all demo_encode [demo_entry ''CHG-2'']
     (fst (enqueue demo_encode (Some (WriteStops 3)) (demo_entry ''CHG-9'')
       (enqueue_all demo_encode [demo_entry ''CHG-1''] NoFile)))) =
   Inl DecodeLine"
  by code_simp

section \<open>Nothing is dropped\<close>

lemma append_line_ok:
  assumes "append_line fault payload f = (f', None)"
  shows "f' = TextFile (file_text f @ payload @ [newline])"
  using assms by (auto simp: append_line_def Let_def split: option.splits line_fault.splits)

lemma unique_sorted_seen_mem: "trim_space x = x \<Longrightarrow> x \<noteq> [] \<Longrightarrow> x \<in> set xs \<Longrightarrow> x \<in> set (unique_sorted_seen xs)"
  by (force simp: unique_sorted_seen_def)

lemma reason_dlq_listed: "reason_dlq \<in> set (unique_sorted_seen (xs @ [reason_dlq]))"
  by (rule unique_sorted_seen_mem) (simp_all add: reason_dlq_def trim_space_printable printable_def)

lemma settle_ticket_queue:
  assumes "settle_ticket lib rlib enc fault env st (Some path) req out w = (w', Inr r)"
  shows "tk_status r = ''attached'' \<and> tw_queue w' = tw_queue w \<or>
    tk_status r = ''dlq'' \<and> reason_dlq \<in> set (tk_reasons r) \<and> tk_dlq_path r = path \<and>
    tw_queue w' = TextFile (file_text (tw_queue w) @ enc \<lparr>dq_system = tk_system r, dq_change_id = tk_change_id r,
      dq_payload_hash = tr_payload_hash req, dq_reasons = tk_reasons r, dq_attempts = tk_attempts r,
      dq_occurred_at = tk_occurred_at r\<rparr> @ [newline])"
proof (cases "lo_attached out")
  case True
  with assms show ?thesis by (auto simp: settle_ticket_def Let_def split: prod.splits sum.splits)
next
  case False
  define e where "e = ticket_entry req (ticket_system env req) out (truncate_second (te_completed env))"
  obtain f where f: "enqueue enc fault e (tw_queue w) = (f, None)"
    using assms False
    by (cases "enqueue enc fault e (tw_queue w)") (auto simp: settle_ticket_def Let_def e_def split: option.splits)
  then have "f = TextFile (file_text (tw_queue w) @ enc e @ [newline])"
    unfolding enqueue_def by (rule append_line_ok)
  with assms False f show ?thesis
    by (auto simp: settle_ticket_def Let_def e_def [symmetric] reason_dlq_listed split: prod.splits sum.splits)
      (simp_all add: e_def ticket_entry_def)
qed

text \<open>
  C33: a ticket is attached or queued, never dropped: when processing returns a result and there is
  a queue, the result says attached, or it says dlq and the queue has grown by one line, the entry
  with the system, change, reasons, attempts and time of the result.
\<close>
theorem unattached_is_queued:
  assumes "process lib rlib enc fault env (Some st) (Some path) req s w = Some (w', Inr r)"
  shows "tk_status r = ''attached'' \<and> tw_queue w' = tw_queue w \<or>
    tk_status r = ''dlq'' \<and> reason_dlq \<in> set (tk_reasons r) \<and> tk_dlq_path r = path \<and>
    tw_queue w' = TextFile (file_text (tw_queue w) @ enc \<lparr>dq_system = tk_system r, dq_change_id = tk_change_id r,
      dq_payload_hash = tr_payload_hash req, dq_reasons = tk_reasons r, dq_attempts = tk_attempts r,
      dq_occurred_at = tk_occurred_at r\<rparr> @ [newline])"
  using assms
  by (auto simp: process_def split: if_splits option.splits sum.splits dest!: settle_ticket_queue)

definition demo_ticket_env :: "scripted ticket_env" where
  "demo_ticket_env = \<lparr>te_adapter = True, te_name = ''jira'', te_attach = scripted_attach, te_cancelled = (\<lambda>_. False),
     te_interrupted = (\<lambda>_. False), te_sleep = None, te_backoff = None, te_max = 2, te_started = 5, te_completed = 5,
     te_store_clock = 7\<rparr>"

definition demo_ticket :: ticket_request where
  "demo_ticket = \<lparr>tr_system = [], tr_change_id = ''CHG-1'', tr_payload_hash = ''abc'', tr_opened_at = 0, tr_sla = 0,
     tr_source = [], tr_agent_id = []\<rparr>"

definition demo_ticket_lib :: record_lib where
  "demo_ticket_lib = \<lparr>rb_hash = (\<lambda>_. None), rb_schema_ok = (\<lambda>_. True),
     rb_new = (\<lambda>v. Some ((demo_record (op_record_type v))\<lparr>pr_event := op_event v\<rparr>))\<rparr>"

definition demo_processed :: "(ticket_world \<times> (ticket_error, ticket_result) result) option" where
  "demo_processed = process demo_lib demo_ticket_lib demo_encode None demo_ticket_env (Some demo_store)
     (Some ''q.jsonl'') demo_ticket (new_scripted [429, 503]) \<lparr>tw_disk = demo_disk, tw_queue = NoFile\<rparr>"

definition demo_ticket_result :: ticket_result where
  "demo_ticket_result = \<lparr>tk_system = ''jira'', tk_change_id = ''CHG-1'', tk_status = ''dlq'', tk_attempts = 2,
     tk_reasons = [reason_dlq, reason_rate_limited, reason_remote], tk_dlq_path = ''q.jsonl'', tk_sla_within = True,
     tk_occurred_at = format_rfc3339 0, tk_record_id = ''policy_enforcement''\<rparr>"

lemma demo_processed_result: "map_option snd demo_processed = Some (Inr demo_ticket_result)"
  by code_simp

lemma unattached_is_queued_witness:
  "\<exists>w. demo_processed = Some (w, Inr demo_ticket_result) \<and>
     tw_queue w = TextFile (demo_encode (demo_entry ''CHG-1'') @ [newline])"
proof -
  obtain w where w: "demo_processed = Some (w, Inr demo_ticket_result)"
    using demo_processed_result by auto
  then have "process demo_lib demo_ticket_lib demo_encode None demo_ticket_env (Some demo_store)
     (Some ''q.jsonl'') demo_ticket (new_scripted [429, 503]) \<lparr>tw_disk = demo_disk, tw_queue = NoFile\<rparr> =
     Some (w, Inr demo_ticket_result)" by (simp add: demo_processed_def)
  from unattached_is_queued [OF this] have "tw_queue w = TextFile (demo_encode (demo_entry ''CHG-1'') @ [newline])"
    by (simp add: demo_ticket_result_def file_text_def demo_encode_def demo_entry_def)
  with w show ?thesis by blast
qed

end
