(* ===== verification/Operator.thy ===== *)
theory Operator
  imports Ticket Receipt
begin

text \<open>
  What an operator adds to the evidence: overrides (\<open>core/override\<close>), which leave a record in the
  store and a line in an artifact file, and replay certifications (\<open>core/replay\<close>). The clocks, the
  key a new store would generate and the faults of the file system are arguments; \<open>enc\<close> is
  \<open>json.Marshal\<close> of an object.
\<close>

section \<open>Overrides\<close>

record override_request =
  or_bundle :: string
  or_reason :: string
  or_signer :: string
  or_store_dir :: string
  or_expires_at :: instant
  or_now :: instant

record override_result =
  ov_record_id :: string
  ov_bundle :: string
  ov_signer :: string
  ov_reason :: string
  ov_expires_at :: string
  ov_artifact_path :: string
  ov_head_hash :: string
  ov_record_count :: nat

datatype operator_error = OperatorError string string

definition local_store_dir :: "string \<Rightarrow> string" where
  "local_store_dir s = (if trim_space s = [] then ''.axym'' else trim_space s)"

definition local_config :: "string \<Rightarrow> config" where
  \<comment> \<open>\<open>store.Config{RootDir: storeDir, ComplianceMode: true}\<close>\<close>
  "local_config dir = \<lparr>cfg_root_dir = dir, cfg_chain_id = [], cfg_compliance_mode = True, cfg_dedupe_ttl = 0,
     cfg_dedupe_max = 0\<rparr>"

definition override_now :: "override_request \<Rightarrow> instant" where
  "override_now req = truncate_second (or_now req)"

definition override_expiry :: "override_request \<Rightarrow> instant" where
  "override_expiry req =
     (let e = truncate_second (or_expires_at req) in if is_zero_time e then override_now req + 24 * hour_ns else e)"

definition override_opts :: "override_request \<Rightarrow> record_opts" where
  "override_opts req =
     (let bundle = trim_space (or_bundle req); reason = trim_space (or_reason req); signer = trim_space (or_signer req) in
      \<lparr>op_source = ''axym-override'', op_source_product = ''axym'', op_agent_id = [], op_record_type = ''approval'',
       op_timestamp = override_now req,
       op_event = Some [(''kind'', VStr ''override''), (''bundle'', VStr bundle), (''reason'', VStr reason),
         (''signer'', VStr signer), (''expires_at'', VStr (format_rfc3339 (override_expiry req))),
         (''status'', VStr ''approved''), (''decision'', VStr ''allow'')],
       op_metadata = Some [(''override'', VBool True), (''bundle'', VStr bundle), (''signer'', VStr signer),
         (''reason_codes'', VStrs [''OVERRIDE_APPROVED''])],
       op_relationship = None, op_permissions = True, op_scope = ''override:'' @ bundle\<rparr>)"

definition override_artifact :: "override_request \<Rightarrow> proof_record \<Rightarrow> gobj" where
  "override_artifact req r =
     [(''record_id'', VStr (pr_record_id r)), (''bundle'', VStr (trim_space (or_bundle req))),
      (''reason'', VStr (trim_space (or_reason req))), (''signer'', VStr (trim_space (or_signer req))),
      (''expires_at'', VStr (format_rfc3339 (override_expiry req))),
      (''timestamp'', VStr (format_rfc3339 (override_now req))), (''record_hash'', VStr (pr_record_hash r)),
      (''previous_record_hash'', VStr (pr_previous_hash r))]"

definition append_artifact :: "bool \<Rightarrow> line_fault option \<Rightarrow> string \<Rightarrow> line_file \<Rightarrow> line_file \<times> bool" where
  \<comment> \<open>\<open>appendLine\<close>; \<open>made\<close> is whether the directory could be made\<close>
  "append_artifact made fault payload f =
     (if \<not> made then (f, False)
      else case append_line fault payload f of (f', err) \<Rightarrow> (f', err = None))"

record operator_world =
  ow_disk :: disk
  ow_overrides :: line_file

record operator_env =
  oe_generated :: "signing_key option"
  oe_ignore_dir_sync :: bool
  oe_store_clock :: instant
  oe_dir_made :: bool
  oe_line_fault :: "line_fault option"

definition override_failed :: "string \<Rightarrow> operator_error" where
  "override_failed msg = OperatorError ''OVERRIDE_APPEND_FAILED'' msg"

definition store_override ::
  "proof_lib \<Rightarrow> (gobj \<Rightarrow> string) \<Rightarrow> operator_env \<Rightarrow> override_request \<Rightarrow> store \<Rightarrow> proof_record \<Rightarrow> operator_world \<Rightarrow>
   operator_world \<times> (operator_error, override_result) result" where
  \<comment> \<open>\<open>Create\<close> from the dedupe key on\<close>
  "store_override lib enc env req st rec w =
     (case record_dedupe_key lib rec of
        None \<Rightarrow> (w, Inl (override_failed ''build override dedupe key''))
      | Some key \<Rightarrow>
         (case append_public lib st (oe_store_clock env) (Some rec) key (ow_disk w) of
            (d, Inl _) \<Rightarrow> (w\<lparr>ow_disk := d\<rparr>, Inl (override_failed ''append override proof record''))
          | (d, Inr a) \<Rightarrow>
             (let (f, ok) = (if ar_appended a
                  then append_artifact (oe_dir_made env) (oe_line_fault env) (enc (override_artifact req rec)) (ow_overrides w)
                  else (ow_overrides w, True));
                  w' = w\<lparr>ow_disk := d, ow_overrides := f\<rparr>
              in if \<not> ok then (w', Inl (override_failed ''persist override artifact''))
                 else (w', Inr \<lparr>ov_record_id = ar_record_id a, ov_bundle = trim_space (or_bundle req),
                     ov_signer = trim_space (or_signer req), ov_reason = trim_space (or_reason req),
                     ov_expires_at = format_rfc3339 (override_expiry req),
                     ov_artifact_path = join_path [local_store_dir (or_store_dir req), ''overrides'', ''overrides.jsonl''],
                     ov_head_hash = ar_head_hash a, ov_record_count = ar_record_count a\<rparr>))))"

definition create_override ::
  "proof_lib \<Rightarrow> record_lib \<Rightarrow> (gobj \<Rightarrow> string) \<Rightarrow> operator_env \<Rightarrow> override_request \<Rightarrow> operator_world \<Rightarrow>
   operator_world \<times> (operator_error, override_result) result" where
  "create_override lib rlib enc env req w =
     (if trim_space (or_bundle req) = [] \<or> trim_space (or_reason req) = [] \<or> trim_space (or_signer req) = []
      then (w, Inl (OperatorError ''OVERRIDE_INVALID_INPUT'' ''bundle, reason, and signer are required''))
      else if \<not> override_expiry req > override_now req
      then (w, Inl (OperatorError ''OVERRIDE_INVALID_INPUT'' ''expires_at must be in the future''))
      else case open_store (oe_generated env) (oe_ignore_dir_sync env) (local_config (local_store_dir (or_store_dir req)))
             False (ow_disk w) of
        (d, Inl _) \<Rightarrow> (w\<lparr>ow_disk := d\<rparr>, Inl (override_failed ''initialize local store''))
      | (d, Inr st) \<Rightarrow>
         (case rb_new rlib (override_opts req) of
            None \<Rightarrow> (w\<lparr>ow_disk := d\<rparr>, Inl (override_failed ''build override proof record''))
          | Some rec \<Rightarrow> store_override lib enc env req st rec (w\<lparr>ow_disk := d\<rparr>)))"

section \<open>Replays\<close>

record risk_input =
  ri_critical :: bool
  ri_sensitivity :: string
  ri_exposed :: bool

record replay_request =
  rq_model :: string
  rq_tier :: string
  rq_store_dir :: string
  rq_source :: string
  rq_agent_id :: string
  rq_risk :: risk_input
  rq_now :: instant

record replay_result =
  rp_record_id :: string
  rp_model :: string
  rp_tier :: string
  rp_status :: string
  rp_pass :: bool
  rp_blast_radius :: gobj
  rp_head_hash :: string
  rp_record_count :: nat
  rp_occurred_at :: string
  rp_reasons :: "string list"

definition classify_tier :: "risk_input \<Rightarrow> string" where
  "classify_tier i =
     (let s = to_lower (trim_space (ri_sensitivity i)) in
      if ri_critical i \<and> (s = ''high'' \<or> ri_exposed i) then ''A''
      else if ri_critical i \<or> s = ''medium'' \<or> ri_exposed i then ''B'' else ''C'')"

definition blast_summary :: "string \<Rightarrow> gobj" where
  "blast_summary tier =
     (if tier = ''A'' then [(''systems'', VInt 8), (''control_domains'', VInt 5), (''description'', VStr ''organization-wide'')]
      else if tier = ''B'' then [(''systems'', VInt 3), (''control_domains'', VInt 3), (''description'', VStr ''service-boundary'')]
      else [(''systems'', VInt 1), (''control_domains'', VInt 1), (''description'', VStr ''component-local'')])"

definition replay_source :: "string \<Rightarrow> string" where
  "replay_source s = (if trim_space s = [] then ''axym-replay'' else trim_space s)"

definition replay_tier :: "replay_request \<Rightarrow> string" where
  "replay_tier req = (let t = to_upper (trim_space (rq_tier req)) in if t = [] then classify_tier (rq_risk req) else t)"

definition replay_dedupe_event :: "gmap \<Rightarrow> instant \<Rightarrow> gmap" where
  "replay_dedupe_event event started =
     Some (AList.update ''run_identity'' (VStr (format_rfc3339_nano started)) (case event of None \<Rightarrow> [] | Some kvs \<Rightarrow> kvs))"

definition replay_opts :: "replay_request \<Rightarrow> record_opts" where
  "replay_opts req =
     \<lparr>op_source = replay_source (rq_source req), op_source_product = ''axym'', op_agent_id = trim_space (rq_agent_id req),
      op_record_type = ''replay_certification'', op_timestamp = truncate_second (rq_now req),
      op_event = Some [(''model'', VStr (trim_space (rq_model req))), (''tier'', VStr (replay_tier req)),
        (''status'', VStr ''certified''), (''pass'', VBool True), (''blast_radius'', VObj (blast_summary (replay_tier req)))],
      op_metadata = Some [(''reason_codes'', VStrs [''REPLAY_CERTIFIED''])],
      op_relationship = None, op_permissions = True, op_scope = ''replay:'' @ trim_space (rq_model req)\<rparr>"

definition replay_failed :: "string \<Rightarrow> operator_error" where
  "replay_failed msg = OperatorError ''REPLAY_APPEND_FAILED'' msg"

definition run_replay ::
  "proof_lib \<Rightarrow> record_lib \<Rightarrow> operator_env \<Rightarrow> replay_request \<Rightarrow> disk \<Rightarrow>
   disk \<times> (operator_error, replay_result) result" where
  "run_replay lib rlib env req d0 =
     (let tier = replay_tier req in
      if trim_space (rq_model req) = [] then (d0, Inl (OperatorError ''REPLAY_INVALID_INPUT'' ''model is required''))
      else if tier \<notin> {''A'', ''B'', ''C''}
      then (d0, Inl (OperatorError ''REPLAY_INVALID_INPUT'' ''tier must be one of A,B,C''))
      else case open_store (oe_generated env) (oe_ignore_dir_sync env) (local_config (local_store_dir (rq_store_dir req)))
             False d0 of
        (d, Inl _) \<Rightarrow> (d, Inl (replay_failed ''initialize local store''))
      | (d, Inr st) \<Rightarrow>
         (case rb_new rlib (replay_opts req) of
            None \<Rightarrow> (d, Inl (replay_failed ''build replay record''))
          | Some rec \<Rightarrow>
             (case build_key lib (pr_source_product rec) (pr_record_type rec)
                     (replay_dedupe_event (pr_event rec) (rq_now req)) of
                None \<Rightarrow> (d, Inl (replay_failed ''build replay dedupe key''))
              | Some key \<Rightarrow>
                 (case append_public lib st (oe_store_clock env) (Some rec) key d of
                    (d', Inl _) \<Rightarrow> (d', Inl (replay_failed ''append replay record''))
                  | (d', Inr a) \<Rightarrow> (d', Inr \<lparr>rp_record_id = ar_record_id a, rp_model = trim_space (rq_model req),
                      rp_tier = tier, rp_status = ''certified'', rp_pass = True, rp_blast_radius = blast_summary tier,
                      rp_head_hash = ar_head_hash a, rp_record_count = ar_record_count a,
                      rp_occurred_at = format_rfc3339 (truncate_second (rq_now req)),
                      rp_reasons = [''REPLAY_CERTIFIED'']\<rparr>)))))"

section \<open>What an override leaves behind\<close>

lemma next_fault_keeps:
  "next_fault d = (x, d') \<Longrightarrow> dk_chain d' = dk_chain d \<and> dk_dedupe d' = dk_dedupe d"
  by (auto simp: next_fault_def split: list.splits)

lemma open_store_frame:
  "dk_chain (fst (open_store g ign cfg ro d)) = dk_chain d" "dk_dedupe (fst (open_store g ign cfg ro d)) = dk_dedupe d"
  by (auto simp: open_store_def ensure_signing_key_def Let_def split: option.splits sum.splits prod.splits
      dest: next_fault_keeps)

lemma append_artifact_ok:
  assumes "append_artifact made fault payload f = (f', True)"
  shows "f' = TextFile (file_text f @ payload @ [newline])"
  using assms
  by (auto simp: append_artifact_def append_line_def Let_def split: if_splits option.splits line_fault.splits)

lemma append_public_frame:
  assumes "lib_laws lib" and "record_dedupe_key lib r = Some key" and "append_public lib st clock (Some r) key d = (d', Inr a)"
  shows "(ar_appended a \<longrightarrow> (\<exists>c c'. load_chain st d = Inr c \<and> extends lib c key c' \<and> dk_chain d' = Content c')) \<and>
    (\<not> ar_appended a \<longrightarrow> d' = d)"
proof -
  have "append_locked lib st clock r key None d = (d', Inr a)"
    using assms(3) by (auto simp: append_public_def append_record_def split: if_splits)
  from append_locked_frame [OF assms(1,2) this] show ?thesis by blast
qed

lemma store_override_ok:
  assumes "lib_laws lib" and "store_override lib enc env req st rec w = (w', Inr r)"
  shows "\<exists>key. record_dedupe_key lib rec = Some key \<and>
    ((\<exists>c c'. load_chain st (ow_disk w) = Inr c \<and> extends lib c key c' \<and> dk_chain (ow_disk w') = Content c' \<and>
        ow_overrides w' = TextFile (file_text (ow_overrides w) @ enc (override_artifact req rec) @ [newline])) \<or>
     w' = w)"
proof -
  obtain key where key: "record_dedupe_key lib rec = Some key"
    using assms(2) by (cases "record_dedupe_key lib rec") (auto simp: store_override_def)
  obtain d a where ap: "append_public lib st (oe_store_clock env) (Some rec) key (ow_disk w) = (d, Inr a)"
    using assms(2) key
    by (cases "append_public lib st (oe_store_clock env) (Some rec) key (ow_disk w)")
      (auto simp: store_override_def split: sum.splits)
  note frame = append_public_frame [OF assms(1) key ap]
  show ?thesis
  proof (cases "ar_appended a")
    case True
    obtain f ok where f: "append_artifact (oe_dir_made env) (oe_line_fault env) (enc (override_artifact req rec))
        (ow_overrides w) = (f, ok)" by fastforce
    have ok: "ok" and w': "w' = w\<lparr>ow_disk := d, ow_overrides := f\<rparr>"
      using assms(2) key ap True f by (auto simp: store_override_def Let_def split: if_splits)
    with append_artifact_ok [of _ _ _ _ f] f frame True key show ?thesis by auto
  next
    case False
    with assms(2) key ap frame have "w' = w" by (auto simp: store_override_def Let_def)
    with key show ?thesis by blast
  qed
qed


definition demo_override_lib :: record_lib where
  "demo_override_lib = \<lparr>rb_hash = (\<lambda>_. None), rb_schema_ok = (\<lambda>_. True),
     rb_new = (\<lambda>v. Some ((demo_record (op_record_type v))\<lparr>pr_event := op_event v, pr_record_hash := ''as built''\<rparr>))\<rparr>"

definition demo_operator_env :: operator_env where
  "demo_operator_env = \<lparr>oe_generated = None, oe_ignore_dir_sync = False, oe_store_clock = 7, oe_dir_made = True,
     oe_line_fault = None\<rparr>"

definition demo_override :: override_request where
  "demo_override = \<lparr>or_bundle = ''b1'', or_reason = ''hotfix'', or_signer = ''ops'', or_store_dir = [],
     or_expires_at = 9000000000, or_now = 5000000000\<rparr>"

definition demo_world :: operator_world where
  "demo_world = \<lparr>ow_disk = demo_disk, ow_overrides = NoFile\<rparr>"

definition demo_artifact_text :: "gobj \<Rightarrow> string" where
  "demo_artifact_text j = str_or_empty (as_string (map_of j ''record_hash''))"

definition demo_overridden :: "operator_world \<times> (operator_error, override_result) result" where
  "demo_overridden = create_override demo_lib demo_override_lib demo_artifact_text demo_operator_env demo_override demo_world"

lemma demo_override_succeeds: "\<exists>r. demo_overridden = (fst demo_overridden, Inr r)"
proof -
  have "\<not> isl (snd demo_overridden)" by code_simp
  then obtain r where "snd demo_overridden = Inr r" by (cases "snd demo_overridden") auto
  then show ?thesis by (metis prod.collapse)
qed


text \<open>
  The line names the hash of the record as it was built, not of the record the chain holds, and a
  line that could not be written is never written: the repeated override is a duplicate.
\<close>
lemma artifact_hash_is_not_the_stored_one:
  "ow_overrides (fst demo_overridden) = TextFile (''as built'' @ [newline])"
  "dk_chain (ow_disk (fst demo_overridden)) \<noteq> Missing"
  "list_all (\<lambda>r. pr_record_hash r \<noteq> ''as built'') (records_of (ow_disk (fst demo_overridden)))"
  by code_simp+

definition failed_override :: "operator_world \<times> (operator_error, override_result) result" where
  "failed_override = create_override demo_lib demo_override_lib demo_artifact_text
     (demo_operator_env\<lparr>oe_line_fault := Some OpenFails\<rparr>) demo_override demo_world"

definition repeated_override :: "operator_world \<times> (operator_error, override_result) result" where
  "repeated_override = create_override demo_lib demo_override_lib demo_artifact_text demo_operator_env demo_override
     (fst failed_override)"

lemma failed_artifact_never_written:
  "snd failed_override = Inl (override_failed ''persist override artifact'')"
  "\<not> isl (snd repeated_override)"
  "ow_overrides (fst repeated_override) = NoFile"
  by code_simp+

section \<open>Tiers\<close>

lemma classify_tier_range: "classify_tier i \<in> {''A'', ''B'', ''C''}"
  by (simp add: classify_tier_def Let_def)

text \<open>High sensitivity on its own is classified lower than medium sensitivity.\<close>
lemma high_sensitivity_below_medium:
  "classify_tier \<lparr>ri_critical = False, ri_sensitivity = ''high'', ri_exposed = False\<rparr> = ''C''"
  "classify_tier \<lparr>ri_critical = False, ri_sensitivity = ''medium'', ri_exposed = False\<rparr> = ''B''"
  by code_simp+

end
