(* ===== verification/Policy.thy ===== *)
theory Policy
  imports GoValue
begin

text \<open>
  The small decision procedures: freeze windows (\<open>core/policy/freeze\<close>), failing sinks
  (\<open>core/policy/sink\<close>), separation of duties (\<open>core/policy/sod\<close>), session gaps
  (\<open>core/ingest/stitch\<close>, \<open>core/review/sessiongap\<close>), privilege drift
  (\<open>core/review/privilegedrift\<close>) and the managed output directory (\<open>core/export/safety\<close>).
\<close>

section \<open>Freeze windows\<close>

record window =
  wi_start :: instant
  wi_end :: instant

record decision =
  dc_pass :: bool
  dc_reasons :: "string list"

definition window_covers :: "instant \<Rightarrow> window \<Rightarrow> bool" where
  "window_covers t w \<longleftrightarrow> t = wi_start w \<or> t = wi_end w \<or> (t > wi_start w \<and> t < wi_end w)"

definition freeze_evaluate :: "instant \<Rightarrow> window list \<Rightarrow> decision" where
  "freeze_evaluate t ws =
     (if list_ex (window_covers t) ws then \<lparr>dc_pass = False, dc_reasons = [''FREEZE_WINDOW'']\<rparr>
      else \<lparr>dc_pass = True, dc_reasons = []\<rparr>)"

section \<open>Sinks\<close>

datatype sink_mode = FailClosed | AdvisoryOnly | Shadow

record sink_decision =
  sd_allow :: bool
  sd_degraded :: bool
  sd_reason :: string
  sd_message :: string

definition normalize_mode :: "string \<Rightarrow> sink_mode" where
  "normalize_mode m =
     (let s = to_lower (trim_space m) in
      if s = ''advisory_only'' then AdvisoryOnly else if s = ''shadow'' then Shadow else FailClosed)"

definition on_sink_failure :: "string \<Rightarrow> string option \<Rightarrow> sink_decision" where
  \<comment> \<open>the error by its message\<close>
  "on_sink_failure mode err =
     (case err of
        None \<Rightarrow> \<lparr>sd_allow = True, sd_degraded = False, sd_reason = [], sd_message = []\<rparr>
      | Some msg \<Rightarrow>
          (let soft = normalize_mode mode \<noteq> FailClosed
           in \<lparr>sd_allow = soft, sd_degraded = soft, sd_reason = ''SINK_UNAVAILABLE'', sd_message = msg\<rparr>))"

section \<open>Separation of duties\<close>

record sod_input =
  du_requestor :: string
  du_approver :: string
  du_deployer :: string

definition sod_evaluate :: "sod_input \<Rightarrow> decision" where
  "sod_evaluate i =
     (let requestor = trim_space (to_lower (du_requestor i));
          deployer = trim_space (to_lower (du_deployer i));
          approver = trim_space (to_lower (du_approver i));
          reasons = (if requestor = [] \<or> deployer = [] \<or> approver = [] then [''SOD_MISSING_ACTOR''] else []) @
            (if requestor \<noteq> [] \<and> deployer \<noteq> [] \<and> requestor = deployer then [''SOD_REQUESTOR_DEPLOYER''] else [])
      in \<lparr>dc_pass = (reasons = []), dc_reasons = reasons\<rparr>)"

lemma sink_allows_iff:
  "sd_allow (on_sink_failure mode err) \<longleftrightarrow>
     err = None \<or> to_lower (trim_space mode) \<in> {''advisory_only'', ''shadow''}"
  by (auto simp: on_sink_failure_def normalize_mode_def Let_def split: option.splits)

lemma sod_passes_iff:
  "dc_pass (sod_evaluate i) \<longleftrightarrow>
     [] \<notin> (trim_space \<circ> to_lower) ` {du_requestor i, du_approver i, du_deployer i} \<and>
     trim_space (to_lower (du_requestor i)) \<noteq> trim_space (to_lower (du_deployer i))"
  by (auto simp: sod_evaluate_def Let_def)

section \<open>Session gaps\<close>

record session_gap =
  sx_reason :: string
  sx_from :: string
  sx_to :: string
  sx_gap_start :: string
  sx_gap_end :: string
  sx_missing :: int
  sx_trigger :: string

definition session_string :: "(gvalue \<Rightarrow> string) \<Rightarrow> gmap \<Rightarrow> string \<Rightarrow> string" where
  \<comment> \<open>\<open>stringFromMap\<close>; \<open>fmt\<close> is \<open>Sprintf("%v")\<close>\<close>
  "session_string fmt m k =
     (case mget m k of None \<Rightarrow> [] | Some (VStr s) \<Rightarrow> trim_space s | Some v \<Rightarrow> fmt v)"

definition session_id :: "(gvalue \<Rightarrow> string) \<Rightarrow> proof_record \<Rightarrow> string" where
  "session_id fmt r =
     (if session_string fmt (pr_metadata r) ''session_id'' \<noteq> [] then session_string fmt (pr_metadata r) ''session_id''
      else if session_string fmt (pr_event r) ''session_id'' \<noteq> [] then session_string fmt (pr_event r) ''session_id''
      else ''unknown'')"

definition has_checkpoint :: "(gvalue \<Rightarrow> string) \<Rightarrow> proof_record \<Rightarrow> bool" where
  "has_checkpoint fmt r \<longleftrightarrow>
     map_bool (pr_event r) ''checkpoint'' = Some True \<or> session_string fmt (pr_event r) ''checkpoint_id'' \<noteq> []"

definition boundary_trigger :: "(gvalue \<Rightarrow> string) \<Rightarrow> proof_record \<Rightarrow> proof_record \<Rightarrow> string" where
  "boundary_trigger fmt prev cur =
     (let a = session_id fmt prev; b = session_id fmt cur in
      if a \<noteq> [] \<and> b \<noteq> [] \<and> a \<noteq> b then ''session_id_change''
      else if has_checkpoint fmt prev \<or> has_checkpoint fmt cur then ''checkpoint_boundary''
      else ''timestamp_discontinuity'')"

definition gap_between :: "(gvalue \<Rightarrow> string) \<Rightarrow> duration \<Rightarrow> proof_record \<Rightarrow> proof_record \<Rightarrow> session_gap option" where
  \<comment> \<open>whole seconds: the float of the code is exact for gaps of up to 48 days\<close>
  "gap_between fmt max_gap prev cur =
     (let delta = time_sub (pr_timestamp cur) (pr_timestamp prev) in
      if \<not> pr_timestamp cur > pr_timestamp prev \<or> delta \<le> max_gap then None
      else Some \<lparr>sx_reason = ''CHAIN_SESSION_GAP'', sx_from = session_id fmt prev, sx_to = session_id fmt cur,
          sx_gap_start = format_rfc3339 (pr_timestamp prev), sx_gap_end = format_rfc3339 (pr_timestamp cur),
          sx_missing = delta div second_ns, sx_trigger = boundary_trigger fmt prev cur\<rparr>)"

fun session_gaps :: "(gvalue \<Rightarrow> string) \<Rightarrow> duration \<Rightarrow> proof_record list \<Rightarrow> session_gap list" where
  "session_gaps fmt max_gap (a # b # rs) =
     (case gap_between fmt max_gap a b of None \<Rightarrow> [] | Some g \<Rightarrow> [g]) @ session_gaps fmt max_gap (b # rs)"
| "session_gaps fmt max_gap rs = []"

definition session_gap_before :: "session_gap \<Rightarrow> session_gap \<Rightarrow> bool" where
  "session_gap_before a b \<longleftrightarrow>
     (if sx_gap_start a \<noteq> sx_gap_start b then sx_gap_start a < sx_gap_start b
      else if sx_gap_end a \<noteq> sx_gap_end b then sx_gap_end a < sx_gap_end b
      else sx_trigger a < sx_trigger b)"

definition effective_gap :: "duration \<Rightarrow> duration" where
  "effective_gap g = (if g \<le> 0 then 30 * minute_ns else g)"

definition stitch_analyze :: "(gvalue \<Rightarrow> string) \<Rightarrow> duration \<Rightarrow> proof_record list \<Rightarrow> bool \<times> session_gap list" where
  \<comment> \<open>\<open>Intact\<close> and \<open>Gaps\<close>\<close>
  "stitch_analyze fmt cfg rs =
     (let gaps = session_gaps fmt (effective_gap cfg) rs in (gaps = [], go_sort session_gap_before gaps))"

record signal =
  si_reason :: string
  si_status :: string
  si_auditability :: string
  si_gap_start :: string
  si_gap_end :: string
  si_missing :: int
  si_trigger :: string

definition signal_of :: "session_gap \<Rightarrow> signal" where
  "signal_of g =
     (let short = sx_missing g \<le> 5 * 60 in
      \<lparr>si_reason = sx_reason g, si_status = (if short then ''partial'' else ''gap''),
       si_auditability = (if short then ''medium'' else ''low''), si_gap_start = sx_gap_start g,
       si_gap_end = sx_gap_end g, si_missing = sx_missing g, si_trigger = sx_trigger g\<rparr>)"

definition build_signals :: "session_gap list \<Rightarrow> signal list" where
  "build_signals gaps =
     go_sort (\<lambda>a b. if si_gap_start a \<noteq> si_gap_start b then si_gap_start a < si_gap_start b
                     else si_gap_end a < si_gap_end b) (map signal_of gaps)"

section \<open>Privilege drift\<close>

record observation =
  ob_principal :: string
  ob_privilege :: string
  ob_approved :: bool
  ob_record_id :: string

record drift_gap =
  dg_status :: string
  dg_reason_class :: string
  dg_principal :: string
  dg_privilege :: string
  dg_record_id :: string

type_synonym baseline = "(string \<times> string list) list"

function go_search :: "(nat \<Rightarrow> bool) \<Rightarrow> nat \<Rightarrow> nat \<Rightarrow> nat" where
  \<comment> \<open>the loop of \<open>sort.Search\<close>\<close>
  "go_search f i j =
     (if i < j then (let h = (i + j) div 2 in if \<not> f h then go_search f (h + 1) j else go_search f i h) else i)"
  by pat_completeness auto

termination go_search
  by (relation "measure (\<lambda>(f, i, j). j - i)") auto

declare go_search.simps [simp del]

definition search_strings :: "string list \<Rightarrow> string \<Rightarrow> nat" where
  "search_strings xs x = go_search (\<lambda>i. \<not> xs ! i < x) 0 (length xs)"

definition has_privilege :: "string list \<Rightarrow> string \<Rightarrow> bool" where
  "has_privilege xs x \<longleftrightarrow> (let i = search_strings xs x in i < length xs \<and> xs ! i = x)"

definition insert_privilege :: "string list \<Rightarrow> string \<Rightarrow> string list" where
  "insert_privilege xs x =
     (let i = search_strings xs x in
      if i < length xs \<and> xs ! i = x then xs else take i xs @ x # drop i xs)"

definition clone_baseline :: "baseline \<Rightarrow> baseline" where
  "clone_baseline b = map (\<lambda>(k, ps). (k, sort ps)) b"

definition ensure_principal :: "baseline \<Rightarrow> string \<Rightarrow> baseline \<times> string list" where
  "ensure_principal b p =
     (case map_of b p of None \<Rightarrow> (AList.update p [] b, []) | Some ps \<Rightarrow> (b, ps))"

definition drift_of :: "observation \<Rightarrow> drift_gap" where
  "drift_of ob = \<lparr>dg_status = ''gap'', dg_reason_class = ''WRKR_PRIVILEGE_ESCALATION_UNAPPROVED'',
     dg_principal = ob_principal ob, dg_privilege = ob_privilege ob, dg_record_id = ob_record_id ob\<rparr>"

fun drift_loop :: "baseline \<Rightarrow> observation list \<Rightarrow> baseline \<times> drift_gap list" where
  "drift_loop b [] = (b, [])"
| "drift_loop b (ob # obs) =
     (if ob_principal ob = [] \<or> ob_privilege ob = [] then drift_loop b obs
      else case ensure_principal b (ob_principal ob) of (b1, privs) \<Rightarrow>
        if has_privilege privs (ob_privilege ob) then drift_loop b1 obs
        else let b2 = AList.update (ob_principal ob) (insert_privilege privs (ob_privilege ob)) b1;
                 (b', gaps) = drift_loop b2 obs
             in (b', if ob_approved ob then gaps else drift_of ob # gaps))"

definition drift_before :: "drift_gap \<Rightarrow> drift_gap \<Rightarrow> bool" where
  "drift_before a b \<longleftrightarrow>
     (if dg_principal a \<noteq> dg_principal b then dg_principal a < dg_principal b
      else if dg_privilege a \<noteq> dg_privilege b then dg_privilege a < dg_privilege b
      else dg_record_id a < dg_record_id b)"

definition drift_analyze :: "baseline \<Rightarrow> observation list \<Rightarrow> baseline \<times> drift_gap list" where
  "drift_analyze b obs =
     (case drift_loop (clone_baseline b) obs of (b', gaps) \<Rightarrow> (b', go_sort drift_before gaps))"

section \<open>Managed output directories\<close>

datatype entry_kind = RegularEntry | LinkEntry | DirEntry | OtherEntry

datatype path_state = PathAbsent | PathOther | PathDir "(string \<times> entry_kind) list"

datatype path_fault = InspectFails | CreateFails | ListFails | MarkerStatFails | MarkerWriteFails

definition managed_marker :: string where "managed_marker = ''.axym-managed''"

definition create_marker :: "path_fault option \<Rightarrow> (string \<times> entry_kind) list \<Rightarrow> path_state \<times> string option" where
  "create_marker fault es =
     (if fault = Some MarkerWriteFails then (PathDir es, Some ''write marker .axym-managed'')
      else (PathDir (AList.update managed_marker RegularEntry es), None))"

definition ensure_managed_output_dir ::
  "path_fault option \<Rightarrow> string \<Rightarrow> path_state \<Rightarrow> path_state \<times> string option" where
  \<comment> \<open>the state of the cleaned path and the message of the error, whose reason is always
    \<open>unsafe_operation\<close>\<close>
  "ensure_managed_output_dir fault path p =
     (if path = [] then (p, Some ''output path is required'')
      else if fault = Some InspectFails then (p, Some ''inspect output path'')
      else case p of
        PathAbsent \<Rightarrow>
          if fault = Some CreateFails then (p, Some ''create output path'') else create_marker fault []
      | PathOther \<Rightarrow> (p, Some ''output path is not a directory'')
      | PathDir es \<Rightarrow>
          if fault = Some ListFails then (p, Some ''list output path'')
          else if es = [] then create_marker fault es
          else if fault = Some MarkerStatFails then (p, Some ''inspect marker'')
          else (case map_of es managed_marker of
              None \<Rightarrow> (p, Some ''non-empty output path is unmanaged'')
            | Some RegularEntry \<Rightarrow> (p, None)
            | Some _ \<Rightarrow> (p, Some ''marker must be a regular file'')))"

section \<open>Binary search over a sorted list\<close>

lemma go_search_spec:
  assumes "i \<le> j" and "\<And>a b. a \<le> b \<Longrightarrow> b < j \<Longrightarrow> f a \<Longrightarrow> f b"
  shows "i \<le> go_search f i j \<and> go_search f i j \<le> j \<and> (\<forall>k. i \<le> k \<and> k < go_search f i j \<longrightarrow> \<not> f k) \<and>
    (go_search f i j < j \<longrightarrow> f (go_search f i j))"
  using assms
proof (induction f i j rule: go_search.induct)
  case (1 f i j)
  show ?case
  proof (cases "i < j")
    case True
    define h where "h = (i + j) div 2"
    have h: "i \<le> h" "h < j" using True by (auto simp: h_def)
    show ?thesis
    proof (cases "f h")
      case False
      have eq: "go_search f i j = go_search f (h + 1) j"
        using True False by (subst go_search.simps) (simp add: h_def)
      have below: "\<not> f k" if "k \<le> h" for k using False h(2) "1.prems"(2) that by blast
      from "1.IH"(1) [OF True h_def False] h "1.prems"(2)
      have "h + 1 \<le> go_search f (h + 1) j \<and> go_search f (h + 1) j \<le> j \<and>
          (\<forall>k. h + 1 \<le> k \<and> k < go_search f (h + 1) j \<longrightarrow> \<not> f k) \<and>
          (go_search f (h + 1) j < j \<longrightarrow> f (go_search f (h + 1) j))" by simp
      with below h show ?thesis unfolding eq by (metis Suc_eq_plus1 Suc_leI le_trans linorder_not_le less_imp_le_nat)
    next
      case f: True
      have eq: "go_search f i j = go_search f i h"
        using True f by (subst go_search.simps) (simp add: h_def)
      from "1.IH"(2) [OF True h_def _ h(1)] f h "1.prems"(2)
      have "i \<le> go_search f i h \<and> go_search f i h \<le> h \<and>
          (\<forall>k. i \<le> k \<and> k < go_search f i h \<longrightarrow> \<not> f k) \<and> (go_search f i h < h \<longrightarrow> f (go_search f i h))"
        by (simp add: order.strict_trans)
      with f h show ?thesis unfolding eq by (metis le_neq_implies_less le_trans less_imp_le_nat)
    qed
  next
    case False
    then have "go_search f i j = i" by (subst go_search.simps) simp
    with False "1.prems"(1) show ?thesis by auto
  qed
qed

lemma search_strings_spec:
  assumes "sorted xs"
  shows "search_strings xs x \<le> length xs" "\<forall>k < search_strings xs x. xs ! k < x"
    "\<forall>k. search_strings xs x \<le> k \<and> k < length xs \<longrightarrow> x \<le> xs ! k"
proof -
  have mono: "\<And>a b. a \<le> b \<Longrightarrow> b < length xs \<Longrightarrow> \<not> xs ! a < x \<Longrightarrow> \<not> xs ! b < x"
    using assms by (meson leD leI le_less_trans sorted_nth_mono)
  note s = go_search_spec [of 0 "length xs" "\<lambda>i. \<not> xs ! i < x", OF le0 mono]
  show "search_strings xs x \<le> length xs" "\<forall>k < search_strings xs x. xs ! k < x"
    using s unfolding search_strings_def by auto
  show "\<forall>k. search_strings xs x \<le> k \<and> k < length xs \<longrightarrow> x \<le> xs ! k"
  proof (intro allI impI, elim conjE)
    fix k assume k: "search_strings xs x \<le> k" "k < length xs"
    then have "\<not> xs ! search_strings xs x < x" using s unfolding search_strings_def by simp
    from mono [OF k this] show "x \<le> xs ! k" by simp
  qed
qed

lemma has_privilege_iff:
  assumes "sorted xs"
  shows "has_privilege xs x \<longleftrightarrow> x \<in> set xs"
proof
  assume "has_privilege xs x"
  then show "x \<in> set xs" unfolding has_privilege_def Let_def by (metis nth_mem)
next
  assume "x \<in> set xs"
  then obtain k where k: "k < length xs" "xs ! k = x" by (auto simp: in_set_conv_nth)
  let ?i = "search_strings xs x"
  have "?i \<le> k" using search_strings_spec(2) [OF assms, of x] k by (metis less_irrefl not_le)
  moreover from this have "xs ! ?i \<le> xs ! k" by (rule sorted_nth_mono [OF assms _ k(1)])
  moreover have "x \<le> xs ! ?i"
    using search_strings_spec(3) [OF assms, of x] \<open>?i \<le> k\<close> k(1) by (meson le_less_trans order_refl)
  ultimately show "has_privilege xs x" unfolding has_privilege_def Let_def using k by auto
qed

lemma insert_privilege_sorted:
  assumes "sorted xs"
  shows "sorted (insert_privilege xs x) \<and> set (insert_privilege xs x) = insert x (set xs)"
proof (cases "has_privilege xs x")
  case True
  then have "insert_privilege xs x = xs" by (simp add: insert_privilege_def has_privilege_def Let_def)
  moreover have "x \<in> set xs" using True has_privilege_iff [OF assms] by blast
  ultimately show ?thesis using assms by auto
next
  case False
  let ?i = "search_strings xs x"
  have eq: "insert_privilege xs x = take ?i xs @ x # drop ?i xs"
    using False unfolding insert_privilege_def has_privilege_def Let_def by auto
  have i: "?i \<le> length xs" by (rule search_strings_spec(1) [OF assms])
  have lo: "y < x" if "y \<in> set (take ?i xs)" for y
    using that search_strings_spec(2) [OF assms, of x] i by (auto simp: in_set_conv_nth)
  have hi: "x \<le> y" if y: "y \<in> set (drop ?i xs)" for y
  proof -
    obtain k where "k < length xs - ?i" "y = xs ! (?i + k)" using y by (auto simp: in_set_conv_nth)
    then show ?thesis using search_strings_spec(3) [OF assms, of x] by simp
  qed
  have "sorted (take ?i xs @ x # drop ?i xs)"
    using assms lo hi by (fastforce simp: sorted_append sorted_wrt_take sorted_wrt_drop dest: less_imp_le
        intro: order_trans)
  moreover have "set (take ?i xs @ x # drop ?i xs) = insert x (set xs)"
    by (metis append_take_drop_id list.simps(15) set_append Un_insert_right)
  ultimately show ?thesis unfolding eq by blast
qed

section \<open>Privilege drift against its specification\<close>

definition pairs :: "baseline \<Rightarrow> (string \<times> string) set" where
  "pairs b = {(k, p). \<exists>ps. map_of b k = Some ps \<and> p \<in> set ps}"

definition observed :: "observation \<Rightarrow> (string \<times> string) set" where
  "observed ob = (if ob_principal ob = [] \<or> ob_privilege ob = [] then {} else {(ob_principal ob, ob_privilege ob)})"

fun drift_spec :: "(string \<times> string) set \<Rightarrow> observation list \<Rightarrow> drift_gap list" where
  \<comment> \<open>an unapproved pair that was not known when it was observed\<close>
  "drift_spec known [] = []"
| "drift_spec known (ob # obs) =
     (if observed ob \<subseteq> known then [] else if ob_approved ob then [] else [drift_of ob]) @
     drift_spec (known \<union> observed ob) obs"

definition baseline_sorted :: "baseline \<Rightarrow> bool" where
  "baseline_sorted b \<longleftrightarrow> (\<forall>k ps. map_of b k = Some ps \<longrightarrow> sorted ps)"

lemma clone_baseline_pairs: "pairs (clone_baseline b) = pairs b" "baseline_sorted (clone_baseline b)"
  by (auto simp: pairs_def baseline_sorted_def clone_baseline_def map_of_map)

lemma drift_loop_spec:
  "baseline_sorted b \<Longrightarrow>
   pairs (fst (drift_loop b obs)) = pairs b \<union> (\<Union>ob \<in> set obs. observed ob) \<and>
   baseline_sorted (fst (drift_loop b obs)) \<and> snd (drift_loop b obs) = drift_spec (pairs b) obs"
proof (induction obs arbitrary: b)
  case (Cons ob obs)
  show ?case
  proof (cases "ob_principal ob = [] \<or> ob_privilege ob = []")
    case True
    with Cons show ?thesis by (simp add: observed_def)
  next
    case named: False
    define p where "p = ob_principal ob"
    define x where "x = ob_privilege ob"
    obtain b1 privs where e: "ensure_principal b p = (b1, privs)" by fastforce
    have b1: "pairs b1 = pairs b" "baseline_sorted b1" "map_of b1 p = Some privs"
      using e Cons.prems by (auto simp: ensure_principal_def pairs_def baseline_sorted_def split: option.splits if_splits)
    have sp: "sorted privs" using b1 by (simp add: baseline_sorted_def)
    have ob: "observed ob = {(p, x)}" using named by (simp add: observed_def p_def x_def)
    have "has_privilege privs x \<longleftrightarrow> (p, x) \<in> pairs b1"
      using has_privilege_iff [OF sp] b1(3) by (simp add: pairs_def)
    then have known: "has_privilege privs x \<longleftrightarrow> (p, x) \<in> pairs b" by (simp only: b1(1))
    show ?thesis
    proof (cases "has_privilege privs x")
      case True
      with named e known Cons.IH [OF b1(2)] b1(1) ob show ?thesis
        by (auto simp: p_def [symmetric] x_def [symmetric] insert_absorb)
    next
      case False
      define b2 where "b2 = AList.update p (insert_privilege privs x) b1"
      have "pairs b2 = insert (p, x) (pairs b1)"
        using insert_privilege_sorted [OF sp, of x] b1(3)
        by (auto simp: b2_def pairs_def split: if_splits)
      moreover have "baseline_sorted b2"
        using insert_privilege_sorted [OF sp, of x] b1(2)
        by (auto simp: b2_def baseline_sorted_def split: if_splits)
      ultimately have b2: "pairs b2 = insert (p, x) (pairs b)" "baseline_sorted b2" by (simp_all only: b1(1))
      have step: "drift_loop b (ob # obs) = (fst (drift_loop b2 obs),
          (if ob_approved ob then [] else [drift_of ob]) @ snd (drift_loop b2 obs))"
        using named False e by (simp add: p_def x_def b2_def Let_def split_beta)
      show ?thesis
        unfolding step using Cons.IH [OF b2(2)] b2(1) ob known False by auto
    qed
  qed
qed simp

text \<open>
  C35: privilege drift is what its specification says: the analysis with its sorted lists and binary
  searches reports exactly the unapproved pairs of principal and privilege that neither the
  baseline nor an earlier observation knew, in order, and the new baseline knows the old pairs and
  the observed ones.
\<close>
theorem drift_matches_spec:
  "pairs (fst (drift_analyze b obs)) = pairs b \<union> (\<Union>ob \<in> set obs. observed ob) \<and>
   baseline_sorted (fst (drift_analyze b obs)) \<and>
   snd (drift_analyze b obs) = go_sort drift_before (drift_spec (pairs b) obs)"
  using drift_loop_spec [OF clone_baseline_pairs(2), of b obs] clone_baseline_pairs(1) [of b]
  by (simp add: drift_analyze_def split_beta)

lemma drift_spec_known: "(\<Union>ob \<in> set obs. observed ob) \<subseteq> known \<Longrightarrow> drift_spec known obs = []"
  by (induction obs arbitrary: known) (auto simp: le_supI1)

text \<open>What was reported once, approved or not, is part of the baseline and is not reported again.\<close>
lemma drift_reported_once:
  "snd (drift_analyze (fst (drift_analyze b obs)) obs) = []"
proof -
  let ?b = "fst (drift_analyze b obs)"
  have "pairs ?b = pairs b \<union> (\<Union>ob \<in> set obs. observed ob)"
    using drift_loop_spec [OF clone_baseline_pairs(2), of b obs] clone_baseline_pairs(1) [of b]
    by (simp add: drift_analyze_def split_beta)
  then have "drift_spec (pairs ?b) obs = []" by (intro drift_spec_known) auto
  then show ?thesis
    using drift_loop_spec [OF clone_baseline_pairs(2), of ?b obs] clone_baseline_pairs(1) [of ?b]
    by (simp add: drift_analyze_def [of ?b] split_beta)
qed

section \<open>An intact chain was never silent for long\<close>

lemma gap_between_None:
  assumes "gap_between fmt g a b = None" and "0 \<le> g" and "g < 2 ^ 63 - 1"
  shows "pr_timestamp b \<le> pr_timestamp a + g"
  using assms by (auto simp: gap_between_def Let_def time_sub_def split: if_splits)

lemma session_gaps_Nil:
  assumes "session_gaps fmt g rs = []" and "Suc i < length rs"
  shows "gap_between fmt g (rs ! i) (rs ! Suc i) = None"
  using assms
proof (induction fmt g rs arbitrary: i rule: session_gaps.induct)
  case (1 fmt g a b rs)
  then show ?case by (cases i) (auto split: option.splits)
qed auto

lemma effective_gap_nonneg: "0 \<le> effective_gap g"
  by (simp add: effective_gap_def minute_ns_def second_ns_def)

text \<open>
  A chain the session analysis calls intact has no long silence: between any two records, however
  far apart, the time grows by at most the configured gap per record.
\<close>
theorem intact_bounds_silence:
  assumes "fst (stitch_analyze fmt cfg rs)" and "effective_gap cfg < 2 ^ 63 - 1" and "i + d < length rs"
  shows "pr_timestamp (rs ! (i + d)) \<le> pr_timestamp (rs ! i) + int d * effective_gap cfg"
  using assms(3)
proof (induction d)
  case (Suc d)
  have "session_gaps fmt (effective_gap cfg) rs = []" using assms(1) by (simp add: stitch_analyze_def Let_def)
  from gap_between_None [OF session_gaps_Nil [OF this, of "i + d"] effective_gap_nonneg assms(2)] Suc
  show ?case by (simp add: algebra_simps)
qed simp

definition session_record :: "instant \<Rightarrow> proof_record" where
  "session_record t = \<lparr>pr_record_id = ''r'', pr_record_type = ''tool_invocation'', pr_source = ''mcp'',
     pr_source_product = ''axym'', pr_agent_id = [], pr_timestamp = t,
     pr_event = Some [(''session_id'', VStr ''s1'')], pr_metadata = None, pr_relationship = None,
     pr_human_oversight = None, pr_record_hash = [], pr_previous_hash = [], pr_signing_key_id = [],
     pr_signature = []\<rparr>"

lemma intact_bounds_silence_witness:
  "pr_timestamp (map session_record [0, minute_ns, 20 * minute_ns] ! (0 + 2)) \<le> 0 + 2 * (30 * minute_ns)"
proof -
  have "fst (stitch_analyze (\<lambda>_. []) 0 (map session_record [0, minute_ns, 20 * minute_ns]))"
    and "effective_gap 0 < 2 ^ 63 - 1"
    by code_simp+
  from intact_bounds_silence [OF this, of 0 2] show ?thesis
    by (simp add: effective_gap_def session_record_def)
qed

section \<open>Managed directories\<close>

text \<open>Nothing but the marker is ever added to a directory, and success means that it is there.\<close>
lemma managed_dir_safe:
  assumes "ensure_managed_output_dir fault path p = (p', err)"
  shows "(\<forall>es. p = PathDir es \<and> es \<noteq> [] \<longrightarrow> p' = p) \<and>
    (err = None \<longrightarrow> (\<exists>es. p' = PathDir es \<and> map_of es managed_marker = Some RegularEntry))"
  using assms
  by (auto simp: ensure_managed_output_dir_def create_marker_def split: if_splits path_state.splits option.splits
      entry_kind.splits)

end
