(* ===== verification/Regress.thy ===== *)
theory Regress
  imports Coverage Store
begin

text \<open>
  \<open>core/regress\<close>: a baseline of the coverage of every control and the maturity of every path, written
  once and compared with later reports. The baseline file is its decoded content; the schema
  check of \<open>schemas/v1/regress\<close> is the argument \<open>schema_ok\<close>.
\<close>

section \<open>Baselines\<close>

record control_baseline =
  cb_control :: string
  cb_status :: string
  cb_reasons :: "string list"

record framework_baseline =
  fb_framework :: string
  fb_coverage :: rat
  fb_controls :: "control_baseline list"

record maturity_baseline =
  mb_path :: string
  mb_stage :: string
  mb_gaps :: "string list"

record regress_baseline =
  rb_version :: string
  rb_captured_at :: string
  rb_frameworks :: "framework_baseline list"
  rb_maturity :: "maturity_baseline list"

record maturity_entry =
  \<comment> \<open>the fields of \<open>bundleartifacts.ControlMaturityEntry\<close> that are read\<close>
  me_path :: string
  me_stage :: string
  me_gaps :: "string list"

definition normalize_status :: "string \<Rightarrow> string" where
  "normalize_status s =
     (let v = to_lower (trim_space s) in if v = ''covered'' \<or> v = ''partial'' \<or> v = ''gap'' then v else ''gap'')"

definition status_rank :: "string \<Rightarrow> int" where
  "status_rank s =
     (if normalize_status s = ''covered'' then 0 else if normalize_status s = ''partial'' then 1 else 2)"

definition maturity_stage_rank :: "string \<Rightarrow> int" where
  "maturity_stage_rank s =
     (let v = trim_space s in
      if v = ''observe'' then 0 else if v = ''dry_run'' then 1 else if v = ''read_only_allow'' then 2
      else if v = ''approval_gated_write'' then 3 else if v = ''brokered_write'' then 4
      else if v = ''blocked_destructive'' then 5 else - 1)"

definition baseline_control :: "control_coverage \<Rightarrow> control_baseline" where
  "baseline_control c = \<lparr>cb_control = cc_control c, cb_status = normalize_status (cc_status c),
     cb_reasons = unique_sorted_seen (cc_reasons c)\<rparr>"

definition baseline_framework :: "framework_coverage \<Rightarrow> framework_baseline" where
  "baseline_framework f = \<lparr>fb_framework = to_lower (trim_space (fc_id f)), fb_coverage = fc_coverage f,
     fb_controls = go_sort (\<lambda>a b. cb_control a < cb_control b) (map baseline_control (fc_controls f))\<rparr>"

definition build_maturity_baseline :: "maturity_entry list option \<Rightarrow> maturity_baseline list" where
  "build_maturity_baseline m =
     (case m of
        None \<Rightarrow> []
      | Some es \<Rightarrow> go_sort (\<lambda>a b. mb_path a < mb_path b)
          (map (\<lambda>e. \<lparr>mb_path = trim_space (me_path e), mb_stage = trim_space (me_stage e),
             mb_gaps = unique_sorted_seen (me_gaps e)\<rparr>) es))"

definition build_baseline :: "coverage_report \<Rightarrow> instant \<Rightarrow> maturity_entry list option \<Rightarrow> regress_baseline" where
  "build_baseline rep now m =
     \<lparr>rb_version = ''v1'', rb_captured_at = (if is_zero_time now then [] else format_rfc3339 now),
      rb_frameworks = go_sort (\<lambda>a b. fb_framework a < fb_framework b) (map baseline_framework (rp_frameworks rep)),
      rb_maturity = build_maturity_baseline m\<rparr>"

section \<open>Differences\<close>

record drift =
  dr_framework :: string
  dr_control :: string
  dr_baseline_status :: string
  dr_current_status :: string
  dr_baseline_reasons :: "string list"
  dr_current_reasons :: "string list"
  dr_reason :: string

record maturity_drift =
  md_path :: string
  md_baseline_stage :: string
  md_current_stage :: string
  md_reason :: string
  md_reasons :: "string list"

definition last_by :: "('a \<Rightarrow> string) \<Rightarrow> 'a list \<Rightarrow> string \<Rightarrow> 'a option" where
  \<comment> \<open>the map a loop over the list fills: of several entries under a key the last one stays\<close>
  "last_by key xs k = map_of (rev (map (\<lambda>x. (key x, x)) xs)) k"

definition missing_drift :: "string \<Rightarrow> string \<Rightarrow> control_baseline \<Rightarrow> drift" where
  "missing_drift reason fw c = \<lparr>dr_framework = fw, dr_control = cb_control c, dr_baseline_status = cb_status c,
     dr_current_status = ''gap'', dr_baseline_reasons = cb_reasons c, dr_current_reasons = [], dr_reason = reason\<rparr>"

definition diff_control :: "string \<Rightarrow> control_baseline list \<Rightarrow> control_baseline \<Rightarrow> drift option" where
  "diff_control fw current b =
     (case last_by cb_control current (cb_control b) of
        None \<Rightarrow> Some (missing_drift ''control_missing_from_current'' fw b)
      | Some c \<Rightarrow>
          if status_rank (cb_status c) \<le> status_rank (cb_status b) then None
          else Some \<lparr>dr_framework = fw, dr_control = cb_control b, dr_baseline_status = cb_status b,
            dr_current_status = cb_status c, dr_baseline_reasons = cb_reasons b, dr_current_reasons = cb_reasons c,
            dr_reason = ''coverage_drift_detected''\<rparr>)"

definition diff_framework :: "framework_baseline list \<Rightarrow> framework_baseline \<Rightarrow> drift list" where
  "diff_framework current f =
     (case last_by fb_framework current (fb_framework f) of
        None \<Rightarrow> map (missing_drift ''framework_missing_from_current'' (fb_framework f)) (fb_controls f)
      | Some g \<Rightarrow> List.map_filter (diff_control (fb_framework f) (fb_controls g)) (fb_controls f))"

definition drift_order :: "drift \<Rightarrow> drift \<Rightarrow> bool" where
  "drift_order a b \<longleftrightarrow>
     (if dr_framework a \<noteq> dr_framework b then dr_framework a < dr_framework b else dr_control a < dr_control b)"

definition diff_controls :: "regress_baseline \<Rightarrow> regress_baseline \<Rightarrow> drift list" where
  "diff_controls baseline current =
     go_sort drift_order (concat (map (diff_framework (rb_frameworks current)) (rb_frameworks baseline)))"

definition diff_path :: "maturity_baseline list \<Rightarrow> maturity_baseline \<Rightarrow> maturity_drift option" where
  "diff_path current b =
     (case last_by mb_path current (mb_path b) of
        None \<Rightarrow> Some \<lparr>md_path = mb_path b, md_baseline_stage = mb_stage b, md_current_stage = [],
          md_reason = ''path_missing_from_current'', md_reasons = mb_gaps b\<rparr>
      | Some c \<Rightarrow>
          if maturity_stage_rank (mb_stage c) < maturity_stage_rank (mb_stage b)
          then Some \<lparr>md_path = mb_path b, md_baseline_stage = mb_stage b, md_current_stage = mb_stage c,
            md_reason = ''control_maturity_regressed'', md_reasons = mb_gaps c\<rparr>
          else if length (mb_gaps c) > length (mb_gaps b)
          then Some \<lparr>md_path = mb_path b, md_baseline_stage = mb_stage b, md_current_stage = mb_stage c,
            md_reason = ''control_maturity_gap_increased'', md_reasons = mb_gaps c\<rparr>
          else None)"

definition diff_maturity :: "maturity_baseline list \<Rightarrow> maturity_baseline list \<Rightarrow> maturity_drift list" where
  "diff_maturity baseline current =
     go_sort (\<lambda>a b. md_path a < md_path b) (List.map_filter (diff_path current) baseline)"

section \<open>Init and Run\<close>

datatype target = TargetDir | TargetFile | TargetAbsent | TargetUnreadable

datatype regress_error = RegressError string string int

record init_result =
  ir_path :: string
  ir_frameworks :: nat
  ir_control_count :: nat

record run_result =
  rr_baseline_path :: string
  rr_drift_detected :: bool
  rr_regressed :: "drift list"
  rr_maturity :: "maturity_drift list"

definition resolve_baseline_path :: "(string list \<Rightarrow> string) \<Rightarrow> target \<Rightarrow> string \<Rightarrow> string option" where
  \<comment> \<open>\<open>join\<close> is \<open>filepath.Join\<close>, \<open>target\<close> what the path leads to\<close>
  "resolve_baseline_path pathjoin target path =
     (let t = trim_space path in
      if t = [] then None
      else case target of
        TargetDir \<Rightarrow> Some (pathjoin [t, ''regress-baseline.json''])
      | TargetFile \<Rightarrow> Some t
      | TargetUnreadable \<Rightarrow> None
      | TargetAbsent \<Rightarrow> Some (if last t = CHR ''/'' then pathjoin [t, ''regress-baseline.json''] else t))"

definition regress_init ::
  "(string list \<Rightarrow> string) \<Rightarrow> (regress_baseline \<Rightarrow> bool) \<Rightarrow> bool \<Rightarrow> fs_fault option \<Rightarrow> target \<Rightarrow> string \<Rightarrow>
   coverage_report \<Rightarrow> maturity_entry list option \<Rightarrow> instant \<Rightarrow> regress_baseline go_file \<Rightarrow>
   regress_baseline go_file \<times> (regress_error, init_result) result" where
  "regress_init pathjoin schema_ok ign fault target path rep m now f =
     (case resolve_baseline_path pathjoin target path of
        None \<Rightarrow> (f, Inl (RegressError ''invalid_input'' ''resolve baseline path'' 6))
      | Some p \<Rightarrow>
         (let b = build_baseline rep now m in
          if \<not> schema_ok b
          then (f, Inl (RegressError ''REGRESS_BASELINE_SCHEMA_FAILED'' ''baseline schema validation failed'' 6))
          else case write_json_atomic ign True fault b f of
            (f', Some _) \<Rightarrow> (f', Inl (RegressError ''REGRESS_BASELINE_WRITE_FAILED'' ''write baseline'' 1))
          | (f', None) \<Rightarrow> (f', Inr \<lparr>ir_path = p, ir_frameworks = length (rb_frameworks b),
              ir_control_count = sum_list (map (\<lambda>x. length (fb_controls x)) (rb_frameworks b))\<rparr>)))"

definition read_baseline ::
  "(regress_baseline \<Rightarrow> bool) \<Rightarrow> regress_baseline go_file \<Rightarrow> (regress_error, regress_baseline) result" where
  \<comment> \<open>text that is no JSON fails the schema check first\<close>
  "read_baseline schema_ok f =
     (case f of
        Content b \<Rightarrow>
          if schema_ok b then Inr b
          else Inl (RegressError ''REGRESS_BASELINE_SCHEMA_FAILED'' ''baseline schema validation failed'' 6)
      | Corrupt \<Rightarrow> Inl (RegressError ''REGRESS_BASELINE_SCHEMA_FAILED'' ''baseline schema validation failed'' 6)
      | _ \<Rightarrow> Inl (RegressError ''REGRESS_BASELINE_READ_FAILED'' ''read baseline'' 6))"

definition regress_run ::
  "(string list \<Rightarrow> string) \<Rightarrow> (regress_baseline \<Rightarrow> bool) \<Rightarrow> target \<Rightarrow> string \<Rightarrow> coverage_report \<Rightarrow>
   maturity_entry list option \<Rightarrow> regress_baseline go_file \<Rightarrow> (regress_error, run_result) result" where
  "regress_run pathjoin schema_ok target path rep m f =
     (case resolve_baseline_path pathjoin target path of
        None \<Rightarrow> Inl (RegressError ''invalid_input'' ''resolve baseline path'' 6)
      | Some p \<Rightarrow>
         bind_result (read_baseline schema_ok f) (\<lambda>b.
           let current = build_baseline rep 0 m;
               controls = diff_controls b current;
               maturity = diff_maturity (rb_maturity b) (rb_maturity current)
           in Inr \<lparr>rr_baseline_path = p, rr_drift_detected = (controls \<noteq> [] \<or> maturity \<noteq> []),
                rr_regressed = controls, rr_maturity = maturity\<rparr>))"

section \<open>What counts as a regression\<close>

definition control_worse :: "regress_baseline \<Rightarrow> framework_baseline \<Rightarrow> control_baseline \<Rightarrow> bool" where
  \<comment> \<open>gone with its framework, gone, or of a worse status than in the baseline\<close>
  "control_worse current f c \<longleftrightarrow>
     (case last_by fb_framework (rb_frameworks current) (fb_framework f) of
        None \<Rightarrow> True
      | Some g \<Rightarrow>
         (case last_by cb_control (fb_controls g) (cb_control c) of
            None \<Rightarrow> True
          | Some c' \<Rightarrow> status_rank (cb_status c) < status_rank (cb_status c')))"

definition path_worse :: "regress_baseline \<Rightarrow> maturity_baseline \<Rightarrow> bool" where
  "path_worse current b \<longleftrightarrow>
     (case last_by mb_path (rb_maturity current) (mb_path b) of
        None \<Rightarrow> True
      | Some c \<Rightarrow> maturity_stage_rank (mb_stage c) < maturity_stage_rank (mb_stage b) \<or>
          length (mb_gaps b) < length (mb_gaps c))"

lemma set_map_filter: "set (List.map_filter f xs) = {y. \<exists>x \<in> set xs. f x = Some y}"
  by (force simp: map_filter_def)

lemma diff_framework_entries:
  "(\<lambda>d. (dr_framework d, dr_control d)) ` set (diff_framework (rb_frameworks current) f) =
     {(fb_framework f, cb_control c) |c. c \<in> set (fb_controls f) \<and> control_worse current f c}"
proof (cases "last_by fb_framework (rb_frameworks current) (fb_framework f)")
  case None
  then show ?thesis by (force simp: diff_framework_def control_worse_def missing_drift_def)
next
  case (Some g)
  have "(\<exists>d. diff_control (fb_framework f) (fb_controls g) c = Some d \<and> (dr_framework d, dr_control d) = k) \<longleftrightarrow>
      control_worse current f c \<and> k = (fb_framework f, cb_control c)" for c k
    using Some by (auto simp: diff_control_def control_worse_def missing_drift_def split: option.splits)
  then show ?thesis using Some by (auto simp: diff_framework_def set_map_filter image_iff) metis+
qed

lemma diff_path_iff: "diff_path (rb_maturity current) b = None \<longleftrightarrow> \<not> path_worse current b"
  by (auto simp: diff_path_def path_worse_def split: option.splits)

lemma diff_path_path: "diff_path current b = Some d \<Longrightarrow> md_path d = mb_path b"
  by (auto simp: diff_path_def split: option.splits if_splits)

lemma diff_controls_entries:
  "(\<lambda>d. (dr_framework d, dr_control d)) ` set (diff_controls b current) =
     {(fb_framework f, cb_control c) |f c. f \<in> set (rb_frameworks b) \<and> c \<in> set (fb_controls f) \<and>
        control_worse current f c}"
  unfolding diff_controls_def set_go_sort set_concat set_map image_UN image_image
  using diff_framework_entries [of current] by (auto simp: image_iff)

lemma diff_maturity_entries:
  "md_path ` set (diff_maturity (rb_maturity b) (rb_maturity current)) =
     mb_path ` {m \<in> set (rb_maturity b). path_worse current m}"
  unfolding diff_maturity_def set_go_sort set_map_filter
  by (auto simp: image_iff dest: diff_path_path) (metis diff_path_iff option.exhaust diff_path_path option.distinct(1))+

text \<open>
  C36: a run detects a regression exactly when there is one: the regressed controls are those of the
  baseline that are gone or of a worse status now, the regressed paths those that are gone, at a
  lower stage or with more remaining gaps, and drift is reported when there is any of either.
\<close>
theorem regression_detected_iff:
  assumes "read_baseline schema_ok f = Inr b" and "resolve_baseline_path pathjoin target path = Some p"
  shows "\<exists>r. regress_run pathjoin schema_ok target path rep m f = Inr r \<and>
    (let current = build_baseline rep 0 m in
      (\<lambda>d. (dr_framework d, dr_control d)) ` set (rr_regressed r) =
        {(fb_framework x, cb_control c) |x c. x \<in> set (rb_frameworks b) \<and> c \<in> set (fb_controls x) \<and>
           control_worse current x c} \<and>
      md_path ` set (rr_maturity r) = mb_path ` {x \<in> set (rb_maturity b). path_worse current x} \<and>
      (rr_drift_detected r \<longleftrightarrow>
        (\<exists>x \<in> set (rb_frameworks b). \<exists>c \<in> set (fb_controls x). control_worse current x c) \<or>
        (\<exists>x \<in> set (rb_maturity b). path_worse current x)))"
proof -
  define current where "current = build_baseline rep 0 m"
  define r where "r = \<lparr>rr_baseline_path = p,
    rr_drift_detected = (diff_controls b current \<noteq> [] \<or> diff_maturity (rb_maturity b) (rb_maturity current) \<noteq> []),
    rr_regressed = diff_controls b current, rr_maturity = diff_maturity (rb_maturity b) (rb_maturity current)\<rparr>"
  have run: "regress_run pathjoin schema_ok target path rep m f = Inr r"
    using assms by (simp add: regress_run_def Let_def r_def current_def)
  have c: "(\<lambda>d. (dr_framework d, dr_control d)) ` set (diff_controls b current) =
      {(fb_framework x, cb_control c) |x c. x \<in> set (rb_frameworks b) \<and> c \<in> set (fb_controls x) \<and>
         control_worse current x c}" by (rule diff_controls_entries)
  have p: "md_path ` set (diff_maturity (rb_maturity b) (rb_maturity current)) =
      mb_path ` {x \<in> set (rb_maturity b). path_worse current x}" by (rule diff_maturity_entries)
  have "diff_controls b current \<noteq> [] \<longleftrightarrow> (\<lambda>d. (dr_framework d, dr_control d)) ` set (diff_controls b current) \<noteq> {}"
    by simp
  then have "diff_controls b current \<noteq> [] \<longleftrightarrow>
      (\<exists>x \<in> set (rb_frameworks b). \<exists>c \<in> set (fb_controls x). control_worse current x c)"
    unfolding c by blast
  moreover have "diff_maturity (rb_maturity b) (rb_maturity current) \<noteq> [] \<longleftrightarrow>
      (\<exists>x \<in> set (rb_maturity b). path_worse current x)"
    using p by (cases "diff_maturity (rb_maturity b) (rb_maturity current)") auto
  ultimately show ?thesis
    using run c p unfolding current_def [symmetric] Let_def r_def by auto
qed

section \<open>A baseline does not regress against itself\<close>

lemma last_by_distinct:
  assumes "distinct (map key xs)" and "x \<in> set xs"
  shows "last_by key xs (key x) = Some x"
proof -
  have "distinct (map fst (rev (map (\<lambda>x. (key x, x)) xs)))"
    using assms(1) by (simp add: rev_map [symmetric] comp_def)
  moreover have "(key x, x) \<in> set (rev (map (\<lambda>x. (key x, x)) xs))" using assms(2) by auto
  ultimately show ?thesis unfolding last_by_def by (rule map_of_is_SomeI)
qed

lemma control_not_worse:
  assumes "distinct (map fb_framework (rb_frameworks b))" and "f \<in> set (rb_frameworks b)"
    and "distinct (map cb_control (fb_controls f))" and "c \<in> set (fb_controls f)"
    and "rb_frameworks current = rb_frameworks b"
  shows "\<not> control_worse current f c"
  using last_by_distinct [OF assms(1,2)] last_by_distinct [OF assms(3,4)] assms(5) by (simp add: control_worse_def)

definition names_distinct :: "coverage_report \<Rightarrow> maturity_entry list option \<Rightarrow> bool" where
  "names_distinct rep m \<longleftrightarrow>
     distinct (map (to_lower \<circ> trim_space \<circ> fc_id) (rp_frameworks rep)) \<and>
     list_all (\<lambda>f. distinct (map cc_control (fc_controls f))) (rp_frameworks rep) \<and>
     (case m of None \<Rightarrow> True | Some es \<Rightarrow> distinct (map (trim_space \<circ> me_path) es))"

lemma go_sort_map_distinct: "distinct (map key (go_sort lt xs)) = distinct (map key xs)"
  by (metis mset_go_sort mset_map mset_eq_imp_distinct_iff)

lemma names_distinct_built:
  assumes "names_distinct rep m"
  shows "distinct (map fb_framework (rb_frameworks (build_baseline rep now m)))"
    and "f \<in> set (rb_frameworks (build_baseline rep now m)) \<Longrightarrow> distinct (map cb_control (fb_controls f))"
    and "distinct (map mb_path (rb_maturity (build_baseline rep now m)))"
  using assms
  by (auto simp: names_distinct_def build_baseline_def build_maturity_baseline_def go_sort_map_distinct comp_def
      baseline_framework_def baseline_control_def list_all_iff split: option.splits)

text \<open>
  A baseline written from a report never reports drift against the same report, provided its
  frameworks, the controls of a framework and its paths have distinct names.
\<close>
theorem baseline_agrees_with_itself:
  assumes "regress_init pathjoin schema_ok ign fault target path rep m now f = (f', Inr i)"
    and "names_distinct rep m"
  shows "\<exists>r. regress_run pathjoin schema_ok target path rep m f' = Inr r \<and> \<not> rr_drift_detected r \<and>
    rr_regressed r = [] \<and> rr_maturity r = []"
proof -
  define b where "b = build_baseline rep now m"
  define current where "current = build_baseline rep 0 m"
  obtain p where p: "resolve_baseline_path pathjoin target path = Some p"
    using assms(1) by (auto simp: regress_init_def split: option.splits)
  have ok: "schema_ok b" and w: "write_json_atomic ign True fault b f = (f', None)"
    using assms(1) p by (auto simp: regress_init_def Let_def b_def split: if_splits prod.splits option.splits)
  have "f' = Content b" using write_json_atomic_ok [of ign True fault b f] w by simp
  then have read: "read_baseline schema_ok f' = Inr b" using ok by (simp add: read_baseline_def)
  have same: "rb_frameworks current = rb_frameworks b" "rb_maturity current = rb_maturity b"
    by (simp_all add: b_def current_def build_baseline_def)
  note d = names_distinct_built [OF assms(2), where now = now, folded b_def]
  have "diff_controls b current = []"
    using diff_controls_entries [of b current] control_not_worse [OF d(1) _ d(2) _ same(1)]
    by (cases "diff_controls b current") auto
  moreover have "\<not> path_worse current x" if "x \<in> set (rb_maturity b)" for x
    using last_by_distinct [OF d(3) that] same(2) by (simp add: path_worse_def)
  then have "diff_maturity (rb_maturity b) (rb_maturity current) = []"
    using diff_maturity_entries [of b current] by (cases "diff_maturity (rb_maturity b) (rb_maturity current)") auto
  ultimately show ?thesis
    using p read by (simp add: regress_run_def Let_def current_def [symmetric])
qed

section \<open>Examples\<close>

definition demo_coverage :: "string \<Rightarrow> (string \<times> string) list \<Rightarrow> framework_coverage" where
  "demo_coverage i cs = \<lparr>fc_id = i, fc_coverage = 1, fc_covered = 0, fc_partial = 0, fc_gap = 0,
     fc_controls = map (\<lambda>(c, s). \<lparr>cc_framework = i, cc_control = c, cc_title = [], cc_status = s, cc_reasons = [],
       cc_evidence = 0, cc_missing_types = [], cc_missing_fields = [], cc_invalid = 0\<rparr>) cs, fc_failing = []\<rparr>"

definition demo_report :: "framework_coverage list \<Rightarrow> coverage_report" where
  "demo_report fs = \<lparr>rp_frameworks = fs,
     rp_summary = \<lparr>ms_frameworks = 0, ms_controls = 0, ms_covered = 0, ms_partial = 0, ms_gap = 0\<rparr>\<rparr>"

definition demo_maturity :: "string \<Rightarrow> string list \<Rightarrow> maturity_entry list option" where
  "demo_maturity stage gaps = Some [\<lparr>me_path = ''deploy'', me_stage = stage, me_gaps = gaps\<rparr>]"

definition demo_before :: coverage_report where
  "demo_before = demo_report [demo_coverage ''soc2'' [(''cc6'', ''covered''), (''cc7'', ''partial'')]]"

definition demo_after :: coverage_report where
  "demo_after = demo_report [demo_coverage '' SOC2 '' [(''cc6'', ''partial''), (''cc7'', ''covered'')]]"

lemma regression_detected_iff_witness:
  "\<exists>r. regress_run concat (\<lambda>_. True) TargetFile ''b.json'' demo_after (demo_maturity ''dry_run'' [])
       (Content (build_baseline demo_before 5 (demo_maturity ''brokered_write'' []))) = Inr r \<and> rr_drift_detected r"
proof -
  have b: "read_baseline (\<lambda>_. True) (Content (build_baseline demo_before 5 (demo_maturity ''brokered_write'' []))) =
      Inr (build_baseline demo_before 5 (demo_maturity ''brokered_write'' []))"
    by (simp add: read_baseline_def)
  have p: "resolve_baseline_path concat TargetFile ''b.json'' = Some ''b.json''" by code_simp
  have w: "\<exists>x \<in> set (rb_maturity (build_baseline demo_before 5 (demo_maturity ''brokered_write'' []))).
      path_worse (build_baseline demo_after 0 (demo_maturity ''dry_run'' [])) x"
    by code_simp
  from regression_detected_iff [OF b p, of demo_after "demo_maturity ''dry_run'' []"] w
  show ?thesis unfolding Let_def by blast
qed

lemma baseline_agrees_with_itself_witness:
  "\<exists>r. regress_run concat (\<lambda>_. True) TargetFile ''b.json'' demo_before (demo_maturity ''dry_run'' [])
     (fst (regress_init concat (\<lambda>_. True) False None TargetFile ''b.json'' demo_before (demo_maturity ''dry_run'' []) 5
       Missing)) = Inr r \<and> rr_regressed r = []"
proof -
  let ?i = "regress_init concat (\<lambda>_. True) False None TargetFile ''b.json'' demo_before (demo_maturity ''dry_run'' []) 5
    Missing"
  have "snd ?i = Inr \<lparr>ir_path = ''b.json'', ir_frameworks = 1, ir_control_count = 2\<rparr>" by code_simp
  then have i: "?i = (fst ?i, Inr \<lparr>ir_path = ''b.json'', ir_frameworks = 1, ir_control_count = 2\<rparr>)"
    by (metis prod.collapse)
  have "names_distinct demo_before (demo_maturity ''dry_run'' [])" by code_simp
  from baseline_agrees_with_itself [OF i this] show ?thesis by blast
qed

text \<open>
  Only the number of remaining gaps counts: a path whose gap was replaced by another one is not
  reported. Two frameworks whose names agree up to case regress against their own report.
\<close>
lemma exchanged_gap_unnoticed:
  "diff_maturity (build_maturity_baseline (demo_maturity ''dry_run'' [''LOW'']))
     (build_maturity_baseline (demo_maturity ''dry_run'' [''SEVERE''])) = []"
  by code_simp

lemma same_named_frameworks_drift:
  "length (diff_controls (build_baseline (demo_report [demo_coverage ''soc2'' [(''a'', ''covered'')],
        demo_coverage ''SOC2'' [(''b'', ''covered'')]]) 5 None)
      (build_baseline (demo_report [demo_coverage ''soc2'' [(''a'', ''covered'')],
        demo_coverage ''SOC2'' [(''b'', ''covered'')]]) 0 None)) = 1"
  by code_simp

end
