(* ===== verification/Wrkr.thy ===== *)
theory Wrkr
  imports Policy Ticket Receipt Identity
begin

text \<open>
  \<open>core/ingest/wrkr\<close> and \<open>core/ingest/state\<close>: records read from Wrkr files, the privilege drift they
  show, their append to the store, and the baseline of privileges kept under a lock file. The
  lock is also modelled as a system of processes that interleave. Decoding is an argument: \<open>dec\<close>
  of one record, \<open>dec_list\<close> and \<open>dec_payload\<close> of a whole file; the Proof library's validation is a
  field of \<open>proof_lib\<close>.
\<close>

section \<open>The state file\<close>

record wrkr_state =
  ws_version :: string
  ws_updated_at :: string
  ws_baseline :: baseline

definition normalize_privileges :: "string list \<Rightarrow> string list" where
  "normalize_privileges ps = sort (dedup (filter (\<lambda>p. p \<noteq> []) ps))"

definition normalize_baseline :: "wrkr_state \<Rightarrow> wrkr_state" where
  "normalize_baseline st = st\<lparr>ws_baseline := map (\<lambda>(k, ps). (k, normalize_privileges ps)) (ws_baseline st)\<rparr>"

datatype state_error = StateLocked | StateFailed string

definition load_state :: "wrkr_state go_file \<Rightarrow> (state_error, wrkr_state) result" where
  \<comment> \<open>a null baseline is the empty one\<close>
  "load_state f =
     (case f of
        Missing \<Rightarrow> Inr \<lparr>ws_version = ''v1'', ws_updated_at = [], ws_baseline = []\<rparr>
      | Unreadable \<Rightarrow> Inl (StateFailed ''read wrkr ingest state'')
      | Corrupt \<Rightarrow> Inl (StateFailed ''decode wrkr ingest state'')
      | Content st \<Rightarrow> Inr (normalize_baseline st))"

definition write_state :: "fs_fault option \<Rightarrow> wrkr_state \<Rightarrow> wrkr_state go_file \<Rightarrow> wrkr_state go_file \<times> state_error option" where
  \<comment> \<open>\<open>writeJSONAtomic\<close>: no sync\<close>
  "write_state fault st f =
     (case write_json_atomic False False fault st f of (f', err) \<Rightarrow> (f', map_option StateFailed err))"

section \<open>The lock file, seen by one process\<close>

datatype lock_fault = LockCreateFails | LockStatFails | LockRemoveFails | LockRetaken

definition lock_is_stale :: "duration \<Rightarrow> instant \<Rightarrow> instant \<Rightarrow> bool" where
  \<comment> \<open>\<open>now\<close> and the modification time\<close>
  "lock_is_stale ttl now modified \<longleftrightarrow> time_sub now modified > (if ttl \<le> 0 then 5 * minute_ns else ttl)"

definition acquire_lock ::
  "duration \<Rightarrow> instant \<Rightarrow> lock_fault option \<Rightarrow> instant option \<Rightarrow> instant option \<times> state_error option" where
  \<comment> \<open>the lock file by its modification time; \<open>LockRetaken\<close>: another process creates it again\<close>
  "acquire_lock ttl now fault l =
     (if fault = Some LockCreateFails then (l, Some (StateFailed ''acquire wrkr state lock''))
      else case l of
        None \<Rightarrow> (Some now, None)
      | Some modified \<Rightarrow>
          if fault = Some LockStatFails then (l, Some (StateFailed ''inspect wrkr state lock''))
          else if \<not> lock_is_stale ttl now modified then (l, Some StateLocked)
          else if fault = Some LockRemoveFails then (l, Some (StateFailed ''remove stale wrkr state lock''))
          else if fault = Some LockRetaken then (Some now, Some StateLocked)
          else (Some now, None))"

section \<open>Records\<close>

definition supported_record_types :: "string list" where
  "supported_record_types = [''tool_invocation'', ''decision'', ''policy_enforcement'', ''approval'',
     ''risk_assessment'', ''scan_finding'']"

definition is_supported_record_type :: "string \<Rightarrow> bool" where
  "is_supported_record_type t \<longleftrightarrow> trim_space t \<in> set supported_record_types"

definition wrkr_invalid_payload :: string where "wrkr_invalid_payload = ''WRKR_INVALID_PAYLOAD''"
definition wrkr_unsupported_type :: string where "wrkr_unsupported_type = ''WRKR_UNSUPPORTED_RECORD_TYPE''"
definition wrkr_escalation :: string where "wrkr_escalation = ''WRKR_PRIVILEGE_ESCALATION_UNAPPROVED''"

fun filter_and_validate :: "(proof_record \<Rightarrow> bool) \<Rightarrow> proof_record list \<Rightarrow> proof_record list \<times> string list" where
  "filter_and_validate valid [] = ([], [])"
| "filter_and_validate valid (r # rs) =
     (case filter_and_validate valid rs of (out, reasons) \<Rightarrow>
       if \<not> is_supported_record_type (pr_record_type r) then (out, wrkr_unsupported_type # reasons)
       else if \<not> valid r then (out, wrkr_invalid_payload # reasons)
       else (r # out, reasons))"

definition max_line :: int where "max_line = 1048576"

fun read_jsonl ::
  "(string \<Rightarrow> proof_record option) \<Rightarrow> (proof_record \<Rightarrow> bool) \<Rightarrow> string list \<Rightarrow>
   (proof_record list \<times> string list) \<times> bool" where
  \<comment> \<open>whether the scanner ended without an error; it stops at the first line that is too long\<close>
  "read_jsonl dec valid [] = (([], []), True)"
| "read_jsonl dec valid (l # ls) =
     (if int (length l) \<ge> max_line then (([], []), False)
      else case read_jsonl dec valid ls of ((out, reasons), ok) \<Rightarrow>
        let t = trim_space l in
        if t = [] then ((out, reasons), ok)
        else case dec t of
          None \<Rightarrow> ((out, wrkr_invalid_payload # reasons), ok)
        | Some r \<Rightarrow>
            if \<not> is_supported_record_type (pr_record_type r) then ((out, wrkr_unsupported_type # reasons), ok)
            else if \<not> valid r then ((out, wrkr_invalid_payload # reasons), ok)
            else ((r # out, reasons), ok))"

datatype input_file = NoInput | UnreadableInput | TextInput string

datatype input_path = FilePath input_file | DirPath input_file    \<comment> \<open>a directory by its \<open>proof_records.jsonl\<close>\<close>

definition file_ext :: "string \<Rightarrow> string" where
  \<comment> \<open>\<open>filepath.Ext\<close>\<close>
  "file_ext p =
     (let name = rev (takeWhile (\<lambda>c. c \<noteq> CHR ''/'') (rev p)) in
      if CHR ''.'' \<in> set name then CHR ''.'' # rev (takeWhile (\<lambda>c. c \<noteq> CHR ''.'') (rev name)) else [])"

record wrkr_decoder =
  wd_record :: "string \<Rightarrow> proof_record option"
  wd_list :: "string \<Rightarrow> proof_record list option"
  wd_payload :: "string \<Rightarrow> proof_record list option"

definition read_jsonl_file :: "wrkr_decoder \<Rightarrow> (proof_record \<Rightarrow> bool) \<Rightarrow> input_file \<Rightarrow> (proof_record list \<times> string list) \<times> bool" where
  "read_jsonl_file dec valid f =
     (case f of TextInput s \<Rightarrow> read_jsonl (wd_record dec) valid (split_char newline s) | _ \<Rightarrow> (([], []), False))"

definition read_json_file :: "wrkr_decoder \<Rightarrow> (proof_record \<Rightarrow> bool) \<Rightarrow> input_file \<Rightarrow> (proof_record list \<times> string list) \<times> bool" where
  "read_json_file dec valid f =
     (case f of
        TextInput s \<Rightarrow>
          (case wd_list dec s of
             Some rs \<Rightarrow> (filter_and_validate valid rs, True)
           | None \<Rightarrow> (case wd_payload dec s of
               Some rs \<Rightarrow> (filter_and_validate valid rs, True)
             | None \<Rightarrow> (([], []), False)))
      | _ \<Rightarrow> (([], []), False))"

definition read_records ::
  "wrkr_decoder \<Rightarrow> (proof_record \<Rightarrow> bool) \<Rightarrow> (string \<Rightarrow> input_path) \<Rightarrow> string \<Rightarrow> (proof_record list \<times> string list) \<times> bool" where
  "read_records dec valid fs path =
     (case fs path of
        DirPath NoInput \<Rightarrow> (([], []), False)
      | DirPath f \<Rightarrow> read_jsonl_file dec valid f
      | FilePath NoInput \<Rightarrow> (([], []), False)
      | FilePath f \<Rightarrow>
          if to_lower (file_ext path) = ''.jsonl'' then read_jsonl_file dec valid f
          else if to_lower (file_ext path) = ''.json'' then read_json_file dec valid f
          else (([], []), False))"

fun load_records ::
  "wrkr_decoder \<Rightarrow> (proof_record \<Rightarrow> bool) \<Rightarrow> (string \<Rightarrow> input_path) \<Rightarrow> string list \<Rightarrow>
   (string, proof_record list \<times> string list) result" where
  \<comment> \<open>an error names the path that could not be read\<close>
  "load_records dec valid fs [] = Inr ([], [])"
| "load_records dec valid fs (p # ps) =
     (case read_records dec valid fs p of
        (_, False) \<Rightarrow> Inl p
      | ((rs, codes), True) \<Rightarrow>
          bind_result (load_records dec valid fs ps) (\<lambda>(rs', codes'). Inr (rs @ rs', codes @ codes')))"

definition first_string :: "string list \<Rightarrow> string" where
  "first_string cs = (case find (\<lambda>c. trim_space c \<noteq> []) cs of None \<Rightarrow> [] | Some c \<Rightarrow> trim_space c)"

definition observation_from_record :: "proof_record \<Rightarrow> observation option" where
  "observation_from_record r =
     (let principal = first_string [map_string (pr_metadata r) ''principal_id'', map_string (pr_event r) ''principal_id'',
            trim_space (pr_agent_id r)];
          privilege = first_string [map_string (pr_event r) ''privilege'', map_string (pr_event r) ''scope'',
            map_string (pr_metadata r) ''scope'']
      in if principal = [] \<or> privilege = [] then None
         else Some \<lparr>ob_principal = principal, ob_privilege = privilege,
           ob_approved = (map_bool (pr_event r) ''approved'' = Some True \<or> map_bool (pr_metadata r) ''approved'' = Some True),
           ob_record_id = pr_record_id r\<rparr>)"

definition normalize_paths :: "string list \<Rightarrow> string list" where
  "normalize_paths ps = sort (dedup (map clean_path (filter (\<lambda>p. p \<noteq> []) (map trim_space ps))))"

section \<open>Ingest\<close>

record wrkr_result =
  wr_input_files :: nat
  wr_parsed :: nat
  wr_appended :: nat
  wr_deduped :: nat
  wr_rejected :: nat
  wr_record_count :: nat
  wr_head_hash :: string
  wr_reasons :: "string list"
  wr_gaps :: "drift_gap list"
  wr_views :: "identity_view list"

datatype wrkr_error = WrkrError string string

fun append_all ::
  "proof_lib \<Rightarrow> store \<Rightarrow> instant \<Rightarrow> proof_record list \<Rightarrow> wrkr_result \<Rightarrow> disk \<Rightarrow> disk \<times> (wrkr_error, wrkr_result) result" where
  \<comment> \<open>the loop of \<open>Ingest\<close> over the sorted records\<close>
  "append_all lib st clock [] res d = (d, Inr res)"
| "append_all lib st clock (r # rs) res d =
     (case record_dedupe_key lib r of
        None \<Rightarrow> append_all lib st clock rs
          (res\<lparr>wr_rejected := wr_rejected res + 1, wr_reasons := wr_reasons res @ [wrkr_invalid_payload]\<rparr>) d
      | Some key \<Rightarrow>
         (case append_public lib st clock (Some r) key d of
            (d', Inl _) \<Rightarrow> (d', Inl (WrkrError ''WRKR_CHAIN_APPEND_FAILED'' ''append wrkr record''))
          | (d', Inr a) \<Rightarrow>
             (let res1 = res\<lparr>wr_record_count := ar_record_count a, wr_head_hash := ar_head_hash a\<rparr> in
              append_all lib st clock rs
                (if ar_deduped a then res1\<lparr>wr_deduped := wr_deduped res1 + 1\<rparr>
                 else if ar_appended a then res1\<lparr>wr_appended := wr_appended res1 + 1\<rparr>
                 else res1\<lparr>wr_rejected := wr_rejected res1 + 1,
                   wr_reasons := wr_reasons res1 @ [''WRKR_CHAIN_APPEND_FAILED'']\<rparr>) d')))"

record wrkr_world =
  ww_disk :: disk
  ww_state :: "wrkr_state go_file"
  ww_lock :: "instant option"

record wrkr_env =
  we_dir_made :: bool
  we_lock_ttl :: duration
  we_now :: instant
  we_lock_fault :: "lock_fault option"
  we_cancelled :: bool
  we_store_clock :: instant
  we_write_fault :: "fs_fault option"

definition ingest_locked ::
  "proof_lib \<Rightarrow> store \<Rightarrow> wrkr_env \<Rightarrow> proof_record list \<Rightarrow> wrkr_result \<Rightarrow> wrkr_state \<Rightarrow> disk \<Rightarrow>
   disk \<times> (wrkr_error, wrkr_state \<times> wrkr_result) result" where
  \<comment> \<open>the callback\<close>
  "ingest_locked lib st env rs res ws d =
     (if we_cancelled env then (d, Inl (WrkrError ''WRKR_CONTEXT_CANCELED'' ''ingest canceled''))
      else case drift_analyze (ws_baseline ws) (List.map_filter observation_from_record rs) of (updated, gaps) \<Rightarrow>
        (let res1 = res\<lparr>wr_gaps := gaps, wr_reasons := wr_reasons res @ (if gaps = [] then [] else [wrkr_escalation])\<rparr> in
         case append_all lib st (we_store_clock env) rs res1 d of
           (d', Inl e) \<Rightarrow> (d', Inl e)
         | (d', Inr res2) \<Rightarrow> (d', Inr (ws\<lparr>ws_baseline := updated\<rparr>, res2))))"

definition unavailable :: wrkr_error where
  "unavailable = WrkrError ''WRKR_STATE_UNAVAILABLE'' ''load or persist wrkr ingest state''"

definition with_locked_state ::
  "proof_lib \<Rightarrow> store \<Rightarrow> wrkr_env \<Rightarrow> proof_record list \<Rightarrow> wrkr_result \<Rightarrow> wrkr_world \<Rightarrow>
   wrkr_world \<times> (wrkr_error, wrkr_result) result" where
  \<comment> \<open>\<open>WithLockedState\<close> over that callback, with the errors as \<open>Ingest\<close> reports them; the lock is
    removed on every way out\<close>
  "with_locked_state lib st env rs res w =
     (if \<not> we_dir_made env then (w, Inl unavailable)
      else case acquire_lock (we_lock_ttl env) (we_now env) (we_lock_fault env) (ww_lock w) of
        (l, Some StateLocked) \<Rightarrow>
          (w\<lparr>ww_lock := l\<rparr>, Inl (WrkrError ''WRKR_STATE_LOCKED'' ''wrkr ingest state lock is held''))
      | (l, Some _) \<Rightarrow> (w\<lparr>ww_lock := l\<rparr>, Inl unavailable)
      | (l, None) \<Rightarrow>
         (let w1 = w\<lparr>ww_lock := None\<rparr> in
          case load_state (ww_state w) of
            Inl _ \<Rightarrow> (w1, Inl unavailable)
          | Inr ws \<Rightarrow>
             (case ingest_locked lib st env rs res ws (ww_disk w) of
                (d, Inl e) \<Rightarrow> (w1\<lparr>ww_disk := d\<rparr>, Inl e)
              | (d, Inr (ws', res')) \<Rightarrow>
                 (case write_state (we_write_fault env)
                         (normalize_baseline (ws'\<lparr>ws_version := ''v1'', ws_updated_at := format_rfc3339 (we_now env)\<rparr>))
                         (ww_state w) of
                    (f, Some _) \<Rightarrow> (w1\<lparr>ww_disk := d, ww_state := f\<rparr>, Inl unavailable)
                  | (f, None) \<Rightarrow> (w1\<lparr>ww_disk := d, ww_state := f\<rparr>, Inr res')))))"

definition parsed_result :: "string list \<Rightarrow> string list \<Rightarrow> proof_record list \<Rightarrow> wrkr_result" where
  "parsed_result paths codes rs =
     \<lparr>wr_input_files = length paths, wr_parsed = length rs, wr_appended = 0, wr_deduped = 0,
      wr_rejected = length codes, wr_record_count = 0, wr_head_hash = [], wr_reasons = codes, wr_gaps = [],
      wr_views = filter (\<lambda>v. \<not> view_empty v) (map identity_view_of rs)\<rparr>"

definition wrkr_ingest ::
  "proof_lib \<Rightarrow> wrkr_decoder \<Rightarrow> (string \<Rightarrow> input_path) \<Rightarrow> wrkr_env \<Rightarrow> store option \<Rightarrow> string list \<Rightarrow> wrkr_world \<Rightarrow>
   wrkr_world \<times> (wrkr_error, wrkr_result) result" where
  "wrkr_ingest lib dec fs env store inputs w =
     (case store of
        None \<Rightarrow> (w, Inl (WrkrError ''WRKR_INVALID_INPUT'' ''store is required''))
      | Some st \<Rightarrow>
         (let paths = normalize_paths inputs in
          if paths = [] then (w, Inr ((parsed_result [] [] [])\<lparr>wr_reasons := [''NO_INPUT'']\<rparr>))
          else case load_records dec (pl_validate lib) fs paths of
            Inl p \<Rightarrow> (w, Inl (WrkrError ''WRKR_INVALID_INPUT'' (''read '' @ p)))
          | Inr (rs, codes) \<Rightarrow>
             (let res = parsed_result paths codes rs in
              if rs = [] then (w, Inr (res\<lparr>wr_reasons := unique_sorted_raw (wr_reasons res)\<rparr>))
              else case with_locked_state lib st env (go_sort record_before rs) res w of
                (w', Inl e) \<Rightarrow> (w', Inl e)
              | (w', Inr res') \<Rightarrow> (w', Inr (res'\<lparr>wr_reasons := unique_sorted_raw (wr_reasons res')\<rparr>)))))"

section \<open>Every record is accounted for\<close>

definition settled :: "wrkr_result \<Rightarrow> nat" where
  "settled r = wr_appended r + wr_deduped r + wr_rejected r"

lemma append_all_counts:
  assumes "append_all lib st clock rs res d = (d', Inr r)"
  shows "settled r = settled res + length rs \<and> wr_gaps r = wr_gaps res \<and> wr_parsed r = wr_parsed res \<and>
    set (wr_reasons res) \<subseteq> set (wr_reasons r)"
  using assms
proof (induction rs arbitrary: res d)
  case (Cons x rs)
  show ?case
  proof (cases "record_dedupe_key lib x")
    case None
    with Cons.prems have "append_all lib st clock rs
        (res\<lparr>wr_rejected := wr_rejected res + 1, wr_reasons := wr_reasons res @ [wrkr_invalid_payload]\<rparr>) d = (d', Inr r)"
      by simp
    from Cons.IH [OF this] show ?thesis by (auto simp: settled_def)
  next
    case (Some key)
    obtain d1 a where a: "append_public lib st clock (Some x) key d = (d1, Inr a)"
      using Cons.prems Some by (cases "append_public lib st clock (Some x) key d") (auto split: sum.splits)
    from Cons.prems Some a show ?thesis
      by (auto simp: settled_def Let_def dest!: Cons.IH split: if_splits)
  qed
qed simp

lemma pairs_normalized: "pairs (ws_baseline (normalize_baseline st)) = {(k, p) \<in> pairs (ws_baseline st). p \<noteq> []}"
  by (auto simp: pairs_def normalize_baseline_def normalize_privileges_def map_of_map)

lemma load_state_named: "load_state f = Inr ws \<Longrightarrow> (k, []) \<notin> pairs (ws_baseline ws)"
  using pairs_normalized by (fastforce simp: load_state_def pairs_def split: go_file.splits)

lemma drift_analyze_pairs:
  "pairs (fst (drift_analyze b obs)) = pairs b \<union> (\<Union>ob \<in> set obs. observed ob) \<and>
   snd (drift_analyze b obs) = go_sort drift_before (drift_spec (pairs b) obs)"
  using drift_loop_spec [OF clone_baseline_pairs(2), of b obs] clone_baseline_pairs(1) [of b]
  by (simp add: drift_analyze_def split_beta)

lemma ingest_locked_ok:
  assumes "ingest_locked lib st env rs res ws d = (d', Inr (ws', r))"
  defines "obs \<equiv> List.map_filter observation_from_record rs"
  shows "settled r = settled res + length rs" and "wr_parsed r = wr_parsed res"
    and "wr_gaps r = go_sort drift_before (drift_spec (pairs (ws_baseline ws)) obs)"
    and "pairs (ws_baseline ws') = pairs (ws_baseline ws) \<union> (\<Union>ob \<in> set obs. observed ob)"
    and "wr_gaps r \<noteq> [] \<Longrightarrow> wrkr_escalation \<in> set (wr_reasons r)"
proof -
  obtain updated gaps where da: "drift_analyze (ws_baseline ws) obs = (updated, gaps)" by fastforce
  define res1 where "res1 = res\<lparr>wr_gaps := gaps, wr_reasons := wr_reasons res @ (if gaps = [] then [] else [wrkr_escalation])\<rparr>"
  have a: "append_all lib st (we_store_clock env) rs res1 d = (d', Inr r)" and ws': "ws' = ws\<lparr>ws_baseline := updated\<rparr>"
    using assms(1) da by (auto simp: ingest_locked_def obs_def res1_def Let_def split: if_splits prod.splits sum.splits)
  note c = append_all_counts [OF a]
  note p = drift_analyze_pairs [of "ws_baseline ws" obs, unfolded da]
  show "settled r = settled res + length rs" "wr_parsed r = wr_parsed res"
    using c by (simp_all add: res1_def settled_def)
  show "wr_gaps r = go_sort drift_before (drift_spec (pairs (ws_baseline ws)) obs)"
    using c p by (simp add: res1_def)
  show "pairs (ws_baseline ws') = pairs (ws_baseline ws) \<union> (\<Union>ob \<in> set obs. observed ob)"
    using p ws' by simp
  show "wrkr_escalation \<in> set (wr_reasons r)" if "wr_gaps r \<noteq> []"
    using c that by (auto simp: res1_def)
qed

lemma observed_named: "(k, []) \<notin> observed ob"
  by (auto simp: observed_def split: if_splits)

lemma with_locked_state_ok:
  assumes "with_locked_state lib st env rs res w = (w', Inr r)"
  defines "obs \<equiv> List.map_filter observation_from_record rs"
  shows "\<exists>ws ws'. load_state (ww_state w) = Inr ws \<and> ww_state w' = Content ws' \<and> ww_lock w' = None \<and>
    settled r = settled res + length rs \<and> wr_parsed r = wr_parsed res \<and>
    wr_gaps r = go_sort drift_before (drift_spec (pairs (ws_baseline ws)) obs) \<and>
    pairs (ws_baseline ws') = pairs (ws_baseline ws) \<union> (\<Union>ob \<in> set obs. observed ob) \<and>
    (wr_gaps r \<noteq> [] \<longrightarrow> wrkr_escalation \<in> set (wr_reasons r))"
proof -
  obtain l ws d ws1 f where l: "acquire_lock (we_lock_ttl env) (we_now env) (we_lock_fault env) (ww_lock w) = (l, None)"
    and ws: "load_state (ww_state w) = Inr ws"
    and i: "ingest_locked lib st env rs res ws (ww_disk w) = (d, Inr (ws1, r))"
    and f: "write_state (we_write_fault env)
      (normalize_baseline (ws1\<lparr>ws_version := ''v1'', ws_updated_at := format_rfc3339 (we_now env)\<rparr>)) (ww_state w) = (f, None)"
    and w': "w' = w\<lparr>ww_lock := None, ww_disk := d, ww_state := f\<rparr>"
    using assms(1)
    by (auto simp: with_locked_state_def Let_def split: if_splits prod.splits option.splits sum.splits state_error.splits)
  define ws' where "ws' = normalize_baseline (ws1\<lparr>ws_version := ''v1'', ws_updated_at := format_rfc3339 (we_now env)\<rparr>)"
  have "f = Content ws'"
    using f write_json_atomic_ok [of False False "we_write_fault env" ws' "ww_state w"]
    unfolding write_state_def ws'_def [symmetric] by (auto split: prod.splits)
  moreover note k = ingest_locked_ok [OF i, folded obs_def]
  have "pairs (ws_baseline ws') = pairs (ws_baseline ws) \<union> (\<Union>ob \<in> set obs. observed ob)"
    using k(4) load_state_named [OF ws] observed_named by (auto simp: ws'_def pairs_normalized)
  ultimately show ?thesis using ws w' k by auto
qed


section \<open>An ingest\<close>

definition demo_wrkr_env :: wrkr_env where
  "demo_wrkr_env = \<lparr>we_dir_made = True, we_lock_ttl = 0, we_now = 5, we_lock_fault = None, we_cancelled = False,
     we_store_clock = 7, we_write_fault = None\<rparr>"

definition demo_wrkr_record :: "string \<Rightarrow> proof_record" where
  "demo_wrkr_record l = (demo_record l)\<lparr>pr_event := Some [(''n'', VStr l), (''principal_id'', VStr ''bot''),
     (''privilege'', VStr ''admin'')]\<rparr>"

definition demo_decoder :: wrkr_decoder where
  "demo_decoder = \<lparr>wd_record = (\<lambda>l. if l = ''bad'' then None else Some (demo_wrkr_record l)),
     wd_list = (\<lambda>_. None), wd_payload = (\<lambda>_. None)\<rparr>"

definition demo_paths :: "string \<Rightarrow> input_path" where
  "demo_paths p = FilePath (if p = ''a.jsonl'' then TextInput (''r1'' @ [newline] @ ''bad'' @ [newline] @ ''r1'') else NoInput)"

definition demo_wrkr_world :: wrkr_world where
  "demo_wrkr_world = \<lparr>ww_disk = demo_disk, ww_state = Missing, ww_lock = None\<rparr>"

definition demo_ingested :: "wrkr_world \<times> (wrkr_error, wrkr_result) result" where
  "demo_ingested = wrkr_ingest demo_lib demo_decoder demo_paths demo_wrkr_env (Some demo_store) ['' ./a.jsonl'']
     demo_wrkr_world"

definition demo_wrkr_result :: wrkr_result where
  "demo_wrkr_result = \<lparr>wr_input_files = 1, wr_parsed = 2, wr_appended = 1, wr_deduped = 1, wr_rejected = 1,
     wr_record_count = 1, wr_head_hash = ''r1'', wr_reasons = [wrkr_invalid_payload, wrkr_escalation],
     wr_gaps = [\<lparr>dg_status = ''gap'', dg_reason_class = wrkr_escalation, dg_principal = ''bot'', dg_privilege = ''admin'',
       dg_record_id = ''r1''\<rparr>], wr_views = []\<rparr>"

lemma demo_ingested_result: "map_sum id (wr_views_update (\<lambda>_. [])) (snd demo_ingested) = Inr demo_wrkr_result"
  by code_simp


section \<open>The lock between processes\<close>

text \<open>
  The lock file with the process that created it (which the file itself does not name) and its
  modification time. Every system call is one step, so the steps of different processes
  interleave; a process may crash while it holds the lock. \<open>takeover\<close> says whether a lock is ever
  judged stale.
\<close>

datatype phase = Idle | Checking | Removing | Retrying | Holding | Stopped

record lock_sys =
  lk_file :: "(nat \<times> instant) option"
  lk_phase :: "nat \<Rightarrow> phase"
  lk_clock :: instant

inductive lock_step :: "bool \<Rightarrow> duration \<Rightarrow> lock_sys \<Rightarrow> lock_sys \<Rightarrow> bool" for takeover ttl where
  lock_create: "lk_phase s p = Idle \<Longrightarrow> lk_file s = None \<Longrightarrow>
    lock_step takeover ttl s (s\<lparr>lk_file := Some (p, lk_clock s), lk_phase := (lk_phase s)(p := Holding)\<rparr>)"
| lock_exists: "lk_phase s p = Idle \<Longrightarrow> lk_file s \<noteq> None \<Longrightarrow>
    lock_step takeover ttl s (s\<lparr>lk_phase := (lk_phase s)(p := Checking)\<rparr>)"
| lock_fresh: "lk_phase s p = Checking \<Longrightarrow>
    (case lk_file s of None \<Rightarrow> True | Some (_, t) \<Rightarrow> \<not> lock_is_stale ttl (lk_clock s) t) \<Longrightarrow>
    lock_step takeover ttl s (s\<lparr>lk_phase := (lk_phase s)(p := Stopped)\<rparr>)"
| lock_stale: "lk_phase s p = Checking \<Longrightarrow> takeover \<Longrightarrow> lk_file s = Some (q, t) \<Longrightarrow>
    lock_is_stale ttl (lk_clock s) t \<Longrightarrow>
    lock_step takeover ttl s (s\<lparr>lk_phase := (lk_phase s)(p := Removing)\<rparr>)"
| lock_remove: "lk_phase s p = Removing \<Longrightarrow>
    lock_step takeover ttl s (s\<lparr>lk_file := None, lk_phase := (lk_phase s)(p := Retrying)\<rparr>)"
| lock_recreate: "lk_phase s p = Retrying \<Longrightarrow> lk_file s = None \<Longrightarrow>
    lock_step takeover ttl s (s\<lparr>lk_file := Some (p, lk_clock s), lk_phase := (lk_phase s)(p := Holding)\<rparr>)"
| lock_lost: "lk_phase s p = Retrying \<Longrightarrow> lk_file s \<noteq> None \<Longrightarrow>
    lock_step takeover ttl s (s\<lparr>lk_phase := (lk_phase s)(p := Stopped)\<rparr>)"
| lock_beat: "lk_phase s p = Holding \<Longrightarrow> lk_file s = Some (q, t) \<Longrightarrow>
    lock_step takeover ttl s (s\<lparr>lk_file := Some (q, lk_clock s)\<rparr>)"
| lock_release: "lk_phase s p = Holding \<Longrightarrow>
    lock_step takeover ttl s (s\<lparr>lk_file := None, lk_phase := (lk_phase s)(p := Stopped)\<rparr>)"
| lock_crash: "lk_phase s p = Holding \<Longrightarrow>
    lock_step takeover ttl s (s\<lparr>lk_phase := (lk_phase s)(p := Stopped)\<rparr>)"
| lock_restart: "lk_phase s p = Stopped \<Longrightarrow>
    lock_step takeover ttl s (s\<lparr>lk_phase := (lk_phase s)(p := Idle)\<rparr>)"
| lock_tick: "lk_clock s \<le> now \<Longrightarrow> lock_step takeover ttl s (s\<lparr>lk_clock := now\<rparr>)"

inductive lock_reachable :: "bool \<Rightarrow> duration \<Rightarrow> lock_sys \<Rightarrow> bool" for takeover ttl where
  lock_start: "lock_reachable takeover ttl \<lparr>lk_file = None, lk_phase = (\<lambda>_. Idle), lk_clock = 0\<rparr>"
| lock_next: "lock_reachable takeover ttl s \<Longrightarrow> lock_step takeover ttl s s' \<Longrightarrow> lock_reachable takeover ttl s'"

definition lock_inv :: "lock_sys \<Rightarrow> bool" where
  \<comment> \<open>a holder owns the file, and nobody is about to remove or replace it\<close>
  "lock_inv s \<longleftrightarrow>
     (\<forall>p. lk_phase s p = Holding \<longrightarrow> (\<exists>t. lk_file s = Some (p, t))) \<and>
     (\<forall>p. lk_phase s p \<noteq> Removing \<and> lk_phase s p \<noteq> Retrying)"

lemma lock_step_inv:
  assumes "lock_step False ttl s s'" and "lock_inv s"
  shows "lock_inv s'"
proof -
  have "p = q" if "lk_phase s p = Holding" "lk_phase s q = Holding" for p q
    using assms(2) that unfolding lock_inv_def by (metis option.inject prod.inject)
  with assms show ?thesis
    by (cases rule: lock_step.cases) (auto simp: lock_inv_def split: if_splits)
qed

lemma lock_reachable_inv: "lock_reachable False ttl s \<Longrightarrow> lock_inv s"
  by (induction rule: lock_reachable.induct) (auto simp: lock_inv_def [of "\<lparr>lk_file = _, lk_phase = _, lk_clock = _\<rparr>"]
      intro: lock_step_inv)

text \<open>
  C37: as long as no lock is judged stale, the lock excludes: in every reachable state of any number of
  processes, in any interleaving of their system calls and with crashes, at most one process holds
  the state, and the lock file is its own.
\<close>
theorem lock_excludes:
  assumes "lock_reachable False ttl s" and "lk_phase s p = Holding" and "lk_phase s q = Holding"
  shows "p = q \<and> (\<exists>t. lk_file s = Some (p, t))"
proof -
  have "lock_inv s" by (rule lock_reachable_inv [OF assms(1)])
  then obtain t u where "lk_file s = Some (p, t)" "lk_file s = Some (q, u)"
    using assms(2,3) unfolding lock_inv_def by blast
  then show ?thesis by simp
qed

lemma lock_excludes_witness:
  "lock_reachable False 0 \<lparr>lk_file = Some (1, 0), lk_phase = (\<lambda>_. Idle)(1 := Holding), lk_clock = 0\<rparr> \<and>
   (\<exists>t. lk_file \<lparr>lk_file = Some (1, 0), lk_phase = (\<lambda>_. Idle)(1 := Holding), lk_clock = 0\<rparr> = Some (1, t))"
proof -
  let ?s = "\<lparr>lk_file = Some (1, 0), lk_phase = (\<lambda>_. Idle)(1 := Holding), lk_clock = 0\<rparr>"
  have "lock_reachable False 0 ?s"
    using lock_next [OF lock_start lock_create [of _ 1 False 0]] by simp
  with lock_excludes [OF this, of 1 1] show ?thesis by simp
qed

text \<open>
  A stale lock can be taken over twice: process 0 crashes with the lock, 1 and 2 both find it stale, 1
  removes and creates it, and 2 then removes the new lock, which is 1's, and creates its own.
\<close>
definition race_state :: "(nat \<times> instant) option \<Rightarrow> phase \<Rightarrow> phase \<Rightarrow> phase \<Rightarrow> instant \<Rightarrow> lock_sys" where
  "race_state f a b c t = \<lparr>lk_file = f, lk_phase = (\<lambda>_. Idle)(0 := a, 1 := b, 2 := c), lk_clock = t\<rparr>"

lemma race_state_simps [simp]:
  "lk_file (race_state f a b c t) = f" "lk_clock (race_state f a b c t) = t"
  "lk_phase (race_state f a b c t) 0 = a" "lk_phase (race_state f a b c t) 1 = b" "lk_phase (race_state f a b c t) 2 = c"
  "lk_phase (race_state f a b c t) (Suc 0) = b"
  by (simp_all add: race_state_def)

lemma race_state_moves [simp]:
  "(race_state f a b c t)\<lparr>lk_phase := (lk_phase (race_state f a b c t))(0 := x)\<rparr> = race_state f x b c t"
  "(race_state f a b c t)\<lparr>lk_phase := (lk_phase (race_state f a b c t))(1 := x)\<rparr> = race_state f a x c t"
  "(race_state f a b c t)\<lparr>lk_phase := (lk_phase (race_state f a b c t))(2 := x)\<rparr> = race_state f a b x t"
  "(race_state f a b c t)\<lparr>lk_file := g, lk_phase := (lk_phase (race_state f a b c t))(0 := x)\<rparr> = race_state g x b c t"
  "(race_state f a b c t)\<lparr>lk_file := g, lk_phase := (lk_phase (race_state f a b c t))(1 := x)\<rparr> = race_state g a x c t"
  "(race_state f a b c t)\<lparr>lk_file := g, lk_phase := (lk_phase (race_state f a b c t))(2 := x)\<rparr> = race_state g a b x t"
  "(race_state f a b c t)\<lparr>lk_clock := u\<rparr> = race_state f a b c u"
  by (auto simp: race_state_def fun_eq_iff)

lemmas race_state_moves_Suc [simp] = race_state_moves [unfolded One_nat_def]

lemma stale_lock_taken_twice:
  "lock_reachable True 0 (race_state (Some (2, 6 * minute_ns)) Stopped Holding Holding (6 * minute_ns))"
proof -
  let ?t = "6 * minute_ns"
  have stale: "lock_is_stale 0 ?t 0" by code_simp
  have late: "0 \<le> ?t" by code_simp
  have "lock_reachable True 0 (race_state None Idle Idle Idle 0)"
    using lock_start [of True 0] by (simp add: race_state_def fun_upd_idem)
  from lock_next [OF this lock_create [of _ 0]] have "lock_reachable True 0 (race_state (Some (0, 0)) Holding Idle Idle 0)" by simp
  from lock_next [OF this lock_crash [of _ 0]] have "lock_reachable True 0 (race_state (Some (0, 0)) Stopped Idle Idle 0)" by simp
  from lock_next [OF this lock_tick [of _ ?t]] have "lock_reachable True 0 (race_state (Some (0, 0)) Stopped Idle Idle ?t)"
    using late by simp
  from lock_next [OF this lock_exists [of _ 1]] have "lock_reachable True 0 (race_state (Some (0, 0)) Stopped Checking Idle ?t)"
    by simp
  from lock_next [OF this lock_exists [of _ 2]] have "lock_reachable True 0 (race_state (Some (0, 0)) Stopped Checking Checking ?t)"
    by simp
  from lock_next [OF this lock_stale [of _ 1 _ 0 0]] have "lock_reachable True 0 (race_state (Some (0, 0)) Stopped Removing Checking ?t)"
    using stale by simp
  from lock_next [OF this lock_stale [of _ 2 _ 0 0]] have "lock_reachable True 0 (race_state (Some (0, 0)) Stopped Removing Removing ?t)"
    using stale by simp
  from lock_next [OF this lock_remove [of _ 1]] have "lock_reachable True 0 (race_state None Stopped Retrying Removing ?t)" by simp
  from lock_next [OF this lock_recreate [of _ 1]] have "lock_reachable True 0 (race_state (Some (1, ?t)) Stopped Holding Removing ?t)"
    by simp
  from lock_next [OF this lock_remove [of _ 2]] have "lock_reachable True 0 (race_state None Stopped Holding Retrying ?t)" by simp
  from lock_next [OF this lock_recreate [of _ 2]] show ?thesis by simp
qed

end
