(* ===== verification/Review.thy ===== *)
theory Review
  imports Match Store
begin

text \<open>
  \<open>core/review/review.go\<close>: the daily review pack. The records of one day are ordered, each is given
  the classes of exceptions it shows and a grade of auditability, and the pack counts classes,
  grades, replay tiers and ticket outcomes.
\<close>

section \<open>Reading a record\<close>

definition raw_string :: "gmap \<Rightarrow> string \<Rightarrow> string" where
  \<comment> \<open>\<open>stringFromMap\<close> of the package: not trimmed\<close>
  "raw_string m k = str_or_empty (as_string (mget m k))"

definition lowered :: "gmap \<Rightarrow> string \<Rightarrow> string" where
  "lowered m k = to_lower (trim_space (raw_string m k))"

definition reason_items :: "gvalue option \<Rightarrow> string list" where
  \<comment> \<open>\<open>addReasonCodes\<close>\<close>
  "reason_items v =
     filter (\<lambda>s. s \<noteq> [])
       (case v of
          Some (VStrs ss) \<Rightarrow> map trim_space ss
        | Some (VArr xs) \<Rightarrow> map trim_space (List.map_filter (\<lambda>x. as_string (Some x)) xs)
        | _ \<Rightarrow> [])"

definition reason_codes_from_record :: "proof_record \<Rightarrow> string list" where
  "reason_codes_from_record r =
     sort (dedup (reason_items (mget (pr_event r) ''reason_codes'') @ reason_items (mget (pr_metadata r) ''reason_codes'')))"

definition is_ticket_attachment_record :: "proof_record \<Rightarrow> bool" where
  "is_ticket_attachment_record r \<longleftrightarrow>
     pr_record_type r = ''ticket_attachment'' \<or> lowered (pr_event r) ''kind'' = ''ticket_attachment'' \<or>
     lowered (pr_event r) ''category'' = ''ticket_attachment''"

definition bool_from_record :: "proof_record \<Rightarrow> string \<Rightarrow> bool option" where
  "bool_from_record r k =
     (case map_bool (pr_event r) k of Some b \<Rightarrow> Some b | None \<Rightarrow> map_bool (pr_metadata r) k)"

section \<open>Exceptions and grades\<close>

definition exception_order :: "string list" where
  "exception_order = [''sod'', ''approvals'', ''enrichment'', ''attach'', ''replay'', ''freeze'', ''identity'',
     ''chain-session-gap'']"

definition grade_order :: "string list" where "grade_order = [''high'', ''medium'', ''low'', ''unknown'']"
definition replay_tier_order :: "string list" where "replay_tier_order = [''A'', ''B'', ''C'', ''unknown'']"
definition attach_status_order :: "string list" where
  "attach_status_order = [''attached'', ''retry'', ''dlq'', ''failed'', ''unknown'']"
definition attach_sla_order :: "string list" where
  "attach_sla_order = [''within_sla'', ''breached_sla'', ''unknown'']"

definition reason_class :: "string \<Rightarrow> string option" where
  "reason_class s =
     (if s = ''SOD_MISSING_ACTOR'' \<or> s = ''SOD_REQUESTOR_DEPLOYER'' then Some ''sod''
      else if s = ''FREEZE_WINDOW'' then Some ''freeze''
      else if s = ''ENRICHMENT_LAG'' \<or> s = ''MISSING_QUERY_TAG'' then Some ''enrichment''
      else if s = ''CHAIN_SESSION_GAP'' then Some ''chain-session-gap''
      else if s = ''TICKET_RATE_LIMITED'' \<or> s = ''TICKET_REMOTE_ERROR'' \<or> s = ''TICKET_DLQ'' \<or> s = ''TICKET_REJECTED''
      then Some ''attach''
      else if s = ''REPLAY_FAILED'' \<or> s = ''REPLAY_MISMATCH'' then Some ''replay'' else None)"

definition approval_exception :: "proof_record \<Rightarrow> bool" where
  "approval_exception r \<longleftrightarrow> pr_record_type r = ''approval'' \<and>
     (lowered (pr_event r) ''decision'' \<notin> {[], ''allow''} \<or> map_bool (pr_event r) ''approved'' = Some False)"

definition attach_exception :: "proof_record \<Rightarrow> bool" where
  "attach_exception r \<longleftrightarrow> is_ticket_attachment_record r \<and> lowered (pr_event r) ''status'' \<notin> {[], ''attached''}"

definition replay_exception :: "proof_record \<Rightarrow> bool" where
  "replay_exception r \<longleftrightarrow> pr_record_type r = ''replay_certification'' \<and>
     (map_bool (pr_event r) ''pass'' = Some False \<or> lowered (pr_event r) ''status'' \<notin> {[], ''certified''})"

definition exception_set :: "proof_record \<Rightarrow> string list" where
  \<comment> \<open>the classes entered in \<open>classSet\<close>, in the order of the code\<close>
  "exception_set r =
     List.map_filter reason_class (reason_codes_from_record r) @
     (if snd (identity_weaknesses r) \<noteq> [] then [''identity''] else []) @
     (if approval_exception r then [''approvals''] else []) @
     (if attach_exception r then [''attach''] else []) @
     (if replay_exception r then [''replay''] else [])"

definition classify_exceptions :: "proof_record \<Rightarrow> string list" where
  "classify_exceptions r = filter (\<lambda>c. c \<in> set (exception_set r)) exception_order"

definition declared_grade :: "proof_record \<Rightarrow> string option" where
  "declared_grade r =
     find (\<lambda>v. v = ''high'' \<or> v = ''medium'' \<or> v = ''low'')
       [lowered (pr_metadata r) ''auditability'', lowered (pr_event r) ''auditability'',
        lowered (pr_metadata r) ''auditability_grade'', lowered (pr_event r) ''auditability_grade'']"

definition derive_auditability :: "proof_record \<Rightarrow> string list \<Rightarrow> string" where
  "derive_auditability r classes =
     (case declared_grade r of
        Some g \<Rightarrow> g
      | None \<Rightarrow>
          if classes = [] then ''high''
          else if list_ex (\<lambda>c. c = ''replay'' \<or> c = ''attach'' \<or> c = ''chain-session-gap'' \<or> c = ''identity'') classes
          then ''low'' else ''medium'')"

section \<open>The pack\<close>

type_synonym counts = "(string \<times> nat) list"

definition initialize_counts :: "string list \<Rightarrow> counts" where
  "initialize_counts ks = map (\<lambda>k. (k, 0)) ks"

definition bump :: "string \<Rightarrow> counts \<Rightarrow> counts" where
  \<comment> \<open>\<open>counts[key]++\<close>\<close>
  "bump k m = AList.update k (Suc (case map_of m k of None \<Rightarrow> 0 | Some n \<Rightarrow> n)) m"

definition known_or_unknown :: "counts \<Rightarrow> string \<Rightarrow> string" where
  "known_or_unknown m k = (if map_of m k = None then ''unknown'' else k)"

definition to_ordered_counts :: "string list \<Rightarrow> counts \<Rightarrow> (string \<times> nat) list" where
  "to_ordered_counts order m = map (\<lambda>k. (k, case map_of m k of None \<Rightarrow> 0 | Some n \<Rightarrow> n)) order"

record record_review =
  rv_record_id :: string
  rv_record_type :: string
  rv_timestamp :: string
  rv_auditability :: string
  rv_classes :: "string list"

record tally =
  tl_exceptions :: counts
  tl_grades :: counts
  tl_tiers :: counts
  tl_statuses :: counts
  tl_slas :: counts
  tl_attach :: bool
  tl_replay :: bool
  tl_enrichment :: bool
  tl_rows :: "record_review list"

definition empty_tally :: tally where
  "empty_tally = \<lparr>tl_exceptions = initialize_counts exception_order, tl_grades = initialize_counts grade_order,
     tl_tiers = initialize_counts replay_tier_order, tl_statuses = initialize_counts attach_status_order,
     tl_slas = initialize_counts attach_sla_order, tl_attach = False, tl_replay = False, tl_enrichment = False,
     tl_rows = []\<rparr>"

definition sla_key :: "proof_record \<Rightarrow> string" where
  "sla_key r = (case bool_from_record r ''sla_within'' of None \<Rightarrow> ''unknown'' | Some True \<Rightarrow> ''within_sla''
     | Some False \<Rightarrow> ''breached_sla'')"

definition review_record :: "proof_record \<Rightarrow> tally \<Rightarrow> tally" where
  \<comment> \<open>the body of the loop over the records of the day\<close>
  "review_record r t =
     (let classes = classify_exceptions r;
          grade = known_or_unknown (tl_grades t) (derive_auditability r classes);
          replay = (pr_record_type r = ''replay_certification'');
          ticket = is_ticket_attachment_record r;
          tier = known_or_unknown (tl_tiers t) (to_upper (trim_space (raw_string (pr_event r) ''tier'')));
          status = known_or_unknown (tl_statuses t) (lowered (pr_event r) ''status'')
      in \<lparr>tl_exceptions = fold bump classes (tl_exceptions t),
          tl_grades = bump grade (tl_grades t),
          tl_tiers = (if replay then bump tier (tl_tiers t) else tl_tiers t),
          tl_statuses = (if ticket then bump status (tl_statuses t) else tl_statuses t),
          tl_slas = (if ticket then bump (sla_key r) (tl_slas t) else tl_slas t),
          tl_attach = (tl_attach t \<or> ticket), tl_replay = (tl_replay t \<or> replay),
          tl_enrichment = (tl_enrichment t \<or> pr_record_type r = ''data_pipeline_run''),
          tl_rows = tl_rows t @ [\<lparr>rv_record_id = pr_record_id r, rv_record_type = pr_record_type r,
            rv_timestamp = format_rfc3339 (pr_timestamp r), rv_auditability = grade, rv_classes = classes\<rparr>]\<rparr>)"

record review_pack =
  rk_date :: string
  rk_empty :: bool
  rk_record_count :: nat
  rk_exceptions :: "(string \<times> nat) list"
  rk_grades :: "(string \<times> nat) list"
  rk_tiers :: "(string \<times> nat) list"
  rk_statuses :: "(string \<times> nat) list"
  rk_slas :: "(string \<times> nat) list"
  rk_degradation :: "string list"
  rk_records :: "record_review list"

definition on_day :: "instant \<Rightarrow> proof_record \<Rightarrow> bool" where
  "on_day t r \<longleftrightarrow> start_of_day t \<le> pr_timestamp r \<and> pr_timestamp r < start_of_day t + 24 * hour_ns"

definition degradation_flags :: "nat \<Rightarrow> tally \<Rightarrow> string list" where
  "degradation_flags n t =
     (if n = 0 then []
      else sort ((if tl_enrichment t then [] else [''missing_enrichment_feed'']) @
        (if tl_attach t then [] else [''missing_attach_feed'']) @
        (if tl_replay t then [] else [''missing_replay_feed''])))"

definition build_from_records :: "proof_record list \<Rightarrow> instant \<Rightarrow> review_pack" where
  "build_from_records rs t =
     (let target = go_sort record_before (filter (on_day t) rs);
          tally = fold review_record target empty_tally
      in \<lparr>rk_date = format_date (start_of_day t), rk_empty = (target = []), rk_record_count = length target,
          rk_exceptions = to_ordered_counts exception_order (tl_exceptions tally),
          rk_grades = to_ordered_counts grade_order (tl_grades tally),
          rk_tiers = to_ordered_counts replay_tier_order (tl_tiers tally),
          rk_statuses = to_ordered_counts attach_status_order (tl_statuses tally),
          rk_slas = to_ordered_counts attach_sla_order (tl_slas tally),
          rk_degradation = degradation_flags (length target) tally, rk_records = tl_rows tally\<rparr>)"

definition review_build :: "config \<Rightarrow> disk \<Rightarrow> instant \<Rightarrow> instant \<Rightarrow> (string, review_pack) result" where
  \<comment> \<open>\<open>Build\<close>: the store is opened read-only; \<open>now\<close> stands for a zero date\<close>
  "review_build cfg d now date =
     (case open_store None False cfg True d of
        (_, Inl _) \<Rightarrow> Inl ''REVIEW_STORE_UNAVAILABLE''
      | (_, Inr st) \<Rightarrow>
         (case load_chain st d of
            Inl _ \<Rightarrow> Inl ''REVIEW_CHAIN_READ_FAILED''
          | Inr c \<Rightarrow> Inr (build_from_records (ch_records c) (if is_zero_time date then now else date))))"

section \<open>The pack counts every record of the day once\<close>

definition counted_by :: "string list \<Rightarrow> (string \<Rightarrow> proof_record \<Rightarrow> bool) \<Rightarrow> proof_record list \<Rightarrow> counts \<Rightarrow> bool" where
  \<comment> \<open>the map holds, for every key of the order, how many of the records fall under it\<close>
  "counted_by order f rs m \<longleftrightarrow>
     (\<forall>k. map_of m k = (if k \<in> set order then Some (length (filter (f k) rs)) else None))"

lemma counted_by_start: "counted_by order f [] (initialize_counts order)"
proof -
  have "map_of (map (\<lambda>k. (k, 0)) ks) k = (if k \<in> set ks then Some (0 :: nat) else None)" for ks :: "string list" and k
    by (induction ks) auto
  then show ?thesis by (simp add: counted_by_def initialize_counts_def)
qed

lemma map_of_bump: "map_of (bump k m) j = (if j = k then Some (Suc (case map_of m k of None \<Rightarrow> 0 | Some n \<Rightarrow> n)) else map_of m j)"
  by (simp add: bump_def)

lemma counted_by_bump:
  assumes "counted_by order f rs m" and "k \<in> set order" and "\<And>j. j \<in> set order \<Longrightarrow> f j r \<longleftrightarrow> j = k"
  shows "counted_by order f (rs @ [r]) (bump k m)"
  using assms by (auto simp: counted_by_def map_of_bump)

lemma counted_by_skip:
  assumes "counted_by order f rs m" and "\<And>j. j \<in> set order \<Longrightarrow> \<not> f j r"
  shows "counted_by order f (rs @ [r]) m"
  using assms by (auto simp: counted_by_def)

lemma map_of_fold_bump:
  assumes "distinct ks" and "set ks \<subseteq> dom (map_of m)"
  shows "map_of (fold bump ks m) j = (if j \<in> set ks then map_option Suc (map_of m j) else map_of m j)"
  using assms
proof (induction ks arbitrary: m)
  case (Cons k ks)
  then have "set ks \<subseteq> dom (map_of (bump k m))" by (auto simp: map_of_bump)
  with Cons show ?case by (auto simp: map_of_bump)
qed simp

lemma counted_by_fold:
  assumes "counted_by order f rs m" and "distinct ks" and "set ks \<subseteq> set order"
    and "\<And>j. j \<in> set order \<Longrightarrow> f j r \<longleftrightarrow> j \<in> set ks"
  shows "counted_by order f (rs @ [r]) (fold bump ks m)"
proof -
  have "set ks \<subseteq> dom (map_of m)" using assms(1,3) by (auto simp: counted_by_def)
  from map_of_fold_bump [OF assms(2) this] assms show ?thesis by (auto simp: counted_by_def)
qed

lemma counted_by_if:
  assumes "counted_by order (\<lambda>k r. P r \<and> g r = k) rs m" and "g r \<in> set order"
  shows "counted_by order (\<lambda>k r. P r \<and> g r = k) (rs @ [r]) (if P r then bump (g r) m else m)"
proof (cases "P r")
  case True
  with counted_by_bump [OF assms] show ?thesis by auto
next
  case False
  with counted_by_skip [OF assms(1)] show ?thesis by simp
qed

lemma counted_by_ordered:
  "counted_by order f rs m \<Longrightarrow> to_ordered_counts order m = map (\<lambda>k. (k, length (filter (f k) rs))) order"
  by (auto simp: counted_by_def to_ordered_counts_def)

lemma counted_by_known:
  "counted_by order f rs m \<Longrightarrow> known_or_unknown m k = (if k \<in> set order then k else ''unknown'')"
  by (auto simp: counted_by_def known_or_unknown_def)

definition in_table :: "string list \<Rightarrow> string \<Rightarrow> string" where
  "in_table order k = (if k \<in> set order then k else ''unknown'')"

definition grade_of :: "proof_record \<Rightarrow> string" where
  "grade_of r = derive_auditability r (classify_exceptions r)"

definition tier_of :: "proof_record \<Rightarrow> string" where
  "tier_of r = in_table replay_tier_order (to_upper (trim_space (raw_string (pr_event r) ''tier'')))"

definition status_of :: "proof_record \<Rightarrow> string" where
  "status_of r = in_table attach_status_order (lowered (pr_event r) ''status'')"

definition is_replay :: "proof_record \<Rightarrow> bool" where
  "is_replay r \<longleftrightarrow> pr_record_type r = ''replay_certification''"

definition tally_of :: "proof_record list \<Rightarrow> tally \<Rightarrow> bool" where
  "tally_of rs t \<longleftrightarrow>
     counted_by exception_order (\<lambda>c r. c \<in> set (classify_exceptions r)) rs (tl_exceptions t) \<and>
     counted_by grade_order (\<lambda>g r. grade_of r = g) rs (tl_grades t) \<and>
     counted_by replay_tier_order (\<lambda>k r. is_replay r \<and> tier_of r = k) rs (tl_tiers t) \<and>
     counted_by attach_status_order (\<lambda>k r. is_ticket_attachment_record r \<and> status_of r = k) rs (tl_statuses t) \<and>
     counted_by attach_sla_order (\<lambda>k r. is_ticket_attachment_record r \<and> sla_key r = k) rs (tl_slas t) \<and>
     tl_rows t = map (\<lambda>r. \<lparr>rv_record_id = pr_record_id r, rv_record_type = pr_record_type r,
       rv_timestamp = format_rfc3339 (pr_timestamp r), rv_auditability = grade_of r,
       rv_classes = classify_exceptions r\<rparr>) rs"

lemma tally_of_empty: "tally_of [] empty_tally"
  by (simp add: tally_of_def empty_tally_def counted_by_start)

lemma grade_known: "grade_of r \<in> set grade_order"
proof -
  have "declared_grade r = Some g \<Longrightarrow> g \<in> {''high'', ''medium'', ''low''}" for g
    unfolding declared_grade_def by (drule find_SomeD) auto
  then show ?thesis by (auto simp: grade_of_def derive_auditability_def grade_order_def split: option.splits)
qed

lemma in_table_known: "''unknown'' \<in> set order \<Longrightarrow> in_table order k \<in> set order"
  by (simp add: in_table_def)

lemma orders_have_unknown:
  "''unknown'' \<in> set replay_tier_order" "''unknown'' \<in> set attach_status_order" "sla_key r \<in> set attach_sla_order"
  by (simp_all add: replay_tier_order_def attach_status_order_def attach_sla_order_def sla_key_def
      split: option.split bool.split)

lemma classes_in_order: "distinct (classify_exceptions r)" "set (classify_exceptions r) \<subseteq> set exception_order"
  by (auto simp: classify_exceptions_def exception_order_def intro: distinct_filter)

lemma review_record_tally:
  assumes "tally_of rs t"
  shows "tally_of (rs @ [r]) (review_record r t)"
proof -
  note a = assms [unfolded tally_of_def]
  have grade: "known_or_unknown (tl_grades t) (derive_auditability r (classify_exceptions r)) = grade_of r"
  proof -
    have "counted_by grade_order (\<lambda>g r. grade_of r = g) rs (tl_grades t)" using a by blast
    from counted_by_known [OF this] grade_known [of r] show ?thesis by (simp add: grade_of_def [symmetric])
  qed
  have tier: "known_or_unknown (tl_tiers t) k = in_table replay_tier_order k" for k
    using a counted_by_known unfolding in_table_def by blast
  have status: "known_or_unknown (tl_statuses t) k = in_table attach_status_order k" for k
    using a counted_by_known unfolding in_table_def by blast
  have 1: "counted_by exception_order (\<lambda>c r. c \<in> set (classify_exceptions r)) (rs @ [r])
      (fold bump (classify_exceptions r) (tl_exceptions t))"
    by (rule counted_by_fold) (use a classes_in_order [of r] in auto)
  have 2: "counted_by grade_order (\<lambda>g r. grade_of r = g) (rs @ [r]) (bump (grade_of r) (tl_grades t))"
    by (rule counted_by_bump) (use a grade_known in auto)
  have 3: "counted_by replay_tier_order (\<lambda>k r. is_replay r \<and> tier_of r = k) (rs @ [r])
      (if is_replay r then bump (tier_of r) (tl_tiers t) else tl_tiers t)"
    by (rule counted_by_if) (use a in_table_known [OF orders_have_unknown(1)] in \<open>auto simp: tier_of_def\<close>)
  have 4: "counted_by attach_status_order (\<lambda>k r. is_ticket_attachment_record r \<and> status_of r = k) (rs @ [r])
      (if is_ticket_attachment_record r then bump (status_of r) (tl_statuses t) else tl_statuses t)"
    by (rule counted_by_if) (use a in_table_known [OF orders_have_unknown(2)] in \<open>auto simp: status_of_def\<close>)
  have 5: "counted_by attach_sla_order (\<lambda>k r. is_ticket_attachment_record r \<and> sla_key r = k) (rs @ [r])
      (if is_ticket_attachment_record r then bump (sla_key r) (tl_slas t) else tl_slas t)"
    by (rule counted_by_if) (use a orders_have_unknown(3) in auto)
  show ?thesis
    unfolding tally_of_def
    using 1 2 3 4 5 a
    by (simp add: review_record_def Let_def grade tier status tier_of_def [symmetric] status_of_def [symmetric]
        is_replay_def [symmetric])
qed

lemma fold_review_tally: "tally_of rs t \<Longrightarrow> tally_of (rs @ target) (fold review_record target t)"
proof (induction target arbitrary: rs t)
  case (Cons r target)
  from Cons.IH [OF review_record_tally [OF Cons.prems]] show ?case by simp
qed simp

lemma length_filter_go_sort: "length (filter P (go_sort lt xs)) = length (filter P xs)"
  by (metis mset_filter mset_go_sort size_mset)

lemma counted_by_sorted:
  "counted_by order f (go_sort lt xs) m \<Longrightarrow>
   to_ordered_counts order m = map (\<lambda>k. (k, length (filter (f k) xs))) order"
  by (simp add: counted_by_ordered length_filter_go_sort)

text \<open>
  C39: the review pack counts every record of the day exactly once: a class as often as records show
  it, a grade as often as records have it, tiers over the replay records and outcomes and SLAs over
  the ticket records, where values outside the tables count as unknown; nothing of another day is
  counted.
\<close>
theorem review_counts_the_day:
  "let p = build_from_records rs t; target = filter (on_day t) rs in
     rk_record_count p = length target \<and>
     rk_exceptions p = map (\<lambda>c. (c, length (filter (\<lambda>r. c \<in> set (classify_exceptions r)) target))) exception_order \<and>
     rk_grades p = map (\<lambda>g. (g, length (filter (\<lambda>r. grade_of r = g) target))) grade_order \<and>
     rk_tiers p = map (\<lambda>k. (k, length (filter (\<lambda>r. is_replay r \<and> tier_of r = k) target))) replay_tier_order \<and>
     rk_statuses p = map (\<lambda>k. (k, length (filter (\<lambda>r. is_ticket_attachment_record r \<and> status_of r = k) target)))
       attach_status_order \<and>
     rk_slas p = map (\<lambda>k. (k, length (filter (\<lambda>r. is_ticket_attachment_record r \<and> sla_key r = k) target)))
       attach_sla_order \<and>
     map rv_record_id (rk_records p) = map pr_record_id (go_sort record_before target)"
proof -
  have "tally_of (go_sort record_before (filter (on_day t) rs))
      (fold review_record (go_sort record_before (filter (on_day t) rs)) empty_tally)"
    using fold_review_tally [OF tally_of_empty] by simp
  note a = this [unfolded tally_of_def]
  show ?thesis
    unfolding Let_def build_from_records_def review_pack.simps
    by (intro conjI; (rule counted_by_sorted [where lt = record_before])?; (use a in \<open>simp add: comp_def\<close>)?)
qed

end
