(* ===== verification/Release.thy ===== *)
theory Release
  imports Packet Ticket
begin

text \<open>
  \<open>core/governance/authoritative_release.go\<close>: the verification of a published release directory, from
  its manifest and the externally trusted digest of its public key to the signed register and
  packet, the compressed bundle and the normative schemas. A directory is a function from paths to
  bytes; strict JSON decoding, SHA-256, canonical digests, signatures, the schemas and the reading
  of the compressed archive are the fields of \<open>release_lib\<close>.
\<close>

section \<open>Data\<close>

record release_file =
  rf_path :: string
  rf_sha256 :: string

record release_schema =
  rs_path :: string
  rs_sha256 :: string
  rs_schema_id :: string
  rs_schema_version :: string

record release_manifest =
  rm_version :: string
  rm_tag :: string
  rm_commit :: string
  rm_authoritative :: bool
  rm_fixture_only :: bool
  rm_non_authoritative :: bool
  rm_quarantine :: bool
  rm_producer :: "string \<times> string \<times> string"               \<comment> \<open>name, version, kind\<close>
  rm_generator :: "string \<times> string"
  rm_workflow :: "string \<times> string \<times> string \<times> string"      \<comment> \<open>name, ref, run id, repository\<close>
  rm_algorithm :: string
  rm_key_path :: string
  rm_key_sha256 :: string
  rm_key_origin :: string
  rm_artifacts :: "(string \<times> string) list"
  rm_schemas :: "release_schema list"
  rm_files :: "release_file list"

record archive_entry =
  ae_regular :: bool
  ae_name :: string
  ae_payload :: "string option"      \<comment> \<open>\<open>None\<close>: reading it fails\<close>

record archive =
  ac_entries :: "archive_entry list"
  ac_ends :: bool                    \<comment> \<open>the archive ends without an error\<close>
  ac_closes :: bool

record release_lib =
  xl_manifest :: "string \<Rightarrow> release_manifest option"
  xl_register :: "string \<Rightarrow> register option"
  xl_packet :: "string \<Rightarrow> packet option"
  xl_sha256 :: "string \<Rightarrow> string"
  xl_register_jcs :: "register \<Rightarrow> string option"
  xl_packet_jcs :: "packet \<Rightarrow> string option"
  xl_contract_jcs :: "contract \<Rightarrow> string option"
  xl_key_id :: "string \<Rightarrow> string"
  xl_verify :: "string \<Rightarrow> signature \<Rightarrow> bool option"
  xl_register_schema_ok :: "string \<Rightarrow> bool"
  xl_packet_schema_ok :: "string \<Rightarrow> bool"
  xl_archive :: "string \<Rightarrow> archive option"
  xl_schema_name :: "string \<Rightarrow> string option"        \<comment> \<open>the \<open>$id\<close> of a JSON document\<close>
  xl_register_schema :: string
  xl_packet_schema :: string

type_synonym release_dir = "string \<Rightarrow> string option"
type_synonym release_files = "(string \<times> release_file) list"

section \<open>Paths and digests\<close>

definition release_digest :: "release_lib \<Rightarrow> string \<Rightarrow> string" where
  "release_digest lib raw = ''sha256:'' @ xl_sha256 lib raw"

definition safe_release_path :: "string \<Rightarrow> bool" where
  "safe_release_path p \<longleftrightarrow>
     (let c = clean_path p in
      c = p \<and> c \<noteq> ''.'' \<and> \<not> has_prefix c ''../'' \<and> \<not> contains c ''/../'' \<and> \<not> has_prefix p ''/'')"

definition read_release_file :: "release_dir \<Rightarrow> string \<Rightarrow> string option" where
  "read_release_file dir p = (if safe_release_path p then dir p else None)"

definition peeled_commit_ok :: "string \<Rightarrow> bool" where
  "peeled_commit_ok s \<longleftrightarrow> length s = 40 \<and> list_all is_hex s"

definition find_release_artifact :: "release_files \<Rightarrow> string \<Rightarrow> string" where
  "find_release_artifact files kind =
     (case sort (filter (\<lambda>p. contains p kind) (map fst files)) of [] \<Rightarrow> [] | p # _ \<Rightarrow> p)"

definition bundle_name_for_release :: "release_files \<Rightarrow> string" where
  \<comment> \<open>the code takes an arbitrary one of several, the model the first\<close>
  "bundle_name_for_release files =
     (case find (\<lambda>p. suffix ''-bundle.tar.gz'' p) (map fst files) of None \<Rightarrow> [] | Some p \<Rightarrow> p)"

definition file_digest :: "release_files \<Rightarrow> string \<Rightarrow> string" where
  "file_digest files p = (case map_of files p of None \<Rightarrow> [] | Some f \<Rightarrow> rf_sha256 f)"

definition listed :: "release_files \<Rightarrow> string \<Rightarrow> bool" where
  \<comment> \<open>\<open>files[path].Path != ""\<close>\<close>
  "listed files p \<longleftrightarrow> (case map_of files p of None \<Rightarrow> False | Some f \<Rightarrow> rf_path f \<noteq> [])"

fun load_files :: "release_lib \<Rightarrow> release_dir \<Rightarrow> release_files \<Rightarrow> release_file list \<Rightarrow> (string, release_files) result" where
  "load_files lib dir files [] = Inr files"
| "load_files lib dir files (f # fs) =
     (if rf_path f = [] \<or> \<not> safe_release_path (rf_path f) \<or> \<not> digest_ok (rf_sha256 f) \<or> listed files (rf_path f)
      then Inl ''authoritative release file manifest is invalid''
      else case read_release_file dir (rf_path f) of
        None \<Rightarrow> Inl ''authoritative release file digest mismatch''
      | Some raw \<Rightarrow>
          if release_digest lib raw \<noteq> rf_sha256 f then Inl ''authoritative release file digest mismatch''
          else load_files lib dir (AList.update (rf_path f) f files) fs)"

section \<open>The compressed bundle\<close>

definition bundle_prefix :: string where "bundle_prefix = ''authoritative-governance/''"

fun bundle_entries :: "release_lib \<Rightarrow> release_files \<Rightarrow> string list \<Rightarrow> archive_entry list \<Rightarrow> string list option" where
  \<comment> \<open>the names seen\<close>
  "bundle_entries lib files seen [] = Some seen"
| "bundle_entries lib files seen (e # es) =
     (let name = trim_prefix (ae_name e) bundle_prefix in
      if \<not> ae_regular e \<or> \<not> has_prefix (ae_name e) bundle_prefix then None
      else if name = bundle_name_for_release files \<or> \<not> safe_release_path name \<or> name \<in> set seen then None
      else case map_of files name of
        None \<Rightarrow> None
      | Some item \<Rightarrow>
         (case ae_payload e of
            None \<Rightarrow> None
          | Some payload \<Rightarrow>
              if release_digest lib payload \<noteq> rf_sha256 item then None
              else bundle_entries lib files (name # seen) es))"

definition verify_release_bundle :: "release_lib \<Rightarrow> string \<Rightarrow> release_files \<Rightarrow> bool" where
  "verify_release_bundle lib raw files \<longleftrightarrow>
     (case xl_archive lib raw of
        None \<Rightarrow> False
      | Some a \<Rightarrow>
         (case bundle_entries lib files [] (ac_entries a) of
            None \<Rightarrow> False
          | Some seen \<Rightarrow> ac_ends a \<and> ac_closes a \<and>
              list_all (\<lambda>n. n = bundle_name_for_release files \<or> n \<in> set seen) (map fst files)))"

section \<open>Schemas\<close>

definition expected_schemas :: "(string \<times> string \<times> string) list" where
  "expected_schemas =
     [(''axym-authoritative-action-contract-register.schema.json'', register_schema_id, schema_version),
      (''axym-authoritative-action-contract-evidence-packet.schema.json'', packet_schema_id, schema_version)]"

fun check_schemas :: "release_lib \<Rightarrow> release_dir \<Rightarrow> release_files \<Rightarrow> string list \<Rightarrow> release_schema list \<Rightarrow> string option" where
  "check_schemas lib dir files seen [] = None"
| "check_schemas lib dir files seen (s # ss) =
     (if rs_path s = [] \<or> \<not> safe_release_path (rs_path s) \<or> \<not> digest_ok (rs_sha256 s) \<or> rs_schema_id s = [] \<or>
         rs_schema_version s = [] then Some ''authoritative schema manifest is invalid''
      else if (case map_of expected_schemas (rs_path s) of
           None \<Rightarrow> True
         | Some (i, v) \<Rightarrow> rs_path s \<in> set seen \<or> rs_schema_id s \<noteq> i \<or> rs_schema_version s \<noteq> v \<or>
             \<not> listed files (rs_path s))
      then Some ''authoritative schema manifest is incomplete or non-normative''
      else case read_release_file dir (rs_path s) of
        None \<Rightarrow> Some ''authoritative schema digest mismatch''
      | Some raw \<Rightarrow>
          if release_digest lib raw \<noteq> rs_sha256 s then Some ''authoritative schema digest mismatch''
          else if xl_schema_name lib raw \<noteq> Some (rs_schema_id s) then Some ''authoritative schema identity mismatch''
          else if raw \<noteq> (if rs_schema_id s = packet_schema_id then xl_packet_schema lib else xl_register_schema lib)
          then Some ''authoritative schema does not match the embedded normative schema''
          else check_schemas lib dir files (rs_path s # seen) ss)"

section \<open>The verification\<close>

definition manifest_ok :: "string \<Rightarrow> string \<Rightarrow> release_manifest \<Rightarrow> string option" where
  \<comment> \<open>the checks before any other file is read\<close>
  "manifest_ok tag sha m =
     (let (name, version, kind) = rm_producer m; (gname, gversion) = rm_generator m;
          (wname, _, _, repository) = rm_workflow m in
      if rm_version m \<noteq> ''v1'' \<or> \<not> rm_authoritative m \<or> rm_fixture_only m \<or> rm_non_authoritative m \<or> rm_quarantine m
      then Some ''authoritative release manifest contains fixture or quarantine markers''
      else if trim_space (rm_tag m) = [] \<or> (tag \<noteq> [] \<and> rm_tag m \<noteq> tag) \<or> \<not> peeled_commit_ok (rm_commit m) \<or>
        (sha \<noteq> [] \<and> rm_commit m \<noteq> sha) then Some ''authoritative release identity is invalid''
      else if name \<noteq> ''axym'' \<or> version = [] \<or> kind = [] \<or> gname = [] \<or> gversion = [] \<or> wname = [] \<or> repository = []
      then Some ''authoritative release ownership metadata is incomplete''
      else if rm_algorithm m \<noteq> ''ed25519'' \<or> rm_key_origin m \<noteq> ''release_time_generated'' \<or> rm_key_path m = [] \<or>
        \<not> digest_ok (rm_key_sha256 m) then Some ''authoritative release signing metadata is invalid''
      else None)"

definition release_key :: "release_lib \<Rightarrow> release_dir \<Rightarrow> release_files \<Rightarrow> release_manifest \<Rightarrow> string \<Rightarrow> (string, string) result" where
  \<comment> \<open>the public key, once its digest is the listed and the trusted one\<close>
  "release_key lib dir files m trusted =
     (case read_release_file dir (rm_key_path m) of
        None \<Rightarrow> Inl ''read authoritative release public key''
      | Some raw \<Rightarrow>
          if release_digest lib raw \<noteq> rm_key_sha256 m then Inl ''authoritative release public key digest mismatch''
          else if \<not> listed files (rm_key_path m) \<or> file_digest files (rm_key_path m) \<noteq> rm_key_sha256 m
          then Inl ''authoritative public key is not included in the file manifest''
          else if rm_key_sha256 m \<noteq> trusted then Inl ''authoritative release public key is not externally trusted''
          else (case base64_decode (trim_space raw) of
              Some k \<Rightarrow> if length k = 32 then Inr k else Inl ''authoritative release public key is invalid''
            | None \<Rightarrow> Inl ''authoritative release public key is invalid''))"

definition release_text :: "release_dir \<Rightarrow> string \<Rightarrow> string" where
  \<comment> \<open>\<open>raw, _ := readReleaseFile(...)\<close>\<close>
  "release_text dir p = (case read_release_file dir p of None \<Rightarrow> [] | Some raw \<Rightarrow> raw)"

definition release_register :: "release_lib \<Rightarrow> release_dir \<Rightarrow> string \<Rightarrow> string \<Rightarrow> (string, register) result" where
  "release_register lib dir key p =
     (if p = [] then Inl ''authoritative release register is missing''
      else case xl_register lib (release_text dir p) of
        None \<Rightarrow> Inl ''decode authoritative register''
      | Some r \<Rightarrow>
          if verify_signed_register (xl_register_jcs lib) (xl_key_id lib) (xl_verify lib) key r \<noteq> None
          then Inl ''verify authoritative register''
          else if \<not> xl_register_schema_ok lib (release_text dir p) then Inl ''validate authoritative register schema''
          else Inr r)"

definition release_packet :: "release_lib \<Rightarrow> release_dir \<Rightarrow> string \<Rightarrow> string \<Rightarrow> (string, packet) result" where
  "release_packet lib dir key p =
     (if p = [] then Inl ''authoritative release packet is missing''
      else case xl_packet lib (release_text dir p) of
        None \<Rightarrow> Inl ''decode authoritative packet''
      | Some r \<Rightarrow>
          if verify_signed_packet (xl_packet_jcs lib) (xl_key_id lib) (xl_verify lib) key r \<noteq> None
          then Inl ''verify authoritative packet''
          else if \<not> xl_packet_schema_ok lib (release_text dir p) then Inl ''validate authoritative packet schema''
          else Inr r)"

definition same_key_id :: "register \<Rightarrow> packet \<Rightarrow> bool" where
  "same_key_id r p \<longleftrightarrow>
     (case (rg_signature r, pk_signature p) of (Some a, Some b) \<Rightarrow> sg_key_id b = sg_key_id a | _ \<Rightarrow> False)"

definition exact_evidence :: "packet \<Rightarrow> bool" where
  "exact_evidence p \<longleftrightarrow>
     list_all (\<lambda>e. evd_contract_ref e = gc_causal_ref (pk_contract p) \<and> ref_id (evd_provenance e) \<noteq> [] \<and>
       ref_digest (evd_provenance e) \<noteq> []) (pk_evidence p)"

definition contract_digest_or_empty :: "release_lib \<Rightarrow> contract \<Rightarrow> string" where
  "contract_digest_or_empty lib c = (case gov_digest (xl_contract_jcs lib) c of None \<Rightarrow> [] | Some d \<Rightarrow> d)"

definition check_pair ::
  "release_lib \<Rightarrow> release_dir \<Rightarrow> release_files \<Rightarrow> release_manifest \<Rightarrow> register \<Rightarrow> packet \<Rightarrow> string \<Rightarrow> string \<Rightarrow> string option" where
  \<comment> \<open>from the relationship of register and packet to the end\<close>
  "check_pair lib dir files m r p rpath ppath =
     (if length (rg_contracts r) \<noteq> 1 \<or> \<not> same_key_id r p
      then Some ''authoritative register and packet relationship mismatch''
      else if contract_digest_or_empty lib (hd (rg_contracts r)) \<noteq> contract_digest_or_empty lib (pk_contract p)
      then Some ''authoritative register and packet contract drift''
      else if str_or_empty (map_of (rm_artifacts m) ''register'') \<noteq> file_digest files rpath \<or>
        str_or_empty (map_of (rm_artifacts m) ''packet'') \<noteq> file_digest files ppath
      then Some ''authoritative artifact digest manifest mismatch''
      else let bpath = find_release_artifact files ''bundle'' in
        if bpath = [] \<or> str_or_empty (map_of (rm_artifacts m) ''bundle'') \<noteq> file_digest files bpath
        then Some ''authoritative bundle digest manifest mismatch''
        else if (case read_release_file dir bpath of None \<Rightarrow> True | Some raw \<Rightarrow> \<not> verify_release_bundle lib raw files)
        then Some ''authoritative compressed bundle contents mismatch''
        else if \<not> exact_evidence p then Some ''authoritative packet contains an inexact relationship reference''
        else if length (rm_schemas m) \<noteq> length expected_schemas
        then Some ''authoritative release must publish exactly both normative schemas''
        else check_schemas lib dir files [] (rm_schemas m))"

definition manifest_name :: string where
  "manifest_name = ''axym-authoritative-action-contract-manifest.json''"

definition verify_authoritative_release ::
  "release_lib \<Rightarrow> release_dir \<Rightarrow> string \<Rightarrow> string \<Rightarrow> string \<Rightarrow> string option" where
  "verify_authoritative_release lib dir tag sha trusted =
     (case read_release_file dir manifest_name of
        None \<Rightarrow> Some ''read authoritative release manifest''
      | Some raw \<Rightarrow>
         (case xl_manifest lib raw of
            None \<Rightarrow> Some ''decode authoritative release manifest''
          | Some m \<Rightarrow>
             (case manifest_ok tag sha m of
                Some e \<Rightarrow> Some e
              | None \<Rightarrow>
                 (case load_files lib dir [] (rm_files m) of
                    Inl e \<Rightarrow> Some e
                  | Inr files \<Rightarrow>
                     (case release_key lib dir files m trusted of
                        Inl e \<Rightarrow> Some e
                      | Inr key \<Rightarrow>
                         (let rpath = find_release_artifact files ''register''; ppath = find_release_artifact files ''packet'' in
                          case release_register lib dir key rpath of
                            Inl e \<Rightarrow> Some e
                          | Inr r \<Rightarrow>
                             (case release_packet lib dir key ppath of
                                Inl e \<Rightarrow> Some e
                              | Inr p \<Rightarrow> check_pair lib dir files m r p rpath ppath)))))))"

definition verify_release_without_anchor :: "release_lib \<Rightarrow> release_dir \<Rightarrow> string \<Rightarrow> string \<Rightarrow> string option" where
  \<comment> \<open>\<open>VerifyAuthoritativeRelease\<close>: without a trust anchor nothing verifies\<close>
  "verify_release_without_anchor lib dir tag sha = Some ''external authoritative release trust anchor is required''"

definition verify_release_with_key_digest ::
  "release_lib \<Rightarrow> release_dir \<Rightarrow> string \<Rightarrow> string \<Rightarrow> string \<Rightarrow> string option" where
  "verify_release_with_key_digest lib dir tag sha trusted =
     (if \<not> digest_ok trusted then Some ''external authoritative release trust anchor is invalid''
      else verify_authoritative_release lib dir tag sha trusted)"

section \<open>What an accepted release is\<close>

definition files_hold :: "release_lib \<Rightarrow> release_dir \<Rightarrow> release_files \<Rightarrow> bool" where
  \<comment> \<open>every listed file lies at its safe path with its digest\<close>
  "files_hold lib dir files \<longleftrightarrow>
     (\<forall>p f. map_of files p = Some f \<longrightarrow> rf_path f = p \<and> p \<noteq> [] \<and> safe_release_path p \<and> digest_ok (rf_sha256 f) \<and>
        (\<exists>raw. dir p = Some raw \<and> release_digest lib raw = rf_sha256 f))"

lemma load_files_hold:
  assumes "load_files lib dir files fs = Inr files'" and "files_hold lib dir files"
  shows "files_hold lib dir files' \<and> fst ` set files' = fst ` set files \<union> rf_path ` set fs \<and> distinct (map rf_path fs) \<and>
    (\<forall>f \<in> set fs. map_of files' (rf_path f) = Some f) \<and>
    (\<forall>p. p \<notin> rf_path ` set fs \<longrightarrow> map_of files' p = map_of files p) \<and> rf_path ` set fs \<inter> fst ` set files = {}"
  using assms
proof (induction fs arbitrary: files)
  case (Cons f fs)
  let ?files = "AList.update (rf_path f) f files"
  obtain raw where ok: "rf_path f \<noteq> []" "safe_release_path (rf_path f)" "digest_ok (rf_sha256 f)"
    "\<not> listed files (rf_path f)" "dir (rf_path f) = Some raw" "release_digest lib raw = rf_sha256 f"
    and l: "load_files lib dir ?files fs = Inr files'"
    using Cons.prems(1) by (auto simp: read_release_file_def split: if_splits option.splits)
  have fresh: "map_of files (rf_path f) = None"
    using ok(1,4) Cons.prems(2) by (auto simp: listed_def files_hold_def split: option.splits)
  have "files_hold lib dir ?files"
    using Cons.prems(2) ok by (auto simp: files_hold_def split: if_splits)
  from Cons.IH [OF l this] have ih: "files_hold lib dir files'"
    "fst ` set files' = fst ` set ?files \<union> rf_path ` set fs" "distinct (map rf_path fs)"
    "\<forall>f \<in> set fs. map_of files' (rf_path f) = Some f"
    "\<forall>p. p \<notin> rf_path ` set fs \<longrightarrow> map_of files' p = map_of ?files p"
    "rf_path ` set fs \<inter> fst ` set ?files = {}" by auto
  have keys: "fst ` set ?files = insert (rf_path f) (fst ` set files)"
    using dom_update [of "rf_path f" f files] by (simp add: dom_map_of_conv_image_fst)
  have nf: "rf_path f \<notin> rf_path ` set fs" using ih(6) keys by auto
  then have "map_of files' (rf_path f) = Some f" using ih(5) by simp
  moreover have "rf_path f \<notin> fst ` set files" using fresh by (simp add: map_of_eq_None_iff)
  ultimately show ?case using ih keys nf by auto
qed simp

lemma bundle_entries_sound:
  assumes "bundle_entries lib files seen es = Some seen'"
  shows "set seen \<subseteq> set seen' \<and>
    (\<forall>n \<in> set seen'. n \<in> set seen \<or>
      (n \<noteq> bundle_name_for_release files \<and>
       (\<exists>f e payload. map_of files n = Some f \<and> e \<in> set es \<and> ae_regular e \<and> ae_name e = bundle_prefix @ n \<and>
          ae_payload e = Some payload \<and> release_digest lib payload = rf_sha256 f)))"
  using assms
proof (induction es arbitrary: seen)
  case (Cons e es)
  define name where "name = trim_prefix (ae_name e) bundle_prefix"
  obtain item payload where e: "ae_regular e" "has_prefix (ae_name e) bundle_prefix"
    "name \<noteq> bundle_name_for_release files" "map_of files name = Some item" "ae_payload e = Some payload"
    "release_digest lib payload = rf_sha256 item"
    and rest: "bundle_entries lib files (name # seen) es = Some seen'"
    using Cons.prems unfolding bundle_entries.simps Let_def name_def [symmetric]
    by (auto split: if_splits option.splits)
  have "ae_name e = bundle_prefix @ name"
    using e(2) by (auto simp: name_def trim_prefix_def has_prefix_def elim: prefixE)
  then have new: "\<exists>f e' payload. map_of files name = Some f \<and> e' \<in> set (e # es) \<and> ae_regular e' \<and>
      ae_name e' = bundle_prefix @ name \<and> ae_payload e' = Some payload \<and> release_digest lib payload = rf_sha256 f"
    using e by (intro exI [of _ item] exI [of _ e] exI [of _ payload]) simp
  note ih = Cons.IH [OF rest]
  show ?case
  proof (intro conjI ballI)
    show "set seen \<subseteq> set seen'" using ih by simp
  next
    fix n assume n: "n \<in> set seen'"
    consider "n \<in> set seen" | "n = name" | "n \<noteq> bundle_name_for_release files"
      "\<exists>f e' payload. map_of files n = Some f \<and> e' \<in> set es \<and> ae_regular e' \<and>
        ae_name e' = bundle_prefix @ n \<and> ae_payload e' = Some payload \<and> release_digest lib payload = rf_sha256 f"
      using conjunct2 [OF ih, rule_format, OF n] by auto
    then show "n \<in> set seen \<or> (n \<noteq> bundle_name_for_release files \<and>
       (\<exists>f e' payload. map_of files n = Some f \<and> e' \<in> set (e # es) \<and> ae_regular e' \<and> ae_name e' = bundle_prefix @ n \<and>
          ae_payload e' = Some payload \<and> release_digest lib payload = rf_sha256 f))"
    proof cases
      case 1 then show ?thesis by (rule disjI1)
    next
      case 2 then show ?thesis using new e(3) by blast
    next
      case 3
      then obtain f e' payload where "map_of files n = Some f" "e' \<in> set (e # es)" "ae_regular e'"
        "ae_name e' = bundle_prefix @ n" "ae_payload e' = Some payload" "release_digest lib payload = rf_sha256 f"
        by (metis list.set_intros(2))
      with 3(1) show ?thesis by blast
    qed
  qed
qed simp

definition release_sound :: "release_lib \<Rightarrow> release_dir \<Rightarrow> string \<Rightarrow> release_manifest \<Rightarrow> release_files \<Rightarrow> bool" where
  \<comment> \<open>what a consumer relies on\<close>
  "release_sound lib dir trusted m files \<longleftrightarrow>
     rm_authoritative m \<and> \<not> rm_fixture_only m \<and> \<not> rm_non_authoritative m \<and> \<not> rm_quarantine m \<and>
     files_hold lib dir files \<and> distinct (map rf_path (rm_files m)) \<and>
     (\<forall>f \<in> set (rm_files m). map_of files (rf_path f) = Some f) \<and>
     (\<exists>raw key r p tarball seen.
        dir (rm_key_path m) = Some raw \<and> release_digest lib raw = trusted \<and> base64_decode (trim_space raw) = Some key \<and>
        length key = 32 \<and>
        xl_register lib (release_text dir (find_release_artifact files ''register'')) = Some r \<and>
        verify_signed_register (xl_register_jcs lib) (xl_key_id lib) (xl_verify lib) key r = None \<and>
        xl_packet lib (release_text dir (find_release_artifact files ''packet'')) = Some p \<and>
        verify_signed_packet (xl_packet_jcs lib) (xl_key_id lib) (xl_verify lib) key p = None \<and>
        length (rg_contracts r) = 1 \<and>
        contract_digest_or_empty lib (hd (rg_contracts r)) = contract_digest_or_empty lib (pk_contract p) \<and>
        exact_evidence p \<and>
        dir (find_release_artifact files ''bundle'') = Some tarball \<and>
        map_option (\<lambda>a. bundle_entries lib files [] (ac_entries a)) (xl_archive lib tarball) = Some (Some seen) \<and>
        (\<forall>f \<in> set (rm_files m). rf_path f = bundle_name_for_release files \<or> rf_path f \<in> set seen))"

lemma release_accepted:
  assumes "verify_authoritative_release lib dir tag sha trusted = None"
  shows "\<exists>raw m files. dir manifest_name = Some raw \<and> xl_manifest lib raw = Some m \<and>
    load_files lib dir [] (rm_files m) = Inr files \<and> manifest_ok tag sha m = None \<and>
    release_sound lib dir trusted m files"
proof -
  obtain raw m files key r p where raw: "read_release_file dir manifest_name = Some raw" and m: "xl_manifest lib raw = Some m"
    and mo: "manifest_ok tag sha m = None" and files: "load_files lib dir [] (rm_files m) = Inr files"
    and key: "release_key lib dir files m trusted = Inr key"
    and r: "release_register lib dir key (find_release_artifact files ''register'') = Inr r"
    and p: "release_packet lib dir key (find_release_artifact files ''packet'') = Inr p"
    and pair: "check_pair lib dir files m r p (find_release_artifact files ''register'') (find_release_artifact files ''packet'') = None"
    using assms by (auto simp: verify_authoritative_release_def Let_def split: option.splits sum.splits)
  have base: "files_hold lib dir []" by (simp add: files_hold_def)
  have hold: "files_hold lib dir files" "distinct (map rf_path (rm_files m))"
    "\<forall>f \<in> set (rm_files m). map_of files (rf_path f) = Some f" "fst ` set files = rf_path ` set (rm_files m)"
    using load_files_hold [OF files base] by simp_all
  obtain kraw where k: "dir (rm_key_path m) = Some kraw" "release_digest lib kraw = trusted"
    "base64_decode (trim_space kraw) = Some key" "length key = 32"
    using key by (auto simp: release_key_def read_release_file_def split: option.splits if_splits)
  have rr: "xl_register lib (release_text dir (find_release_artifact files ''register'')) = Some r"
    "verify_signed_register (xl_register_jcs lib) (xl_key_id lib) (xl_verify lib) key r = None"
    using r by (auto simp: release_register_def split: option.splits if_splits)
  have pp: "xl_packet lib (release_text dir (find_release_artifact files ''packet'')) = Some p"
    "verify_signed_packet (xl_packet_jcs lib) (xl_key_id lib) (xl_verify lib) key p = None"
    using p by (auto simp: release_packet_def split: option.splits if_splits)
  obtain tarball where b: "dir (find_release_artifact files ''bundle'') = Some tarball" "verify_release_bundle lib tarball files"
    and c: "length (rg_contracts r) = 1"
      "contract_digest_or_empty lib (hd (rg_contracts r)) = contract_digest_or_empty lib (pk_contract p)" "exact_evidence p"
    using pair by (auto simp: check_pair_def Let_def read_release_file_def split: option.splits if_splits)
  obtain a seen where a: "xl_archive lib tarball = Some a" "bundle_entries lib files [] (ac_entries a) = Some seen"
    "list_all (\<lambda>n. n = bundle_name_for_release files \<or> n \<in> set seen) (map fst files)"
    using b(2) by (auto simp: verify_release_bundle_def split: option.splits)
  have s: "\<forall>f \<in> set (rm_files m). rf_path f = bundle_name_for_release files \<or> rf_path f \<in> set seen"
    using a(3) hold(4) by (auto simp: list_all_iff)
  have flags: "rm_authoritative m" "\<not> rm_fixture_only m" "\<not> rm_non_authoritative m" "\<not> rm_quarantine m"
    using mo by (auto simp: manifest_ok_def Let_def split: prod.splits if_splits)
  have "release_sound lib dir trusted m files"
    unfolding release_sound_def using flags hold(1-3) k rr pp b(1) c a(1,2) s by auto
  then show ?thesis using raw m mo files by (auto simp: read_release_file_def split: if_splits)
qed

section \<open>The release a consumer accepts\<close>


definition demo_release_contract :: contract where
  "demo_release_contract = demo_contract\<lparr>gc_causal_ref := demo_full_ref ''c1'' ''action_contract'' CHR ''0''\<rparr>"

definition demo_release_register :: register where
  "demo_release_register = demo_signed_register\<lparr>rg_contracts := [demo_release_contract]\<rparr>"

definition demo_release_packet :: packet where
  "demo_release_packet = demo_signed\<lparr>pk_contract := demo_release_contract\<rparr>"

definition demo_release_key :: string where "demo_release_key = replicate 43 CHR ''A'' @ ''=''"

definition demo_zero :: string where "demo_zero = ''sha256:'' @ replicate 64 CHR ''0''"

definition demo_release_files :: "release_file list" where
  "demo_release_files = map (\<lambda>p. \<lparr>rf_path = p, rf_sha256 = demo_zero\<rparr>)
     [''axym-authoritative-action-contract-register.json'',
      ''axym-authoritative-action-contract-evidence-packet.json'',
      ''axym-authoritative-action-contract-register.schema.json'',
      ''axym-authoritative-action-contract-evidence-packet.schema.json'',
      ''signing/public-key.b64'', ''axym-bundle.tar.gz'']"

definition demo_release_manifest :: release_manifest where
  "demo_release_manifest = \<lparr>rm_version = ''v1'', rm_tag = ''v1.2.0'', rm_commit = replicate 40 CHR ''a'',
     rm_authoritative = True, rm_fixture_only = False, rm_non_authoritative = False, rm_quarantine = False,
     rm_producer = (''axym'', ''1.2.0'', ''release''), rm_generator = (''axym'', ''1.2.0''),
     rm_workflow = (''release'', ''refs/tags/v1.2.0'', ''7'', ''Clyra-AI/axym''), rm_algorithm = ''ed25519'',
     rm_key_path = ''signing/public-key.b64'', rm_key_sha256 = demo_zero, rm_key_origin = ''release_time_generated'',
     rm_artifacts = [(''register'', demo_zero), (''packet'', demo_zero), (''bundle'', demo_zero)],
     rm_schemas = map (\<lambda>(p, i, v). \<lparr>rs_path = p, rs_sha256 = demo_zero, rs_schema_id = i, rs_schema_version = v\<rparr>) expected_schemas,
     rm_files = demo_release_files\<rparr>"

definition demo_release_dir :: release_dir where
  "demo_release_dir = map_of
     [(manifest_name, ''m''), (''axym-authoritative-action-contract-register.json'', ''r''),
      (''axym-authoritative-action-contract-evidence-packet.json'', ''p''),
      (''axym-authoritative-action-contract-register.schema.json'', ''rs''),
      (''axym-authoritative-action-contract-evidence-packet.schema.json'', ''ps''),
      (''signing/public-key.b64'', demo_release_key), (''axym-bundle.tar.gz'', ''b'')]"

definition demo_release_lib :: release_lib where
  "demo_release_lib = \<lparr>xl_manifest = (\<lambda>s. if s = ''m'' then Some demo_release_manifest else None),
     xl_register = (\<lambda>s. if s = ''r'' then Some demo_release_register else None),
     xl_packet = (\<lambda>s. if s = ''p'' then Some demo_release_packet else None), xl_sha256 = (\<lambda>s. replicate 64 CHR ''0''),
     xl_register_jcs = demo_jcs, xl_packet_jcs = demo_jcs, xl_contract_jcs = demo_jcs, xl_key_id = (\<lambda>k. ''k''),
     xl_verify = (\<lambda>k s. Some True), xl_register_schema_ok = (\<lambda>s. True), xl_packet_schema_ok = (\<lambda>s. True),
     xl_archive = (\<lambda>s. Some \<lparr>ac_entries = map (\<lambda>f. \<lparr>ae_regular = True, ae_name = bundle_prefix @ rf_path f,
       ae_payload = Some (rf_path f)\<rparr>) (butlast demo_release_files), ac_ends = True, ac_closes = True\<rparr>),
     xl_schema_name = (\<lambda>s. Some (if s = ''ps'' then packet_schema_id else register_schema_id)),
     xl_register_schema = ''rs'', xl_packet_schema = ''ps''\<rparr>"

lemma demo_release_accepted:
  "verify_release_with_key_digest demo_release_lib demo_release_dir ''v1.2.0'' [] demo_zero = None"
  by code_simp


text \<open>The path check lets the parent directory itself through: it is clean, and has no slash.\<close>
lemma dotdot_is_safe: "safe_release_path ''..''"
  by code_simp

end
