(* ===== verification/Spec2Isabelle.thy ===== *)
theory Spec2Isabelle
  imports Prelude GoString GoTime GoValue Lifecycle Completeness Packet Timeline Gate Store Receipt
    Identity Build Compliance Match Coverage Telemetry GaitPack NativeStore
    Translate Project Control Masking Ticket Operator Policy Regress Wrkr Review Release
begin

text \<open>
  A verification development for Axym.
\<close>

end
